(* ===== verification/Prelude.thy ===== *)
theory Prelude
  imports Main "HOL-Library.Word" "HOL-Library.Code_Target_Nat"
begin

text \<open>
  Shared vocabulary of the development.

  \<^item> \<open>rbind\<close>: Rust's \<^verbatim>\<open>?\<close> operator on \<^verbatim>\<open>Result\<close> (a sum, \<open>Inl\<close> the error).
  \<^item> \<open>cbind\<close> and its kin: code that threads a state and may fail. The state a failing
    computation leaves behind is kept, as a Rust function that returns early keeps the
    side effects it already had.
  \<^item> \<open>spec\<close>: a Hoare triple for such computations with one postcondition for the normal
    and one for the error exit, and the rules by which the component proofs compose it.
\<close>

named_theorems result_simps "evaluation of rbind and cbind chains"
named_theorems spec_rules "Hoare rules of the state and error monad"

section \<open>Results\<close>

fun rbind :: "'e + 'a \<Rightarrow> ('a \<Rightarrow> 'e + 'b) \<Rightarrow> 'e + 'b" where
  "rbind (Inl e) f = Inl e"
| "rbind (Inr x) f = f x"

declare rbind.simps [result_simps]

lemma rbind_Inr_conv [result_simps]:
  "rbind m f = Inr y \<longleftrightarrow> (\<exists>x. m = Inr x \<and> f x = Inr y)"
  by (cases m) auto

lemma rbind_Inl_conv [result_simps]:
  "rbind m f = Inl e \<longleftrightarrow> m = Inl e \<or> (\<exists>x. m = Inr x \<and> f x = Inl e)"
  by (cases m) auto

lemma rbind_split:
  "P (rbind m f) \<longleftrightarrow> (\<forall>e. m = Inl e \<longrightarrow> P (Inl e)) \<and> (\<forall>x. m = Inr x \<longrightarrow> P (f x))"
  by (cases m) auto

lemma rbind_assoc: "rbind (rbind m f) g = rbind m (\<lambda>x. rbind (f x) g)"
  by (cases m) auto

definition ok_or :: "'a option \<Rightarrow> 'e \<Rightarrow> 'e + 'a" where
  "ok_or v e = (case v of None \<Rightarrow> Inl e | Some x \<Rightarrow> Inr x)"

lemma ok_or_simps [simp, result_simps]: "ok_or None e = Inl e" "ok_or (Some x) e = Inr x"
  by (simp_all add: ok_or_def)

lemma ok_or_Inr_conv [simp]: "ok_or v e = Inr x \<longleftrightarrow> v = Some x"
  by (cases v) auto

text \<open>\<^verbatim>\<open>iter().map(f).collect::<Result<Vec<_>,_>>()\<close>: the first error wins.\<close>

fun rcollect :: "('a \<Rightarrow> 'e + 'b) \<Rightarrow> 'a list \<Rightarrow> 'e + 'b list" where
  "rcollect f [] = Inr []"
| "rcollect f (x # xs) = rbind (f x) (\<lambda>y. rbind (rcollect f xs) (\<lambda>ys. Inr (y # ys)))"

lemma rcollect_InrD:
  "rcollect f xs = Inr ys \<Longrightarrow> length ys = length xs \<and> (\<forall>i < length xs. f (xs ! i) = Inr (ys ! i))"
proof (induction xs arbitrary: ys)
  case (Cons x xs)
  then obtain z zs where "f x = Inr z" "rcollect f xs = Inr zs" "ys = z # zs"
    by (auto simp: result_simps)
  with Cons.IH [of zs] show ?case
    by (auto simp: nth_Cons split: nat.splits)
qed simp

lemma rcollect_Inr_map: "(\<And>x. x \<in> set xs \<Longrightarrow> f x = Inr (g x)) \<Longrightarrow> rcollect f xs = Inr (map g xs)"
  by (induction xs) auto

text \<open>A \<^verbatim>\<open>for\<close> loop whose body may return an error, over an accumulator.\<close>

fun rfold :: "('a \<Rightarrow> 'b \<Rightarrow> 'e + 'b) \<Rightarrow> 'a list \<Rightarrow> 'b \<Rightarrow> 'e + 'b" where
  "rfold f [] acc = Inr acc"
| "rfold f (x # xs) acc = rbind (f x acc) (rfold f xs)"

lemma rfold_unit_Inr_conv:
  "rfold f xs () = Inr () \<longleftrightarrow> (\<forall>x\<in>set xs. f x () = Inr ())"
  by (induction xs) (auto simp: result_simps)

section \<open>State and error monad\<close>

type_synonym ('s, 'e, 'a) cmd = "'s \<Rightarrow> ('e + 'a) \<times> 's"

definition creturn :: "'a \<Rightarrow> ('s, 'e, 'a) cmd" where
  "creturn x s = (Inr x, s)"

definition cthrow :: "'e \<Rightarrow> ('s, 'e, 'a) cmd" where
  "cthrow e s = (Inl e, s)"

definition cbind :: "('s, 'e, 'a) cmd \<Rightarrow> ('a \<Rightarrow> ('s, 'e, 'b) cmd) \<Rightarrow> ('s, 'e, 'b) cmd" where
  "cbind m f s = (case m s of (Inl e, s') \<Rightarrow> (Inl e, s') | (Inr x, s') \<Rightarrow> f x s')"

definition clift :: "'e + 'a \<Rightarrow> ('s, 'e, 'a) cmd" where
  "clift r s = (r, s)"

definition cgets :: "('s \<Rightarrow> 'a) \<Rightarrow> ('s, 'e, 'a) cmd" where
  "cgets f s = (Inr (f s), s)"

definition cmodify :: "('s \<Rightarrow> 's) \<Rightarrow> ('s, 'e, unit) cmd" where
  "cmodify f s = (Inr (), f s)"

lemmas cmd_defs = creturn_def cthrow_def cbind_def clift_def cgets_def cmodify_def

text \<open>A \<^verbatim>\<open>for\<close> loop over a list with early return.\<close>

fun cfold :: "('a \<Rightarrow> 'b \<Rightarrow> ('s, 'e, 'b) cmd) \<Rightarrow> 'a list \<Rightarrow> 'b \<Rightarrow> ('s, 'e, 'b) cmd" where
  "cfold f [] acc = creturn acc"
| "cfold f (x # xs) acc = cbind (f x acc) (cfold f xs)"

fun cforeach :: "('a \<Rightarrow> ('s, 'e, unit) cmd) \<Rightarrow> 'a list \<Rightarrow> ('s, 'e, unit) cmd" where
  "cforeach f [] = creturn ()"
| "cforeach f (x # xs) = cbind (f x) (\<lambda>_. cforeach f xs)"

fun cmapM :: "('a \<Rightarrow> ('s, 'e, 'b) cmd) \<Rightarrow> 'a list \<Rightarrow> ('s, 'e, 'b list) cmd" where
  "cmapM f [] = creturn []"
| "cmapM f (x # xs) = cbind (f x) (\<lambda>y. cbind (cmapM f xs) (\<lambda>ys. creturn (y # ys)))"

section \<open>Hoare triples\<close>

definition spec :: "('s \<Rightarrow> bool) \<Rightarrow> ('s, 'e, 'a) cmd \<Rightarrow> ('a \<Rightarrow> 's \<Rightarrow> bool) \<Rightarrow> ('e \<Rightarrow> 's \<Rightarrow> bool) \<Rightarrow> bool" where
  "spec P m Q E \<longleftrightarrow> (\<forall>s. P s \<longrightarrow> (case m s of (Inl e, s') \<Rightarrow> E e s' | (Inr x, s') \<Rightarrow> Q x s'))"

lemma specI: "(\<And>s. P s \<Longrightarrow> case m s of (Inl e, s') \<Rightarrow> E e s' | (Inr x, s') \<Rightarrow> Q x s') \<Longrightarrow> spec P m Q E"
  by (simp add: spec_def)

lemma spec_InrD: "spec P m Q E \<Longrightarrow> P s \<Longrightarrow> m s = (Inr x, s') \<Longrightarrow> Q x s'"
  by (fastforce simp: spec_def)

lemma spec_InlD: "spec P m Q E \<Longrightarrow> P s \<Longrightarrow> m s = (Inl e, s') \<Longrightarrow> E e s'"
  by (fastforce simp: spec_def)

lemma spec_return [spec_rules]: "(\<And>s. P s \<Longrightarrow> Q x s) \<Longrightarrow> spec P (creturn x) Q E"
  by (simp add: spec_def creturn_def)

lemma spec_throw [spec_rules]: "(\<And>s. P s \<Longrightarrow> E e s) \<Longrightarrow> spec P (cthrow e) Q E"
  by (simp add: spec_def cthrow_def)

lemma spec_lift [spec_rules]:
  "(\<And>x s. r = Inr x \<Longrightarrow> P s \<Longrightarrow> Q x s) \<Longrightarrow> (\<And>e s. r = Inl e \<Longrightarrow> P s \<Longrightarrow> E e s) \<Longrightarrow> spec P (clift r) Q E"
  by (cases r) (simp_all add: spec_def clift_def)

lemma spec_bind [spec_rules]:
  assumes "spec P m R E" and "\<And>x. spec (R x) (f x) Q E"
  shows "spec P (cbind m f) Q E"
proof (rule specI)
  fix s assume "P s"
  with assms show "case cbind m f s of (Inl e, s') \<Rightarrow> E e s' | (Inr x, s') \<Rightarrow> Q x s'"
    by (cases "m s" rule: prod.exhaust, cases "fst (m s)")
      (fastforce simp: spec_def cbind_def)+
qed

lemma spec_if [spec_rules]:
  "(b \<Longrightarrow> spec P m Q E) \<Longrightarrow> (\<not> b \<Longrightarrow> spec P n Q E) \<Longrightarrow> spec P (if b then m else n) Q E"
  by simp

lemma spec_option [spec_rules]:
  "(v = None \<Longrightarrow> spec P m Q E) \<Longrightarrow> (\<And>x. v = Some x \<Longrightarrow> spec P (f x) Q E) \<Longrightarrow>
   spec P (case v of None \<Rightarrow> m | Some x \<Rightarrow> f x) Q E"
  by (cases v) simp_all

lemma spec_conseq:
  "spec P' m Q' E' \<Longrightarrow> (\<And>s. P s \<Longrightarrow> P' s) \<Longrightarrow> (\<And>x s. Q' x s \<Longrightarrow> Q x s) \<Longrightarrow>
   (\<And>e s. E' e s \<Longrightarrow> E e s) \<Longrightarrow> spec P m Q E"
  unfolding spec_def by (fastforce split: prod.splits sum.splits)

lemma spec_fold:
  assumes "\<And>x acc. x \<in> set xs \<Longrightarrow> spec (I acc) (f x acc) I E"
  shows "spec (I acc) (cfold f xs acc) I E"
  using assms
proof (induction xs arbitrary: acc)
  case Nil
  show ?case by (simp add: spec_return)
next
  case (Cons x xs)
  then show ?case by (auto intro!: spec_bind)
qed

lemma spec_foreach:
  assumes "\<And>x. x \<in> set xs \<Longrightarrow> spec I (f x) (\<lambda>_. I) E"
  shows "spec I (cforeach f xs) (\<lambda>_. I) E"
  using assms
proof (induction xs)
  case Nil
  show ?case by (simp add: spec_return)
next
  case (Cons x xs)
  then show ?case by (auto intro!: spec_bind)
qed

lemma spec_mapM:
  assumes "\<And>x. x \<in> set xs \<Longrightarrow> spec I (f x) (\<lambda>_. I) E"
  shows "spec I (cmapM f xs) (\<lambda>_. I) E"
  using assms
proof (induction xs)
  case Nil
  show ?case by (simp add: spec_return)
next
  case (Cons x xs)
  then have "spec I (cmapM f xs) (\<lambda>_. I) E" by simp
  with Cons.prems show ?case
    by (auto intro!: spec_bind spec_return)
qed

text \<open>An invariant of a computation: it holds afterwards whichever way it exits.\<close>

abbreviation inv_cmd :: "('s \<Rightarrow> bool) \<Rightarrow> ('s, 'e, 'a) cmd \<Rightarrow> bool" where
  "inv_cmd I m \<equiv> spec I m (\<lambda>_. I) (\<lambda>_. I)"

section \<open>Lists\<close>

lemma find_Some_iff2: "List.find P xs = Some x \<Longrightarrow> x \<in> set xs \<and> P x"
  by (auto simp: find_Some_iff)

lemma distinct_map_filter [simp, intro]: "distinct (map f xs) \<Longrightarrow> distinct (map f (filter P xs))"
  by (induction xs) auto

definition update_where :: "('r \<Rightarrow> bool) \<Rightarrow> ('r \<Rightarrow> 'r) \<Rightarrow> 'r list \<Rightarrow> 'r list" where
  "update_where P f rows = map (\<lambda>r. if P r then f r else r) rows"

lemma update_where_simps [simp]:
  "update_where P f [] = []"
  "update_where P f (r # rs) = (if P r then f r else r) # update_where P f rs"
  by (simp_all add: update_where_def)

lemma length_update_where [simp]: "length (update_where P f rows) = length rows"
  by (simp add: update_where_def)

lemma map_update_where:
  "(\<And>r. P r \<Longrightarrow> k (f r) = k r) \<Longrightarrow> map k (update_where P f rows) = map k rows"
  by (induction rows) auto

lemma set_update_where: "set (update_where P f rows) = (\<lambda>r. if P r then f r else r) ` set rows"
  by (simp add: update_where_def)

section \<open>Rows by key\<close>

lemma filter_key:
  "distinct (map k xs) \<Longrightarrow> x \<in> set xs \<Longrightarrow> filter (\<lambda>y. k y = k x) xs = [x]"
  by (induction xs) (auto simp: filter_empty_conv rev_image_eqI)

lemma find_by_id:
  "distinct (map k xs) \<Longrightarrow> x \<in> set xs \<Longrightarrow> List.find (\<lambda>y. k y = k x) xs = Some x"
  by (induction xs) (auto simp: rev_image_eqI)

end
