(* ===== verification/Rust_Str.thy ===== *)
theory Rust_Str
  imports Prelude
begin

text \<open>
  The part of Rust's standard string API the program uses. A \<^verbatim>\<open>&str\<close> or
  \<^verbatim>\<open>String\<close> is the list of its UTF-8 bytes, one \<^typ>\<open>char\<close> per byte, so
  \<open>length\<close> is \<^verbatim>\<open>len()\<close> and indices are byte indices, as in the source. Loops of
  the source that iterate over \<^verbatim>\<open>chars()\<close> and compare with ASCII characters are
  modelled on bytes: every byte of a multi-byte character is at least 0x80. White space is
  Unicode's, as \<^verbatim>\<open>trim\<close> and \<^verbatim>\<open>split_whitespace\<close> read it.
\<close>

abbreviation byte :: "char \<Rightarrow> nat" where "byte c \<equiv> of_char c"

section \<open>Characters\<close>

definition is_upper :: "char \<Rightarrow> bool" where
  "is_upper c \<longleftrightarrow> 65 \<le> byte c \<and> byte c \<le> 90"

definition is_lower :: "char \<Rightarrow> bool" where
  "is_lower c \<longleftrightarrow> 97 \<le> byte c \<and> byte c \<le> 122"

definition is_digit :: "char \<Rightarrow> bool" where
  "is_digit c \<longleftrightarrow> 48 \<le> byte c \<and> byte c \<le> 57"

definition is_alpha :: "char \<Rightarrow> bool" where
  "is_alpha c \<longleftrightarrow> is_upper c \<or> is_lower c"

definition is_alnum :: "char \<Rightarrow> bool" where
  "is_alnum c \<longleftrightarrow> is_alpha c \<or> is_digit c"

text \<open>\<^verbatim>\<open>u8::is_ascii_whitespace\<close>: space, tab, line feed, form feed, carriage return.\<close>

definition is_ascii_ws :: "char \<Rightarrow> bool" where
  "is_ascii_ws c \<longleftrightarrow> byte c = 32 \<or> byte c = 9 \<or> byte c = 10 \<or> byte c = 12 \<or> byte c = 13"

fun set_bit5 :: "char \<Rightarrow> char" where
  "set_bit5 (Char b0 b1 b2 b3 b4 b5 b6 b7) = Char b0 b1 b2 b3 b4 True b6 b7"

definition lower_char :: "char \<Rightarrow> char" where
  "lower_char c = (if is_upper c then set_bit5 c else c)"

definition to_lower :: "string \<Rightarrow> string" where
  "to_lower s = map lower_char s"

definition eq_ignore_case :: "string \<Rightarrow> string \<Rightarrow> bool" where
  "eq_ignore_case a b \<longleftrightarrow> to_lower a = to_lower b"

lemmas char_class_defs =
  is_upper_def is_lower_def is_digit_def is_alpha_def is_alnum_def is_ascii_ws_def

lemma byte_set_bit5: "is_upper c \<Longrightarrow> byte (set_bit5 c) = byte c + 32"
  by (cases c) (auto simp: is_upper_def of_bool_def split: if_splits)

lemma lower_char_idem [simp]: "lower_char (lower_char c) = lower_char c"
  by (auto simp: lower_char_def is_upper_def byte_set_bit5)

lemma to_lower_idem [simp]: "to_lower (to_lower s) = to_lower s"
  by (simp add: to_lower_def)

lemma length_to_lower [simp]: "length (to_lower s) = length s"
  by (simp add: to_lower_def)

lemma to_lower_simps [simp]: "to_lower [] = []" "to_lower (c # s) = lower_char c # to_lower s"
  "to_lower (s @ t) = to_lower s @ to_lower t"
  by (simp_all add: to_lower_def)

lemma lower_char_not_upper: "\<not> is_upper c \<Longrightarrow> lower_char c = c"
  by (simp add: lower_char_def)

lemma lower_char_eq_iff_not_alpha:
  assumes "\<not> is_alpha d"
  shows "lower_char c = d \<longleftrightarrow> c = d"
proof (cases "is_upper c")
  case True
  then have "byte (lower_char c) = byte c + 32" "65 \<le> byte c" "byte c \<le> 90"
    by (simp_all add: lower_char_def byte_set_bit5 is_upper_def)
  then have "is_lower (lower_char c)" by (simp add: is_lower_def)
  with assms True show ?thesis by (auto simp: is_alpha_def)
qed (simp add: lower_char_def)

lemma eq_ignore_case_refl [simp]: "eq_ignore_case s s"
  by (simp add: eq_ignore_case_def)

lemma eq_ignore_case_sym: "eq_ignore_case a b \<longleftrightarrow> eq_ignore_case b a"
  by (auto simp: eq_ignore_case_def)

section \<open>White space and trimming\<close>

text \<open>The length in bytes of the white-space character a string starts with, 0 if none.\<close>

definition ws1 :: "char \<Rightarrow> bool" where
  "ws1 a \<longleftrightarrow> (9 \<le> byte a \<and> byte a \<le> 13) \<or> byte a = 32"

definition ws2 :: "char \<Rightarrow> char \<Rightarrow> bool" where
  "ws2 a b \<longleftrightarrow> byte a = 194 \<and> (byte b = 133 \<or> byte b = 160)"

definition ws3 :: "char \<Rightarrow> char \<Rightarrow> char \<Rightarrow> bool" where
  "ws3 a b c \<longleftrightarrow>
     (byte a = 225 \<and> byte b = 154 \<and> byte c = 128) \<or>
     (byte a = 226 \<and> byte b = 128 \<and>
        ((128 \<le> byte c \<and> byte c \<le> 138) \<or> byte c = 168 \<or> byte c = 169 \<or> byte c = 175)) \<or>
     (byte a = 226 \<and> byte b = 129 \<and> byte c = 159) \<or>
     (byte a = 227 \<and> byte b = 128 \<and> byte c = 128)"

definition ws_len :: "string \<Rightarrow> nat" where
  "ws_len s = (case s of [] \<Rightarrow> 0
     | a # r \<Rightarrow> if ws1 a then 1
        else (case r of [] \<Rightarrow> 0
          | b # r' \<Rightarrow> if ws2 a b then 2
             else (case r' of [] \<Rightarrow> 0 | c # _ \<Rightarrow> if ws3 a b c then 3 else 0)))"

text \<open>The same for the last character, on the reversed string.\<close>

definition ws_len_rev :: "string \<Rightarrow> nat" where
  "ws_len_rev s = (case s of [] \<Rightarrow> 0
     | c # r \<Rightarrow> if ws1 c then 1
        else (case r of [] \<Rightarrow> 0
          | b # r' \<Rightarrow> if ws2 b c then 2
             else (case r' of [] \<Rightarrow> 0 | a # _ \<Rightarrow> if ws3 a b c then 3 else 0)))"

lemma ws_len_Nil [simp]: "ws_len [] = 0" "ws_len_rev [] = 0"
  by (simp_all add: ws_len_def ws_len_rev_def)

function trim_start :: "string \<Rightarrow> string" where
  "trim_start s = (if ws_len s = 0 then s else trim_start (drop (ws_len s) s))"
  by pat_completeness auto
termination
proof (relation "measure length")
  fix s :: string assume "ws_len s \<noteq> 0"
  then have "s \<noteq> []" by auto
  with \<open>ws_len s \<noteq> 0\<close> show "(drop (ws_len s) s, s) \<in> measure length" by (cases s) auto
qed simp

function trim_start_rev :: "string \<Rightarrow> string" where
  "trim_start_rev s = (if ws_len_rev s = 0 then s else trim_start_rev (drop (ws_len_rev s) s))"
  by pat_completeness auto
termination
proof (relation "measure length")
  fix s :: string assume "ws_len_rev s \<noteq> 0"
  then have "s \<noteq> []" by auto
  with \<open>ws_len_rev s \<noteq> 0\<close> show "(drop (ws_len_rev s) s, s) \<in> measure length" by (cases s) auto
qed simp

declare trim_start.simps [simp del] trim_start_rev.simps [simp del]

definition trim_end :: "string \<Rightarrow> string" where
  "trim_end s = rev (trim_start_rev (rev s))"

definition trim :: "string \<Rightarrow> string" where
  "trim s = trim_end (trim_start s)"

lemma trim_start_id: "ws_len s = 0 \<Longrightarrow> trim_start s = s"
  by (subst trim_start.simps) simp

lemma trim_start_Nil [simp]: "trim_start [] = []"
  by (simp add: trim_start_id)

lemma ws_len_trim_start [simp]: "ws_len (trim_start s) = 0"
proof (induction s rule: trim_start.induct)
  case (1 s)
  then show ?case by (subst trim_start.simps) auto
qed

lemma trim_start_idem [simp]: "trim_start (trim_start s) = trim_start s"
  by (rule trim_start_id) simp

lemma trim_start_suffix: "\<exists>k. trim_start s = drop k s"
proof (induction s rule: trim_start.induct)
  case (1 s)
  show ?case
  proof (cases "ws_len s = 0")
    case True
    then show ?thesis by (auto simp: trim_start_id intro: exI [of _ 0])
  next
    case False
    then obtain k where "trim_start (drop (ws_len s) s) = drop k (drop (ws_len s) s)"
      using 1 by auto
    with False show ?thesis by (subst trim_start.simps) auto
  qed
qed

lemma length_trim_start: "length (trim_start s) \<le> length s"
  using trim_start_suffix [of s] by auto

lemma trim_start_rev_suffix: "\<exists>k. trim_start_rev s = drop k s"
proof (induction s rule: trim_start_rev.induct)
  case (1 s)
  show ?case
  proof (cases "ws_len_rev s = 0")
    case True
    then show ?thesis by (subst trim_start_rev.simps) (auto intro: exI [of _ 0])
  next
    case False
    then obtain k where "trim_start_rev (drop (ws_len_rev s) s) = drop k (drop (ws_len_rev s) s)"
      using 1 by auto
    with False show ?thesis by (subst trim_start_rev.simps) auto
  qed
qed

lemma trim_end_prefix: "\<exists>k. trim_end s = take k s"
proof -
  obtain k where "trim_start_rev (rev s) = drop k (rev s)"
    using trim_start_rev_suffix by blast
  then have "trim_end s = take (length s - k) s"
    by (simp add: trim_end_def rev_drop)
  then show ?thesis ..
qed

lemma length_trim: "length (trim s) \<le> length s"
proof -
  obtain k where "trim_end (trim_start s) = take k (trim_start s)"
    using trim_end_prefix by blast
  with length_trim_start [of s] show ?thesis by (simp add: trim_def min.coboundedI2)
qed

lemma trim_end_id: "ws_len_rev (rev s) = 0 \<Longrightarrow> trim_end s = s"
  by (simp add: trim_end_def trim_start_rev.simps [of "rev s"])

lemma trim_end_Nil [simp]: "trim_end [] = []"
  by (simp add: trim_end_id)

lemma trim_id: "ws_len s = 0 \<Longrightarrow> ws_len_rev (rev s) = 0 \<Longrightarrow> trim s = s"
  by (simp add: trim_def trim_start_id trim_end_id)

text \<open>ASCII characters other than white space neither start nor end a run of white space.\<close>

definition plain :: "char \<Rightarrow> bool" where
  "plain c \<longleftrightarrow> byte c < 128 \<and> \<not> ws1 c"

lemma ws_len_plain: "plain c \<Longrightarrow> ws_len (c # s) = 0"
  by (auto simp: ws_len_def plain_def ws2_def ws3_def split: list.splits)

lemma ws_len_rev_plain: "plain c \<Longrightarrow> ws_len_rev (c # s) = 0"
  by (auto simp: ws_len_rev_def plain_def ws2_def ws3_def split: list.splits)

lemma trim_plain:
  assumes "s \<noteq> []" "plain (hd s)" "plain (last s)"
  shows "trim s = s"
proof (rule trim_id)
  show "ws_len s = 0" using assms by (cases s) (auto simp: ws_len_plain)
  have "rev s = last s # rev (butlast s)"
    using assms(1) by (metis append_butlast_last_id rev_eq_Cons_iff rev_rev_ident)
  with assms(3) show "ws_len_rev (rev s) = 0" by (metis ws_len_rev_plain)
qed

lemma plain_digit: "is_digit c \<Longrightarrow> plain c"
  by (auto simp: plain_def is_digit_def ws1_def)

definition trim_end_matches :: "char \<Rightarrow> string \<Rightarrow> string" where
  "trim_end_matches c s = rev (dropWhile ((=) c) (rev s))"

definition trim_start_matches :: "char \<Rightarrow> string \<Rightarrow> string" where
  "trim_start_matches c s = dropWhile ((=) c) s"

definition trim_matches :: "(char \<Rightarrow> bool) \<Rightarrow> string \<Rightarrow> string" where
  "trim_matches p s = rev (dropWhile p (rev (dropWhile p s)))"

text \<open>\<^verbatim>\<open>split_whitespace\<close> and \<^verbatim>\<open>split_ascii_whitespace\<close>: maximal runs without white space.\<close>

function split_ws_from :: "string \<Rightarrow> string \<Rightarrow> string list" where
  "split_ws_from acc s =
     (if s = [] then (if acc = [] then [] else [acc])
      else if ws_len s > 0
        then (if acc = [] then [] else [acc]) @ split_ws_from [] (drop (ws_len s) s)
        else split_ws_from (acc @ [hd s]) (tl s))"
  by pat_completeness auto
termination
  by (relation "measure (\<lambda>(acc, s). length s)") (auto simp: neq_Nil_conv)

declare split_ws_from.simps [simp del]

definition split_whitespace :: "string \<Rightarrow> string list" where
  "split_whitespace s = split_ws_from [] s"

fun split_ascii_ws_from :: "string \<Rightarrow> string \<Rightarrow> string list" where
  "split_ascii_ws_from acc [] = (if acc = [] then [] else [acc])"
| "split_ascii_ws_from acc (c # s) =
     (if is_ascii_ws c then (if acc = [] then [] else [acc]) @ split_ascii_ws_from [] s
      else split_ascii_ws_from (acc @ [c]) s)"

definition split_ascii_whitespace :: "string \<Rightarrow> string list" where
  "split_ascii_whitespace s = split_ascii_ws_from [] s"

lemma split_ws_from_nonempty: "t \<in> set (split_ws_from acc s) \<Longrightarrow> t \<noteq> []"
proof (induction acc s rule: split_ws_from.induct)
  case (1 acc s)
  from "1.prems" show ?case
    by (subst (asm) split_ws_from.simps)
      (auto split: if_splits dest: "1.IH")
qed

section \<open>Searching and splitting\<close>

fun starts_with :: "string \<Rightarrow> string \<Rightarrow> bool" where
  "starts_with [] s = True"
| "starts_with (p # ps) [] = False"
| "starts_with (p # ps) (c # s) = (p = c \<and> starts_with ps s)"

definition ends_with :: "string \<Rightarrow> string \<Rightarrow> bool" where
  "ends_with p s = starts_with (rev p) (rev s)"

fun contains :: "string \<Rightarrow> string \<Rightarrow> bool" where
  "contains p [] = (p = [])"
| "contains p (c # s) = (starts_with p (c # s) \<or> contains p s)"

lemma starts_with_iff: "starts_with p s \<longleftrightarrow> (\<exists>t. s = p @ t)"
  by (induction p s rule: starts_with.induct) auto

lemma ends_with_iff: "ends_with p s \<longleftrightarrow> (\<exists>t. s = t @ p)"
  by (auto simp: ends_with_def starts_with_iff)
    (metis rev_append rev_rev_ident)

lemma starts_with_append [simp]: "starts_with p (p @ s)"
  by (auto simp: starts_with_iff)

lemma contains_iff: "contains p s \<longleftrightarrow> (\<exists>a b. s = a @ p @ b)"
proof (induction s)
  case (Cons c s)
  have "(\<exists>a b. c # s = a @ p @ b) \<longleftrightarrow> (\<exists>b. c # s = p @ b) \<or> (\<exists>a b. s = a @ p @ b)"
    by (auto simp: Cons_eq_append_conv)
  with Cons.IH show ?case by (simp add: starts_with_iff)
qed simp

definition strip_prefix :: "string \<Rightarrow> string \<Rightarrow> string option" where
  "strip_prefix p s = (if starts_with p s then Some (drop (length p) s) else None)"

definition strip_suffix :: "string \<Rightarrow> string \<Rightarrow> string option" where
  "strip_suffix p s = (if ends_with p s then Some (take (length s - length p) s) else None)"

fun find_char :: "char \<Rightarrow> string \<Rightarrow> nat option" where
  "find_char c [] = None"
| "find_char c (x # xs) = (if x = c then Some 0 else map_option Suc (find_char c xs))"

definition rfind_char :: "char \<Rightarrow> string \<Rightarrow> nat option" where
  "rfind_char c s = map_option (\<lambda>i. length s - Suc i) (find_char c (rev s))"

lemma find_char_SomeD: "find_char c s = Some i \<Longrightarrow> i < length s \<and> s ! i = c \<and> c \<notin> set (take i s)"
  by (induction s arbitrary: i) (auto split: if_splits)

lemma find_char_None_iff: "find_char c s = None \<longleftrightarrow> c \<notin> set s"
  by (induction s) auto

lemma find_char_append: "c \<notin> set a \<Longrightarrow> find_char c (a @ c # b) = Some (length a)"
  by (induction a) auto

lemma rfind_char_append: "c \<notin> set b \<Longrightarrow> rfind_char c (a @ c # b) = Some (length a)"
  by (simp add: rfind_char_def find_char_append)

definition split_once :: "char \<Rightarrow> string \<Rightarrow> (string \<times> string) option" where
  "split_once c s = map_option (\<lambda>i. (take i s, drop (Suc i) s)) (find_char c s)"

lemma split_once_append: "c \<notin> set a \<Longrightarrow> split_once c (a @ c # b) = Some (a, b)"
  by (simp add: split_once_def find_char_append)

fun split_by_from :: "(char \<Rightarrow> bool) \<Rightarrow> string \<Rightarrow> string \<Rightarrow> string list" where
  "split_by_from p acc [] = [acc]"
| "split_by_from p acc (c # s) =
     (if p c then acc # split_by_from p [] s else split_by_from p (acc @ [c]) s)"

definition split_by :: "(char \<Rightarrow> bool) \<Rightarrow> string \<Rightarrow> string list" where
  "split_by p s = split_by_from p [] s"

lemma split_by_from_no: "\<forall>c\<in>set s. \<not> p c \<Longrightarrow> split_by_from p acc s = [acc @ s]"
  by (induction s arbitrary: acc) auto

fun join :: "string \<Rightarrow> string list \<Rightarrow> string" where
  "join sep [] = []"
| "join sep [x] = x"
| "join sep (x # y # xs) = x @ sep @ join sep (y # xs)"

section \<open>Replacement\<close>

text \<open>\<^verbatim>\<open>replace(c, rep)\<close> for a character, and for the doubled character.\<close>

definition replace_char :: "char \<Rightarrow> string \<Rightarrow> string \<Rightarrow> string" where
  "replace_char c rep s = concat (map (\<lambda>x. if x = c then rep else [x]) s)"

fun undouble :: "char \<Rightarrow> string \<Rightarrow> string" where
  "undouble q (a # b # s) = (if a = q \<and> b = q then q # undouble q s else a # undouble q (b # s))"
| "undouble q s = s"

lemma replace_char_simps [simp]:
  "replace_char c rep [] = []"
  "replace_char c rep (x # s) = (if x = c then rep else [x]) @ replace_char c rep s"
  "replace_char c rep (s @ t) = replace_char c rep s @ replace_char c rep t"
  by (simp_all add: replace_char_def)

lemma undouble_replace_char: "undouble q (replace_char q [q, q] s) = s"
proof (induction s)
  case (Cons x s)
  show ?case
  proof (cases "x = q")
    case False
    have "undouble q (x # t) = x # undouble q t" for t
      using False by (cases t) auto
    with False Cons show ?thesis by simp
  qed (use Cons in simp)
qed simp

lemma set_replace_char: "set (replace_char c rep s) \<subseteq> set s \<union> set rep"
  by (induction s) auto

lemma replace_char_absent: "c \<notin> set s \<Longrightarrow> replace_char c rep s = s"
  by (induction s) auto

section \<open>Numbers\<close>

definition digit_char :: "nat \<Rightarrow> char" where
  "digit_char n = char_of (48 + n)"

definition digit_val :: "char \<Rightarrow> nat" where
  "digit_val c = byte c - 48"

fun show_nat :: "nat \<Rightarrow> string" where
  "show_nat n = (if n < 10 then [digit_char n] else show_nat (n div 10) @ [digit_char (n mod 10)])"

declare show_nat.simps [simp del]

definition show_int :: "int \<Rightarrow> string" where
  "show_int i = (if i < 0 then CHR ''-'' # show_nat (nat (- i)) else show_nat (nat i))"

text \<open>\<^verbatim>\<open>{:0w}\<close>\<close>

definition pad0 :: "nat \<Rightarrow> nat \<Rightarrow> string" where
  "pad0 w n = replicate (w - length (show_nat n)) (CHR ''0'') @ show_nat n"

fun digits_from :: "nat \<Rightarrow> string \<Rightarrow> nat option" where
  "digits_from acc [] = Some acc"
| "digits_from acc (c # s) = (if is_digit c then digits_from (10 * acc + digit_val c) s else None)"

text \<open>
  \<^verbatim>\<open>str::parse\<close> for an unsigned type with the given largest value, and for a signed
  type: an optional sign, at least one digit, no overflow.
\<close>

definition parse_unsigned :: "nat \<Rightarrow> string \<Rightarrow> nat option" where
  "parse_unsigned hi s =
     (let d = (case s of [] \<Rightarrow> [] | c # r \<Rightarrow> if c = CHR ''+'' then r else s)
      in if d = [] then None
         else (case digits_from 0 d of None \<Rightarrow> None | Some n \<Rightarrow> if n \<le> hi then Some n else None))"

definition parse_signed :: "int \<Rightarrow> int \<Rightarrow> string \<Rightarrow> int option" where
  "parse_signed lo hi s =
     (let neg = (s \<noteq> [] \<and> hd s = CHR ''-'');
          d = (case s of [] \<Rightarrow> [] | c # r \<Rightarrow> if c = CHR ''+'' \<or> c = CHR ''-'' then r else s)
      in if d = [] then None
         else (case digits_from 0 d of None \<Rightarrow> None
           | Some n \<Rightarrow> let v = (if neg then - int n else int n)
                       in if lo \<le> v \<and> v \<le> hi then Some v else None))"

lemma byte_digit_char: "n < 10 \<Longrightarrow> byte (digit_char n) = 48 + n"
  by (simp add: digit_char_def)

lemma digit_char_props [simp]:
  "n < 10 \<Longrightarrow> is_digit (digit_char n)" "n < 10 \<Longrightarrow> digit_val (digit_char n) = n"
  by (simp_all add: is_digit_def digit_val_def byte_digit_char)

lemma digits_from_append:
  "digits_from acc (s @ t) = (case digits_from acc s of None \<Rightarrow> None | Some n \<Rightarrow> digits_from n t)"
  by (induction s arbitrary: acc) auto

lemma show_nat_nonempty [simp]: "show_nat n \<noteq> []"
  by (subst show_nat.simps) simp

lemma show_nat_digits: "c \<in> set (show_nat n) \<Longrightarrow> is_digit c"
proof (induction n rule: show_nat.induct)
  case (1 n)
  from "1.prems" show ?case
    by (subst (asm) show_nat.simps) (auto split: if_splits dest: "1.IH")
qed

lemma digits_from_show_nat: "digits_from 0 (show_nat n) = Some n"
proof (induction n rule: show_nat.induct)
  case (1 n)
  show ?case
  proof (cases "n < 10")
    case True
    then show ?thesis by (subst show_nat.simps) simp
  next
    case False
    with 1 show ?thesis by (subst show_nat.simps) (simp add: digits_from_append)
  qed
qed

lemma show_nat_inject [simp]: "show_nat m = show_nat n \<longleftrightarrow> m = n"
  by (metis digits_from_show_nat option.inject)

lemma not_digit_show_nat: "\<not> is_digit c \<Longrightarrow> c \<notin> set (show_nat n)"
  using show_nat_digits by blast

lemma parse_unsigned_show_nat: "parse_unsigned hi (show_nat n) = (if n \<le> hi then Some n else None)"
proof -
  obtain c r where cr: "show_nat n = c # r" by (cases "show_nat n") auto
  with show_nat_digits [of c n] have "c \<noteq> CHR ''+''" by (auto simp: is_digit_def)
  with cr digits_from_show_nat [of n] show ?thesis by (simp add: parse_unsigned_def)
qed

lemma trim_show_nat [simp]: "trim (show_nat n) = show_nat n"
  by (rule trim_plain) (auto intro!: plain_digit show_nat_digits [of _ n])

end
