(* ===== verification/Sql_Ast.thy ===== *)
theory Sql_Ast
  imports Rust_Str
begin

text \<open>
  The statements the program receives from its SQL parser (the \<^verbatim>\<open>sqlparser\<close> crate),
  with the constructors and fields the program's own code matches on; the families
  \<^verbatim>\<open>Show*\<close>, \<^verbatim>\<open>Create*\<close>, \<^verbatim>\<open>Alter*\<close> and \<^verbatim>\<open>Drop*\<close> are grouped. The parser and
  the printer themselves are not part of the program: they are a parameter of the
  definitions that use them (record \<open>sqlparser\<close>).
\<close>

section \<open>Names\<close>

datatype name_part = Identifier string | FunctionPart string

type_synonym object_name = "name_part list"

datatype schema_name =
    SimpleSchema object_name
  | NamedAuthorization object_name string
  | UnnamedAuthorization string

datatype object_type = OTable | OView | OIndex | OUser | ORole | OOther string

datatype comment_object = CSchema | CTable | CView | CIndex | CColumn | COther string

section \<open>Privileges\<close>

datatype action =
    ASelect | ARead | AUsage | AInsert | AUpdate | ADelete | ACreate | ADrop | AOwnership
  | ARole object_name | AOther string

datatype privileges = AllPrivileges | Actions "action list"

datatype grant_objects =
    GTables "object_name list" | GViews "object_name list" | GSchemas "object_name list"
  | GDatabases "object_name list" | GOther string

datatype grantee_name = GName object_name | GUserHost string

datatype grantee_type = GTNone | GTUser | GTRole | GTOther string

record grantee =
  grantee_type :: grantee_type
  grantee_name :: "grantee_name option"

record grant_stmt =
  g_privileges :: privileges
  g_objects :: "grant_objects option"
  g_grantees :: "grantee list"

section \<open>Accounts\<close>

record create_user =
  cu_name :: string
  cu_or_replace :: bool
  cu_if_not_exists :: bool

text \<open>\<open>cr_options\<close>: one flag per option the program rejects, set when the option is given.\<close>

record create_role =
  cr_names :: "object_name list"
  cr_if_not_exists :: bool
  cr_options :: "bool list"

record alter_user =
  au_name :: string
  au_if_exists :: bool
  au_password :: "string option option"
  au_options :: "bool list"

section \<open>Tables\<close>

text \<open>Fields that end in \<open>_text\<close> hold what the node prints. \<open>fk_options\<close>: index name, ON DELETE,
  ON UPDATE, MATCH and characteristics, each a flag.\<close>

record foreign_key =
  fk_name :: "string option"
  fk_columns :: "string list"
  fk_foreign_table :: object_name
  fk_referred :: "string list"
  fk_options :: "bool list"
  fk_text :: string

datatype column_option = NotNull | Default string | PrimaryKey | ForeignKey foreign_key | OtherOption

record column_option_def =
  co_name :: "string option"
  co_option :: column_option
  co_text :: string

record column_def =
  cd_name :: string
  cd_name_text :: string
  cd_type :: string
  cd_options :: "column_option_def list"
  cd_text :: string

text \<open>A column of an index or key: what the expression prints, its name when it is an identifier,
  and whether it has an operator class or WITH FILL.\<close>

record index_column =
  ic_text :: string
  ic_ident :: "string option"
  ic_options :: bool

datatype table_constraint =
    CPrimaryKey "string option" "index_column list"
  | CUnique "string option" "index_column list"
  | CForeignKey foreign_key
  | CCheck "string option" string
  | CTOther

record create_table =
  ct_name :: object_name
  ct_columns :: "column_def list"
  ct_constraints :: "table_constraint list"
  ct_if_not_exists :: bool
  ct_temporary :: bool
  ct_partition_by :: bool
  ct_query :: bool

record create_view =
  cv_name :: object_name
  cv_temporary :: bool
  cv_or_replace :: bool
  cv_if_not_exists :: bool
  cv_query_text :: string

record create_index =
  ci_name :: "object_name option"
  ci_table :: object_name
  ci_columns :: "index_column list"
  ci_unique :: bool
  ci_if_not_exists :: bool
  ci_predicate :: bool
  ci_include :: bool

text \<open>\<open>SetDataType\<close>: the column and what the operation prints.\<close>

datatype alter_operation =
    AddColumn bool column_def bool  \<comment> \<open>IF NOT EXISTS, the column, a position is given\<close>
  | DropColumn "string list" bool bool  \<comment> \<open>names, IF EXISTS, CASCADE or RESTRICT is given\<close>
  | RenameColumn string string
  | SetDataType string string
  | OtherOperation

record alter_table =
  at_name :: object_name
  at_operations :: "alter_operation list"

section \<open>Insert\<close>

text \<open>The expressions of a VALUES row, as far as they are told apart, and what they print.\<close>

datatype expr_value = XNull | XString string | XTypedString string | XOther

record insert_expr =
  ie_value :: expr_value
  ie_text :: string

record insert_source =
  is_values :: "insert_expr list list option"  \<comment> \<open>the rows of a VALUES body\<close>
  is_text :: string

text \<open>\<open>in_table\<close>: None for a table function. \<open>in_options\<close>: assignments, RETURNING, ON,
  OVERWRITE, PARTITION and FORMAT, each a flag.\<close>

record insert =
  in_table :: "object_name option"
  in_columns :: "object_name list"
  in_source :: "insert_source option"
  in_options :: "bool list"

section \<open>Queries\<close>

datatype limit_clause =
    LimitOffset bool bool  \<comment> \<open>whether LIMIT and OFFSET are given\<close>
  | OffsetCommaLimit

record query =
  q_fetch :: bool
  q_limit_clause :: "limit_clause option"

section \<open>Statements\<close>

datatype show_stmt =
    ShowFunctions | ShowVariable | ShowStatus | ShowVariables | ShowCreate | ShowColumns
  | ShowCatalogs | ShowDatabases | ShowProcessList | ShowSchemas | ShowCharset | ShowObjects
  | ShowTables | ShowViews | ShowCollation

datatype create_stmt =
    CreateSchema schema_name bool
  | CreateTable create_table
  | CreateView create_view
  | CreateIndex create_index
  | CreateUser create_user
  | CreateRole create_role
  | CreateVirtualTable | CreateSecret | CreateServer | CreatePolicy | CreateConnector
  | CreateOperator | CreateOperatorFamily | CreateOperatorClass
  | CreateExtension | CreateCollation | CreateDatabase | CreateFunction | CreateTrigger
  | CreateProcedure | CreateMacro | CreateStage | CreateSequence | CreateDomain | CreateType

datatype alter_stmt =
    AlterTable alter_table | AlterSchema | AlterIndex | AlterView
  | AlterUser alter_user
  | AlterFunction | AlterType | AlterCollation | AlterOperator | AlterOperatorFamily
  | AlterOperatorClass | AlterRole | AlterPolicy | AlterConnector | AlterSession

datatype drop_stmt =
    DropObjects object_type bool "object_name list" bool "object_name option"
      \<comment> \<open>type, IF EXISTS, names, CASCADE, ON table\<close>
  | DropFunction | DropDomain | DropProcedure | DropSecret | DropPolicy | DropConnector
  | DropExtension | DropOperator | DropOperatorFamily | DropOperatorClass

datatype statement =
    Query query
  | Insert insert | Update | Delete | Merge
  | Copy bool  \<comment> \<open>TO\<close>
  | Explain bool statement  \<comment> \<open>ANALYZE, the explained statement\<close>
  | ExplainTable
  | Fetch
  | ExportData
  | Show show_stmt
  | Pragma bool  \<comment> \<open>a value is given\<close>
  | Create create_stmt
  | Alter alter_stmt
  | Drop drop_stmt
  | Comment comment_object object_name "string option" bool
  | Grant grant_stmt
  | Deny
  | Revoke grant_stmt
  | Call
  | SetStmt | UseStmt | Analyze | Truncate
  | Install | Load | Directory
  | AttachDatabase | AttachDuckDBDatabase | DetachDuckDBDatabase
  | Cache | UNCache
  | StartTransaction bool  \<comment> \<open>written BEGIN\<close>
  | Commit | Rollback
  | OtherStatement

record sqlparser =
  parse_sql :: "string \<Rightarrow> string + statement list"
  stmt_to_string :: "statement \<Rightarrow> string"

end
