(* ===== verification/Errors.thy ===== *)
theory Errors
  imports Sql_Ast
begin

text \<open>
  The program reports errors as formatted strings. Here every message is a constructor
  carrying the values the message prints, one enumeration per area, so that each early
  return of the source is a distinct value. A failure reported by the database engine is
  \<open>EDb\<close> with the fixed prefix of the message.
\<close>

datatype name_err =
    UnsupportedRelationName object_name
  | UnsupportedColumnName object_name
  | UnsupportedSchemaName object_name
  | UnsupportedNamePart string
  | ReservedSchema string

datatype parse_err =
    SqlParseFailed string
  | OneStatementOnly nat
  | PartitionRangeRequired
  | PartitionRangeParenthesized
  | WithOptionsRequired
  | WithOptionsParenthesized
  | TextAfterOptions string
  | InvalidOption string
  | DuplicatePartitionUnit
  | DuplicateRetention
  | UnsupportedOption string
  | MissingPartitionUnit
  | BadPartitionUnit string
  | MissingRetention
  | BadRetention string
  | EmptyIdentifier
  | NotSingleIdentifier string
  | ExpectedOpenParen
  | UnclosedParen
  | DropRoleRequired
  | CascadeOnlyRole
  | ShowPartitionsSyntax
  | TextAfterShowPartitions string
  | ShowPartitionsName

datatype comment_err =
    TextAfterComment string
  | BadCommentObject string
  | ExpectedIdentifier
  | ExpectedIdentifierAt string
  | UnclosedIdentifier
  | BadCommentValue
  | UnclosedCommentString
  | ExpectedKeyword
  | ExpectedKeywordAt string
  | ExpectedThisKeyword string

datatype auth_err =
    PermissionDeniedSystem string string
  | PermissionDeniedSchema string string string
  | PermissionDeniedRelation string string string string
  | PermissionDeniedStatement string
  | UnknownUser string
  | UserNotActive string
  | AuthFailed
  | NamespaceMissing string
  | RelationMissing string string
  | RelationUnavailable string string string
  | NotCreateTable
  | NoInsertTarget | NoUpdateTarget | NoDeleteTarget | NoCopyTarget
  | CommentNotSupported string
  | UnsupportedPgCatalog string
  | UnsupportedInfoSchema string
  | UnsupportedPgCatalogQuery
  | UnsupportedInfoSchemaQuery

datatype mutation_err =
    SchemaExists string
  | SchemaMissing string
  | UserExists string
  | UserMissing string
  | RoleExists string
  | RoleMissing string
  | RelationDoesNotExist string string
  | AttnumMissing int int
  | RelationOidMissing int
  | DropKindMismatch object_type string
  | DropUnsupported object_type
  | DropNeedsCascade
  | ColumnDoesNotExist string string string
  | UsernameEmpty | UsernameChars string
  | RoleNameEmpty | RoleNameChars string
  | OrReplaceUser | PasswordRequired
  | NoRoleNames | RoleOptions
  | AlterUserOptions | AlterPasswordRequired | AlterPasswordNull
  | BuiltinRole string | RoleHasDependents string
  | DropAdmin
  | RoleActionRequired | RoleMixed | RoleListEmpty
  | RoleGranteesEmpty | RoleInheritance | GranteeNameRequired
  | GranteesEmpty | GranteeTypeUnsupported string

datatype grant_err =
    GrantTargetUnsupported
  | PrivilegeTypeUnsupported string
  | PrivilegeActionUnsupported string
  | NoPrivilegeActions

datatype type_err =
    UnsupportedType string
  | NestedComplexType string
  | StructNoField
  | UnsupportedStructField string
  | MapArity string
  | UnsupportedMapPart string
  | FixedArraySyntax string
  | FixedArrayElement string
  | FixedArrayDimension string
  | FixedArrayZero string
  | ComplexSyntax string
  | StructFieldEmpty
  | StructFieldNoType string
  | BadQuotedStructField string
  | BadStructField string
  | UnsupportedScalar string

datatype call_err =
    CallTakesNoArguments
  | CallMarkArguments
  | CallRepairArguments
  | CallBadRelation string
  | CallUnsupported string

datatype ddl_err =
    BadAttnumList string
  | DropNoNames
  | DropPhysicalPartition
  | RelationExists string string
  | PartitionByUnsupported | CreateTableAs | TemporaryTable
  | NotMaterialized string string
  | FkOptions | FkNoColumns
  | FkTableMissing string string
  | FkTableKind string string
  | FkCountMismatch string nat nat
  | ComplexConstraintColumn string
  | UnknownConstraintColumn string
  | IndexColumnOptions | IndexExpression | IndexNoColumns
  | NoDuckColumns string string
  | IndexNoName | IndexPartial | IndexInclude | IndexSchemaMismatch
  | IndexTableKind string
  | ComplexIndexColumn string
  | UnknownIndexColumn string
  | TemporaryView
  | ReplaceViewKind string

datatype column_err =
    ComplexColumnUsage string string
  | ComplexColumnCheck string
  | ComplexColumnDefault string
  | CheckReferencesComplex string
  | AlterOneOperation | AddColumnPosition | DropColumnBehavior | AlterUnsupported
  | ColumnExists string string string
  | AlterKind string string
  | AddedColumnMissing string
  | RenameSameName
  | AlterColumnMissing string string string
  | DependentViews string string string string
  | NoActivePartitions
  | PartitionColumnMissing string string string
  | SetTypePartitionKey
  | DuckColumnMissing string string string
  | PartitionNoColumns string string
  | DropColumnNoNames
  | DropPartitionKeyColumn string string string
  | ConstraintDependency string string string
  | ReferenceDependency string string string
  | IndexDependency string string string

datatype partition_err =
    BadKeyUnit string
  | KeyColumnMissing string
  | KeyNullable | DateHourUnit
  | KeyType string
  | BaseNotCreateTable | PartitionTableAs | PartitionTemporary
  | InsertNoSource | InsertForm
  | InsertRowCount nat nat
  | InsertSourceCount nat nat
  | InsertNeedsKey string
  | NotRoutable
  | InsertUnknownColumn string
  | PartitionInactive string string string
  | BadPartitionValue string string
  | UnsupportedUnit string
  | BadMonthArithmetic string
  | PartitionRelationExists string
  | PartitionedMissing string string
  | PartitionMissing string string string
  | PartitionNoMetadata string string
  | PartitionNoCatalogRelation string
  | TimestampRange | DateRange | NegativeTime | BlobUnsupported | IntervalUnsupported | ValueUnsupported

text \<open>What the physical validation at start reports; its texts are stored in the catalog.\<close>

datatype physical_err =
    MissingTable | MissingView | MissingIndex
  | MissingIndexMetadata string string
  | MissingPartitionIndex string
  | ColumnCountMismatch nat nat
  | ColumnMismatch int string string string string
  | ChildNotActive string string string
  | ChildUnavailable string string string

datatype start_err =
    CatalogMissing
  | CatalogVersionUnsupported int
  | SnapshotVersionUnsupported int
  | StatusNotReady string
  | IntegrityViolation string nat
  | ChecksumViolation string string
  | StatementNotImplemented string

text \<open>\<open>EPanic\<close>: the Rust code panics (the workers catch it and answer with an error).\<close>

datatype err =
    EName name_err
  | EParse parse_err
  | EComment comment_err
  | EAuth auth_err
  | EMut mutation_err
  | EGrant grant_err
  | EType type_err
  | ECall call_err
  | EDdl ddl_err
  | ECol column_err
  | EPart partition_err
  | EPhys physical_err
  | EStart start_err
  | EHash
  | EPanic
  | EDb string

end
