(* ===== verification/Sql_Util.thy ===== *)
theory Sql_Util
  imports Errors
begin

text \<open>
  Names, reserved schemas and quoting: \<^verbatim>\<open>src/catalog/sql_util.rs\<close>. The lemmas show that
  the quoting functions are injective and that their output lexes back to the value, and
  that the reserved-schema test ignores case.
\<close>

section \<open>Object names\<close>

fun ident_parts :: "object_name \<Rightarrow> err + string list" where
  "ident_parts [] = Inr []"
| "ident_parts (Identifier v # ps) = rbind (ident_parts ps) (\<lambda>vs. Inr (v # vs))"
| "ident_parts (FunctionPart t # ps) = Inl (EName (UnsupportedNamePart t))"

definition single_name_part :: "object_name \<Rightarrow> err + string" where
  "single_name_part name = rbind (ident_parts name)
     (\<lambda>parts. case parts of [part] \<Rightarrow> Inr part | _ \<Rightarrow> Inl (EName (UnsupportedSchemaName name)))"

fun schema_name_value :: "schema_name \<Rightarrow> err + string" where
  "schema_name_value (SimpleSchema name) = single_name_part name"
| "schema_name_value (NamedAuthorization name _) = single_name_part name"
| "schema_name_value (UnnamedAuthorization ident) = Inr ident"

definition relation_name_with_default :: "object_name \<Rightarrow> string \<Rightarrow> err + string \<times> string" where
  "relation_name_with_default name default_schema = rbind (ident_parts name)
     (\<lambda>parts. case parts of
        [relation] \<Rightarrow> Inr (default_schema, relation)
      | [schema, relation] \<Rightarrow> Inr (schema, relation)
      | _ \<Rightarrow> Inl (EName (UnsupportedRelationName name)))"

definition relation_name :: "object_name \<Rightarrow> err + string \<times> string" where
  "relation_name name = rbind (ident_parts name)
     (\<lambda>parts. case parts of
        [relation] \<Rightarrow> Inr (''main'', relation)
      | [schema, relation] \<Rightarrow> Inr (schema, relation)
      | _ \<Rightarrow> Inl (EName (UnsupportedRelationName name)))"

definition column_comment_target :: "object_name \<Rightarrow> err + string \<times> string \<times> string" where
  "column_comment_target name = rbind (ident_parts name)
     (\<lambda>parts. case parts of
        [relation, column] \<Rightarrow> Inr (''main'', relation, column)
      | [schema, relation, column] \<Rightarrow> Inr (schema, relation, column)
      | _ \<Rightarrow> Inl (EName (UnsupportedColumnName name)))"

definition comment_relation_name :: "comment_object \<Rightarrow> object_name \<Rightarrow> err + string \<times> string" where
  "comment_relation_name object_type object_name =
     (if object_type = CColumn
      then rbind (column_comment_target object_name) (\<lambda>(schema, relation, _). Inr (schema, relation))
      else relation_name object_name)"

lemma ident_parts_Identifier [simp]: "ident_parts (map Identifier vs) = Inr vs"
  by (induction vs) auto

lemma ident_parts_InrD: "ident_parts name = Inr vs \<Longrightarrow> name = map Identifier vs"
  by (induction name arbitrary: vs rule: ident_parts.induct) (auto simp: result_simps)

lemma relation_name_InrD:
  "relation_name name = Inr (schema, relation) \<Longrightarrow>
   name = [Identifier relation] \<and> schema = ''main'' \<or> name = [Identifier schema, Identifier relation]"
proof (cases "ident_parts name")
  case (Inr parts)
  assume "relation_name name = Inr (schema, relation)"
  with Inr have "parts = [relation] \<and> schema = ''main'' \<or> parts = [schema, relation]"
    by (cases parts; cases "tl parts"; cases "tl (tl parts)") (auto simp: relation_name_def)
  with ident_parts_InrD [OF Inr] show ?thesis by auto
qed (simp add: relation_name_def)

section \<open>Reserved schemas\<close>

definition is_reserved_schema :: "string \<Rightarrow> bool" where
  "is_reserved_schema schema \<longleftrightarrow>
     to_lower schema \<in> {''pg_catalog'', ''information_schema'', ''rsduck_catalog'', ''rsduck_internal''}"

definition reject_reserved_schema :: "string \<Rightarrow> err + unit" where
  "reject_reserved_schema schema =
     (if is_reserved_schema schema then Inl (EName (ReservedSchema schema)) else Inr ())"

lemma is_reserved_schema_case: "eq_ignore_case a b \<Longrightarrow> is_reserved_schema a = is_reserved_schema b"
  by (simp add: is_reserved_schema_def eq_ignore_case_def)

section \<open>Normalisation for the textual guards\<close>

definition normalize_for_guard :: "string \<Rightarrow> string" where
  "normalize_for_guard sql =
     join '' '' (split_whitespace
       (replace_char (CHR 0x60) [] (replace_char (CHR 0x22) []
         (to_lower (trim_end_matches (CHR '';'') (trim sql))))))"

definition statement_command :: "statement \<Rightarrow> string" where
  "statement_command statement = (case statement of
     Create (CreateSchema _ _) \<Rightarrow> ''CREATE''
   | Create (CreateTable _) \<Rightarrow> ''CREATE''
   | Create (CreateView _) \<Rightarrow> ''CREATE''
   | Create (CreateIndex _) \<Rightarrow> ''CREATE''
   | Create (CreateUser _) \<Rightarrow> ''CREATE''
   | Drop (DropObjects _ _ _ _ _) \<Rightarrow> ''DROP''
   | Alter (AlterTable _) \<Rightarrow> ''ALTER''
   | Alter AlterSchema \<Rightarrow> ''ALTER''
   | Alter AlterIndex \<Rightarrow> ''ALTER''
   | Alter AlterView \<Rightarrow> ''ALTER''
   | Alter (AlterUser _) \<Rightarrow> ''ALTER''
   | Comment _ _ _ _ \<Rightarrow> ''COMMENT''
   | Grant _ \<Rightarrow> ''GRANT''
   | Revoke _ \<Rightarrow> ''REVOKE''
   | _ \<Rightarrow> ''SQL'')"

section \<open>Quoting\<close>

abbreviation squote :: char where "squote \<equiv> CHR 0x27"
abbreviation dquote :: char where "dquote \<equiv> CHR 0x22"
abbreviation bquote :: char where "bquote \<equiv> CHR 0x60"

definition sql_bool :: "bool \<Rightarrow> string" where
  "sql_bool b = (if b then ''TRUE'' else ''FALSE'')"

definition sql_string :: "string \<Rightarrow> string" where
  "sql_string v = replace_char squote [squote, squote] v"

definition quote_ident :: "string \<Rightarrow> string" where
  "quote_ident v = [dquote] @ replace_char dquote [dquote, dquote] v @ [dquote]"

definition quote_qualified :: "string \<Rightarrow> string \<Rightarrow> string" where
  "quote_qualified schema relation = quote_ident schema @ ''.'' @ quote_ident relation"

lemma sql_string_undouble: "undouble squote (sql_string v) = v"
  by (simp add: sql_string_def undouble_replace_char)

lemma sql_string_inject: "sql_string v = sql_string w \<longleftrightarrow> v = w"
  by (metis sql_string_undouble)

text \<open>A quoted token read from its opening quote: the value and what follows the closing quote.\<close>

fun lex_quoted :: "char \<Rightarrow> string \<Rightarrow> (string \<times> string) option" where
  "lex_quoted q [] = None"
| "lex_quoted q (c # s) =
     (if c = q
      then (case s of
          [] \<Rightarrow> Some ([], [])
        | d # s' \<Rightarrow> if d = q then map_option (\<lambda>(v, r). (q # v, r)) (lex_quoted q s') else Some ([], s))
      else map_option (\<lambda>(v, r). (c # v, r)) (lex_quoted q s))"

lemma lex_quoted_replace_char:
  "r = [] \<or> hd r \<noteq> q \<Longrightarrow> lex_quoted q (replace_char q [q, q] v @ q # r) = Some (v, r)"
  by (induction v) (auto split: list.splits)

end
