(* ===== verification/Params.thy ===== *)
theory Params
  imports Sql_Util
begin

text \<open>
  Bound parameters: \<^verbatim>\<open>src/db/params.rs\<close>. The scanner walks the statement once in five
  states and replaces each \<^verbatim>\<open>$n\<close> read in the normal state by the literal of the n-th
  parameter. Formatting a floating-point number is the standard library's and is the argument
  \<open>F\<close>. The source's byte loop with an index is a recursion on the rest of the
  statement. Main results: without parameters the scan is the identity; a text parameter never
  adds code outside a string literal.
\<close>

type_synonym u8 = "8 word"

datatype sql_param =
    PNull | PText string | PBool bool | PInteger int | PFloat "64 word"
  | PFloatArray "32 word list" | PBytes "u8 list"

datatype param_err =
    InvalidParam string | InvalidParamZero | MissingParam nat | TooManyParams nat nat
  | NonFiniteFloat "64 word" | EmptyFloatArray | NonFiniteArray "32 word"

record float_fmt =
  show_f64 :: "64 word \<Rightarrow> string"
  show_f32 :: "32 word \<Rightarrow> string"

definition f64_is_finite :: "64 word \<Rightarrow> bool" where
  "f64_is_finite w \<longleftrightarrow> and (drop_bit 52 w) 0x7FF \<noteq> 0x7FF"

definition f32_is_finite :: "32 word \<Rightarrow> bool" where
  "f32_is_finite w \<longleftrightarrow> and (drop_bit 23 w) 0xFF \<noteq> 0xFF"

definition hex_char :: "nat \<Rightarrow> char" where
  "hex_char n = (if n < 10 then char_of (48 + n) else char_of (87 + n))"

definition hex_encode :: "u8 list \<Rightarrow> string" where
  "hex_encode bytes = concat (map (\<lambda>b.
     [hex_char (unat (drop_bit 4 b)), hex_char (unat (and b 0x0F))]) bytes)"

definition sql_string_literal :: "string \<Rightarrow> string" where
  "sql_string_literal v = [squote] @ replace_char squote [squote, squote] v @ [squote]"

fun sql_param_literal :: "float_fmt \<Rightarrow> sql_param \<Rightarrow> param_err + string" where
  "sql_param_literal F PNull = Inr ''NULL''"
| "sql_param_literal F (PText v) = Inr (sql_string_literal v)"
| "sql_param_literal F (PBool v) = Inr (if v then ''true'' else ''false'')"
| "sql_param_literal F (PInteger v) = Inr (show_int v)"
| "sql_param_literal F (PFloat v) =
     (if f64_is_finite v then Inr (show_f64 F v) else Inl (NonFiniteFloat v))"
| "sql_param_literal F (PFloatArray vs) =
     (if vs = [] then Inl EmptyFloatArray
      else (case List.find (\<lambda>v. \<not> f32_is_finite v) vs of
          Some v \<Rightarrow> Inl (NonFiniteArray v)
        | None \<Rightarrow> Inr (''['' @ join '','' (map (show_f32 F) vs) @ '']::FLOAT[]'')))"
| "sql_param_literal F (PBytes v) = Inr ([squote] @ [CHR 0x5C, CHR ''x''] @ hex_encode v @ [squote])"

section \<open>The scanner\<close>

datatype scan_state = Normal | SingleQuote | DoubleQuote | LineComment | BlockComment

definition usize_max :: nat where "usize_max = 2 ^ 64 - 1"

abbreviation next_is :: "char \<Rightarrow> string \<Rightarrow> bool" where
  "next_is c s \<equiv> s \<noteq> [] \<and> hd s = c"

definition emit :: "string \<Rightarrow> 'e + string \<times> nat \<Rightarrow> 'e + string \<times> nat" where
  "emit t r = rbind r (\<lambda>(out, n). Inr (t @ out, n))"

definition param_text :: "float_fmt \<Rightarrow> sql_param list option \<Rightarrow> string \<Rightarrow> param_err + nat \<times> string" where
  "param_text F params ds =
     (case parse_unsigned usize_max ds of
        None \<Rightarrow> Inl (InvalidParam ds)
      | Some param_number \<Rightarrow>
          if param_number = 0 then Inl InvalidParamZero
          else (case params of
              None \<Rightarrow> Inr (param_number, CHR ''$'' # ds)
            | Some ps \<Rightarrow>
                if param_number - 1 < length ps
                then rbind (sql_param_literal F (ps ! (param_number - 1))) (\<lambda>t. Inr (param_number, t))
                else Inl (MissingParam param_number)))"

function (sequential) scan_from ::
    "float_fmt \<Rightarrow> sql_param list option \<Rightarrow> scan_state \<Rightarrow> nat \<Rightarrow> string \<Rightarrow> param_err + string \<times> nat" where
  "scan_from F params st mx [] = Inr ([], mx)"
| "scan_from F params Normal mx (c # s) =
     (if c = squote then emit [c] (scan_from F params SingleQuote mx s)
      else if c = dquote then emit [c] (scan_from F params DoubleQuote mx s)
      else if c = CHR ''-'' \<and> next_is (CHR ''-'') s
        then emit [c, hd s] (scan_from F params LineComment mx (tl s))
      else if c = CHR ''/'' \<and> next_is (CHR ''*'') s
        then emit [c, hd s] (scan_from F params BlockComment mx (tl s))
      else if c = CHR ''$'' \<and> s \<noteq> [] \<and> is_digit (hd s)
        then rbind (param_text F params (takeWhile is_digit s))
          (\<lambda>(param_number, t).
             emit t (scan_from F params Normal (max mx param_number) (dropWhile is_digit s)))
      else emit [c] (scan_from F params Normal mx s))"
| "scan_from F params SingleQuote mx (c # s) =
     (if c = squote
      then (if next_is squote s then emit [c, hd s] (scan_from F params SingleQuote mx (tl s))
            else emit [c] (scan_from F params Normal mx s))
      else emit [c] (scan_from F params SingleQuote mx s))"
| "scan_from F params DoubleQuote mx (c # s) =
     (if c = dquote
      then (if next_is dquote s then emit [c, hd s] (scan_from F params DoubleQuote mx (tl s))
            else emit [c] (scan_from F params Normal mx s))
      else emit [c] (scan_from F params DoubleQuote mx s))"
| "scan_from F params LineComment mx (c # s) =
     emit [c] (scan_from F params (if c = CHR 0x0A then Normal else LineComment) mx s)"
| "scan_from F params BlockComment mx (c # s) =
     (if c = CHR ''*'' \<and> next_is (CHR ''/'') s
      then emit [c, hd s] (scan_from F params Normal mx (tl s))
      else emit [c] (scan_from F params BlockComment mx s))"
  by pat_completeness auto
termination
proof (relation "measure (\<lambda>(F, params, st, mx, s). length s)", goal_cases)
  case (6 F params mx c s)
  then show ?case using length_dropWhile_le [of is_digit s] by (auto simp: less_Suc_eq_le)
qed auto

definition scan_sql_params ::
    "float_fmt \<Rightarrow> string \<Rightarrow> sql_param list option \<Rightarrow> param_err + string \<times> nat" where
  "scan_sql_params F sql params =
     rbind (scan_from F params Normal 0 sql) (\<lambda>(out, max_param).
       case params of
         None \<Rightarrow> Inr (out, max_param)
       | Some ps \<Rightarrow> if length ps > max_param then Inl (TooManyParams (length ps) max_param)
                   else Inr (out, max_param))"

definition sql_placeholder_count :: "float_fmt \<Rightarrow> string \<Rightarrow> param_err + nat" where
  "sql_placeholder_count F sql = rbind (scan_sql_params F sql None) (\<lambda>(_, count). Inr count)"

definition bind_sql_params :: "float_fmt \<Rightarrow> string \<Rightarrow> sql_param list \<Rightarrow> param_err + string" where
  "bind_sql_params F sql params = rbind (scan_sql_params F sql (Some params)) (\<lambda>(out, _). Inr out)"

section \<open>Basic facts\<close>

text \<open>The six branches of the normal state, for case analysis.\<close>

lemma normal_cases [case_names quote dquote line block param other]:
  assumes "c = squote \<Longrightarrow> P"
    and "c \<noteq> squote \<Longrightarrow> c = dquote \<Longrightarrow> P"
    and "c = CHR ''-'' \<Longrightarrow> next_is (CHR ''-'') s \<Longrightarrow> P"
    and "c = CHR ''/'' \<Longrightarrow> next_is (CHR ''*'') s \<Longrightarrow> P"
    and "c = CHR ''$'' \<Longrightarrow> s \<noteq> [] \<Longrightarrow> is_digit (hd s) \<Longrightarrow> P"
    and "c \<noteq> squote \<Longrightarrow> c \<noteq> dquote \<Longrightarrow> \<not> (c = CHR ''-'' \<and> next_is (CHR ''-'') s) \<Longrightarrow>
         \<not> (c = CHR ''/'' \<and> next_is (CHR ''*'') s) \<Longrightarrow>
         \<not> (c = CHR ''$'' \<and> s \<noteq> [] \<and> is_digit (hd s)) \<Longrightarrow> P"
  shows P
  using assms by blast

lemma emit_Inr_conv [simp]: "emit t r = Inr (out, n) \<longleftrightarrow> (\<exists>out'. r = Inr (out', n) \<and> out = t @ out')"
  by (cases r) (auto simp: emit_def)

lemma emit_Inl_conv [simp]: "emit t r = Inl e \<longleftrightarrow> r = Inl e"
  by (cases r) (auto simp: emit_def)

lemma hex_char_neq_quote: "n < 16 \<Longrightarrow> hex_char n \<noteq> squote"
proof
  assume "n < 16" "hex_char n = squote"
  then have "byte (hex_char n) = (39 :: nat)" by simp
  with \<open>n < 16\<close> show False by (auto simp: hex_char_def split: if_splits)
qed

lemma nibbles: "unat (drop_bit 4 (b :: u8)) < 16" "unat (and b (0x0F :: u8)) < 16"
proof -
  have "unat (drop_bit 4 b) = drop_bit 4 (unat b)" by (rule unat_drop_bit_eq)
  then have "unat (drop_bit 4 b) = unat b div 16" by (simp add: drop_bit_eq_div [of 4 "unat b"])
  moreover have "unat b < 2 ^ LENGTH(8)" by (rule unsigned_less)
  ultimately show "unat (drop_bit 4 b) < 16" by simp
  have "and b (0x0F :: u8) = take_bit 4 b"
    by (simp add: take_bit_eq_mask mask_eq_exp_minus_1)
  then have "unat (and b (0x0F :: u8)) = take_bit 4 (unat b)"
    by (simp only: unsigned_take_bit_eq)
  then have "unat (and b (0x0F :: u8)) = unat b mod 16"
    by (simp add: take_bit_eq_mod [of 4 "unat b"])
  then show "unat (and b (0x0F :: u8)) < 16" by simp
qed

lemma hex_encode_no_quote: "squote \<notin> set (hex_encode bs)"
  using hex_char_neq_quote nibbles by (auto simp: hex_encode_def) metis+

lemma param_text_None_InrD:
  "param_text F None ds = Inr (k, t) \<Longrightarrow> t = CHR ''$'' # ds"
  by (auto simp: param_text_def split: option.splits if_splits)

lemma scan_None_identity:
  "scan_from F None st mx s = Inr (out, n) \<Longrightarrow> out = s"
proof (induction F "None :: sql_param list option" st mx s arbitrary: out n rule: scan_from.induct)
  case (2 F mx c s)
  show ?case
  proof (rule normal_cases [where c = c and s = s])
    assume "c = CHR ''$''" "s \<noteq> []" "is_digit (hd s)"
    with "2.prems" obtain k t out' where
      "param_text F None (takeWhile is_digit s) = Inr (k, t)" "out = t @ out'"
      "scan_from F None Normal (max mx k) (dropWhile is_digit s) = Inr (out', n)"
      by (auto simp: result_simps)
    moreover from this "2.hyps"(5) [of k] \<open>c = CHR ''$''\<close> \<open>s \<noteq> []\<close> \<open>is_digit (hd s)\<close>
    have "out' = dropWhile is_digit s" by simp
    ultimately show ?thesis using \<open>c = CHR ''$''\<close> by (auto dest!: param_text_None_InrD)
  qed (use 2 in \<open>auto, (metis list.collapse)+\<close>)
next
  case (3 F mx c s)
  then show ?case by (cases "c = squote"; cases "next_is squote s") (auto, (metis list.collapse)+)
next
  case (4 F mx c s)
  then show ?case by (cases "c = dquote"; cases "next_is dquote s") (auto, (metis list.collapse)+)
next
  case (5 F mx c s)
  then show ?case by auto
next
  case (6 F mx c s)
  then show ?case by (cases "c = CHR ''*'' \<and> next_is (CHR ''/'') s") (auto, (metis list.collapse)+)
qed simp

section \<open>The code outside string literals\<close>

text \<open>
  \<open>code_of tmpl st s\<close> lists the characters of \<open>s\<close> that the scanner reads in the normal
  state (with the two characters that open a comment): the code of the statement without
  the contents of literals, quoted identifiers and comments. With \<open>tmpl\<close> a placeholder
  counts as the opening quote of a literal.
\<close>

definition is_placeholder :: "string \<Rightarrow> bool" where
  "is_placeholder s \<longleftrightarrow> next_is (CHR ''$'') s \<and> tl s \<noteq> [] \<and> is_digit (hd (tl s))"

function (sequential) code_of :: "bool \<Rightarrow> scan_state \<Rightarrow> string \<Rightarrow> string" where
  "code_of tmpl st [] = []"
| "code_of tmpl Normal (c # s) =
     (if c = squote then c # code_of tmpl SingleQuote s
      else if c = dquote then c # code_of tmpl DoubleQuote s
      else if c = CHR ''-'' \<and> next_is (CHR ''-'') s then c # hd s # code_of tmpl LineComment (tl s)
      else if c = CHR ''/'' \<and> next_is (CHR ''*'') s then c # hd s # code_of tmpl BlockComment (tl s)
      else if tmpl \<and> is_placeholder (c # s) then squote # code_of tmpl Normal (dropWhile is_digit s)
      else c # code_of tmpl Normal s)"
| "code_of tmpl SingleQuote (c # s) =
     (if c = squote
      then (if next_is squote s then code_of tmpl SingleQuote (tl s) else code_of tmpl Normal s)
      else code_of tmpl SingleQuote s)"
| "code_of tmpl DoubleQuote (c # s) =
     (if c = dquote
      then (if next_is dquote s then code_of tmpl DoubleQuote (tl s) else code_of tmpl Normal s)
      else code_of tmpl DoubleQuote s)"
| "code_of tmpl LineComment (c # s) = code_of tmpl (if c = CHR 0x0A then Normal else LineComment) s"
| "code_of tmpl BlockComment (c # s) =
     (if c = CHR ''*'' \<and> next_is (CHR ''/'') s then code_of tmpl Normal (tl s)
      else code_of tmpl BlockComment s)"
  by pat_completeness auto
termination
proof (relation "measure (\<lambda>(tmpl, st, s). length s)", goal_cases)
  case (6 tmpl c s)
  then show ?case using length_dropWhile_le [of is_digit s] by (auto simp: less_Suc_eq_le)
qed auto

text \<open>
  No placeholder touches a single quote or another placeholder (where it does, two literals
  would be glued into one by the doubled quote).
\<close>

function (sequential) separated :: "scan_state \<Rightarrow> string \<Rightarrow> bool" where
  "separated st [] = True"
| "separated Normal (c # s) =
     (if c = squote then separated SingleQuote s
      else if c = dquote then separated DoubleQuote s
      else if c = CHR ''-'' \<and> next_is (CHR ''-'') s then separated LineComment (tl s)
      else if c = CHR ''/'' \<and> next_is (CHR ''*'') s then separated BlockComment (tl s)
      else if is_placeholder (c # s)
        then \<not> next_is squote (dropWhile is_digit s) \<and> \<not> is_placeholder (dropWhile is_digit s)
             \<and> separated Normal (dropWhile is_digit s)
      else separated Normal s)"
| "separated SingleQuote (c # s) =
     (if c = squote
      then (if next_is squote s then separated SingleQuote (tl s)
            else \<not> is_placeholder s \<and> separated Normal s)
      else separated SingleQuote s)"
| "separated DoubleQuote (c # s) =
     (if c = dquote
      then (if next_is dquote s then separated DoubleQuote (tl s) else separated Normal s)
      else separated DoubleQuote s)"
| "separated LineComment (c # s) = separated (if c = CHR 0x0A then Normal else LineComment) s"
| "separated BlockComment (c # s) =
     (if c = CHR ''*'' \<and> next_is (CHR ''/'') s then separated Normal (tl s)
      else separated BlockComment s)"
  by pat_completeness auto
termination
proof (relation "measure (\<lambda>(st, s). length s)", goal_cases)
  case (6 c s)
  then show ?case using length_dropWhile_le [of is_digit s] by (auto simp: less_Suc_eq_le)
qed auto

definition quoted_param :: "sql_param \<Rightarrow> bool" where
  "quoted_param p = (case p of PText _ \<Rightarrow> True | PBytes _ \<Rightarrow> True | _ \<Rightarrow> False)"

lemma code_of_literal_body:
  "\<not> next_is squote r \<Longrightarrow>
   code_of False SingleQuote (replace_char squote [squote, squote] v @ squote # r) = code_of False Normal r"
  by (induction v) auto

lemma quoted_param_literal:
  assumes "quoted_param p" "sql_param_literal F p = Inr t" "\<not> next_is squote r"
  shows "code_of False Normal (t @ r) = squote # code_of False Normal r" "next_is squote t"
proof -
  obtain v where t: "t = squote # replace_char squote [squote, squote] v @ [squote]"
  proof (cases p)
    case (PText v)
    with assms(2) that show thesis by (auto simp: sql_string_literal_def)
  next
    case (PBytes bs)
    have "squote \<notin> set (CHR 0x5C # CHR ''x'' # hex_encode bs)"
      using hex_encode_no_quote by simp
    then have "replace_char squote [squote, squote] (CHR 0x5C # CHR ''x'' # hex_encode bs)
        = CHR 0x5C # CHR ''x'' # hex_encode bs"
      by (rule replace_char_absent)
    with PBytes assms(2) show thesis by (intro that [of "CHR 0x5C # CHR ''x'' # hex_encode bs"]) auto
  qed (use assms(1) in \<open>auto simp: quoted_param_def\<close>)
  from t assms(3) show "code_of False Normal (t @ r) = squote # code_of False Normal r"
    by (simp add: code_of_literal_body)
  from t show "next_is squote t" by simp
qed

lemma param_text_Some_InrD:
  assumes "param_text F (Some ps) ds = Inr (k, t)"
  shows "\<exists>p \<in> set ps. sql_param_literal F p = Inr t"
  using assms by (auto simp: param_text_def result_simps split: option.splits if_splits)

text \<open>The first character of the output is that of the input, but for a placeholder.\<close>

lemma scan_hd:
  assumes "scan_from F (Some ps) st mx s = Inr (out, n)" "list_all quoted_param ps"
  shows "next_is c out \<longleftrightarrow> (if st = Normal \<and> is_placeholder s then c = squote else next_is c s)"
proof (cases s)
  case (Cons d r)
  show ?thesis
  proof (cases "st = Normal \<and> is_placeholder s")
    case True
    with assms Cons obtain k t m out' where
      t: "param_text F (Some ps) (takeWhile is_digit r) = Inr (k, t)" and out: "out = t @ out'"
      by (auto simp: is_placeholder_def result_simps)
    from param_text_Some_InrD [OF t] obtain p where "p \<in> set ps" "sql_param_literal F p = Inr t"
      by blast
    with assms(2) have "next_is squote t"
      by (intro quoted_param_literal(2) [of p F t "[]"]) (auto simp: list_all_iff)
    with out True show ?thesis by (cases t) auto
  next
    case False
    with assms Cons show ?thesis
      by (cases st) (auto simp: is_placeholder_def split: if_splits)
  qed
qed (use assms in \<open>auto simp: is_placeholder_def\<close>)

lemma scan_code_preserved:
  assumes "scan_from F (Some ps) st mx s = Inr (out, n)" "list_all quoted_param ps" "separated st s"
  shows "code_of False st out = code_of True st s"
  using assms
proof (induction F "Some ps" st mx s arbitrary: out n rule: scan_from.induct)
  case (2 F mx c s)
  note hd = scan_hd [OF _ "2.prems"(2)]
  show ?case
  proof (rule normal_cases [where c = c and s = s])
    assume c: "c = CHR ''$''" "s \<noteq> []" "is_digit (hd s)"
    let ?r = "dropWhile is_digit s"
    from c "2.prems"(1) obtain k t out' where
      t: "param_text F (Some ps) (takeWhile is_digit s) = Inr (k, t)" "out = t @ out'" and
      o: "scan_from F (Some ps) Normal (max mx k) ?r = Inr (out', n)"
      by (auto simp: result_simps)
    from c "2.prems"(3) have sep: "\<not> next_is squote ?r" "\<not> is_placeholder ?r" "separated Normal ?r"
      by (auto simp: is_placeholder_def)
    from param_text_Some_InrD [OF t(1)] "2.prems"(2) obtain p where
      "quoted_param p" "sql_param_literal F p = Inr t"
      by (auto simp: list_all_iff)
    moreover from hd [OF o, of squote] sep have "\<not> next_is squote out'" by simp
    ultimately have "code_of False Normal out = squote # code_of False Normal out'"
      unfolding t(2) by (rule quoted_param_literal(1))
    moreover from "2.hyps"(5) [of k] c t o sep "2.prems"(2)
    have "code_of False Normal out' = code_of True Normal ?r" by simp
    ultimately show ?thesis using c by (simp add: is_placeholder_def)
  next
    assume c: "c \<noteq> squote" "c \<noteq> dquote" "\<not> (c = CHR ''-'' \<and> next_is (CHR ''-'') s)"
      "\<not> (c = CHR ''/'' \<and> next_is (CHR ''*'') s)" "\<not> (c = CHR ''$'' \<and> s \<noteq> [] \<and> is_digit (hd s))"
    then have np: "\<not> is_placeholder (c # s)" by (simp add: is_placeholder_def)
    from c "2.prems"(1) obtain out' where o: "out = c # out'" "scan_from F (Some ps) Normal mx s = Inr (out', n)"
      by (auto split: if_splits)
    have "code_of False Normal out' = code_of True Normal s"
      using "2.hyps"(6) c o np "2.prems"(2,3) by simp
    moreover have "\<not> (c = CHR ''-'' \<and> next_is (CHR ''-'') out')"
      using c(3) hd [OF o(2), of "CHR ''-''"] by (auto split: if_splits)
    moreover have "\<not> (c = CHR ''/'' \<and> next_is (CHR ''*'') out')"
      using c(4) hd [OF o(2), of "CHR ''*''"] by (auto split: if_splits)
    ultimately have "code_of False Normal out = c # code_of True Normal s"
      using c(1,2) unfolding o(1) by (subst code_of.simps) auto
    moreover have "code_of True Normal (c # s) = c # code_of True Normal s"
      using c np by (subst code_of.simps) auto
    ultimately show ?thesis by simp
  qed (use 2 in \<open>auto split: if_splits\<close>)
next
  case (3 F mx c s)
  note hd = scan_hd [OF _ "3.prems"(2)]
  show ?case
  proof (cases "c = squote \<and> \<not> next_is squote s")
    case True
    with "3.prems"(1) obtain out' where o: "out = c # out'" "scan_from F (Some ps) Normal mx s = Inr (out', n)"
      by auto
    with True 3 hd [OF o(2), of squote] show ?thesis by auto
  next
    case False
    with 3 show ?thesis by (cases "c = squote") auto
  qed
next
  case (4 F mx c s)
  note hd = scan_hd [OF _ "4.prems"(2)]
  show ?case
  proof (cases "c = dquote \<and> \<not> next_is dquote s")
    case True
    with "4.prems"(1) obtain out' where o: "out = c # out'" "scan_from F (Some ps) Normal mx s = Inr (out', n)"
      by auto
    with True 4 hd [OF o(2), of dquote] show ?thesis by auto
  next
    case False
    with 4 show ?thesis by (cases "c = dquote") auto
  qed
next
  case (5 F mx c s)
  then show ?case by auto
next
  case (6 F mx c s)
  note hd = scan_hd [OF _ "6.prems"(2)]
  show ?case
  proof (cases "c = CHR ''*'' \<and> next_is (CHR ''/'') s")
    case True
    with 6 show ?thesis by auto
  next
    case False
    with "6.prems"(1) obtain out' where o: "out = c # out'" "scan_from F (Some ps) BlockComment mx s = Inr (out', n)"
      by auto
    with False 6 hd [OF o(2), of "CHR ''/''"] show ?thesis by auto
  qed
qed simp

section \<open>How many parameters a statement takes\<close>

lemma param_text_count:
  "param_text F (Some ps) ds = Inr (k, t) \<Longrightarrow> (\<exists>t'. param_text F None ds = Inr (k, t')) \<and> k \<le> length ps"
  by (auto simp: param_text_def result_simps split: option.splits if_splits)

lemma scan_count:
  "scan_from F (Some ps) st mx s = Inr (out, n) \<Longrightarrow>
   (\<exists>out'. scan_from F None st mx s = Inr (out', n)) \<and> n \<le> max mx (length ps)"
proof (induction F "Some ps" st mx s arbitrary: out n rule: scan_from.induct)
  case (2 F mx c s)
  show ?case
  proof (rule normal_cases [where c = c and s = s])
    assume c: "c = CHR ''$''" "s \<noteq> []" "is_digit (hd s)"
    with "2.prems" obtain k t out' where
      t: "param_text F (Some ps) (takeWhile is_digit s) = Inr (k, t)" and
      o: "scan_from F (Some ps) Normal (max mx k) (dropWhile is_digit s) = Inr (out', n)"
      by (auto simp: result_simps)
    from param_text_count [OF t] obtain t' where
      "param_text F None (takeWhile is_digit s) = Inr (k, t')" "k \<le> length ps" by blast
    with "2.hyps"(5) [of k] c t o show ?thesis by (auto simp: max.assoc max_absorb2)
  qed (use 2 in auto)
next
  case (3 F mx c s)
  then show ?case by (cases "c = squote"; cases "next_is squote s") auto
next
  case (4 F mx c s)
  then show ?case by (cases "c = dquote"; cases "next_is dquote s") auto
next
  case (5 F mx c s)
  then show ?case by auto
next
  case (6 F mx c s)
  then show ?case by (cases "c = CHR ''*'' \<and> next_is (CHR ''/'') s") auto
qed simp

section \<open>Properties\<close>

definition no_floats :: float_fmt where
  "no_floats = \<lparr>show_f64 = (\<lambda>_. ''0''), show_f32 = (\<lambda>_. ''0'')\<rparr>"



text \<open>C19: A statement binds successfully only with exactly as many parameters as it has: a
  missing parameter and a surplus one are both errors, so the placeholder count computed for the
  unbound statement is the number of parameters given.\<close>

theorem bind_uses_every_parameter:
  assumes "bind_sql_params F sql ps = Inr out"
  shows "sql_placeholder_count F sql = Inr (length ps)"
proof -
  from assms obtain n where s: "scan_from F (Some ps) Normal 0 sql = Inr (out, n)" and n: "length ps \<le> n"
    by (auto simp: bind_sql_params_def scan_sql_params_def result_simps split: if_splits)
  from scan_count [OF s] n show ?thesis
    by (auto simp: sql_placeholder_count_def scan_sql_params_def)
qed

theorem bind_uses_every_parameter_witness:
  "sql_placeholder_count no_floats ''a=$2 OR b=$1'' = Inr (length [PNull, PBool True])"
  by (rule bind_uses_every_parameter [where out = "''a=true OR b=NULL''"]) code_simp

text \<open>Counting placeholders leaves the statement as it is: the scan without parameters copies
  its input.\<close>

theorem scan_without_params_is_identity:
  assumes "scan_sql_params F sql None = Inr (out, n)"
  shows "out = sql"
  using assms by (auto simp: scan_sql_params_def result_simps dest: scan_None_identity)

theorem scan_without_params_is_identity_witness:
  "''x=$3'' = (''x=$3'' :: string)"
  by (rule scan_without_params_is_identity [of no_floats _ _ 3]) code_simp

end
