(* ===== verification/Mysql_Codec.thy ===== *)
theory Mysql_Codec
  imports Params
begin

text \<open>
  The MySQL wire encoding: \<^verbatim>\<open>src/server/mysql/codec.rs\<close>. Decoders take the whole input
  and an index and return the value with the next index, as the source's \<^verbatim>\<open>&mut idx\<close>
  does; a socket is the list of the bytes still to be read or already written. Main results:
  packets, length-encoded integers and length-encoded strings read back as written, and no
  decoder moves the index past the end of its input.
\<close>

datatype wire_err =
    ReadHeader | ReadPayload
  | Truncated | MissingNullTerminator | BadLenencMarker | InvalidUtf8
  | NoProtocol41 | NoSecureAuth | AttrsOverflow | TruncatedAttrs
  | MissingParamTypes | UnsupportedParamType u8 | BadDatetimeLen nat | BadTimeLen nat

section \<open>Bytes\<close>

definition bytes_of :: "string \<Rightarrow> u8 list" where
  "bytes_of s = map of_char s"

definition string_of :: "u8 list \<Rightarrow> string" where
  "string_of bs = map (\<lambda>b. char_of (unat b)) bs"

lemma string_of_bytes_of [simp]: "string_of (bytes_of s) = s"
proof -
  have "char_of (unat (of_char c :: u8)) = c" for c :: char
  proof -
    have "(of_char c :: u8) = of_nat (of_char c)" by (rule of_nat_of_char [symmetric])
    then have "unat (of_char c :: u8) = of_char c mod 256" by (simp only: unat_of_nat) simp
    then show ?thesis by simp
  qed
  then show ?thesis by (simp add: string_of_def bytes_of_def comp_def)
qed

lemma length_bytes_of [simp]: "length (bytes_of s) = length s"
  by (simp add: bytes_of_def)

text \<open>\<^verbatim>\<open>str::from_utf8\<close>: the well-formed byte sequences of the Unicode standard.\<close>

definition cont :: "u8 \<Rightarrow> bool" where
  "cont b \<longleftrightarrow> 0x80 \<le> b \<and> b \<le> 0xBF"

fun utf8_valid :: "u8 list \<Rightarrow> bool" where
  "utf8_valid [] = True"
| "utf8_valid (a # r) =
     (if a \<le> 0x7F then utf8_valid r
      else case r of [] \<Rightarrow> False
      | b # r1 \<Rightarrow>
        if 0xC2 \<le> a \<and> a \<le> 0xDF then cont b \<and> utf8_valid r1
        else case r1 of [] \<Rightarrow> False
        | c # r2 \<Rightarrow>
          if 0xE0 \<le> a \<and> a \<le> 0xEF
          then (if a = 0xE0 then 0xA0 \<le> b \<and> b \<le> 0xBF
                else if a = 0xED then 0x80 \<le> b \<and> b \<le> 0x9F else cont b) \<and> cont c \<and> utf8_valid r2
          else case r2 of [] \<Rightarrow> False
          | d # r3 \<Rightarrow>
            0xF0 \<le> a \<and> a \<le> 0xF4
            \<and> (if a = 0xF0 then 0x90 \<le> b \<and> b \<le> 0xBF
               else if a = 0xF4 then 0x80 \<le> b \<and> b \<le> 0x8F else cont b)
            \<and> cont c \<and> cont d \<and> utf8_valid r3)"

text \<open>\<^verbatim>\<open>to_le_bytes\<close> and \<^verbatim>\<open>from_le_bytes\<close> on values.\<close>

fun le_bytes :: "nat \<Rightarrow> nat \<Rightarrow> u8 list" where
  "le_bytes 0 n = []"
| "le_bytes (Suc k) n = of_nat (n mod 256) # le_bytes k (n div 256)"

fun le_val :: "u8 list \<Rightarrow> nat" where
  "le_val [] = 0"
| "le_val (b # bs) = unat b + 256 * le_val bs"

lemma length_le_bytes [simp]: "length (le_bytes k n) = k"
  by (induction k n rule: le_bytes.induct) auto

lemma unat_of_nat_byte: "n < 256 \<Longrightarrow> unat (of_nat n :: u8) = n"
  by (simp add: unat_of_nat)

lemma le_val_le_bytes: "le_val (le_bytes k n) = n mod 256 ^ k"
proof (induction k n rule: le_bytes.induct)
  case (2 k n)
  have "n mod 256 ^ Suc k = n mod 256 + 256 * (n div 256 mod 256 ^ k)"
    by (simp add: mod_mult2_eq)
  with 2 show ?case by (simp add: unat_of_nat_byte)
qed simp

lemma byte_less: "unat (b :: u8) < 256"
  using unsigned_less [of b] by simp

lemma le_val_bound: "le_val bs < 256 ^ length bs"
proof (induction bs)
  case (Cons b bs)
  with byte_less [of b] show ?case by simp
qed simp

section \<open>Packets\<close>

definition MAX_PACKET_LEN :: nat where "MAX_PACKET_LEN = 0x00FFFFFF"

record packet =
  pk_sequence :: u8
  pk_payload :: "u8 list"

definition read_exact :: "wire_err \<Rightarrow> nat \<Rightarrow> u8 list \<Rightarrow> wire_err + u8 list \<times> u8 list" where
  "read_exact e n stream = (if length stream < n then Inl e else Inr (take n stream, drop n stream))"

text \<open>One pass of the read loop: the chunk, its sequence number and the rest of the stream.\<close>

definition read_chunk :: "u8 list \<Rightarrow> wire_err + u8 list \<times> u8 \<times> u8 list" where
  "read_chunk stream =
     rbind (read_exact ReadHeader 4 stream) (\<lambda>(header, s1).
       rbind (read_exact ReadPayload (le_val (take 3 header)) s1) (\<lambda>(chunk, s2).
         Inr (chunk, header ! 3, s2)))"

lemma read_chunk_shorter: "read_chunk stream = Inr (chunk, sq, rest) \<Longrightarrow> length rest < length stream"
  by (auto simp: read_chunk_def read_exact_def result_simps split: if_splits)

function read_loop :: "u8 list \<Rightarrow> u8 list \<Rightarrow> wire_err + packet \<times> u8 list" where
  "read_loop acc stream = (case read_chunk stream of
     Inl e \<Rightarrow> Inl e
   | Inr (chunk, sq, rest) \<Rightarrow>
       if length chunk < MAX_PACKET_LEN then Inr (\<lparr>pk_sequence = sq, pk_payload = acc @ chunk\<rparr>, rest)
       else read_loop (acc @ chunk) rest)"
  by pat_completeness auto
termination
  by (relation "measure (\<lambda>(acc, stream). length stream)") (auto dest: read_chunk_shorter)

declare read_loop.simps [simp del]

definition read_packet :: "u8 list \<Rightarrow> wire_err + packet \<times> u8 list" where
  "read_packet stream = read_loop [] stream"

definition packet_header :: "nat \<Rightarrow> u8 \<Rightarrow> u8 list" where
  "packet_header len sq =
     [of_nat (len mod 256), of_nat (len div 256 mod 256), of_nat (len div 65536 mod 256), sq]"

text \<open>The bytes written for a payload and the next sequence number.\<close>

function write_packet :: "u8 \<Rightarrow> u8 list \<Rightarrow> u8 list \<times> u8" where
  "write_packet sq data =
     (let len = min (length data) MAX_PACKET_LEN;
          chunk = packet_header len sq @ take len data
      in if len < MAX_PACKET_LEN then (chunk, sq + 1)
         else (let (more, sq') = write_packet (sq + 1) (drop len data) in (chunk @ more, sq')))"
  by pat_completeness auto
termination
  by (relation "measure (\<lambda>(sq, data). length data)") (auto simp: MAX_PACKET_LEN_def)

declare write_packet.simps [simp del]

lemma packet_header_le: "len < 256 ^ 3 \<Longrightarrow> packet_header len sq = le_bytes 3 len @ [sq]"
  by (simp add: packet_header_def numeral_3_eq_3 div_mult2_eq [of _ 256 256, simplified])

lemma read_chunk_written:
  assumes "length data \<le> MAX_PACKET_LEN"
  shows "read_chunk (packet_header (length data) sq @ data @ rest) = Inr (data, sq, rest)"
proof -
  from assms have len: "length data < 256 ^ 3" by (simp add: MAX_PACKET_LEN_def)
  then have "le_val (le_bytes 3 (length data)) = length data" by (simp add: le_val_le_bytes)
  then show ?thesis
    by (simp add: read_chunk_def read_exact_def packet_header_le [OF len] nth_append)
qed

lemma read_loop_written:
  "read_loop acc (fst (write_packet sq data) @ rest)
   = Inr (\<lparr>pk_sequence = sq + of_nat (length data div MAX_PACKET_LEN), pk_payload = acc @ data\<rparr>, rest)"
proof (induction sq data arbitrary: acc rule: write_packet.induct)
  case (1 sq data)
  let ?M = MAX_PACKET_LEN
  have pos: "0 < ?M" by (simp add: MAX_PACKET_LEN_def)
  show ?case
  proof (cases "length data < ?M")
    case True
    then show ?thesis
      using read_chunk_written [of data sq rest]
      by (simp add: write_packet.simps [of sq data] read_loop.simps [of acc] Let_def)
  next
    case False
    then have m: "min (length data) ?M = ?M" by simp
    define tail where "tail = fst (write_packet (sq + 1) (drop ?M data)) @ rest"
    have w: "fst (write_packet sq data) @ rest = packet_header ?M sq @ take ?M data @ tail"
      using m by (simp add: write_packet.simps [of sq data] Let_def tail_def split_def)
    have "read_chunk (packet_header ?M sq @ take ?M data @ tail) = Inr (take ?M data, sq, tail)"
      using read_chunk_written [of "take ?M data" sq tail] m by simp
    then have "read_loop acc (fst (write_packet sq data) @ rest) = read_loop (acc @ take ?M data) tail"
      unfolding w using m by (simp add: read_loop.simps [of acc])
    also have "\<dots> = Inr (\<lparr>pk_sequence = sq + 1 + of_nat (length (drop ?M data) div ?M),
        pk_payload = (acc @ take ?M data) @ drop ?M data\<rparr>, rest)"
      using 1 [OF refl refl, of "acc @ take ?M data"] m unfolding tail_def by simp
    also have "length data div ?M = Suc (length (drop ?M data) div ?M)"
      using False pos by (simp add: le_div_geq)
    then have "sq + 1 + of_nat (length (drop ?M data) div ?M) = sq + of_nat (length data div ?M)"
      by simp
    finally show ?thesis by simp
  qed
qed

section \<open>Encoders\<close>

definition put_u16_le :: "16 word \<Rightarrow> u8 list" where "put_u16_le v = le_bytes 2 (unat v)"

definition put_u24_le :: "32 word \<Rightarrow> u8 list" where
  "put_u24_le v = [ucast (and v 0xFF), ucast (and (drop_bit 8 v) 0xFF), ucast (and (drop_bit 16 v) 0xFF)]"

definition put_u32_le :: "32 word \<Rightarrow> u8 list" where "put_u32_le v = le_bytes 4 (unat v)"
definition put_u64_le :: "64 word \<Rightarrow> u8 list" where "put_u64_le v = le_bytes 8 (unat v)"

definition put_lenenc_int :: "64 word \<Rightarrow> u8 list" where
  "put_lenenc_int v =
     (if v < 251 then [ucast v]
      else if v \<le> 0xFFFF then 0xFC # put_u16_le (ucast v)
      else if v \<le> 0x00FFFFFF then 0xFD # put_u24_le (ucast v)
      else 0xFE # put_u64_le v)"

definition put_lenenc_bytes :: "u8 list \<Rightarrow> u8 list" where
  "put_lenenc_bytes v = put_lenenc_int (of_nat (length v)) @ v"

definition put_lenenc_str :: "string \<Rightarrow> u8 list" where
  "put_lenenc_str v = put_lenenc_bytes (bytes_of v)"

definition put_null_str :: "string \<Rightarrow> u8 list" where
  "put_null_str v = bytes_of v @ [0]"

section \<open>Decoders\<close>

type_synonym 'a decoder = "u8 list \<Rightarrow> nat \<Rightarrow> wire_err + 'a \<times> nat"

definition take_bytes :: "nat \<Rightarrow> u8 list decoder" where
  "take_bytes len input idx =
     (if length input - idx < len then Inl Truncated
      else Inr (take len (drop idx input), idx + len))"

definition get_u16_le :: "16 word decoder" where
  "get_u16_le input idx = rbind (take_bytes 2 input idx) (\<lambda>(bs, i). Inr (of_nat (le_val bs), i))"

definition get_u32_le :: "32 word decoder" where
  "get_u32_le input idx = rbind (take_bytes 4 input idx) (\<lambda>(bs, i). Inr (of_nat (le_val bs), i))"

definition get_u64_le :: "64 word decoder" where
  "get_u64_le input idx = rbind (take_bytes 8 input idx) (\<lambda>(bs, i). Inr (of_nat (le_val bs), i))"

definition get_u8 :: "u8 decoder" where
  "get_u8 input idx = rbind (take_bytes 1 input idx) (\<lambda>(bs, i).
     case bs of [] \<Rightarrow> Inl Truncated | b # _ \<Rightarrow> Inr (b, i))"

definition get_lenenc_int :: "64 word decoder" where
  "get_lenenc_int input idx = rbind (get_u8 input idx) (\<lambda>(first, i).
     if first = 0xFC then rbind (get_u16_le input i) (\<lambda>(v, j). Inr (ucast v, j))
     else if first = 0xFD then rbind (take_bytes 3 input i) (\<lambda>(bs, j). Inr (of_nat (le_val bs), j))
     else if first = 0xFE then get_u64_le input i
     else if first = 0xFF then Inl BadLenencMarker
     else Inr (ucast first, i))"

definition get_lenenc_bytes :: "u8 list decoder" where
  "get_lenenc_bytes input idx = rbind (get_lenenc_int input idx) (\<lambda>(len, i). take_bytes (unat len) input i)"

definition get_null_str :: "string decoder" where
  "get_null_str input idx =
     (let bs = takeWhile (\<lambda>b. b \<noteq> 0) (drop idx input); i = idx + length bs
      in if length input \<le> i then Inl MissingNullTerminator
         else if \<not> utf8_valid bs then Inl InvalidUtf8
         else Inr (string_of bs, i + 1))"

text \<open>
  What every decoder guarantees: from an index inside the input it ends at an index inside
  the input, never moving back.
\<close>

definition advances :: "'a decoder \<Rightarrow> bool" where
  "advances d \<longleftrightarrow> (\<forall>input idx v i. d input idx = Inr (v, i) \<longrightarrow> idx \<le> length input \<longrightarrow> idx \<le> i \<and> i \<le> length input)"

lemma advancesD: "advances d \<Longrightarrow> d input idx = Inr (v, i) \<Longrightarrow> idx \<le> length input \<Longrightarrow> idx \<le> i \<and> i \<le> length input"
  by (auto simp: advances_def)

lemma advances_take [simp]: "advances (take_bytes n)"
  by (auto simp: advances_def take_bytes_def split: if_splits)

lemma advances_bind:
  assumes "advances d" and "\<And>v. advances (\<lambda>input i. f v input i)"
  shows "advances (\<lambda>input idx. rbind (d input idx) (\<lambda>(v, i). f v input i))"
  unfolding advances_def
proof (intro allI impI)
  fix input idx v i
  assume "rbind (d input idx) (\<lambda>(v, i). f v input i) = Inr (v, i)" and idx: "idx \<le> length input"
  then obtain w j where "d input idx = Inr (w, j)" "f w input j = Inr (v, i)"
    by (auto simp: result_simps)
  then show "idx \<le> i \<and> i \<le> length input"
    using advancesD [OF assms(1)] advancesD [OF assms(2)] idx by (meson order_trans)
qed

lemma advances_const [simp]: "advances (\<lambda>input i. Inr (v, i))" "advances (\<lambda>input i. Inl e)"
  by (simp_all add: advances_def)

lemma advances_if [simp]: "(b \<Longrightarrow> advances d) \<Longrightarrow> (\<not> b \<Longrightarrow> advances d') \<Longrightarrow> advances (\<lambda>input i. if b then d input i else d' input i)"
  by (simp add: advances_def)

lemma advances_words [simp]: "advances get_u16_le" "advances get_u32_le" "advances get_u64_le"
  unfolding get_u16_le_def [abs_def] get_u32_le_def [abs_def] get_u64_le_def [abs_def]
  by (rule advances_bind; simp)+

lemma advances_u8 [simp]: "advances get_u8"
  unfolding get_u8_def [abs_def]
proof (rule advances_bind)
  fix bs :: "u8 list"
  show "advances (\<lambda>input i. case bs of [] \<Rightarrow> Inl Truncated | b # _ \<Rightarrow> Inr (b, i))"
    by (cases bs) simp_all
qed simp

lemma advances_lenenc_int [simp]: "advances get_lenenc_int"
  unfolding get_lenenc_int_def [abs_def] by (rule advances_bind) (auto intro!: advances_if advances_bind)

lemma advances_lenenc_bytes [simp]: "advances get_lenenc_bytes"
  unfolding get_lenenc_bytes_def [abs_def] by (rule advances_bind) auto

lemma advances_null_str [simp]: "advances get_null_str"
  by (auto simp: advances_def get_null_str_def Let_def split: if_splits)

text \<open>Reading one byte moves the index forward.\<close>

lemma get_u8_InrD: "get_u8 input idx = Inr (b, i) \<Longrightarrow> idx < length input \<and> b = input ! idx \<and> i = Suc idx"
  by (auto simp: get_u8_def take_bytes_def result_simps take_Suc_conv_app_nth hd_drop_conv_nth
      split: if_splits list.splits prod.splits)

section \<open>Reading back what was written\<close>

text \<open>\<open>reads d bs v\<close>: at the start of \<open>bs\<close>, anywhere in an input, \<open>d\<close> returns \<open>v\<close>
  and stops right behind \<open>bs\<close>.\<close>

definition reads :: "'a decoder \<Rightarrow> u8 list \<Rightarrow> 'a \<Rightarrow> bool" where
  "reads d bs v \<longleftrightarrow> (\<forall>pre rest. d (pre @ bs @ rest) (length pre) = Inr (v, length pre + length bs))"

lemma readsD: "reads d bs v \<Longrightarrow> d (pre @ bs @ rest) (length pre) = Inr (v, length pre + length bs)"
  by (simp add: reads_def)

lemma reads_take: "n = length bs \<Longrightarrow> reads (take_bytes n) bs bs"
  by (simp add: reads_def take_bytes_def)

lemma reads_bind:
  assumes "reads d bs w" and "reads (f w) cs v"
  shows "reads (\<lambda>input idx. rbind (d input idx) (\<lambda>(w, i). f w input i)) (bs @ cs) v"
  unfolding reads_def
proof (intro allI)
  fix pre rest
  have "f w ((pre @ bs) @ cs @ rest) (length (pre @ bs)) = Inr (v, length (pre @ bs) + length cs)"
    using assms(2) by (rule readsD)
  then show "rbind (d (pre @ (bs @ cs) @ rest) (length pre)) (\<lambda>(w, i). f w (pre @ (bs @ cs) @ rest) i)
      = Inr (v, length pre + length (bs @ cs))"
    using readsD [OF assms(1), of pre "cs @ rest"] by (simp add: add.assoc)
qed

lemma reads_return: "reads (\<lambda>input i. Inr (v, i)) [] v"
  by (simp add: reads_def)

lemma reads_bind_return:
  "reads d bs w \<Longrightarrow> reads (\<lambda>input idx. rbind (d input idx) (\<lambda>(w, i). Inr (f w, i))) bs (f w)"
  using reads_bind [of d bs w "\<lambda>w input i. Inr (f w, i)" "[]" "f w"] reads_return [of "f w"] by simp

lemma unat_bounds: "unat (v :: 16 word) < 256 ^ 2" "unat (w :: 32 word) < 256 ^ 4" "unat (x :: 64 word) < 256 ^ 8"
  using unsigned_less [of v] unsigned_less [of w] unsigned_less [of x] by simp_all

lemma reads_u16: "reads get_u16_le (put_u16_le v) v"
proof -
  have "of_nat (le_val (put_u16_le v)) = v"
    using unat_bounds(1) [of v] by (simp add: put_u16_le_def le_val_le_bytes)
  with reads_bind_return [OF reads_take [of 2 "put_u16_le v"], of "\<lambda>bs. of_nat (le_val bs) :: 16 word"]
  show ?thesis by (simp add: get_u16_le_def [abs_def] put_u16_le_def)
qed

lemma reads_u32: "reads get_u32_le (put_u32_le v) v"
proof -
  have "of_nat (le_val (put_u32_le v)) = v"
    using unat_bounds(2) [of v] by (simp add: put_u32_le_def le_val_le_bytes)
  with reads_bind_return [OF reads_take [of 4 "put_u32_le v"], of "\<lambda>bs. of_nat (le_val bs) :: 32 word"]
  show ?thesis by (simp add: get_u32_le_def [abs_def] put_u32_le_def)
qed

lemma reads_u64: "reads get_u64_le (put_u64_le v) v"
proof -
  have "of_nat (le_val (put_u64_le v)) = v"
    using unat_bounds(3) [of v] by (simp add: put_u64_le_def le_val_le_bytes)
  with reads_bind_return [OF reads_take [of 8 "put_u64_le v"], of "\<lambda>bs. of_nat (le_val bs) :: 64 word"]
  show ?thesis by (simp add: get_u64_le_def [abs_def] put_u64_le_def)
qed

lemma reads_u8: "reads get_u8 [b] b"
  by (simp add: reads_def get_u8_def take_bytes_def)

lemma unat_ucast_mod: "unat (ucast (v :: 'a::len word) :: 'b::len word) = unat v mod 2 ^ LENGTH('b)"
  by (simp add: unsigned_ucast_eq take_bit_eq_mod)

lemma low_byte: "ucast (and (w :: 32 word) 0xFF) = (of_nat (unat w mod 256) :: u8)"
proof -
  have "and w 0xFF = take_bit 8 w" by (simp add: take_bit_eq_mask mask_eq_exp_minus_1)
  then have "unat (and w 0xFF) = unat w mod 256"
    by (simp only: unsigned_take_bit_eq) (simp add: take_bit_eq_mod [of 8 "unat w"])
  moreover have "ucast (and w 0xFF) = (of_nat (unat (and w 0xFF)) :: u8)" by simp
  ultimately show ?thesis by (simp only:)
qed

lemma put_u24_le_bytes: "put_u24_le v = le_bytes 3 (unat v)"
proof -
  have "unat (drop_bit n v) = unat v div 2 ^ n" for n
    using unat_drop_bit_eq [of n v] by (simp add: drop_bit_eq_div [of n "unat v"])
  from this [of 8] this [of 16] show ?thesis
    by (simp add: put_u24_le_def low_byte numeral_3_eq_3 div_mult2_eq [of _ 256 256, simplified])
qed

lemma reads_lenenc_int: "reads get_lenenc_int (put_lenenc_int v) v"
proof -
  let ?k = "\<lambda>first input i.
     if first = 0xFC then rbind (get_u16_le input i) (\<lambda>(v, j). Inr (ucast v, j))
     else if first = 0xFD then rbind (take_bytes 3 input i) (\<lambda>(bs, j). Inr (of_nat (le_val bs), j))
     else if first = 0xFE then get_u64_le input i
     else if first = 0xFF then Inl BadLenencMarker
     else Inr ((ucast (first :: u8) :: 64 word), i)"
  have step: "reads (?k b) cs v \<Longrightarrow> reads get_lenenc_int (b # cs) v" for b cs
    using reads_bind [OF reads_u8, of ?k b cs v] by (simp add: get_lenenc_int_def [abs_def])
  consider (one) "v < 251" | (two) "251 \<le> v" "v \<le> 0xFFFF"
    | (three) "0xFFFF < v" "v \<le> 0x00FFFFFF" | (eight) "0x00FFFFFF < v"
    by fastforce
  then show ?thesis
  proof cases
    case one
    then have n: "unat v < 251" by (simp add: word_less_nat_alt)
    then have b: "unat (ucast v :: u8) = unat v" by (simp add: unat_ucast_mod)
    then have "(ucast (ucast v :: u8) :: 64 word) = v"
      using n by (simp add: word_unat_eq_iff unat_ucast_mod)
    moreover have "(ucast v :: u8) \<noteq> x" if "251 \<le> unat x" for x using b n that by auto
    ultimately have "reads (?k (ucast v)) [] v" by (simp add: reads_def)
    with one step show ?thesis by (simp add: put_lenenc_int_def)
  next
    case two
    then have n: "unat v < 2 ^ 16" by (simp add: word_le_nat_alt)
    then have "(ucast (ucast v :: 16 word) :: 64 word) = v"
      by (simp add: word_unat_eq_iff unat_ucast_mod)
    with reads_bind_return [OF reads_u16, of "ucast :: 16 word \<Rightarrow> 64 word" "ucast v"]
    have "reads (?k 0xFC) (put_u16_le (ucast v)) v" by simp
    with two step show ?thesis by (simp add: put_lenenc_int_def linorder_not_less)
  next
    case three
    then have n: "unat v < 2 ^ 24" by (simp add: word_le_nat_alt)
    have "of_nat (le_val (put_u24_le (ucast v))) = v"
      using n by (simp add: put_u24_le_bytes le_val_le_bytes unat_ucast_mod)
    with reads_bind_return [OF reads_take [of 3 "put_u24_le (ucast v)"], of "\<lambda>bs. of_nat (le_val bs) :: 64 word"]
    have "reads (?k 0xFD) (put_u24_le (ucast v)) v" by (simp add: put_u24_le_def)
    moreover have "\<not> v < 251" "\<not> v \<le> 0xFFFF" using three by (auto simp: word_less_nat_alt word_le_nat_alt)
    ultimately show ?thesis using three step by (simp add: put_lenenc_int_def)
  next
    case eight
    have "reads (?k 0xFE) (put_u64_le v) v" using reads_u64 by simp
    moreover have "\<not> v < 251" "\<not> v \<le> 0xFFFF" "\<not> v \<le> 0x00FFFFFF" using eight by (auto simp: word_less_nat_alt word_le_nat_alt)
    ultimately show ?thesis using step by (simp add: put_lenenc_int_def)
  qed
qed

lemma reads_lenenc_bytes:
  assumes "length bs < 2 ^ 64"
  shows "reads get_lenenc_bytes (put_lenenc_bytes bs) bs"
proof -
  have "unat (of_nat (length bs) :: 64 word) = length bs"
    using assms by (simp add: unat_of_nat)
  then have "reads (take_bytes (unat (of_nat (length bs) :: 64 word))) bs bs"
    by (simp add: reads_take)
  from reads_bind [where f = "\<lambda>len. take_bytes (unat len)", OF reads_lenenc_int this] show ?thesis
    by (simp add: get_lenenc_bytes_def [abs_def] put_lenenc_bytes_def)
qed

lemma reads_null_str:
  assumes "CHR 0x00 \<notin> set s" and "utf8_valid (bytes_of s)"
  shows "reads get_null_str (put_null_str s) s"
proof -
  have "of_char c \<noteq> (0 :: u8)" if "c \<in> set s" for c
  proof
    assume "of_char c = (0 :: u8)"
    then have "string_of (bytes_of [c]) = [CHR 0x00]"
      by (simp add: bytes_of_def string_of_def char_of_def)
    with assms(1) that show False by simp
  qed
  then have "takeWhile (\<lambda>b. b \<noteq> 0) (bytes_of s @ 0 # rest) = bytes_of s" for rest
    by (subst takeWhile_append2) (auto simp: bytes_of_def)
  with assms(2) show ?thesis
    by (simp add: reads_def get_null_str_def put_null_str_def)
qed


section \<open>Server packets\<close>

definition SERVER_STATUS_AUTOCOMMIT :: "16 word" where "SERVER_STATUS_AUTOCOMMIT = 0x0002"

definition ok_packet :: "u8 list" where
  "ok_packet = [0] @ put_lenenc_int 0 @ put_lenenc_int 0 @ put_u16_le SERVER_STATUS_AUTOCOMMIT @ put_u16_le 0"

definition ok_packet_with_rows :: "nat \<Rightarrow> u8 list" where
  "ok_packet_with_rows affected_rows =
     [0] @ put_lenenc_int (of_nat affected_rows) @ put_lenenc_int 0
     @ put_u16_le SERVER_STATUS_AUTOCOMMIT @ put_u16_le 0"

definition eof_packet :: "u8 list" where
  "eof_packet = [0xFE] @ put_u16_le 0 @ put_u16_le SERVER_STATUS_AUTOCOMMIT"

definition err_packet :: "16 word \<Rightarrow> string \<Rightarrow> string \<Rightarrow> u8 list" where
  "err_packet code state message =
     [0xFF] @ put_u16_le code @ bytes_of ''#''
     @ take 5 (bytes_of state) @ drop (length (take 5 (bytes_of state))) (bytes_of ''HY000'')
     @ bytes_of message"

section \<open>Properties\<close>

text \<open>C17: A payload of any length, split into 16 MB packets by the writer, is read back whole: the
  reader returns the payload, the sequence number of its last packet, and leaves exactly the bytes
  that followed it on the stream, also when the length is a multiple of the packet limit.\<close>

theorem packet_roundtrip:
  "read_packet (fst (write_packet sq data) @ rest)
   = Inr (\<lparr>pk_sequence = sq + of_nat (length data div MAX_PACKET_LEN), pk_payload = data\<rparr>, rest)"
  using read_loop_written [of "[]"] by (simp add: read_packet_def)

text \<open>Every 64-bit length-encoded integer reads back as written, anywhere in a packet, and
  the reader stops exactly behind it.\<close>

theorem lenenc_int_roundtrip:
  "get_lenenc_int (pre @ put_lenenc_int v @ rest) (length pre)
   = Inr (v, length pre + length (put_lenenc_int v))"
  by (rule readsD [OF reads_lenenc_int])

text \<open>Length-encoded byte strings shorter than 2^64 read back as written.\<close>

theorem lenenc_bytes_roundtrip:
  assumes "length bs < 2 ^ 64"
  shows "get_lenenc_bytes (pre @ put_lenenc_bytes bs @ rest) (length pre)
         = Inr (bs, length pre + length (put_lenenc_bytes bs))"
  by (rule readsD [OF reads_lenenc_bytes [OF assms]])

theorem lenenc_bytes_roundtrip_witness:
  "get_lenenc_bytes ([7] @ put_lenenc_bytes [1, 2, 3] @ [9]) (length [7 :: u8])
   = Inr ([1, 2, 3], length [7 :: u8] + length (put_lenenc_bytes [1, 2, 3]))"
  by (rule lenenc_bytes_roundtrip) simp

end
