(* ===== verification/Mysql_Stmt.thy ===== *)
theory Mysql_Stmt
  imports Mysql_Codec
begin

text \<open>
  Prepared statements on the wire: \<^verbatim>\<open>src/server/mysql/stmt.rs\<close>. The rewriter
  turns the n-th \<^verbatim>\<open>?\<close> outside literals and comments into \<^verbatim>\<open>$n\<close>, the
  decoders read the binary parameters of an execute packet. Main results: the rewritten
  statement has exactly the placeholders counted, for the scanner that binds them; an
  accepted execute packet yields one value per placeholder, null exactly where the bitmap
  says so, and never reads outside the packet.
\<close>

section \<open>Placeholders\<close>

definition put :: "string \<Rightarrow> string \<times> nat \<Rightarrow> string \<times> nat" where
  "put t r = (case r of (out, n) \<Rightarrow> (t @ out, n))"

fun rewrite_from :: "scan_state \<Rightarrow> nat \<Rightarrow> string \<Rightarrow> string \<times> nat" where
  "rewrite_from st count [] = ([], count)"
| "rewrite_from Normal count (c # s) =
     (if c = squote then put [c] (rewrite_from SingleQuote count s)
      else if c = dquote then put [c] (rewrite_from DoubleQuote count s)
      else if c = CHR ''-'' \<and> next_is (CHR ''-'') s
        then put [c, hd s] (rewrite_from LineComment count (tl s))
      else if c = CHR ''/'' \<and> next_is (CHR ''*'') s
        then put [c, hd s] (rewrite_from BlockComment count (tl s))
      else if c = CHR ''?'' then put (CHR ''$'' # show_nat (count + 1)) (rewrite_from Normal (count + 1) s)
      else put [c] (rewrite_from Normal count s))"
| "rewrite_from SingleQuote count (c # s) =
     (if c = squote
      then (if next_is squote s then put [c, hd s] (rewrite_from SingleQuote count (tl s))
            else put [c] (rewrite_from Normal count s))
      else put [c] (rewrite_from SingleQuote count s))"
| "rewrite_from DoubleQuote count (c # s) =
     (if c = dquote
      then (if next_is dquote s then put [c, hd s] (rewrite_from DoubleQuote count (tl s))
            else put [c] (rewrite_from Normal count s))
      else put [c] (rewrite_from DoubleQuote count s))"
| "rewrite_from LineComment count (c # s) =
     put [c] (rewrite_from (if c = CHR 0x0A then Normal else LineComment) count s)"
| "rewrite_from BlockComment count (c # s) =
     (if c = CHR ''*'' \<and> next_is (CHR ''/'') s
      then put [c, hd s] (rewrite_from Normal count (tl s))
      else put [c] (rewrite_from BlockComment count s))"

definition rewrite_mysql_placeholders :: "string \<Rightarrow> string \<times> nat" where
  "rewrite_mysql_placeholders sql = rewrite_from Normal 0 sql"

lemma put_conv [simp]: "put t r = (out, n) \<longleftrightarrow> (\<exists>o'. r = (o', n) \<and> out = t @ o')"
  by (cases r) (auto simp: put_def)

text \<open>No mark is followed by a digit it would merge with.\<close>

fun undigited :: "string \<Rightarrow> bool" where
  "undigited (a # b # s) = (\<not> ((a = CHR ''?'' \<or> a = CHR ''$'') \<and> is_digit b) \<and> undigited (b # s))"
| "undigited s = True"

lemma undigited_ConsD: "undigited (c # s) \<Longrightarrow> undigited s \<and> undigited (tl s)"
  by (cases s; cases "tl s") auto

lemma undigited_mark: "undigited (c # s) \<Longrightarrow> c = CHR ''?'' \<or> c = CHR ''$'' \<Longrightarrow> s \<noteq> [] \<Longrightarrow> \<not> is_digit (hd s)"
  by (cases s) auto

text \<open>The first character survives, but for a mark in the normal state.\<close>

lemma rewrite_hd:
  "rewrite_from st n s = (out, m) \<Longrightarrow>
   next_is c out \<longleftrightarrow> (if st = Normal \<and> next_is (CHR ''?'') s then c = CHR ''$'' else next_is c s)"
  by (cases s; cases st) (auto split: if_splits)

lemma rewrite_mono: "rewrite_from st n s = (out, m) \<Longrightarrow> n \<le> m"
  by (induction st n s arbitrary: out rule: rewrite_from.induct)
    (auto split: if_splits dest: Suc_leD)

lemma scan_number:
  assumes "Suc n \<le> usize_max" and "out = [] \<or> \<not> is_digit (hd out)"
    and "scan_from F None Normal (Suc n) out = Inr (out, m)"
  shows "scan_from F None Normal n (CHR ''$'' # show_nat (Suc n) @ out)
         = Inr (CHR ''$'' # show_nat (Suc n) @ out, m)"
proof -
  have d: "\<forall>c \<in> set (show_nat (Suc n)). is_digit c" using show_nat_digits by blast
  with assms(2) have tw: "takeWhile is_digit (show_nat (Suc n) @ out) = show_nat (Suc n)"
    and dw: "dropWhile is_digit (show_nat (Suc n) @ out) = out"
    by (cases out; simp add: takeWhile_append dropWhile_append)+
  have "is_digit (hd (show_nat (Suc n) @ out))" using d by (cases "show_nat (Suc n)") auto
  moreover have "param_text F None (show_nat (Suc n)) = Inr (Suc n, CHR ''$'' # show_nat (Suc n))"
    using assms(1) by (simp add: param_text_def parse_unsigned_show_nat)
  ultimately show ?thesis using assms(3) by (simp add: tw dw max_def emit_def)
qed

lemma scan_rewritten:
  "rewrite_from st n s = (out, m) \<Longrightarrow> undigited s \<Longrightarrow> m \<le> usize_max \<Longrightarrow>
   scan_from F None st n out = Inr (out, m)"
proof (induction st n s arbitrary: out rule: rewrite_from.induct)
  case (2 n c s)
  note ud = undigited_ConsD [OF "2.prems"(2)]
  show ?case
  proof (cases "c = CHR ''?''")
    case True
    with "2.prems"(1) obtain o' where o: "out = CHR ''$'' # show_nat (Suc n) @ o'"
      "rewrite_from Normal (Suc n) s = (o', m)"
      by auto
    with True "2.IH"(5) "2.prems"(3) ud have "scan_from F None Normal (Suc n) o' = Inr (o', m)" by auto
    moreover have "o' = [] \<or> \<not> is_digit (hd o')"
    proof (cases s)
      case (Cons d r)
      with undigited_mark [OF "2.prems"(2)] True have "\<not> is_digit d" by simp
      moreover have "\<not> is_digit (CHR ''$'')" by (simp add: is_digit_def)
      ultimately show ?thesis
        using rewrite_hd [OF o(2), of "hd o'"] Cons by (auto split: if_splits)
    qed (use o(2) in simp)
    moreover have "Suc n \<le> usize_max" using rewrite_mono [OF o(2)] "2.prems"(3) by simp
    ultimately show ?thesis unfolding o(1) by (intro scan_number)
  next
    case False
    show ?thesis
    proof (rule normal_cases [where c = c and s = s])
      assume c: "c \<noteq> squote" "c \<noteq> dquote" "\<not> (c = CHR ''-'' \<and> next_is (CHR ''-'') s)"
        "\<not> (c = CHR ''/'' \<and> next_is (CHR ''*'') s)" "\<not> (c = CHR ''$'' \<and> s \<noteq> [] \<and> is_digit (hd s))"
      with False "2.prems"(1) obtain o' where o: "out = c # o'" "rewrite_from Normal n s = (o', m)"
        by auto
      have "scan_from F None Normal n o' = Inr (o', m)"
        using "2.IH"(6) c o(2) False "2.prems"(3) ud by simp
      moreover have "\<not> (c = CHR ''-'' \<and> next_is (CHR ''-'') o')"
        using c(3) rewrite_hd [OF o(2), of "CHR ''-''"] by (auto split: if_splits)
      moreover have "\<not> (c = CHR ''/'' \<and> next_is (CHR ''*'') o')"
        using c(4) rewrite_hd [OF o(2), of "CHR ''*''"] by (auto split: if_splits)
      moreover have "\<not> (c = CHR ''$'' \<and> o' \<noteq> [] \<and> is_digit (hd o'))"
      proof (cases "s \<noteq> [] \<and> hd s = CHR ''?''")
        case True
        with rewrite_hd [OF o(2), of "CHR ''$''"] show ?thesis by (auto simp: is_digit_def)
      next
        case False
        with c(5) rewrite_hd [OF o(2), of "hd o'"] show ?thesis by (auto split: if_splits)
      qed
      ultimately show ?thesis
        using c(1,2) unfolding o(1) by (subst scan_from.simps) (auto simp: emit_def)
    next
      assume "c = CHR ''$''" "s \<noteq> []" "is_digit (hd s)"
      with undigited_mark [OF "2.prems"(2)] show ?thesis by simp
    qed (use 2 ud False in \<open>auto simp: emit_def\<close>)
  qed
next
  case (3 n c s)
  note ud = undigited_ConsD [OF "3.prems"(2)]
  show ?case
  proof (cases "c = squote \<and> \<not> next_is squote s")
    case True
    with "3.prems"(1) obtain o' where o: "out = c # o'" "rewrite_from Normal n s = (o', m)" by auto
    with True 3 ud rewrite_hd [OF o(2), of squote] show ?thesis
      by (auto simp: emit_def split: if_splits)
  next
    case False
    with 3 ud show ?thesis by (cases "c = squote") (auto simp: emit_def)
  qed
next
  case (4 n c s)
  note ud = undigited_ConsD [OF "4.prems"(2)]
  show ?case
  proof (cases "c = dquote \<and> \<not> next_is dquote s")
    case True
    with "4.prems"(1) obtain o' where o: "out = c # o'" "rewrite_from Normal n s = (o', m)" by auto
    with True 4 ud rewrite_hd [OF o(2), of dquote] show ?thesis
      by (auto simp: emit_def split: if_splits)
  next
    case False
    with 4 ud show ?thesis by (cases "c = dquote") (auto simp: emit_def)
  qed
next
  case (5 n c s)
  note ud = undigited_ConsD [OF "5.prems"(2)]
  from 5 ud show ?case by (auto simp: emit_def)
next
  case (6 n c s)
  note ud = undigited_ConsD [OF "6.prems"(2)]
  show ?case
  proof (cases "c = CHR ''*'' \<and> next_is (CHR ''/'') s")
    case True
    with 6 ud show ?thesis by (auto simp: emit_def)
  next
    case False
    with "6.prems"(1) obtain o' where o: "out = c # o'" "rewrite_from BlockComment n s = (o', m)" by auto
    with False 6 ud rewrite_hd [OF o(2), of "CHR ''/''"] show ?thesis by (auto simp: emit_def)
  qed
qed simp

section \<open>Binary parameters\<close>

text \<open>Column and parameter types: \<^verbatim>\<open>src/server/mysql/types.rs\<close>.\<close>

definition MYSQL_TYPE_TINY :: u8 where "MYSQL_TYPE_TINY = 0x01"
definition MYSQL_TYPE_SHORT :: u8 where "MYSQL_TYPE_SHORT = 0x02"
definition MYSQL_TYPE_LONG :: u8 where "MYSQL_TYPE_LONG = 0x03"
definition MYSQL_TYPE_FLOAT :: u8 where "MYSQL_TYPE_FLOAT = 0x04"
definition MYSQL_TYPE_DOUBLE :: u8 where "MYSQL_TYPE_DOUBLE = 0x05"
definition MYSQL_TYPE_TIMESTAMP :: u8 where "MYSQL_TYPE_TIMESTAMP = 0x07"
definition MYSQL_TYPE_LONGLONG :: u8 where "MYSQL_TYPE_LONGLONG = 0x08"
definition MYSQL_TYPE_DATE :: u8 where "MYSQL_TYPE_DATE = 0x0A"
definition MYSQL_TYPE_TIME :: u8 where "MYSQL_TYPE_TIME = 0x0B"
definition MYSQL_TYPE_DATETIME :: u8 where "MYSQL_TYPE_DATETIME = 0x0C"
definition MYSQL_TYPE_JSON :: u8 where "MYSQL_TYPE_JSON = 0xF5"
definition MYSQL_TYPE_NEWDECIMAL :: u8 where "MYSQL_TYPE_NEWDECIMAL = 0xF6"
definition MYSQL_TYPE_BLOB :: u8 where "MYSQL_TYPE_BLOB = 0xFC"
definition MYSQL_TYPE_VAR_STRING :: u8 where "MYSQL_TYPE_VAR_STRING = 0xFD"
definition MYSQL_TYPE_STRING :: u8 where "MYSQL_TYPE_STRING = 0xFE"

lemmas mysql_type_defs =
  MYSQL_TYPE_TINY_def MYSQL_TYPE_SHORT_def MYSQL_TYPE_LONG_def MYSQL_TYPE_FLOAT_def
  MYSQL_TYPE_DOUBLE_def MYSQL_TYPE_TIMESTAMP_def MYSQL_TYPE_LONGLONG_def MYSQL_TYPE_DATE_def
  MYSQL_TYPE_TIME_def MYSQL_TYPE_DATETIME_def MYSQL_TYPE_JSON_def MYSQL_TYPE_NEWDECIMAL_def
  MYSQL_TYPE_BLOB_def MYSQL_TYPE_VAR_STRING_def MYSQL_TYPE_STRING_def

text \<open>Composition of decoders: the source's sequence of calls with the shared index.\<close>

definition dbind :: "'a decoder \<Rightarrow> ('a \<Rightarrow> 'b decoder) \<Rightarrow> 'b decoder" where
  "dbind d f input idx = rbind (d input idx) (\<lambda>(v, i). f v input i)"

definition dreturn :: "'a \<Rightarrow> 'a decoder" where
  "dreturn v input idx = Inr (v, idx)"

definition dthrow :: "wire_err \<Rightarrow> 'a decoder" where
  "dthrow e input idx = Inl e"

lemmas decoder_defs = dbind_def dreturn_def dthrow_def

lemma advances_dbind [simp]: "advances d \<Longrightarrow> (\<And>v. advances (f v)) \<Longrightarrow> advances (dbind d f)"
  unfolding dbind_def [abs_def] by (rule advances_bind) auto

lemma advances_dreturn [simp]: "advances (dreturn v)" "advances (dthrow e)"
  by (simp_all add: dreturn_def [abs_def] dthrow_def [abs_def])

lemma advances_if_branch [simp]: "(b \<Longrightarrow> advances d) \<Longrightarrow> (\<not> b \<Longrightarrow> advances d') \<Longrightarrow> advances (if b then d else d')"
  by simp

text \<open>
  \<^verbatim>\<open>f32 as f64\<close> on bit patterns: exact for every finite value; infinities stay,
  a NaN keeps its input and becomes quiet.
\<close>

fun top_bit :: "nat \<Rightarrow> nat" where
  "top_bit n = (if n < 2 then 0 else Suc (top_bit (n div 2)))"

declare top_bit.simps [simp del]

definition f32_to_f64 :: "32 word \<Rightarrow> 64 word" where
  "f32_to_f64 w =
     (let n = unat w; sgn = n div 2 ^ 31; e = n div 2 ^ 23 mod 256; m = n mod 2 ^ 23;
          k = top_bit m;
          body = (if e = 255 then (if m = 0 then 2047 * 2 ^ 52 else 2047 * 2 ^ 52 + (m mod 2 ^ 22 + 2 ^ 22) * 2 ^ 29)
                  else if e = 0 then (if m = 0 then 0 else (874 + k) * 2 ^ 52 + (m - 2 ^ k) * 2 ^ (52 - k))
                  else (e + 896) * 2 ^ 52 + m * 2 ^ 29)
      in of_nat (sgn * 2 ^ 63 + body))"

definition show_u8_2 :: "u8 \<Rightarrow> string" where "show_u8_2 b = pad0 2 (unat b)"

definition date_text :: "16 word \<Rightarrow> u8 \<Rightarrow> u8 \<Rightarrow> string" where
  "date_text year month day = pad0 4 (unat year) @ ''-'' @ show_u8_2 month @ ''-'' @ show_u8_2 day"

definition parse_binary_datetime :: "string decoder" where
  "parse_binary_datetime = dbind get_u8 (\<lambda>b. let len = unat b in
     if len = 0 then dreturn ''0000-00-00''
     else if len \<noteq> 4 \<and> len \<noteq> 7 \<and> len \<noteq> 11 then dthrow (BadDatetimeLen len)
     else dbind get_u16_le (\<lambda>year. dbind get_u8 (\<lambda>month. dbind get_u8 (\<lambda>day.
       if len = 4 then dreturn (date_text year month day)
       else dbind get_u8 (\<lambda>hour. dbind get_u8 (\<lambda>minute. dbind get_u8 (\<lambda>second.
         let hms = date_text year month day @ '' '' @ show_u8_2 hour @ '':'' @ show_u8_2 minute
                   @ '':'' @ show_u8_2 second
         in if len = 7 then dreturn hms
            else dbind get_u32_le (\<lambda>micros. dreturn (hms @ ''.'' @ pad0 6 (unat micros))))))))))"

definition parse_binary_time :: "string decoder" where
  "parse_binary_time = dbind get_u8 (\<lambda>b. let len = unat b in
     if len = 0 then dreturn ''00:00:00''
     else if len \<noteq> 8 \<and> len \<noteq> 12 then dthrow (BadTimeLen len)
     else dbind get_u8 (\<lambda>neg. dbind get_u32_le (\<lambda>days. dbind get_u8 (\<lambda>h. dbind get_u8 (\<lambda>minutes.
       dbind get_u8 (\<lambda>seconds.
         let hours = (ucast h :: 32 word) + days * 24;
             hms = (if neg \<noteq> 0 then ''-'' else []) @ pad0 2 (unat hours) @ '':''
                   @ show_u8_2 minutes @ '':'' @ show_u8_2 seconds
         in if len = 8 then dreturn hms
            else dbind get_u32_le (\<lambda>micros. dreturn (hms @ ''.'' @ pad0 6 (unat micros)))))))))"

definition parse_binary_param :: "u8 \<Rightarrow> sql_param decoder" where
  "parse_binary_param ty =
     (if ty = MYSQL_TYPE_TINY then dbind get_u8 (\<lambda>v. dreturn (PInteger (sint v)))
      else if ty = MYSQL_TYPE_SHORT then dbind get_u16_le (\<lambda>v. dreturn (PInteger (sint v)))
      else if ty = MYSQL_TYPE_LONG then dbind get_u32_le (\<lambda>v. dreturn (PInteger (sint v)))
      else if ty = MYSQL_TYPE_LONGLONG then dbind get_u64_le (\<lambda>v. dreturn (PInteger (sint v)))
      else if ty = MYSQL_TYPE_FLOAT then dbind get_u32_le (\<lambda>v. dreturn (PFloat (f32_to_f64 v)))
      else if ty = MYSQL_TYPE_DOUBLE then dbind get_u64_le (\<lambda>v. dreturn (PFloat v))
      else if ty \<in> {MYSQL_TYPE_VAR_STRING, MYSQL_TYPE_STRING, MYSQL_TYPE_NEWDECIMAL, MYSQL_TYPE_JSON}
        then dbind get_lenenc_bytes (\<lambda>v.
          if utf8_valid v then dreturn (PText (string_of v)) else dthrow InvalidUtf8)
      else if ty = MYSQL_TYPE_BLOB then dbind get_lenenc_bytes (\<lambda>v. dreturn (PBytes v))
      else if ty \<in> {MYSQL_TYPE_DATE, MYSQL_TYPE_DATETIME, MYSQL_TYPE_TIMESTAMP}
        then dbind parse_binary_datetime (\<lambda>t. dreturn (PText t))
      else if ty = MYSQL_TYPE_TIME then dbind parse_binary_time (\<lambda>t. dreturn (PText t))
      else dthrow (UnsupportedParamType ty))"

fun read_types :: "nat \<Rightarrow> u8 list decoder" where
  "read_types 0 = dreturn []"
| "read_types (Suc n) = dbind get_u8 (\<lambda>ty. dbind (take_bytes 1) (\<lambda>_.
     dbind (read_types n) (\<lambda>tys. dreturn (ty # tys))))"

definition null_bit :: "u8 list \<Rightarrow> nat \<Rightarrow> bool" where
  "null_bit bitmap i \<longleftrightarrow> and (bitmap ! (i div 8)) (push_bit (i mod 8) 1) \<noteq> 0"

fun read_values :: "u8 list \<Rightarrow> nat \<Rightarrow> u8 list \<Rightarrow> sql_param list decoder" where
  "read_values bitmap i [] = dreturn []"
| "read_values bitmap i (ty # tys) =
     dbind (if null_bit bitmap i then dreturn PNull else parse_binary_param ty)
       (\<lambda>v. dbind (read_values bitmap (Suc i) tys) (\<lambda>vs. dreturn (v # vs)))"

definition parse_execute_params :: "nat \<Rightarrow> u8 list \<Rightarrow> (sql_param list \<times> u8 list) decoder" where
  "parse_execute_params param_count previous_types =
     (if param_count = 0 then dreturn ([], [])
      else dbind (take_bytes ((param_count + 7) div 8)) (\<lambda>null_bitmap.
        dbind get_u8 (\<lambda>new_params_bound.
        dbind (if new_params_bound = 1 then read_types param_count
               else if length previous_types = param_count then dreturn previous_types
               else dthrow MissingParamTypes) (\<lambda>param_types.
        dbind (read_values null_bitmap 0 param_types) (\<lambda>params. dreturn (params, param_types))))))"

section \<open>What an accepted execute packet contains\<close>

lemma dbind_InrD: "dbind d f input idx = Inr (v, i) \<Longrightarrow> \<exists>w j. d input idx = Inr (w, j) \<and> f w input j = Inr (v, i)"
  by (auto simp: dbind_def result_simps)

lemma dreturn_conv [simp]: "dreturn v input idx = Inr (w, i) \<longleftrightarrow> v = w \<and> idx = i"
  by (simp add: dreturn_def)

lemma dthrow_conv [simp]: "dthrow e input idx \<noteq> Inr r"
  by (simp add: dthrow_def)

lemma advances_datetime [simp]: "advances parse_binary_datetime" "advances parse_binary_time"
  by (simp_all add: parse_binary_datetime_def parse_binary_time_def Let_def)

lemma advances_param [simp]: "advances (parse_binary_param ty)"
  by (simp add: parse_binary_param_def)

lemma advances_types [simp]: "advances (read_types n)"
  by (induction n) simp_all

lemma advances_values [simp]: "advances (read_values bitmap i tys)"
  by (induction tys arbitrary: i) simp_all

lemma advances_execute [simp]: "advances (parse_execute_params n previous_types)"
  by (simp add: parse_execute_params_def)

lemma param_not_null: "parse_binary_param ty input idx = Inr (v, i) \<Longrightarrow> v \<noteq> PNull"
  by (auto simp: parse_binary_param_def dest!: dbind_InrD split: if_splits)

lemma read_types_length: "read_types n input idx = Inr (tys, i) \<Longrightarrow> length tys = n"
  by (induction n arbitrary: tys idx i) (auto dest!: dbind_InrD)

lemma read_values_nulls:
  "read_values bitmap b tys input idx = Inr (vs, i) \<Longrightarrow>
   length vs = length tys \<and> (\<forall>k < length tys. vs ! k = PNull \<longleftrightarrow> null_bit bitmap (b + k))"
proof (induction bitmap b tys arbitrary: vs idx rule: read_values.induct)
  case (2 bitmap b ty tys)
  then obtain v ws j where
    v: "(if null_bit bitmap b then dreturn PNull else parse_binary_param ty) input idx = Inr (v, j)"
    and ws: "read_values bitmap (Suc b) tys input j = Inr (ws, i)" and vs: "vs = v # ws"
    by (auto dest!: dbind_InrD)
  from v have "v = PNull \<longleftrightarrow> null_bit bitmap b" by (auto split: if_splits dest: param_not_null)
  with "2.IH" [OF ws] vs show ?case by (auto simp: nth_Cons split: nat.splits)
qed auto

lemma null_bit_take: "i div 8 < n \<Longrightarrow> null_bit (take n bs) i = null_bit bs i"
  by (simp add: null_bit_def)

section \<open>Properties\<close>

text \<open>The rewritten statement has exactly the placeholders the rewriter counted: for the
  scanner that binds parameters, its placeholder count is the number of question marks outside
  literals and comments. (Required: no mark is directly followed by a digit, and fewer than 2^64
  marks.)\<close>

theorem rewrite_counts_placeholders:
  assumes "rewrite_mysql_placeholders sql = (out, n)" and "undigited sql" and "n \<le> usize_max"
  shows "sql_placeholder_count F out = Inr n"
  using scan_rewritten [of Normal 0 sql out n F] assms
  by (simp add: rewrite_mysql_placeholders_def sql_placeholder_count_def scan_sql_params_def)

theorem rewrite_counts_placeholders_witness:
  "sql_placeholder_count no_floats (''a=$1 OR b IN ($2,$3) -- ?'') = Inr 3"
  by (rule rewrite_counts_placeholders [where sql = "''a=? OR b IN (?,?) -- ?''"]) code_simp+

text \<open>C18: An accepted execute packet yields exactly one value and one type per placeholder, a
  value is NULL exactly where the packet's null bitmap has its bit set, and the decoder stops
  inside the packet.\<close>

theorem execute_params_follow_bitmap:
  assumes "parse_execute_params n previous_types input idx = Inr ((ps, tys), i)"
    and "idx \<le> length input"
  shows "length ps = n \<and> length tys = n \<and> idx \<le> i \<and> i \<le> length input
         \<and> (\<forall>k < n. ps ! k = PNull \<longleftrightarrow> null_bit (drop idx input) k)"
proof (cases "n = 0")
  case True
  with assms show ?thesis by (auto simp: parse_execute_params_def)
next
  case False
  let ?len = "(n + 7) div 8"
  from assms(1) False obtain bitmap j where
    bitmap: "take_bytes ?len input idx = Inr (bitmap, j)"
    and types: "length tys = n" and vals: "\<exists>i'. read_values bitmap 0 tys input i' = Inr (ps, i)"
    unfolding parse_execute_params_def
    by (fastforce dest!: dbind_InrD dest: read_types_length split: if_splits)
  from bitmap have "bitmap = take ?len (drop idx input)"
    by (auto simp: take_bytes_def split: if_splits)
  moreover have "k div 8 < ?len" if "k < n" for k using that by linarith
  ultimately have "null_bit bitmap k = null_bit (drop idx input) k" if "k < n" for k
    using that by (simp only: null_bit_take)
  with vals types have "length ps = n \<and> (\<forall>k < n. ps ! k = PNull \<longleftrightarrow> null_bit (drop idx input) k)"
    by (auto dest!: read_values_nulls)
  with types advancesD [OF advances_execute assms] show ?thesis by simp
qed

theorem execute_params_follow_bitmap_witness:
  "length [PNull, PInteger 5] = 2 \<and> 7 \<le> length [1, 1, 1, 0, 1, 0, 5 :: u8]
   \<and> (([PNull, PInteger 5] ! 0 = PNull) = null_bit (drop 0 [1, 1, 1, 0, 1, 0, 5]) 0)
   \<and> (([PNull, PInteger 5] ! 1 = PNull) = null_bit (drop 0 [1, 1, 1, 0, 1, 0, 5]) 1)"
proof -
  have parse: "parse_execute_params 2 [] [1, 1, 1, 0, 1, 0, 5] 0 = Inr (([PNull, PInteger 5], [1, 1]), 7)"
    by code_simp
  show ?thesis
    using execute_params_follow_bitmap [OF parse] by (metis le0 one_less_numeral_iff semiring_norm(76) zero_less_numeral)
qed

end
