(* ===== verification/Sql_Value.thy ===== *)
theory Sql_Value
  imports Params
begin

text \<open>
  Result values and columns: \<^verbatim>\<open>SqlType\<close>, \<^verbatim>\<open>SqlColumn\<close>,
  \<^verbatim>\<open>SqlValue\<close>, \<^verbatim>\<open>SqlTypedResult\<close> and \<^verbatim>\<open>SqlResult\<close> of
  \<^verbatim>\<open>src/db/model.rs\<close>. Decimal, UUID and JSON values belong to other crates and are
  represented by the text their \<^verbatim>\<open>to_string\<close> gives; calendar values by their fields.
\<close>

datatype sql_type =
    TBool | TBytea | TInt8 | TInt2 | TInt4 | TText | TFloat4 | TFloat8 | TNumeric
  | TDate | TTime | TTimestamp | TTimestampTz | TUuid | TJson

fun sql_type_name :: "sql_type \<Rightarrow> string" where
  "sql_type_name TBool = ''boolean''"
| "sql_type_name TBytea = ''binary''"
| "sql_type_name TInt8 = ''bigint''"
| "sql_type_name TInt2 = ''smallint''"
| "sql_type_name TInt4 = ''integer''"
| "sql_type_name TText = ''text''"
| "sql_type_name TFloat4 = ''real''"
| "sql_type_name TFloat8 = ''double''"
| "sql_type_name TNumeric = ''decimal''"
| "sql_type_name TDate = ''date''"
| "sql_type_name TTime = ''time''"
| "sql_type_name TTimestamp = ''timestamp''"
| "sql_type_name TTimestampTz = ''timestamp with time zone''"
| "sql_type_name TUuid = ''uuid''"
| "sql_type_name TJson = ''json''"

fun mysql_type_name :: "sql_type \<Rightarrow> string" where
  "mysql_type_name TBool = ''tinyint''"
| "mysql_type_name TBytea = ''blob''"
| "mysql_type_name TInt8 = ''bigint''"
| "mysql_type_name TInt2 = ''smallint''"
| "mysql_type_name TInt4 = ''int''"
| "mysql_type_name TText = ''varchar''"
| "mysql_type_name TFloat4 = ''float''"
| "mysql_type_name TFloat8 = ''double''"
| "mysql_type_name TNumeric = ''decimal''"
| "mysql_type_name TDate = ''date''"
| "mysql_type_name TTime = ''time''"
| "mysql_type_name TTimestamp = ''datetime''"
| "mysql_type_name TTimestampTz = ''datetime''"
| "mysql_type_name TUuid = ''char''"
| "mysql_type_name TJson = ''json''"

record sql_column =
  col_name :: string
  col_type :: sql_type

record naive_date =
  d_year :: int
  d_month :: nat
  d_day :: nat

record naive_time =
  t_hour :: nat
  t_minute :: nat
  t_second :: nat
  t_nanos :: nat

datatype sql_value =
    VNull | VBool bool | VInt16 "16 word" | VInt32 "32 word" | VInt64 "64 word"
  | VFloat32 "32 word" | VFloat64 "64 word" | VDecimal string | VNumericText string
  | VText string | VBytes "u8 list" | VDate naive_date | VTime naive_time
  | VTimestamp naive_date naive_time | VTimestampTz naive_date naive_time
  | VUuid string | VJson string | VInterval "32 word" "32 word" "64 word"

text \<open>The \<^verbatim>\<open>%Y-%m-%d\<close> and \<^verbatim>\<open>%H:%M:%S%.6f\<close> formats.\<close>

definition format_date :: "naive_date \<Rightarrow> string" where
  "format_date d =
     (if 0 \<le> d_year d \<and> d_year d \<le> 9999 then pad0 4 (nat (d_year d))
      else (if d_year d < 0 then ''-'' else ''+'') @ pad0 4 (nat \<bar>d_year d\<bar>))
     @ ''-'' @ pad0 2 (d_month d) @ ''-'' @ pad0 2 (d_day d)"

definition format_time :: "naive_time \<Rightarrow> string" where
  "format_time t =
     pad0 2 (t_hour t) @ '':'' @ pad0 2 (t_minute t) @ '':''
     @ pad0 2 (t_second t + t_nanos t div 1000000000)
     @ ''.'' @ pad0 6 (t_nanos t mod 1000000000 div 1000)"

fun text_value :: "float_fmt \<Rightarrow> sql_value \<Rightarrow> string option" where
  "text_value F VNull = None"
| "text_value F (VBool v) = Some (if v then ''t'' else ''f'')"
| "text_value F (VInt16 v) = Some (show_int (sint v))"
| "text_value F (VInt32 v) = Some (show_int (sint v))"
| "text_value F (VInt64 v) = Some (show_int (sint v))"
| "text_value F (VFloat32 v) = Some (show_f32 F v)"
| "text_value F (VFloat64 v) = Some (show_f64 F v)"
| "text_value F (VDecimal v) = Some v"
| "text_value F (VNumericText v) = Some v"
| "text_value F (VText v) = Some v"
| "text_value F (VBytes v) = Some ([CHR 0x5C, CHR ''x''] @ hex_encode v)"
| "text_value F (VDate d) = Some (format_date d)"
| "text_value F (VTime t) = Some (format_time t)"
| "text_value F (VTimestamp d t) = Some (format_date d @ '' '' @ format_time t)"
| "text_value F (VTimestampTz d t) = Some (format_date d @ '' '' @ format_time t @ ''+00:00'')"
| "text_value F (VUuid v) = Some v"
| "text_value F (VJson v) = Some v"
| "text_value F (VInterval months days ns) =
     Some (show_int (sint months) @ '' months '' @ show_int (sint days) @ '' days ''
           @ show_int (sint ns) @ '' ns'')"

datatype sql_typed_result =
    TypedQuery "sql_column list" "sql_value list list"
  | TypedExecute string nat

datatype sql_result =
    UntypedQuery "string list" "string list list"
  | UntypedExecute string nat

fun untyped :: "float_fmt \<Rightarrow> sql_typed_result \<Rightarrow> sql_result" where
  "untyped F (TypedQuery columns rows) =
     UntypedQuery (map col_name columns)
       (map (map (\<lambda>cell. case text_value F cell of None \<Rightarrow> [] | Some t \<Rightarrow> t)) rows)"
| "untyped F (TypedExecute command affected_rows) = UntypedExecute command affected_rows"

lemma text_value_None_iff: "text_value F v = None \<longleftrightarrow> v = VNull"
  by (cases v) auto

end
