(* ===== verification/Password.thy ===== *)
theory Password
  imports Mysql_Codec
begin

text \<open>
  Credentials and the password verifiers: \<^verbatim>\<open>src/auth.rs\<close> and
  \<^verbatim>\<open>src/catalog/auth/password.rs\<close>. The hash functions belong to other crates and are
  the argument \<open>H\<close> (SHA-256, and Argon2 with the salt drawn by the operating system
  fixed). Main results: hexadecimal text decodes to the bytes it encodes; a response is
  accepted exactly when it unmasks to a pre-image of the stored verifier, so a client that
  knows the password always is.
\<close>

section \<open>Requests\<close>

datatype auth_protocol = WebApi | MySqlWire

datatype auth_credential =
    CleartextPassword string
  | MySqlNativePassword "u8 list" "u8 list"
  | MySqlCachingSha2Password "u8 list" "u8 list"  \<comment> \<open>nonce, response\<close>

record auth_request =
  rq_protocol :: auth_protocol
  rq_username :: string
  rq_credential :: auth_credential

definition cleartext :: "auth_protocol \<Rightarrow> string \<Rightarrow> string \<Rightarrow> auth_request" where
  "cleartext protocol user password =
     \<lparr>rq_protocol = protocol, rq_username = user, rq_credential = CleartextPassword password\<rparr>"

record auth_principal =
  ap_user_id :: int
  ap_username :: string

section \<open>Hash functions\<close>

record hashes =
  sha256 :: "u8 list \<Rightarrow> u8 list"
  argon2_hash :: "string \<Rightarrow> string option"
  argon2_verify :: "string \<Rightarrow> string \<Rightarrow> bool"  \<comment> \<open>false on a malformed hash\<close>

definition hash_password :: "hashes \<Rightarrow> string \<Rightarrow> err + string" where
  "hash_password H password = ok_or (argon2_hash H password) EHash"

definition verify_password :: "hashes \<Rightarrow> string \<Rightarrow> string \<Rightarrow> bool" where
  "verify_password H password encoded_hash = argon2_verify H password encoded_hash"

section \<open>Hexadecimal text\<close>

definition hex_digit :: "char \<Rightarrow> u8 option" where
  "hex_digit c =
     (if 48 \<le> byte c \<and> byte c \<le> 57 then Some (of_nat (byte c - 48))
      else if 97 \<le> byte c \<and> byte c \<le> 102 then Some (of_nat (byte c - 97 + 10))
      else if 65 \<le> byte c \<and> byte c \<le> 70 then Some (of_nat (byte c - 65 + 10))
      else None)"

fun hex_pairs :: "string \<Rightarrow> u8 list option" where
  "hex_pairs (a # b # r) =
     (case hex_digit a of None \<Rightarrow> None
      | Some hi \<Rightarrow> (case hex_digit b of None \<Rightarrow> None
        | Some lo \<Rightarrow> map_option ((#) (or (push_bit 4 hi) lo)) (hex_pairs r)))"
| "hex_pairs s = Some []"

definition hex_decode :: "string \<Rightarrow> u8 list option" where
  "hex_decode value = (if length value mod 2 \<noteq> 0 then None else hex_pairs value)"

lemma hex_digit_hex_char: "n < 16 \<Longrightarrow> hex_digit (hex_char n) = Some (of_nat n)"
  by (auto simp: hex_digit_def hex_char_def)

lemma nibble_join: "or (push_bit 4 (drop_bit 4 b)) (and b 0x0F) = (b :: u8)"
proof -
  have "and b 0x0F = take_bit 4 b" by (simp add: take_bit_eq_mask mask_eq_exp_minus_1)
  then show ?thesis
    by (simp add: bit_eq_iff bit_or_iff bit_push_bit_iff bit_drop_bit_eq bit_take_bit_iff)
      (metis le_add_diff_inverse not_le_imp_less)
qed

lemma length_hex_encode [simp]: "length (hex_encode bs) = 2 * length bs"
  by (induction bs) (simp_all add: hex_encode_def)

lemma hex_pairs_encode: "hex_pairs (hex_encode bs) = Some bs"
proof (induction bs)
  case (Cons b bs)
  then show ?case
    using nibbles [of b]
    by (simp add: hex_encode_def hex_digit_hex_char nibble_join)
qed (simp add: hex_encode_def)

lemma hex_decode_encode: "hex_decode (hex_encode bs) = Some bs"
  by (simp add: hex_decode_def hex_pairs_encode)

section \<open>The caching_sha2_password exchange\<close>

definition mysql_stage2_hash :: "hashes \<Rightarrow> string \<Rightarrow> u8 list" where
  "mysql_stage2_hash H password = sha256 H (sha256 H (bytes_of password))"

definition mysql_caching_sha2_verifier :: "hashes \<Rightarrow> string \<Rightarrow> string" where
  "mysql_caching_sha2_verifier H password = hex_encode (mysql_stage2_hash H password)"

definition xor_bytes :: "u8 list \<Rightarrow> u8 list \<Rightarrow> u8 list" where
  "xor_bytes a b = map (\<lambda>(l, r). xor l r) (zip a b)"

definition verify_mysql_caching_sha2_password :: "hashes \<Rightarrow> u8 list \<Rightarrow> u8 list \<Rightarrow> string \<Rightarrow> bool" where
  "verify_mysql_caching_sha2_password H nonce response verifier_hex =
     (case hex_decode verifier_hex of
        None \<Rightarrow> False
      | Some verifier \<Rightarrow>
          if length verifier \<noteq> 32 \<or> length response \<noteq> 32 then False
          else (let scramble = sha256 H (verifier @ nonce);
                    stage1 = xor_bytes response scramble
                in sha256 H stage1 = verifier))"

text \<open>What a client that knows the password answers.\<close>

definition client_scramble :: "hashes \<Rightarrow> u8 list \<Rightarrow> string \<Rightarrow> u8 list" where
  "client_scramble H nonce password =
     xor_bytes (sha256 H (bytes_of password)) (sha256 H (mysql_stage2_hash H password @ nonce))"

definition sha256_32 :: "hashes \<Rightarrow> bool" where
  "sha256_32 H \<longleftrightarrow> (\<forall>m. length (sha256 H m) = 32)"

lemma length_xor_bytes [simp]: "length (xor_bytes a b) = min (length a) (length b)"
  by (simp add: xor_bytes_def)

lemma xor_bytes_cancel: "length a \<le> length b \<Longrightarrow> xor_bytes (xor_bytes a b) b = a"
proof (induction a arbitrary: b)
  case (Cons x a)
  then show ?case by (cases b) (auto simp: xor_bytes_def ac_simps)
qed (simp add: xor_bytes_def)

lemma caching_sha2_accepts:
  assumes "sha256_32 H"
  shows "verify_mysql_caching_sha2_password H nonce (client_scramble H nonce password)
           (mysql_caching_sha2_verifier H password)"
proof -
  let ?v = "mysql_stage2_hash H password"
  from assms have len: "length (sha256 H m) = 32" for m by (simp add: sha256_32_def)
  then have v: "length ?v = 32" by (simp add: mysql_stage2_hash_def)
  have dec: "hex_decode (mysql_caching_sha2_verifier H password) = Some ?v"
    by (simp add: mysql_caching_sha2_verifier_def hex_decode_encode)
  have "xor_bytes (client_scramble H nonce password) (sha256 H (?v @ nonce)) = sha256 H (bytes_of password)"
    by (simp add: client_scramble_def xor_bytes_cancel len)
  then show ?thesis
    by (simp add: verify_mysql_caching_sha2_password_def dec v len client_scramble_def mysql_stage2_hash_def)
qed

section \<open>Properties\<close>

text \<open>C16: The password exchange is complete and sound. A client that knows the password is
  accepted for every nonce; and whoever is accepted has sent a response that unmasks, under the
  scramble of this nonce, to a pre-image of the stored verifier.\<close>

theorem caching_sha2_exchange:
  assumes "sha256_32 H"
  shows "verify_mysql_caching_sha2_password H nonce (client_scramble H nonce password)
           (mysql_caching_sha2_verifier H password)
         \<and> (verify_mysql_caching_sha2_password H nonce response (mysql_caching_sha2_verifier H password) \<longrightarrow>
            (\<exists>stage1. sha256 H stage1 = mysql_stage2_hash H password
               \<and> response = xor_bytes stage1 (sha256 H (mysql_stage2_hash H password @ nonce))))"
proof -
  let ?v = "mysql_stage2_hash H password"
  let ?s = "sha256 H (?v @ nonce)"
  from assms have len: "length (sha256 H m) = 32" for m by (simp add: sha256_32_def)
  then have v: "length ?v = 32" by (simp add: mysql_stage2_hash_def)
  have dec: "hex_decode (mysql_caching_sha2_verifier H password) = Some ?v"
    by (simp add: mysql_caching_sha2_verifier_def hex_decode_encode)
  note caching_sha2_accepts [OF assms, of nonce password]
  moreover have "\<exists>stage1. sha256 H stage1 = ?v \<and> response = xor_bytes stage1 ?s"
    if "verify_mysql_caching_sha2_password H nonce response (mysql_caching_sha2_verifier H password)"
  proof (intro exI conjI)
    from that have r: "length response = 32" "sha256 H (xor_bytes response ?s) = ?v"
      by (auto simp: verify_mysql_caching_sha2_password_def dec split: if_splits)
    show "sha256 H (xor_bytes response ?s) = ?v" by (rule r)
    show "response = xor_bytes (xor_bytes response ?s) ?s" using r len by (simp add: xor_bytes_cancel)
  qed
  ultimately show ?thesis by blast
qed

definition zero_hashes :: hashes where
  "zero_hashes = \<lparr>sha256 = (\<lambda>_. replicate 32 0), argon2_hash = Some, argon2_verify = (=)\<rparr>"

theorem caching_sha2_exchange_witness:
  "verify_mysql_caching_sha2_password zero_hashes [1, 2] (client_scramble zero_hashes [1, 2] ''pw'')
     (mysql_caching_sha2_verifier zero_hashes ''pw'')"
  by (rule caching_sha2_exchange [THEN conjunct1]) (simp add: sha256_32_def zero_hashes_def)

end
