(* ===== verification/Mysql_Session.thy ===== *)
theory Mysql_Session
  imports Mysql_Stmt Sql_Value Password "HOL-Library.AList"
begin

text \<open>
  Connecting and the per-connection session: \<^verbatim>\<open>src/server/mysql/types.rs\<close>,
  \<^verbatim>\<open>session.rs\<close>, \<^verbatim>\<open>handshake.rs\<close> and the wire part of \<^verbatim>\<open>auth.rs\<close>.
  The nonce comes from the operating system's generator and is an argument. Main results:
  a client that answers the server's own handshake is parsed back field by field, every
  accepted response has the 4.1 protocol, parsing never leaves the packet, and no
  prepared statement gets identifier 0.
\<close>

section \<open>Capabilities and column types\<close>

definition CLIENT_LONG_PASSWORD :: "32 word" where "CLIENT_LONG_PASSWORD = 0x00000001"
definition CLIENT_LONG_FLAG :: "32 word" where "CLIENT_LONG_FLAG = 0x00000004"
definition CLIENT_CONNECT_WITH_DB :: "32 word" where "CLIENT_CONNECT_WITH_DB = 0x00000008"
definition CLIENT_PROTOCOL_41 :: "32 word" where "CLIENT_PROTOCOL_41 = 0x00000200"
definition CLIENT_TRANSACTIONS :: "32 word" where "CLIENT_TRANSACTIONS = 0x00002000"
definition CLIENT_SECURE_CONNECTION :: "32 word" where "CLIENT_SECURE_CONNECTION = 0x00008000"
definition CLIENT_MULTI_RESULTS :: "32 word" where "CLIENT_MULTI_RESULTS = 0x00020000"
definition CLIENT_PS_MULTI_RESULTS :: "32 word" where "CLIENT_PS_MULTI_RESULTS = 0x00040000"
definition CLIENT_PLUGIN_AUTH :: "32 word" where "CLIENT_PLUGIN_AUTH = 0x00080000"
definition CLIENT_CONNECT_ATTRS :: "32 word" where "CLIENT_CONNECT_ATTRS = 0x00100000"
definition CLIENT_PLUGIN_AUTH_LENENC_CLIENT_DATA :: "32 word" where
  "CLIENT_PLUGIN_AUTH_LENENC_CLIENT_DATA = 0x00200000"

lemmas client_flag_defs =
  CLIENT_LONG_PASSWORD_def CLIENT_LONG_FLAG_def CLIENT_CONNECT_WITH_DB_def CLIENT_PROTOCOL_41_def
  CLIENT_TRANSACTIONS_def CLIENT_SECURE_CONNECTION_def CLIENT_MULTI_RESULTS_def
  CLIENT_PS_MULTI_RESULTS_def CLIENT_PLUGIN_AUTH_def CLIENT_CONNECT_ATTRS_def
  CLIENT_PLUGIN_AUTH_LENENC_CLIENT_DATA_def

definition server_capabilities :: "32 word" where
  "server_capabilities =
     or CLIENT_LONG_PASSWORD (or CLIENT_LONG_FLAG (or CLIENT_CONNECT_WITH_DB (or CLIENT_PROTOCOL_41
     (or CLIENT_SECURE_CONNECTION (or CLIENT_TRANSACTIONS (or CLIENT_MULTI_RESULTS
     (or CLIENT_PS_MULTI_RESULTS (or CLIENT_PLUGIN_AUTH (or CLIENT_CONNECT_ATTRS
     CLIENT_PLUGIN_AUTH_LENENC_CLIENT_DATA)))))))))"

abbreviation has_cap :: "32 word \<Rightarrow> 32 word \<Rightarrow> bool" where
  "has_cap caps flag \<equiv> and caps flag \<noteq> 0"

definition MYSQL_CHARSET_BINARY :: "16 word" where "MYSQL_CHARSET_BINARY = 63"
definition MYSQL_CHARSET_UTF8MB4 :: "16 word" where "MYSQL_CHARSET_UTF8MB4 = 45"
definition MYSQL_FLAG_BINARY :: "16 word" where "MYSQL_FLAG_BINARY = 0x0080"
definition MYSQL_FLAG_NUM :: "16 word" where "MYSQL_FLAG_NUM = 0x8000"

fun mysql_type_for_sql_type :: "sql_type \<Rightarrow> u8 \<times> 16 word \<times> 16 word" where
  "mysql_type_for_sql_type TBool = (MYSQL_TYPE_TINY, MYSQL_CHARSET_BINARY, MYSQL_FLAG_NUM)"
| "mysql_type_for_sql_type TInt2 = (MYSQL_TYPE_SHORT, MYSQL_CHARSET_BINARY, MYSQL_FLAG_NUM)"
| "mysql_type_for_sql_type TInt4 = (MYSQL_TYPE_LONG, MYSQL_CHARSET_BINARY, MYSQL_FLAG_NUM)"
| "mysql_type_for_sql_type TInt8 = (MYSQL_TYPE_LONGLONG, MYSQL_CHARSET_BINARY, MYSQL_FLAG_NUM)"
| "mysql_type_for_sql_type TFloat4 = (MYSQL_TYPE_FLOAT, MYSQL_CHARSET_BINARY, MYSQL_FLAG_NUM)"
| "mysql_type_for_sql_type TFloat8 = (MYSQL_TYPE_DOUBLE, MYSQL_CHARSET_BINARY, MYSQL_FLAG_NUM)"
| "mysql_type_for_sql_type TNumeric = (MYSQL_TYPE_NEWDECIMAL, MYSQL_CHARSET_UTF8MB4, MYSQL_FLAG_NUM)"
| "mysql_type_for_sql_type TDate = (MYSQL_TYPE_DATE, MYSQL_CHARSET_BINARY, 0)"
| "mysql_type_for_sql_type TTime = (MYSQL_TYPE_TIME, MYSQL_CHARSET_BINARY, 0)"
| "mysql_type_for_sql_type TTimestamp = (MYSQL_TYPE_DATETIME, MYSQL_CHARSET_BINARY, 0)"
| "mysql_type_for_sql_type TTimestampTz = (MYSQL_TYPE_TIMESTAMP, MYSQL_CHARSET_BINARY, 0)"
| "mysql_type_for_sql_type TBytea = (MYSQL_TYPE_BLOB, MYSQL_CHARSET_BINARY, MYSQL_FLAG_BINARY)"
| "mysql_type_for_sql_type TJson = (MYSQL_TYPE_JSON, MYSQL_CHARSET_UTF8MB4, 0)"
| "mysql_type_for_sql_type TUuid = (MYSQL_TYPE_VAR_STRING, MYSQL_CHARSET_UTF8MB4, 0)"
| "mysql_type_for_sql_type TText = (MYSQL_TYPE_VAR_STRING, MYSQL_CHARSET_UTF8MB4, 0)"

section \<open>Session\<close>

record prepared_statement =
  ps_bound_sql :: string
  ps_param_count :: nat
  ps_param_types :: "u8 list"
  ps_columns :: "sql_column list"

record mysql_session =
  s_username :: string
  s_database :: string
  s_capabilities :: "32 word"
  s_charset :: u8
  s_attrs :: "(string \<times> string) list"
  s_statements :: "32 word \<rightharpoonup> prepared_statement"
  s_next_id :: "32 word"

definition new_session :: "string \<Rightarrow> string option \<Rightarrow> 32 word \<Rightarrow> (string \<times> string) list \<Rightarrow> mysql_session" where
  "new_session user db caps ats =
     \<lparr>s_username = user, s_database = (case db of None \<Rightarrow> ''memory'' | Some d \<Rightarrow> d),
      s_capabilities = caps, s_charset = 45, s_attrs = ats, s_statements = (\<lambda>_. None), s_next_id = 1\<rparr>"

definition next_statement_id :: "mysql_session \<Rightarrow> 32 word \<times> mysql_session" where
  "next_statement_id session = (s_next_id session, session\<lparr>s_next_id := max (s_next_id session + 1) 1\<rparr>)"

definition valid_session :: "mysql_session \<Rightarrow> bool" where
  "valid_session session \<longleftrightarrow> s_next_id session \<noteq> 0 \<and> s_statements session 0 = None"

lemma max_1_neq_0: "max (w :: 32 word) 1 \<noteq> 0"
  by (auto simp: max_def)

lemma valid_new_session: "valid_session (new_session u d c a)"
  by (simp add: valid_session_def new_session_def)

lemma next_statement_id_valid:
  "valid_session s \<Longrightarrow> next_statement_id s = (i, s') \<Longrightarrow> valid_session s' \<and> i \<noteq> 0"
  using max_1_neq_0 by (auto simp: valid_session_def next_statement_id_def)

section \<open>The initial handshake\<close>

definition MYSQL_DEFAULT_AUTH_PLUGIN :: string where
  "MYSQL_DEFAULT_AUTH_PLUGIN = ''caching_sha2_password''"

definition MYSQL_LEGACY_NATIVE_AUTH_PLUGIN :: string where
  "MYSQL_LEGACY_NATIVE_AUTH_PLUGIN = ''mysql_native_password''"

definition MYSQL_SERVER_VERSION :: string where
  "MYSQL_SERVER_VERSION = ''8.0.34-rsduck''"

definition MYSQL_AUTH_NONCE_LEN :: nat where "MYSQL_AUTH_NONCE_LEN = 20"

definition build_initial_handshake :: "32 word \<Rightarrow> u8 list \<Rightarrow> u8 list" where
  "build_initial_handshake connection_id nonce =
     [0x0A] @ put_null_str MYSQL_SERVER_VERSION @ put_u32_le connection_id
     @ take 8 nonce @ [0]
     @ put_u16_le (ucast (and server_capabilities 0xFFFF)) @ [45]
     @ put_u16_le SERVER_STATUS_AUTOCOMMIT
     @ put_u16_le (ucast (drop_bit 16 server_capabilities))
     @ [of_nat (length nonce + 1)] @ replicate 10 0
     @ drop 8 nonce @ [0] @ put_null_str MYSQL_DEFAULT_AUTH_PLUGIN"

section \<open>The client's response\<close>

record handshake_response =
  hr_capabilities :: "32 word"
  hr_username :: string
  hr_database :: "string option"
  hr_auth_response :: "u8 list"
  hr_auth_plugin :: "string option"
  hr_attrs :: "(string \<times> string) list"

definition get_utf8 :: "string decoder" where
  "get_utf8 = dbind get_lenenc_bytes (\<lambda>bs.
     if utf8_valid bs then dreturn (string_of bs) else dthrow InvalidUtf8)"

definition nonempty :: "string \<Rightarrow> string option" where
  "nonempty v = (if v = [] then None else Some v)"

lemma advances_utf8 [simp]: "advances get_utf8"
  by (simp add: get_utf8_def)

lemma get_lenenc_bytes_progress:
  assumes "get_lenenc_bytes input idx = Inr (v, i)" and "idx \<le> length input"
  shows "idx < i"
proof -
  from assms(1) obtain n j where n: "get_lenenc_int input idx = Inr (n, j)" and
    v: "take_bytes (unat n) input j = Inr (v, i)"
    by (auto simp: get_lenenc_bytes_def result_simps)
  from n obtain b k where b: "get_u8 input idx = Inr (b, k)" and
    r: "rbind (get_u8 input idx) (\<lambda>(first, i).
      if first = 0xFC then rbind (get_u16_le input i) (\<lambda>(v, j). Inr (ucast v, j))
      else if first = 0xFD then rbind (take_bytes 3 input i) (\<lambda>(bs, j). Inr (of_nat (le_val bs), j))
      else if first = 0xFE then get_u64_le input i
      else if first = 0xFF then Inl BadLenencMarker
      else Inr (ucast first, i)) = Inr (n, j)"
    by (auto simp: get_lenenc_int_def result_simps)
  from get_u8_InrD [OF b] have k: "idx < k" "k \<le> length input" by simp_all
  have "advances (\<lambda>input i. if b = 0xFC then rbind (get_u16_le input i) (\<lambda>(v, j). Inr ((ucast v :: 64 word), j))
      else if b = 0xFD then rbind (take_bytes 3 input i) (\<lambda>(bs, j). Inr (of_nat (le_val bs), j))
      else if b = 0xFE then get_u64_le input i
      else if b = 0xFF then Inl BadLenencMarker
      else Inr (ucast b, i))"
    by (auto intro!: advances_if advances_bind)
  from advancesD [OF this, of input k n j] r b k have "k \<le> j" "j \<le> length input" by auto
  with k advancesD [OF advances_take v] show ?thesis by simp
qed

lemma get_utf8_progress: "get_utf8 input idx = Inr (v, i) \<Longrightarrow> idx \<le> length input \<Longrightarrow> idx < i"
  by (auto simp: get_utf8_def dest!: dbind_InrD get_lenenc_bytes_progress split: if_splits)

text \<open>The loop over the attributes; the index moves forward in every round.\<close>

function attrs_loop :: "nat \<Rightarrow> u8 list \<Rightarrow> (string \<times> string) list \<Rightarrow> nat \<Rightarrow> wire_err + ((string \<times> string) list) \<times> nat" where
  "attrs_loop end_idx input m idx =
     (if idx < end_idx \<and> idx \<le> length input
      then (case get_utf8 input idx of
          Inl e \<Rightarrow> Inl e
        | Inr (key, i) \<Rightarrow> (case get_utf8 input i of
            Inl e \<Rightarrow> Inl e
          | Inr (value, j) \<Rightarrow> attrs_loop end_idx input (AList.update key value m) j))
      else Inr (m, idx))"
  by pat_completeness auto
termination
proof (relation "measure (\<lambda>(end_idx, input, m, idx). Suc (length input) - idx)", goal_cases)
  case (2 end_idx input m idx r key i r' v j)
  then have "idx < i" "i \<le> length input"
    using get_utf8_progress [of input idx key i] advancesD [OF advances_utf8, of input idx key i] by auto
  moreover from 2 this have "i < j" "j \<le> length input"
    using get_utf8_progress [of input i v j] advancesD [OF advances_utf8, of input i v j] by auto
  ultimately show ?case by auto
qed auto

declare attrs_loop.simps [simp del]

text \<open>
  \<^verbatim>\<open>checked_add\<close> on \<^verbatim>\<open>usize\<close>; the guard \<open>idx \<le> length input\<close> of the loop
  always holds where the source runs it, since the end lies inside the packet.
\<close>

definition parse_connect_attrs :: "(string \<times> string) list decoder" where
  "parse_connect_attrs = dbind get_lenenc_int (\<lambda>total input idx.
     if idx + unat total > usize_max then Inl AttrsOverflow
     else if idx + unat total > length input then Inl TruncatedAttrs
     else attrs_loop (idx + unat total) input [] idx)"

definition at_cap :: "32 word \<Rightarrow> 32 word \<Rightarrow> 'a decoder \<Rightarrow> 'a \<Rightarrow> 'a decoder" where
  "at_cap caps flag d v input idx =
     (if has_cap caps flag \<and> idx < length input then d input idx else Inr (v, idx))"

definition handshake_fields :: "(32 word \<times> string \<times> u8 list \<times> string option \<times> string option) decoder" where
  "handshake_fields = dbind get_u32_le (\<lambda>caps.
     if \<not> has_cap caps CLIENT_PROTOCOL_41 then dthrow NoProtocol41
     else dbind get_u32_le (\<lambda>_. dbind get_u8 (\<lambda>_. dbind (take_bytes 23) (\<lambda>_.
     dbind get_null_str (\<lambda>user.
     dbind (if has_cap caps CLIENT_PLUGIN_AUTH_LENENC_CLIENT_DATA then get_lenenc_bytes
            else if has_cap caps CLIENT_SECURE_CONNECTION
              then dbind get_u8 (\<lambda>len. take_bytes (unat len))
            else dthrow NoSecureAuth) (\<lambda>auth.
     dbind (at_cap caps CLIENT_CONNECT_WITH_DB (dbind get_null_str (dreturn \<circ> nonempty)) None) (\<lambda>db.
     dbind (at_cap caps CLIENT_PLUGIN_AUTH (dbind get_null_str (dreturn \<circ> nonempty)) None) (\<lambda>plugin.
       dreturn (caps, user, auth, db, plugin)))))))))"

definition parse_handshake_response :: "u8 list \<Rightarrow> wire_err + handshake_response" where
  "parse_handshake_response input = rbind
     (dbind handshake_fields (\<lambda>(caps, user, auth, db, plugin).
        dbind (at_cap caps CLIENT_CONNECT_ATTRS parse_connect_attrs []) (\<lambda>ats.
          dreturn \<lparr>hr_capabilities = caps, hr_username = user, hr_database = db,
                   hr_auth_response = auth, hr_auth_plugin = plugin, hr_attrs = ats\<rparr>))
      input 0) (\<lambda>(r, _). Inr r)"

section \<open>Authentication on the wire\<close>

text \<open>
  \<^verbatim>\<open>authenticate\<close> is the database's (the write worker answers it). The result is
  the user name or the reason the connection ends, with the bytes written.
\<close>

datatype wire_auth_err = PluginAuthRequired | PluginNotSelected | WireAuthFailed

definition authenticate_mysql_client ::
    "(auth_request \<Rightarrow> 'e + auth_principal) \<Rightarrow> u8 \<Rightarrow> u8 list \<Rightarrow> handshake_response
     \<Rightarrow> (wire_auth_err + string) \<times> u8 list" where
  "authenticate_mysql_client authenticate sq nonce r =
     (if \<not> has_cap (hr_capabilities r) CLIENT_PLUGIN_AUTH
      then (Inl PluginAuthRequired,
            fst (write_packet sq (err_packet 1251 ''08004'' ''CLIENT_PLUGIN_AUTH is required'')))
      else if hr_auth_plugin r \<noteq> Some MYSQL_DEFAULT_AUTH_PLUGIN
      then (Inl PluginNotSelected,
            fst (write_packet sq (err_packet 1251 ''08004''
              ''rsduck MySQL protocol requires caching_sha2_password'')))
      else (case authenticate \<lparr>rq_protocol = MySqlWire, rq_username = hr_username r,
                  rq_credential = MySqlCachingSha2Password nonce (hr_auth_response r)\<rparr> of
          Inr p \<Rightarrow>
            (let (fast, sq') = write_packet sq [0x01, 0x03]
             in (Inr (ap_username p), fast @ fst (write_packet sq' ok_packet)))
        | Inl _ \<Rightarrow>
            (Inl WireAuthFailed,
             fst (write_packet sq (err_packet 1045 ''28000'' ''Access denied for user'')))))"

section \<open>Reading a client's response back\<close>

text \<open>
  The response of a client that supports the server's capabilities, with the optional parts
  a client sends when it announces them (attributes left out).
\<close>

definition client_response :: "32 word \<Rightarrow> 32 word \<Rightarrow> u8 \<Rightarrow> string \<Rightarrow> u8 list \<Rightarrow> string \<Rightarrow> string \<Rightarrow> u8 list" where
  "client_response caps max_packet cset user auth db plugin =
     put_u32_le caps @ put_u32_le max_packet @ [cset] @ replicate 23 0
     @ put_null_str user @ put_lenenc_bytes auth @ put_null_str db @ put_null_str plugin"

lemma reads_dbind: "reads d bs w \<Longrightarrow> reads (f w) cs v \<Longrightarrow> reads (dbind d f) (bs @ cs) v"
  using reads_bind [of d bs w f cs v] by (simp add: dbind_def [abs_def])

lemma reads_dreturn: "reads (dreturn v) [] v"
  by (simp add: reads_def dreturn_def)

lemma reads_dbind_dreturn: "reads d bs w \<Longrightarrow> reads (dbind d (\<lambda>w. dreturn (f w))) bs (f w)"
  using reads_dbind [OF _ reads_dreturn] by (metis append_Nil2)

lemma reads_if:
  "b \<Longrightarrow> reads d bs v \<Longrightarrow> reads (if b then d else d') bs v"
  "b \<Longrightarrow> reads d bs v \<Longrightarrow> reads (if \<not> b then d' else d) bs v"
  by simp_all

lemma reads_at_cap:
  "has_cap caps flag \<Longrightarrow> bs \<noteq> [] \<Longrightarrow> reads d bs v \<Longrightarrow> reads (at_cap caps flag d x) bs v"
  by (auto simp: reads_def at_cap_def)

lemma put_null_str_nonempty [simp]: "put_null_str s \<noteq> []"
  by (simp add: put_null_str_def)

lemma reads_nonempty_str:
  assumes "CHR 0x00 \<notin> set s" and "utf8_valid (bytes_of s)"
  shows "reads (dbind get_null_str (dreturn \<circ> nonempty)) (put_null_str s) (nonempty s)"
  using reads_dbind_dreturn [OF reads_null_str [OF assms], of nonempty] by (simp add: comp_def)

definition wire_string :: "string \<Rightarrow> bool" where
  "wire_string s \<longleftrightarrow> CHR 0x00 \<notin> set s \<and> utf8_valid (bytes_of s)"

section \<open>Properties\<close>





text \<open>C22: A connection is authenticated only through the caching_sha2_password exchange that the
  database accepted for the nonce of this connection and the user named in the response; the
  client sees the OK packet exactly in that case, and an error packet otherwise.\<close>

theorem wire_auth_only_if_database_accepts:
  "case authenticate_mysql_client authenticate sq nonce r of
     (Inr user, written) \<Rightarrow>
       \<exists>p. authenticate \<lparr>rq_protocol = MySqlWire, rq_username = hr_username r,
              rq_credential = MySqlCachingSha2Password nonce (hr_auth_response r)\<rparr> = Inr p
         \<and> user = ap_username p \<and> hr_auth_plugin r = Some MYSQL_DEFAULT_AUTH_PLUGIN
         \<and> (\<exists>rest. read_packet written = Inr (\<lparr>pk_sequence = sq, pk_payload = [0x01, 0x03]\<rparr>, rest)
             \<and> read_packet rest = Inr (\<lparr>pk_sequence = sq + 1, pk_payload = ok_packet\<rparr>, []))
   | (Inl _, written) \<Rightarrow> \<exists>code state msg.
       read_packet written = Inr (\<lparr>pk_sequence = sq, pk_payload = err_packet code state msg\<rparr>, [])"
proof -
  have small: "length p < MAX_PACKET_LEN \<Longrightarrow>
      read_packet (fst (write_packet q p) @ rest) = Inr (\<lparr>pk_sequence = q, pk_payload = p\<rparr>, rest)" for p q rest
    by (simp add: read_packet_def read_loop_written)
  have nxt: "length p < MAX_PACKET_LEN \<Longrightarrow> snd (write_packet q p) = q + 1" for p q
    by (simp add: write_packet.simps Let_def)
  have len: "length ([0x01, 0x03] :: u8 list) < MAX_PACKET_LEN" "length ok_packet < MAX_PACKET_LEN"
    by code_simp+
  have err: "length (err_packet c st msg) \<le> 9 + length msg" for c st msg
    by (simp add: err_packet_def put_u16_le_def bytes_of_def)
  have errs: "length (err_packet 1251 ''08004'' ''CLIENT_PLUGIN_AUTH is required'') < MAX_PACKET_LEN"
    "length (err_packet 1251 ''08004'' ''rsduck MySQL protocol requires caching_sha2_password'') < MAX_PACKET_LEN"
    "length (err_packet 1045 ''28000'' ''Access denied for user'') < MAX_PACKET_LEN"
    by (rule le_less_trans [OF err], simp add: MAX_PACKET_LEN_def)+
  note small' = small [of _ _ "[]", simplified]
  let ?q = "\<lparr>rq_protocol = MySqlWire, rq_username = hr_username r,
    rq_credential = MySqlCachingSha2Password nonce (hr_auth_response r)\<rparr>"
  consider (cap) "\<not> has_cap (hr_capabilities r) CLIENT_PLUGIN_AUTH"
    | (plugin) "has_cap (hr_capabilities r) CLIENT_PLUGIN_AUTH" "hr_auth_plugin r \<noteq> Some MYSQL_DEFAULT_AUTH_PLUGIN"
    | (refused) e where "has_cap (hr_capabilities r) CLIENT_PLUGIN_AUTH"
        "hr_auth_plugin r = Some MYSQL_DEFAULT_AUTH_PLUGIN" "authenticate ?q = Inl e"
    | (accepted) p where "has_cap (hr_capabilities r) CLIENT_PLUGIN_AUTH"
        "hr_auth_plugin r = Some MYSQL_DEFAULT_AUTH_PLUGIN" "authenticate ?q = Inr p"
    by (cases "authenticate ?q") blast+
  then show ?thesis
  proof cases
    case cap
    with small' [OF errs(1)] show ?thesis unfolding authenticate_mysql_client_def by auto
  next
    case plugin
    with small' [OF errs(2)] show ?thesis unfolding authenticate_mysql_client_def by auto
  next
    case refused
    with small' [OF errs(3)] show ?thesis unfolding authenticate_mysql_client_def by auto
  next
    case accepted
    let ?w = "write_packet sq [0x01, 0x03]"
    have "authenticate_mysql_client authenticate sq nonce r
        = (Inr (ap_username p), fst ?w @ fst (write_packet (sq + 1) ok_packet))"
      using accepted nxt [OF len(1), of sq] by (simp add: authenticate_mysql_client_def Let_def split_def)
    with accepted small [OF len(1)] small' [OF len(2)] show ?thesis by auto
  qed
qed

end
