(* ===== verification/Sql_Scan.thy ===== *)
theory Sql_Scan
  imports Params
begin

text \<open>
  The program's own statement parsing: \<^verbatim>\<open>src/catalog/mutation/parser.rs\<close>.
  Everything the SQL parser of the crate does not accept is parsed by hand on byte indices:
  \<^verbatim>\<open>COMMENT ON\<close>, \<^verbatim>\<open>DROP ROLE ... CASCADE\<close> and managed partitioned
  tables. A slice whose end is not a character boundary panics in Rust and is \<open>EPanic\<close>
  here. Main results: a comment statement written with quoted names and text parses back to
  them, and the options of an accepted partitioned table are in range.
\<close>

section \<open>Words and boundaries\<close>

definition is_ident_byte :: "char \<Rightarrow> bool" where
  "is_ident_byte c \<longleftrightarrow> is_alnum c \<or> c = CHR ''_''"

definition is_keyword_boundary :: "string \<Rightarrow> nat \<Rightarrow> nat \<Rightarrow> bool" where
  "is_keyword_boundary s start fin \<longleftrightarrow>
     (start = 0 \<or> \<not> is_ident_byte (s ! (start - 1))) \<and> (fin \<ge> length s \<or> \<not> is_ident_byte (s ! fin))"

definition skip_ascii_ws :: "string \<Rightarrow> nat \<Rightarrow> nat" where
  "skip_ascii_ws s idx = idx + length (takeWhile is_ascii_ws (drop idx s))"

text \<open>\<^verbatim>\<open>str::is_char_boundary\<close> for an index of the string.\<close>

definition char_boundary :: "string \<Rightarrow> nat \<Rightarrow> bool" where
  "char_boundary s i \<longleftrightarrow> i = 0 \<or> i = length s \<or> i < length s \<and> \<not> (128 \<le> byte (s ! i) \<and> byte (s ! i) < 192)"

definition keyword_at :: "string \<Rightarrow> nat \<Rightarrow> string \<Rightarrow> err + bool" where
  "keyword_at sql cursor keyword =
     (let fin = cursor + length keyword in
      if length sql < fin then Inr False
      else if \<not> char_boundary sql cursor \<or> \<not> char_boundary sql fin then Inl EPanic
      else Inr (eq_ignore_case (take (length keyword) (drop cursor sql)) keyword
                \<and> is_keyword_boundary sql cursor fin))"

definition expect_keyword :: "string \<Rightarrow> nat \<Rightarrow> string \<Rightarrow> err + nat" where
  "expect_keyword sql cursor keyword =
     (let c = skip_ascii_ws sql cursor in
      rbind (keyword_at sql c keyword) (\<lambda>found.
        if found then Inr (c + length keyword) else Inl (EComment (ExpectedThisKeyword keyword))))"

definition parse_ascii_word :: "string \<Rightarrow> nat \<Rightarrow> err + string \<times> nat" where
  "parse_ascii_word sql cursor =
     (let c = skip_ascii_ws sql cursor; w = takeWhile is_alpha (drop c sql) in
      if length sql \<le> c then Inl (EComment ExpectedKeyword)
      else if w = [] then Inl (EComment (ExpectedKeywordAt (trim (drop c sql))))
      else Inr (w, c + length w))"

section \<open>COMMENT ON\<close>

definition parse_comment_object_type :: "string \<Rightarrow> nat \<Rightarrow> err + comment_object \<times> nat" where
  "parse_comment_object_type sql cursor =
     rbind (parse_ascii_word sql cursor) (\<lambda>(keyword, c).
       let k = to_lower keyword in
       if k = ''schema'' then Inr (CSchema, c)
       else if k = ''table'' then Inr (CTable, c)
       else if k = ''view'' then Inr (CView, c)
       else if k = ''index'' then Inr (CIndex, c)
       else if k = ''column'' then Inr (CColumn, c)
       else Inl (EComment (BadCommentObject keyword)))"

definition parse_quoted_identifier :: "string \<Rightarrow> nat \<Rightarrow> char \<Rightarrow> err + string \<times> nat" where
  "parse_quoted_identifier sql cursor quote =
     (case lex_quoted quote (drop (Suc cursor) sql) of
        None \<Rightarrow> Inl (EComment UnclosedIdentifier)
      | Some (v, rest) \<Rightarrow> Inr (v, length sql - length rest))"

definition parse_identifier_part :: "string \<Rightarrow> nat \<Rightarrow> err + string \<times> nat" where
  "parse_identifier_part sql cursor =
     (let c = skip_ascii_ws sql cursor in
      if length sql \<le> c then Inl (EComment ExpectedIdentifier)
      else if sql ! c = dquote then parse_quoted_identifier sql c dquote
      else if sql ! c = bquote then parse_quoted_identifier sql c bquote
      else if is_ident_byte (sql ! c)
        then (let w = takeWhile is_ident_byte (drop c sql) in Inr (w, c + length w))
      else Inl (EComment (ExpectedIdentifierAt (trim (drop c sql)))))"

lemma takeWhile_skip_mono: "c \<le> skip_ascii_ws s c"
  by (simp add: skip_ascii_ws_def)

lemma skip_ascii_ws_le: "c \<le> length s \<Longrightarrow> skip_ascii_ws s c \<le> length s"
  using length_takeWhile_le [of is_ascii_ws "drop c s"] by (simp add: skip_ascii_ws_def)

lemma lex_quoted_shorter: "lex_quoted q s = Some (v, r) \<Longrightarrow> length r < length s"
proof (induction q s arbitrary: v r rule: lex_quoted.induct)
  case (2 q c s)
  then show ?case by (cases s) (fastforce split: if_splits)+
qed simp

lemma parse_identifier_part_progress:
  assumes "parse_identifier_part sql cursor = Inr (v, e)"
  shows "cursor < e \<and> e \<le> length sql"
proof -
  let ?c = "skip_ascii_ws sql cursor"
  have c: "cursor \<le> ?c" "?c < length sql"
    using assms takeWhile_skip_mono [of cursor sql]
    by (auto simp: parse_identifier_part_def Let_def split: if_splits)
  have q: "?c < e \<and> e \<le> length sql" if p: "parse_quoted_identifier sql ?c q = Inr (v, e)" for q
  proof -
    from p obtain r where l: "lex_quoted q (drop (Suc ?c) sql) = Some (v, r)" and e: "e = length sql - length r"
      by (auto simp: parse_quoted_identifier_def split: option.splits)
    from lex_quoted_shorter [OF l] e c show ?thesis by auto
  qed
  have w: "?c < ?c + length (takeWhile is_ident_byte (drop ?c sql)) \<and>
      ?c + length (takeWhile is_ident_byte (drop ?c sql)) \<le> length sql" if "is_ident_byte (sql ! ?c)"
  proof -
    have "drop ?c sql = sql ! ?c # drop (Suc ?c) sql" using c by (simp add: Cons_nth_drop_Suc)
    with that have "takeWhile is_ident_byte (drop ?c sql) \<noteq> []" by simp
    moreover have "length (takeWhile is_ident_byte (drop ?c sql)) \<le> length sql - ?c"
      using length_takeWhile_le [of is_ident_byte "drop ?c sql"] by simp
    ultimately show ?thesis using c by auto
  qed
  from assms consider q where "parse_quoted_identifier sql ?c q = Inr (v, e)"
    | "is_ident_byte (sql ! ?c)" "e = ?c + length (takeWhile is_ident_byte (drop ?c sql))"
    by (auto simp: parse_identifier_part_def Let_def split: if_splits)
  then have "?c < e \<and> e \<le> length sql" using q w by cases blast+
  with c show ?thesis by simp
qed

function object_name_parts :: "string \<Rightarrow> nat \<Rightarrow> err + name_part list \<times> nat" where
  "object_name_parts sql cursor =
     (case parse_identifier_part sql cursor of
        Inl e \<Rightarrow> Inl e
      | Inr (ident, after) \<Rightarrow>
          (let c = skip_ascii_ws sql after in
           if length sql \<le> c \<or> sql ! c \<noteq> CHR ''.'' then Inr ([Identifier ident], c)
           else rbind (object_name_parts sql (skip_ascii_ws sql (c + 1))) (\<lambda>(parts, e).
             Inr (Identifier ident # parts, e))))"
  by pat_completeness auto
termination
proof (relation "measure (\<lambda>(sql, cursor). length sql - cursor)", goal_cases)
  case (2 sql cursor r ident after c)
  then have a: "cursor < after" "after \<le> length sql"
    using parse_identifier_part_progress by blast+
  have "after \<le> c" "c \<le> skip_ascii_ws sql (c + 1)"
    using 2 takeWhile_skip_mono [of after sql] takeWhile_skip_mono [of "c + 1" sql] by auto
  with a 2 show ?case by auto
qed simp

declare object_name_parts.simps [simp del]

definition parse_object_name_text :: "string \<Rightarrow> nat \<Rightarrow> err + object_name \<times> nat" where
  "parse_object_name_text sql cursor = object_name_parts sql (skip_ascii_ws sql cursor)"

definition parse_comment_value :: "string \<Rightarrow> nat \<Rightarrow> err + string option \<times> nat" where
  "parse_comment_value sql cursor =
     (let c = skip_ascii_ws sql cursor in
      rbind (keyword_at sql c ''null'') (\<lambda>null.
        if null then Inr (None, c + 4)
        else if length sql \<le> c \<or> sql ! c \<noteq> squote then Inl (EComment BadCommentValue)
        else (case lex_quoted squote (drop (Suc c) sql) of
            None \<Rightarrow> Inl (EComment UnclosedCommentString)
          | Some (v, rest) \<Rightarrow> Inr (Some v, length sql - length rest))))"

definition parse_comment_on_statement :: "string \<Rightarrow> err + statement" where
  "parse_comment_on_statement sql =
     rbind (expect_keyword sql 0 ''comment'') (\<lambda>c1.
     rbind (expect_keyword sql c1 ''on'') (\<lambda>c2.
     rbind (parse_comment_object_type sql c2) (\<lambda>(object_type, c3).
     rbind (parse_object_name_text sql c3) (\<lambda>(object_name, c4).
     rbind (expect_keyword sql c4 ''is'') (\<lambda>c5.
     rbind (parse_comment_value sql c5) (\<lambda>(comment, c6).
       let c7 = skip_ascii_ws sql c6 in
       if c7 < length sql
       then (if sql ! c7 \<noteq> CHR '';'' then Inl (EComment (TextAfterComment (trim (drop c7 sql))))
             else (let c8 = skip_ascii_ws sql (c7 + 1) in
               if c8 < length sql then Inl (EComment (TextAfterComment (trim (drop c8 sql))))
               else Inr (Comment object_type object_name comment False)))
       else Inr (Comment object_type object_name comment False)))))))"

section \<open>Quote-aware scans\<close>

datatype qstate = QNone | QSingle | QDouble

text \<open>The index of the parenthesis that closes the first one read.\<close>

fun paren_scan :: "qstate \<Rightarrow> int \<Rightarrow> nat \<Rightarrow> string \<Rightarrow> nat option" where
  "paren_scan q depth idx [] = None"
| "paren_scan QSingle depth idx (c # s) =
     (if c = squote
      then (if next_is squote s then paren_scan QSingle depth (idx + 2) (tl s)
            else paren_scan QNone depth (idx + 1) s)
      else paren_scan QSingle depth (idx + 1) s)"
| "paren_scan QDouble depth idx (c # s) =
     (if c = dquote
      then (if next_is dquote s then paren_scan QDouble depth (idx + 2) (tl s)
            else paren_scan QNone depth (idx + 1) s)
      else paren_scan QDouble depth (idx + 1) s)"
| "paren_scan QNone depth idx (c # s) =
     (if c = squote then paren_scan QSingle depth (idx + 1) s
      else if c = dquote then paren_scan QDouble depth (idx + 1) s
      else if c = CHR ''('' then paren_scan QNone (depth + 1) (idx + 1) s
      else if c = CHR '')'' then (if depth - 1 = 0 then Some idx else paren_scan QNone (depth - 1) (idx + 1) s)
      else paren_scan QNone depth (idx + 1) s)"

definition parse_parenthesized_segment :: "string \<Rightarrow> nat \<Rightarrow> err + string \<times> nat" where
  "parse_parenthesized_segment sql open_idx =
     (if \<not> next_is (CHR ''('') (drop open_idx sql) then Inl (EParse ExpectedOpenParen)
      else (case paren_scan QNone 0 open_idx (drop open_idx sql) of
          None \<Rightarrow> Inl (EParse UnclosedParen)
        | Some idx \<Rightarrow> Inr (take (idx - (open_idx + 1)) (drop (open_idx + 1) sql), idx + 1)))"

text \<open>The pieces between top-level delimiters; \<open>cur\<close> holds the piece being read.\<close>

fun split_scan :: "char \<Rightarrow> qstate \<Rightarrow> int \<Rightarrow> string \<Rightarrow> string \<Rightarrow> string list" where
  "split_scan delim q depth cur [] = [cur]"
| "split_scan delim QSingle depth cur (c # s) =
     (if c = squote
      then (if next_is squote s then split_scan delim QSingle depth (cur @ [c, hd s]) (tl s)
            else split_scan delim QNone depth (cur @ [c]) s)
      else split_scan delim QSingle depth (cur @ [c]) s)"
| "split_scan delim QDouble depth cur (c # s) =
     (if c = dquote
      then (if next_is dquote s then split_scan delim QDouble depth (cur @ [c, hd s]) (tl s)
            else split_scan delim QNone depth (cur @ [c]) s)
      else split_scan delim QDouble depth (cur @ [c]) s)"
| "split_scan delim QNone depth cur (c # s) =
     (if c = squote then split_scan delim QSingle depth (cur @ [c]) s
      else if c = dquote then split_scan delim QDouble depth (cur @ [c]) s
      else if c = CHR ''('' then split_scan delim QNone (depth + 1) (cur @ [c]) s
      else if c = CHR '')'' then split_scan delim QNone (depth - 1) (cur @ [c]) s
      else if c = delim \<and> depth = 0 then cur # split_scan delim QNone depth [] s
      else split_scan delim QNone depth (cur @ [c]) s)"

definition split_top_level :: "string \<Rightarrow> char \<Rightarrow> string list" where
  "split_top_level v delim = filter (\<lambda>p. p \<noteq> []) (map trim (split_scan delim QNone 0 [] v))"

definition split_top_level_commas :: "string \<Rightarrow> string list" where
  "split_top_level_commas v = split_top_level v (CHR '','')"

fun top_level_scan :: "char \<Rightarrow> qstate \<Rightarrow> int \<Rightarrow> nat \<Rightarrow> string \<Rightarrow> nat option" where
  "top_level_scan target q depth idx [] = None"
| "top_level_scan target QSingle depth idx (c # s) =
     (if c = squote
      then (if next_is squote s then top_level_scan target QSingle depth (idx + 2) (tl s)
            else top_level_scan target QNone depth (idx + 1) s)
      else top_level_scan target QSingle depth (idx + 1) s)"
| "top_level_scan target QDouble depth idx (c # s) =
     (if c = dquote
      then (if next_is dquote s then top_level_scan target QDouble depth (idx + 2) (tl s)
            else top_level_scan target QNone depth (idx + 1) s)
      else top_level_scan target QDouble depth (idx + 1) s)"
| "top_level_scan target QNone depth idx (c # s) =
     (if c = squote then top_level_scan target QSingle depth (idx + 1) s
      else if c = dquote then top_level_scan target QDouble depth (idx + 1) s
      else if c = CHR ''('' then top_level_scan target QNone (depth + 1) (idx + 1) s
      else if c = CHR '')'' then top_level_scan target QNone (depth - 1) (idx + 1) s
      else if c = target \<and> depth = 0 then Some idx
      else top_level_scan target QNone depth (idx + 1) s)"

definition find_top_level_char :: "string \<Rightarrow> char \<Rightarrow> nat option" where
  "find_top_level_char v target = top_level_scan target QNone 0 0 v"

definition split_key_value :: "string \<Rightarrow> (string \<times> string) option" where
  "split_key_value v = map_option (\<lambda>i. (take i v, drop (i + 1) v)) (find_top_level_char v (CHR ''=''))"

text \<open>\<open>idx\<close> is the position of the text still to be read inside \<open>sql\<close>.\<close>

fun phrase_scan :: "string \<Rightarrow> string \<Rightarrow> qstate \<Rightarrow> nat \<Rightarrow> string \<Rightarrow> nat option" where
  "phrase_scan sql phrase q idx [] = None"
| "phrase_scan sql phrase QSingle idx (c # s) =
     (if c = squote
      then (if next_is squote s then phrase_scan sql phrase QSingle (idx + 2) (tl s)
            else phrase_scan sql phrase QNone (idx + 1) s)
      else phrase_scan sql phrase QSingle (idx + 1) s)"
| "phrase_scan sql phrase QDouble idx (c # s) =
     (if c = dquote
      then (if next_is dquote s then phrase_scan sql phrase QDouble (idx + 2) (tl s)
            else phrase_scan sql phrase QNone (idx + 1) s)
      else phrase_scan sql phrase QDouble (idx + 1) s)"
| "phrase_scan sql phrase QNone idx (c # s) =
     (if c = squote then phrase_scan sql phrase QSingle (idx + 1) s
      else if c = dquote then phrase_scan sql phrase QDouble (idx + 1) s
      else if starts_with phrase (to_lower (c # s)) \<and> is_keyword_boundary sql idx (idx + length phrase)
        then Some idx
      else phrase_scan sql phrase QNone (idx + 1) s)"

definition find_keyword_phrase_from :: "string \<Rightarrow> string \<Rightarrow> nat \<Rightarrow> nat option" where
  "find_keyword_phrase_from sql phrase start =
     (let i = min start (length sql) in phrase_scan sql (to_lower phrase) QNone i (drop i sql))"

definition find_keyword_phrase :: "string \<Rightarrow> string \<Rightarrow> nat option" where
  "find_keyword_phrase sql phrase = find_keyword_phrase_from sql phrase 0"

section \<open>Managed partitioned tables\<close>

definition parse_simple_identifier_text :: "string \<Rightarrow> err + string" where
  "parse_simple_identifier_text text =
     (let v = trim text in
      if v = [] then Inl (EParse EmptyIdentifier)
      else if starts_with [dquote] v \<and> ends_with [dquote] v \<and> 2 \<le> length v
        then Inr (undouble dquote (butlast (tl v)))
      else if list_all is_ident_byte v then Inr v
      else Inl (EParse (NotSingleIdentifier v)))"

definition parse_option_value :: "string \<Rightarrow> err + string" where
  "parse_option_value text =
     (let v = trim text in
      if starts_with [squote] v \<and> ends_with [squote] v \<and> 2 \<le> length v
        then Inr (undouble squote (butlast (tl v)))
      else parse_simple_identifier_text v)"

definition read_option :: "string \<Rightarrow> string option \<times> string option \<Rightarrow> err + string option \<times> string option" where
  "read_option option acc =
     (case split_key_value option of
        None \<Rightarrow> Inl (EParse (InvalidOption option))
      | Some (key_text, value_text) \<Rightarrow>
          rbind (parse_simple_identifier_text key_text) (\<lambda>key0. let key = to_lower key0 in
          rbind (parse_option_value value_text) (\<lambda>value.
            if key = ''partition_unit''
            then (if fst acc \<noteq> None then Inl (EParse DuplicatePartitionUnit) else Inr (Some value, snd acc))
            else if key = ''retention''
            then (if snd acc \<noteq> None then Inl (EParse DuplicateRetention) else Inr (fst acc, Some value))
            else Inl (EParse (UnsupportedOption key)))))"

definition partition_units :: "string list" where
  "partition_units = [''hour'', ''day'', ''month'', ''year'']"

definition parse_partition_options :: "string \<Rightarrow> err + string \<times> int" where
  "parse_partition_options options_text =
     rbind (rfold read_option (split_top_level_commas options_text) (None, None)) (\<lambda>(unit, retention).
     rbind (ok_or unit (EParse MissingPartitionUnit)) (\<lambda>partition_unit.
       if partition_unit \<notin> set partition_units then Inl (EParse (BadPartitionUnit partition_unit))
       else rbind (ok_or retention (EParse MissingRetention)) (\<lambda>retention_text.
         case parse_signed (- (2 ^ 31)) (2 ^ 31 - 1) retention_text of
           None \<Rightarrow> Inl (EParse (BadRetention retention_text))
         | Some n \<Rightarrow> if n \<le> 0 then Inl (EParse (BadRetention retention_text)) else Inr (partition_unit, n))))"

record managed_partition_create =
  mp_base_sql :: string
  mp_partition_key :: string
  mp_partition_unit :: string
  mp_retention_count :: int

definition looks_like_managed_partition_create :: "string \<Rightarrow> bool" where
  "looks_like_managed_partition_create sql \<longleftrightarrow>
     starts_with ''create table '' (normalize_for_guard sql)
     \<and> find_keyword_phrase sql ''partition by range'' \<noteq> None"

definition parse_managed_partition_create :: "string \<Rightarrow> err + managed_partition_create option" where
  "parse_managed_partition_create sql =
     (if \<not> looks_like_managed_partition_create sql then Inr None
      else rbind (ok_or (find_keyword_phrase sql ''partition by range'') (EParse PartitionRangeRequired)) (\<lambda>partition_idx.
        let cursor = skip_ascii_ws sql (partition_idx + length ''partition by range'') in
        if \<not> starts_with ''('' (drop cursor sql) then Inl (EParse PartitionRangeParenthesized)
        else rbind (parse_parenthesized_segment sql cursor) (\<lambda>(key_text, after_key).
        rbind (parse_simple_identifier_text key_text) (\<lambda>partition_key.
        rbind (ok_or (find_keyword_phrase_from sql ''with'' after_key) (EParse WithOptionsRequired)) (\<lambda>with_idx.
        let with_cursor = skip_ascii_ws sql (with_idx + length ''with'') in
        if \<not> starts_with ''('' (drop with_cursor sql) then Inl (EParse WithOptionsParenthesized)
        else rbind (parse_parenthesized_segment sql with_cursor) (\<lambda>(options_text, after_options).
        let trailing = trim (drop after_options sql) in
        if trailing \<noteq> [] \<and> trailing \<noteq> '';'' then Inl (EParse (TextAfterOptions trailing))
        else rbind (parse_partition_options options_text) (\<lambda>(unit, retention).
          Inr (Some \<lparr>mp_base_sql = trim_end_matches (CHR '';'') (trim_end (take partition_idx sql)),
                     mp_partition_key = partition_key, mp_partition_unit = unit,
                     mp_retention_count = retention\<rparr>))))))))"

section \<open>One statement\<close>

definition strip_drop_role_cascade :: "string \<Rightarrow> string option" where
  "strip_drop_role_cascade sql =
     (let trimmed = trim_end (trim_end_matches (CHR '';'') (trim sql)); lower = to_lower trimmed in
      if \<not> starts_with ''drop role'' lower \<or> \<not> ends_with ''cascade'' lower then None
      else (let cascade_start = length trimmed - length ''cascade'' in
        if cascade_start = 0 \<or> \<not> is_ascii_ws (trimmed ! (cascade_start - 1)) then None
        else Some (trim_end (take cascade_start trimmed))))"

definition parse_single :: "sqlparser \<Rightarrow> string \<Rightarrow> err + statement" where
  "parse_single P sql =
     (case parse_sql P sql of
        Inl e \<Rightarrow> Inl (EParse (SqlParseFailed e))
      | Inr statements \<Rightarrow> (case statements of
            [statement] \<Rightarrow> Inr statement
          | _ \<Rightarrow> Inl (EParse (OneStatementOnly (length statements)))))"

definition parse_custom_statement :: "sqlparser \<Rightarrow> string \<Rightarrow> err + (statement \<times> string) option" where
  "parse_custom_statement P sql =
     (if starts_with ''comment on '' (to_lower (trim_start sql))
      then rbind (parse_comment_on_statement sql) (\<lambda>statement. Inr (Some (statement, stmt_to_string P statement)))
      else (case strip_drop_role_cascade sql of
          None \<Rightarrow> Inr None
        | Some without_cascade \<Rightarrow> rbind (parse_single P without_cascade) (\<lambda>statement.
            case statement of
              Drop (DropObjects object_type if_exists names _ table) \<Rightarrow>
                if object_type \<noteq> ORole then Inl (EParse CascadeOnlyRole)
                else Inr (Some (Drop (DropObjects object_type if_exists names True table),
                                trim (trim_end_matches (CHR '';'') (trim sql))))
            | _ \<Rightarrow> Inl (EParse DropRoleRequired))))"

definition parse_one_statement :: "sqlparser \<Rightarrow> string \<Rightarrow> err + statement \<times> string" where
  "parse_one_statement P sql =
     rbind (parse_custom_statement P sql) (\<lambda>custom.
       case custom of
         Some c \<Rightarrow> Inr c
       | None \<Rightarrow> rbind (parse_single P sql) (\<lambda>statement. Inr (statement, stmt_to_string P statement)))"

section \<open>Reading a comment statement back\<close>

lemma skip_ascii_ws_at [simp]:
  "skip_ascii_ws (pre @ s) (length pre) = length pre + length (takeWhile is_ascii_ws s)"
  by (simp add: skip_ascii_ws_def)

lemma skip_space:
  "s \<noteq> [] \<Longrightarrow> \<not> is_ascii_ws (hd s) \<Longrightarrow> skip_ascii_ws (pre @ CHR '' '' # s) (length pre) = Suc (length pre)"
  by (cases s) (simp_all add: is_ascii_ws_def)

lemma skip_none: "s = [] \<or> \<not> is_ascii_ws (hd s) \<Longrightarrow> skip_ascii_ws (pre @ s) (length pre) = length pre"
  by (cases s) (auto simp: skip_ascii_ws_def)

lemma boundary_plain: "i < length s \<Longrightarrow> byte (s ! i) < 128 \<Longrightarrow> char_boundary s i"
  by (simp add: char_boundary_def)

text \<open>A keyword between blanks is found where it starts.\<close>

lemma keyword_found:
  assumes "eq_ignore_case word keyword" "word \<noteq> []" "byte (hd word) < 128"
    and "pre = [] \<or> last pre = CHR '' ''" "rest \<noteq> []" "hd rest = CHR '' ''"
  shows "keyword_at (pre @ word @ rest) (length pre) keyword = Inr True"
proof -
  have len: "length keyword = length word"
    using assms(1) by (metis eq_ignore_case_def length_to_lower)
  have "char_boundary (pre @ word @ rest) (length pre)"
    using assms(2,3) by (intro boundary_plain) (auto simp: nth_append hd_conv_nth)
  moreover have "char_boundary (pre @ word @ rest) (length pre + length word)"
    using assms(5,6) by (intro boundary_plain) (auto simp: nth_append hd_conv_nth)
  moreover have "is_keyword_boundary (pre @ word @ rest) (length pre) (length pre + length word)"
    using assms(4-6) by (auto simp: is_keyword_boundary_def nth_append hd_conv_nth last_conv_nth
        is_ident_byte_def char_class_defs)
  ultimately show ?thesis using assms(1) by (simp add: keyword_at_def len Let_def)
qed

lemma expect_keyword_found:
  assumes "eq_ignore_case word keyword" "word \<noteq> []" "plain (hd word)"
    and "gap = '' '' \<or> gap = [] \<and> (pre = [] \<or> last pre = CHR '' '')" "rest \<noteq> []" "hd rest = CHR '' ''"
  shows "expect_keyword (pre @ gap @ word @ rest) (length pre) keyword = Inr (length (pre @ gap @ word))"
proof -
  have nows: "\<not> is_ascii_ws (hd (word @ rest))" "word @ rest \<noteq> []" "byte (hd word) < 128"
    using assms(2,3) by (auto simp: plain_def ws1_def is_ascii_ws_def)
  have "skip_ascii_ws (pre @ gap @ word @ rest) (length pre) = length (pre @ gap)"
    using assms(4) skip_space [OF nows(2,1), of pre] skip_none [of "word @ rest" pre] nows by auto
  moreover have "keyword_at ((pre @ gap) @ word @ rest) (length (pre @ gap)) keyword = Inr True"
    using assms by (intro keyword_found nows) auto
  moreover have "length keyword = length word"
    using assms(1) by (metis eq_ignore_case_def length_to_lower)
  ultimately show ?thesis by (simp add: expect_keyword_def Let_def)
qed

lemma quoted_part:
  assumes "rest = [] \<or> hd rest \<noteq> dquote"
  shows "parse_identifier_part (pre @ quote_ident v @ rest) (length pre) = Inr (v, length (pre @ quote_ident v))"
proof -
  let ?s = "pre @ quote_ident v @ rest"
  have "skip_ascii_ws ?s (length pre) = length pre"
    by (intro skip_none) (simp add: quote_ident_def is_ascii_ws_def)
  moreover have "drop (Suc (length pre)) ?s = replace_char dquote [dquote, dquote] v @ dquote # rest"
    by (simp add: quote_ident_def)
  ultimately show ?thesis
    using lex_quoted_replace_char [OF assms, of v]
    by (simp add: parse_identifier_part_def parse_quoted_identifier_def Let_def quote_ident_def nth_append)
qed

lemma object_name_last:
  "parse_identifier_part sql c = Inr (v, a) \<Longrightarrow> skip_ascii_ws sql a = k \<Longrightarrow> k < length sql \<Longrightarrow>
   sql ! k \<noteq> CHR ''.'' \<Longrightarrow> object_name_parts sql c = Inr ([Identifier v], k)"
  by (subst object_name_parts.simps) simp

lemma object_name_dot:
  "parse_identifier_part sql c = Inr (v, a) \<Longrightarrow> skip_ascii_ws sql a = k \<Longrightarrow> k < length sql \<Longrightarrow>
   sql ! k = CHR ''.'' \<Longrightarrow> object_name_parts sql (skip_ascii_ws sql (k + 1)) = Inr (ps, e) \<Longrightarrow>
   object_name_parts sql c = Inr (Identifier v # ps, e)"
  by (subst object_name_parts.simps) simp

lemma qualified_parts:
  "object_name_parts (pre @ quote_qualified s r @ CHR '' '' # CHR ''I'' # rest) (length pre)
   = Inr ([Identifier s, Identifier r], length (pre @ quote_qualified s r) + 1)"
proof -
  let ?t = "CHR '' '' # CHR ''I'' # rest"
  let ?sql = "pre @ quote_qualified s r @ ?t"
  let ?p1 = "pre @ quote_ident s"
  let ?p2 = "?p1 @ ''.''"
  have sql: "?sql = ?p1 @ ''.'' @ quote_ident r @ ?t" "?sql = ?p2 @ quote_ident r @ ?t"
    by (simp_all add: quote_qualified_def)
  have nows: "\<not> is_ascii_ws (CHR ''.'')" "\<not> is_ascii_ws dquote" "\<not> is_ascii_ws (CHR ''I'')"
    by (simp_all add: is_ascii_ws_def)
  have one: "parse_identifier_part ?sql (length pre) = Inr (s, length ?p1)"
    using quoted_part [of "''.'' @ quote_ident r @ ?t" pre s] by (simp add: quote_qualified_def)
  have two: "parse_identifier_part ?sql (length ?p2) = Inr (r, length (?p2 @ quote_ident r))"
    using quoted_part [of ?t ?p2 r] by (simp add: quote_qualified_def)
  have skip1: "skip_ascii_ws ?sql (length ?p1) = length ?p1"
    unfolding sql(1) using nows by (intro skip_none) simp
  have skip2: "skip_ascii_ws ?sql (length ?p1 + 1) = length ?p2"
    unfolding sql(2) using nows skip_none [of "quote_ident r @ ?t" ?p2] by (simp add: quote_ident_def)
  have skip3: "skip_ascii_ws ?sql (length (?p2 @ quote_ident r)) = length (?p2 @ quote_ident r) + 1"
    using skip_space [of "CHR ''I'' # rest" "?p2 @ quote_ident r"] nows by (simp add: quote_qualified_def)
  have dot: "?sql ! length ?p1 = CHR ''.''" "length ?p1 < length ?sql"
    unfolding sql(1) by (simp_all only: nth_append_length append_Cons) simp_all
  have eye: "?sql ! (length (?p2 @ quote_ident r) + 1) = CHR ''I''"
    by (simp add: quote_qualified_def nth_append)
  have "length (?p2 @ quote_ident r) + 1 < length ?sql" by (simp add: quote_qualified_def)
  then have "object_name_parts ?sql (length ?p2) = Inr ([Identifier r], length (?p2 @ quote_ident r) + 1)"
    using eye by (intro object_name_last [OF two skip3]) simp_all
  then have "object_name_parts ?sql (length pre) = Inr ([Identifier s, Identifier r], length (?p2 @ quote_ident r) + 1)"
    by (intro object_name_dot [OF one skip1 dot(2,1)]) (simp only: skip2)
  then show ?thesis by (simp only: quote_qualified_def append_assoc)
qed

section \<open>Properties\<close>

lemma comment_value_read:
  assumes "list_all (\<lambda>c. byte c < 128) body"
  shows "parse_comment_value (pre @ CHR '' '' # [squote] @ sql_string body @ [squote]) (length pre)
         = Inr (Some body, length (pre @ CHR '' '' # [squote] @ sql_string body @ [squote]))"
proof -
  let ?v = "[squote] @ sql_string body @ [squote]"
  let ?s = "pre @ CHR '' '' # ?v"
  have ascii: "\<forall>c\<in>set ?v. byte c < 128"
    using assms set_replace_char [of squote "[squote, squote]" body]
    by (auto simp: list_all_iff sql_string_def)
  have skip: "skip_ascii_ws ?s (length pre) = Suc (length pre)"
    by (intro skip_space) (simp_all add: is_ascii_ws_def)
  have "char_boundary ?s (Suc (length pre) + 4)" if "Suc (length pre) + 4 \<le> length ?s"
  proof (cases "Suc (length pre) + 4 = length ?s")
    case False
    with that have k: "Suc (length pre) + 4 < length ?s" by simp
    then have "?s ! (Suc (length pre) + 4) = ?v ! 4" by (simp add: nth_append)
    moreover have "?v ! 4 \<in> set ?v" using k by (intro nth_mem) simp
    ultimately show ?thesis using ascii k by (intro boundary_plain) auto
  qed (simp only: char_boundary_def simp_thms)
  moreover have "char_boundary ?s (Suc (length pre))"
    by (intro boundary_plain) (simp_all add: nth_append)
  moreover have "\<not> eq_ignore_case (take 4 (drop (Suc (length pre)) ?s)) ''null''"
    by (simp add: eq_ignore_case_def lower_char_def is_upper_def)
  moreover have four: "length ''null'' = 4" by simp
  ultimately have "keyword_at ?s (Suc (length pre)) ''null'' = Inr False"
    unfolding keyword_at_def Let_def four by (simp only: linorder_not_less split: if_split) blast
  moreover have "lex_quoted squote (drop (Suc (Suc (length pre))) ?s) = Some (body, [])"
    using lex_quoted_replace_char [of "[]" squote body] by (simp add: sql_string_def)
  ultimately show ?thesis
    using skip by (simp add: parse_comment_value_def Let_def nth_append)
qed

definition comment_sql :: "string \<Rightarrow> string \<Rightarrow> string \<Rightarrow> string \<Rightarrow> string" where
  "comment_sql object_word schema relation body =
     ''COMMENT ON '' @ object_word @ '' '' @ quote_qualified schema relation
     @ '' IS '' @ [squote] @ sql_string body @ [squote]"

definition comment_word :: "comment_object \<Rightarrow> string" where
  "comment_word t = (case t of CSchema \<Rightarrow> ''SCHEMA'' | CTable \<Rightarrow> ''TABLE'' | CView \<Rightarrow> ''VIEW''
     | CIndex \<Rightarrow> ''INDEX'' | CColumn \<Rightarrow> ''COLUMN'' | COther w \<Rightarrow> w)"

text \<open>A COMMENT ON statement written with quoted names and a quoted ASCII text is parsed back
  to exactly those names and that text, whatever quotes they contain.\<close>

theorem comment_statement_roundtrip:
  assumes "\<forall>w. t \<noteq> COther w" and "list_all (\<lambda>c. byte c < 128) body"
  shows "parse_comment_on_statement (comment_sql (comment_word t) schema relation body)
         = Inr (Comment t [Identifier schema, Identifier relation] (Some body) False)"
proof -
  let ?w = "comment_word t"
  let ?q = "quote_qualified schema relation"
  let ?v = "[squote] @ sql_string body @ [squote]"
  let ?sql = "comment_sql ?w schema relation body"
  let ?p0 = "''COMMENT ON''" let ?p1 = "?p0 @ '' '' @ ?w" let ?p2 = "?p1 @ '' '' @ ?q"
  have sql: "?sql = [] @ [] @ ''COMMENT'' @ ('' ON '' @ ?w @ '' '' @ ?q @ '' IS '' @ ?v)"
    "?sql = ''COMMENT'' @ '' '' @ ''ON'' @ ('' '' @ ?w @ '' '' @ ?q @ '' IS '' @ ?v)"
    "?sql = ?p0 @ '' '' @ ?w @ ('' '' @ ?q @ '' IS '' @ ?v)"
    "?sql = (?p1 @ '' '') @ ?q @ CHR '' '' # CHR ''I'' # (''S '' @ ?v)"
    "?sql = (?p2 @ '' '') @ [] @ ''IS'' @ ('' '' @ ?v)"
    "?sql = (?p2 @ '' IS'') @ CHR '' '' # ?v"
    by (simp_all add: comment_sql_def)
  have c1: "expect_keyword ?sql 0 ''comment'' = Inr (length ''COMMENT'')"
    unfolding sql(1) using expect_keyword_found [of "''COMMENT''" "''comment''" "[]" "[]"]
    by (simp add: eq_ignore_case_def lower_char_def is_upper_def plain_def ws1_def)
  have c2: "expect_keyword ?sql (length ''COMMENT'') ''on'' = Inr (length ?p0)"
    unfolding sql(2) using expect_keyword_found [of "''ON''" "''on''" "'' ''" "''COMMENT''"]
    by (simp add: eq_ignore_case_def lower_char_def is_upper_def plain_def ws1_def)
  have ot: "parse_comment_object_type ?sql (length ?p0) = Inr (t, length ?p1)"
  proof -
    have w: "?w \<noteq> []" "list_all is_alpha ?w" "\<not> is_ascii_ws (hd ?w)" "length ?w < length (?w @ '' '' @ ?q)"
      using assms(1) by (cases t; simp add: comment_word_def is_alpha_def is_upper_def is_ascii_ws_def)+
    then have "takeWhile is_alpha (?w @ '' '' @ ?q @ '' IS '' @ ?v) = ?w"
      by (simp add: list_all_iff takeWhile_append1 is_alpha_def is_upper_def is_lower_def)
    moreover have "skip_ascii_ws ?sql (length ?p0) = Suc (length ?p0)"
      unfolding sql(3) using w skip_space [of "?w @ '' '' @ ?q @ '' IS '' @ ?v" ?p0] by simp
    ultimately have "parse_ascii_word ?sql (length ?p0) = Inr (?w, length ?p1)"
      using w(1) by (simp add: parse_ascii_word_def Let_def comment_sql_def)
    then show ?thesis
      using assms(1)
      by (cases t) (simp_all add: parse_comment_object_type_def comment_word_def lower_char_def is_upper_def Let_def)
  qed
  have ns: "parse_object_name_text ?sql (length ?p1) = Inr ([Identifier schema, Identifier relation], length ?p2 + 1)"
  proof -
    have "skip_ascii_ws ?sql (length ?p1) = Suc (length ?p1)"
      unfolding sql(4) using skip_space [of "?q @ '' IS '' @ ?v" ?p1]
      by (simp add: quote_qualified_def quote_ident_def is_ascii_ws_def)
    then show ?thesis
      unfolding parse_object_name_text_def sql(4)
      using qualified_parts [of "?p1 @ '' ''" schema relation "''S '' @ ?v"] by simp
  qed
  have c5: "expect_keyword ?sql (length ?p2 + 1) ''is'' = Inr (length (?p2 @ '' IS''))"
    unfolding sql(5) using expect_keyword_found [of "''IS''" "''is''" "[]" "?p2 @ '' ''"]
    by (simp add: eq_ignore_case_def lower_char_def is_upper_def plain_def ws1_def)
  have c6: "parse_comment_value ?sql (length (?p2 @ '' IS'')) = Inr (Some body, length ?sql)"
    unfolding sql(6) by (rule comment_value_read [OF assms(2)])
  have "skip_ascii_ws ?sql (length ?sql) = length ?sql" by (simp add: skip_ascii_ws_def)
  with c1 c2 ot ns c5 c6 show ?thesis
    by (simp only: parse_comment_on_statement_def rbind.simps Let_def prod.case less_irrefl if_False)
qed

theorem comment_statement_roundtrip_witness:
  "parse_comment_on_statement (comment_sql (comment_word CView) [CHR ''s'', dquote] ''v'' [squote, CHR ''x''])
   = Inr (Comment CView [Identifier [CHR ''s'', dquote], Identifier ''v''] (Some [squote, CHR ''x'']) False)"
  by (rule comment_statement_roundtrip) (simp, code_simp)

text \<open>Whatever text is accepted as a managed partitioned table, its unit is one of hour, day,
  month and year, its retention is a positive 32-bit integer, and the DDL of the base table is a
  prefix of the statement.\<close>

theorem managed_create_in_range:
  assumes "parse_managed_partition_create sql = Inr (Some m)"
  shows "mp_partition_unit m \<in> {''hour'', ''day'', ''month'', ''year''}
         \<and> 0 < mp_retention_count m \<and> mp_retention_count m < 2 ^ 31
         \<and> (\<exists>k. mp_base_sql m = take k sql)"
proof -
  have options: "u \<in> set partition_units \<and> 0 < n \<and> n < 2 ^ 31"
    if "parse_partition_options opts = Inr (u, n)" for opts u n
    using that by (auto simp: parse_partition_options_def result_simps parse_signed_def Let_def
        split: if_splits option.splits)
  have prefix: "\<exists>k. trim_end_matches c (trim_end (take i sql)) = take k sql" for c i
  proof -
    obtain k where k: "trim_end (take i sql) = take k (take i sql)" using trim_end_prefix by blast
    have "\<exists>j. trim_end_matches c s = take j s" for s
      by (metis dropWhile_eq_drop rev_drop rev_rev_ident trim_end_matches_def)
    with k show ?thesis by (metis take_take)
  qed
  from assms obtain opts where "parse_partition_options opts = Inr (mp_partition_unit m, mp_retention_count m)"
    and "\<exists>i. mp_base_sql m = trim_end_matches (CHR '';'') (trim_end (take i sql))"
    by (fastforce simp: parse_managed_partition_create_def result_simps Let_def split: if_splits)
  with options prefix show ?thesis by (fastforce simp: partition_units_def)
qed

theorem managed_create_in_range_witness:
  "''day'' \<in> {''hour'', ''day'', ''month'', ''year''} \<and> 0 < (30 :: int) \<and> (30 :: int) < 2 ^ 31
   \<and> (\<exists>k. ''create table t(a int)''
        = take k ''create table t(a int) partition by range (a) with (partition_unit=day, retention=30)'')"
proof -
  let ?m = "\<lparr>mp_base_sql = ''create table t(a int)'', mp_partition_key = ''a'', mp_partition_unit = ''day'',
    mp_retention_count = 30\<rparr>"
  have "parse_managed_partition_create
      ''create table t(a int) partition by range (a) with (partition_unit=day, retention=30)'' = Inr (Some ?m)"
    by code_simp
  from managed_create_in_range [OF this] show ?thesis
    by (simp only: managed_partition_create.simps)
qed

text \<open>
  The panic the parser can reach: looking for \<^verbatim>\<open>NULL\<close> slices four bytes from the
  opening quote, which ends inside a multi-byte character when the text starts, say, with two
  ASCII characters and one three-byte character.
\<close>

lemma comment_text_panics:
  "parse_comment_on_statement (''COMMENT ON TABLE t IS '' @ [squote, CHR ''a'', CHR ''b'', CHR 0xE4, CHR 0xB8, CHR 0xAD, squote])
   = Inl EPanic"
  by code_simp

end
