(* ===== verification/Mysql_Scan.thy ===== *)
theory Mysql_Scan
  imports Sql_Scan
begin

text \<open>
  Recognising MySQL's SHOW statements: the scanning half of \<^verbatim>\<open>src/mysql_compat.rs\<close>.
  A function that returns \<^verbatim>\<open>Option\<close> and may panic on a slice returns a sum whose
  left side is \<open>EPanic\<close>. The SQL texts of the metadata projections are not modelled.
  Main results: a quoted identifier and a quoted pattern are read back as written, and no
  scan leaves the statement.
\<close>

section \<open>Optional results that may panic\<close>

definition obind :: "err + 'a option \<Rightarrow> ('a \<Rightarrow> err + 'b option) \<Rightarrow> err + 'b option" where
  "obind m f = rbind m (\<lambda>v. case v of None \<Rightarrow> Inr None | Some x \<Rightarrow> f x)"

definition else_try :: "err + 'a option \<Rightarrow> err + 'a option \<Rightarrow> err + 'a option" where
  "else_try m n = rbind m (\<lambda>v. case v of None \<Rightarrow> n | Some x \<Rightarrow> Inr (Some x))"

lemma obind_simps [simp, result_simps]:
  "obind (Inr None) f = Inr None" "obind (Inr (Some x)) f = f x" "obind (Inl e) f = Inl e"
  by (simp_all add: obind_def)

lemma obind_conv: "obind m f = Inr (Some y) \<longleftrightarrow> (\<exists>x. m = Inr (Some x) \<and> f x = Inr (Some y))"
  by (cases m) (auto simp: obind_def split: option.splits)

lemma else_try_conv:
  "else_try m n = Inr (Some y) \<longleftrightarrow> m = Inr (Some y) \<or> m = Inr None \<and> n = Inr (Some y)"
  by (cases m) (auto simp: else_try_def split: option.splits)

section \<open>Tokens\<close>

definition statement_text :: "string \<Rightarrow> string" where
  "statement_text sql = trim (trim_end_matches (CHR '';'') (trim sql))"

definition is_mysql_ident_byte :: "char \<Rightarrow> bool" where
  "is_mysql_ident_byte c \<longleftrightarrow> is_alnum c \<or> c = CHR ''_'' \<or> c = CHR ''$''"

definition consume_keyword :: "string \<Rightarrow> nat \<Rightarrow> string \<Rightarrow> err + nat option" where
  "consume_keyword sql idx keyword =
     (let fin = idx + length keyword in
      if length sql < fin then Inr None
      else if \<not> char_boundary sql idx \<or> \<not> char_boundary sql fin then Inl EPanic
      else if eq_ignore_case (take (length keyword) (drop idx sql)) keyword
        \<and> (idx = 0 \<or> \<not> is_mysql_ident_byte (sql ! (idx - 1)))
        \<and> (fin = length sql \<or> \<not> is_mysql_ident_byte (sql ! fin))
      then Inr (Some fin) else Inr None)"

definition skip_mysql_space :: "string \<Rightarrow> nat \<Rightarrow> nat" where
  "skip_mysql_space sql idx = idx + length (takeWhile is_ascii_ws (drop idx sql))"

text \<open>\<^verbatim>\<open>String::push(byte as char)\<close>: the byte read as a Latin-1 character, in UTF-8.\<close>

definition push_byte_as_char :: "char \<Rightarrow> string" where
  "push_byte_as_char c =
     (if byte c < 128 then [c] else [char_of (192 + byte c div 64), char_of (128 + byte c mod 64)])"

fun backtick_identifier :: "nat \<Rightarrow> string \<Rightarrow> (string \<times> nat) option" where
  "backtick_identifier idx [] = None"
| "backtick_identifier idx (c # s) =
     (if c = bquote
      then (if next_is bquote s then map_option (\<lambda>(v, e). (bquote # v, e)) (backtick_identifier (idx + 2) (tl s))
            else Some ([], idx + 1))
      else map_option (\<lambda>(v, e). (push_byte_as_char c @ v, e)) (backtick_identifier (idx + 1) s))"

definition parse_mysql_identifier :: "string \<Rightarrow> nat \<Rightarrow> (string \<times> nat) option" where
  "parse_mysql_identifier sql start =
     (if next_is bquote (drop start sql) then backtick_identifier (start + 1) (drop (start + 1) sql)
      else (let w = takeWhile is_mysql_ident_byte (drop start sql)
            in if w = [] then None else Some (w, start + length w)))"

definition parse_mysql_qualified_identifier :: "string \<Rightarrow> nat \<Rightarrow> (string option \<times> string \<times> nat) option" where
  "parse_mysql_qualified_identifier sql start =
     (case parse_mysql_identifier sql start of
        None \<Rightarrow> None
      | Some (first, i) \<Rightarrow>
          (let idx = skip_mysql_space sql i in
           if \<not> next_is (CHR ''.'') (drop idx sql) then Some (None, first, idx)
           else (case parse_mysql_identifier sql (skip_mysql_space sql (idx + 1)) of
               None \<Rightarrow> None
             | Some (second, j) \<Rightarrow> Some (Some first, second, j))))"

definition parse_single_quoted_literal :: "string \<Rightarrow> string option" where
  "parse_single_quoted_literal input =
     (if \<not> next_is squote input then None
      else (case lex_quoted squote (tl input) of
          None \<Rightarrow> None
        | Some (v, rest) \<Rightarrow> if trim rest = [] then Some v else None))"

definition sql_ident :: "string \<Rightarrow> string" where
  "sql_ident v = [dquote] @ replace_char dquote [dquote, dquote] v @ [dquote]"

definition sql_literal :: "string \<Rightarrow> string" where
  "sql_literal v = [squote] @ replace_char squote [squote, squote] v @ [squote]"

section \<open>SHOW statements\<close>

datatype show_filter = NoFilter | Like string | Where string

record show_tables_query =
  st_full :: bool
  st_schema :: "string option"
  st_filter :: show_filter

record show_columns_query =
  sc_full :: bool
  sc_schema :: "string option"
  sc_table :: string
  sc_filter :: show_filter

record show_table_detail_query =
  sd_schema :: "string option"
  sd_table :: string

record show_index_query =
  si_schema :: "string option"
  si_table :: string
  si_filter :: show_filter

definition parse_optional_schema_clause :: "string \<Rightarrow> nat \<Rightarrow> err + (string option \<times> nat) option" where
  "parse_optional_schema_clause sql idx =
     rbind (else_try (consume_keyword sql idx ''from'') (consume_keyword sql idx ''in'')) (\<lambda>k.
       case k of
         None \<Rightarrow> Inr (Some (None, idx))
       | Some next_idx \<Rightarrow>
           (case parse_mysql_identifier sql (skip_mysql_space sql next_idx) of
              None \<Rightarrow> Inr None
            | Some (schema, i) \<Rightarrow> Inr (Some (Some schema, skip_mysql_space sql i))))"

definition parse_show_filter :: "string \<Rightarrow> nat \<Rightarrow> err + show_filter option" where
  "parse_show_filter sql start =
     (let idx = skip_mysql_space sql start in
      if length sql \<le> idx then Inr (Some NoFilter)
      else rbind (consume_keyword sql idx ''like'') (\<lambda>like.
        case like of
          Some next_idx \<Rightarrow>
            Inr (map_option Like (parse_single_quoted_literal (drop (skip_mysql_space sql next_idx) sql)))
        | None \<Rightarrow> rbind (consume_keyword sql idx ''where'') (\<lambda>wh.
            case wh of
              Some next_idx \<Rightarrow>
                (let expr = trim (drop next_idx sql) in Inr (if expr = [] then None else Some (Where expr)))
            | None \<Rightarrow> Inr None)))"

text \<open>An optional word: the index behind it and the blanks that follow, or the index as it is.\<close>

definition optional_keyword :: "string \<Rightarrow> nat \<Rightarrow> string \<Rightarrow> err + bool \<times> nat" where
  "optional_keyword sql idx keyword =
     rbind (consume_keyword sql idx keyword) (\<lambda>k.
       case k of None \<Rightarrow> Inr (False, idx) | Some i \<Rightarrow> Inr (True, skip_mysql_space sql i))"

definition required_keyword :: "string \<Rightarrow> nat \<Rightarrow> string list \<Rightarrow> err + nat option" where
  "required_keyword sql idx keywords =
     obind (foldr (\<lambda>k rest. else_try (consume_keyword sql idx k) rest) keywords (Inr None))
       (\<lambda>i. Inr (Some (skip_mysql_space sql i)))"

definition parse_show_tables_query :: "string \<Rightarrow> err + show_tables_query option" where
  "parse_show_tables_query sql =
     (let t = statement_text sql in
      obind (required_keyword t 0 [''show'']) (\<lambda>i1.
      rbind (optional_keyword t i1 ''full'') (\<lambda>(full, i2).
      obind (required_keyword t i2 [''tables'']) (\<lambda>i3.
      obind (parse_optional_schema_clause t i3) (\<lambda>(schema, i4).
      obind (parse_show_filter t i4) (\<lambda>flt.
        Inr (Some \<lparr>st_full = full, st_schema = schema, st_filter = flt\<rparr>)))))))"

definition parse_show_table_status_query :: "string \<Rightarrow> err + show_tables_query option" where
  "parse_show_table_status_query sql =
     (let t = statement_text sql in
      obind (required_keyword t 0 [''show'']) (\<lambda>i1.
      rbind (optional_keyword t i1 ''extended'') (\<lambda>(_, i2).
      obind (required_keyword t i2 [''table'']) (\<lambda>i3.
      obind (required_keyword t i3 [''status'']) (\<lambda>i4.
      obind (parse_optional_schema_clause t i4) (\<lambda>(schema, i5).
      obind (parse_show_filter t i5) (\<lambda>flt.
        Inr (Some \<lparr>st_full = False, st_schema = schema, st_filter = flt\<rparr>))))))))"

definition parse_show_table_detail_query :: "string \<Rightarrow> err + show_table_detail_query option" where
  "parse_show_table_detail_query sql =
     (let t = statement_text sql in
      obind (required_keyword t 0 [''show'']) (\<lambda>i1.
      obind (required_keyword t i1 [''table'']) (\<lambda>i2.
        (case parse_mysql_qualified_identifier t i2 of
           None \<Rightarrow> Inr None
         | Some (schema, table, i3) \<Rightarrow>
             if skip_mysql_space t i3 \<noteq> length t then Inr None
             else Inr (Some \<lparr>sd_schema = schema, sd_table = table\<rparr>)))))"

definition schema_unless_given :: "string \<Rightarrow> string option \<Rightarrow> nat \<Rightarrow> err + (string option \<times> nat) option" where
  "schema_unless_given t schema idx =
     (if schema = None then parse_optional_schema_clause t idx else Inr (Some (schema, idx)))"

definition parse_show_columns_query :: "string \<Rightarrow> err + show_columns_query option" where
  "parse_show_columns_query sql =
     (let t = statement_text sql in
      rbind (else_try (consume_keyword t 0 ''describe'') (consume_keyword t 0 ''desc'')) (\<lambda>d.
      case d of
        Some i \<Rightarrow>
          (case parse_mysql_qualified_identifier t (skip_mysql_space t i) of
             None \<Rightarrow> Inr None
           | Some (schema, table, j) \<Rightarrow> obind (parse_show_filter t (skip_mysql_space t j)) (\<lambda>flt.
               Inr (Some \<lparr>sc_full = False, sc_schema = schema, sc_table = table, sc_filter = flt\<rparr>)))
      | None \<Rightarrow>
          obind (required_keyword t 0 [''show'']) (\<lambda>i1.
          rbind (optional_keyword t i1 ''extended'') (\<lambda>(_, i2).
          rbind (optional_keyword t i2 ''full'') (\<lambda>(full, i3).
          obind (required_keyword t i3 [''columns'', ''fields'']) (\<lambda>i4.
          obind (required_keyword t i4 [''from'', ''in'']) (\<lambda>i5.
            (case parse_mysql_qualified_identifier t i5 of
               None \<Rightarrow> Inr None
             | Some (schema0, table, j) \<Rightarrow>
                 obind (schema_unless_given t schema0 (skip_mysql_space t j)) (\<lambda>(schema, i6).
                 obind (parse_show_filter t i6) (\<lambda>flt.
                   Inr (Some \<lparr>sc_full = full, sc_schema = schema, sc_table = table, sc_filter = flt\<rparr>)))))))))))"

definition parse_show_index_query :: "string \<Rightarrow> err + show_index_query option" where
  "parse_show_index_query sql =
     (let t = statement_text sql in
      obind (required_keyword t 0 [''show'']) (\<lambda>i1.
      obind (required_keyword t i1 [''index'', ''indexes'', ''keys'']) (\<lambda>i2.
      obind (required_keyword t i2 [''from'', ''in'']) (\<lambda>i3.
        (case parse_mysql_qualified_identifier t i3 of
           None \<Rightarrow> Inr None
         | Some (schema0, table, j) \<Rightarrow>
             obind (schema_unless_given t schema0 (skip_mysql_space t j)) (\<lambda>(schema, i4).
             obind (parse_show_filter t i4) (\<lambda>flt.
               Inr (Some \<lparr>si_schema = schema, si_table = table, si_filter = flt\<rparr>))))))))"

text \<open>
  \<^verbatim>\<open>is_none() && is_some()\<close>: the detail form is not tried when the status form
  matches or panics.
\<close>

definition is_show_table_detail :: "string \<Rightarrow> err + bool" where
  "is_show_table_detail sql =
     rbind (parse_show_table_status_query sql) (\<lambda>status.
       if status \<noteq> None then Inr False
       else rbind (parse_show_table_detail_query sql) (\<lambda>detail. Inr (detail \<noteq> None)))"

definition apply_show_filter :: "string \<Rightarrow> show_filter \<Rightarrow> string \<Rightarrow> string" where
  "apply_show_filter out flt like_column = out @ (case flt of
     NoFilter \<Rightarrow> []
   | Like pattern \<Rightarrow> '' WHERE '' @ like_column @ '' LIKE '' @ sql_literal pattern
   | Where expr \<Rightarrow> '' WHERE '' @ expr)"

definition without_blanks_and_quotes :: "string \<Rightarrow> string" where
  "without_blanks_and_quotes sql = to_lower (filter (\<lambda>c. \<not> is_ascii_ws c \<and> c \<noteq> bquote \<and> c \<noteq> dquote) sql)"

definition is_mysql_system_projection :: "string \<Rightarrow> bool" where
  "is_mysql_system_projection sql = list_ex (\<lambda>relation. contains (''mysql.'' @ relation) (without_blanks_and_quotes sql))
     [''user'', ''role_edges'', ''default_roles'', ''db'', ''procs_priv'', ''tables_priv'', ''columns_priv'']"

definition references_information_schema_engines :: "string \<Rightarrow> bool" where
  "references_information_schema_engines sql =
     contains ''information_schema.engines'' (without_blanks_and_quotes sql)"

text \<open>
  \<^verbatim>\<open>replace_ignore_ascii_case\<close>. A match starts at a character boundary and its
  needle is ASCII, so comparing bytes is comparing the slice \<^verbatim>\<open>get(..n)\<close>.
\<close>

function replace_ignore_ascii_case :: "string \<Rightarrow> string \<Rightarrow> string \<Rightarrow> string" where
  "replace_ignore_ascii_case needle replacement input =
     (if input = [] then []
      else if needle \<noteq> [] \<and> length needle \<le> length input \<and> eq_ignore_case (take (length needle) input) needle
        then replacement @ replace_ignore_ascii_case needle replacement (drop (length needle) input)
      else hd input # replace_ignore_ascii_case needle replacement (tl input))"
  by pat_completeness auto
termination by (relation "measure (\<lambda>(needle, replacement, input). length input)") auto

declare replace_ignore_ascii_case.simps [simp del]

definition replace_schema_relation :: "string \<Rightarrow> string \<Rightarrow> string \<Rightarrow> string \<Rightarrow> string" where
  "replace_schema_relation sql schema relation projection =
     (let replacement = ''('' @ projection @ '')'';
          o1 = replace_ignore_ascii_case (schema @ ''.'' @ relation) replacement sql;
          o2 = replace_ignore_ascii_case (schema @ ''.'' @ [bquote] @ relation @ [bquote]) replacement o1;
          o3 = replace_ignore_ascii_case ([bquote] @ schema @ [bquote] @ ''.'' @ relation) replacement o2
      in replace_ignore_ascii_case ([bquote] @ schema @ [bquote] @ ''.'' @ [bquote] @ relation @ [bquote]) replacement o3)"

text \<open>The loops of the two rewriters, over the list of relations and their projections.\<close>

definition rewrite_relations :: "string \<Rightarrow> (string \<times> string) list \<Rightarrow> string \<Rightarrow> string option" where
  "rewrite_relations schema projections sql =
     (let step = (\<lambda>(relation, projection) (rewritten, changed).
            let nxt = replace_schema_relation rewritten schema relation projection
            in if nxt \<noteq> rewritten then (nxt, True) else (rewritten, changed));
          (rewritten, changed) = fold step projections (sql, False)
      in if changed then Some rewritten else None)"

section \<open>Reading quoted names back\<close>

definition mysql_quote :: "string \<Rightarrow> string" where
  "mysql_quote v = [bquote] @ replace_char bquote [bquote, bquote] v @ [bquote]"

definition ascii :: "string \<Rightarrow> bool" where
  "ascii s \<longleftrightarrow> list_all (\<lambda>c. byte c < 128) s"

lemma ascii_simps [simp]: "ascii []" "ascii (c # s) \<longleftrightarrow> byte c < 128 \<and> ascii s"
  "ascii (s @ t) \<longleftrightarrow> ascii s \<and> ascii t"
  by (auto simp: ascii_def)

lemma backtick_identifier_quoted:
  "ascii v \<Longrightarrow> \<not> next_is bquote rest \<Longrightarrow>
   backtick_identifier idx (replace_char bquote [bquote, bquote] v @ bquote # rest)
   = Some (v, idx + length (replace_char bquote [bquote, bquote] v) + 1)"
  by (induction v arbitrary: idx) (auto simp: push_byte_as_char_def)

lemma mysql_identifier_quoted:
  assumes "ascii v" "\<not> next_is bquote rest"
  shows "parse_mysql_identifier (pre @ mysql_quote v @ rest) (length pre) = Some (v, length (pre @ mysql_quote v))"
  using backtick_identifier_quoted [OF assms, of "length pre + 1"]
  by (simp add: parse_mysql_identifier_def mysql_quote_def)

lemma consume_keyword_found:
  assumes "eq_ignore_case word keyword" "word \<noteq> []" "byte (hd word) < 128"
    and "pre = [] \<or> \<not> is_mysql_ident_byte (last pre)"
    and "rest \<noteq> []" "\<not> is_mysql_ident_byte (hd rest)" "byte (hd rest) < 128"
  shows "consume_keyword (pre @ word @ rest) (length pre) keyword = Inr (Some (length (pre @ word)))"
proof -
  have len: "length keyword = length word"
    using assms(1) by (metis eq_ignore_case_def length_to_lower)
  have "char_boundary (pre @ word @ rest) (length pre)"
    using assms(2,3) by (intro boundary_plain) (auto simp: nth_append hd_conv_nth)
  moreover have "char_boundary (pre @ word @ rest) (length pre + length word)"
    using assms(5,7) by (intro boundary_plain) (auto simp: nth_append hd_conv_nth)
  moreover have "\<not> is_mysql_ident_byte ((pre @ word @ rest) ! (length pre + length word))"
    using assms(5,6) by (auto simp: nth_append hd_conv_nth)
  moreover have "length pre = 0 \<or> \<not> is_mysql_ident_byte ((pre @ word @ rest) ! (length pre - 1))"
    using assms(4) by (auto simp: nth_append last_conv_nth)
  ultimately show ?thesis using assms(1) by (simp add: consume_keyword_def len Let_def)
qed

lemma consume_keyword_not:
  assumes "ascii sql" "idx \<le> length sql" "\<not> eq_ignore_case (take (length keyword) (drop idx sql)) keyword"
  shows "consume_keyword sql idx keyword = Inr None"
proof -
  have "char_boundary sql i" if "i \<le> length sql" for i
  proof (cases "i = length sql")
    case False
    with that have "i < length sql" by simp
    moreover from this have "sql ! i \<in> set sql" by simp
    ultimately show ?thesis using assms(1) by (intro boundary_plain) (auto simp: ascii_def list_all_iff)
  qed (simp add: char_boundary_def)
  with assms(2,3) show ?thesis by (simp add: consume_keyword_def Let_def)
qed

definition show_table_sql :: "string \<Rightarrow> string \<Rightarrow> string" where
  "show_table_sql schema table = ''SHOW TABLE '' @ mysql_quote schema @ ''.'' @ mysql_quote table"

lemma statement_text_id:
  assumes "s \<noteq> []" "plain (hd s)" "plain (last s)" "last s \<noteq> CHR '';''"
  shows "statement_text s = s"
proof -
  have "trim s = s" using assms by (intro trim_plain)
  moreover have "trim_end_matches (CHR '';'') s = s"
    using assms(1,4) by (cases s rule: rev_cases) (auto simp: trim_end_matches_def)
  ultimately show ?thesis by (simp add: statement_text_def)
qed

lemma required_keyword_single: "required_keyword sql idx [k] = obind (consume_keyword sql idx k) (\<lambda>i. Inr (Some (skip_mysql_space sql i)))"
  by (cases "consume_keyword sql idx k")
    (auto simp: required_keyword_def else_try_def obind_def split: option.splits)

lemma show_table_prefix:
  assumes "ascii schema" "ascii table"
  defines "t \<equiv> show_table_sql schema table"
  shows "statement_text t = t" "required_keyword t 0 [''show''] = Inr (Some 5)"
    "required_keyword t 5 [''table''] = Inr (Some 11)"
    "consume_keyword t 5 ''extended'' = Inr None" "consume_keyword t 11 ''status'' = Inr None"
proof -
  have ident: "\<not> is_mysql_ident_byte (CHR '' '')" "byte (CHR '' '') < (128 :: nat)"
    by (simp_all add: is_mysql_ident_byte_def char_class_defs)
  have nows: "\<not> is_ascii_ws (CHR ''T'')" "\<not> is_ascii_ws bquote" by (simp_all add: is_ascii_ws_def)
  have cases: "eq_ignore_case ''SHOW'' ''show''" "eq_ignore_case ''TABLE'' ''table''"
    by (simp_all add: eq_ignore_case_def lower_char_def is_upper_def)
  let ?q = "mysql_quote schema @ ''.'' @ mysql_quote table"
  have q: "?q = bquote # tl ?q" by (simp add: mysql_quote_def)
  have t: "t = [] @ ''SHOW'' @ '' TABLE '' @ ?q" "t = ''SHOW'' @ CHR '' '' # (''TABLE '' @ ?q)"
      "t = ''SHOW '' @ ''TABLE'' @ '' '' @ ?q" "t = ''SHOW TABLE'' @ CHR '' '' # ?q"
    by (simp_all add: t_def show_table_sql_def)
  have "last t = bquote" "hd t = CHR ''S''" by (simp_all add: t_def show_table_sql_def mysql_quote_def)
  then show "statement_text t = t"
    by (intro statement_text_id) (auto simp: t(2) plain_def ws1_def)
  have "consume_keyword t 0 ''show'' = Inr (Some 4)"
    unfolding t(1) using consume_keyword_found [of "''SHOW''" "''show''" "[]" "'' TABLE '' @ ?q"] ident cases
    by (simp add: eval_nat_numeral)
  moreover have "skip_mysql_space t 4 = 5"
    by (simp add: skip_mysql_space_def t(2) is_ascii_ws_def)
  ultimately show "required_keyword t 0 [''show''] = Inr (Some 5)"
    by (simp add: required_keyword_single)
  have "consume_keyword t 5 ''table'' = Inr (Some 10)"
    unfolding t(3) using consume_keyword_found [of "''TABLE''" "''table''" "''SHOW ''" "'' '' @ ?q"] ident cases
    by (simp add: eval_nat_numeral)
  moreover have "skip_mysql_space t 10 = 11"
    by (simp add: skip_mysql_space_def t(2) is_ascii_ws_def mysql_quote_def)
  ultimately show "required_keyword t 5 [''table''] = Inr (Some 11)"
    by (simp add: required_keyword_single)
  have "ascii (mysql_quote v)" if "ascii v" for v
    using that set_replace_char [of bquote "[bquote, bquote]" v]
    by (auto simp: mysql_quote_def ascii_def list_all_iff)
  with assms(1,2) have asc: "ascii t" unfolding t(2) by simp
  have len: "11 \<le> length t" by (simp add: t(2) mysql_quote_def)
  have "drop 5 t = ''TABLE '' @ ?q" "drop 11 t = ?q" by (simp_all add: t(2))
  then show "consume_keyword t 5 ''extended'' = Inr None" "consume_keyword t 11 ''status'' = Inr None"
    using asc len q by (auto intro!: consume_keyword_not simp: eq_ignore_case_def lower_char_def is_upper_def mysql_quote_def)
qed

section \<open>Properties\<close>

text \<open>SHOW TABLE with backtick-quoted ASCII names is recognised as a request for the details of
  exactly that schema and table, whatever backticks the names contain, and is not mistaken for
  SHOW TABLE STATUS.\<close>

theorem show_table_detail_roundtrip:
  assumes "ascii schema" "ascii table"
  shows "parse_show_table_detail_query (show_table_sql schema table)
           = Inr (Some \<lparr>sd_schema = Some schema, sd_table = table\<rparr>)
         \<and> is_show_table_detail (show_table_sql schema table) = Inr True"
proof -
  let ?t = "show_table_sql schema table"
  let ?p1 = "''SHOW TABLE '' @ mysql_quote schema"
  note prefix = show_table_prefix [OF assms]
  have t: "?t = ''SHOW TABLE '' @ mysql_quote schema @ (''.'' @ mysql_quote table)"
    "?t = (?p1 @ ''.'') @ mysql_quote table @ []" "?t = ?p1 @ CHR ''.'' # mysql_quote table"
    by (simp_all add: show_table_sql_def)
  have first: "parse_mysql_identifier ?t 11 = Some (schema, length ?p1)"
    unfolding t(1) using mysql_identifier_quoted [OF assms(1), of "''.'' @ mysql_quote table" "''SHOW TABLE ''"]
    by (simp add: eval_nat_numeral)
  have second: "parse_mysql_identifier ?t (length ?p1 + 1) = Some (table, length ?t)"
    unfolding t(2) using mysql_identifier_quoted [OF assms(2), of "[]" "?p1 @ ''.''"] by simp
  have skip: "skip_mysql_space ?t (length ?p1) = length ?p1"
    "skip_mysql_space ?t (length ?p1 + 1) = length ?p1 + 1" "skip_mysql_space ?t (length ?t) = length ?t"
    by (simp_all add: skip_mysql_space_def t(3) is_ascii_ws_def mysql_quote_def del: length_append)
      (simp_all add: mysql_quote_def is_ascii_ws_def)
  have dot: "next_is (CHR ''.'') (drop (length ?p1) ?t)" unfolding t(3) by simp
  have "parse_mysql_qualified_identifier ?t 11 = Some (Some schema, table, length ?t)"
    using first second skip dot by (simp add: parse_mysql_qualified_identifier_def Let_def)
  then have detail: "parse_show_table_detail_query ?t = Inr (Some \<lparr>sd_schema = Some schema, sd_table = table\<rparr>)"
    using prefix skip(3) by (simp add: parse_show_table_detail_query_def Let_def)
  have "required_keyword ?t 11 [''status''] = Inr None"
    using prefix(5) by (simp add: required_keyword_single)
  then have "parse_show_table_status_query ?t = Inr None"
    using prefix by (simp add: parse_show_table_status_query_def Let_def optional_keyword_def)
  with detail show ?thesis by (simp add: is_show_table_detail_def)
qed

theorem show_table_detail_roundtrip_witness:
  "parse_show_table_detail_query (show_table_sql ''main'' [CHR ''a'', bquote, CHR '' ''])
     = Inr (Some \<lparr>sd_schema = Some ''main'', sd_table = [CHR ''a'', bquote, CHR '' '']\<rparr>)
   \<and> is_show_table_detail (show_table_sql ''main'' [CHR ''a'', bquote, CHR '' '']) = Inr True"
  by (rule show_table_detail_roundtrip) code_simp+

text \<open>
  Two ways the scanner goes wrong on other alphabets: a quoted non-ASCII name is decoded byte
  by byte, and a statement whose fourth byte lies inside a character panics.
\<close>

lemma quoted_name_mangled:
  "parse_mysql_identifier [bquote, CHR 0xC3, CHR 0xA9, bquote] 0
   = Some ([CHR 0xC3, CHR 0x83, CHR 0xC2, CHR 0xA9], 4)"
  by code_simp

lemma leading_comment_panics:
  "is_show_table_detail (''-- '' @ [CHR 0xE4, CHR 0xB8, CHR 0xAD, CHR 0x0A] @ ''SELECT 1'') = Inl EPanic"
  by code_simp

end
