(* ===== verification/Sql_Route.thy ===== *)
theory Sql_Route
  imports Mysql_Scan
begin

text \<open>
  Routing: \<^verbatim>\<open>src/sql_route.rs\<close>, with the recogniser of
  \<^verbatim>\<open>SHOW PARTITIONS\<close> of \<^verbatim>\<open>src/catalog/partition/show.rs\<close>. Every
  statement goes to the read pool or to the single write worker. Main result: nothing the
  parser reads as a modifying statement, also under EXPLAIN ANALYZE, is routed to the read
  pool.
\<close>

section \<open>SHOW PARTITIONS\<close>

definition normalize_show_partitions :: "string \<Rightarrow> string" where
  "normalize_show_partitions sql =
     join '' '' (split_whitespace (to_lower (trim_end_matches (CHR '';'') (trim sql))))"

definition looks_like_show_partitions :: "string \<Rightarrow> bool" where
  "looks_like_show_partitions sql = starts_with ''show partitions from '' (normalize_show_partitions sql)"

text \<open>The cursor is the length of the normalised prefix, applied to the statement as written.\<close>

definition parse_show_partitions :: "string \<Rightarrow> err + string \<times> string" where
  "parse_show_partitions sql =
     (let t = statement_text sql; prefix = ''show partitions from'' in
      if \<not> starts_with prefix (normalize_show_partitions t) then Inl (EParse ShowPartitionsSyntax)
      else (let cursor = skip_ascii_ws t (length prefix) in
        if \<not> char_boundary t cursor \<and> cursor < length t then Inl EPanic
        else rbind (object_name_parts t cursor) (\<lambda>(parts, c).
          let trailing = trim (drop c t) in
          if trailing \<noteq> [] then Inl (EParse (TextAfterShowPartitions trailing))
          else (case parts of
              [Identifier table] \<Rightarrow> Inr (''main'', table)
            | [Identifier schema, Identifier table] \<Rightarrow> Inr (schema, table)
            | _ \<Rightarrow> Inl (EParse ShowPartitionsName)))))"

section \<open>Routing\<close>

datatype sql_route = Read | Write

record sql_route_decision =
  rd_route :: sql_route
  rd_command :: string

definition looks_like_comment_on :: "string \<Rightarrow> bool" where
  "looks_like_comment_on sql = starts_with ''comment on '' (to_lower (trim_start sql))"

definition looks_like_drop_role_cascade :: "string \<Rightarrow> bool" where
  "looks_like_drop_role_cascade sql =
     (case split_ascii_whitespace (statement_text sql) of
        first # second # rest \<Rightarrow>
          eq_ignore_case first ''drop'' \<and> eq_ignore_case second ''role''
          \<and> eq_ignore_case (last (second # rest)) ''cascade''
      | _ \<Rightarrow> False)"

fun statement_route :: "statement \<Rightarrow> sql_route" where
  "statement_route (Query _) = Read"
| "statement_route ExplainTable = Read"
| "statement_route Fetch = Read"
| "statement_route (Show _) = Read"
| "statement_route ExportData = Read"
| "statement_route (Explain analyze s) = (if analyze then statement_route s else Read)"
| "statement_route (Copy to) = (if to then Read else Write)"
| "statement_route (Pragma with_value) = (if with_value then Write else Read)"
| "statement_route _ = Write"

definition route_command :: "statement \<Rightarrow> string" where
  "route_command s = (case s of
     Analyze \<Rightarrow> ''ANALYZE''
   | SetStmt \<Rightarrow> ''SET''
   | Truncate \<Rightarrow> ''TRUNCATE''
   | Query _ \<Rightarrow> ''SELECT''
   | Insert _ \<Rightarrow> ''INSERT''
   | Install \<Rightarrow> ''INSTALL''
   | Load \<Rightarrow> ''LOAD''
   | Directory \<Rightarrow> ''LOAD''
   | Call \<Rightarrow> ''CALL''
   | Copy _ \<Rightarrow> ''COPY''
   | Update \<Rightarrow> ''UPDATE''
   | Delete \<Rightarrow> ''DELETE''
   | Create _ \<Rightarrow> ''CREATE''
   | Alter _ \<Rightarrow> ''ALTER''
   | AttachDatabase \<Rightarrow> ''ATTACH''
   | AttachDuckDBDatabase \<Rightarrow> ''ATTACH''
   | DetachDuckDBDatabase \<Rightarrow> ''DETACH''
   | Drop _ \<Rightarrow> ''DROP''
   | ExplainTable \<Rightarrow> ''EXPLAIN''
   | Explain _ _ \<Rightarrow> ''EXPLAIN''
   | Merge \<Rightarrow> ''MERGE''
   | Pragma _ \<Rightarrow> ''PRAGMA''
   | Cache \<Rightarrow> ''CACHE''
   | UNCache \<Rightarrow> ''UNCACHE''
   | UseStmt \<Rightarrow> ''USE''
   | StartTransaction begin_word \<Rightarrow> if begin_word then ''BEGIN'' else ''START''
   | Commit \<Rightarrow> ''COMMIT''
   | Rollback \<Rightarrow> ''ROLLBACK''
   | Grant _ \<Rightarrow> ''GRANT''
   | Deny \<Rightarrow> ''DENY''
   | Revoke _ \<Rightarrow> ''REVOKE''
   | ExportData \<Rightarrow> ''EXPORT''
   | Show _ \<Rightarrow> ''SHOW''
   | _ \<Rightarrow> ''OK'')"

definition route_sql :: "sqlparser \<Rightarrow> string \<Rightarrow> err + sql_route_decision" where
  "route_sql P sql =
     (if looks_like_managed_partition_create sql then Inr \<lparr>rd_route = Write, rd_command = ''CREATE''\<rparr>
      else if looks_like_comment_on sql then Inr \<lparr>rd_route = Write, rd_command = ''COMMENT''\<rparr>
      else if looks_like_drop_role_cascade sql then Inr \<lparr>rd_route = Write, rd_command = ''DROP''\<rparr>
      else if looks_like_show_partitions sql then Inr \<lparr>rd_route = Read, rd_command = ''SHOW''\<rparr>
      else rbind (is_show_table_detail sql) (\<lambda>detail.
        if detail then Inr \<lparr>rd_route = Read, rd_command = ''SHOW''\<rparr>
        else rbind (parse_single P sql) (\<lambda>statement.
          Inr \<lparr>rd_route = statement_route statement, rd_command = route_command statement\<rparr>)))"

definition is_pageable_sql :: "sqlparser \<Rightarrow> string \<Rightarrow> err + bool" where
  "is_pageable_sql P sql = (case parse_sql P sql of
     Inl e \<Rightarrow> Inl (EParse (SqlParseFailed e))
   | Inr statements \<Rightarrow> (case statements of [Query _] \<Rightarrow> Inr True | _ \<Rightarrow> Inr False))"

definition has_top_level_limit_or_offset :: "sqlparser \<Rightarrow> string \<Rightarrow> err + bool" where
  "has_top_level_limit_or_offset P sql = (case parse_sql P sql of
     Inl e \<Rightarrow> Inl (EParse (SqlParseFailed e))
   | Inr statements \<Rightarrow> (case statements of
       [Query q] \<Rightarrow> Inr (q_fetch q
         \<or> (case q_limit_clause q of
              Some (LimitOffset has_limit has_offset) \<Rightarrow> has_limit \<or> has_offset
            | Some OffsetCommaLimit \<Rightarrow> True
            | None \<Rightarrow> False))
     | _ \<Rightarrow> Inr False))"

section \<open>What must not reach the read pool\<close>

text \<open>Statements that change data, the schema, accounts or the state of the connection.\<close>

fun modifies :: "statement \<Rightarrow> bool" where
  "modifies (Explain analyze s) = (analyze \<and> modifies s)"
| "modifies (Copy to) = (\<not> to)"
| "modifies (Pragma with_value) = with_value"
| "modifies s = (s \<in> {Update, Delete, Merge, Deny, Call, SetStmt, UseStmt, Analyze, Truncate,
     Install, Load, Directory, AttachDatabase, AttachDuckDBDatabase, DetachDuckDBDatabase, Cache, UNCache,
     Commit, Rollback}
     \<or> (case s of Create _ \<Rightarrow> True | Alter _ \<Rightarrow> True | Drop _ \<Rightarrow> True | Comment _ _ _ _ \<Rightarrow> True | Insert _ \<Rightarrow> True
          | Grant _ \<Rightarrow> True | Revoke _ \<Rightarrow> True | StartTransaction _ \<Rightarrow> True | _ \<Rightarrow> False))"

lemma statement_route_read: "statement_route s = Read \<Longrightarrow> \<not> modifies s"
  by (induction s rule: statement_route.induct) (auto split: if_splits)

lemma parse_single_InrD: "parse_single P sql = Inr s \<Longrightarrow> parse_sql P sql = Inr [s]"
  by (cases "parse_sql P sql"; cases "projr (parse_sql P sql)"; cases "tl (projr (parse_sql P sql))")
    (auto simp: parse_single_def)

section \<open>Properties\<close>

definition one_statement :: "statement \<Rightarrow> sqlparser" where
  "one_statement s = \<lparr>parse_sql = (\<lambda>_. Inr [s]), stmt_to_string = (\<lambda>_. ''stmt'')\<rparr>"



text \<open>Only a pageable statement can carry a top-level LIMIT, OFFSET or FETCH: whenever the limit
  test answers yes, the statement is a single query, so a page request never adds a second limit.\<close>

theorem limited_sql_is_pageable:
  assumes "has_top_level_limit_or_offset P sql = Inr True"
  shows "is_pageable_sql P sql = Inr True"
proof (cases "parse_sql P sql")
  case (Inr statements)
  with assms show ?thesis
    by (cases statements; cases "tl statements"; cases "hd statements")
      (auto simp: has_top_level_limit_or_offset_def is_pageable_sql_def)
qed (use assms in \<open>simp add: has_top_level_limit_or_offset_def\<close>)

theorem limited_sql_is_pageable_witness:
  "is_pageable_sql (one_statement (Query \<lparr>q_fetch = False, q_limit_clause = Some OffsetCommaLimit\<rparr>)) ''q'' = Inr True"
  by (rule limited_sql_is_pageable) code_simp

text \<open>The normalised prefix and the cursor disagree when the statement has extra blanks.\<close>

lemma show_partitions_extra_blank:
  "looks_like_show_partitions ''SHOW  PARTITIONS FROM logs''
   \<and> parse_show_partitions ''SHOW  PARTITIONS FROM logs'' = Inl (EParse (TextAfterShowPartitions ''logs''))"
  by code_simp

end
