(* ===== verification/Catalog_Store.thy ===== *)
theory Catalog_Store
  imports Sql_Util Password
begin

text \<open>
  The catalog tables \<^verbatim>\<open>rsduck_catalog.rs_*\<close>: \<^verbatim>\<open>src/catalog/storage.rs\<close> and
  the constants of \<^verbatim>\<open>src/catalog/model.rs\<close>. A table is the list of its rows in
  insertion order; columns that only hold \<^verbatim>\<open>CURRENT_TIMESTAMP\<close> (creation and update
  times, last login) are left out, since no code reads them back. The insert of a table is
  the engine's: it fails when a primary key or unique constraint would be violated. The
  interface of a keyed table is the locale \<open>unique_table\<close>, interpreted for every
  table and key the proofs use.
\<close>

section \<open>Constants\<close>

definition CATALOG_VERSION :: int where "CATALOG_VERSION = 2"
definition SNAPSHOT_FORMAT_VERSION :: int where "SNAPSHOT_FORMAT_VERSION = 3"
definition ADMIN_USER_ID :: int where "ADMIN_USER_ID = 10"
definition INFORMATION_SCHEMA_NS :: int where "INFORMATION_SCHEMA_NS = 12"
definition RSDUCK_CATALOG_NS :: int where "RSDUCK_CATALOG_NS = 13"
definition RSDUCK_INTERNAL_NS :: int where "RSDUCK_INTERNAL_NS = 14"
definition MAIN_NS :: int where "MAIN_NS = 15"
definition TYPE_BOOL :: int where "TYPE_BOOL = 1001"
definition TYPE_INT8 :: int where "TYPE_INT8 = 1002"
definition TYPE_INT2 :: int where "TYPE_INT2 = 1003"
definition TYPE_INT4 :: int where "TYPE_INT4 = 1004"
definition TYPE_TEXT :: int where "TYPE_TEXT = 1005"
definition TYPE_FLOAT4 :: int where "TYPE_FLOAT4 = 1006"
definition TYPE_FLOAT8 :: int where "TYPE_FLOAT8 = 1007"
definition TYPE_VARCHAR :: int where "TYPE_VARCHAR = 1008"
definition TYPE_DATE :: int where "TYPE_DATE = 1009"
definition TYPE_TIME :: int where "TYPE_TIME = 1010"
definition TYPE_TIMESTAMP :: int where "TYPE_TIMESTAMP = 1011"
definition TYPE_NUMERIC :: int where "TYPE_NUMERIC = 1012"
definition ROLE_ADMIN_ID :: int where "ROLE_ADMIN_ID = 20"
definition ROLE_OPERATOR_ID :: int where "ROLE_OPERATOR_ID = 21"
definition ROLE_DDL_ID :: int where "ROLE_DDL_ID = 22"
definition ROLE_WRITER_ID :: int where "ROLE_WRITER_ID = 23"
definition ROLE_READER_ID :: int where "ROLE_READER_ID = 24"
definition FIRST_USER_OID :: int where "FIRST_USER_OID = 10000"
definition OBJECT_RELATION_KIND :: int where "OBJECT_RELATION_KIND = 1259"
definition OBJECT_CONSTRAINT_KIND :: int where "OBJECT_CONSTRAINT_KIND = 2606"
definition OBJECT_SCHEMA_KIND :: int where "OBJECT_SCHEMA_KIND = 2615"

lemmas builtin_ids =
  ADMIN_USER_ID_def INFORMATION_SCHEMA_NS_def RSDUCK_CATALOG_NS_def RSDUCK_INTERNAL_NS_def MAIN_NS_def
  TYPE_BOOL_def TYPE_INT8_def TYPE_INT2_def TYPE_INT4_def TYPE_TEXT_def TYPE_FLOAT4_def TYPE_FLOAT8_def
  TYPE_VARCHAR_def TYPE_DATE_def TYPE_TIME_def TYPE_TIMESTAMP_def TYPE_NUMERIC_def
  ROLE_ADMIN_ID_def ROLE_OPERATOR_ID_def ROLE_DDL_ID_def ROLE_WRITER_ID_def ROLE_READER_ID_def
  FIRST_USER_OID_def

section \<open>Rows\<close>

record rs_catalog_version =
  ver_id :: int
  ver_schema_version :: int
  ver_snapshot_format :: int
  ver_epoch :: int
  ver_checksum :: string
  ver_status :: string

record rs_oid_alloc =
  al_id :: int
  al_next_oid :: int

record rs_catalog_journal =
  jr_id :: int
  jr_epoch :: int
  jr_mutation_type :: string
  jr_target_oid :: int
  jr_request :: string
  jr_status :: string
  jr_error :: string

record rs_schema =
  sch_oid :: int
  sch_name :: string
  sch_owner :: int
  sch_acl :: string

record rs_type =
  ty_oid :: int
  ty_name :: string
  ty_namespace :: int
  ty_owner :: int
  ty_len :: int
  ty_byval :: bool
  ty_type :: string
  ty_category :: string
  ty_isdefined :: bool
  ty_relid :: int
  ty_elem :: int
  ty_array :: int
  ty_physical :: string

record rs_relation =
  rel_oid :: int
  rel_name :: string
  rel_namespace :: int
  rel_type :: int
  rel_owner :: int
  rel_kind :: string
  rel_persistence :: string
  rel_natts :: int
  rel_tuples :: "64 word"  \<comment> \<open>a DOUBLE, by its bits\<close>
  rel_hasindex :: bool
  rel_ispartition :: bool
  rel_partbound :: string
  rel_options :: string
  rel_status :: string
  rel_error :: string

record rs_column =
  att_relid :: int
  att_name :: string
  att_typid :: int
  att_num :: int
  att_typmod :: int
  att_notnull :: bool
  att_hasdef :: bool
  att_isdropped :: bool
  att_identity :: string
  att_generated :: string
  att_options :: string

record rs_column_default =
  def_oid :: int
  def_relid :: int
  def_num :: int
  def_bin :: string

record rs_constraint =
  con_oid :: int
  con_name :: string
  con_namespace :: int
  con_type :: string
  con_relid :: int
  con_indid :: int
  con_key :: string
  con_frelid :: int
  con_fkey :: string
  con_validated :: bool
  con_bin :: string

record rs_index =
  idx_relid :: int
  idx_indrelid :: int
  idx_natts :: int
  idx_nkeyatts :: int
  idx_isunique :: bool
  idx_isprimary :: bool
  idx_isvalid :: bool
  idx_key :: string
  idx_exprs :: string
  idx_pred :: string

record rs_vector_index =
  vx_relid :: int
  vx_space :: string
  vx_embedding_model :: string
  vx_model_version :: string
  vx_dimension :: int
  vx_metric :: string
  vx_m :: int
  vx_m0 :: int
  vx_ef_construction :: int
  vx_ef_search :: int
  vx_definition_version :: int
  vx_generation :: int
  vx_extension_version :: string
  vx_build_status :: string
  vx_vector_count :: int
  vx_error :: string

record rs_dependency =
  dep_classid :: int
  dep_objid :: int
  dep_objsubid :: int
  dep_refclassid :: int
  dep_refobjid :: int
  dep_refobjsubid :: int
  dep_type :: string

record rs_comment =
  com_objoid :: int
  com_classoid :: int
  com_objsubid :: int
  com_description :: string

record rs_relation_ext =
  ext_relid :: int
  ext_managed_kind :: string
  ext_storage_mode :: string
  ext_visibility :: string
  ext_partition_key :: string
  ext_partition_key_type :: string
  ext_partition_unit :: string
  ext_retention_count :: int
  ext_generated_sql :: string
  ext_properties :: string

text \<open>Bounds are TIMESTAMP values: microseconds since the epoch, or NULL.\<close>

record rs_partition =
  par_parent :: int
  par_child :: int
  par_value :: string
  par_unit :: string
  par_lower :: "int option"
  par_upper :: "int option"
  par_is_null :: bool
  par_status :: string
  par_row_count :: int
  par_min_ts :: "int option"
  par_max_ts :: "int option"
  par_checksum :: string
  par_error :: string

record rs_user =
  usr_id :: int
  usr_name :: string
  usr_password_hash :: string
  usr_password_algo :: string
  usr_plugin :: string
  usr_auth_string :: string
  usr_status :: string
  usr_builtin :: bool

record rs_role =
  rol_id :: int
  rol_name :: string
  rol_description :: string
  rol_builtin :: bool

record rs_user_role =
  ur_user :: int
  ur_role :: int
  ur_granted_by :: int

record rs_privilege =
  prv_id :: int
  prv_principal_type :: string
  prv_principal :: int
  prv_object_type :: string
  prv_object :: int
  prv_action :: string
  prv_granted_by :: int

record catalog =
  versions :: "rs_catalog_version list"
  allocs :: "rs_oid_alloc list"
  journal :: "rs_catalog_journal list"
  schemas :: "rs_schema list"
  types :: "rs_type list"
  relations :: "rs_relation list"
  cols :: "rs_column list"
  defaults :: "rs_column_default list"
  constraints :: "rs_constraint list"
  indexes :: "rs_index list"
  vectors :: "rs_vector_index list"
  depends :: "rs_dependency list"
  remarks :: "rs_comment list"
  exts :: "rs_relation_ext list"
  parts :: "rs_partition list"
  users :: "rs_user list"
  roles :: "rs_role list"
  user_roles :: "rs_user_role list"
  privileges :: "rs_privilege list"

definition empty_catalog :: catalog where
  "empty_catalog = \<lparr>versions = [], allocs = [], journal = [], schemas = [], types = [], relations = [],
     cols = [], defaults = [], constraints = [], indexes = [], vectors = [], depends = [], remarks = [],
     exts = [], parts = [], users = [], roles = [], user_roles = [], privileges = []\<rparr>"

section \<open>Inserting rows\<close>

text \<open>
  \<open>clash a b\<close>: the two rows agree on a primary key or a unique constraint. The insert
  of a row that clashes with a stored one fails.
\<close>

definition insert_row :: "('r \<Rightarrow> 'r \<Rightarrow> bool) \<Rightarrow> 'r \<Rightarrow> 'r list \<Rightarrow> 'r list option" where
  "insert_row clash r rows = (if list_ex (clash r) rows then None else Some (rows @ [r]))"

definition insert_version :: "rs_catalog_version \<Rightarrow> rs_catalog_version list \<Rightarrow> rs_catalog_version list option" where
  "insert_version = insert_row (\<lambda>a b. ver_id a = ver_id b)"

definition insert_alloc :: "rs_oid_alloc \<Rightarrow> rs_oid_alloc list \<Rightarrow> rs_oid_alloc list option" where
  "insert_alloc = insert_row (\<lambda>a b. al_id a = al_id b)"

definition insert_journal_row :: "rs_catalog_journal \<Rightarrow> rs_catalog_journal list \<Rightarrow> rs_catalog_journal list option" where
  "insert_journal_row = insert_row (\<lambda>a b. jr_id a = jr_id b)"

definition insert_schema :: "rs_schema \<Rightarrow> rs_schema list \<Rightarrow> rs_schema list option" where
  "insert_schema = insert_row (\<lambda>a b. sch_oid a = sch_oid b \<or> sch_name a = sch_name b)"

definition insert_type :: "rs_type \<Rightarrow> rs_type list \<Rightarrow> rs_type list option" where
  "insert_type = insert_row (\<lambda>a b. ty_oid a = ty_oid b
     \<or> ty_namespace a = ty_namespace b \<and> ty_name a = ty_name b)"

definition insert_comment :: "rs_comment \<Rightarrow> rs_comment list \<Rightarrow> rs_comment list option" where
  "insert_comment = insert_row (\<lambda>a b. com_objoid a = com_objoid b \<and> com_classoid a = com_classoid b
     \<and> com_objsubid a = com_objsubid b)"

definition insert_user :: "rs_user \<Rightarrow> rs_user list \<Rightarrow> rs_user list option" where
  "insert_user = insert_row (\<lambda>a b. usr_id a = usr_id b \<or> usr_name a = usr_name b)"

definition insert_role :: "rs_role \<Rightarrow> rs_role list \<Rightarrow> rs_role list option" where
  "insert_role = insert_row (\<lambda>a b. rol_id a = rol_id b \<or> rol_name a = rol_name b)"

definition insert_user_role :: "rs_user_role \<Rightarrow> rs_user_role list \<Rightarrow> rs_user_role list option" where
  "insert_user_role = insert_row (\<lambda>a b. ur_user a = ur_user b \<and> ur_role a = ur_role b)"

text \<open>The five columns of the unique constraint of \<^verbatim>\<open>rs_privilege\<close>.\<close>

definition prv_key :: "rs_privilege \<Rightarrow> string \<times> int \<times> string \<times> int \<times> string" where
  "prv_key p = (prv_principal_type p, prv_principal p, prv_object_type p, prv_object p, prv_action p)"

definition insert_privilege :: "rs_privilege \<Rightarrow> rs_privilege list \<Rightarrow> rs_privilege list option" where
  "insert_privilege = insert_row (\<lambda>a b. prv_id a = prv_id b \<or> prv_key a = prv_key b)"

definition insert_relation :: "rs_relation \<Rightarrow> rs_relation list \<Rightarrow> rs_relation list option" where
  "insert_relation = insert_row (\<lambda>a b. rel_oid a = rel_oid b
     \<or> rel_namespace a = rel_namespace b \<and> rel_name a = rel_name b)"

definition insert_column :: "rs_column \<Rightarrow> rs_column list \<Rightarrow> rs_column list option" where
  "insert_column = insert_row (\<lambda>a b. att_relid a = att_relid b \<and> att_num a = att_num b)"

definition insert_default :: "rs_column_default \<Rightarrow> rs_column_default list \<Rightarrow> rs_column_default list option" where
  "insert_default = insert_row (\<lambda>a b. def_oid a = def_oid b
     \<or> def_relid a = def_relid b \<and> def_num a = def_num b)"

definition insert_constraint_row :: "rs_constraint \<Rightarrow> rs_constraint list \<Rightarrow> rs_constraint list option" where
  "insert_constraint_row = insert_row (\<lambda>a b. con_oid a = con_oid b)"

definition insert_index :: "rs_index \<Rightarrow> rs_index list \<Rightarrow> rs_index list option" where
  "insert_index = insert_row (\<lambda>a b. idx_relid a = idx_relid b)"

text \<open>The six columns of the primary key of \<^verbatim>\<open>rs_dependency\<close>.\<close>

definition dep_key :: "rs_dependency \<Rightarrow> int \<times> int \<times> int \<times> int \<times> int \<times> int" where
  "dep_key d = (dep_classid d, dep_objid d, dep_objsubid d, dep_refclassid d, dep_refobjid d, dep_refobjsubid d)"

definition insert_dependency :: "rs_dependency \<Rightarrow> rs_dependency list \<Rightarrow> rs_dependency list option" where
  "insert_dependency = insert_row (\<lambda>a b. dep_key a = dep_key b)"

definition insert_ext :: "rs_relation_ext \<Rightarrow> rs_relation_ext list \<Rightarrow> rs_relation_ext list option" where
  "insert_ext = insert_row (\<lambda>a b. ext_relid a = ext_relid b)"

definition insert_partition :: "rs_partition \<Rightarrow> rs_partition list \<Rightarrow> rs_partition list option" where
  "insert_partition = insert_row (\<lambda>a b. par_parent a = par_parent b
     \<and> (par_child a = par_child b \<or> par_value a = par_value b))"

lemmas insert_defs =
  insert_relation_def insert_column_def insert_default_def insert_constraint_row_def insert_index_def
  insert_dependency_def insert_ext_def insert_partition_def
  insert_version_def insert_alloc_def insert_journal_row_def insert_schema_def insert_type_def
  insert_comment_def insert_user_def insert_role_def insert_user_role_def insert_privilege_def

section \<open>Keyed tables\<close>

text \<open>What a client of a table relies on: an accepted row is appended and its key is new.\<close>

locale unique_table =
  fixes key :: "'r \<Rightarrow> 'k"
    and ins :: "'r \<Rightarrow> 'r list \<Rightarrow> 'r list option"
  assumes ins_appends: "ins r rows = Some rows' \<Longrightarrow> rows' = rows @ [r]"
    and ins_fresh: "ins r rows = Some rows' \<Longrightarrow> key r \<notin> key ` set rows"
begin

definition lookup :: "'k \<Rightarrow> 'r list \<Rightarrow> 'r option" where
  "lookup k rows = List.find (\<lambda>r. key r = k) rows"

lemma distinct_ins: "distinct (map key rows) \<Longrightarrow> ins r rows = Some rows' \<Longrightarrow> distinct (map key rows')"
  using ins_appends ins_fresh by fastforce

lemma distinct_filter: "distinct (map key rows) \<Longrightarrow> distinct (map key (filter P rows))"
  by (rule distinct_map_filter)

lemma distinct_update:
  "distinct (map key rows) \<Longrightarrow> (\<And>r. P r \<Longrightarrow> key (f r) = key r) \<Longrightarrow> distinct (map key (update_where P f rows))"
  by (simp add: map_update_where)

lemma lookup_member: "distinct (map key rows) \<Longrightarrow> lookup k rows = Some r \<longleftrightarrow> r \<in> set rows \<and> key r = k"
  by (induction rows) (auto simp: lookup_def)

lemma lookup_append:
  "lookup k (rows @ [r]) = (case lookup k rows of None \<Rightarrow> if key r = k then Some r else None | Some x \<Rightarrow> Some x)"
  by (induction rows) (auto simp: lookup_def)

lemma lookup_None: "k \<notin> key ` set rows \<Longrightarrow> lookup k rows = None"
  by (auto simp: lookup_def find_None_iff)

lemma lookup_ins: "ins r rows = Some rows' \<Longrightarrow> lookup k rows' = (if k = key r then Some r else lookup k rows)"
  using ins_appends [of r rows rows'] ins_fresh [of r rows rows']
  by (auto simp: lookup_append lookup_None split: option.splits)

lemma lookup_filter_other:
  "(\<And>r. key r = k \<Longrightarrow> r \<in> set rows \<Longrightarrow> P r) \<Longrightarrow> lookup k (filter P rows) = lookup k rows"
  by (induction rows) (auto simp: lookup_def)

lemma key_inject: "distinct (map key rows) \<Longrightarrow> r \<in> set rows \<Longrightarrow> s \<in> set rows \<Longrightarrow> key r = key s \<Longrightarrow> r = s"
  by (simp add: distinct_map inj_on_def)

end

lemma insert_row_unique_table:
  assumes "\<And>a b. key a = key b \<Longrightarrow> clash a b"
  shows "unique_table key (insert_row clash)"
  by unfold_locales (auto simp: insert_row_def list_ex_iff assms split: if_splits)

interpretation version_ids: unique_table ver_id insert_version
  unfolding insert_version_def by (rule insert_row_unique_table) simp

interpretation alloc_ids: unique_table al_id insert_alloc
  unfolding insert_alloc_def by (rule insert_row_unique_table) simp

interpretation journal_ids: unique_table jr_id insert_journal_row
  unfolding insert_journal_row_def by (rule insert_row_unique_table) simp

interpretation schema_oids: unique_table sch_oid insert_schema
  unfolding insert_schema_def by (rule insert_row_unique_table) simp

interpretation schema_names: unique_table sch_name insert_schema
  unfolding insert_schema_def by (rule insert_row_unique_table) simp

interpretation type_oids: unique_table ty_oid insert_type
  unfolding insert_type_def by (rule insert_row_unique_table) simp

interpretation user_ids: unique_table usr_id insert_user
  unfolding insert_user_def by (rule insert_row_unique_table) simp

interpretation user_names: unique_table usr_name insert_user
  unfolding insert_user_def by (rule insert_row_unique_table) simp

interpretation role_ids: unique_table rol_id insert_role
  unfolding insert_role_def by (rule insert_row_unique_table) simp

interpretation role_names: unique_table rol_name insert_role
  unfolding insert_role_def by (rule insert_row_unique_table) simp

interpretation user_role_keys: unique_table "\<lambda>r. (ur_user r, ur_role r)" insert_user_role
  unfolding insert_user_role_def by (rule insert_row_unique_table) simp

interpretation privilege_ids: unique_table prv_id insert_privilege
  unfolding insert_privilege_def by (rule insert_row_unique_table) simp

interpretation privilege_keys: unique_table prv_key insert_privilege
  unfolding insert_privilege_def by (rule insert_row_unique_table) simp

interpretation comment_keys: unique_table "\<lambda>c. (com_objoid c, com_classoid c, com_objsubid c)" insert_comment
  unfolding insert_comment_def by (rule insert_row_unique_table) simp

interpretation relation_oids: unique_table rel_oid insert_relation
  unfolding insert_relation_def by (rule insert_row_unique_table) simp

interpretation relation_names: unique_table "\<lambda>r. (rel_namespace r, rel_name r)" insert_relation
  unfolding insert_relation_def by (rule insert_row_unique_table) simp

interpretation column_keys: unique_table "\<lambda>a. (att_relid a, att_num a)" insert_column
  unfolding insert_column_def by (rule insert_row_unique_table) simp

interpretation default_oids: unique_table def_oid insert_default
  unfolding insert_default_def by (rule insert_row_unique_table) simp

interpretation constraint_oids: unique_table con_oid insert_constraint_row
  unfolding insert_constraint_row_def by (rule insert_row_unique_table) simp

interpretation index_oids: unique_table idx_relid insert_index
  unfolding insert_index_def by (rule insert_row_unique_table) simp

interpretation dependency_keys: unique_table dep_key insert_dependency
  unfolding insert_dependency_def by (rule insert_row_unique_table) simp

interpretation ext_keys: unique_table ext_relid insert_ext
  unfolding insert_ext_def by (rule insert_row_unique_table) simp

interpretation partition_keys: unique_table "\<lambda>p. (par_parent p, par_child p)" insert_partition
  unfolding insert_partition_def by (rule insert_row_unique_table) simp

interpretation partition_values: unique_table "\<lambda>p. (par_parent p, par_value p)" insert_partition
  unfolding insert_partition_def by (rule insert_row_unique_table) simp

end
