(* ===== verification/Checksum.thy ===== *)
theory Checksum
  imports Catalog_Store Params "HOL-Library.List_Lexorder"
begin

text \<open>
  The catalog checksum: \<^verbatim>\<open>src/catalog/checksum.rs\<close>. Every table is read in the order of
  its key, every cell is turned into text, and the texts are fed with their lengths to a
  64-bit FNV-1a hash. Main result: the byte stream that is hashed determines the list of
  texts, so two catalogs with different texts differ before hashing.
\<close>

section \<open>FNV-1a\<close>

definition FNV64_OFFSET :: "64 word" where "FNV64_OFFSET = 0xcbf29ce484222325"
definition FNV64_PRIME :: "64 word" where "FNV64_PRIME = 0x00000100000001b3"

definition hash_checksum_bytes :: "string \<Rightarrow> 64 word \<Rightarrow> 64 word" where
  "hash_checksum_bytes bytes state = fold (\<lambda>c st. xor st (of_nat (byte c)) * FNV64_PRIME) bytes state"

definition hash_checksum_part :: "string \<Rightarrow> 64 word \<Rightarrow> 64 word" where
  "hash_checksum_part value state =
     hash_checksum_bytes '';'' (hash_checksum_bytes value
       (hash_checksum_bytes '':'' (hash_checksum_bytes (show_nat (length value)) state)))"

section \<open>Cells\<close>

definition cell_bool :: "bool \<Rightarrow> string" where "cell_bool b = (if b then ''true'' else ''false'')"

definition cell_timestamp :: "int option \<Rightarrow> string" where
  "cell_timestamp t = (case t of None \<Rightarrow> ''<null>'' | Some v \<Rightarrow> show_int v @ '' Microsecond'')"

definition version_cells :: "rs_catalog_version \<Rightarrow> string list" where
  "version_cells r = [show_int (ver_id r), show_int (ver_schema_version r),
     show_int (ver_snapshot_format r), show_int (ver_epoch r), ver_status r]"

definition alloc_cells :: "rs_oid_alloc \<Rightarrow> string list" where
  "alloc_cells r = [show_int (al_id r), show_int (al_next_oid r)]"

definition journal_cells :: "rs_catalog_journal \<Rightarrow> string list" where
  "journal_cells r = [show_int (jr_id r), show_int (jr_epoch r), jr_mutation_type r,
     show_int (jr_target_oid r), jr_request r, jr_status r, jr_error r]"

definition schema_cells :: "rs_schema \<Rightarrow> string list" where
  "schema_cells r = [show_int (sch_oid r), sch_name r, show_int (sch_owner r), sch_acl r]"

definition type_cells :: "rs_type \<Rightarrow> string list" where
  "type_cells r = [show_int (ty_oid r), ty_name r, show_int (ty_namespace r), show_int (ty_owner r),
     show_int (ty_len r), cell_bool (ty_byval r), ty_type r, ty_category r, cell_bool (ty_isdefined r),
     show_int (ty_relid r), show_int (ty_elem r), show_int (ty_array r), ty_physical r]"

definition relation_cells :: "float_fmt \<Rightarrow> rs_relation \<Rightarrow> string list" where
  "relation_cells F r = [show_int (rel_oid r), rel_name r, show_int (rel_namespace r), show_int (rel_type r),
     show_int (rel_owner r), rel_kind r, rel_persistence r, show_int (rel_natts r), show_f64 F (rel_tuples r),
     cell_bool (rel_hasindex r), cell_bool (rel_ispartition r), rel_partbound r, rel_options r,
     rel_status r, rel_error r]"

definition column_cells :: "rs_column \<Rightarrow> string list" where
  "column_cells r = [show_int (att_relid r), att_name r, show_int (att_typid r), show_int (att_num r),
     show_int (att_typmod r), cell_bool (att_notnull r), cell_bool (att_hasdef r), cell_bool (att_isdropped r),
     att_identity r, att_generated r, att_options r]"

definition default_cells :: "rs_column_default \<Rightarrow> string list" where
  "default_cells r = [show_int (def_oid r), show_int (def_relid r), show_int (def_num r), def_bin r]"

definition constraint_cells :: "rs_constraint \<Rightarrow> string list" where
  "constraint_cells r = [show_int (con_oid r), con_name r, show_int (con_namespace r), con_type r,
     show_int (con_relid r), show_int (con_indid r), con_key r, show_int (con_frelid r), con_fkey r,
     cell_bool (con_validated r), con_bin r]"

definition index_cells :: "rs_index \<Rightarrow> string list" where
  "index_cells r = [show_int (idx_relid r), show_int (idx_indrelid r), show_int (idx_natts r),
     show_int (idx_nkeyatts r), cell_bool (idx_isunique r), cell_bool (idx_isprimary r),
     cell_bool (idx_isvalid r), idx_key r, idx_exprs r, idx_pred r]"

definition vector_cells :: "rs_vector_index \<Rightarrow> string list" where
  "vector_cells r = [show_int (vx_relid r), vx_space r, vx_embedding_model r, vx_model_version r,
     show_int (vx_dimension r), vx_metric r, show_int (vx_m r), show_int (vx_m0 r),
     show_int (vx_ef_construction r), show_int (vx_ef_search r), show_int (vx_definition_version r),
     show_int (vx_generation r), vx_extension_version r, vx_build_status r, show_int (vx_vector_count r),
     vx_error r]"

definition dependency_cells :: "rs_dependency \<Rightarrow> string list" where
  "dependency_cells r = [show_int (dep_classid r), show_int (dep_objid r), show_int (dep_objsubid r),
     show_int (dep_refclassid r), show_int (dep_refobjid r), show_int (dep_refobjsubid r), dep_type r]"

definition comment_cells :: "rs_comment \<Rightarrow> string list" where
  "comment_cells r = [show_int (com_objoid r), show_int (com_classoid r), show_int (com_objsubid r),
     com_description r]"

definition ext_cells :: "rs_relation_ext \<Rightarrow> string list" where
  "ext_cells r = [show_int (ext_relid r), ext_managed_kind r, ext_storage_mode r, ext_visibility r,
     ext_partition_key r, ext_partition_key_type r, ext_partition_unit r, show_int (ext_retention_count r),
     ext_generated_sql r, ext_properties r]"

definition partition_cells :: "rs_partition \<Rightarrow> string list" where
  "partition_cells r = [show_int (par_parent r), show_int (par_child r), par_value r, par_unit r,
     cell_timestamp (par_lower r), cell_timestamp (par_upper r), cell_bool (par_is_null r), par_status r,
     show_int (par_row_count r), cell_timestamp (par_min_ts r), cell_timestamp (par_max_ts r),
     par_checksum r, par_error r]"

definition user_cells :: "rs_user \<Rightarrow> string list" where
  "user_cells r = [show_int (usr_id r), usr_name r, usr_password_hash r, usr_password_algo r,
     usr_plugin r, usr_auth_string r, usr_status r, cell_bool (usr_builtin r)]"

definition role_cells :: "rs_role \<Rightarrow> string list" where
  "role_cells r = [show_int (rol_id r), rol_name r, rol_description r, cell_bool (rol_builtin r)]"

definition user_role_cells :: "rs_user_role \<Rightarrow> string list" where
  "user_role_cells r = [show_int (ur_user r), show_int (ur_role r), show_int (ur_granted_by r)]"

definition privilege_cells :: "rs_privilege \<Rightarrow> string list" where
  "privilege_cells r = [show_int (prv_id r), prv_principal_type r, show_int (prv_principal r),
     prv_object_type r, show_int (prv_object r), prv_action r, show_int (prv_granted_by r)]"

section \<open>The queries\<close>

text \<open>Each table with the rows of its ORDER BY query, as texts.\<close>

definition catalog_checksum_queries :: "float_fmt \<Rightarrow> (string \<times> (catalog \<Rightarrow> string list list)) list" where
  "catalog_checksum_queries F =
    [(''rs_catalog_version'', \<lambda>c. map version_cells (sort_key ver_id (versions c))),
     (''rs_oid_alloc'', \<lambda>c. map alloc_cells (sort_key al_id (allocs c))),
     (''rs_catalog_journal'', \<lambda>c. map journal_cells (sort_key jr_id (journal c))),
     (''rs_schema'', \<lambda>c. map schema_cells (sort_key sch_oid (schemas c))),
     (''rs_type'', \<lambda>c. map type_cells (sort_key ty_oid (types c))),
     (''rs_relation'', \<lambda>c. map (relation_cells F) (sort_key rel_oid (relations c))),
     (''rs_column'', \<lambda>c. map column_cells (sort_key (\<lambda>r. [att_relid r, att_num r]) (cols c))),
     (''rs_column_default'', \<lambda>c. map default_cells (sort_key def_oid (defaults c))),
     (''rs_constraint'', \<lambda>c. map constraint_cells (sort_key con_oid (constraints c))),
     (''rs_index'', \<lambda>c. map index_cells (sort_key idx_relid (indexes c))),
     (''rs_vector_index'', \<lambda>c. map vector_cells (sort_key vx_relid (vectors c))),
     (''rs_dependency'', \<lambda>c. map dependency_cells (sort_key (\<lambda>r. [dep_classid r, dep_objid r, dep_objsubid r,
        dep_refclassid r, dep_refobjid r, dep_refobjsubid r]) (depends c))),
     (''rs_comment'', \<lambda>c. map comment_cells (sort_key (\<lambda>r. [com_objoid r, com_classoid r, com_objsubid r]) (remarks c))),
     (''rs_relation_ext'', \<lambda>c. map ext_cells (sort_key ext_relid (exts c))),
     (''rs_partition'', \<lambda>c. map partition_cells (sort_key (\<lambda>r. [par_parent r, par_child r]) (parts c))),
     (''rs_user'', \<lambda>c. map user_cells (sort_key usr_id (users c))),
     (''rs_role'', \<lambda>c. map role_cells (sort_key rol_id (roles c))),
     (''rs_user_role'', \<lambda>c. map user_role_cells (sort_key (\<lambda>r. [ur_user r, ur_role r]) (user_roles c))),
     (''rs_privilege'', \<lambda>c. map privilege_cells (sort_key prv_id (privileges c)))]"

definition hash_rows :: "string list list \<Rightarrow> 64 word \<Rightarrow> 64 word" where
  "hash_rows rows state =
     fold (\<lambda>row st. fold hash_checksum_part row (hash_checksum_part ''row'' st)) rows state"

definition show_hex16 :: "64 word \<Rightarrow> string" where
  "show_hex16 w = map (\<lambda>i. hex_char (unat w div 16 ^ i mod 16)) (rev [0..<16])"

definition hash_catalog :: "float_fmt \<Rightarrow> catalog \<Rightarrow> 64 word" where
  "hash_catalog F c = fold (\<lambda>(label, q) st. hash_rows (q c) (hash_checksum_part label st))
     (catalog_checksum_queries F) FNV64_OFFSET"

definition checksum :: "float_fmt \<Rightarrow> catalog \<Rightarrow> string" where
  "checksum F c = ''fnv1a64:'' @ show_hex16 (hash_catalog F c)"

section \<open>The stream that is hashed\<close>

definition checksum_parts :: "float_fmt \<Rightarrow> catalog \<Rightarrow> string list" where
  "checksum_parts F c = concat (map (\<lambda>(label, q). label # concat (map ((#) ''row'') (q c)))
     (catalog_checksum_queries F))"

definition part_bytes :: "string \<Rightarrow> string" where
  "part_bytes v = show_nat (length v) @ '':'' @ v @ '';''"

definition part_stream :: "string list \<Rightarrow> string" where
  "part_stream ps = concat (map part_bytes ps)"

lemma hash_part_stream: "fold hash_checksum_part ps st = hash_checksum_bytes (part_stream ps) st"
  by (induction ps arbitrary: st)
    (simp_all add: part_stream_def hash_checksum_part_def part_bytes_def hash_checksum_bytes_def)

lemma hash_rows_parts: "hash_rows rows st = fold hash_checksum_part (concat (map ((#) ''row'') rows)) st"
  by (induction rows arbitrary: st) (simp_all add: hash_rows_def)

lemma hash_catalog_stream: "hash_catalog F c = hash_checksum_bytes (part_stream (checksum_parts F c)) FNV64_OFFSET"
proof -
  have "fold (\<lambda>(label, q) st. hash_rows (q c) (hash_checksum_part label st)) qs st
      = fold hash_checksum_part (concat (map (\<lambda>(label, q). label # concat (map ((#) ''row'') (q c))) qs)) st"
    for qs :: "(string \<times> (catalog \<Rightarrow> string list list)) list" and st
    by (induction qs arbitrary: st) (auto simp: hash_rows_parts)
  then show ?thesis
    by (simp only: hash_catalog_def checksum_parts_def hash_part_stream)
qed

lemma part_bytes_prefix:
  assumes "part_bytes a @ r = part_bytes b @ s"
  shows "a = b \<and> r = s"
proof -
  have colon: "CHR '':'' \<notin> set (show_nat n)" for n
    by (rule not_digit_show_nat) (simp add: is_digit_def)
  from assms have "split_once (CHR '':'') (show_nat (length a) @ CHR '':'' # a @ '';'' @ r)
      = split_once (CHR '':'') (show_nat (length b) @ CHR '':'' # b @ '';'' @ s)"
    by (simp add: part_bytes_def)
  then have "show_nat (length a) = show_nat (length b)" "a @ '';'' @ r = b @ '';'' @ s"
    using split_once_append [OF colon] by simp_all
  then show ?thesis by simp
qed

lemma part_stream_inject: "part_stream ps = part_stream qs \<Longrightarrow> ps = qs"
proof (induction ps arbitrary: qs)
  case Nil
  then show ?case by (cases qs) (auto simp: part_stream_def part_bytes_def)
next
  case (Cons p ps)
  then obtain q qs' where qs: "qs = q # qs'"
    by (cases qs) (auto simp: part_stream_def part_bytes_def)
  with Cons.prems have "p = q \<and> part_stream ps = part_stream qs'"
    by (intro part_bytes_prefix) (simp add: part_stream_def)
  with Cons.IH qs show ?case by blast
qed

section \<open>Properties\<close>

text \<open>C24: The checksum is the FNV-1a hash of a byte stream that determines every label and cell text
  of every table: two catalogs feed the same stream only if all their texts agree, so no moving of
  bytes between neighbouring cells, rows or tables goes unnoticed before hashing.\<close>

theorem checksum_stream_injective:
  "checksum F c = ''fnv1a64:'' @ show_hex16 (hash_checksum_bytes (part_stream (checksum_parts F c)) FNV64_OFFSET)
   \<and> (part_stream (checksum_parts F c) = part_stream (checksum_parts F c')
      \<longleftrightarrow> checksum_parts F c = checksum_parts F c')"
  using part_stream_inject by (auto simp: checksum_def hash_catalog_stream)

end
