(* ===== verification/Calendar.thy ===== *)
theory Calendar
  imports Sql_Value
begin

text \<open>
  The calendar operations the partition code takes from the chrono crate: parsing with a format, checked
  construction of dates, addition of hours and days, and the text and engine value of a point in time. They are a
  parameter of the model, the record \<open>calendar\<close>; the locale \<open>calendar_laws\<close> states what
  chrono documents of them, and \<open>gregorian\<close> is an instance.
\<close>

type_synonym naive_datetime = "naive_date \<times> naive_time"

definition date_of :: "int \<Rightarrow> nat \<Rightarrow> nat \<Rightarrow> naive_date" where
  "date_of y m d = \<lparr>d_year = y, d_month = m, d_day = d\<rparr>"

definition time_of :: "nat \<Rightarrow> nat \<Rightarrow> nat \<Rightarrow> nat \<Rightarrow> naive_time" where
  "time_of h m s n = \<lparr>t_hour = h, t_minute = m, t_second = s, t_nanos = n\<rparr>"

definition midnight :: naive_time where
  "midnight = time_of 0 0 0 0"

text \<open>\<open>None\<close> of \<open>cal_add_hours\<close> and \<open>cal_add_days\<close> is the overflow, on which \<^verbatim>\<open>+\<close> panics.\<close>

record calendar =
  cal_date :: "string \<Rightarrow> string \<Rightarrow> naive_date option"  \<comment> \<open>\<^verbatim>\<open>NaiveDate::parse_from_str\<close>, format first\<close>
  cal_datetime :: "string \<Rightarrow> string \<Rightarrow> naive_datetime option"
  cal_ymd :: "int \<Rightarrow> nat \<Rightarrow> nat \<Rightarrow> naive_date option"
  cal_hms :: "naive_date \<Rightarrow> nat \<Rightarrow> nat \<Rightarrow> nat \<Rightarrow> naive_datetime option"
  cal_add_hours :: "naive_datetime \<Rightarrow> int \<Rightarrow> naive_datetime option"
  cal_add_days :: "naive_datetime \<Rightarrow> int \<Rightarrow> naive_datetime option"
  cal_from_timestamp :: "int \<Rightarrow> nat \<Rightarrow> naive_datetime option"
  cal_date_plus :: "naive_date \<Rightarrow> int \<Rightarrow> naive_date option"  \<comment> \<open>\<^verbatim>\<open>checked_add_signed(Duration::days(n))\<close>\<close>
  cal_text :: "naive_datetime \<Rightarrow> string"
  cal_micros :: "naive_datetime \<Rightarrow> int"

section \<open>Values of the engine\<close>

text \<open>\<^verbatim>\<open>ValueRef\<close> of the duckdb crate, the integer widths taken together; the text of a decimal is
  what it prints, and text is UTF-8 as the engine stores it.\<close>

datatype time_unit = Second | Millisecond | Microsecond | Nanosecond

datatype value_ref =
    RNull | RBoolean bool | RInteger int | RFloat "32 word" | RDouble "64 word" | RDecimal string
  | RTimestamp time_unit "64 word" | RText string | RDate32 "32 word" | RTime64 time_unit "64 word"
  | RBlob | RInterval | ROther

section \<open>Dates\<close>

definition leap_year :: "int \<Rightarrow> bool" where
  "leap_year y \<longleftrightarrow> y mod 4 = 0 \<and> (y mod 100 \<noteq> 0 \<or> y mod 400 = 0)"

definition month_days :: "int \<Rightarrow> nat \<Rightarrow> nat" where
  "month_days y m = (if m \<in> {4, 6, 9, 11} then 30 else if m = 2 then (if leap_year y then 29 else 28) else 31)"

definition valid_date :: "naive_date \<Rightarrow> bool" where
  "valid_date d \<longleftrightarrow> 1 \<le> d_month d \<and> d_month d \<le> 12 \<and> 1 \<le> d_day d \<and> d_day d \<le> month_days (d_year d) (d_month d)"

definition valid_time :: "naive_time \<Rightarrow> bool" where
  "valid_time t \<longleftrightarrow> t_hour t < 24 \<and> t_minute t < 60 \<and> t_second t < 60 \<and> t_nanos t < 10 ^ 9"

definition next_day :: "naive_date \<Rightarrow> naive_date" where
  "next_day d = (if d_day d < month_days (d_year d) (d_month d) then d\<lparr>d_day := d_day d + 1\<rparr>
     else if d_month d < 12 then date_of (d_year d) (d_month d + 1) 1 else date_of (d_year d + 1) 1 1)"

text \<open>Chronological order.\<close>

definition earlier_date :: "naive_date \<Rightarrow> naive_date \<Rightarrow> bool" where
  "earlier_date a b \<longleftrightarrow> d_year a < d_year b \<or> d_year a = d_year b \<and>
     (d_month a < d_month b \<or> d_month a = d_month b \<and> d_day a < d_day b)"

definition earlier_time :: "naive_time \<Rightarrow> naive_time \<Rightarrow> bool" where
  "earlier_time a b \<longleftrightarrow> t_hour a < t_hour b \<or> t_hour a = t_hour b \<and> (t_minute a < t_minute b \<or> t_minute a = t_minute b \<and>
     (t_second a < t_second b \<or> t_second a = t_second b \<and> t_nanos a < t_nanos b))"

definition earlier :: "naive_datetime \<Rightarrow> naive_datetime \<Rightarrow> bool" where
  "earlier a b \<longleftrightarrow> earlier_date (fst a) (fst b) \<or> fst a = fst b \<and> earlier_time (snd a) (snd b)"

definition not_later :: "naive_datetime \<Rightarrow> naive_datetime \<Rightarrow> bool" where
  "not_later a b \<longleftrightarrow> a = b \<or> earlier a b"

lemma earlier_next_day: "earlier_date d (next_day d)"
  by (simp add: earlier_date_def next_day_def date_of_def)

lemma valid_next_day: "valid_date d \<Longrightarrow> valid_date (next_day d)"
  by (auto simp: valid_date_def next_day_def date_of_def month_days_def)

section \<open>What chrono documents\<close>

text \<open>The formats of the partition values. A date and time is not read from a format without minutes.\<close>

locale calendar_laws =
  fixes K :: calendar
  assumes ymd: "0 \<le> y \<Longrightarrow> y \<le> 10000 \<Longrightarrow> cal_ymd K y m d = (if valid_date (date_of y m d) then Some (date_of y m d) else None)"
    and hms: "h < 24 \<Longrightarrow> mi < 60 \<Longrightarrow> s < 60 \<Longrightarrow> cal_hms K a h mi s = Some (a, time_of h mi s 0)"
    and compact_date: "valid_date a \<Longrightarrow> 0 \<le> d_year a \<Longrightarrow> d_year a \<le> 9999 \<Longrightarrow>
      cal_date K ''%Y%m%d'' (pad0 4 (nat (d_year a)) @ pad0 2 (d_month a) @ pad0 2 (d_day a)) = Some a"
    and no_minutes: "cal_datetime K ''%Y%m%d%H'' v = None"
    and one_day: "valid_date a \<Longrightarrow> 0 \<le> d_year a \<Longrightarrow> d_year a \<le> 9999 \<Longrightarrow> cal_add_days K (a, t) 1 = Some (next_day a, t)"

section \<open>An instance\<close>

definition digits_value :: "string \<Rightarrow> nat option" where
  "digits_value s = (if s \<noteq> [] \<and> list_all is_digit s then digits_from 0 s else None)"

definition read_fields :: "string \<Rightarrow> string \<Rightarrow> string \<Rightarrow> naive_date option" where
  "read_fields y m d = (case (digits_value y, digits_value m, digits_value d) of
     (Some y, Some m, Some d) \<Rightarrow> if valid_date (date_of (int y) m d) then Some (date_of (int y) m d) else None
   | _ \<Rightarrow> None)"

definition gregorian_date :: "string \<Rightarrow> string \<Rightarrow> naive_date option" where
  "gregorian_date fmt s =
     (if fmt = ''%Y%m%d'' \<and> length s = 8 then read_fields (take 4 s) (take 2 (drop 4 s)) (drop 6 s)
      else if fmt = ''%Y-%m-%d'' \<and> length s = 10 \<and> s ! 4 = CHR ''-'' \<and> s ! 7 = CHR ''-''
      then read_fields (take 4 s) (take 2 (drop 5 s)) (drop 8 s) else None)"

definition gregorian :: calendar where
  "gregorian = \<lparr>cal_date = gregorian_date, cal_datetime = (\<lambda>_ _. None),
     cal_ymd = (\<lambda>y m d. if valid_date (date_of y m d) then Some (date_of y m d) else None),
     cal_hms = (\<lambda>a h mi s. if h < 24 \<and> mi < 60 \<and> s < 60 then Some (a, time_of h mi s 0) else None),
     cal_add_hours = (\<lambda>(a, t) n. if n = 1 \<and> t_hour t < 23 then Some (a, t\<lparr>t_hour := t_hour t + 1\<rparr>) else None),
     cal_add_days = (\<lambda>(a, t) n. if n = 1 then Some (next_day a, t) else None),
     cal_from_timestamp = (\<lambda>_ _. None), cal_date_plus = (\<lambda>a n. if n = 1 then Some (next_day a) else None), cal_text = (\<lambda>(a, t). format_date a),
     cal_micros = (\<lambda>(a, t). ((d_year a * 12 + int (d_month a)) * 31 + int (d_day a)) * 24 + int (t_hour t))\<rparr>"

lemma pad0_digits: "c \<in> set (pad0 w n) \<Longrightarrow> is_digit c"
  using show_nat_digits by (auto simp: pad0_def is_digit_def)

lemma digits_from_zeros: "digits_from 0 (replicate k (CHR ''0'') @ s) = digits_from 0 s"
  by (induction k) (simp_all add: digit_val_def is_digit_def)

lemma digits_value_pad0: "0 < w \<Longrightarrow> digits_value (pad0 w n) = Some n"
proof -
  have "pad0 w n \<noteq> []" by (simp add: pad0_def)
  moreover have "list_all is_digit (pad0 w n)" using pad0_digits by (auto simp: list_all_iff)
  moreover have "digits_from 0 (pad0 w n) = Some n" unfolding pad0_def digits_from_zeros by (rule digits_from_show_nat)
  ultimately show ?thesis by (simp add: digits_value_def)
qed

lemma length_show_nat: "n < 10 ^ w \<Longrightarrow> 0 < w \<Longrightarrow> length (show_nat n) \<le> w"
proof (induction w arbitrary: n)
  case (Suc w)
  show ?case
  proof (cases "n < 10")
    case True
    then show ?thesis by (subst show_nat.simps) simp
  next
    case False
    then have "0 < w" using Suc.prems(1) by (cases w) simp_all
    then have "length (show_nat (n div 10)) \<le> w" using Suc by (simp add: div_less_iff_less_mult mult.commute)
    then show ?thesis using False by (subst show_nat.simps) simp
  qed
qed simp

lemma length_pad0: "n < 10 ^ w \<Longrightarrow> 0 < w \<Longrightarrow> length (pad0 w n) = w"
  using length_show_nat [of n w] by (simp add: pad0_def)

interpretation gregorian: calendar_laws gregorian
proof
  fix a assume v: "valid_date a" "0 \<le> d_year a" "d_year a \<le> 9999"
  let ?y = "pad0 4 (nat (d_year a))" and ?m = "pad0 2 (d_month a)" and ?d = "pad0 2 (d_day a)"
  have "month_days (d_year a) (d_month a) \<le> 31" by (simp add: month_days_def)
  then have "d_day a < 100" "d_month a < 100" using v(1) unfolding valid_date_def by linarith+
  then have len: "length ?y = 4" "length ?m = 2" "length ?d = 2" using v by (simp_all add: length_pad0)
  have a: "date_of (d_year a) (d_month a) (d_day a) = a" by (simp add: date_of_def)
  have "int (nat (d_year a)) = d_year a" using v by simp
  then have "read_fields ?y ?m ?d = Some a"
    using v a by (simp add: read_fields_def digits_value_pad0)
  then show "cal_date gregorian ''%Y%m%d'' (?y @ ?m @ ?d) = Some a"
    using len by (simp add: gregorian_def gregorian_date_def)
qed (simp_all add: gregorian_def)

end
