(* ===== verification/Db.thy ===== *)
theory Db
  imports Checksum Calendar
begin

text \<open>
  The connection the catalog code works on, with \<^verbatim>\<open>src/catalog/journal.rs\<close>,
  \<^verbatim>\<open>src/catalog/oid.rs\<close> and the state-changing half of
  \<^verbatim>\<open>src/catalog/checksum.rs\<close>. The engine is a parameter: what a DDL statement does to
  the physical objects, how it lowers text, what a query a user wrote answers (column count and
  rows), and which statements fail for reasons the code
  cannot see (\<open>x_fails\<close>, by the number of statements run before). A transaction keeps
  the state it began with; ROLLBACK and a failed COMMIT return to it. Main results: a catalog
  transaction that reports an error leaves the committed state as it was, whatever statement
  failed, and one that succeeds leaves none open.
\<close>

text \<open>What the engine's own table functions show of the physical objects, as the code reads them:
  tables, views, indexes (schema and name), the columns of a relation, and the version of the loaded
  vector extension.\<close>

record duck_column =
  dc_name :: string
  dc_type :: string
  dc_nullable :: bool
  dc_default :: "string option"
  dc_index :: int

record physical =
  ph_tables :: "(string \<times> string) list"
  ph_views :: "(string \<times> string) list"
  ph_indexes :: "(string \<times> string) list"
  ph_columns :: "(string \<times> string \<times> duck_column) list"
  ph_vss :: "string option"

definition no_objects :: physical where
  "no_objects = \<lparr>ph_tables = [], ph_views = [], ph_indexes = [], ph_columns = [], ph_vss = None\<rparr>"

record 'p external =
  x_lower :: "string \<Rightarrow> string"
  x_phys :: "'p \<Rightarrow> physical"
  x_ddl :: "string \<Rightarrow> 'p \<Rightarrow> 'p option"
  x_fails :: "nat \<Rightarrow> bool"
  x_hashes :: hashes
  x_parser :: sqlparser
  x_fmt :: float_fmt
  x_message :: "err \<Rightarrow> string"
  x_cal :: calendar
  x_select :: "string \<Rightarrow> catalog \<Rightarrow> 'p \<Rightarrow> (nat \<times> value_ref list list) option"

record 'p conn =
  cat :: catalog
  phys :: 'p
  saved :: "(catalog \<times> 'p) option"
  ops :: nat

type_synonym ('p, 'a) db = "('p conn, err, 'a) cmd"

definition committed :: "'p conn \<Rightarrow> catalog \<times> 'p" where
  "committed s = (case saved s of None \<Rightarrow> (cat s, phys s) | Some x \<Rightarrow> x)"

section \<open>Statements\<close>

definition tick :: "'p conn \<Rightarrow> 'p conn" where
  "tick s = s\<lparr>ops := ops s + 1\<rparr>"

text \<open>One statement: it fails without effect, or it answers and changes the state.\<close>

definition stmt :: "'p external \<Rightarrow> string \<Rightarrow> ('p conn \<Rightarrow> ('a \<times> 'p conn) option) \<Rightarrow> ('p, 'a) db" where
  "stmt X what f s =
     (if x_fails X (ops s) then (Inl (EDb what), tick s)
      else (case f (tick s) of None \<Rightarrow> (Inl (EDb what), tick s) | Some (v, s') \<Rightarrow> (Inr v, s')))"

definition cquery :: "'p external \<Rightarrow> string \<Rightarrow> (catalog \<Rightarrow> 'a) \<Rightarrow> ('p, 'a) db" where
  "cquery X what f = stmt X what (\<lambda>s. Some (f (cat s), s))"

text \<open>\<^verbatim>\<open>query_row\<close>: no row is an error.\<close>

definition cquery_row :: "'p external \<Rightarrow> string \<Rightarrow> (catalog \<Rightarrow> 'a option) \<Rightarrow> ('p, 'a) db" where
  "cquery_row X what f = stmt X what (\<lambda>s. map_option (\<lambda>v. (v, s)) (f (cat s)))"

definition cexec :: "'p external \<Rightarrow> string \<Rightarrow> (catalog \<Rightarrow> catalog option) \<Rightarrow> ('p, unit) db" where
  "cexec X what g = stmt X what (\<lambda>s. map_option (\<lambda>c. ((), s\<lparr>cat := c\<rparr>)) (g (cat s)))"

text \<open>A statement that reports how many rows it changed.\<close>

definition cexec_count :: "'p external \<Rightarrow> string \<Rightarrow> (catalog \<Rightarrow> nat \<times> catalog) \<Rightarrow> ('p, nat) db" where
  "cexec_count X what g = stmt X what (\<lambda>s. let (n, c) = g (cat s) in Some (n, s\<lparr>cat := c\<rparr>))"

definition cddl :: "'p external \<Rightarrow> string \<Rightarrow> string \<Rightarrow> ('p, unit) db" where
  "cddl X what sql = stmt X what (\<lambda>s. map_option (\<lambda>p. ((), s\<lparr>phys := p\<rparr>)) (x_ddl X sql (phys s)))"

text \<open>A query of the engine's table functions.\<close>

definition cphys :: "'p external \<Rightarrow> string \<Rightarrow> (physical \<Rightarrow> 'a) \<Rightarrow> ('p, 'a) db" where
  "cphys X what f = stmt X what (\<lambda>s. Some (f (x_phys X (phys s)), s))"

section \<open>Transactions\<close>

definition tx_begin :: "'p external \<Rightarrow> ('p, unit) db" where
  "tx_begin X = stmt X ''begin catalog mutation failed''
     (\<lambda>s. if saved s = None then Some ((), s\<lparr>saved := Some (cat s, phys s)\<rparr>) else None)"

definition restore :: "'p conn \<Rightarrow> 'p conn" where
  "restore s = (case saved s of None \<Rightarrow> s | Some (c, p) \<Rightarrow> s\<lparr>cat := c, phys := p, saved := None\<rparr>)"

text \<open>A failed COMMIT aborts the transaction, as the engine documents.\<close>

definition tx_commit :: "'p external \<Rightarrow> ('p, unit) db" where
  "tx_commit X s =
     (if x_fails X (ops s) then (Inl (EDb ''commit catalog mutation failed''), restore (tick s))
      else (Inr (), (tick s)\<lparr>saved := None\<rparr>))"

definition tx_rollback :: "'p external \<Rightarrow> 'p conn \<Rightarrow> 'p conn" where
  "tx_rollback X s = (if x_fails X (ops s) then tick s else restore (tick s))"

text \<open>An error rolls back; a panic unwinds through this function and leaves the transaction open.\<close>

definition run_catalog_tx :: "'p external \<Rightarrow> ('p, 'a) db \<Rightarrow> ('p, 'a) db" where
  "run_catalog_tx X f = cbind (tx_begin X) (\<lambda>_ s.
     case f s of
       (Inr v, s') \<Rightarrow> cbind (tx_commit X) (\<lambda>_. creturn v) s'
     | (Inl e, s') \<Rightarrow> (Inl e, if e = EPanic then s' else tx_rollback X s'))"

section \<open>Triples for the body of a transaction\<close>

text \<open>
  From a catalog in \<open>A\<close>, the computation ends in \<open>Q\<close> or fails, and in both
  cases the saved state is the one it started with.
\<close>

definition body_spec :: "(catalog \<Rightarrow> bool) \<Rightarrow> ('p, 'a) db \<Rightarrow> ('a \<Rightarrow> catalog \<Rightarrow> bool) \<Rightarrow> bool" where
  "body_spec A m Q \<longleftrightarrow>
     (\<forall>s r s'. A (cat s) \<longrightarrow> m s = (r, s') \<longrightarrow> saved s' = saved s \<and> (\<forall>v. r = Inr v \<longrightarrow> Q v (cat s')))"

named_theorems body_rules "rules for body_spec"

lemma tick_simps [simp]: "cat (tick s) = cat s" "phys (tick s) = phys s" "saved (tick s) = saved s"
  by (simp_all add: tick_def)

lemma body_specI:
  "(\<And>s r s'. A (cat s) \<Longrightarrow> m s = (r, s') \<Longrightarrow> saved s' = saved s \<and> (\<forall>v. r = Inr v \<longrightarrow> Q v (cat s'))) \<Longrightarrow>
   body_spec A m Q"
  unfolding body_spec_def by blast

lemma body_specD:
  "body_spec A m Q \<Longrightarrow> A (cat s) \<Longrightarrow> m s = (r, s') \<Longrightarrow> saved s' = saved s \<and> (\<forall>v. r = Inr v \<longrightarrow> Q v (cat s'))"
  unfolding body_spec_def by blast

lemma body_conseq:
  "body_spec A' m Q' \<Longrightarrow> (\<And>c. A c \<Longrightarrow> A' c) \<Longrightarrow> (\<And>v c. Q' v c \<Longrightarrow> Q v c) \<Longrightarrow> body_spec A m Q"
  unfolding body_spec_def by blast

lemma body_conj: "body_spec A m Q \<Longrightarrow> body_spec A m R \<Longrightarrow> body_spec A m (\<lambda>v c. Q v c \<and> R v c)"
  unfolding body_spec_def by blast

lemma body_stmt:
  assumes "\<And>s v s'. A (cat s) \<Longrightarrow> f s = Some (v, s') \<Longrightarrow> saved s' = saved s \<and> Q v (cat s')"
  shows "body_spec A (stmt X what f) Q"
proof (rule body_specI)
  fix s r s' assume "A (cat s)" "stmt X what f s = (r, s')"
  then show "saved s' = saved s \<and> (\<forall>v. r = Inr v \<longrightarrow> Q v (cat s'))"
    using assms [of "tick s"]
    by (cases "f (tick s)") (auto simp: stmt_def split: if_splits prod.splits)
qed

lemma body_return [body_rules]: "(\<And>c. A c \<Longrightarrow> Q v c) \<Longrightarrow> body_spec A (creturn v) Q"
  by (simp add: body_spec_def creturn_def)

lemma body_throw [body_rules]: "body_spec A (cthrow e) Q"
  by (simp add: body_spec_def cthrow_def)

lemma body_lift [body_rules]: "(\<And>v c. r = Inr v \<Longrightarrow> A c \<Longrightarrow> Q v c) \<Longrightarrow> body_spec A (clift r) Q"
  by (simp add: body_spec_def clift_def)

lemma body_bind [body_rules]:
  assumes "body_spec A m R" "\<And>v. body_spec (R v) (f v) Q"
  shows "body_spec A (cbind m f) Q"
proof (rule body_specI)
  fix s r s' assume a: "A (cat s)" and b: "cbind m f s = (r, s')"
  obtain rm s1 where m: "m s = (rm, s1)" by (cases "m s")
  from body_specD [OF assms(1) a m] have s1: "saved s1 = saved s" "\<And>v. rm = Inr v \<Longrightarrow> R v (cat s1)" by auto
  show "saved s' = saved s \<and> (\<forall>v. r = Inr v \<longrightarrow> Q v (cat s'))"
  proof (cases rm)
    case (Inl e)
    with m b s1 show ?thesis by (auto simp: cbind_def)
  next
    case (Inr v)
    with m b have "f v s1 = (r, s')" by (simp add: cbind_def)
    from body_specD [OF assms(2) s1(2) [OF Inr] this] s1(1) show ?thesis by simp
  qed
qed

lemma body_if [body_rules]:
  "(b \<Longrightarrow> body_spec A m Q) \<Longrightarrow> (\<not> b \<Longrightarrow> body_spec A n Q) \<Longrightarrow> body_spec A (if b then m else n) Q"
  by simp

lemma body_option [body_rules]:
  "(v = None \<Longrightarrow> body_spec A m Q) \<Longrightarrow> (\<And>x. v = Some x \<Longrightarrow> body_spec A (f x) Q) \<Longrightarrow>
   body_spec A (case v of None \<Rightarrow> m | Some x \<Rightarrow> f x) Q"
  by (cases v) simp_all

lemma body_prod [body_rules]:
  "(\<And>a b. v = (a, b) \<Longrightarrow> body_spec A (f a b) Q) \<Longrightarrow> body_spec A (case v of (a, b) \<Rightarrow> f a b) Q"
  by (cases v) simp

lemma body_assume: "(\<And>c. A c \<Longrightarrow> body_spec (\<lambda>d. d = c) m Q) \<Longrightarrow> body_spec A m Q"
  unfolding body_spec_def by blast

lemma body_query [body_rules]: "(\<And>c. A c \<Longrightarrow> Q (f c) c) \<Longrightarrow> body_spec A (cquery X what f) Q"
  unfolding cquery_def by (rule body_stmt) auto

lemma body_query_row [body_rules]:
  "(\<And>c v. A c \<Longrightarrow> f c = Some v \<Longrightarrow> Q v c) \<Longrightarrow> body_spec A (cquery_row X what f) Q"
  unfolding cquery_row_def by (rule body_stmt) auto

lemma body_exec [body_rules]:
  "(\<And>c d. A c \<Longrightarrow> g c = Some d \<Longrightarrow> Q () d) \<Longrightarrow> body_spec A (cexec X what g) Q"
  unfolding cexec_def by (rule body_stmt) auto

lemma body_exec_count [body_rules]:
  "(\<And>c n d. A c \<Longrightarrow> g c = (n, d) \<Longrightarrow> Q n d) \<Longrightarrow> body_spec A (cexec_count X what g) Q"
  unfolding cexec_count_def by (rule body_stmt) (auto split: prod.splits)

lemma body_ddl [body_rules]: "(\<And>c. A c \<Longrightarrow> Q () c) \<Longrightarrow> body_spec A (cddl X what sql) Q"
  unfolding cddl_def by (rule body_stmt) auto

lemma body_phys [body_rules]: "(\<And>c v. A c \<Longrightarrow> Q v c) \<Longrightarrow> body_spec A (cphys X what f) Q"
  unfolding cphys_def by (rule body_stmt) auto

lemma body_fold:
  assumes "\<And>x acc. x \<in> set xs \<Longrightarrow> body_spec (I acc) (f x acc) I"
  shows "body_spec (I acc) (cfold f xs acc) I"
  using assms by (induction xs arbitrary: acc) (auto intro!: body_rules)

lemma body_foreach:
  assumes "\<And>x. x \<in> set xs \<Longrightarrow> body_spec I (f x) (\<lambda>_. I)"
  shows "body_spec I (cforeach f xs) (\<lambda>_. I)"
  using assms by (induction xs) (auto intro!: body_rules)

lemma body_mapM:
  assumes "\<And>x. x \<in> set xs \<Longrightarrow> body_spec I (f x) (\<lambda>v c. I c \<and> P v)"
  shows "body_spec I (cmapM f xs) (\<lambda>vs c. I c \<and> (\<forall>v\<in>set vs. P v))"
  using assms
proof (induction xs)
  case (Cons x xs)
  then have "body_spec I (cmapM f xs) (\<lambda>vs c. I c \<and> (\<forall>v\<in>set vs. P v))" by simp
  then have "body_spec (\<lambda>c. I c \<and> P v) (cmapM f xs) (\<lambda>vs c. (I c \<and> (\<forall>v\<in>set vs. P v)) \<and> P v)" for v
    unfolding body_spec_def by blast
  note tail = this
  have "body_spec I (f x) (\<lambda>v c. I c \<and> P v)" using Cons.prems by simp
  then show ?case
    unfolding cmapM.simps by (rule body_bind) (rule body_bind [OF tail], rule body_return, simp)
qed (auto intro: body_return)

lemma committed_tick [simp]: "committed (tick s) = committed s"
  by (cases "saved s") (simp_all add: committed_def)

text \<open>What a transaction guarantees, from what its body does.\<close>

lemma tx_result:
  assumes "body_spec A f Q" and "A (cat s)" and "run_catalog_tx X f s = (r, s')"
  shows "case r of
      Inr v \<Rightarrow> saved s = None \<and> saved s' = None \<and> Q v (cat s')
    | Inl _ \<Rightarrow> committed s' = committed s"
proof (cases "tx_begin X s")
  case (Pair b s1)
  show ?thesis
  proof (cases b)
    case (Inl e)
    with Pair have "s1 = tick s" by (auto simp: tx_begin_def stmt_def split: if_splits)
    moreover have "r = Inl e" "s' = s1" using Pair Inl assms(3) by (auto simp: run_catalog_tx_def cbind_def)
    ultimately show ?thesis by simp
  next
    case (Inr u)
    with Pair have s1: "saved s1 = Some (cat s, phys s)" "cat s1 = cat s" "saved s = None"
      by (auto simp: tx_begin_def stmt_def split: if_splits)
    obtain rf s2 where f: "f s1 = (rf, s2)" by (cases "f s1")
    with body_specD [OF assms(1) _ f] assms(2) s1 have
      s2: "saved s2 = Some (cat s, phys s)" "\<And>v. rf = Inr v \<Longrightarrow> Q v (cat s2)" by auto
    show ?thesis
      using Pair Inr f s1 s2 assms(3)
      by (cases rf) (auto simp: run_catalog_tx_def cbind_def tx_commit_def tx_rollback_def restore_def
          creturn_def committed_def split: if_splits)
  qed
qed

section \<open>Object identifiers, epoch and journal\<close>

definition alloc_row :: "catalog \<Rightarrow> rs_oid_alloc option" where
  "alloc_row c = List.find (\<lambda>r. al_id r = 1) (allocs c)"

definition version_row :: "catalog \<Rightarrow> rs_catalog_version option" where
  "version_row c = List.find (\<lambda>r. ver_id r = 1) (versions c)"

definition update_version :: "(rs_catalog_version \<Rightarrow> rs_catalog_version) \<Rightarrow> catalog \<Rightarrow> catalog" where
  "update_version f c = c\<lparr>versions := update_where (\<lambda>r. ver_id r = 1) f (versions c)\<rparr>"

definition allocate_oid :: "'p external \<Rightarrow> ('p, int) db" where
  "allocate_oid X =
     cbind (cquery_row X ''read next oid failed'' (\<lambda>c. map_option al_next_oid (alloc_row c))) (\<lambda>oid.
     cbind (cexec X ''advance oid allocator failed'' (\<lambda>c. Some (c\<lparr>allocs :=
        update_where (\<lambda>r. al_id r = 1) (\<lambda>r. r\<lparr>al_next_oid := al_next_oid r + 1\<rparr>) (allocs c)\<rparr>))) (\<lambda>_.
     creturn oid))"

definition catalog_epoch :: "'p external \<Rightarrow> ('p, int) db" where
  "catalog_epoch X = cquery_row X ''read catalog epoch failed'' (\<lambda>c. map_option ver_epoch (version_row c))"

definition insert_journal :: "'p external \<Rightarrow> string \<Rightarrow> int \<Rightarrow> string \<Rightarrow> ('p, int) db" where
  "insert_journal X mutation_type target_oid request =
     cbind (allocate_oid X) (\<lambda>journal_id.
     cbind (catalog_epoch X) (\<lambda>epoch.
     cbind (cexec X ''write catalog journal failed'' (\<lambda>c.
       map_option (\<lambda>rows. c\<lparr>journal := rows\<rparr>)
         (insert_journal_row \<lparr>jr_id = journal_id, jr_epoch = epoch + 1, jr_mutation_type = mutation_type,
            jr_target_oid = target_oid, jr_request = request, jr_status = ''pending'', jr_error = []\<rparr>
           (journal c)))) (\<lambda>_.
     creturn journal_id)))"

text \<open>The checksum, query by query.\<close>

definition calculate_catalog_checksum :: "'p external \<Rightarrow> ('p, string) db" where
  "calculate_catalog_checksum X =
     cbind (cfold (\<lambda>(label, q) st. cbind (cquery X ''query catalog checksum rows failed'' q) (\<lambda>rows.
              creturn (hash_rows rows (hash_checksum_part label st))))
            (catalog_checksum_queries (x_fmt X)) FNV64_OFFSET)
       (\<lambda>state. creturn (''fnv1a64:'' @ show_hex16 state))"

definition refresh_catalog_checksum :: "'p external \<Rightarrow> ('p, unit) db" where
  "refresh_catalog_checksum X =
     cbind (calculate_catalog_checksum X) (\<lambda>sum.
       cexec X ''update catalog checksum failed'' (\<lambda>c. Some (update_version (\<lambda>r. r\<lparr>ver_checksum := sum\<rparr>) c)))"

definition validate_catalog_checksum :: "'p external \<Rightarrow> ('p, unit) db" where
  "validate_catalog_checksum X =
     cbind (cquery_row X ''read catalog checksum failed'' (\<lambda>c. map_option ver_checksum (version_row c))) (\<lambda>expected.
     cbind (calculate_catalog_checksum X) (\<lambda>actual.
       if expected = actual then creturn () else cthrow (EStart (ChecksumViolation expected actual))))"

definition finish_journal :: "'p external \<Rightarrow> int \<Rightarrow> ('p, unit) db" where
  "finish_journal X journal_id =
     cbind (cquery_row X ''read catalog journal audit fields failed'' (\<lambda>c.
        map_option (\<lambda>r. (jr_mutation_type r, jr_target_oid r)) (List.find (\<lambda>r. jr_id r = journal_id) (journal c)))) (\<lambda>_.
     cbind (cexec X ''finish catalog journal failed'' (\<lambda>c. Some (c\<lparr>journal :=
        update_where (\<lambda>r. jr_id r = journal_id) (\<lambda>r. r\<lparr>jr_status := ''applied''\<rparr>) (journal c)\<rparr>))) (\<lambda>_.
     cbind (cexec X ''increment catalog epoch failed'' (\<lambda>c.
        Some (update_version (\<lambda>r. r\<lparr>ver_epoch := ver_epoch r + 1\<rparr>) c))) (\<lambda>_.
     refresh_catalog_checksum X)))"

end
