(* ===== verification/Catalog_Inv.thy ===== *)
theory Catalog_Inv
  imports Db
begin

text \<open>
  The invariant of the catalog and the calculus by which each operation is shown to keep it.
  \<open>wf_catalog\<close>: keys are unique, object identifiers are unique across all tables and
  below the allocator's next value, grants refer to existing users and roles.
  \<open>sealed\<close>: the stored checksum is that of the stored rows. The \<open>sp\<close> rules compute
  what holds after a sequence of statements from what held before.
\<close>

section \<open>Strongest postconditions\<close>

named_theorems sp "what holds after a statement"

lemma body_post: "body_spec A m Q' \<Longrightarrow> (\<And>v d. Q' v d \<Longrightarrow> Q v d) \<Longrightarrow> body_spec A m Q"
  by (erule body_conseq)

lemma sp_bind [sp]:
  "body_spec A m R \<Longrightarrow> (\<And>v. body_spec (R v) (f v) (S v)) \<Longrightarrow> body_spec A (cbind m f) (\<lambda>w d. \<exists>v. S v w d)"
  by (rule body_bind) (auto intro: body_conseq)

lemma sp_return [sp]: "body_spec A (creturn x) (\<lambda>v d. A d \<and> v = x)"
  by (rule body_return) simp

lemma sp_throw [sp]: "body_spec A (cthrow e) (\<lambda>v d. False)"
  by (rule body_throw)

lemma sp_lift [sp]: "body_spec A (clift r) (\<lambda>v d. A d \<and> r = Inr v)"
  by (rule body_lift) simp

lemma sp_query [sp]: "body_spec A (cquery X what f) (\<lambda>v d. A d \<and> v = f d)"
  by (rule body_query) simp

lemma sp_query_row [sp]: "body_spec A (cquery_row X what f) (\<lambda>v d. A d \<and> f d = Some v)"
  by (rule body_query_row) simp

lemma sp_exec [sp]: "body_spec A (cexec X what g) (\<lambda>_ d. \<exists>c. A c \<and> g c = Some d)"
  by (rule body_exec) blast

lemma sp_exec_count [sp]: "body_spec A (cexec_count X what g) (\<lambda>n d. \<exists>c. A c \<and> g c = (n, d))"
  by (rule body_exec_count) blast

lemma sp_ddl [sp]: "body_spec A (cddl X what sql) (\<lambda>_ d. A d)"
  by (rule body_ddl)

lemma sp_phys [sp]: "body_spec A (cphys X what f) (\<lambda>_ d. A d)"
  by (rule body_phys)

lemma sp_if [sp]:
  "body_spec A m Q \<Longrightarrow> body_spec A n R \<Longrightarrow>
   body_spec A (if b then m else n) (\<lambda>v d. if b then Q v d else R v d)"
  by simp

lemma sp_option [sp]:
  "body_spec A m Q \<Longrightarrow> (\<And>x. body_spec A (f x) (R x)) \<Longrightarrow>
   body_spec A (case v of None \<Rightarrow> m | Some x \<Rightarrow> f x) (\<lambda>w d. case v of None \<Rightarrow> Q w d | Some x \<Rightarrow> R x w d)"
  by (cases v) auto

lemma sp_prod [sp]:
  "(\<And>a b. body_spec A (f a b) (R a b)) \<Longrightarrow>
   body_spec A (case v of (a, b) \<Rightarrow> f a b) (\<lambda>w d. case v of (a, b) \<Rightarrow> R a b w d)"
  by (cases v) auto

lemma sp_fold: "(\<And>x acc. x \<in> set xs \<Longrightarrow> body_spec (I acc) (f x acc) I) \<Longrightarrow> body_spec (I acc) (cfold f xs acc) I"
  by (rule body_fold)

section \<open>Identifiers\<close>

definition next_oid :: "catalog \<Rightarrow> int option" where
  "next_oid c = map_option al_next_oid (alloc_row c)"

text \<open>Every identifier handed out, over all tables that hold one as their key.\<close>

definition all_oids :: "catalog \<Rightarrow> int list" where
  "all_oids c = map jr_id (journal c) @ map sch_oid (schemas c) @ map ty_oid (types c)
     @ map rel_oid (relations c) @ map def_oid (defaults c) @ map con_oid (constraints c)
     @ map usr_id (users c) @ map rol_id (roles c) @ map prv_id (privileges c)"

definition wf_oids :: "catalog \<Rightarrow> bool" where
  "wf_oids c \<longleftrightarrow> (case next_oid c of None \<Rightarrow> False
     | Some n \<Rightarrow> FIRST_USER_OID \<le> n \<and> distinct (all_oids c) \<and> (\<forall>i \<in> set (all_oids c). i < n))"

definition wf_keys :: "catalog \<Rightarrow> bool" where
  "wf_keys c \<longleftrightarrow>
     distinct (map sch_name (schemas c)) \<and> distinct (map usr_name (users c))
     \<and> distinct (map rol_name (roles c))
     \<and> distinct (map (\<lambda>r. (ur_user r, ur_role r)) (user_roles c))
     \<and> distinct (map prv_key (privileges c))
     \<and> distinct (map (\<lambda>r. (com_objoid r, com_classoid r, com_objsubid r)) (remarks c))"

definition wf_refs :: "catalog \<Rightarrow> bool" where
  "wf_refs c \<longleftrightarrow>
     (\<forall>r \<in> set (user_roles c). ur_user r \<in> usr_id ` set (users c) \<and> ur_role r \<in> rol_id ` set (roles c))
     \<and> (\<forall>p \<in> set (privileges c).
          (prv_principal_type p = ''user'' \<and> prv_principal p \<in> usr_id ` set (users c))
          \<or> (prv_principal_type p = ''role'' \<and> prv_principal p \<in> rol_id ` set (roles c)))"

definition wf_catalog :: "catalog \<Rightarrow> bool" where
  "wf_catalog c \<longleftrightarrow> wf_oids c \<and> wf_keys c \<and> wf_refs c \<and> version_row c \<noteq> None"

definition sealed :: "float_fmt \<Rightarrow> catalog \<Rightarrow> bool" where
  "sealed F c \<longleftrightarrow> map_option ver_checksum (version_row c) = Some (checksum F c)"

definition good :: "float_fmt \<Rightarrow> catalog \<Rightarrow> bool" where
  "good F c \<longleftrightarrow> wf_catalog c \<and> sealed F c"

text \<open>A number the allocator has handed out and nothing uses yet.\<close>

definition unused :: "int \<Rightarrow> catalog \<Rightarrow> bool" where
  "unused i c \<longleftrightarrow> i \<notin> set (all_oids c) \<and> FIRST_USER_OID \<le> i \<and> (case next_oid c of None \<Rightarrow> False | Some n \<Rightarrow> i < n)"

definition bump :: "catalog \<Rightarrow> catalog" where
  "bump c = c\<lparr>allocs := update_where (\<lambda>r. al_id r = 1) (\<lambda>r. r\<lparr>al_next_oid := al_next_oid r + 1\<rparr>) (allocs c)\<rparr>"

lemma find_update_where:
  "(\<And>r. P r \<Longrightarrow> P (f r)) \<Longrightarrow> List.find P (update_where P f rows) = map_option f (List.find P rows)"
  by (induction rows) auto

lemma alloc_row_bump [simp]: "alloc_row (bump c) = map_option (\<lambda>r. r\<lparr>al_next_oid := al_next_oid r + 1\<rparr>) (alloc_row c)"
  by (simp add: alloc_row_def bump_def find_update_where)

lemma next_oid_bump [simp]: "next_oid (bump c) = map_option (\<lambda>n. n + 1) (next_oid c)"
  by (cases "alloc_row c") (simp_all add: next_oid_def)

lemma bump_tables [simp]:
  "versions (bump c) = versions c" "journal (bump c) = journal c" "schemas (bump c) = schemas c"
  "types (bump c) = types c" "relations (bump c) = relations c" "cols (bump c) = cols c"
  "defaults (bump c) = defaults c" "constraints (bump c) = constraints c" "indexes (bump c) = indexes c"
  "vectors (bump c) = vectors c" "depends (bump c) = depends c" "remarks (bump c) = remarks c"
  "exts (bump c) = exts c" "parts (bump c) = parts c" "users (bump c) = users c" "roles (bump c) = roles c"
  "user_roles (bump c) = user_roles c" "privileges (bump c) = privileges c"
  by (simp_all add: bump_def)

lemma all_oids_bump [simp]: "all_oids (bump c) = all_oids c"
  by (simp add: all_oids_def)

lemma version_row_bump [simp]: "version_row (bump c) = version_row c"
  by (simp add: version_row_def)

lemma wf_bump [simp]: "wf_catalog c \<Longrightarrow> wf_catalog (bump c)"
  by (auto simp: wf_catalog_def wf_oids_def wf_keys_def wf_refs_def split: option.splits)

lemma unused_bump [simp]: "unused i c \<Longrightarrow> unused i (bump c)"
  by (auto simp: unused_def split: option.splits)

lemma unused_next: "wf_catalog c \<Longrightarrow> next_oid c = Some n \<Longrightarrow> unused n (bump c)"
  by (auto simp: wf_catalog_def wf_oids_def unused_def)

lemma sp_allocate [sp]: "body_spec A (allocate_oid X) (\<lambda>n d. \<exists>c. A c \<and> next_oid c = Some n \<and> d = bump c)"
  unfolding allocate_oid_def
  by (rule body_post, (rule sp)+) (auto simp: next_oid_def bump_def)

section \<open>Journal and checksum\<close>

definition open_journal :: "string \<Rightarrow> int \<Rightarrow> string \<Rightarrow> catalog \<Rightarrow> catalog" where
  "open_journal mutation_type target request c =
     (bump c)\<lparr>journal := journal c @ [\<lparr>jr_id = the (next_oid c), jr_epoch = ver_epoch (the (version_row c)) + 1,
        jr_mutation_type = mutation_type, jr_target_oid = target, jr_request = request,
        jr_status = ''pending'', jr_error = []\<rparr>]\<rparr>"

definition seal :: "float_fmt \<Rightarrow> catalog \<Rightarrow> catalog" where
  "seal F c = update_version (\<lambda>r. r\<lparr>ver_checksum := checksum F c\<rparr>) c"

definition close_journal :: "float_fmt \<Rightarrow> int \<Rightarrow> catalog \<Rightarrow> catalog" where
  "close_journal F j c = seal F (update_version (\<lambda>r. r\<lparr>ver_epoch := ver_epoch r + 1\<rparr>)
     (c\<lparr>journal := update_where (\<lambda>r. jr_id r = j) (\<lambda>r. r\<lparr>jr_status := ''applied''\<rparr>) (journal c)\<rparr>))"

lemma sp_insert_journal [sp]:
  "body_spec A (insert_journal X m t r)
     (\<lambda>j d. \<exists>c. A c \<and> next_oid c = Some j \<and> version_row c \<noteq> None \<and> d = open_journal m t r c)"
  unfolding insert_journal_def catalog_epoch_def
  by (rule body_post, (rule sp)+)
    (auto simp: open_journal_def dest!: journal_ids.ins_appends)

lemma sp_checksum [sp]:
  "body_spec A (calculate_catalog_checksum X) (\<lambda>v d. A d \<and> v = checksum (x_fmt X) d)"
proof -
  have "body_spec A (cfold (\<lambda>(label, q) st. cbind (cquery X w q) (\<lambda>rows.
           creturn (hash_rows rows (hash_checksum_part label st)))) qs st)
      (\<lambda>v d. A d \<and> v = fold (\<lambda>(label, q) st. hash_rows (q d) (hash_checksum_part label st)) qs st)"
    for w and qs :: "(string \<times> (catalog \<Rightarrow> string list list)) list" and st A
  proof (induction qs arbitrary: st A)
    case Nil
    show ?case by (auto intro: body_return)
  next
    case (Cons lq qs)
    obtain l q where lq: "lq = (l, q)" by (cases lq)
    let ?R = "\<lambda>v d. A d \<and> v = hash_rows (q d) (hash_checksum_part l st)"
    have "body_spec A (cbind (cquery X w q) (\<lambda>rows. creturn (hash_rows rows (hash_checksum_part l st)))) ?R"
      by (rule body_post, (rule sp)+) auto
    moreover have "body_spec (?R v) (cfold (\<lambda>(label, q) st. cbind (cquery X w q) (\<lambda>rows.
           creturn (hash_rows rows (hash_checksum_part label st)))) qs v)
        (\<lambda>u d. A d \<and> u = fold (\<lambda>(label, q) st. hash_rows (q d) (hash_checksum_part label st)) (lq # qs) st)" for v
      by (rule body_post [OF Cons.IH]) (auto simp: lq)
    ultimately show ?case by (simp add: lq body_bind)
  qed
  then show ?thesis
    unfolding calculate_catalog_checksum_def
    by (intro body_bind) (auto intro!: body_return simp: checksum_def hash_catalog_def)
qed

lemma sp_refresh [sp]:
  "body_spec A (refresh_catalog_checksum X) (\<lambda>_ d. \<exists>c. A c \<and> d = seal (x_fmt X) c)"
  unfolding refresh_catalog_checksum_def by (rule body_post, (rule sp)+) (auto simp: seal_def)

lemma sp_finish_journal [sp]:
  "body_spec A (finish_journal X j) (\<lambda>_ d. \<exists>c. A c \<and> d = close_journal (x_fmt X) j c)"
  unfolding finish_journal_def by (rule body_post, (rule sp)+) (auto simp: close_journal_def)

text \<open>The checksum does not cover the column it is stored in.\<close>

lemma insort_key_map: "(\<And>x. k (f x) = k x) \<Longrightarrow> insort_key k (f x) (map f xs) = map f (insort_key k x xs)"
  by (induction xs) auto

lemma sort_key_map: "(\<And>x. k (f x) = k x) \<Longrightarrow> sort_key k (map f xs) = map f (sort_key k xs)"
  by (induction xs) (auto simp: insort_key_map)

lemma checksum_update [simp]: "checksum F (update_version (\<lambda>r. r\<lparr>ver_checksum := x\<rparr>) c) = checksum F c"
proof -
  have "map version_cells (sort_key ver_id (update_where (\<lambda>r. ver_id r = 1) (\<lambda>r. r\<lparr>ver_checksum := x\<rparr>) rows))
      = map version_cells (sort_key ver_id rows)" for rows
    unfolding update_where_def by (subst sort_key_map) (auto simp: version_cells_def)
  then show ?thesis
    by (simp add: checksum_def hash_catalog_def catalog_checksum_queries_def update_version_def)
qed

lemma version_row_update [simp]:
  "(\<And>r. ver_id (f r) = ver_id r) \<Longrightarrow> version_row (update_version f c) = map_option f (version_row c)"
  by (simp add: version_row_def update_version_def find_update_where)

lemma update_version_tables [simp]:
  "allocs (update_version f c) = allocs c" "journal (update_version f c) = journal c"
  "schemas (update_version f c) = schemas c"
  "types (update_version f c) = types c" "relations (update_version f c) = relations c" "cols (update_version f c) = cols c"
  "defaults (update_version f c) = defaults c" "constraints (update_version f c) = constraints c"
  "indexes (update_version f c) = indexes c"
  "vectors (update_version f c) = vectors c" "depends (update_version f c) = depends c"
  "remarks (update_version f c) = remarks c"
  "exts (update_version f c) = exts c" "parts (update_version f c) = parts c" "users (update_version f c) = users c"
  "roles (update_version f c) = roles c"
  "user_roles (update_version f c) = user_roles c" "privileges (update_version f c) = privileges c"
  by (simp_all add: update_version_def)

lemma sealed_seal: "version_row c \<noteq> None \<Longrightarrow> sealed F (seal F c)"
  by (auto simp: sealed_def seal_def)

lemma open_journal_tables [simp]:
  "versions (open_journal m t r c) = versions c" "schemas (open_journal m t r c) = schemas c"
  "types (open_journal m t r c) = types c" "relations (open_journal m t r c) = relations c"
  "cols (open_journal m t r c) = cols c"
  "defaults (open_journal m t r c) = defaults c" "constraints (open_journal m t r c) = constraints c"
  "indexes (open_journal m t r c) = indexes c" "vectors (open_journal m t r c) = vectors c"
  "depends (open_journal m t r c) = depends c" "remarks (open_journal m t r c) = remarks c"
  "exts (open_journal m t r c) = exts c" "parts (open_journal m t r c) = parts c"
  "users (open_journal m t r c) = users c" "roles (open_journal m t r c) = roles c"
  "user_roles (open_journal m t r c) = user_roles c" "privileges (open_journal m t r c) = privileges c"
  "version_row (open_journal m t r c) = version_row c"
  by (simp_all add: open_journal_def version_row_def)

lemma close_journal_tables [simp]:
  "schemas (close_journal F j c) = schemas c" "allocs (close_journal F j c) = allocs c"
  "types (close_journal F j c) = types c" "relations (close_journal F j c) = relations c"
  "cols (close_journal F j c) = cols c"
  "defaults (close_journal F j c) = defaults c" "constraints (close_journal F j c) = constraints c"
  "indexes (close_journal F j c) = indexes c" "vectors (close_journal F j c) = vectors c"
  "depends (close_journal F j c) = depends c" "remarks (close_journal F j c) = remarks c"
  "exts (close_journal F j c) = exts c" "parts (close_journal F j c) = parts c"
  "users (close_journal F j c) = users c" "roles (close_journal F j c) = roles c"
  "user_roles (close_journal F j c) = user_roles c" "privileges (close_journal F j c) = privileges c"
  by (simp_all add: close_journal_def seal_def)

lemma next_oid_open [simp]: "next_oid (open_journal m t r c) = map_option (\<lambda>n. n + 1) (next_oid c)"
proof -
  have "next_oid (open_journal m t r c) = next_oid (bump c)"
    by (simp add: next_oid_def alloc_row_def open_journal_def)
  then show ?thesis by simp
qed

lemma next_oid_close [simp]: "next_oid (close_journal F j c) = next_oid c"
  by (simp add: next_oid_def alloc_row_def)

lemma journal_ids_close: "map jr_id (journal (close_journal F j c)) = map jr_id (journal c)"
  by (simp add: close_journal_def seal_def map_update_where)

lemma all_oids_close [simp]: "all_oids (close_journal F j c) = all_oids c"
  by (simp only: all_oids_def journal_ids_close close_journal_tables)

lemma version_row_close: "version_row (close_journal F j c) = None \<longleftrightarrow> version_row c = None"
  by (simp add: close_journal_def seal_def version_row_def update_version_def find_update_where)

lemma wf_close [simp]: "wf_catalog (close_journal F j c) \<longleftrightarrow> wf_catalog c"
proof -
  have "wf_oids (close_journal F j c) = wf_oids c" by (cases "next_oid c") (simp_all add: wf_oids_def)
  moreover have "wf_keys (close_journal F j c) = wf_keys c" by (simp add: wf_keys_def)
  moreover have "wf_refs (close_journal F j c) = wf_refs c" by (simp add: wf_refs_def)
  ultimately show ?thesis by (simp only: wf_catalog_def version_row_close)
qed

lemma sealed_close: "version_row c \<noteq> None \<Longrightarrow> sealed F (close_journal F j c)"
  unfolding close_journal_def by (rule sealed_seal) (simp add: version_row_def update_version_def find_update_where)

lemma good_close: "wf_catalog c \<Longrightarrow> good F (close_journal F j c)"
  by (simp only: good_def wf_close) (simp add: sealed_close wf_catalog_def)

lemma all_oids_open: "next_oid c = Some n \<Longrightarrow>
    all_oids (open_journal m t r c) = map jr_id (journal c) @ n # drop (length (journal c)) (all_oids c)"
  by (simp add: all_oids_def open_journal_def)

lemma set_oids_open: "next_oid c = Some n \<Longrightarrow> set (all_oids (open_journal m t r c)) = insert n (set (all_oids c))"
  by (auto simp: all_oids_def open_journal_def)

lemma wf_open [simp]:
  assumes "wf_catalog c"
  shows "wf_catalog (open_journal m t r c)"
proof -
  from assms obtain n where n: "next_oid c = Some n" "FIRST_USER_OID \<le> n" "distinct (all_oids c)"
    "\<forall>i\<in>set (all_oids c). i < n"
    by (auto simp: wf_catalog_def wf_oids_def split: option.splits)
  have "all_oids c = map jr_id (journal c) @ drop (length (journal c)) (all_oids c)" (is "_ = ?a @ ?b")
    by (simp add: all_oids_def)
  then have "distinct (?a @ ?b)" "n \<notin> set (?a @ ?b)"
    using n(3,4) by (metis, metis less_irrefl)
  then have "distinct (?a @ n # ?b)"
    by simp
  then have "distinct (all_oids (open_journal m t r c))" using n(1) by (simp add: all_oids_open)
  moreover have "\<forall>i\<in>set (all_oids (open_journal m t r c)). i < n + 1"
    using n(1,4) by (force simp: set_oids_open)
  ultimately show ?thesis
    using assms n(1,2) by (auto simp: wf_catalog_def wf_oids_def wf_keys_def wf_refs_def)
qed

lemma unused_open [simp]: "unused i c \<Longrightarrow> unused i (open_journal m t r c)"
  by (auto simp: unused_def set_oids_open split: option.splits)

end
