(* ===== verification/Lookup.thy ===== *)
theory Lookup
  imports Catalog_Inv
begin

text \<open>
  Catalog lookups: \<^verbatim>\<open>src/catalog/lookup.rs\<close>. Each lookup is a function of the catalog
  (suffix \<open>_in\<close>), with the engine's \<^verbatim>\<open>lower\<close> as an argument, and the statement that
  runs it. A SELECT without ORDER BY answers its rows in table order. The failures of
  preparing, running and stepping a query are one failure here. \<open>read_only\<close> computations
  leave the catalog, the physical objects and the transaction as they are, on every exit.
\<close>

section \<open>Computations that only read\<close>

definition read_only :: "('p, 'a) db \<Rightarrow> bool" where
  "read_only m \<longleftrightarrow> (\<forall>s. cat (snd (m s)) = cat s \<and> phys (snd (m s)) = phys s \<and> saved (snd (m s)) = saved s)"

named_theorems ro "computations that only read"

text \<open>\<^verbatim>\<open>map_err\<close>, and a call whose result is inspected rather than returned early.\<close>

definition cmap_err :: "(err \<Rightarrow> err) \<Rightarrow> ('p, 'a) db \<Rightarrow> ('p, 'a) db" where
  "cmap_err h m s = (case m s of (Inl e, s') \<Rightarrow> (Inl (h e), s') | (Inr v, s') \<Rightarrow> (Inr v, s'))"

definition ctry :: "('p, 'a) db \<Rightarrow> ('p, err + 'a) db" where
  "ctry m s = (let (r, s') = m s in (Inr r, s'))"

lemma ro_return [ro]: "read_only (creturn v)" by (simp add: read_only_def creturn_def)
lemma ro_throw [ro]: "read_only (cthrow e)" by (simp add: read_only_def cthrow_def)
lemma ro_lift [ro]: "read_only (clift r)" by (simp add: read_only_def clift_def)

lemma ro_bind [ro]:
  assumes "read_only m" "\<And>v. read_only (f v)"
  shows "read_only (cbind m f)"
  unfolding read_only_def
proof
  fix s
  obtain r s1 where m: "m s = (r, s1)" by (cases "m s")
  with assms(1) have 1: "cat s1 = cat s" "phys s1 = phys s" "saved s1 = saved s"
    by (auto simp: read_only_def dest: spec [of _ s])
  show "cat (snd (cbind m f s)) = cat s \<and> phys (snd (cbind m f s)) = phys s \<and> saved (snd (cbind m f s)) = saved s"
  proof (cases r)
    case (Inl e)
    with m 1 show ?thesis by (simp add: cbind_def)
  next
    case (Inr v)
    have "cat (snd (f v s1)) = cat s1 \<and> phys (snd (f v s1)) = phys s1 \<and> saved (snd (f v s1)) = saved s1"
      using assms(2) [of v] unfolding read_only_def by blast
    with Inr m 1 show ?thesis by (simp add: cbind_def)
  qed
qed

lemma ro_query [ro]: "read_only (cquery X w f)"
  by (auto simp: read_only_def cquery_def stmt_def)

lemma ro_query_row [ro]: "read_only (cquery_row X w f)"
  by (auto simp: read_only_def cquery_row_def stmt_def split: option.splits)

lemma ro_phys [ro]: "read_only (cphys X w f)"
  by (auto simp: read_only_def cphys_def stmt_def)

lemma snd_map_err [simp]: "snd (cmap_err h m s) = snd (m s)"
  by (auto simp: cmap_err_def split: prod.splits sum.splits)

lemma ro_map_err [ro]: "read_only m \<Longrightarrow> read_only (cmap_err h m)"
  by (simp add: read_only_def)

lemma ro_try [ro]: "read_only m \<Longrightarrow> read_only (ctry m)"
  by (simp add: read_only_def ctry_def split_beta)

lemma ro_if [ro]: "(b \<Longrightarrow> read_only m) \<Longrightarrow> (\<not> b \<Longrightarrow> read_only n) \<Longrightarrow> read_only (if b then m else n)"
  by simp

lemma ro_option [ro]:
  "read_only m \<Longrightarrow> (\<And>x. read_only (f x)) \<Longrightarrow> read_only (case v of None \<Rightarrow> m | Some x \<Rightarrow> f x)"
  by (cases v) auto

lemma ro_prod [ro]: "(\<And>a b. read_only (f a b)) \<Longrightarrow> read_only (case v of (a, b) \<Rightarrow> f a b)"
  by (cases v) auto

lemma ro_fold [ro]: "(\<And>x acc. read_only (f x acc)) \<Longrightarrow> read_only (cfold f xs acc)"
  by (induction xs arbitrary: acc) (auto intro!: ro)

lemma ro_foreach [ro]: "(\<And>x. read_only (f x)) \<Longrightarrow> read_only (cforeach f xs)"
  by (induction xs) (auto intro!: ro)

lemma ro_mapM [ro]: "(\<And>x. read_only (f x)) \<Longrightarrow> read_only (cmapM f xs)"
  by (induction xs) (auto intro!: ro)

lemma read_onlyD:
  assumes "read_only m" "m s = (r, s')"
  shows "cat s' = cat s" "phys s' = phys s" "saved s' = saved s"
proof -
  have "cat (snd (m s)) = cat s \<and> phys (snd (m s)) = phys s \<and> saved (snd (m s)) = saved s"
    using assms(1) unfolding read_only_def by blast
  then show "cat s' = cat s" "phys s' = phys s" "saved s' = saved s" by (simp_all add: assms(2))
qed

lemma sp_map_err [sp]: "body_spec A m Q \<Longrightarrow> body_spec A (cmap_err h m) Q"
proof (rule body_specI)
  fix s r s' assume a: "body_spec A m Q" "A (cat s)" and b: "cmap_err h m s = (r, s')"
  obtain rm s1 where m: "m s = (rm, s1)" by (cases "m s")
  with b have "s' = s1" "\<And>v. r = Inr v \<Longrightarrow> rm = Inr v" by (auto simp: cmap_err_def split: sum.splits)
  with body_specD [OF a m] show "saved s' = saved s \<and> (\<forall>v. r = Inr v \<longrightarrow> Q v (cat s'))" by auto
qed

lemma sp_try:
  assumes "read_only m" "body_spec A m Q"
  shows "body_spec A (ctry m) (\<lambda>r d. A d \<and> (\<forall>v. r = Inr v \<longrightarrow> Q v d))"
proof (rule body_specI)
  fix s r s' assume a: "A (cat s)" and b: "ctry m s = (r, s')"
  obtain rm s1 where m: "m s = (rm, s1)" by (cases "m s")
  with b have "s' = s1" "r = Inr rm" by (auto simp: ctry_def)
  with read_onlyD [OF assms(1) m] body_specD [OF assms(2) a m] a
  show "saved s' = saved s \<and> (\<forall>v. r = Inr v \<longrightarrow> A (cat s') \<and> (\<forall>w. v = Inr w \<longrightarrow> Q w (cat s')))" by auto
qed

text \<open>A read keeps what was known.\<close>

lemma body_read_only:
  "read_only m \<Longrightarrow> body_spec A m (\<lambda>_. A)"
  by (rule body_specI) (auto dest: read_onlyD)

lemma body_read_only_conj: "read_only m \<Longrightarrow> body_spec A m Q \<Longrightarrow> body_spec A m (\<lambda>v d. A d \<and> Q v d)"
  by (rule body_conj [OF body_read_only])

section \<open>Schemas\<close>

definition schema_rows :: "(string \<Rightarrow> string) \<Rightarrow> catalog \<Rightarrow> string \<Rightarrow> rs_schema list" where
  "schema_rows low c schema = filter (\<lambda>n. low (sch_name n) = low schema) (schemas c)"

fun first_of :: "'a list \<Rightarrow> 'a option" where
  "first_of [] = None"
| "first_of (x # xs) = Some x"

lemma first_of_in: "first_of xs = Some x \<Longrightarrow> x \<in> set xs"
  by (cases xs) auto

lemma first_of_None [simp]: "first_of xs = None \<longleftrightarrow> xs = []"
  by (cases xs) auto

definition namespace_exists :: "'p external \<Rightarrow> string \<Rightarrow> ('p, bool) db" where
  "namespace_exists X schema = cquery X ''check namespace failed'' (\<lambda>c. schema_rows (x_lower X) c schema \<noteq> [])"

definition ensure_user_schema_exists :: "'p external \<Rightarrow> string \<Rightarrow> ('p, unit) db" where
  "ensure_user_schema_exists X schema =
     cbind (namespace_exists X schema) (\<lambda>b. if b then creturn () else cthrow (EMut (SchemaMissing schema)))"

definition namespace_oid :: "'p external \<Rightarrow> string \<Rightarrow> ('p, int) db" where
  "namespace_oid X schema = cmap_err (\<lambda>_. EAuth (NamespaceMissing schema))
     (cquery_row X [] (\<lambda>c. map_option sch_oid (first_of (schema_rows (x_lower X) c schema))))"

section \<open>Account names\<close>

definition is_account_char :: "char \<Rightarrow> bool" where
  "is_account_char b \<longleftrightarrow> is_alnum b \<or> b = CHR ''_''"

definition validate_username :: "string \<Rightarrow> err + unit" where
  "validate_username username =
     (if username = [] then Inl (EMut UsernameEmpty)
      else if \<not> list_all is_account_char username then Inl (EMut (UsernameChars username))
      else Inr ())"

definition validate_role_name :: "string \<Rightarrow> err + unit" where
  "validate_role_name role_name =
     (if role_name = [] then Inl (EMut RoleNameEmpty)
      else if \<not> list_all is_account_char role_name then Inl (EMut (RoleNameChars role_name))
      else Inr ())"

lemma account_name_verbatim: "list_all is_account_char v \<Longrightarrow> sql_string v = v"
  unfolding sql_string_def
  by (rule replace_char_absent) (auto simp: list_all_iff is_account_char_def char_class_defs)

section \<open>Users and roles\<close>

definition user_id_in :: "(string \<Rightarrow> string) \<Rightarrow> catalog \<Rightarrow> string \<Rightarrow> int option" where
  "user_id_in low c username =
     map_option usr_id (first_of (filter (\<lambda>u. low (usr_name u) = low username) (users c)))"

definition role_id_in :: "(string \<Rightarrow> string) \<Rightarrow> catalog \<Rightarrow> string \<Rightarrow> int option" where
  "role_id_in low c role_name =
     map_option rol_id (first_of (filter (\<lambda>r. low (rol_name r) = low role_name) (roles c)))"

lemma user_id_in_SomeD: "user_id_in low c n = Some i \<Longrightarrow> i \<in> usr_id ` set (users c)"
  by (auto simp: user_id_in_def dest!: first_of_in)

lemma role_id_in_SomeD: "role_id_in low c n = Some i \<Longrightarrow> i \<in> rol_id ` set (roles c)"
  by (auto simp: role_id_in_def dest!: first_of_in)

lemma user_id_in_None: "user_id_in low c n = None \<Longrightarrow> n \<notin> usr_name ` set (users c)"
  by (auto simp: user_id_in_def filter_empty_conv)

lemma role_id_in_None: "role_id_in low c n = None \<Longrightarrow> n \<notin> rol_name ` set (roles c)"
  by (auto simp: role_id_in_def filter_empty_conv)

definition user_id_by_name_opt :: "'p external \<Rightarrow> string \<Rightarrow> ('p, int option) db" where
  "user_id_by_name_opt X username = cquery X ''query user lookup failed'' (\<lambda>c. user_id_in (x_lower X) c username)"

definition user_exists :: "'p external \<Rightarrow> string \<Rightarrow> ('p, bool) db" where
  "user_exists X username = cbind (user_id_by_name_opt X username) (\<lambda>i. creturn (i \<noteq> None))"

definition user_id_by_name :: "'p external \<Rightarrow> string \<Rightarrow> ('p, int) db" where
  "user_id_by_name X username =
     cbind (user_id_by_name_opt X username) (\<lambda>i. clift (ok_or i (EMut (UserMissing username))))"

definition role_id_by_name_opt :: "'p external \<Rightarrow> string \<Rightarrow> ('p, int option) db" where
  "role_id_by_name_opt X role_name = cquery X ''query role lookup failed'' (\<lambda>c. role_id_in (x_lower X) c role_name)"

definition role_id_by_name :: "'p external \<Rightarrow> string \<Rightarrow> ('p, int) db" where
  "role_id_by_name X role_name =
     cbind (role_id_by_name_opt X role_name) (\<lambda>i. clift (ok_or i (EMut (RoleMissing role_name))))"

definition builtin_role :: "'p external \<Rightarrow> int \<Rightarrow> ('p, bool) db" where
  "builtin_role X role_id = cquery_row X ''read role builtin flag failed''
     (\<lambda>c. map_option rol_builtin (List.find (\<lambda>r. rol_id r = role_id) (roles c)))"

definition role_has_dependents :: "'p external \<Rightarrow> int \<Rightarrow> ('p, bool) db" where
  "role_has_dependents X role_id = cquery X ''check role dependents failed''
     (\<lambda>c. length (filter (\<lambda>r. ur_role r = role_id) (user_roles c))
        + length (filter (\<lambda>p. prv_principal_type p = ''role'' \<and> prv_principal p = role_id) (privileges c)) > 0)"

lemma sp_user_exists [sp]:
  "body_spec A (user_exists X n) (\<lambda>b d. A d \<and> (b \<longleftrightarrow> user_id_in (x_lower X) d n \<noteq> None))"
  unfolding user_exists_def user_id_by_name_opt_def by (rule body_post, (rule sp)+) auto

lemma sp_user_id_by_name_opt [sp]:
  "body_spec A (user_id_by_name_opt X n) (\<lambda>v d. A d \<and> v = user_id_in (x_lower X) d n)"
  unfolding user_id_by_name_opt_def by (rule sp)

lemma sp_user_id_by_name [sp]:
  "body_spec A (user_id_by_name X n) (\<lambda>i d. A d \<and> user_id_in (x_lower X) d n = Some i)"
  unfolding user_id_by_name_def by (rule body_post, (rule sp)+) auto

lemma sp_role_id_by_name_opt [sp]:
  "body_spec A (role_id_by_name_opt X n) (\<lambda>v d. A d \<and> v = role_id_in (x_lower X) d n)"
  unfolding role_id_by_name_opt_def by (rule sp)

lemma sp_role_id_by_name [sp]:
  "body_spec A (role_id_by_name X n) (\<lambda>i d. A d \<and> role_id_in (x_lower X) d n = Some i)"
  unfolding role_id_by_name_def by (rule body_post, (rule sp)+) auto

lemma sp_namespace_exists [sp]:
  "body_spec A (namespace_exists X n) (\<lambda>b d. A d \<and> (b \<longleftrightarrow> schema_rows (x_lower X) d n \<noteq> []))"
  unfolding namespace_exists_def by (rule sp)

lemma sp_namespace_oid [sp]:
  "body_spec A (namespace_oid X n)
     (\<lambda>i d. A d \<and> map_option sch_oid (first_of (schema_rows (x_lower X) d n)) = Some i)"
  unfolding namespace_oid_def by (rule sp)+

lemma lookup_ro [ro]:
  "read_only (namespace_exists X n)" "read_only (ensure_user_schema_exists X n)" "read_only (namespace_oid X n)"
  "read_only (user_id_by_name_opt X n)" "read_only (user_exists X n)" "read_only (user_id_by_name X n)"
  "read_only (role_id_by_name_opt X n)" "read_only (role_id_by_name X n)" "read_only (builtin_role X i)"
  "read_only (role_has_dependents X i)"
  unfolding namespace_exists_def ensure_user_schema_exists_def namespace_oid_def user_id_by_name_opt_def
    user_exists_def user_id_by_name_def role_id_by_name_opt_def role_id_by_name_def builtin_role_def
    role_has_dependents_def
  by (intro ro)+

section \<open>Relations and columns\<close>

text \<open>Schemas have unique identifiers, so the join with \<^verbatim>\<open>rs_schema\<close> keeps a relation at most once.\<close>

definition relation_rows :: "(string \<Rightarrow> string) \<Rightarrow> catalog \<Rightarrow> string \<Rightarrow> string \<Rightarrow> rs_relation list" where
  "relation_rows low c schema relation =
     filter (\<lambda>r. low (rel_name r) = low relation
               \<and> list_ex (\<lambda>n. sch_oid n = rel_namespace r \<and> low (sch_name n) = low schema) (schemas c))
       (relations c)"

record relation_meta =
  rm_oid :: int
  rm_reltype :: int
  rm_relkind :: string
  rm_relispartition :: bool

definition meta_of :: "rs_relation \<Rightarrow> relation_meta" where
  "meta_of r = \<lparr>rm_oid = rel_oid r, rm_reltype = rel_type r, rm_relkind = rel_kind r,
     rm_relispartition = rel_ispartition r\<rparr>"

definition relation_exists :: "'p external \<Rightarrow> string \<Rightarrow> string \<Rightarrow> ('p, bool) db" where
  "relation_exists X schema relation =
     cquery X ''check relation failed'' (\<lambda>c. relation_rows (x_lower X) c schema relation \<noteq> [])"

definition active_relation :: "(string \<Rightarrow> string) \<Rightarrow> catalog \<Rightarrow> string \<Rightarrow> string \<Rightarrow> rs_relation option" where
  "active_relation low c schema relation =
     first_of (filter (\<lambda>r. rel_status r = ''active'') (relation_rows low c schema relation))"

definition find_relation_meta :: "'p external \<Rightarrow> string \<Rightarrow> string \<Rightarrow> ('p, relation_meta option) db" where
  "find_relation_meta X schema relation = cquery X ''query relation lookup failed''
     (\<lambda>c. map_option meta_of (active_relation (x_lower X) c schema relation))"

definition relation_oid :: "'p external \<Rightarrow> string \<Rightarrow> string \<Rightarrow> ('p, int) db" where
  "relation_oid X schema relation = cmap_err (\<lambda>_. EAuth (RelationMissing schema relation))
     (cquery_row X [] (\<lambda>c. map_option rel_oid (active_relation (x_lower X) c schema relation)))"

record relation_access_meta =
  ra_oid :: int
  ra_status :: string
  ra_error_message :: string

definition find_relation_access_meta :: "'p external \<Rightarrow> string \<Rightarrow> string \<Rightarrow> ('p, relation_access_meta option) db" where
  "find_relation_access_meta X schema relation = cquery X ''query relation access lookup failed''
     (\<lambda>c. map_option (\<lambda>r. \<lparr>ra_oid = rel_oid r, ra_status = rel_status r, ra_error_message = rel_error r\<rparr>)
        (first_of (relation_rows (x_lower X) c schema relation)))"

definition available_relation_oid :: "'p external \<Rightarrow> string \<Rightarrow> string \<Rightarrow> ('p, int) db" where
  "available_relation_oid X schema relation =
     cbind (find_relation_access_meta X schema relation) (\<lambda>v. case v of
       None \<Rightarrow> cthrow (EAuth (RelationMissing schema relation))
     | Some meta \<Rightarrow>
         if ra_status meta = ''active'' then creturn (ra_oid meta)
         else cthrow (EAuth (RelationUnavailable schema relation (ra_error_message meta))))"

definition column_rows :: "(string \<Rightarrow> string) \<Rightarrow> catalog \<Rightarrow> int \<Rightarrow> string \<Rightarrow> rs_column list" where
  "column_rows low c rel column_name =
     filter (\<lambda>a. att_relid a = rel \<and> low (att_name a) = low column_name \<and> \<not> att_isdropped a) (cols c)"

definition column_attnum :: "'p external \<Rightarrow> int \<Rightarrow> string \<Rightarrow> ('p, int option) db" where
  "column_attnum X rel column_name = cquery X ''query column lookup failed''
     (\<lambda>c. map_option att_num (first_of (column_rows (x_lower X) c rel column_name)))"

definition column_exists :: "'p external \<Rightarrow> int \<Rightarrow> string \<Rightarrow> ('p, bool) db" where
  "column_exists X rel column_name = cbind (column_attnum X rel column_name) (\<lambda>v. creturn (v \<noteq> None))"

definition column_name_by_attnum :: "'p external \<Rightarrow> int \<Rightarrow> int \<Rightarrow> ('p, string) db" where
  "column_name_by_attnum X rel attnum = cmap_err (\<lambda>_. EMut (AttnumMissing rel attnum))
     (cquery_row X [] (\<lambda>c. map_option att_name
        (first_of (filter (\<lambda>a. att_relid a = rel \<and> att_num a = attnum \<and> \<not> att_isdropped a) (cols c)))))"

definition relation_kind :: "'p external \<Rightarrow> int \<Rightarrow> ('p, string) db" where
  "relation_kind X rel = cquery_row X ''read relation kind failed''
     (\<lambda>c. map_option rel_kind (List.find (\<lambda>r. rel_oid r = rel) (relations c)))"

definition relation_name_by_oid :: "'p external \<Rightarrow> int \<Rightarrow> ('p, string \<times> string) db" where
  "relation_name_by_oid X rel = cmap_err (\<lambda>_. EMut (RelationOidMissing rel))
     (cquery_row X [] (\<lambda>c. first_of (concat (map (\<lambda>r.
        map (\<lambda>n. (sch_name n, rel_name r)) (filter (\<lambda>n. sch_oid n = rel_namespace r) (schemas c)))
        (filter (\<lambda>r. rel_oid r = rel) (relations c))))))"

lemma relation_lookup_ro [ro]:
  "read_only (relation_exists X s r)" "read_only (find_relation_meta X s r)" "read_only (relation_oid X s r)"
  "read_only (find_relation_access_meta X s r)" "read_only (available_relation_oid X s r)"
  "read_only (column_attnum X i n)" "read_only (column_exists X i n)"
  "read_only (column_name_by_attnum X i k)" "read_only (relation_kind X i)" "read_only (relation_name_by_oid X i)"
  unfolding relation_exists_def find_relation_meta_def relation_oid_def find_relation_access_meta_def
    available_relation_oid_def column_attnum_def column_exists_def column_name_by_attnum_def
    relation_kind_def relation_name_by_oid_def
  by (intro ro)+

lemma sp_find_relation_meta [sp]:
  "body_spec A (find_relation_meta X s r)
     (\<lambda>v d. A d \<and> v = map_option meta_of (active_relation (x_lower X) d s r))"
  unfolding find_relation_meta_def by (rule sp)

lemma sp_relation_oid [sp]:
  "body_spec A (relation_oid X s r)
     (\<lambda>v d. A d \<and> map_option rel_oid (active_relation (x_lower X) d s r) = Some v)"
  unfolding relation_oid_def by (rule sp)+

lemma Some_eq_map_option: "Some y = map_option f v \<longleftrightarrow> (\<exists>x. v = Some x \<and> y = f x)"
  by (cases v) auto

lemma sp_available_relation_oid [sp]:
  "body_spec A (available_relation_oid X s r)
     (\<lambda>v d. A d \<and> (\<exists>row. first_of (relation_rows (x_lower X) d s r) = Some row
        \<and> rel_oid row = v \<and> rel_status row = ''active''))"
  unfolding available_relation_oid_def find_relation_access_meta_def
  by (rule body_bind [OF sp_query], rule body_option)
    (auto intro!: body_rules simp: Some_eq_map_option)

lemma sp_column_attnum [sp]:
  "body_spec A (column_attnum X i n) (\<lambda>v d. A d \<and> v = map_option att_num (first_of (column_rows (x_lower X) d i n)))"
  unfolding column_attnum_def by (rule sp)

end
