(* ===== verification/Guard_Text.thy ===== *)
theory Guard_Text
  imports Sql_Util
begin

text \<open>
  The textual half of \<^verbatim>\<open>src/catalog/guard.rs\<close>: reserved-schema guards, the tokens of a
  statement, the relations they name, quoted literals, management calls. Main results: the
  guard sees a qualified reserved name through case and quoting, wherever it stands (and does
  not see one with a blank before the dot); a quoted literal is read back as it was written.
\<close>

section \<open>Reserved schemas\<close>

definition is_catalog_projection_read :: "string \<Rightarrow> bool" where
  "is_catalog_projection_read normalized_sql \<longleftrightarrow>
     starts_with ''select '' normalized_sql \<or> starts_with ''with '' normalized_sql"

definition reserved_schemas :: "string list" where
  "reserved_schemas = [''rsduck_catalog'', ''rsduck_internal'', ''pg_catalog'', ''information_schema'']"

fun guard_schemas :: "string \<Rightarrow> string list \<Rightarrow> err + unit" where
  "guard_schemas normalized [] = Inr ()"
| "guard_schemas normalized (schema # rest) =
     (if contains (schema @ ''.'') normalized
         \<and> (schema \<notin> {''pg_catalog'', ''information_schema''} \<or> \<not> is_catalog_projection_read normalized)
      then Inl (EName (ReservedSchema schema))
      else guard_schemas normalized rest)"

definition guard_external_sql :: "string \<Rightarrow> err + unit" where
  "guard_external_sql sql = guard_schemas (normalize_for_guard sql) reserved_schemas"

text \<open>\<^verbatim>\<open>guard_external_sql_as\<close> adds an audit line.\<close>

definition guard_external_sql_as :: "string \<Rightarrow> string \<Rightarrow> err + unit" where
  "guard_external_sql_as username sql = guard_external_sql sql"

definition is_reserved_diagnostic_read :: "string \<Rightarrow> bool" where
  "is_reserved_diagnostic_read sql \<longleftrightarrow>
     (let normalized = normalize_for_guard sql in
      is_catalog_projection_read normalized
      \<and> (contains ''rsduck_catalog.'' normalized \<or> contains ''rsduck_internal.'' normalized))"

section \<open>Tokens and relations\<close>

definition sql_tokens :: "string \<Rightarrow> string list" where
  "sql_tokens sql =
     filter (\<lambda>t. t \<noteq> [])
       (map (\<lambda>t. trim (trim_matches ((=) (CHR '','')) (trim_matches ((=) (CHR '';'')) t)))
         (split_whitespace
           (replace_char (CHR '')'') '' ) '' (replace_char (CHR ''('') '' ( '' (replace_char (CHR '','') '' '' sql)))))"

definition normalize_relation_identifier :: "string \<Rightarrow> string" where
  "normalize_relation_identifier part =
     undouble dquote (undouble bquote (trim_matches (\<lambda>c. c = dquote \<or> c = bquote) (trim part)))"

definition not_relation_words :: "string list" where
  "not_relation_words = [''select'', ''where'', ''on'', ''using'', ''values'', ''set'', ''returning'',
     ''if'', ''not'', ''exists'']"

definition relation_from_token :: "string \<Rightarrow> (string \<times> string) option" where
  "relation_from_token token0 =
     (let token = trim (trim_matches ((=) (CHR '')'')) (trim_matches ((=) (CHR ''(''))
                    (trim_matches ((=) (CHR '','')) (trim_matches ((=) (CHR '';'')) (trim token0)))));
          lower = to_lower token in
      if token = [] \<or> starts_with ''$'' token then None
      else if lower \<in> {''duckdb_functions'', ''unnest''} then None
      else if lower \<in> set not_relation_words \<or> CHR ''('' \<in> set lower then None
      else (case map normalize_relation_identifier (split_by ((=) (CHR ''.'')) token) of
          [relation] \<Rightarrow> if relation \<noteq> [] then Some (''main'', relation) else None
        | [schema, relation] \<Rightarrow> if schema \<noteq> [] \<and> relation \<noteq> [] then Some (schema, relation) else None
        | _ \<Rightarrow> None))"

fun relations_after :: "string list \<Rightarrow> (string \<times> string) list" where
  "relations_after (t # u # ts) =
     (if to_lower t \<in> {''from'', ''join''}
      then (case relation_from_token u of None \<Rightarrow> [] | Some r \<Rightarrow> [r]) else [])
     @ relations_after (u # ts)"
| "relations_after ts = []"

definition extract_read_relations :: "string \<Rightarrow> (string \<times> string) list" where
  "extract_read_relations sql = relations_after (sql_tokens sql)"

definition unsupported_catalog_relation :: "string \<Rightarrow> string \<Rightarrow> string option" where
  "unsupported_catalog_relation sql catalog_schema =
     map_option snd (List.find (\<lambda>(schema, relation). eq_ignore_case schema catalog_schema)
       (extract_read_relations sql))"

text \<open>The token after the first that is the keyword.\<close>

fun token_after :: "string \<Rightarrow> string list \<Rightarrow> string option" where
  "token_after k [] = None"
| "token_after k (t # ts) =
     (if eq_ignore_case t k then (case ts of [] \<Rightarrow> None | u # _ \<Rightarrow> Some u) else token_after k ts)"

definition extract_relation_after :: "string \<Rightarrow> string \<Rightarrow> (string \<times> string) option" where
  "extract_relation_after sql keyword =
     (case token_after (to_lower keyword) (sql_tokens sql) of
        None \<Rightarrow> None | Some token \<Rightarrow> relation_from_token token)"

definition or_else :: "'a option \<Rightarrow> 'a option \<Rightarrow> 'a option" where
  "or_else a b = (case a of None \<Rightarrow> b | Some x \<Rightarrow> Some x)"

definition extract_first_relation_for_ddl :: "string \<Rightarrow> (string \<times> string) option" where
  "extract_first_relation_for_ddl sql =
     or_else (or_else (or_else (extract_relation_after sql ''table'') (extract_relation_after sql ''view''))
       (extract_relation_after sql ''index'')) (extract_relation_after sql ''on'')"

definition reject_unhandled_catalog_projection :: "string \<Rightarrow> err + unit" where
  "reject_unhandled_catalog_projection sql =
     (let normalized = normalize_for_guard sql in
      case unsupported_catalog_relation normalized ''pg_catalog'' of
        Some name \<Rightarrow> Inl (EAuth (UnsupportedPgCatalog name))
      | None \<Rightarrow> (case unsupported_catalog_relation normalized ''information_schema'' of
          Some name \<Rightarrow> Inl (EAuth (UnsupportedInfoSchema name))
        | None \<Rightarrow>
            if contains ''pg_catalog.'' normalized then Inl (EAuth UnsupportedPgCatalogQuery)
            else if contains ''information_schema.'' normalized then Inl (EAuth UnsupportedInfoSchemaQuery)
            else Inr ()))"

section \<open>Quoted literals\<close>

fun literal_body :: "string \<Rightarrow> string \<times> string" where
  "literal_body [] = ([], [])"
| "literal_body (c # s) =
     (if c = squote
      then (case s of
          [] \<Rightarrow> ([], [])
        | d # s' \<Rightarrow> if d = squote then (let (v, r) = literal_body s' in (squote # v, r)) else ([], s))
      else (let (v, r) = literal_body s in (c # v, r)))"

lemma literal_body_length: "length (snd (literal_body s)) \<le> length s"
proof (induction s rule: literal_body.induct)
  case (2 c s)
  show ?case
  proof (cases s)
    case Nil
    then show ?thesis by simp
  next
    case (Cons d s')
    have "length (snd (literal_body s')) \<le> length s'" if "c = squote" "d = squote"
      using that "2.IH"(1) [OF that(1) Cons that(2)] by simp
    moreover have "length (snd (literal_body s)) \<le> length s" if "c \<noteq> squote"
      using that "2.IH"(2) by simp
    ultimately show ?thesis
      unfolding literal_body.simps(2) by (auto simp: Cons split_beta simp del: literal_body.simps)
  qed
qed simp

function quoted_literals :: "string \<Rightarrow> string list" where
  "quoted_literals [] = []"
| "quoted_literals (c # s) =
     (if c = squote then fst (literal_body s) # quoted_literals (snd (literal_body s)) else quoted_literals s)"
  by pat_completeness auto
termination
  by (relation "measure length") (auto simp: le_imp_less_Suc literal_body_length)

section \<open>Management calls\<close>

record management_call =
  mc_name :: string
  mc_args :: "string list"

definition management_calls :: "string list" where
  "management_calls = [''rsduck_run_partition_maintenance'', ''rsduck_mark_partition_unavailable'',
     ''rsduck_repair_partition'']"

definition parse_catalog_management_call :: "string \<Rightarrow> management_call option" where
  "parse_catalog_management_call sql =
     (case strip_prefix ''call '' (normalize_for_guard sql) of
        None \<Rightarrow> None
      | Some body \<Rightarrow> (case find_char (CHR ''('') body of
          None \<Rightarrow> None
        | Some open_at \<Rightarrow>
            (let name = trim (take open_at body) in
             if name \<in> set management_calls then Some \<lparr>mc_name = name, mc_args = quoted_literals sql\<rparr>
             else None)))"

definition looks_like_catalog_management_call :: "string \<Rightarrow> bool" where
  "looks_like_catalog_management_call sql \<longleftrightarrow> parse_catalog_management_call sql \<noteq> None"

section \<open>What trimming and splitting keep\<close>

text \<open>White space never reaches into a plain character, so a plain stretch survives.\<close>

lemma ws_len_within: "plain c \<Longrightarrow> ws_len (a @ c # r) \<le> length a"
proof (cases a)
  case (Cons x a1)
  then show "plain c \<Longrightarrow> ?thesis"
    by (cases a1; cases "tl a1")
      (auto simp: ws_len_def plain_def ws2_def ws3_def split: list.splits)
qed (simp add: ws_len_plain)

lemma ws_len_rev_within: "plain c \<Longrightarrow> ws_len_rev (a @ c # r) \<le> length a"
proof (cases a)
  case (Cons x a1)
  then show "plain c \<Longrightarrow> ?thesis"
    by (cases a1; cases "tl a1")
      (auto simp: ws_len_rev_def plain_def ws2_def ws3_def split: list.splits)
qed (simp add: ws_len_rev_plain)

lemma trim_start_keeps: "plain c \<Longrightarrow> \<exists>a'. trim_start (a @ c # r) = a' @ c # r"
proof (induction a rule: length_induct)
  case (1 a)
  show ?case
  proof (cases "ws_len (a @ c # r) = 0")
    case True
    then show ?thesis by (auto simp: trim_start_id)
  next
    case False
    let ?k = "ws_len (a @ c # r)"
    from False have "trim_start (a @ c # r) = trim_start (drop ?k (a @ c # r))"
      by (subst trim_start.simps) simp
    also have "drop ?k (a @ c # r) = drop ?k a @ c # r" using ws_len_within [OF 1(2)] by simp
    finally have eq: "trim_start (a @ c # r) = trim_start (drop ?k a @ c # r)" .
    have "a \<noteq> []" using False 1(2) by (auto simp: ws_len_plain)
    then have "length (drop ?k a) < length a" using False by simp
    with 1 have "\<exists>a'. trim_start (drop ?k a @ c # r) = a' @ c # r" by blast
    with eq show ?thesis by simp
  qed
qed

lemma trim_start_rev_keeps: "plain c \<Longrightarrow> \<exists>a'. trim_start_rev (a @ c # r) = a' @ c # r"
proof (induction a rule: length_induct)
  case (1 a)
  show ?case
  proof (cases "ws_len_rev (a @ c # r) = 0")
    case True
    then show ?thesis by (subst trim_start_rev.simps) simp
  next
    case False
    let ?k = "ws_len_rev (a @ c # r)"
    from False have "trim_start_rev (a @ c # r) = trim_start_rev (drop ?k (a @ c # r))"
      by (subst trim_start_rev.simps) simp
    also have "drop ?k (a @ c # r) = drop ?k a @ c # r" using ws_len_rev_within [OF 1(2)] by simp
    finally have eq: "trim_start_rev (a @ c # r) = trim_start_rev (drop ?k a @ c # r)" .
    have "a \<noteq> []" using False 1(2) by (auto simp: ws_len_rev_plain)
    then have "length (drop ?k a) < length a" using False by simp
    with 1 have "\<exists>a'. trim_start_rev (drop ?k a @ c # r) = a' @ c # r" by blast
    with eq show ?thesis by simp
  qed
qed

lemma trim_keeps:
  assumes "seg \<noteq> []" "plain (hd seg)" "plain (last seg)"
  shows "\<exists>a' b'. trim (a @ seg @ b) = a' @ seg @ b'"
proof -
  obtain c s where c: "seg = c # s" "plain c" using assms by (cases seg) auto
  obtain t d where d: "seg = t @ [d]" "plain d" using assms by (metis append_butlast_last_id)
  obtain a' where a': "trim_start (a @ seg @ b) = a' @ seg @ b"
    using trim_start_keeps [OF c(2), of a "s @ b"] c(1) by auto
  obtain b' where "trim_start_rev (rev b @ d # rev (a' @ t)) = b' @ d # rev (a' @ t)"
    using trim_start_rev_keeps [OF d(2)] by blast
  then have "trim_end (a' @ seg @ b) = a' @ seg @ rev b'"
    by (simp add: trim_end_def d(1))
  with a' show ?thesis by (auto simp: trim_def)
qed

lemma trim_end_matches_keeps:
  assumes "seg \<noteq> []" "last seg \<noteq> c"
  shows "\<exists>b'. trim_end_matches c (a @ seg @ b) = a @ seg @ b'"
proof -
  obtain t d where d: "seg = t @ [d]" "d \<noteq> c" using assms by (metis append_butlast_last_id)
  have "\<exists>y. dropWhile ((=) c) (x @ d # z) = y @ d # z" for x z
    using d(2) by (induction x) (auto intro: exI [of _ "[]"])
  then obtain y where "dropWhile ((=) c) (rev b @ d # rev (a @ t)) = y @ d # rev (a @ t)" by blast
  then have "trim_end_matches c (a @ seg @ b) = a @ seg @ rev y"
    by (simp add: trim_end_matches_def d(1))
  then show ?thesis by blast
qed

lemma split_ws_keeps:
  assumes "seg \<noteq> []" "\<forall>c\<in>set seg. plain c"
  shows "\<exists>t\<in>set (split_ws_from acc (a @ seg @ b)). contains seg t"
proof (induction "length a" arbitrary: a acc rule: less_induct)
  case less
  note take_seg = assms(2)
  have run: "\<exists>t\<in>set (split_ws_from (p @ x) (y @ b)). contains seg t" if "seg = x @ y" for p x y
    using that
  proof (induction y arbitrary: x)
    case Nil
    have grow: "\<exists>t\<in>set (split_ws_from (q @ seg @ w) u). contains seg t" for q w u
    proof (induction "length u" arbitrary: u w rule: less_induct)
      case less
      show ?case
      proof (cases "u = [] \<or> ws_len u > 0")
        case True
        then have "q @ seg @ w \<in> set (split_ws_from (q @ seg @ w) u)"
          using assms(1) by (subst split_ws_from.simps) auto
        then show ?thesis by (force simp: contains_iff)
      next
        case False
        then have "length (tl u) < length u" by (cases u) auto
        from less [OF this, of "w @ [hd u]"] False show ?thesis
          by (subst split_ws_from.simps) simp
      qed
    qed
    from grow [of p "[]" b] Nil show ?case by simp
  next
    case (Cons c y)
    then have "plain c" using take_seg by simp
    then have "split_ws_from (p @ x) ((c # y) @ b) = split_ws_from (p @ (x @ [c])) (y @ b)"
      by (subst split_ws_from.simps) (simp add: ws_len_plain)
    with Cons.IH [of "x @ [c]"] Cons.prems show ?case by simp
  qed
  show ?case
  proof (cases a)
    case Nil
    with run [of "[]" seg acc] show ?thesis by simp
  next
    case (Cons x a1)
    obtain c s where c: "seg = c # s" "plain c" using assms by (cases seg) auto
    have k: "ws_len (a @ seg @ b) \<le> length a" using ws_len_within [OF c(2)] c(1) by simp
    show ?thesis
    proof (cases "ws_len (a @ seg @ b) > 0")
      case True
      let ?k = "ws_len (a @ seg @ b)"
      have "\<exists>t\<in>set (split_ws_from [] (drop ?k a @ seg @ b)). contains seg t"
        using True Cons by (intro less) simp
      with True k Cons show ?thesis
        by (subst split_ws_from.simps) (auto simp del: append_Cons)
    next
      case False
      have "\<exists>t\<in>set (split_ws_from (acc @ [x]) (a1 @ seg @ b)). contains seg t"
        using Cons by (intro less) simp
      with False Cons show ?thesis by (subst split_ws_from.simps) simp
    qed
  qed
qed

lemma contains_join: "t \<in> set ts \<Longrightarrow> contains s t \<Longrightarrow> contains s (join sep ts)"
proof (induction sep ts rule: join.induct)
  case (3 sep x y xs)
  then consider "t = x" | "contains s (join sep (y # xs))" by auto
  then show ?case
  proof cases
    case 1
    with 3 obtain a b where "x = a @ s @ b" by (auto simp: contains_iff)
    then show ?thesis by (auto simp: contains_iff)
  next
    case 2
    then obtain a b where "join sep (y # xs) = a @ s @ b" by (auto simp: contains_iff)
    then have "join sep (x # y # xs) = (x @ sep @ a) @ s @ b" by simp
    then show ?thesis unfolding contains_iff by blast
  qed
qed auto

section \<open>Properties\<close>

lemma to_lower_append [simp]: "to_lower (s @ t) = to_lower s @ to_lower t"
  by (simp add: to_lower_def)

lemma plain_lower_reserved:
  assumes "to_lower schema \<in> {''rsduck_catalog'', ''rsduck_internal''}" "c \<in> set schema"
  shows "plain c \<and> c \<noteq> dquote \<and> c \<noteq> bquote"
proof -
  have "lower_char c \<in> set (to_lower schema)" using assms(2) by (simp add: to_lower_def)
  then have "is_lower (lower_char c) \<or> lower_char c = CHR ''_''"
    using assms(1) by (auto simp: char_class_defs)
  moreover have "plain c \<and> c \<noteq> dquote \<and> c \<noteq> bquote" if "is_upper c"
    using that by (auto simp: plain_def ws1_def char_class_defs)
  moreover have "plain c \<and> c \<noteq> dquote \<and> c \<noteq> bquote" if "is_lower c \<or> c = CHR ''_''"
    using that by (auto simp: plain_def ws1_def char_class_defs)
  ultimately show ?thesis by (cases "is_upper c") (auto simp: lower_char_not_upper)
qed

lemma normalize_keeps_reserved:
  assumes "to_lower schema \<in> {''rsduck_catalog'', ''rsduck_internal''}"
    and "q \<in> {[], [dquote], [bquote]}"
  shows "contains (to_lower schema @ ''.'') (normalize_for_guard (a @ q @ schema @ q @ ''.'' @ b))"
proof -
  let ?seg = "q @ schema @ q @ ''.''"
  have q: "\<forall>c\<in>set q. plain c" "to_lower q = q"
    using assms(2) by (auto simp: plain_def ws1_def lower_char_def char_class_defs)
  have ne: "schema \<noteq> []" using assms(1) by auto
  have pl: "\<forall>c\<in>set ?seg. plain c"
    using q(1) plain_lower_reserved [OF assms(1)] by (auto simp: plain_def ws1_def)
  have hd: "plain (hd ?seg)" using pl ne by (metis append_is_Nil_conv hd_in_set)
  have last: "plain (last ?seg)" "last ?seg \<noteq> CHR '';''" by (simp_all add: plain_def ws1_def)
  obtain a' b' where 1: "trim (a @ ?seg @ b) = a' @ ?seg @ b'"
    using trim_keeps [of ?seg a b] hd last ne by auto
  obtain b'' where 2: "trim_end_matches (CHR '';'') (a' @ ?seg @ b') = a' @ ?seg @ b''"
    using trim_end_matches_keeps [of ?seg "CHR '';''" a' b'] last(2) by auto
  let ?strip = "\<lambda>s. replace_char bquote [] (replace_char dquote [] (to_lower s))"
  have schema: "?strip schema = to_lower schema"
  proof -
    have "dquote \<notin> set (to_lower schema)" "bquote \<notin> set (to_lower schema)" using assms(1) by auto
    then show ?thesis by (simp add: replace_char_absent)
  qed
  have 3: "?strip (a' @ ?seg @ b'') = ?strip a' @ (to_lower schema @ ''.'') @ ?strip b''"
    using assms(2) schema q(2) by (auto simp: lower_char_def char_class_defs)
  have "\<forall>c\<in>set (to_lower schema @ ''.''). plain c"
    using assms(1) by (auto simp: plain_def ws1_def)
  then obtain t where "t \<in> set (split_whitespace (?strip (a' @ ?seg @ b'')))" "contains (to_lower schema @ ''.'') t"
    using split_ws_keeps [of "to_lower schema @ ''.''" "[]" "?strip a'" "?strip b''"]
    unfolding 3 split_whitespace_def by auto
  then have "contains (to_lower schema @ ''.'') (join '' '' (split_whitespace (?strip (a' @ ?seg @ b''))))"
    by (rule contains_join)
  moreover have "normalize_for_guard (a @ ?seg @ b) = join '' '' (split_whitespace (?strip (a' @ ?seg @ b'')))"
    by (simp only: normalize_for_guard_def 1 2)
  ultimately show ?thesis by simp
qed



text \<open>A blank before the dot, which SQL allows, hides the name.\<close>

lemma guard_misses_spaced_dot: "guard_external_sql ''SELECT * FROM rsduck_catalog .rs_user'' = Inr ()"
  by code_simp

text \<open>Only the token after FROM or JOIN is seen: the second relation of a comma list is not.\<close>

lemma read_relations_comma_list: "extract_read_relations ''SELECT * FROM a, secret'' = [(''main'', ''a'')]"
  by code_simp

lemma read_relations_update: "extract_read_relations ''UPDATE t SET x = secret.x FROM secret'' = [(''main'', ''secret'')]"
  by code_simp

section \<open>Literals round trip\<close>

definition quoted_text :: "string \<Rightarrow> string" where
  "quoted_text v = squote # sql_string v @ [squote]"

lemma literal_body_read:
  "r = [] \<or> hd r \<noteq> squote \<Longrightarrow> literal_body (sql_string v @ squote # r) = (v, r)"
proof (induction v)
  case Nil
  then show ?case by (cases r) (simp_all add: sql_string_def)
next
  case (Cons c v)
  then have "literal_body (sql_string v @ squote # r) = (v, r)" by simp
  then show ?case by (simp add: sql_string_def)
qed

lemma quoted_literals_skip: "squote \<notin> set s \<Longrightarrow> quoted_literals (s @ t) = quoted_literals t"
  by (induction s) auto

lemma quoted_literals_literal:
  "r = [] \<or> hd r \<noteq> squote \<Longrightarrow> quoted_literals (quoted_text v @ r) = v # quoted_literals r"
  by (simp add: quoted_text_def literal_body_read)

text \<open>Quoted literals are read back exactly. In a statement that places any values, quoted
  as the code quotes them, between pieces of text without quotes, the literals found are the
  values, in order.\<close>

theorem quoted_literals_roundtrip:
  assumes "\<forall>(pre, v)\<in>set items. pre \<noteq> [] \<and> squote \<notin> set pre" and "squote \<notin> set tail"
  shows "quoted_literals (concat (map (\<lambda>(pre, v). pre @ quoted_text v) items) @ tail) = map snd items"
  using assms(1)
proof (induction items)
  case Nil
  show ?case using quoted_literals_skip [OF assms(2), of "[]"] by simp
next
  case (Cons item items)
  obtain pre v where item: "item = (pre, v)" by (cases item)
  let ?r = "concat (map (\<lambda>(pre, v). pre @ quoted_text v) items) @ tail"
  have "?r = [] \<or> hd ?r \<noteq> squote"
  proof (cases items)
    case Nil
    then show ?thesis using assms(2) by (cases tail) auto
  next
    case (Cons i rest)
    then have "fst i \<noteq> []" "squote \<notin> set (fst i)" using Cons.prems by auto
    with Cons show ?thesis by (cases i, cases "fst i") auto
  qed
  with Cons item show ?case
    by (simp add: quoted_literals_skip quoted_literals_literal del: append_assoc add: append_assoc)
qed

theorem quoted_literals_roundtrip_witness:
  "quoted_literals (concat (map (\<lambda>(pre, v). pre @ quoted_text v)
     [(''CALL f('', ''main.t''), ('', '', ''it'' @ squote # ''s'')]) @ '')'')
   = map snd [(''CALL f('', ''main.t''), ('', '', ''it'' @ squote # ''s'')]"
  by (rule quoted_literals_roundtrip) code_simp+

end
