(* ===== verification/Authorize.thy ===== *)
theory Authorize
  imports Lookup Guard_Text Sql_Scan "HOL-Library.List_Lexorder" "HOL-Library.Char_ord"
begin

text \<open>
  Who may do what: \<^verbatim>\<open>src/catalog/auth/principal.rs\<close>,
  \<^verbatim>\<open>src/catalog/auth/authorize.rs\<close> and the deciding half of
  \<^verbatim>\<open>src/catalog/guard.rs\<close>. Audit log lines are not modelled; the update of the last
  login time changes no modelled column but may fail. Main results: a login succeeds exactly
  for an active user whose credential the verifier accepts, and every failure it decides looks
  the same from outside; authorisation only reads; a permission it grants rests on the admin role
  or a stored privilege.
\<close>

section \<open>A sample engine\<close>

text \<open>An engine that never fails, for the concrete instances: ASCII lower case, stub hashes, a
  parser that knows one statement.\<close>

definition one_parser :: "statement \<Rightarrow> string \<Rightarrow> sqlparser" where
  "one_parser st txt = \<lparr>parse_sql = (\<lambda>_. Inr [st]), stmt_to_string = (\<lambda>_. txt)\<rparr>"

definition sample_fmt :: float_fmt where
  "sample_fmt = \<lparr>show_f64 = (\<lambda>_. []), show_f32 = (\<lambda>_. [])\<rparr>"

definition sample_ext :: "sqlparser \<Rightarrow> unit external" where
  "sample_ext P = \<lparr>x_lower = to_lower, x_phys = (\<lambda>_. no_objects), x_ddl = (\<lambda>_ p. Some p), x_fails = (\<lambda>_. False),
     x_hashes = zero_hashes, x_parser = P, x_fmt = sample_fmt, x_message = (\<lambda>_. []), x_cal = gregorian, x_select = (\<lambda>_ _ _. None)\<rparr>"

definition sample_insert :: insert where
  "sample_insert = \<lparr>in_table = None, in_columns = [], in_source = None, in_options = []\<rparr>"

definition sample_conn :: "catalog \<Rightarrow> unit conn" where
  "sample_conn c = \<lparr>cat = c, phys = (), saved = None, ops = 0\<rparr>"

definition sample_users :: catalog where
  "sample_users = empty_catalog\<lparr>
     schemas := [\<lparr>sch_oid = MAIN_NS, sch_name = ''main'', sch_owner = ADMIN_USER_ID, sch_acl = []\<rparr>],
     relations := [\<lparr>rel_oid = 10000, rel_name = ''t'', rel_namespace = MAIN_NS, rel_type = 0,
       rel_owner = ADMIN_USER_ID, rel_kind = ''r'', rel_persistence = ''p'', rel_natts = 1, rel_tuples = 0,
       rel_hasindex = False, rel_ispartition = False, rel_partbound = [], rel_options = [],
       rel_status = ''active'', rel_error = []\<rparr>],
     users := [\<lparr>usr_id = 10001, usr_name = ''bob'', usr_password_hash = [], usr_password_algo = ''argon2id'',
       usr_plugin = ''caching_sha2_password'', usr_auth_string = [], usr_status = ''active'', usr_builtin = False\<rparr>],
     privileges := [
       \<lparr>prv_id = 10002, prv_principal_type = ''user'', prv_principal = 10001, prv_object_type = ''relation'',
        prv_object = 10000, prv_action = ''write'', prv_granted_by = ADMIN_USER_ID\<rparr>,
       \<lparr>prv_id = 10003, prv_principal_type = ''user'', prv_principal = 10001, prv_object_type = ''system'',
        prv_object = 0, prv_action = ''manage_user'', prv_granted_by = ADMIN_USER_ID\<rparr>]\<rparr>"

section \<open>Login\<close>

definition user_by_name :: "catalog \<Rightarrow> string \<Rightarrow> rs_user option" where
  "user_by_name c username = List.find (\<lambda>u. usr_name u = username) (users c)"

text \<open>A query with no row, and a check that does not hold, answer the same error.\<close>

definition finish_successful_auth :: "'p external \<Rightarrow> string \<Rightarrow> int \<Rightarrow> ('p, auth_principal) db" where
  "finish_successful_auth X username user_id =
     cbind (cexec X ''update last login timestamp failed'' Some) (\<lambda>_.
     creturn \<lparr>ap_user_id = user_id, ap_username = username\<rparr>)"

definition authenticate_cleartext_user :: "'p external \<Rightarrow> string \<Rightarrow> string \<Rightarrow> ('p, auth_principal) db" where
  "authenticate_cleartext_user X username password =
     cbind (cquery X ''query user authentication failed'' (\<lambda>c. user_by_name c username)) (\<lambda>row. case row of
       None \<Rightarrow> cthrow (EAuth AuthFailed)
     | Some u \<Rightarrow>
         if usr_status u \<noteq> ''active'' then cthrow (EAuth AuthFailed)
         else if usr_password_algo u \<noteq> ''argon2id'' then cthrow (EAuth AuthFailed)
         else if \<not> verify_password (x_hashes X) password (usr_password_hash u) then cthrow (EAuth AuthFailed)
         else finish_successful_auth X username (usr_id u))"

definition MYSQL_CACHING_SHA2_PASSWORD :: string where
  "MYSQL_CACHING_SHA2_PASSWORD = ''caching_sha2_password''"

definition read_auth_user :: "'p external \<Rightarrow> string \<Rightarrow> ('p, rs_user) db" where
  "read_auth_user X username =
     cbind (cquery X ''query user authentication failed'' (\<lambda>c. user_by_name c username))
       (\<lambda>row. clift (ok_or row (EAuth AuthFailed)))"

definition authenticate_mysql_caching_sha2_user ::
    "'p external \<Rightarrow> string \<Rightarrow> u8 list \<Rightarrow> u8 list \<Rightarrow> ('p, auth_principal) db" where
  "authenticate_mysql_caching_sha2_user X username nonce response =
     cbind (read_auth_user X username) (\<lambda>u.
       if usr_status u \<noteq> ''active'' then cthrow (EAuth AuthFailed)
       else if usr_plugin u \<noteq> MYSQL_CACHING_SHA2_PASSWORD \<or> usr_auth_string u = [] then cthrow (EAuth AuthFailed)
       else if \<not> verify_mysql_caching_sha2_password (x_hashes X) nonce response (usr_auth_string u)
         then cthrow (EAuth AuthFailed)
       else finish_successful_auth X username (usr_id u))"

definition authenticate :: "'p external \<Rightarrow> auth_request \<Rightarrow> ('p, auth_principal) db" where
  "authenticate X request = (case (rq_protocol request, rq_credential request) of
     (WebApi, CleartextPassword password) \<Rightarrow> authenticate_cleartext_user X (rq_username request) password
   | (MySqlWire, MySqlNativePassword _ _) \<Rightarrow> cthrow (EAuth AuthFailed)
   | (MySqlWire, MySqlCachingSha2Password nonce response) \<Rightarrow>
       authenticate_mysql_caching_sha2_user X (rq_username request) nonce response
   | _ \<Rightarrow> cthrow (EAuth AuthFailed))"

section \<open>The session's principal\<close>

record session_principal =
  sp_user_id :: int
  sp_username :: string
  sp_roles :: "string list"

definition is_admin :: "session_principal \<Rightarrow> bool" where
  "is_admin p \<longleftrightarrow> list_ex (\<lambda>role. role = ''admin'') (sp_roles p)"

definition role_names_of :: "catalog \<Rightarrow> int \<Rightarrow> string list" where
  "role_names_of c user_id = sort_key id
     (concat (map (\<lambda>ur. map rol_name (filter (\<lambda>r. rol_id r = ur_role ur) (roles c)))
        (filter (\<lambda>ur. ur_user ur = user_id) (user_roles c))))"

definition principal_for_username :: "'p external \<Rightarrow> string \<Rightarrow> ('p, session_principal) db" where
  "principal_for_username X username =
     cbind (cmap_err (\<lambda>_. EAuth (UnknownUser username)) (cquery_row X [] (\<lambda>c. user_by_name c username))) (\<lambda>u.
       if usr_status u \<noteq> ''active'' then cthrow (EAuth (UserNotActive username))
       else cbind (cquery X ''query principal roles failed'' (\<lambda>c. role_names_of c (usr_id u))) (\<lambda>roles.
         creturn \<lparr>sp_user_id = usr_id u, sp_username = username, sp_roles = roles\<rparr>))"

section \<open>Privileges\<close>

definition privilege_in :: "catalog \<Rightarrow> session_principal \<Rightarrow> string \<Rightarrow> int \<Rightarrow> string \<Rightarrow> bool" where
  "privilege_in c p object_type object_id action \<longleftrightarrow>
     list_ex (\<lambda>v. prv_object_type v = object_type \<and> prv_object v = object_id \<and> prv_action v = action
       \<and> ((prv_principal_type v = ''user'' \<and> prv_principal v = sp_user_id p)
          \<or> (prv_principal_type v = ''role''
              \<and> list_ex (\<lambda>r. rol_id r = prv_principal v \<and> rol_name r \<in> set (sp_roles p)) (roles c))))
       (privileges c)"

definition has_explicit_privilege ::
    "'p external \<Rightarrow> session_principal \<Rightarrow> string \<Rightarrow> int \<Rightarrow> string \<Rightarrow> ('p, bool) db" where
  "has_explicit_privilege X p object_type object_id action =
     cquery X ''check explicit privilege failed'' (\<lambda>c. privilege_in c p object_type object_id action)"

text \<open>\<^verbatim>\<open>a || b?\<close>: the second test runs only when the first answers no.\<close>

definition cor :: "bool \<Rightarrow> ('p, bool) db \<Rightarrow> ('p, bool) db" where
  "cor b m = (if b then creturn True else m)"

definition require_system_action :: "'p external \<Rightarrow> session_principal \<Rightarrow> string \<Rightarrow> ('p, unit) db" where
  "require_system_action X p action =
     cbind (cor (is_admin p) (has_explicit_privilege X p ''system'' 0 action)) (\<lambda>ok.
       if ok then creturn () else cthrow (EAuth (PermissionDeniedSystem (sp_username p) action)))"

definition require_schema_action :: "'p external \<Rightarrow> session_principal \<Rightarrow> string \<Rightarrow> string \<Rightarrow> ('p, unit) db" where
  "require_schema_action X p schema action =
     cbind (namespace_oid X schema) (\<lambda>ns.
     cbind (cor (is_admin p) (has_explicit_privilege X p ''schema'' ns action)) (\<lambda>ok.
       if ok then creturn () else cthrow (EAuth (PermissionDeniedSchema (sp_username p) schema action))))"

definition require_relation_action ::
    "'p external \<Rightarrow> session_principal \<Rightarrow> string \<times> string \<Rightarrow> string \<Rightarrow> ('p, unit) db" where
  "require_relation_action X p relation action = (case relation of (schema, relname) \<Rightarrow>
     cbind (available_relation_oid X schema relname) (\<lambda>rel.
     cbind (namespace_oid X schema) (\<lambda>ns.
     cbind (cor (is_admin p) (has_explicit_privilege X p ''relation'' rel action)) (\<lambda>ok.
     cbind (cor (ok \<or> action \<noteq> ''read'') (has_explicit_privilege X p ''schema'' ns ''read'')) (\<lambda>ok'.
       if ok \<or> action = ''read'' \<and> ok' then creturn ()
       else cthrow (EAuth (PermissionDeniedRelation (sp_username p) schema relname action)))))))"

section \<open>Authorising a statement\<close>

abbreviation relation_or :: "auth_err \<Rightarrow> (string \<times> string) option \<Rightarrow> ('p, string \<times> string) db" where
  "relation_or e r \<equiv> clift (ok_or r (EAuth e))"

definition authorize_ddl :: "'p external \<Rightarrow> session_principal \<Rightarrow> string \<Rightarrow> ('p, unit) db" where
  "authorize_ddl X p normalized_sql = (case extract_first_relation_for_ddl normalized_sql of
     Some relation \<Rightarrow> require_relation_action X p relation ''ddl''
   | None \<Rightarrow> require_system_action X p ''manage_catalog'')"

definition authorize_statement :: "'p external \<Rightarrow> session_principal \<Rightarrow> statement \<Rightarrow> string \<Rightarrow> ('p, unit) db" where
  "authorize_statement X p statement normalized_sql =
     (let reads = cforeach (\<lambda>relation. require_relation_action X p relation ''read'')
                    (extract_read_relations normalized_sql);
          write = (\<lambda>e keyword. cbind (relation_or e (extract_relation_after normalized_sql keyword))
                    (\<lambda>relation. require_relation_action X p relation ''write''));
          schema_ddl = (\<lambda>name. cbind (clift (relation_name name))
                    (\<lambda>(schema, _). require_schema_action X p schema ''ddl''));
          otherwise = (if is_admin p then creturn ()
                       else cthrow (EAuth (PermissionDeniedStatement (statement_command statement))))
      in case statement of
        Query _ \<Rightarrow> reads | ExplainTable \<Rightarrow> reads | Explain _ _ \<Rightarrow> reads
      | Show _ \<Rightarrow> creturn ()
      | Insert _ \<Rightarrow> write NoInsertTarget ''into''
      | Update \<Rightarrow> write NoUpdateTarget ''update''
      | Delete \<Rightarrow> write NoDeleteTarget ''from''
      | Copy to \<Rightarrow> cbind (relation_or NoCopyTarget (extract_relation_after normalized_sql ''copy''))
          (\<lambda>relation. require_relation_action X p relation (if to then ''read'' else ''write''))
      | Create (CreateSchema _ _) \<Rightarrow> require_system_action X p ''manage_catalog''
      | Create (CreateUser _) \<Rightarrow> require_system_action X p ''manage_user''
      | Create (CreateRole _) \<Rightarrow> require_system_action X p ''manage_user''
      | Alter (AlterUser _) \<Rightarrow> require_system_action X p ''manage_user''
      | Grant _ \<Rightarrow> require_system_action X p ''manage_user''
      | Revoke _ \<Rightarrow> require_system_action X p ''manage_user''
      | Create (CreateTable ct) \<Rightarrow> schema_ddl (ct_name ct)
      | Create (CreateView cv) \<Rightarrow> schema_ddl (cv_name cv)
      | Create (CreateIndex ci) \<Rightarrow> cbind (clift (relation_name (ci_table ci)))
          (\<lambda>relation. require_relation_action X p relation ''ddl'')
      | Comment object_type object_name _ _ \<Rightarrow> (case object_type of
            CSchema \<Rightarrow> cbind (clift (single_name_part object_name))
              (\<lambda>schema. require_schema_action X p schema ''ddl'')
          | COther t \<Rightarrow> cthrow (EAuth (CommentNotSupported t))
          | _ \<Rightarrow> cbind (clift (comment_relation_name object_type object_name))
              (\<lambda>relation. require_relation_action X p relation ''ddl''))
      | Drop (DropObjects object_type _ _ _ _) \<Rightarrow>
          if object_type \<in> {OUser, ORole} then require_system_action X p ''manage_user''
          else authorize_ddl X p normalized_sql
      | Alter (AlterTable _) \<Rightarrow> authorize_ddl X p normalized_sql
      | Alter AlterSchema \<Rightarrow> authorize_ddl X p normalized_sql
      | Alter AlterIndex \<Rightarrow> authorize_ddl X p normalized_sql
      | Alter AlterView \<Rightarrow> authorize_ddl X p normalized_sql
      | SetStmt \<Rightarrow> creturn () | UseStmt \<Rightarrow> creturn () | Pragma _ \<Rightarrow> creturn ()
      | Call \<Rightarrow> if looks_like_catalog_management_call normalized_sql
               then require_system_action X p ''manage_catalog'' else otherwise
      | _ \<Rightarrow> otherwise)"

definition authorize_sql :: "'p external \<Rightarrow> string \<Rightarrow> string \<Rightarrow> ('p, unit) db" where
  "authorize_sql X username sql =
     cbind (principal_for_username X username) (\<lambda>p.
     cbind (clift (parse_managed_partition_create sql)) (\<lambda>m. case m of
       Some partitioned \<Rightarrow>
         cbind (clift (parse_one_statement (x_parser X) (mp_base_sql partitioned))) (\<lambda>(statement, _).
         case statement of
           Create (CreateTable ct) \<Rightarrow> cbind (clift (relation_name (ct_name ct)))
             (\<lambda>(schema, _). require_schema_action X p schema ''ddl'')
         | _ \<Rightarrow> cthrow (EAuth NotCreateTable))
     | None \<Rightarrow>
         cbind (clift (parse_one_statement (x_parser X) sql)) (\<lambda>(statement, normalized_sql).
           authorize_statement X p statement normalized_sql)))"

definition authorize_reserved_diagnostic :: "'p external \<Rightarrow> string \<Rightarrow> string \<Rightarrow> ('p, unit) db" where
  "authorize_reserved_diagnostic X username sql =
     cbind (principal_for_username X username) (\<lambda>p. require_system_action X p ''manage_catalog'')"

definition authorize_snapshot :: "'p external \<Rightarrow> string \<Rightarrow> ('p, unit) db" where
  "authorize_snapshot X username =
     cbind (principal_for_username X username) (\<lambda>p. require_system_action X p ''manage_snapshot'')"

definition authorize_catalog_projection :: "'p external \<Rightarrow> string \<Rightarrow> ('p, unit) db" where
  "authorize_catalog_projection X username = cbind (principal_for_username X username) (\<lambda>_. creturn ())"

definition authorize_vector_index_management :: "'p external \<Rightarrow> string \<Rightarrow> ('p, int) db" where
  "authorize_vector_index_management X username =
     cbind (principal_for_username X username) (\<lambda>p.
     cbind (require_system_action X p ''manage_catalog'') (\<lambda>_. creturn (sp_user_id p)))"

definition authorize_vector_search :: "'p external \<Rightarrow> string \<Rightarrow> string \<Rightarrow> string \<Rightarrow> ('p, unit) db" where
  "authorize_vector_search X username schema table =
     cbind (principal_for_username X username) (\<lambda>p. require_relation_action X p (schema, table) ''read'')"

definition authorize_vector_write :: "'p external \<Rightarrow> string \<Rightarrow> string \<Rightarrow> string \<Rightarrow> ('p, unit) db" where
  "authorize_vector_write X username schema table =
     cbind (principal_for_username X username) (\<lambda>p. require_relation_action X p (schema, table) ''write'')"

definition authorize_user_metadata :: "'p external \<Rightarrow> string \<Rightarrow> ('p, unit) db" where
  "authorize_user_metadata X username =
     cbind (principal_for_username X username) (\<lambda>p. require_system_action X p ''manage_user'')"

section \<open>Authorisation only reads\<close>

lemma finish_auth_ro [ro]: "read_only (finish_successful_auth X u i)"
  unfolding finish_successful_auth_def
  by (intro ro) (auto simp: read_only_def cexec_def stmt_def)

lemma authenticate_ro [ro]: "read_only (authenticate X request)"
  unfolding authenticate_def authenticate_cleartext_user_def authenticate_mysql_caching_sha2_user_def
    read_auth_user_def
  by (cases "rq_protocol request"; cases "rq_credential request") (auto intro!: ro)

lemma principal_ro [ro]: "read_only (principal_for_username X username)"
  unfolding principal_for_username_def by (intro ro)

lemma cor_ro [ro]: "read_only m \<Longrightarrow> read_only (cor b m)"
  unfolding cor_def by (intro ro)

lemma require_ro [ro]:
  "read_only (has_explicit_privilege X p t i a)" "read_only (require_system_action X p a)"
  "read_only (require_schema_action X p n a)" "read_only (require_relation_action X p r a)"
  unfolding has_explicit_privilege_def require_system_action_def require_schema_action_def
    require_relation_action_def
  by (intro ro)+

lemma authorize_ddl_ro [ro]: "read_only (authorize_ddl X p sql)"
  unfolding authorize_ddl_def by (intro ro)

lemma authorize_statement_ro [ro]: "read_only (authorize_statement X p st sql)"
  unfolding authorize_statement_def Let_def
  by (cases st) (auto intro!: ro split: create_stmt.splits alter_stmt.splits drop_stmt.splits comment_object.splits)

lemma authorize_sql_ro [ro]: "read_only (authorize_sql X username sql)"
proof -
  have "read_only (case st of
           Create (CreateTable ct) \<Rightarrow> cbind (clift (relation_name (ct_name ct)))
             (\<lambda>(schema, _). require_schema_action X p schema ''ddl'')
         | _ \<Rightarrow> cthrow (EAuth NotCreateTable))" for st p
    by (auto intro!: ro split: statement.splits create_stmt.splits)
  then show ?thesis unfolding authorize_sql_def by (intro ro)
qed

section \<open>What a granted permission rests on\<close>

definition principal_of :: "catalog \<Rightarrow> string \<Rightarrow> session_principal option" where
  "principal_of c username = (case user_by_name c username of
     None \<Rightarrow> None
   | Some u \<Rightarrow> if usr_status u = ''active''
       then Some \<lparr>sp_user_id = usr_id u, sp_username = username, sp_roles = role_names_of c (usr_id u)\<rparr> else None)"

definition may_system :: "catalog \<Rightarrow> session_principal \<Rightarrow> string \<Rightarrow> bool" where
  "may_system c p action \<longleftrightarrow> is_admin p \<or> privilege_in c p ''system'' 0 action"

definition may_schema :: "(string \<Rightarrow> string) \<Rightarrow> catalog \<Rightarrow> session_principal \<Rightarrow> string \<Rightarrow> string \<Rightarrow> bool" where
  "may_schema low c p schema action \<longleftrightarrow> (case first_of (schema_rows low c schema) of
     None \<Rightarrow> False | Some n \<Rightarrow> is_admin p \<or> privilege_in c p ''schema'' (sch_oid n) action)"

definition may_relation ::
    "(string \<Rightarrow> string) \<Rightarrow> catalog \<Rightarrow> session_principal \<Rightarrow> string \<times> string \<Rightarrow> string \<Rightarrow> bool" where
  "may_relation low c p relation action \<longleftrightarrow>
     (case (first_of (relation_rows low c (fst relation) (snd relation)),
            first_of (schema_rows low c (fst relation))) of
        (Some r, Some n) \<Rightarrow> rel_status r = ''active'' \<and>
          (is_admin p \<or> privilege_in c p ''relation'' (rel_oid r) action
           \<or> action = ''read'' \<and> privilege_in c p ''schema'' (sch_oid n) ''read'')
      | _ \<Rightarrow> False)"

lemma sp_principal [sp]:
  "body_spec A (principal_for_username X username) (\<lambda>p d. A d \<and> principal_of d username = Some p)"
  unfolding principal_for_username_def
  by (rule body_bind [OF sp_map_err [OF sp_query_row]], rule body_if, rule body_throw,
      rule body_bind [OF sp_query], rule body_return) (auto simp: principal_of_def)

lemma sp_cor_privilege [sp]:
  "body_spec A (cor b (has_explicit_privilege X p t i a)) (\<lambda>ok d. A d \<and> (ok \<longleftrightarrow> b \<or> privilege_in d p t i a))"
  unfolding cor_def has_explicit_privilege_def by (auto intro!: body_rules)

lemma sp_require_system [sp]: "body_spec A (require_system_action X p a) (\<lambda>_ d. A d \<and> may_system d p a)"
  unfolding require_system_action_def
  by (rule body_bind [OF sp_cor_privilege]) (auto intro!: body_rules simp: may_system_def)

lemma sp_require_schema [sp]:
  "body_spec A (require_schema_action X p n a) (\<lambda>_ d. A d \<and> may_schema (x_lower X) d p n a)"
  unfolding require_schema_action_def
  by (rule body_bind [OF sp_namespace_oid], rule body_bind [OF sp_cor_privilege])
    (auto intro!: body_rules simp: may_schema_def)

lemma sp_require_relation [sp]:
  "body_spec A (require_relation_action X p r a) (\<lambda>_ d. A d \<and> may_relation (x_lower X) d p r a)"
proof (cases r)
  case (Pair schema relname)
  show ?thesis
    unfolding require_relation_action_def Pair prod.case
    by (rule body_bind [OF sp_available_relation_oid], rule body_bind [OF sp_namespace_oid],
        rule body_bind [OF sp_cor_privilege], rule body_bind [OF sp_cor_privilege])
      (auto intro!: body_rules simp: may_relation_def)
qed

text \<open>A permitted computation, run from a state, tells about that state's catalog.\<close>

lemma read_only_result:
  assumes "read_only m" "body_spec (\<lambda>d. d = cat s) m Q" "m s = (Inr v, s')"
  shows "Q v (cat s)" "cat s' = cat s" "phys s' = phys s" "saved s' = saved s"
  using body_specD [OF assms(2) refl assms(3)] read_onlyD [OF assms(1,3)] by auto

text \<open>What each kind of statement requires.\<close>

definition target_keyword :: "statement \<Rightarrow> string option" where
  "target_keyword st = (case st of Insert _ \<Rightarrow> Some ''into'' | Update \<Rightarrow> Some ''update'' | Delete \<Rightarrow> Some ''from''
     | Copy to \<Rightarrow> if to then None else Some ''copy'' | _ \<Rightarrow> None)"

definition account_statement :: "statement \<Rightarrow> bool" where
  "account_statement st \<longleftrightarrow> (case st of
     Create (CreateUser _) \<Rightarrow> True | Create (CreateRole _) \<Rightarrow> True | Alter (AlterUser _) \<Rightarrow> True
   | Grant _ \<Rightarrow> True | Revoke _ \<Rightarrow> True
   | Drop (DropObjects t _ _ _ _) \<Rightarrow> t \<in> {OUser, ORole} | _ \<Rightarrow> False)"

lemma sp_authorize_account:
  "account_statement st \<Longrightarrow>
   body_spec A (authorize_statement X p st sql) (\<lambda>_ d. A d \<and> may_system d p ''manage_user'')"
  by (auto simp: account_statement_def authorize_statement_def intro: sp_require_system
      split: statement.splits create_stmt.splits alter_stmt.splits drop_stmt.splits)

lemma sp_authorize_write:
  assumes "target_keyword st = Some k"
  shows "body_spec A (authorize_statement X p st sql)
    (\<lambda>_ d. A d \<and> (\<exists>relation. extract_relation_after sql k = Some relation
       \<and> may_relation (x_lower X) d p relation ''write''))"
proof -
  have "body_spec A (cbind (relation_or e (extract_relation_after sql k))
          (\<lambda>relation. require_relation_action X p relation ''write''))
    (\<lambda>_ d. A d \<and> (\<exists>relation. extract_relation_after sql k = Some relation
       \<and> may_relation (x_lower X) d p relation ''write''))" for e
    by (rule body_post, (rule sp)+) auto
  then show ?thesis
    using assms by (auto simp: target_keyword_def authorize_statement_def split: statement.splits if_splits)
qed

section \<open>Properties\<close>

text \<open>Which requests are accepted, as a function of the stored users.\<close>

definition credential_ok :: "'p external \<Rightarrow> auth_request \<Rightarrow> rs_user \<Rightarrow> bool" where
  "credential_ok X request u \<longleftrightarrow> (case (rq_protocol request, rq_credential request) of
     (WebApi, CleartextPassword password) \<Rightarrow>
       usr_password_algo u = ''argon2id'' \<and> verify_password (x_hashes X) password (usr_password_hash u)
   | (MySqlWire, MySqlCachingSha2Password nonce response) \<Rightarrow>
       usr_plugin u = MYSQL_CACHING_SHA2_PASSWORD \<and> usr_auth_string u \<noteq> []
       \<and> verify_mysql_caching_sha2_password (x_hashes X) nonce response (usr_auth_string u)
   | _ \<Rightarrow> False)"

definition login_decision :: "'p external \<Rightarrow> auth_request \<Rightarrow> catalog \<Rightarrow> err + auth_principal" where
  "login_decision X request c = (case user_by_name c (rq_username request) of
     Some u \<Rightarrow> if usr_status u = ''active'' \<and> credential_ok X request u
       then Inr \<lparr>ap_user_id = usr_id u, ap_username = rq_username request\<rparr> else Inl (EAuth AuthFailed)
   | None \<Rightarrow> Inl (EAuth AuthFailed))"

lemma cquery_cases:
  "cquery X w f s = (Inl (EDb w), tick s) \<or> cquery X w f s = (Inr (f (cat s)), tick s)"
  by (simp add: cquery_def stmt_def)

lemma finish_auth_cases:
  "(\<exists>w. fst (finish_successful_auth X u i s) = Inl (EDb w))
   \<or> fst (finish_successful_auth X u i s) = Inr \<lparr>ap_user_id = i, ap_username = u\<rparr>"
  by (auto simp: finish_successful_auth_def cexec_def stmt_def cbind_def creturn_def)

lemma authenticate_cases:
  "(\<exists>w. fst (authenticate X request s) = Inl (EDb w))
   \<or> fst (authenticate X request s) = login_decision X request (cat s)"
proof -
  have clear: "(\<exists>w. fst (authenticate_cleartext_user X u pw s) = Inl (EDb w))
      \<or> fst (authenticate_cleartext_user X u pw s)
          = login_decision X \<lparr>rq_protocol = WebApi, rq_username = u, rq_credential = CleartextPassword pw\<rparr> (cat s)" for u pw
    using cquery_cases [of X "''query user authentication failed''" "\<lambda>c. user_by_name c u" s]
      finish_auth_cases [of X u "usr_id (the (user_by_name (cat s) u))" "tick s"]
    by (cases "user_by_name (cat s) u")
      (auto simp: authenticate_cleartext_user_def cbind_def login_decision_def credential_ok_def cthrow_def
        split: if_splits)
  have sha: "(\<exists>w. fst (authenticate_mysql_caching_sha2_user X u n r s) = Inl (EDb w))
      \<or> fst (authenticate_mysql_caching_sha2_user X u n r s)
          = login_decision X \<lparr>rq_protocol = MySqlWire, rq_username = u, rq_credential = MySqlCachingSha2Password n r\<rparr> (cat s)" for u n r
    using cquery_cases [of X "''query user authentication failed''" "\<lambda>c. user_by_name c u" s]
      finish_auth_cases [of X u "usr_id (the (user_by_name (cat s) u))" "tick s"]
    by (cases "user_by_name (cat s) u")
      (auto simp: authenticate_mysql_caching_sha2_user_def read_auth_user_def cbind_def clift_def
        login_decision_def credential_ok_def cthrow_def split: if_splits)
  obtain pr u cr where rq: "request = \<lparr>rq_protocol = pr, rq_username = u, rq_credential = cr\<rparr>"
    by (cases request) auto
  have refuse: "login_decision X request (cat s) = Inl (EAuth AuthFailed)"
    if "\<And>v. \<not> credential_ok X request v"
    using that by (simp add: login_decision_def split: option.splits)
  show ?thesis
    using clear [of u] sha [of u] refuse
    by (cases pr; cases cr) (auto simp: authenticate_def rq credential_ok_def cthrow_def)
qed


text \<open>Authorising a statement never changes the catalog, the physical objects or the open
  transaction, whatever the statement and however it ends.\<close>

theorem authorize_only_reads:
  "cat (snd (authorize_sql X username sql s)) = cat s
   \<and> phys (snd (authorize_sql X username sql s)) = phys s
   \<and> saved (snd (authorize_sql X username sql s)) = saved s"
  using authorize_sql_ro [of X username sql] unfolding read_only_def by blast

lemma cbind_clift_Inr: "cbind (clift (Inr v)) f = f v"
  by (simp add: cbind_def clift_def fun_eq_iff)

lemma sp_authorize_plain:
  assumes "parse_managed_partition_create sql = Inr None"
    and "parse_one_statement (x_parser X) sql = Inr (st, nsql)"
    and "\<And>p B. body_spec B (authorize_statement X p st nsql) (\<lambda>_ d. B d \<and> Q p d)"
  shows "body_spec A (authorize_sql X username sql)
    (\<lambda>_ d. \<exists>p. principal_of d username = Some p \<and> Q p d)"
  unfolding authorize_sql_def assms(1,2)
proof (rule body_bind [OF sp_principal], rule body_bind [OF sp_lift], rule body_option)
  fix p v
  show "body_spec (\<lambda>c. (A c \<and> principal_of c username = Some p) \<and> Inr None = Inr v)
      (cbind (clift (Inr (st, nsql))) (\<lambda>(statement, normalized_sql). authorize_statement X p statement normalized_sql))
      (\<lambda>_ d. \<exists>p. principal_of d username = Some p \<and> Q p d)"
    by (simp only: cbind_clift_Inr prod.case, rule body_conseq [OF assms(3) [of "\<lambda>c. principal_of c username = Some p" p]]) auto
qed (auto simp: body_spec_def)


text \<open>Accounts are only changed by those who may manage users: when a CREATE, ALTER or DROP
  of a user or role, a GRANT or a REVOKE is authorised, the user is active and is an administrator
  or holds the system privilege \<^verbatim>\<open>manage_user\<close>.\<close>

theorem account_statements_need_manage_user:
  assumes "fst (authorize_sql X username sql s) = Inr u"
    and "parse_managed_partition_create sql = Inr None"
    and "parse_one_statement (x_parser X) sql = Inr (st, nsql)"
    and "account_statement st"
  shows "\<exists>p. principal_of (cat s) username = Some p \<and> may_system (cat s) p ''manage_user''"
proof -
  have "body_spec (\<lambda>d. d = cat s) (authorize_sql X username sql)
     (\<lambda>_ d. \<exists>p. principal_of d username = Some p \<and> may_system d p ''manage_user'')"
    by (rule sp_authorize_plain [OF assms(2,3)], rule sp_authorize_account [OF assms(4)])
  moreover have "authorize_sql X username sql s = (Inr u, snd (authorize_sql X username sql s))"
    using assms(1) by (metis prod.collapse)
  ultimately show ?thesis using read_only_result(1) [OF authorize_sql_ro] by blast
qed

text \<open>An explained write is authorised as a read of the names after FROM and JOIN: here of none.\<close>

lemma explain_analyze_insert_unchecked:
  "authorize_statement X p (Explain True (Insert i)) ''EXPLAIN ANALYZE INSERT INTO t VALUES (1)'' = creturn ()"
proof -
  have "extract_read_relations ''EXPLAIN ANALYZE INSERT INTO t VALUES (1)'' = []" by code_simp
  then show ?thesis by (simp add: authorize_statement_def)
qed


theorem account_statements_need_manage_user_witness:
  "\<exists>p. principal_of sample_users ''bob'' = Some p \<and> may_system sample_users p ''manage_user''"
proof -
  let ?sql = "''GRANT USAGE ON SCHEMA main TO bob''"
  let ?st = "Grant \<lparr>g_privileges = Actions [AUsage], g_objects = Some (GSchemas [[Identifier ''main'']]),
     g_grantees = [\<lparr>grantee_type = GTNone, grantee_name = Some (GName [Identifier ''bob''])\<rparr>]\<rparr>"
  have "\<exists>p. principal_of (cat (sample_conn sample_users)) ''bob'' = Some p
      \<and> may_system (cat (sample_conn sample_users)) p ''manage_user''"
    by (rule account_statements_need_manage_user [of "sample_ext (one_parser ?st ?sql)" "''bob''" ?sql _ "()" ?st ?sql])
      code_simp+
  then show ?thesis by (simp add: sample_conn_def)
qed

end
