(* ===== verification/Bootstrap.thy ===== *)
theory Bootstrap
  imports Authorize
begin

text \<open>
  The first catalog: \<^verbatim>\<open>src/catalog/bootstrap.rs\<close> and the version checks at the head of
  \<^verbatim>\<open>validate_after_start\<close>. The tables of \<open>catalog\<close> stand for those of
  \<^verbatim>\<open>create_catalog_storage\<close>, whose statements are all IF NOT EXISTS. Main result: on
  empty tables the bootstrap either fails and leaves nothing, or produces the catalog
  \<open>bootstrap_catalog\<close>, which satisfies the invariant.
\<close>

definition create_catalog_storage :: "'p external \<Rightarrow> ('p, unit) db" where
  "create_catalog_storage X = cexec X ''create catalog storage failed'' Some"

definition catalog_version_row_exists :: "'p external \<Rightarrow> ('p, bool) db" where
  "catalog_version_row_exists X = cquery X ''check catalog version row failed'' (\<lambda>c. version_row c \<noteq> None)"

definition builtin_schema :: "int \<Rightarrow> string \<Rightarrow> rs_schema" where
  "builtin_schema i n = \<lparr>sch_oid = i, sch_name = n, sch_owner = ADMIN_USER_ID, sch_acl = []\<rparr>"

definition bootstrap_schemas :: "rs_schema list" where
  "bootstrap_schemas = [builtin_schema INFORMATION_SCHEMA_NS ''information_schema'',
     builtin_schema RSDUCK_CATALOG_NS ''rsduck_catalog'', builtin_schema RSDUCK_INTERNAL_NS ''rsduck_internal'',
     builtin_schema MAIN_NS ''main'']"

definition builtin_type :: "int \<Rightarrow> string \<Rightarrow> int \<Rightarrow> bool \<Rightarrow> string \<Rightarrow> string \<Rightarrow> rs_type" where
  "builtin_type i n len byval category physical =
     \<lparr>ty_oid = i, ty_name = n, ty_namespace = RSDUCK_CATALOG_NS, ty_owner = ADMIN_USER_ID, ty_len = len,
      ty_byval = byval, ty_type = ''b'', ty_category = category, ty_isdefined = True, ty_relid = 0, ty_elem = 0,
      ty_array = 0, ty_physical = physical\<rparr>"

definition bootstrap_types :: "rs_type list" where
  "bootstrap_types = [
     builtin_type TYPE_BOOL ''boolean'' 1 True ''B'' ''BOOLEAN'',
     builtin_type TYPE_INT8 ''bigint'' 8 True ''N'' ''BIGINT'',
     builtin_type TYPE_INT2 ''smallint'' 2 True ''N'' ''SMALLINT'',
     builtin_type TYPE_INT4 ''integer'' 4 True ''N'' ''INTEGER'',
     builtin_type TYPE_TEXT ''text'' (-1) False ''S'' ''VARCHAR'',
     builtin_type TYPE_FLOAT4 ''real'' 4 True ''N'' ''REAL'',
     builtin_type TYPE_FLOAT8 ''double'' 8 True ''N'' ''DOUBLE'',
     builtin_type TYPE_VARCHAR ''varchar'' (-1) False ''S'' ''VARCHAR'',
     builtin_type TYPE_DATE ''date'' 4 True ''D'' ''DATE'',
     builtin_type TYPE_TIME ''time'' 8 True ''D'' ''TIME'',
     builtin_type TYPE_TIMESTAMP ''timestamp'' 8 True ''D'' ''TIMESTAMP'',
     builtin_type TYPE_NUMERIC ''numeric'' (-1) False ''N'' ''DECIMAL'']"

definition builtin_role_row :: "int \<Rightarrow> string \<Rightarrow> string \<Rightarrow> rs_role" where
  "builtin_role_row i n d = \<lparr>rol_id = i, rol_name = n, rol_description = d, rol_builtin = True\<rparr>"

definition bootstrap_roles :: "rs_role list" where
  "bootstrap_roles = [
     builtin_role_row ROLE_ADMIN_ID ''admin'' ''full catalog and system administration'',
     builtin_role_row ROLE_OPERATOR_ID ''operator'' ''snapshot and catalog operations'',
     builtin_role_row ROLE_DDL_ID ''ddl'' ''schema and relation ddl operations'',
     builtin_role_row ROLE_WRITER_ID ''writer'' ''relation data writes'',
     builtin_role_row ROLE_READER_ID ''reader'' ''relation reads'']"

definition user_row :: "int \<Rightarrow> string \<Rightarrow> string \<Rightarrow> string \<Rightarrow> bool \<Rightarrow> rs_user" where
  "user_row i n hash auth builtin =
     \<lparr>usr_id = i, usr_name = n, usr_password_hash = hash, usr_password_algo = ''argon2id'',
      usr_plugin = MYSQL_CACHING_SHA2_PASSWORD, usr_auth_string = auth, usr_status = ''active'',
      usr_builtin = builtin\<rparr>"

text \<open>An INSERT of several rows: all of them or none.\<close>

fun insert_all :: "('r \<Rightarrow> 'r list \<Rightarrow> 'r list option) \<Rightarrow> 'r list \<Rightarrow> 'r list \<Rightarrow> 'r list option" where
  "insert_all ins [] rows = Some rows"
| "insert_all ins (r # rs) rows = Option.bind (ins r rows) (insert_all ins rs)"

definition bootstrap_batch :: "string \<Rightarrow> string \<Rightarrow> catalog \<Rightarrow> catalog option" where
  "bootstrap_batch hash auth c =
     Option.bind (insert_all insert_schema bootstrap_schemas (schemas c)) (\<lambda>ns.
     Option.bind (insert_all insert_type bootstrap_types (types c)) (\<lambda>ts.
     Option.bind (insert_all insert_role bootstrap_roles (roles c)) (\<lambda>rs.
     Option.bind (insert_user (user_row ADMIN_USER_ID ''admin'' hash auth True) (users c)) (\<lambda>us.
     map_option (\<lambda>urs. c\<lparr>schemas := ns, types := ts, roles := rs, users := us, user_roles := urs\<rparr>)
       (insert_user_role \<lparr>ur_user = ADMIN_USER_ID, ur_role = ROLE_ADMIN_ID, ur_granted_by = ADMIN_USER_ID\<rparr>
         (user_roles c))))))"

definition bootstrap_privileges :: "(int \<times> string) list" where
  "bootstrap_privileges = [(ROLE_ADMIN_ID, ''manage_snapshot''), (ROLE_ADMIN_ID, ''manage_catalog''),
     (ROLE_ADMIN_ID, ''manage_user''), (ROLE_OPERATOR_ID, ''manage_snapshot''),
     (ROLE_OPERATOR_ID, ''manage_catalog'')]"

definition system_privilege :: "int \<Rightarrow> int \<Rightarrow> string \<Rightarrow> rs_privilege" where
  "system_privilege i role action = \<lparr>prv_id = i, prv_principal_type = ''role'', prv_principal = role,
     prv_object_type = ''system'', prv_object = 0, prv_action = action, prv_granted_by = ADMIN_USER_ID\<rparr>"

definition insert_bootstrap_rows :: "'p external \<Rightarrow> ('p, unit) db" where
  "insert_bootstrap_rows X =
     cbind (clift (hash_password (x_hashes X) ''admin'')) (\<lambda>hash.
     let auth = mysql_caching_sha2_verifier (x_hashes X) ''admin'' in
     run_catalog_tx X (
       cbind (cexec X ''write oid allocator failed'' (\<lambda>c. map_option (\<lambda>rows. c\<lparr>allocs := rows\<rparr>)
         (insert_alloc \<lparr>al_id = 1, al_next_oid = FIRST_USER_OID\<rparr> (allocs c)))) (\<lambda>_.
       cbind (cexec X ''write catalog version failed'' (\<lambda>c. map_option (\<lambda>rows. c\<lparr>versions := rows\<rparr>)
         (insert_version \<lparr>ver_id = 1, ver_schema_version = CATALOG_VERSION,
            ver_snapshot_format = SNAPSHOT_FORMAT_VERSION, ver_epoch = 0, ver_checksum = [],
            ver_status = ''ready''\<rparr> (versions c)))) (\<lambda>_.
       cbind (cexec X ''write bootstrap catalog rows failed'' (bootstrap_batch hash auth)) (\<lambda>_.
       cbind (cforeach (\<lambda>(role, action).
           cbind (allocate_oid X) (\<lambda>privilege_id.
           cexec X ''write builtin system privilege failed'' (\<lambda>c. map_option (\<lambda>rows. c\<lparr>privileges := rows\<rparr>)
             (insert_privilege (system_privilege privilege_id role action) (privileges c)))))
         bootstrap_privileges) (\<lambda>_.
       refresh_catalog_checksum X))))))"

definition bootstrap_fresh :: "'p external \<Rightarrow> ('p, unit) db" where
  "bootstrap_fresh X =
     cbind (create_catalog_storage X) (\<lambda>_.
     cbind (catalog_version_row_exists X) (\<lambda>present.
       if present then creturn () else insert_bootstrap_rows X))"

section \<open>The catalog it produces\<close>

definition bootstrap_catalog :: "float_fmt \<Rightarrow> string \<Rightarrow> string \<Rightarrow> catalog" where
  "bootstrap_catalog F hash auth = seal F (empty_catalog\<lparr>
     versions := [\<lparr>ver_id = 1, ver_schema_version = CATALOG_VERSION,
            ver_snapshot_format = SNAPSHOT_FORMAT_VERSION, ver_epoch = 0, ver_checksum = [],
            ver_status = ''ready''\<rparr>],
     allocs := [\<lparr>al_id = 1, al_next_oid = FIRST_USER_OID + 5\<rparr>],
     schemas := bootstrap_schemas, types := bootstrap_types, roles := bootstrap_roles,
     users := [user_row ADMIN_USER_ID ''admin'' hash auth True],
     user_roles := [\<lparr>ur_user = ADMIN_USER_ID, ur_role = ROLE_ADMIN_ID, ur_granted_by = ADMIN_USER_ID\<rparr>],
     privileges := map (\<lambda>(i, role, action). system_privilege (FIRST_USER_OID + i) role action)
       [(0, ROLE_ADMIN_ID, ''manage_snapshot''), (1, ROLE_ADMIN_ID, ''manage_catalog''),
        (2, ROLE_ADMIN_ID, ''manage_user''), (3, ROLE_OPERATOR_ID, ''manage_snapshot''),
        (4, ROLE_OPERATOR_ID, ''manage_catalog'')]\<rparr>)"

definition bootstrap_batch_on :: "string \<Rightarrow> string \<Rightarrow> catalog \<Rightarrow> catalog" where
  "bootstrap_batch_on hash auth c = c\<lparr>schemas := bootstrap_schemas, types := bootstrap_types, roles := bootstrap_roles,
     users := [user_row ADMIN_USER_ID ''admin'' hash auth True],
     user_roles := [\<lparr>ur_user = ADMIN_USER_ID, ur_role = ROLE_ADMIN_ID, ur_granted_by = ADMIN_USER_ID\<rparr>]\<rparr>"

lemma insert_all_bootstrap:
  "insert_all insert_schema bootstrap_schemas [] = Some bootstrap_schemas"
  "insert_all insert_type bootstrap_types [] = Some bootstrap_types"
  "insert_all insert_role bootstrap_roles [] = Some bootstrap_roles"
  by code_simp+

lemma bootstrap_batch_empty:
  "schemas c = [] \<Longrightarrow> types c = [] \<Longrightarrow> roles c = [] \<Longrightarrow> users c = [] \<Longrightarrow> user_roles c = [] \<Longrightarrow>
   bootstrap_batch hash auth c = Some (bootstrap_batch_on hash auth c)"
  by (simp add: bootstrap_batch_def insert_all_bootstrap bootstrap_batch_on_def insert_user_def
      insert_user_role_def insert_row_def)

text \<open>One round of the privilege loop.\<close>

definition boot_grant :: "int \<times> string \<Rightarrow> catalog \<Rightarrow> catalog" where
  "boot_grant ra c = (bump c)\<lparr>privileges := privileges c @ [system_privilege (the (next_oid c)) (fst ra) (snd ra)]\<rparr>"

lemma sp_boot_grants:
  "body_spec A (cforeach (\<lambda>(role, action).
           cbind (allocate_oid X) (\<lambda>privilege_id.
           cexec X w (\<lambda>c. map_option (\<lambda>rows. c\<lparr>privileges := rows\<rparr>)
             (insert_privilege (system_privilege privilege_id role action) (privileges c))))) ras)
     (\<lambda>_ d. \<exists>c. A c \<and> d = fold boot_grant ras c)"
proof (induction ras arbitrary: A)
  case Nil
  show ?case by (auto intro: body_return)
next
  case (Cons ra ras)
  obtain role action where ra: "ra = (role, action)" by (cases ra)
  let ?m = "cbind (allocate_oid X) (\<lambda>privilege_id. cexec X w (\<lambda>c. map_option (\<lambda>rows. c\<lparr>privileges := rows\<rparr>)
             (insert_privilege (system_privilege privilege_id role action) (privileges c))))"
  have "body_spec A ?m (\<lambda>_ d. \<exists>c. A c \<and> d = boot_grant ra c)"
    by (rule body_post, (rule sp)+)
      (auto simp: boot_grant_def ra dest!: privilege_ids.ins_appends)
  then show ?case
    unfolding cforeach.simps ra prod.case
    by (rule body_bind) (rule body_post [OF Cons.IH], auto)
qed

lemma bootstrap_catalog_steps:
  "seal F (fold boot_grant bootstrap_privileges (bootstrap_batch_on hash auth
     (empty_catalog\<lparr>allocs := [\<lparr>al_id = 1, al_next_oid = FIRST_USER_OID\<rparr>],
        versions := [\<lparr>ver_id = 1, ver_schema_version = CATALOG_VERSION,
            ver_snapshot_format = SNAPSHOT_FORMAT_VERSION, ver_epoch = 0, ver_checksum = [],
            ver_status = ''ready''\<rparr>]\<rparr>))) = bootstrap_catalog F hash auth"
proof -
  have "fold boot_grant bootstrap_privileges (bootstrap_batch_on hash auth
     (empty_catalog\<lparr>allocs := [\<lparr>al_id = 1, al_next_oid = FIRST_USER_OID\<rparr>], versions := vs\<rparr>))
    = empty_catalog\<lparr>versions := vs,
     allocs := [\<lparr>al_id = 1, al_next_oid = FIRST_USER_OID + 5\<rparr>],
     schemas := bootstrap_schemas, types := bootstrap_types, roles := bootstrap_roles,
     users := [user_row ADMIN_USER_ID ''admin'' hash auth True],
     user_roles := [\<lparr>ur_user = ADMIN_USER_ID, ur_role = ROLE_ADMIN_ID, ur_granted_by = ADMIN_USER_ID\<rparr>],
     privileges := map (\<lambda>(i, role, action). system_privilege (FIRST_USER_OID + i) role action)
       [(0, ROLE_ADMIN_ID, ''manage_snapshot''), (1, ROLE_ADMIN_ID, ''manage_catalog''),
        (2, ROLE_ADMIN_ID, ''manage_user''), (3, ROLE_OPERATOR_ID, ''manage_snapshot''),
        (4, ROLE_OPERATOR_ID, ''manage_catalog'')]\<rparr>" for vs
    by (simp add: bootstrap_privileges_def boot_grant_def bootstrap_batch_on_def empty_catalog_def
        bump_def next_oid_def alloc_row_def ac_simps)
  then show ?thesis by (simp add: bootstrap_catalog_def)
qed

lemma sp_insert_bootstrap:
  "body_spec (\<lambda>c. c = empty_catalog)
     (cbind (cexec X w1 (\<lambda>c. map_option (\<lambda>rows. c\<lparr>allocs := rows\<rparr>)
         (insert_alloc \<lparr>al_id = 1, al_next_oid = FIRST_USER_OID\<rparr> (allocs c)))) (\<lambda>_.
       cbind (cexec X w2 (\<lambda>c. map_option (\<lambda>rows. c\<lparr>versions := rows\<rparr>)
         (insert_version \<lparr>ver_id = 1, ver_schema_version = CATALOG_VERSION,
            ver_snapshot_format = SNAPSHOT_FORMAT_VERSION, ver_epoch = 0, ver_checksum = [],
            ver_status = ''ready''\<rparr> (versions c)))) (\<lambda>_.
       cbind (cexec X w3 (bootstrap_batch hash auth)) (\<lambda>_.
       cbind (cforeach (\<lambda>(role, action).
           cbind (allocate_oid X) (\<lambda>privilege_id.
           cexec X w4 (\<lambda>c. map_option (\<lambda>rows. c\<lparr>privileges := rows\<rparr>)
             (insert_privilege (system_privilege privilege_id role action) (privileges c)))))
         bootstrap_privileges) (\<lambda>_.
       refresh_catalog_checksum X)))))
     (\<lambda>_ d. d = bootstrap_catalog (x_fmt X) hash auth)"
proof (rule body_bind [OF sp_exec], rule body_bind [OF sp_exec], rule body_bind [OF sp_exec],
    rule body_bind [OF sp_boot_grants], rule body_post [OF sp_refresh])
  let ?c1 = "empty_catalog\<lparr>allocs := [\<lparr>al_id = 1, al_next_oid = FIRST_USER_OID\<rparr>]\<rparr>"
  let ?c2 = "?c1\<lparr>versions := [\<lparr>ver_id = 1, ver_schema_version = CATALOG_VERSION,
            ver_snapshot_format = SNAPSHOT_FORMAT_VERSION, ver_epoch = 0, ver_checksum = [],
            ver_status = ''ready''\<rparr>]\<rparr>"
  fix d
  assume *: "\<exists>c. (\<exists>c'. (\<exists>c''. (\<exists>c'''. (\<exists>c''''. c'''' = empty_catalog \<and>
      map_option (\<lambda>rows. c''''\<lparr>allocs := rows\<rparr>) (insert_alloc \<lparr>al_id = 1, al_next_oid = FIRST_USER_OID\<rparr> (allocs c'''')) = Some c''') \<and>
      map_option (\<lambda>rows. c'''\<lparr>versions := rows\<rparr>) (insert_version \<lparr>ver_id = 1, ver_schema_version = CATALOG_VERSION,
            ver_snapshot_format = SNAPSHOT_FORMAT_VERSION, ver_epoch = 0, ver_checksum = [],
            ver_status = ''ready''\<rparr> (versions c''')) = Some c'') \<and> bootstrap_batch hash auth c'' = Some c') \<and>
      c = fold boot_grant bootstrap_privileges c') \<and> d = seal (x_fmt X) c"
  have "insert_alloc r [] = Some [r]" "insert_version v [] = Some [v]" for r v
    by (simp_all add: insert_alloc_def insert_version_def insert_row_def)
  with * have "d = seal (x_fmt X) (fold boot_grant bootstrap_privileges (bootstrap_batch_on hash auth ?c2))"
    by (auto simp: empty_catalog_def bootstrap_batch_empty)
  then show "d = bootstrap_catalog (x_fmt X) hash auth"
    by (simp add: bootstrap_catalog_steps)
qed

section \<open>It satisfies the invariant\<close>

lemma seal_tables [simp]:
  "allocs (seal F c) = allocs c" "journal (seal F c) = journal c" "schemas (seal F c) = schemas c"
  "types (seal F c) = types c" "relations (seal F c) = relations c" "cols (seal F c) = cols c"
  "defaults (seal F c) = defaults c" "constraints (seal F c) = constraints c" "indexes (seal F c) = indexes c"
  "vectors (seal F c) = vectors c" "depends (seal F c) = depends c" "remarks (seal F c) = remarks c"
  "exts (seal F c) = exts c" "parts (seal F c) = parts c" "users (seal F c) = users c"
  "roles (seal F c) = roles c" "user_roles (seal F c) = user_roles c" "privileges (seal F c) = privileges c"
  by (simp_all add: seal_def)

lemma next_oid_seal [simp]: "next_oid (seal F c) = next_oid c"
  by (simp add: next_oid_def alloc_row_def)

lemma version_row_seal: "version_row (seal F c) = map_option (\<lambda>r. r\<lparr>ver_checksum := checksum F c\<rparr>) (version_row c)"
  by (simp add: seal_def)

lemma bootstrap_tables:
  "users (bootstrap_catalog F hash auth) = [user_row ADMIN_USER_ID ''admin'' hash auth True]"
  "roles (bootstrap_catalog F hash auth) = bootstrap_roles"
  "user_roles (bootstrap_catalog F hash auth)
     = [\<lparr>ur_user = ADMIN_USER_ID, ur_role = ROLE_ADMIN_ID, ur_granted_by = ADMIN_USER_ID\<rparr>]"
  "schemas (bootstrap_catalog F hash auth) = bootstrap_schemas"
  "types (bootstrap_catalog F hash auth) = bootstrap_types"
  "remarks (bootstrap_catalog F hash auth) = []"
  "relations (bootstrap_catalog F hash auth) = []"
  "depends (bootstrap_catalog F hash auth) = []"
  "journal (bootstrap_catalog F hash auth) = []"
  "next_oid (bootstrap_catalog F hash auth) = Some (FIRST_USER_OID + 5)"
  by (simp_all add: bootstrap_catalog_def empty_catalog_def next_oid_def alloc_row_def)

lemma bootstrap_oids:
  "all_oids (bootstrap_catalog F hash auth) = [12, 13, 14, 15, 1001, 1002, 1003, 1004, 1005, 1006, 1007, 1008,
     1009, 1010, 1011, 1012, 10, 20, 21, 22, 23, 24, 10000, 10001, 10002, 10003, 10004]"
  by (simp add: all_oids_def bootstrap_catalog_def empty_catalog_def bootstrap_schemas_def bootstrap_types_def
      bootstrap_roles_def builtin_schema_def builtin_type_def builtin_role_row_def system_privilege_def
      user_row_def builtin_ids)

lemma wf_bootstrap: "wf_catalog (bootstrap_catalog F hash auth)"
proof -
  have "wf_oids (bootstrap_catalog F hash auth)"
    by (simp add: wf_oids_def bootstrap_oids bootstrap_tables(10) FIRST_USER_OID_def)
  moreover have "wf_keys (bootstrap_catalog F hash auth)"
    by (simp add: wf_keys_def bootstrap_catalog_def empty_catalog_def bootstrap_schemas_def bootstrap_roles_def
        builtin_schema_def builtin_role_row_def system_privilege_def user_row_def prv_key_def builtin_ids)
  moreover have "wf_refs (bootstrap_catalog F hash auth)"
    by (simp add: wf_refs_def bootstrap_catalog_def empty_catalog_def bootstrap_roles_def
        builtin_role_row_def system_privilege_def user_row_def builtin_ids)
  moreover have "version_row (bootstrap_catalog F hash auth) \<noteq> None"
    by (simp add: bootstrap_catalog_def version_row_seal) (simp add: version_row_def)
  ultimately show ?thesis by (simp add: wf_catalog_def)
qed

lemma good_bootstrap: "good F (bootstrap_catalog F hash auth)"
proof -
  have "sealed F (bootstrap_catalog F hash auth)"
    unfolding bootstrap_catalog_def by (rule sealed_seal) (simp add: version_row_def)
  then show ?thesis by (simp add: good_def wf_bootstrap)
qed

lemma insert_bootstrap_rows_result:
  assumes "cat s = empty_catalog" and "insert_bootstrap_rows X s = (r, s')"
  shows "case r of
      Inr _ \<Rightarrow> saved s' = None \<and> (\<exists>hash. argon2_hash (x_hashes X) ''admin'' = Some hash
        \<and> cat s' = bootstrap_catalog (x_fmt X) hash (mysql_caching_sha2_verifier (x_hashes X) ''admin''))
    | Inl _ \<Rightarrow> committed s' = committed s"
proof (cases "argon2_hash (x_hashes X) ''admin''")
  case None
  then have "insert_bootstrap_rows X s = (Inl EHash, s)"
    by (simp add: insert_bootstrap_rows_def hash_password_def cbind_def clift_def)
  with assms(2) show ?thesis by auto
next
  case (Some hash)
  have run: "insert_bootstrap_rows X s = run_catalog_tx X (
       cbind (cexec X ''write oid allocator failed'' (\<lambda>c. map_option (\<lambda>rows. c\<lparr>allocs := rows\<rparr>)
         (insert_alloc \<lparr>al_id = 1, al_next_oid = FIRST_USER_OID\<rparr> (allocs c)))) (\<lambda>_.
       cbind (cexec X ''write catalog version failed'' (\<lambda>c. map_option (\<lambda>rows. c\<lparr>versions := rows\<rparr>)
         (insert_version \<lparr>ver_id = 1, ver_schema_version = CATALOG_VERSION,
            ver_snapshot_format = SNAPSHOT_FORMAT_VERSION, ver_epoch = 0, ver_checksum = [],
            ver_status = ''ready''\<rparr> (versions c)))) (\<lambda>_.
       cbind (cexec X ''write bootstrap catalog rows failed''
          (bootstrap_batch hash (mysql_caching_sha2_verifier (x_hashes X) ''admin''))) (\<lambda>_.
       cbind (cforeach (\<lambda>(role, action).
           cbind (allocate_oid X) (\<lambda>privilege_id.
           cexec X ''write builtin system privilege failed'' (\<lambda>c. map_option (\<lambda>rows. c\<lparr>privileges := rows\<rparr>)
             (insert_privilege (system_privilege privilege_id role action) (privileges c)))))
         bootstrap_privileges) (\<lambda>_.
       refresh_catalog_checksum X))))) s"
    by (simp add: insert_bootstrap_rows_def hash_password_def Some cbind_clift_Inr Let_def)
  from tx_result [OF sp_insert_bootstrap, OF assms(1), OF assms(2) [unfolded run]]
  show ?thesis using Some by (auto split: sum.splits)
qed

section \<open>Properties\<close>

text \<open>C12: Bootstrapping empty tables is all or nothing. If it fails at any statement, the commit
  included, the committed state is the one before; if it succeeds, no transaction is left open and
  the catalog is exactly the one of \<open>bootstrap_catalog\<close>, which satisfies the catalog
  invariant and carries its own checksum.\<close>

theorem bootstrap_all_or_nothing:
  assumes "cat s = empty_catalog" and "saved s = None"
  shows "case fst (bootstrap_fresh X s) of
      Inr _ \<Rightarrow> saved (snd (bootstrap_fresh X s)) = None
        \<and> (\<exists>hash. argon2_hash (x_hashes X) ''admin'' = Some hash
            \<and> cat (snd (bootstrap_fresh X s))
                = bootstrap_catalog (x_fmt X) hash (mysql_caching_sha2_verifier (x_hashes X) ''admin''))
        \<and> good (x_fmt X) (cat (snd (bootstrap_fresh X s)))
    | Inl _ \<Rightarrow> committed (snd (bootstrap_fresh X s)) = committed s"
proof -
  have v: "version_row empty_catalog = None" by (simp add: version_row_def empty_catalog_def)
  have ins: "case fst (insert_bootstrap_rows X t) of
      Inr _ \<Rightarrow> saved (snd (insert_bootstrap_rows X t)) = None \<and> (\<exists>hash. argon2_hash (x_hashes X) ''admin'' = Some hash
        \<and> cat (snd (insert_bootstrap_rows X t)) = bootstrap_catalog (x_fmt X) hash (mysql_caching_sha2_verifier (x_hashes X) ''admin''))
    | Inl _ \<Rightarrow> committed (snd (insert_bootstrap_rows X t)) = committed t" if "cat t = empty_catalog" for t
    using insert_bootstrap_rows_result [OF that, of X "fst (insert_bootstrap_rows X t)" "snd (insert_bootstrap_rows X t)"]
    by simp
  have quiet: "committed (tick s\<lparr>cat := cat s\<rparr>) = committed s"
    using assms(2) by (simp add: committed_def)
  show ?thesis
    using assms v ins [of "tick (tick s)"] quiet
    by (auto simp: bootstrap_fresh_def create_catalog_storage_def catalog_version_row_exists_def cexec_def
        cquery_def stmt_def cbind_def good_bootstrap split: sum.splits)
qed

theorem bootstrap_all_or_nothing_witness:
  "case fst (bootstrap_fresh (sample_ext (one_parser Commit [])) (sample_conn empty_catalog)) of
      Inr _ \<Rightarrow> good sample_fmt (cat (snd (bootstrap_fresh (sample_ext (one_parser Commit [])) (sample_conn empty_catalog))))
    | Inl _ \<Rightarrow> committed (snd (bootstrap_fresh (sample_ext (one_parser Commit [])) (sample_conn empty_catalog)))
        = (empty_catalog, ())"
  using bootstrap_all_or_nothing [of "sample_conn empty_catalog" "sample_ext (one_parser Commit [])"]
  by (auto simp: sample_conn_def sample_ext_def committed_def split: sum.splits)

end
