(* ===== verification/Rows.thy ===== *)
theory Rows
  imports Bootstrap
begin

text \<open>
  What the invariant says after a row is added to a table, taken out of it or changed in a
  column that is no key: the facts the operations on accounts, grants, schemas and comments
  share, and the shape of a journalled change.
\<close>

section \<open>One row more\<close>

lemma version_row_tables [simp]:
  "version_row (c\<lparr>users := us\<rparr>) = version_row c" "version_row (c\<lparr>roles := rs\<rparr>) = version_row c"
  "version_row (c\<lparr>user_roles := urs\<rparr>) = version_row c" "version_row (c\<lparr>privileges := ps\<rparr>) = version_row c"
  "version_row (c\<lparr>schemas := ns\<rparr>) = version_row c" "version_row (c\<lparr>remarks := cs\<rparr>) = version_row c"
  by (simp_all add: version_row_def)

lemma next_oid_tables [simp]:
  "next_oid (c\<lparr>users := us\<rparr>) = next_oid c" "next_oid (c\<lparr>roles := rs\<rparr>) = next_oid c"
  "next_oid (c\<lparr>user_roles := urs\<rparr>) = next_oid c" "next_oid (c\<lparr>privileges := ps\<rparr>) = next_oid c"
  "next_oid (c\<lparr>schemas := ns\<rparr>) = next_oid c" "next_oid (c\<lparr>remarks := cs\<rparr>) = next_oid c"
  by (simp_all add: next_oid_def alloc_row_def)

lemma all_oids_same [simp]:
  "all_oids (c\<lparr>user_roles := urs\<rparr>) = all_oids c" "all_oids (c\<lparr>remarks := cs\<rparr>) = all_oids c"
  by (simp_all add: all_oids_def)

lemma wf_oids_intro:
  "next_oid d = next_oid c \<Longrightarrow> wf_oids c \<Longrightarrow> unused i c \<Longrightarrow> set (all_oids d) \<subseteq> insert i (set (all_oids c)) \<Longrightarrow>
   distinct (all_oids d) \<Longrightarrow> wf_oids d"
  by (auto simp: wf_oids_def unused_def split: option.splits)

lemma wf_oids_subset:
  "next_oid d = next_oid c \<Longrightarrow> wf_oids c \<Longrightarrow> set (all_oids d) \<subseteq> set (all_oids c) \<Longrightarrow>
   distinct (all_oids d) \<Longrightarrow> wf_oids d"
  by (auto simp: wf_oids_def split: option.splits)

lemma wf_oids_distinct: "wf_oids c \<Longrightarrow> distinct (all_oids c)"
  by (auto simp: wf_oids_def split: option.splits)

lemma unused_notin: "unused i c \<Longrightarrow> i \<notin> set (all_oids c)"
  by (simp add: unused_def)

lemma wf_oids_add_user:
  assumes "wf_oids c" "unused (usr_id u) c"
  shows "wf_oids (c\<lparr>users := users c @ [u]\<rparr>)"
  by (rule wf_oids_intro [OF _ assms])
    (use wf_oids_distinct [OF assms(1)] unused_notin [OF assms(2)] in \<open>auto simp: all_oids_def\<close>)

lemma wf_oids_add_role:
  assumes "wf_oids c" "unused (rol_id r) c"
  shows "wf_oids (c\<lparr>roles := roles c @ [r]\<rparr>)"
  by (rule wf_oids_intro [OF _ assms])
    (use wf_oids_distinct [OF assms(1)] unused_notin [OF assms(2)] in \<open>auto simp: all_oids_def\<close>)

lemma wf_oids_add_privilege:
  assumes "wf_oids c" "unused (prv_id p) c"
  shows "wf_oids (c\<lparr>privileges := privileges c @ [p]\<rparr>)"
  by (rule wf_oids_intro [OF _ assms])
    (use wf_oids_distinct [OF assms(1)] unused_notin [OF assms(2)] in \<open>auto simp: all_oids_def\<close>)

lemma wf_oids_add_schema:
  assumes "wf_oids c" "unused (sch_oid n) c"
  shows "wf_oids (c\<lparr>schemas := schemas c @ [n]\<rparr>)"
  by (rule wf_oids_intro [OF _ assms])
    (use wf_oids_distinct [OF assms(1)] unused_notin [OF assms(2)] in \<open>auto simp: all_oids_def\<close>)

lemma distinct_mid:
  "distinct (a @ b @ d) \<Longrightarrow> distinct b' \<Longrightarrow> set b' \<subseteq> set b \<Longrightarrow> distinct (a @ b' @ d) \<and> set (a @ b' @ d) \<subseteq> set (a @ b @ d)"
  by auto

abbreviation oids_before_users :: "catalog \<Rightarrow> int list" where
  "oids_before_users c \<equiv> map jr_id (journal c) @ map sch_oid (schemas c) @ map ty_oid (types c)
     @ map rel_oid (relations c) @ map def_oid (defaults c) @ map con_oid (constraints c)"

lemma all_oids_split:
  "all_oids c = oids_before_users c @ map usr_id (users c) @ (map rol_id (roles c) @ map prv_id (privileges c))"
  "all_oids c = (oids_before_users c @ map usr_id (users c)) @ map rol_id (roles c) @ map prv_id (privileges c)"
  "all_oids c = (oids_before_users c @ map usr_id (users c) @ map rol_id (roles c)) @ map prv_id (privileges c) @ []"
  by (simp_all add: all_oids_def)

lemma all_oids_replaced:
  "all_oids (c\<lparr>users := us\<rparr>) = oids_before_users c @ map usr_id us @ (map rol_id (roles c) @ map prv_id (privileges c))"
  "all_oids (c\<lparr>roles := rs\<rparr>) = (oids_before_users c @ map usr_id (users c)) @ map rol_id rs @ map prv_id (privileges c)"
  "all_oids (c\<lparr>privileges := ps\<rparr>)
     = (oids_before_users c @ map usr_id (users c) @ map rol_id (roles c)) @ map prv_id ps @ []"
  by (simp_all add: all_oids_def)

lemma upd_self:
  "c\<lparr>users := users c\<rparr> = c" "c\<lparr>roles := roles c\<rparr> = c" "c\<lparr>privileges := privileges c\<rparr> = (c :: catalog)"
  by simp_all

lemma map_filter_subset: "set (map f (filter P xs)) \<subseteq> set (map f xs)"
  by auto

lemma wf_oids_filter:
  assumes "wf_oids c"
  shows "wf_oids (c\<lparr>users := filter P (users c)\<rparr>)" "wf_oids (c\<lparr>roles := filter Q (roles c)\<rparr>)"
    "wf_oids (c\<lparr>privileges := filter R (privileges c)\<rparr>)"
proof -
  note d = wf_oids_distinct [OF assms]
  have "distinct (map usr_id (users c))" "distinct (map rol_id (roles c))" "distinct (map prv_id (privileges c))"
    using d unfolding all_oids_split(1) by simp_all
  note f = this [THEN distinct_map_filter]
  note p = distinct_mid [OF d [unfolded all_oids_split(1)] f(1) [of P] map_filter_subset]
  show "wf_oids (c\<lparr>users := filter P (users c)\<rparr>)"
    using p [folded all_oids_replaced, unfolded upd_self] by (intro wf_oids_subset [OF next_oid_tables(1) assms]) blast+
  note q = distinct_mid [OF d [unfolded all_oids_split(2)] f(2) [of Q] map_filter_subset]
  show "wf_oids (c\<lparr>roles := filter Q (roles c)\<rparr>)"
    using q [folded all_oids_replaced, unfolded upd_self] by (intro wf_oids_subset [OF next_oid_tables(2) assms]) blast+
  note r = distinct_mid [OF d [unfolded all_oids_split(3)] f(3) [of R] map_filter_subset]
  show "wf_oids (c\<lparr>privileges := filter R (privileges c)\<rparr>)"
    using r [folded all_oids_replaced, unfolded upd_self] by (intro wf_oids_subset [OF next_oid_tables(4) assms]) blast+
qed

lemma wf_oids_cong: "next_oid d = next_oid c \<Longrightarrow> all_oids d = all_oids c \<Longrightarrow> wf_oids d = wf_oids c"
  by (cases "next_oid c") (simp_all add: wf_oids_def)

lemma wf_oids_same [simp]:
  "wf_oids (c\<lparr>user_roles := urs\<rparr>) = wf_oids c" "wf_oids (c\<lparr>remarks := cs\<rparr>) = wf_oids c"
  by (rule wf_oids_cong, simp_all)+

text \<open>The invariant after each change, whole.\<close>

lemma wf_add_user:
  assumes "wf_catalog c" "unused (usr_id u) c" "insert_user u (users c) = Some us"
  shows "wf_catalog (c\<lparr>users := us\<rparr>)"
proof -
  have us: "us = users c @ [u]" using user_ids.ins_appends [OF assms(3)] .
  have "wf_oids (c\<lparr>users := us\<rparr>)" using assms(1,2) unfolding us by (simp add: wf_catalog_def wf_oids_add_user)
  moreover have "distinct (map usr_name us)"
    using user_names.distinct_ins [OF _ assms(3)] assms(1) by (simp add: wf_catalog_def wf_keys_def)
  ultimately show ?thesis
    using assms(1) by (auto simp: wf_catalog_def wf_keys_def wf_refs_def us)
qed

lemma wf_add_role:
  assumes "wf_catalog c" "unused (rol_id r) c" "insert_role r (roles c) = Some rs"
  shows "wf_catalog (c\<lparr>roles := rs\<rparr>)"
proof -
  have rs: "rs = roles c @ [r]" using role_ids.ins_appends [OF assms(3)] .
  have "wf_oids (c\<lparr>roles := rs\<rparr>)" using assms(1,2) unfolding rs by (simp add: wf_catalog_def wf_oids_add_role)
  moreover have "distinct (map rol_name rs)"
    using role_names.distinct_ins [OF _ assms(3)] assms(1) by (simp add: wf_catalog_def wf_keys_def)
  ultimately show ?thesis
    using assms(1) by (auto simp: wf_catalog_def wf_keys_def wf_refs_def rs)
qed

lemma wf_add_schema:
  assumes "wf_catalog c" "unused (sch_oid n) c" "insert_schema n (schemas c) = Some ns"
  shows "wf_catalog (c\<lparr>schemas := ns\<rparr>)"
proof -
  have ns: "ns = schemas c @ [n]" using schema_oids.ins_appends [OF assms(3)] .
  have "wf_oids (c\<lparr>schemas := ns\<rparr>)" using assms(1,2) unfolding ns by (simp add: wf_catalog_def wf_oids_add_schema)
  moreover have "distinct (map sch_name ns)"
    using schema_names.distinct_ins [OF _ assms(3)] assms(1) by (simp add: wf_catalog_def wf_keys_def)
  ultimately show ?thesis
    using assms(1) by (auto simp: wf_catalog_def wf_keys_def wf_refs_def ns)
qed

lemma wf_add_user_role:
  assumes "wf_catalog c" "ur_user r \<in> usr_id ` set (users c)" "ur_role r \<in> rol_id ` set (roles c)"
    and "insert_user_role r (user_roles c) = Some urs"
  shows "wf_catalog (c\<lparr>user_roles := urs\<rparr>)"
proof -
  have urs: "urs = user_roles c @ [r]" using user_role_keys.ins_appends [OF assms(4)] .
  have "wf_oids (c\<lparr>user_roles := urs\<rparr>)" using assms(1) by (simp add: wf_catalog_def)
  moreover have "distinct (map (\<lambda>r. (ur_user r, ur_role r)) urs)"
    using user_role_keys.distinct_ins [OF _ assms(4)] assms(1) by (simp add: wf_catalog_def wf_keys_def)
  ultimately show ?thesis
    using assms(1-3) by (auto simp: wf_catalog_def wf_keys_def wf_refs_def urs)
qed

definition principal_exists :: "catalog \<Rightarrow> string \<Rightarrow> int \<Rightarrow> bool" where
  "principal_exists c t i \<longleftrightarrow> t = ''user'' \<and> i \<in> usr_id ` set (users c) \<or> t = ''role'' \<and> i \<in> rol_id ` set (roles c)"

lemma wf_add_privilege:
  assumes "wf_catalog c" "unused (prv_id p) c" "principal_exists c (prv_principal_type p) (prv_principal p)"
    and "insert_privilege p (privileges c) = Some ps"
  shows "wf_catalog (c\<lparr>privileges := ps\<rparr>)"
proof -
  have ps: "ps = privileges c @ [p]" using privilege_ids.ins_appends [OF assms(4)] .
  have "wf_oids (c\<lparr>privileges := ps\<rparr>)" using assms(1,2) unfolding ps by (simp add: wf_catalog_def wf_oids_add_privilege)
  moreover have "distinct (map prv_key ps)"
    using privilege_keys.distinct_ins [OF _ assms(4)] assms(1) by (simp add: wf_catalog_def wf_keys_def)
  ultimately show ?thesis
    using assms(1,3) by (auto simp: wf_catalog_def wf_keys_def wf_refs_def principal_exists_def ps)
qed

lemma wf_add_comment:
  assumes "wf_catalog c" "insert_comment r (remarks c) = Some cs"
  shows "wf_catalog (c\<lparr>remarks := cs\<rparr>)"
proof -
  have "wf_oids (c\<lparr>remarks := cs\<rparr>)" using assms(1) by (simp add: wf_catalog_def)
  with comment_keys.distinct_ins [OF _ assms(2)] assms(1) show ?thesis
    by (auto simp: wf_catalog_def wf_keys_def wf_refs_def)
qed

lemma wf_del_comments:
  assumes "wf_catalog c"
  shows "wf_catalog (c\<lparr>remarks := filter P (remarks c)\<rparr>)"
proof -
  have "wf_oids (c\<lparr>remarks := filter P (remarks c)\<rparr>)" using assms by (simp add: wf_catalog_def)
  with assms show ?thesis by (auto simp: wf_catalog_def wf_keys_def wf_refs_def)
qed

lemma wf_del_privileges:
  assumes "wf_catalog c"
  shows "wf_catalog (c\<lparr>privileges := filter P (privileges c)\<rparr>)"
  using assms wf_oids_filter(3) [of c P] by (auto simp: wf_catalog_def wf_keys_def wf_refs_def)

lemma wf_del_user_roles:
  assumes "wf_catalog c"
  shows "wf_catalog (c\<lparr>user_roles := filter P (user_roles c)\<rparr>)"
proof -
  have "wf_oids (c\<lparr>user_roles := filter P (user_roles c)\<rparr>)" using assms by (simp add: wf_catalog_def)
  with assms show ?thesis by (auto simp: wf_catalog_def wf_keys_def wf_refs_def)
qed

text \<open>A user or role can go once nothing refers to it.\<close>

lemma wf_del_user:
  assumes "wf_catalog c" "\<forall>r\<in>set (user_roles c). ur_user r \<noteq> i"
    and "\<forall>p\<in>set (privileges c). \<not> (prv_principal_type p = ''user'' \<and> prv_principal p = i)"
  shows "wf_catalog (c\<lparr>users := filter (\<lambda>u. usr_id u \<noteq> i) (users c)\<rparr>)"
proof -
  have "wf_refs (c\<lparr>users := filter (\<lambda>u. usr_id u \<noteq> i) (users c)\<rparr>)"
    using assms by (fastforce simp: wf_catalog_def wf_refs_def)
  then show ?thesis
    using assms(1) wf_oids_filter(1) [of c "\<lambda>u. usr_id u \<noteq> i"] by (auto simp: wf_catalog_def wf_keys_def)
qed

lemma wf_del_role:
  assumes "wf_catalog c" "\<forall>r\<in>set (user_roles c). ur_role r \<noteq> i"
    and "\<forall>p\<in>set (privileges c). \<not> (prv_principal_type p = ''role'' \<and> prv_principal p = i)"
  shows "wf_catalog (c\<lparr>roles := filter (\<lambda>r. rol_id r \<noteq> i) (roles c)\<rparr>)"
proof -
  have "wf_refs (c\<lparr>roles := filter (\<lambda>r. rol_id r \<noteq> i) (roles c)\<rparr>)"
    using assms by (fastforce simp: wf_catalog_def wf_refs_def)
  then show ?thesis
    using assms(1) wf_oids_filter(2) [of c "\<lambda>r. rol_id r \<noteq> i"] by (auto simp: wf_catalog_def wf_keys_def)
qed

lemma wf_update_users:
  assumes "wf_catalog c" "\<And>u. usr_id (f u) = usr_id u" "\<And>u. usr_name (f u) = usr_name u"
  shows "wf_catalog (c\<lparr>users := update_where P f (users c)\<rparr>)"
proof -
  have ids: "map usr_id (update_where P f (users c)) = map usr_id (users c)"
    and names: "map usr_name (update_where P f (users c)) = map usr_name (users c)"
    using assms(2,3) by (simp_all add: map_update_where)
  from ids have idset: "usr_id ` set (update_where P f (users c)) = usr_id ` set (users c)"
    by (metis list.set_map)
  from ids have "all_oids (c\<lparr>users := update_where P f (users c)\<rparr>) = all_oids c" by (simp add: all_oids_def)
  then have "wf_oids (c\<lparr>users := update_where P f (users c)\<rparr>)"
    using assms(1) by (auto simp: wf_catalog_def intro: iffD2 [OF wf_oids_cong])
  then show ?thesis using assms(1) by (simp add: wf_catalog_def wf_keys_def wf_refs_def names idset)
qed

end
