(* ===== verification/Atomic.thy ===== *)
theory Atomic
  imports Rows
begin

text \<open>
  The contract every catalog operation keeps towards its callers, whatever statement of it the
  engine refuses: the committed catalog satisfies the invariant afterwards if it did before, an
  error means that nothing was committed, and a success leaves no transaction open. The locale
  \<open>catalog_operation\<close> states it; each operation is an interpretation of it.
\<close>

section \<open>Journalled changes\<close>

text \<open>A journalled change: the entry is opened, the change made, the entry closed.\<close>

definition journaled :: "float_fmt \<Rightarrow> string \<Rightarrow> int \<Rightarrow> string \<Rightarrow> (catalog \<Rightarrow> catalog) \<Rightarrow> catalog \<Rightarrow> catalog" where
  "journaled F m target request g c = close_journal F (the (next_oid c)) (g (open_journal m target request c))"

lemma good_journaled: "wf_catalog (g (open_journal m t r c)) \<Longrightarrow> good F (journaled F m t r g c)"
  unfolding journaled_def by (rule good_close)

lemma goodD: "good F c \<Longrightarrow> wf_catalog c"
  by (simp add: good_def)

section \<open>The contract\<close>

definition catalog_of :: "'p conn \<Rightarrow> catalog" where
  "catalog_of s = fst (committed s)"

definition atomic :: "'p external \<Rightarrow> ('p, 'a) db \<Rightarrow> bool" where
  "atomic X m \<longleftrightarrow> (\<forall>s r s'. m s = (r, s') \<longrightarrow> good (x_fmt X) (catalog_of s) \<longrightarrow>
     good (x_fmt X) (catalog_of s')
     \<and> (\<forall>e. r = Inl e \<longrightarrow> committed s' = committed s)
     \<and> (\<forall>v. r = Inr v \<longrightarrow> saved s = None \<longrightarrow> saved s' = None))"

named_theorems atomic_rules "computations that keep the contract"

lemma atomicI:
  "(\<And>s r s'. m s = (r, s') \<Longrightarrow> good (x_fmt X) (catalog_of s) \<Longrightarrow> good (x_fmt X) (catalog_of s')
     \<and> (\<forall>e. r = Inl e \<longrightarrow> committed s' = committed s) \<and> (\<forall>v. r = Inr v \<longrightarrow> saved s = None \<longrightarrow> saved s' = None))
   \<Longrightarrow> atomic X m"
  unfolding atomic_def by blast

lemma atomicD:
  assumes "atomic X m" "m s = (r, s')" "good (x_fmt X) (catalog_of s)"
  shows "good (x_fmt X) (catalog_of s')" "r = Inl e \<Longrightarrow> committed s' = committed s"
    "r = Inr v \<Longrightarrow> saved s = None \<Longrightarrow> saved s' = None"
  using assms unfolding atomic_def by blast+

text \<open>A transaction over a body that keeps the invariant keeps the contract. When a transaction is
  open already, it is refused.\<close>

lemma run_in_open_tx:
  assumes "saved s \<noteq> None"
  shows "run_catalog_tx X f s = (Inl (EDb ''begin catalog mutation failed''), tick s)"
  using assms by (auto simp: run_catalog_tx_def tx_begin_def stmt_def cbind_def)

lemma atomic_tx [atomic_rules]:
  assumes "body_spec (good (x_fmt X)) f (\<lambda>_. good (x_fmt X))"
  shows "atomic X (run_catalog_tx X f)"
proof (rule atomicI)
  fix s r s' assume run: "run_catalog_tx X f s = (r, s')" and g: "good (x_fmt X) (catalog_of s)"
  show "good (x_fmt X) (catalog_of s') \<and> (\<forall>e. r = Inl e \<longrightarrow> committed s' = committed s)
     \<and> (\<forall>v. r = Inr v \<longrightarrow> saved s = None \<longrightarrow> saved s' = None)"
  proof (cases "saved s")
    case None
    with g have "good (x_fmt X) (cat s)" by (simp add: catalog_of_def committed_def)
    from tx_result [OF assms this run] g show ?thesis
      by (cases r) (auto simp: catalog_of_def committed_def)
  next
    case (Some x)
    with run run_in_open_tx [of s X f] g show ?thesis by (auto simp: catalog_of_def)
  qed
qed

lemma atomic_throw [atomic_rules]: "atomic X (cthrow e)"
  by (auto simp: atomic_def cthrow_def)

lemma atomic_return [atomic_rules]: "atomic X (creturn v)"
  by (auto simp: atomic_def creturn_def)

lemma atomic_if [atomic_rules]: "atomic X m \<Longrightarrow> atomic X n \<Longrightarrow> atomic X (if b then m else n)"
  by simp

lemma atomic_option [atomic_rules]:
  "atomic X m \<Longrightarrow> (\<And>x. atomic X (f x)) \<Longrightarrow> atomic X (case v of None \<Rightarrow> m | Some x \<Rightarrow> f x)"
  by (cases v) auto

lemma atomic_prod [atomic_rules]: "(\<And>a b. atomic X (f a b)) \<Longrightarrow> atomic X (case v of (a, b) \<Rightarrow> f a b)"
  by (cases v) auto

text \<open>Reads before the transaction do not matter.\<close>

lemma committed_read:
  assumes "read_only m" "m s = (r, s')"
  shows "committed s' = committed s" "saved s' = saved s"
  using read_onlyD [OF assms] by (cases "saved s"; simp add: committed_def)+

lemma atomic_read_bind:
  assumes "read_only m" "\<And>v. atomic X (f v)"
  shows "atomic X (cbind m f)"
proof (rule atomicI)
  fix s r s' assume b: "cbind m f s = (r, s')" and g: "good (x_fmt X) (catalog_of s)"
  obtain rm s1 where m: "m s = (rm, s1)" by (cases "m s")
  note c = committed_read [OF assms(1) m]
  show "good (x_fmt X) (catalog_of s') \<and> (\<forall>e. r = Inl e \<longrightarrow> committed s' = committed s)
     \<and> (\<forall>v. r = Inr v \<longrightarrow> saved s = None \<longrightarrow> saved s' = None)"
  proof (cases rm)
    case (Inl e)
    with m b c g show ?thesis by (auto simp: cbind_def catalog_of_def)
  next
    case (Inr v)
    with m b have "f v s1 = (r, s')" by (simp add: cbind_def)
    with assms(2) [of v] c g show ?thesis unfolding atomic_def by (auto simp: catalog_of_def)
  qed
qed

lemma atomic_read: "read_only m \<Longrightarrow> atomic X m"
  by (rule atomicI) (auto dest: committed_read simp: catalog_of_def)

lemma atomic_map: "atomic X m \<Longrightarrow> atomic X (cbind m (\<lambda>v. creturn (f v)))"
  unfolding atomic_def cbind_def creturn_def by (fastforce split: prod.splits sum.splits)

text \<open>A property of catalogs the body keeps survives the transaction, committed or not.\<close>

lemma tx_invariant:
  assumes "body_spec P f (\<lambda>_. P)" and "P (catalog_of s)"
  shows "P (catalog_of (snd (run_catalog_tx X f s)))"
proof (cases "run_catalog_tx X f s")
  case (Pair r s')
  show ?thesis
  proof (cases "saved s")
    case None
    with assms(2) have "P (cat s)" by (simp add: catalog_of_def committed_def)
    from tx_result [OF assms(1) this Pair] Pair assms(2) show ?thesis
      by (cases r) (auto simp: catalog_of_def committed_def)
  next
    case (Some x)
    with run_in_open_tx [of s X f] assms(2) show ?thesis by (auto simp: catalog_of_def)
  qed
qed

section \<open>The interface\<close>

locale catalog_operation =
  fixes X :: "'p external"
    and run :: "('p, 'a) db"
  assumes keeps: "run s = (r, s') \<Longrightarrow> good (x_fmt X) (catalog_of s) \<Longrightarrow> good (x_fmt X) (catalog_of s')"
    and fails_clean: "run s = (Inl e, s') \<Longrightarrow> good (x_fmt X) (catalog_of s) \<Longrightarrow> committed s' = committed s"
    and leaves_closed: "run s = (Inr v, s') \<Longrightarrow> good (x_fmt X) (catalog_of s) \<Longrightarrow> saved s = None \<Longrightarrow> saved s' = None"
begin

text \<open>Any number of runs of the operation.\<close>

lemma repeat_keeps:
  "good (x_fmt X) (catalog_of s) \<Longrightarrow> good (x_fmt X) (catalog_of (((\<lambda>t. snd (run t)) ^^ n) s))"
proof (induction n)
  case (Suc n)
  then show ?case using keeps [OF prod.collapse [symmetric]] by simp
qed simp

lemma success_is_visible:
  "run s = (Inr v, s') \<Longrightarrow> good (x_fmt X) (catalog_of s) \<Longrightarrow> saved s = None \<Longrightarrow> catalog_of s' = cat s'"
  using leaves_closed by (simp add: catalog_of_def committed_def)

lemma still_wf: "run s = (r, s') \<Longrightarrow> good (x_fmt X) (catalog_of s) \<Longrightarrow> wf_catalog (catalog_of s')"
  using keeps by (simp add: good_def)

end

lemma atomic_operation: "atomic X m \<Longrightarrow> catalog_operation X m"
  by unfold_locales (auto dest: atomicD)

end
