(* ===== verification/Progress.thy ===== *)
theory Progress
  imports Atomic
begin

text \<open>
  Success. On an engine that refuses no statement, \<open>runs m c v d\<close> says that \<open>m\<close>
  returns \<open>v\<close> from the catalog \<open>c\<close> and ends with \<open>d\<close>. With the contract of
  \<open>Atomic\<close> it makes the operations' behaviour total: when the checks of the code pass, the
  operation succeeds and this is what it does.
\<close>

definition reliable :: "'p external \<Rightarrow> bool" where
  "reliable X \<longleftrightarrow> (\<forall>n. \<not> x_fails X n) \<and> (\<forall>sql p. x_ddl X sql p \<noteq> None)"

definition runs :: "('p, 'a) db \<Rightarrow> catalog \<Rightarrow> 'a \<Rightarrow> catalog \<Rightarrow> bool" where
  "runs m c v d \<longleftrightarrow> (\<forall>s. cat s = c \<longrightarrow> (\<exists>s'. m s = (Inr v, s') \<and> cat s' = d \<and> saved s' = saved s))"

named_theorems runs_rules "successful runs"

lemma runsI: "(\<And>s. cat s = c \<Longrightarrow> \<exists>s'. m s = (Inr v, s') \<and> cat s' = d \<and> saved s' = saved s) \<Longrightarrow> runs m c v d"
  by (simp add: runs_def)

lemma runs_return [runs_rules]: "runs (creturn v) c v c"
  by (simp add: runs_def creturn_def)

lemma runs_lift [runs_rules]: "r = Inr v \<Longrightarrow> runs (clift r) c v c"
  by (simp add: runs_def clift_def)

lemma runs_bind [runs_rules]: "runs m c v d \<Longrightarrow> runs (f v) d w e \<Longrightarrow> runs (cbind m f) c w e"
  unfolding runs_def cbind_def by (fastforce split: prod.splits)

lemma runs_query [runs_rules]: "reliable X \<Longrightarrow> runs (cquery X w f) c (f c) c"
  by (auto simp: runs_def reliable_def cquery_def stmt_def)

lemma runs_query_row [runs_rules]: "reliable X \<Longrightarrow> f c = Some v \<Longrightarrow> runs (cquery_row X w f) c v c"
  by (auto simp: runs_def reliable_def cquery_row_def stmt_def)

lemma runs_exec [runs_rules]: "reliable X \<Longrightarrow> g c = Some d \<Longrightarrow> runs (cexec X w g) c () d"
  by (auto simp: runs_def reliable_def cexec_def stmt_def)

lemma runs_exec_count [runs_rules]: "reliable X \<Longrightarrow> g c = (n, d) \<Longrightarrow> runs (cexec_count X w g) c n d"
  by (auto simp: runs_def reliable_def cexec_count_def stmt_def)

lemma runs_ddl [runs_rules]:
  fixes X :: "'p external"
  shows "reliable X \<Longrightarrow> runs (cddl X w sql) c () c"
proof (rule runsI)
  fix s :: "'p conn" assume "reliable X" "cat s = c"
  moreover have "x_ddl X sql (phys s) \<noteq> None" using \<open>reliable X\<close> unfolding reliable_def by blast
  ultimately show "\<exists>s'. cddl X w sql s = (Inr (), s') \<and> cat s' = c \<and> saved s' = saved s"
    by (cases "x_ddl X sql (phys s)") (auto simp: reliable_def cddl_def stmt_def)
qed

lemma runs_map_err [runs_rules]: "runs m c v d \<Longrightarrow> runs (cmap_err h m) c v d"
  unfolding runs_def cmap_err_def by fastforce

lemma runs_conv: "runs m c v d \<Longrightarrow> v = v' \<Longrightarrow> d = d' \<Longrightarrow> runs m c v' d'"
  by simp

lemma runs_fold:
  "(\<And>x a. x \<in> set xs \<Longrightarrow> runs (f x a) c (g x a) c) \<Longrightarrow> runs (cfold f xs acc) c (fold g xs acc) c"
proof (induction xs arbitrary: acc)
  case (Cons x xs)
  then show ?case by (auto intro!: runs_bind [of "f x acc" c "g x acc" c])
qed (simp add: runs_return)

section \<open>Identifiers, journal and checksum\<close>

lemma runs_allocate [runs_rules]:
  assumes "reliable X" "next_oid c = Some n"
  shows "runs (allocate_oid X) c n (bump c)"
proof -
  note a = runs_query_row [OF assms(1), of "\<lambda>c. map_option al_next_oid (alloc_row c)" c n]
  have "map_option al_next_oid (alloc_row c) = Some n" using assms(2) by (simp add: next_oid_def)
  note a = a [OF this]
  show ?thesis
    unfolding allocate_oid_def
    by (rule runs_bind, rule a, rule runs_bind,
        rule runs_exec [OF assms(1) refl], rule runs_conv, rule runs_return) (simp_all add: bump_def)
qed

lemma runs_insert_journal [runs_rules]:
  assumes "reliable X" "wf_catalog c" "next_oid c = Some j"
  shows "runs (insert_journal X m t r) c j (open_journal m t r c)"
proof -
  obtain row where v: "version_row c = Some row" using assms(2) by (auto simp: wf_catalog_def)
  have "j \<notin> jr_id ` set (journal c)"
    using assms(2,3) by (auto simp: wf_catalog_def wf_oids_def all_oids_def)
  then have ins: "insert_journal_row \<lparr>jr_id = j, jr_epoch = e, jr_mutation_type = m, jr_target_oid = t,
      jr_request = r, jr_status = ''pending'', jr_error = []\<rparr> (journal c)
      = Some (journal c @ [\<lparr>jr_id = j, jr_epoch = e, jr_mutation_type = m, jr_target_oid = t,
      jr_request = r, jr_status = ''pending'', jr_error = []\<rparr>])" for e
    by (auto simp: insert_journal_row_def insert_row_def list_ex_iff)
  show ?thesis
    unfolding insert_journal_def catalog_epoch_def
    by (rule runs_bind [OF runs_allocate [OF assms(1,3)]], rule runs_bind, rule runs_query_row [OF assms(1)],
        simp add: v, rule runs_bind, rule runs_exec [OF assms(1)], simp add: ins, rule runs_conv,
        rule runs_return) (simp_all add: open_journal_def assms(3) v)
qed

lemma runs_checksum [runs_rules]:
  assumes "reliable X"
  shows "runs (calculate_catalog_checksum X) c (checksum (x_fmt X) c) c"
  unfolding calculate_catalog_checksum_def
proof (rule runs_bind)
  show "runs (cfold (\<lambda>(label, q) st. cbind (cquery X ''query catalog checksum rows failed'' q) (\<lambda>rows.
              creturn (hash_rows rows (hash_checksum_part label st))))
            (catalog_checksum_queries (x_fmt X)) FNV64_OFFSET) c
     (fold (\<lambda>(label, q) st. hash_rows (q c) (hash_checksum_part label st)) (catalog_checksum_queries (x_fmt X)) FNV64_OFFSET) c"
    by (rule runs_fold) (auto intro!: runs_rules assms simp: split_beta)
qed (rule runs_conv, rule runs_return, simp_all add: checksum_def hash_catalog_def)

lemma runs_finish_journal [runs_rules]:
  assumes "reliable X" "j \<in> jr_id ` set (journal c)"
  shows "runs (finish_journal X j) c () (close_journal (x_fmt X) j c)"
proof -
  from assms(2) obtain row where "List.find (\<lambda>r. jr_id r = j) (journal c) = Some row"
    by (cases "List.find (\<lambda>r. jr_id r = j) (journal c)") (auto simp: find_None_iff)
  then show ?thesis
    unfolding finish_journal_def refresh_catalog_checksum_def close_journal_def seal_def
    by (intro runs_bind [OF runs_query_row [OF assms(1)]] runs_bind [OF runs_exec [OF assms(1) refl]]
        runs_bind [OF runs_checksum [OF assms(1)]] runs_exec [OF assms(1)]) simp_all
qed

section \<open>Transactions\<close>

lemma runs_tx:
  assumes "reliable X" "runs f (cat s) v d" "saved s = None"
  shows "\<exists>s'. run_catalog_tx X f s = (Inr v, s') \<and> cat s' = d \<and> saved s' = None"
proof -
  let ?s = "(tick s)\<lparr>saved := Some (cat s, phys s)\<rparr>"
  from assms(2) obtain s' where "f ?s = (Inr v, s')" "cat s' = d"
    using runs_def [THEN iffD1, rule_format, of f "cat s" v d ?s] by auto
  with assms(1,3) show ?thesis
    by (auto simp: run_catalog_tx_def tx_begin_def tx_commit_def stmt_def cbind_def creturn_def reliable_def)
qed

lemma reliable_sample [simp]: "reliable (sample_ext P)"
  by (simp add: reliable_def sample_ext_def)

end
