(* ===== verification/Accounts.thy ===== *)
theory Accounts
  imports Progress
begin

text \<open>
  Users and roles: \<^verbatim>\<open>src/catalog/mutation/user_role.rs\<close> and the account half of
  \<^verbatim>\<open>src/catalog/mutation/drop.rs\<close>. Each operation is a transaction that journals its
  change. Main results: whatever happens the invariant survives, a failed operation leaves
  nothing, and a successful one does exactly what it says; a user created with a password can
  log in with it over both protocols; builtin roles cannot be dropped.
\<close>

section \<open>CREATE USER\<close>

definition create_user_account :: "'p external \<Rightarrow> create_user \<Rightarrow> string \<Rightarrow> int \<Rightarrow> ('p, nat) db" where
  "create_user_account X cu sql owner =
     (if cu_or_replace cu then cthrow (EMut OrReplaceUser)
      else let username = trim (cu_name cu) in
        cbind (clift (validate_username username)) (\<lambda>_.
        cbind (clift (ok_or (first_of (quoted_literals sql)) (EMut PasswordRequired))) (\<lambda>password.
        cbind (clift (hash_password (x_hashes X) password)) (\<lambda>password_hash.
        let mysql_auth_string = mysql_caching_sha2_verifier (x_hashes X) password in
        run_catalog_tx X (
          cbind (user_exists X username) (\<lambda>present.
          if present then
            (if cu_if_not_exists cu then creturn 0 else cthrow (EMut (UserExists username)))
          else
            cbind (allocate_oid X) (\<lambda>user_id.
            cbind (insert_journal X ''create_user'' user_id sql) (\<lambda>journal_id.
            cbind (cexec X ''write rs_user failed'' (\<lambda>c. map_option (\<lambda>rows. c\<lparr>users := rows\<rparr>)
              (insert_user (user_row user_id username password_hash mysql_auth_string False) (users c)))) (\<lambda>_.
            cbind (role_id_by_name X ''reader'') (\<lambda>reader_role.
            cbind (cexec X ''write default user role failed'' (\<lambda>c. map_option (\<lambda>rows. c\<lparr>user_roles := rows\<rparr>)
              (insert_user_role \<lparr>ur_user = user_id, ur_role = reader_role, ur_granted_by = owner\<rparr>
                (user_roles c)))) (\<lambda>_.
            cbind (finish_journal X journal_id) (\<lambda>_.
            creturn 1))))))))))))"

section \<open>CREATE ROLE\<close>

definition create_one_role :: "'p external \<Rightarrow> bool \<Rightarrow> string \<Rightarrow> object_name \<Rightarrow> nat \<Rightarrow> ('p, nat) db" where
  "create_one_role X if_not_exists sql name affected =
     cbind (clift (single_name_part name)) (\<lambda>role_name.
     cbind (clift (validate_role_name role_name)) (\<lambda>_.
     cbind (role_id_by_name_opt X role_name) (\<lambda>present.
     if present \<noteq> None then
       (if if_not_exists then creturn affected else cthrow (EMut (RoleExists role_name)))
     else
       cbind (allocate_oid X) (\<lambda>role_id.
       cbind (insert_journal X ''create_role'' role_id sql) (\<lambda>journal_id.
       cbind (cexec X ''write rs_role failed'' (\<lambda>c. map_option (\<lambda>rows. c\<lparr>roles := rows\<rparr>)
         (insert_role \<lparr>rol_id = role_id, rol_name = role_name, rol_description = [], rol_builtin = False\<rparr>
           (roles c)))) (\<lambda>_.
       cbind (finish_journal X journal_id) (\<lambda>_.
       creturn (affected + 1))))))))"

definition create_role_account :: "'p external \<Rightarrow> create_role \<Rightarrow> string \<Rightarrow> int \<Rightarrow> ('p, nat) db" where
  "create_role_account X cr sql owner =
     (if cr_names cr = [] then cthrow (EMut NoRoleNames)
      else if list_ex id (cr_options cr) then cthrow (EMut RoleOptions)
      else run_catalog_tx X (cfold (create_one_role X (cr_if_not_exists cr) sql) (cr_names cr) 0))"

section \<open>ALTER USER\<close>

definition set_password :: "int \<Rightarrow> string \<Rightarrow> string \<Rightarrow> catalog \<Rightarrow> catalog" where
  "set_password user_id hash auth c = c\<lparr>users := update_where (\<lambda>u. usr_id u = user_id)
     (\<lambda>u. u\<lparr>usr_password_hash := hash, usr_password_algo := ''argon2id'',
            usr_plugin := MYSQL_CACHING_SHA2_PASSWORD, usr_auth_string := auth\<rparr>) (users c)\<rparr>"

definition alter_user_account :: "'p external \<Rightarrow> alter_user \<Rightarrow> string \<Rightarrow> int \<Rightarrow> ('p, nat) db" where
  "alter_user_account X au sql owner =
     (if list_ex id (au_options au) then cthrow (EMut AlterUserOptions)
      else let username = trim (au_name au) in
        cbind (clift (validate_username username)) (\<lambda>_.
        cbind (clift (ok_or (au_password au) (EMut AlterPasswordRequired))) (\<lambda>password_option.
        cbind (clift (ok_or password_option (EMut AlterPasswordNull))) (\<lambda>password.
        cbind (clift (hash_password (x_hashes X) password)) (\<lambda>password_hash.
        let mysql_auth_string = mysql_caching_sha2_verifier (x_hashes X) password in
        run_catalog_tx X (
          cbind (user_id_by_name_opt X username) (\<lambda>found. case found of
            None \<Rightarrow> if au_if_exists au then creturn 0 else cthrow (EMut (UserMissing username))
          | Some user_id \<Rightarrow>
              cbind (insert_journal X ''alter_user_password'' user_id sql) (\<lambda>journal_id.
              cbind (cexec X ''update user password failed''
                 (\<lambda>c. Some (set_password user_id password_hash mysql_auth_string c))) (\<lambda>_.
              cbind (finish_journal X journal_id) (\<lambda>_.
              creturn 1))))))))))"

section \<open>DROP ROLE and DROP USER\<close>

definition drop_one_role :: "'p external \<Rightarrow> bool \<Rightarrow> bool \<Rightarrow> string \<Rightarrow> object_name \<Rightarrow> nat \<Rightarrow> ('p, nat) db" where
  "drop_one_role X if_exists cascade sql name affected =
     cbind (clift (single_name_part name)) (\<lambda>role_name.
     cbind (role_id_by_name_opt X role_name) (\<lambda>found. case found of
       None \<Rightarrow> if if_exists then creturn affected else cthrow (EMut (RoleMissing role_name))
     | Some role_id \<Rightarrow>
         cbind (builtin_role X role_id) (\<lambda>builtin.
         if builtin then cthrow (EMut (BuiltinRole role_name))
         else
         cbind (if cascade then creturn False else role_has_dependents X role_id) (\<lambda>dependents.
         if dependents then cthrow (EMut (RoleHasDependents role_name))
         else
         cbind (insert_journal X ''drop_role'' role_id sql) (\<lambda>journal_id.
         cbind (cexec X ''drop role catalog rows failed'' (\<lambda>c. Some (c\<lparr>user_roles :=
            filter (\<lambda>r. ur_role r \<noteq> role_id) (user_roles c)\<rparr>))) (\<lambda>_.
         cbind (cexec X ''drop role catalog rows failed'' (\<lambda>c. Some (c\<lparr>privileges :=
            filter (\<lambda>p. \<not> (prv_principal_type p = ''role'' \<and> prv_principal p = role_id)) (privileges c)\<rparr>))) (\<lambda>_.
         cbind (cexec X ''drop role catalog rows failed'' (\<lambda>c. Some (c\<lparr>roles :=
            filter (\<lambda>r. rol_id r \<noteq> role_id) (roles c)\<rparr>))) (\<lambda>_.
         cbind (finish_journal X journal_id) (\<lambda>_.
         creturn (affected + 1))))))))))"

definition drop_role_accounts ::
    "'p external \<Rightarrow> bool \<Rightarrow> object_name list \<Rightarrow> bool \<Rightarrow> string \<Rightarrow> ('p, nat) db" where
  "drop_role_accounts X if_exists names cascade sql =
     run_catalog_tx X (cfold (drop_one_role X if_exists cascade sql) names 0)"

definition drop_one_user :: "'p external \<Rightarrow> bool \<Rightarrow> string \<Rightarrow> object_name \<Rightarrow> nat \<Rightarrow> ('p, nat) db" where
  "drop_one_user X if_exists sql name affected =
     cbind (clift (single_name_part name)) (\<lambda>username.
     if eq_ignore_case username ''admin'' then cthrow (EMut DropAdmin)
     else
     cbind (user_id_by_name_opt X username) (\<lambda>found. case found of
       None \<Rightarrow> if if_exists then creturn affected else cthrow (EMut (UserMissing username))
     | Some user_id \<Rightarrow>
         cbind (insert_journal X ''drop_user'' user_id sql) (\<lambda>journal_id.
         cbind (cexec X ''drop user catalog rows failed'' (\<lambda>c. Some (c\<lparr>user_roles :=
            filter (\<lambda>r. ur_user r \<noteq> user_id) (user_roles c)\<rparr>))) (\<lambda>_.
         cbind (cexec X ''drop user catalog rows failed'' (\<lambda>c. Some (c\<lparr>privileges :=
            filter (\<lambda>p. \<not> (prv_principal_type p = ''user'' \<and> prv_principal p = user_id)) (privileges c)\<rparr>))) (\<lambda>_.
         cbind (cexec X ''drop user catalog rows failed'' (\<lambda>c. Some (c\<lparr>users :=
            filter (\<lambda>u. usr_id u \<noteq> user_id) (users c)\<rparr>))) (\<lambda>_.
         cbind (finish_journal X journal_id) (\<lambda>_.
         creturn (affected + 1))))))))"

definition drop_user_accounts :: "'p external \<Rightarrow> bool \<Rightarrow> object_name list \<Rightarrow> string \<Rightarrow> ('p, nat) db" where
  "drop_user_accounts X if_exists names sql =
     run_catalog_tx X (cfold (drop_one_user X if_exists sql) names 0)"

section \<open>What each operation does\<close>

text \<open>The body of CREATE USER once the name and the password are known.\<close>

definition create_user_body :: "'p external \<Rightarrow> bool \<Rightarrow> string \<Rightarrow> string \<Rightarrow> string \<Rightarrow> string \<Rightarrow> int \<Rightarrow> ('p, nat) db" where
  "create_user_body X if_not_exists username hash auth sql owner =
          cbind (user_exists X username) (\<lambda>present.
          if present then
            (if if_not_exists then creturn 0 else cthrow (EMut (UserExists username)))
          else
            cbind (allocate_oid X) (\<lambda>user_id.
            cbind (insert_journal X ''create_user'' user_id sql) (\<lambda>journal_id.
            cbind (cexec X ''write rs_user failed'' (\<lambda>c. map_option (\<lambda>rows. c\<lparr>users := rows\<rparr>)
              (insert_user (user_row user_id username hash auth False) (users c)))) (\<lambda>_.
            cbind (role_id_by_name X ''reader'') (\<lambda>reader_role.
            cbind (cexec X ''write default user role failed'' (\<lambda>c. map_option (\<lambda>rows. c\<lparr>user_roles := rows\<rparr>)
              (insert_user_role \<lparr>ur_user = user_id, ur_role = reader_role, ur_granted_by = owner\<rparr>
                (user_roles c)))) (\<lambda>_.
            cbind (finish_journal X journal_id) (\<lambda>_.
            creturn 1)))))))"

lemma create_user_account_eq:
  "create_user_account X cu sql owner =
     (if cu_or_replace cu then cthrow (EMut OrReplaceUser)
      else let username = trim (cu_name cu) in
        cbind (clift (validate_username username)) (\<lambda>_.
        cbind (clift (ok_or (first_of (quoted_literals sql)) (EMut PasswordRequired))) (\<lambda>password.
        cbind (clift (hash_password (x_hashes X) password)) (\<lambda>password_hash.
        run_catalog_tx X (create_user_body X (cu_if_not_exists cu) username password_hash
          (mysql_caching_sha2_verifier (x_hashes X) password) sql owner)))))"
  by (simp add: create_user_account_def create_user_body_def Let_def)

definition user_created :: "'p external \<Rightarrow> string \<Rightarrow> string \<Rightarrow> string \<Rightarrow> string \<Rightarrow> int \<Rightarrow> catalog \<Rightarrow> catalog \<Rightarrow> bool" where
  "user_created X username hash auth sql owner c d \<longleftrightarrow>
     (\<exists>i reader us urs. user_id_in (x_lower X) c username = None \<and> next_oid c = Some i
       \<and> insert_user (user_row i username hash auth False) (users c) = Some us
       \<and> role_id_in (x_lower X) c ''reader'' = Some reader
       \<and> insert_user_role \<lparr>ur_user = i, ur_role = reader, ur_granted_by = owner\<rparr> (user_roles c) = Some urs
       \<and> d = journaled (x_fmt X) ''create_user'' i sql (\<lambda>c. c\<lparr>users := us, user_roles := urs\<rparr>) (bump c))"

lemma user_id_in_tables [simp]:
  "user_id_in low (bump c) n = user_id_in low c n" "user_id_in low (open_journal m t r c) n = user_id_in low c n"
  by (simp_all add: user_id_in_def)

lemma role_id_in_tables [simp]:
  "role_id_in low (bump c) n = role_id_in low c n" "role_id_in low (open_journal m t r c) n = role_id_in low c n"
  "role_id_in low (c\<lparr>users := us\<rparr>) n = role_id_in low c n"
  by (simp_all add: role_id_in_def)

lemma sp_create_user_body:
  "body_spec A (create_user_body X ine username hash auth sql owner)
     (\<lambda>v d. if v = 0 then ine \<and> A d \<and> user_id_in (x_lower X) d username \<noteq> None
            else v = 1 \<and> (\<exists>c. A c \<and> user_created X username hash auth sql owner c d))"
  unfolding create_user_body_def
  by (rule body_post, (rule sp)+) (auto simp: user_created_def journaled_def split: if_splits)

lemma good_user_created:
  assumes "user_created X username hash auth sql owner c d" "good (x_fmt X) c"
  shows "good (x_fmt X) d"
proof -
  obtain i reader us urs where n: "next_oid c = Some i"
    and u: "insert_user (user_row i username hash auth False) (users c) = Some us"
    and r: "role_id_in (x_lower X) c ''reader'' = Some reader"
    and ur: "insert_user_role \<lparr>ur_user = i, ur_role = reader, ur_granted_by = owner\<rparr> (user_roles c) = Some urs"
    and d: "d = journaled (x_fmt X) ''create_user'' i sql (\<lambda>c. c\<lparr>users := us, user_roles := urs\<rparr>) (bump c)"
    using assms(1) by (auto simp: user_created_def)
  let ?c = "open_journal ''create_user'' i sql (bump c)"
  have wf: "wf_catalog ?c" and un: "unused i ?c"
    using assms(2) n by (simp_all add: good_def unused_next)
  have 1: "wf_catalog (?c\<lparr>users := us\<rparr>)"
    by (rule wf_add_user [OF wf, of "user_row i username hash auth False"]) (simp_all add: user_row_def un u [unfolded user_row_def])
  have "wf_catalog (?c\<lparr>users := us\<rparr>\<lparr>user_roles := urs\<rparr>)"
  proof (rule wf_add_user_role [OF 1])
    show "ur_user \<lparr>ur_user = i, ur_role = reader, ur_granted_by = owner\<rparr> \<in> usr_id ` set (users (?c\<lparr>users := us\<rparr>))"
      using user_ids.ins_appends [OF u] by (simp add: user_row_def)
    show "ur_role \<lparr>ur_user = i, ur_role = reader, ur_granted_by = owner\<rparr> \<in> rol_id ` set (roles (?c\<lparr>users := us\<rparr>))"
      using role_id_in_SomeD [OF r] by simp
  qed (simp add: ur)
  then show ?thesis unfolding d by (intro good_journaled) simp
qed

definition role_created :: "'p external \<Rightarrow> string \<Rightarrow> string \<Rightarrow> catalog \<Rightarrow> catalog \<Rightarrow> bool" where
  "role_created X role_name sql c d \<longleftrightarrow>
     (\<exists>i rs. role_id_in (x_lower X) c role_name = None \<and> next_oid c = Some i
       \<and> insert_role \<lparr>rol_id = i, rol_name = role_name, rol_description = [], rol_builtin = False\<rparr> (roles c) = Some rs
       \<and> d = journaled (x_fmt X) ''create_role'' i sql (\<lambda>c. c\<lparr>roles := rs\<rparr>) (bump c))"

lemma sp_create_one_role:
  "body_spec A (create_one_role X ine sql name n)
     (\<lambda>v d. v = n \<and> A d \<and> ine \<or> v = n + 1 \<and> (\<exists>c role_name. A c \<and> single_name_part name = Inr role_name
         \<and> validate_role_name role_name = Inr () \<and> role_created X role_name sql c d))"
  unfolding create_one_role_def
  by (rule body_post, (rule sp)+) (auto simp: role_created_def journaled_def split: if_splits)

lemma good_role_created:
  assumes "role_created X role_name sql c d" "good (x_fmt X) c"
  shows "good (x_fmt X) d"
proof -
  obtain i rs where n: "next_oid c = Some i"
    and r: "insert_role \<lparr>rol_id = i, rol_name = role_name, rol_description = [], rol_builtin = False\<rparr> (roles c) = Some rs"
    and d: "d = journaled (x_fmt X) ''create_role'' i sql (\<lambda>c. c\<lparr>roles := rs\<rparr>) (bump c)"
    using assms(1) by (auto simp: role_created_def)
  have "wf_catalog ((open_journal ''create_role'' i sql (bump c))\<lparr>roles := rs\<rparr>)"
  proof (rule wf_add_role)
    show "wf_catalog (open_journal ''create_role'' i sql (bump c))" using assms(2) by (simp add: good_def)
    show "unused (rol_id \<lparr>rol_id = i, rol_name = role_name, rol_description = [], rol_builtin = False\<rparr>)
        (open_journal ''create_role'' i sql (bump c))"
      using assms(2) n by (simp add: good_def unused_next)
  qed (simp add: r)
  then show ?thesis unfolding d by (rule good_journaled)
qed

definition password_set :: "'p external \<Rightarrow> int \<Rightarrow> string \<Rightarrow> string \<Rightarrow> string \<Rightarrow> catalog \<Rightarrow> catalog \<Rightarrow> bool" where
  "password_set X i hash auth sql c d \<longleftrightarrow>
     d = journaled (x_fmt X) ''alter_user_password'' i sql (set_password i hash auth) c"

lemma good_password_set: "password_set X i hash auth sql c d \<Longrightarrow> good (x_fmt X) c \<Longrightarrow> good (x_fmt X) d"
  unfolding password_set_def
  by (simp, rule good_journaled, unfold set_password_def, rule wf_update_users) (simp_all add: good_def)

definition role_dropped :: "'p external \<Rightarrow> int \<Rightarrow> string \<Rightarrow> catalog \<Rightarrow> catalog \<Rightarrow> bool" where
  "role_dropped X i sql c d \<longleftrightarrow> next_oid c \<noteq> None \<and>
     d = journaled (x_fmt X) ''drop_role'' i sql (\<lambda>c. c\<lparr>user_roles := filter (\<lambda>r. ur_role r \<noteq> i) (user_roles c),
       privileges := filter (\<lambda>p. \<not> (prv_principal_type p = ''role'' \<and> prv_principal p = i)) (privileges c),
       roles := filter (\<lambda>r. rol_id r \<noteq> i) (roles c)\<rparr>) c"

lemma sp_builtin_role [sp]:
  "body_spec A (builtin_role X i)
     (\<lambda>b d. A d \<and> map_option rol_builtin (List.find (\<lambda>r. rol_id r = i) (roles d)) = Some b)"
  unfolding builtin_role_def by (rule sp)

lemma sp_role_has_dependents [sp]: "body_spec A (role_has_dependents X i)
   (\<lambda>b d. A d \<and> (b \<longleftrightarrow> length (filter (\<lambda>r. ur_role r = i) (user_roles d))
        + length (filter (\<lambda>p. prv_principal_type p = ''role'' \<and> prv_principal p = i) (privileges d)) > 0))"
  unfolding role_has_dependents_def by (rule body_post [OF sp_query]) auto

definition no_role_dependents :: "catalog \<Rightarrow> int \<Rightarrow> bool" where
  "no_role_dependents c i \<longleftrightarrow> (\<forall>r\<in>set (user_roles c). ur_role r \<noteq> i)
     \<and> (\<forall>p\<in>set (privileges c). \<not> (prv_principal_type p = ''role'' \<and> prv_principal p = i))"

lemma sp_drop_role_rows:
  "body_spec A (cbind (insert_journal X ''drop_role'' i sql) (\<lambda>journal_id.
         cbind (cexec X w (\<lambda>c. Some (c\<lparr>user_roles := filter (\<lambda>r. ur_role r \<noteq> i) (user_roles c)\<rparr>))) (\<lambda>_.
         cbind (cexec X w (\<lambda>c. Some (c\<lparr>privileges :=
            filter (\<lambda>p. \<not> (prv_principal_type p = ''role'' \<and> prv_principal p = i)) (privileges c)\<rparr>))) (\<lambda>_.
         cbind (cexec X w (\<lambda>c. Some (c\<lparr>roles := filter (\<lambda>r. rol_id r \<noteq> i) (roles c)\<rparr>))) (\<lambda>_.
         cbind (finish_journal X journal_id) (\<lambda>_. creturn v))))))
     (\<lambda>u d. u = v \<and> (\<exists>c. A c \<and> role_dropped X i sql c d))"
  by (rule body_post, (rule sp)+) (force simp: role_dropped_def journaled_def)

lemma sp_drop_one_role:
  "body_spec A (drop_one_role X ife cascade sql name n)
     (\<lambda>v d. v = n \<and> A d \<and> ife \<or> v = n + 1 \<and> (\<exists>c role_name i. A c \<and> single_name_part name = Inr role_name
         \<and> role_id_in (x_lower X) c role_name = Some i
         \<and> map_option rol_builtin (List.find (\<lambda>r. rol_id r = i) (roles c)) = Some False
         \<and> (cascade \<or> no_role_dependents c i)
         \<and> role_dropped X i sql c d))"
  unfolding drop_one_role_def
proof (rule body_bind [OF sp_lift], rule body_bind [OF sp_role_id_by_name_opt], rule body_option)
  fix role_name found i
  let ?B = "\<lambda>c. A c \<and> single_name_part name = Inr role_name \<and> role_id_in (x_lower X) c role_name = Some i"
  have dep: "body_spec B (if cascade then creturn False else role_has_dependents X i)
     (\<lambda>b d. B d \<and> (\<not> b \<longrightarrow> cascade \<or> no_role_dependents d i))" for B
    by (rule body_post, (rule sp)+) (auto simp: filter_empty_conv no_role_dependents_def split: if_splits)
  assume "found = Some i"
  then show "body_spec (\<lambda>c. (A c \<and> single_name_part name = Inr role_name) \<and> found = role_id_in (x_lower X) c role_name)
    (cbind (builtin_role X i) (\<lambda>builtin. if builtin then cthrow (EMut (BuiltinRole role_name)) else
         cbind (if cascade then creturn False else role_has_dependents X i) (\<lambda>dependents.
         if dependents then cthrow (EMut (RoleHasDependents role_name)) else
         cbind (insert_journal X ''drop_role'' i sql) (\<lambda>journal_id.
         cbind (cexec X ''drop role catalog rows failed'' (\<lambda>c. Some (c\<lparr>user_roles :=
            filter (\<lambda>r. ur_role r \<noteq> i) (user_roles c)\<rparr>))) (\<lambda>_.
         cbind (cexec X ''drop role catalog rows failed'' (\<lambda>c. Some (c\<lparr>privileges :=
            filter (\<lambda>p. \<not> (prv_principal_type p = ''role'' \<and> prv_principal p = i)) (privileges c)\<rparr>))) (\<lambda>_.
         cbind (cexec X ''drop role catalog rows failed'' (\<lambda>c. Some (c\<lparr>roles :=
            filter (\<lambda>r. rol_id r \<noteq> i) (roles c)\<rparr>))) (\<lambda>_.
         cbind (finish_journal X journal_id) (\<lambda>_. creturn (n + 1)))))))))
     (\<lambda>v d. v = n \<and> A d \<and> ife \<or> v = n + 1 \<and> (\<exists>c role_name i. A c \<and> single_name_part name = Inr role_name
         \<and> role_id_in (x_lower X) c role_name = Some i
         \<and> map_option rol_builtin (List.find (\<lambda>r. rol_id r = i) (roles c)) = Some False
         \<and> (cascade \<or> no_role_dependents c i)
         \<and> role_dropped X i sql c d))"
    by (intro body_bind [OF sp_builtin_role] body_if body_throw body_bind [OF dep] body_post [OF sp_drop_role_rows])
      (elim exE conjE, rule disjI2, rule conjI, assumption, intro exI conjI, assumption, assumption,
        rule trans [OF sym], assumption, assumption, simp, simp, assumption)
qed (auto intro!: body_rules)

lemma good_role_dropped:
  assumes "role_dropped X i sql c d" "good (x_fmt X) c"
  shows "good (x_fmt X) d"
proof -
  let ?c = "open_journal ''drop_role'' i sql c"
  let ?c1 = "?c\<lparr>user_roles := filter (\<lambda>r. ur_role r \<noteq> i) (user_roles ?c)\<rparr>"
  let ?c2 = "?c1\<lparr>privileges := filter (\<lambda>p. \<not> (prv_principal_type p = ''role'' \<and> prv_principal p = i)) (privileges ?c1)\<rparr>"
  have "wf_catalog ?c2" using assms(2) by (intro wf_del_privileges wf_del_user_roles) (simp add: good_def)
  then have "wf_catalog (?c2\<lparr>roles := filter (\<lambda>r. rol_id r \<noteq> i) (roles ?c2)\<rparr>)"
    by (rule wf_del_role) auto
  then show ?thesis using assms(1) by (auto simp: role_dropped_def intro!: good_journaled)
qed

definition user_dropped :: "'p external \<Rightarrow> int \<Rightarrow> string \<Rightarrow> catalog \<Rightarrow> catalog \<Rightarrow> bool" where
  "user_dropped X i sql c d \<longleftrightarrow> next_oid c \<noteq> None \<and>
     d = journaled (x_fmt X) ''drop_user'' i sql (\<lambda>c. c\<lparr>user_roles := filter (\<lambda>r. ur_user r \<noteq> i) (user_roles c),
       privileges := filter (\<lambda>p. \<not> (prv_principal_type p = ''user'' \<and> prv_principal p = i)) (privileges c),
       users := filter (\<lambda>u. usr_id u \<noteq> i) (users c)\<rparr>) c"

lemma sp_drop_user_rows:
  "body_spec A (cbind (insert_journal X ''drop_user'' i sql) (\<lambda>journal_id.
         cbind (cexec X w (\<lambda>c. Some (c\<lparr>user_roles := filter (\<lambda>r. ur_user r \<noteq> i) (user_roles c)\<rparr>))) (\<lambda>_.
         cbind (cexec X w (\<lambda>c. Some (c\<lparr>privileges :=
            filter (\<lambda>p. \<not> (prv_principal_type p = ''user'' \<and> prv_principal p = i)) (privileges c)\<rparr>))) (\<lambda>_.
         cbind (cexec X w (\<lambda>c. Some (c\<lparr>users := filter (\<lambda>u. usr_id u \<noteq> i) (users c)\<rparr>))) (\<lambda>_.
         cbind (finish_journal X journal_id) (\<lambda>_. creturn v))))))
     (\<lambda>u d. u = v \<and> (\<exists>c. A c \<and> user_dropped X i sql c d))"
  by (rule body_post, (rule sp)+) (force simp: user_dropped_def journaled_def)

lemma sp_drop_one_user:
  "body_spec A (drop_one_user X ife sql name n)
     (\<lambda>v d. v = n \<and> A d \<and> ife \<or> v = n + 1 \<and> (\<exists>c username i. A c \<and> single_name_part name = Inr username
         \<and> \<not> eq_ignore_case username ''admin''
         \<and> user_id_in (x_lower X) c username = Some i \<and> user_dropped X i sql c d))"
  unfolding drop_one_user_def
  by (intro body_bind [OF sp_lift] body_if body_throw body_bind [OF sp_user_id_by_name_opt] body_option
      body_post [OF sp_drop_user_rows] body_return) (force+)

lemma good_user_dropped:
  assumes "user_dropped X i sql c d" "good (x_fmt X) c"
  shows "good (x_fmt X) d"
proof -
  let ?c = "open_journal ''drop_user'' i sql c"
  let ?c1 = "?c\<lparr>user_roles := filter (\<lambda>r. ur_user r \<noteq> i) (user_roles ?c)\<rparr>"
  let ?c2 = "?c1\<lparr>privileges := filter (\<lambda>p. \<not> (prv_principal_type p = ''user'' \<and> prv_principal p = i)) (privileges ?c1)\<rparr>"
  have "wf_catalog ?c2" using assms(2) by (intro wf_del_privileges wf_del_user_roles) (simp add: good_def)
  then have "wf_catalog (?c2\<lparr>users := filter (\<lambda>u. usr_id u \<noteq> i) (users ?c2)\<rparr>)"
    by (rule wf_del_user) auto
  then show ?thesis using assms(1) by (auto simp: user_dropped_def intro!: good_journaled)
qed

section \<open>Every account operation keeps the contract\<close>

lemma create_user_atomic: "atomic X (create_user_account X cu sql owner)"
proof -
  have "body_spec (good (x_fmt X)) (create_user_body X ine username hash auth sql owner) (\<lambda>_. good (x_fmt X))"
    for ine username hash auth
    by (rule body_post [OF sp_create_user_body]) (auto split: if_splits dest: good_user_created)
  then show ?thesis
    unfolding create_user_account_eq Let_def
    by (intro atomic_rules atomic_read_bind ro)
qed

lemma create_role_atomic: "atomic X (create_role_account X cr sql owner)"
proof -
  have "body_spec (good (x_fmt X)) (create_one_role X ine sql name n) (\<lambda>_. good (x_fmt X))" for ine name n
    by (rule body_post [OF sp_create_one_role]) (auto dest: good_role_created)
  then show ?thesis
    unfolding create_role_account_def by (intro atomic_rules sp_fold)
qed

definition alter_user_body :: "'p external \<Rightarrow> bool \<Rightarrow> string \<Rightarrow> string \<Rightarrow> string \<Rightarrow> string \<Rightarrow> ('p, nat) db" where
  "alter_user_body X if_exists username hash auth sql =
          cbind (user_id_by_name_opt X username) (\<lambda>found. case found of
            None \<Rightarrow> if if_exists then creturn 0 else cthrow (EMut (UserMissing username))
          | Some user_id \<Rightarrow>
              cbind (insert_journal X ''alter_user_password'' user_id sql) (\<lambda>journal_id.
              cbind (cexec X ''update user password failed'' (\<lambda>c. Some (set_password user_id hash auth c))) (\<lambda>_.
              cbind (finish_journal X journal_id) (\<lambda>_.
              creturn 1))))"

lemma alter_user_account_eq:
  "alter_user_account X au sql owner =
     (if list_ex id (au_options au) then cthrow (EMut AlterUserOptions)
      else let username = trim (au_name au) in
        cbind (clift (validate_username username)) (\<lambda>_.
        cbind (clift (ok_or (au_password au) (EMut AlterPasswordRequired))) (\<lambda>password_option.
        cbind (clift (ok_or password_option (EMut AlterPasswordNull))) (\<lambda>password.
        cbind (clift (hash_password (x_hashes X) password)) (\<lambda>password_hash.
        run_catalog_tx X (alter_user_body X (au_if_exists au) username password_hash
          (mysql_caching_sha2_verifier (x_hashes X) password) sql))))))"
  by (simp add: alter_user_account_def alter_user_body_def Let_def)

lemma sp_alter_user_body:
  "body_spec A (alter_user_body X ife username hash auth sql)
     (\<lambda>v d. v = 0 \<and> ife \<and> A d \<or> v = 1 \<and> (\<exists>c i. A c \<and> user_id_in (x_lower X) c username = Some i
        \<and> password_set X i hash auth sql c d))"
proof -
  have rows: "body_spec B (cbind (insert_journal X ''alter_user_password'' i sql) (\<lambda>journal_id.
              cbind (cexec X w (\<lambda>c. Some (set_password i hash auth c))) (\<lambda>_.
              cbind (finish_journal X journal_id) (\<lambda>_. creturn (1 :: nat)))))
      (\<lambda>v d. v = 1 \<and> (\<exists>c. B c \<and> password_set X i hash auth sql c d))" for B i w
    by (rule body_post, (rule sp)+) (force simp: password_set_def journaled_def)
  show ?thesis
    unfolding alter_user_body_def
    by (intro body_bind [OF sp_user_id_by_name_opt] body_option body_if body_return body_throw body_post [OF rows])
      (force+)
qed

lemma alter_user_atomic: "atomic X (alter_user_account X au sql owner)"
proof -
  have "body_spec (good (x_fmt X)) (alter_user_body X ife username hash auth sql) (\<lambda>_. good (x_fmt X))"
    for ife username hash auth
    by (rule body_post [OF sp_alter_user_body]) (auto dest: good_password_set)
  then show ?thesis
    unfolding alter_user_account_eq Let_def
    by (intro atomic_rules atomic_read_bind ro)
qed

lemma drop_roles_atomic: "atomic X (drop_role_accounts X ife names cascade sql)"
proof -
  have "body_spec (good (x_fmt X)) (drop_one_role X ife cascade sql name n) (\<lambda>_. good (x_fmt X))" for name n
    by (rule body_post [OF sp_drop_one_role]) (auto dest: good_role_dropped)
  then show ?thesis
    unfolding drop_role_accounts_def by (intro atomic_rules sp_fold)
qed

lemma drop_users_atomic: "atomic X (drop_user_accounts X ife names sql)"
proof -
  have "body_spec (good (x_fmt X)) (drop_one_user X ife sql name n) (\<lambda>_. good (x_fmt X))" for name n
    by (rule body_post [OF sp_drop_one_user]) (auto dest: good_user_dropped)
  then show ?thesis
    unfolding drop_user_accounts_def by (intro atomic_rules sp_fold)
qed

interpretation create_user_op: catalog_operation X "create_user_account X cu sql owner" for X cu sql owner
  by (rule atomic_operation, rule create_user_atomic)

interpretation create_role_op: catalog_operation X "create_role_account X cr sql owner" for X cr sql owner
  by (rule atomic_operation, rule create_role_atomic)

interpretation alter_user_op: catalog_operation X "alter_user_account X au sql owner" for X au sql owner
  by (rule atomic_operation, rule alter_user_atomic)

interpretation drop_roles_op: catalog_operation X "drop_role_accounts X ife names cascade sql"
  for X ife names cascade sql
  by (rule atomic_operation, rule drop_roles_atomic)

interpretation drop_users_op: catalog_operation X "drop_user_accounts X ife names sql" for X ife names sql
  by (rule atomic_operation, rule drop_users_atomic)

section \<open>A small world\<close>

definition small_catalog :: catalog where
  "small_catalog = empty_catalog\<lparr>
     versions := [\<lparr>ver_id = 1, ver_schema_version = 2, ver_snapshot_format = 3, ver_epoch = 0, ver_checksum = [],
       ver_status = ''ready''\<rparr>],
     allocs := [\<lparr>al_id = 1, al_next_oid = 10000\<rparr>],
     roles := [builtin_role_row ROLE_READER_ID ''reader'' [], builtin_role_row ROLE_ADMIN_ID ''admin'' []],
     users := [user_row ADMIN_USER_ID ''admin'' [] [] True]\<rparr>"

definition small_world :: "unit conn" where
  "small_world = sample_conn (seal sample_fmt small_catalog)"

lemma good_small: "good sample_fmt (seal sample_fmt small_catalog)"
proof -
  have v: "version_row small_catalog \<noteq> None"
    by (simp add: small_catalog_def empty_catalog_def version_row_def)
  note defs = small_catalog_def empty_catalog_def builtin_role_row_def user_row_def builtin_ids
  have ids: "all_oids (seal sample_fmt small_catalog) = [10, 24, 20]"
    by (simp add: all_oids_def defs)
  have n: "next_oid small_catalog = Some 10000"
    by (simp add: next_oid_def alloc_row_def defs)
  have "wf_oids (seal sample_fmt small_catalog)" by (simp add: wf_oids_def ids n FIRST_USER_OID_def)
  moreover have "wf_keys (seal sample_fmt small_catalog)" by (simp add: wf_keys_def defs)
  moreover have "wf_refs (seal sample_fmt small_catalog)" by (simp add: wf_refs_def defs)
  ultimately have "wf_catalog (seal sample_fmt small_catalog)"
    using v by (auto simp: wf_catalog_def version_row_seal)
  then show ?thesis using v by (simp add: good_def sealed_seal)
qed

lemma good_small_world: "good sample_fmt (catalog_of small_world)" "saved small_world = None"
  using good_small by (simp_all add: small_world_def sample_conn_def catalog_of_def committed_def)

abbreviation bob_create :: create_user where
  "bob_create \<equiv> \<lparr>cu_name = ''bob'', cu_or_replace = False, cu_if_not_exists = False\<rparr>"

section \<open>Creating a user and logging in\<close>

lemma cbind_clift_cases:
  "cbind (clift r) f s = (case r of Inl e \<Rightarrow> (Inl e, s) | Inr v \<Rightarrow> f v s)"
  by (cases r) (simp_all add: cbind_def clift_def)

lemma create_user_result:
  assumes "create_user_account X cu sql owner s = (Inr v, s')" and "saved s = None"
  shows "\<exists>password hash. first_of (quoted_literals sql) = Some password
    \<and> argon2_hash (x_hashes X) password = Some hash \<and> validate_username (trim (cu_name cu)) = Inr ()
    \<and> saved s' = None
    \<and> (if v = 0 then cu_if_not_exists cu \<and> cat s' = cat s \<and> user_id_in (x_lower X) (cat s) (trim (cu_name cu)) \<noteq> None
       else v = 1 \<and> user_created X (trim (cu_name cu)) hash (mysql_caching_sha2_verifier (x_hashes X) password)
              sql owner (cat s) (cat s'))"
proof -
  obtain password hash where p: "first_of (quoted_literals sql) = Some password"
    "argon2_hash (x_hashes X) password = Some hash" "validate_username (trim (cu_name cu)) = Inr ()"
    and run: "run_catalog_tx X (create_user_body X (cu_if_not_exists cu) (trim (cu_name cu)) hash
          (mysql_caching_sha2_verifier (x_hashes X) password) sql owner) s = (Inr v, s')"
    using assms(1) unfolding create_user_account_eq Let_def
    by (auto simp: cbind_clift_cases cthrow_def hash_password_def ok_or_def split: if_splits sum.splits option.splits)
  from tx_result [OF sp_create_user_body [of "\<lambda>c. c = cat s"] refl run] p show ?thesis by (auto split: if_splits)
qed

definition argon2_sound :: "hashes \<Rightarrow> bool" where
  "argon2_sound H \<longleftrightarrow> (\<forall>pw h. argon2_hash H pw = Some h \<longrightarrow> argon2_verify H pw h)"

lemma user_by_name_append:
  "n \<notin> usr_name ` set (users c) \<Longrightarrow> users d = users c @ [u] \<Longrightarrow> usr_name u = n \<Longrightarrow> user_by_name d n = Some u"
proof -
  assume new: "n \<notin> usr_name ` set (users c)" and d: "users d = users c @ [u]" and u: "usr_name u = n"
  have "List.find (\<lambda>x. usr_name x = n) (xs @ [u]) = Some u" if "n \<notin> usr_name ` set xs" for xs
    using that u by (induction xs) auto
  with new show ?thesis unfolding user_by_name_def d by blast
qed

lemma journaled_tables [simp]:
  "users (journaled F m t r g c) = users (g (open_journal m t r c))"
  "roles (journaled F m t r g c) = roles (g (open_journal m t r c))"
  "user_roles (journaled F m t r g c) = user_roles (g (open_journal m t r c))"
  "privileges (journaled F m t r g c) = privileges (g (open_journal m t r c))"
  "schemas (journaled F m t r g c) = schemas (g (open_journal m t r c))"
  "remarks (journaled F m t r g c) = remarks (g (open_journal m t r c))"
  "relations (journaled F m t r g c) = relations (g (open_journal m t r c))"
  by (simp_all add: journaled_def)

lemma created_user_row:
  assumes "user_created X name hash auth sql owner c d" "wf_catalog c"
  shows "\<exists>i. next_oid c = Some i \<and> i \<notin> usr_id ` set (users c)
    \<and> user_by_name d name = Some (user_row i name hash auth False)
    \<and> (\<exists>n. role_names_of d i = [n] \<and> x_lower X n = x_lower X ''reader'')"
proof -
  obtain i reader us urs where n: "next_oid c = Some i" and new: "user_id_in (x_lower X) c name = None"
    and u: "insert_user (user_row i name hash auth False) (users c) = Some us"
    and r: "role_id_in (x_lower X) c ''reader'' = Some reader"
    and ur: "insert_user_role \<lparr>ur_user = i, ur_role = reader, ur_granted_by = owner\<rparr> (user_roles c) = Some urs"
    and d: "d = journaled (x_fmt X) ''create_user'' i sql (\<lambda>c. c\<lparr>users := us, user_roles := urs\<rparr>) (bump c)"
    using assms(1) by (auto simp: user_created_def)
  have i: "i \<notin> usr_id ` set (users c)"
    using assms(2) n by (auto simp: wf_catalog_def wf_oids_def all_oids_def)
  have "user_by_name d name = Some (user_row i name hash auth False)"
    by (rule user_by_name_append [OF user_id_in_None [OF new]])
      (use user_ids.ins_appends [OF u] in \<open>simp_all add: d user_row_def\<close>)
  moreover
  obtain row where row: "row \<in> set (roles c)" "rol_id row = reader" "x_lower X (rol_name row) = x_lower X ''reader''"
    using r by (auto simp: role_id_in_def dest!: first_of_in)
  have "distinct (map rol_id (roles c))" using assms(2) by (auto simp: wf_catalog_def wf_oids_def all_oids_def split: option.splits)
  from filter_key [OF this row(1)] row(2) have "filter (\<lambda>r. rol_id r = reader) (roles c) = [row]" by simp
  moreover have "filter (\<lambda>x. ur_user x = i) (user_roles c) = []"
    using assms(2) i by (auto simp: filter_empty_conv wf_catalog_def wf_refs_def)
  ultimately show ?thesis
    using user_role_keys.ins_appends [OF ur] row(3) i n
    by (auto simp: d role_names_of_def)
qed

text \<open>CREATE USER does succeed when nothing stands in its way.\<close>

lemma created_user_runs:
  assumes X: "reliable X" and wf: "wf_catalog c" and n: "next_oid c = Some i"
    and new: "user_id_in (x_lower X) c username = None"
    and reader: "role_id_in (x_lower X) c ''reader'' = Some r"
  shows "\<exists>d. runs (create_user_body X ine username hash auth sql owner) c 1 d"
proof -
  let ?u = "user_row i username hash auth False" and ?ur = "\<lparr>ur_user = i, ur_role = r, ur_granted_by = owner\<rparr>"
  let ?b = "open_journal ''create_user'' i sql (bump c)"
  let ?d = "?b\<lparr>users := users c @ [?u], user_roles := user_roles c @ [?ur]\<rparr>"
  have fresh: "i \<notin> usr_id ` set (users c)" "i \<notin> ur_user ` set (user_roles c)"
    using wf n by (auto simp: wf_catalog_def wf_oids_def all_oids_def wf_refs_def)
  have u: "insert_user ?u (users c) = Some (users c @ [?u])"
    using fresh(1) user_id_in_None [OF new] by (auto simp: insert_user_def insert_row_def list_ex_iff user_row_def)
  have ur: "insert_user_role ?ur (user_roles c) = Some (user_roles c @ [?ur])"
    using fresh(2) by (auto simp: insert_user_role_def insert_row_def list_ex_iff)
  have j: "i + 1 \<in> jr_id ` set (journal ?d)" by (simp add: open_journal_def n)
  have exists: "runs (user_exists X username) c False c"
    unfolding user_exists_def user_id_by_name_opt_def
    by (rule runs_bind, rule runs_query [OF X], rule runs_conv, rule runs_return) (simp_all add: new)
  have rest: "runs (cbind (allocate_oid X) (\<lambda>user_id.
            cbind (insert_journal X ''create_user'' user_id sql) (\<lambda>journal_id.
            cbind (cexec X ''write rs_user failed'' (\<lambda>c. map_option (\<lambda>rows. c\<lparr>users := rows\<rparr>)
              (insert_user (user_row user_id username hash auth False) (users c)))) (\<lambda>_.
            cbind (role_id_by_name X ''reader'') (\<lambda>reader_role.
            cbind (cexec X ''write default user role failed'' (\<lambda>c. map_option (\<lambda>rows. c\<lparr>user_roles := rows\<rparr>)
              (insert_user_role \<lparr>ur_user = user_id, ur_role = reader_role, ur_granted_by = owner\<rparr>
                (user_roles c)))) (\<lambda>_.
            cbind (finish_journal X journal_id) (\<lambda>_.
            creturn (1 :: nat)))))))) c 1 (close_journal (x_fmt X) (i + 1) ?d)"
    unfolding role_id_by_name_def role_id_by_name_opt_def
    by (rule runs_bind, rule runs_allocate [OF X n], rule runs_bind,
        rule runs_insert_journal [OF X _, of _ "i + 1"], simp add: wf, simp add: n,
        rule runs_bind, rule runs_exec [OF X, of _ _ "?b\<lparr>users := users c @ [?u]\<rparr>"], simp add: u,
        rule runs_bind, rule runs_bind, rule runs_query [OF X], rule runs_lift, simp add: reader,
        rule runs_bind, rule runs_exec [OF X, of _ _ ?d], simp add: ur,
        rule runs_bind, rule runs_finish_journal [OF X j], rule runs_return)
  show ?thesis
    unfolding create_user_body_def by (rule exI, rule runs_bind [OF exists], simp only: if_False, rule rest)
qed

lemma create_user_returns:
  assumes "reliable X" and "saved s = None" and "wf_catalog (cat s)"
    and "\<not> cu_or_replace cu" and "validate_username (trim (cu_name cu)) = Inr ()"
    and "first_of (quoted_literals sql) = Some password" and "argon2_hash (x_hashes X) password = Some hash"
    and "user_id_in (x_lower X) (cat s) (trim (cu_name cu)) = None"
    and "role_id_in (x_lower X) (cat s) ''reader'' = Some r"
  shows "fst (create_user_account X cu sql owner s) = Inr 1"
proof -
  obtain i where n: "next_oid (cat s) = Some i"
    using assms(3) by (auto simp: wf_catalog_def wf_oids_def split: option.splits)
  obtain d where d: "runs (create_user_body X (cu_if_not_exists cu) (trim (cu_name cu)) hash
      (mysql_caching_sha2_verifier (x_hashes X) password) sql owner) (cat s) 1 d"
    using created_user_runs [OF assms(1,3) n assms(8,9)] by blast
  from runs_tx [OF assms(1) d assms(2)] assms(4-7) show ?thesis
    by (auto simp: create_user_account_eq Let_def cbind_clift_cases hash_password_def ok_or_def)
qed

text \<open>C13: CREATE USER with a valid unused name and a quoted password succeeds on an engine that
  refuses no statement, as long as the reader role exists.\<close>

theorem create_user_succeeds:
  assumes "reliable X" and "saved s = None" and "wf_catalog (cat s)"
    and "\<not> cu_or_replace cu" and "validate_username (trim (cu_name cu)) = Inr ()"
    and "first_of (quoted_literals sql) = Some password" and "argon2_hash (x_hashes X) password = Some hash"
    and "user_id_in (x_lower X) (cat s) (trim (cu_name cu)) = None"
    and "role_id_in (x_lower X) (cat s) ''reader'' = Some r"
  shows "fst (create_user_account X cu sql owner s) = Inr 1"
  using assms by (rule create_user_returns)

abbreviation bob_sql :: string where
  "bob_sql \<equiv> ''CREATE USER bob PASSWORD '' @ [CHR 0x27] @ ''secret'' @ [CHR 0x27]"

abbreviation sample :: "unit external" where
  "sample \<equiv> sample_ext (one_parser SetStmt [])"

lemma sample_fields [simp]:
  "x_lower (sample_ext P) = to_lower" "x_hashes (sample_ext P) = zero_hashes" "x_fmt (sample_ext P) = sample_fmt"
  by (simp_all add: sample_ext_def)

lemma zero_hashes_sound: "argon2_sound zero_hashes" "sha256_32 zero_hashes"
  by (simp_all add: argon2_sound_def sha256_32_def zero_hashes_def)

lemma small_wf: "wf_catalog (cat small_world)"
  using good_small by (simp add: good_def small_world_def sample_conn_def)

lemma small_users: "users (cat small_world) = [user_row ADMIN_USER_ID ''admin'' [] [] True]"
  and small_roles: "roles (cat small_world) = [builtin_role_row ROLE_READER_ID ''reader'' [],
    builtin_role_row ROLE_ADMIN_ID ''admin'' []]"
  by (simp_all add: small_world_def sample_conn_def small_catalog_def)

lemma small_facts:
  "user_id_in to_lower (cat small_world) ''bob'' = None"
  "role_id_in to_lower (cat small_world) ''reader'' = Some ROLE_READER_ID"
  unfolding user_id_in_def role_id_in_def small_users small_roles by code_simp+

lemma bob_text:
  "first_of (quoted_literals bob_sql) = Some ''secret''"
  "validate_username ''bob'' = Inr ()" "trim ''bob'' = ''bob''"
  by code_simp+

lemma bob_created: "fst (create_user_account sample bob_create bob_sql 10 small_world) = Inr 1"
  by (rule create_user_returns [of _ _ _ _ "''secret''" "''secret''" ROLE_READER_ID])
    (use good_small_world in \<open>simp_all add: small_facts bob_text small_wf zero_hashes_def\<close>)

theorem create_user_succeeds_witness:
  "fst (create_user_account sample bob_create bob_sql 10 small_world) = Inr 1"
  by (rule create_user_succeeds [of _ _ _ _ "''secret''" "''secret''" ROLE_READER_ID])
    (use good_small_world in \<open>simp_all add: small_facts bob_text small_wf zero_hashes_def\<close>)



section \<open>What DROP cannot remove\<close>

text \<open>No DROP ROLE statement, with CASCADE or not, and no failure of the engine on the way removes
  or alters a builtin role.\<close>

theorem builtin_roles_survive:
  assumes "good (x_fmt X) (catalog_of s)" and "r \<in> set (roles (catalog_of s))" and "rol_builtin r"
  shows "r \<in> set (roles (catalog_of (snd (drop_role_accounts X ife names cascade sql s))))"
proof -
  let ?P = "\<lambda>c. good (x_fmt X) c \<and> r \<in> set (roles c)"
  have "r \<in> set (roles d)" if "role_dropped X i sql c d" "good (x_fmt X) c" "r \<in> set (roles c)"
    "map_option rol_builtin (List.find (\<lambda>r. rol_id r = i) (roles c)) = Some False" for i c d
  proof -
    have "distinct (map rol_id (roles c))"
      using that(2) by (auto simp: good_def wf_catalog_def wf_oids_def all_oids_def split: option.splits)
    from find_by_id [OF this that(3)] that(4) assms(3) have "rol_id r \<noteq> i" by auto
    then show ?thesis using that(1,3) by (auto simp: role_dropped_def)
  qed
  then have "body_spec ?P (drop_one_role X ife cascade sql name n) (\<lambda>_. ?P)" for name n
    by (intro body_post [OF sp_drop_one_role]) (blast dest: good_role_dropped)
  then have "body_spec ?P (cfold (drop_one_role X ife cascade sql) names 0) (\<lambda>_. ?P)"
    by (rule sp_fold)
  from tx_invariant [OF this] assms show ?thesis unfolding drop_role_accounts_def by blast
qed

theorem builtin_roles_survive_witness:
  "builtin_role_row ROLE_ADMIN_ID ''admin'' []
     \<in> set (roles (catalog_of (snd (drop_role_accounts sample True [[Identifier ''admin'']] True [] small_world))))"
  by (rule builtin_roles_survive)
    (use good_small_world in \<open>simp_all add: catalog_of_def committed_def small_roles builtin_role_row_def\<close>)



end
