(* ===== verification/Partition_Value.thy ===== *)
theory Partition_Value
  imports Db Sql_Util "HOL-Library.List_Lexorder" "HOL-Library.Char_ord"
begin

text \<open>
  Where a row of a managed table goes: the pure part of
  \<^verbatim>\<open>src/catalog/partition/routing.rs\<close> and \<^verbatim>\<open>retention.rs\<close>. A key value is read as a
  point in time, the point names a partition by its leading digits, and the name gives back the bounds of
  the partition. Rows with the same name are collected into one group. Main results: for day, month and year
  the point lies within the bounds; names sort as the points do; the groups are the rows, each in
  the one group of its route; a partition by hour is never routed.
\<close>

section \<open>Points in time\<close>

text \<open>\<^verbatim>\<open>/\<close> and \<^verbatim>\<open>%\<close> of \<^verbatim>\<open>i64\<close> by a positive constant.\<close>

definition quot :: "int \<Rightarrow> int \<Rightarrow> int" where
  "quot a b = (if a < 0 then - (- a div b) else a div b)"

definition rem :: "int \<Rightarrow> int \<Rightarrow> int" where
  "rem a b = a - b * quot a b"

definition as_u32 :: "int \<Rightarrow> nat" where
  "as_u32 a = nat (a mod 2 ^ 32)"

fun timestamp_value_to_naive :: "calendar \<Rightarrow> time_unit \<Rightarrow> 64 word \<Rightarrow> naive_datetime option" where
  "timestamp_value_to_naive K unit v =
     (let value = sint v;
          (secs, nanos) = (case unit of
              Second \<Rightarrow> (value, 0)
            | Millisecond \<Rightarrow> (quot value 1000, rem value 1000 * 1000000)
            | Microsecond \<Rightarrow> (quot value 1000000, rem value 1000000 * 1000)
            | Nanosecond \<Rightarrow> (quot value 1000000000, rem value 1000000000))
      in cal_from_timestamp K secs (as_u32 nanos))"

definition date32_value_to_naive :: "calendar \<Rightarrow> 32 word \<Rightarrow> naive_datetime option" where
  "date32_value_to_naive K v = Option.bind (cal_ymd K 1970 1 1) (\<lambda>epoch.
     Option.bind (cal_date_plus K epoch (sint v)) (\<lambda>d. cal_hms K d 0 0 0))"

definition date_midnight :: "calendar \<Rightarrow> string \<Rightarrow> string \<Rightarrow> naive_datetime option" where
  "date_midnight K fmt v = Option.bind (cal_date K fmt v) (\<lambda>d. cal_hms K d 0 0 0)"

definition timestamp_patterns :: "string list" where
  "timestamp_patterns = [''%Y-%m-%d %H:%M:%S%.f'', ''%Y-%m-%dT%H:%M:%S%.f'', ''%Y-%m-%d %H:%M:%S'', ''%Y-%m-%dT%H:%M:%S'']"

definition parse_timestamp_literal :: "calendar \<Rightarrow> string \<Rightarrow> naive_datetime option" where
  "parse_timestamp_literal K v =
     (case List.map_filter (\<lambda>p. cal_datetime K p v) timestamp_patterns of
        dt # _ \<Rightarrow> Some dt
      | [] \<Rightarrow> date_midnight K ''%Y-%m-%d'' v)"

definition parse_partition_datetime :: "calendar \<Rightarrow> string \<Rightarrow> string \<Rightarrow> naive_datetime option" where
  "parse_partition_datetime K key_type v =
     (let v = trim v in if key_type = ''date'' then date_midnight K ''%Y-%m-%d'' v else parse_timestamp_literal K v)"

fun partition_datetime_from_expr :: "calendar \<Rightarrow> string \<Rightarrow> expr_value \<Rightarrow> naive_datetime option" where
  "partition_datetime_from_expr K key_type (XString v) = parse_partition_datetime K key_type v"
| "partition_datetime_from_expr K key_type (XTypedString v) = parse_partition_datetime K key_type v"
| "partition_datetime_from_expr K key_type _ = None"

fun partition_datetime_from_value_ref :: "calendar \<Rightarrow> string \<Rightarrow> value_ref \<Rightarrow> naive_datetime option" where
  "partition_datetime_from_value_ref K key_type (RTimestamp unit v) = timestamp_value_to_naive K unit v"
| "partition_datetime_from_value_ref K key_type (RDate32 v) = date32_value_to_naive K v"
| "partition_datetime_from_value_ref K key_type (RText v) = parse_partition_datetime K key_type v"
| "partition_datetime_from_value_ref K key_type _ = None"

section \<open>Values as SQL text\<close>

definition format_naive_datetime :: "naive_datetime \<Rightarrow> string" where
  "format_naive_datetime dt = (let t = snd dt in
     format_date (fst dt) @ '' '' @ pad0 2 (t_hour t) @ '':'' @ pad0 2 (t_minute t) @ '':''
     @ pad0 2 (t_second t + t_nanos t div 1000000000) @ ''.'' @ pad0 6 (t_nanos t div 1000))"

text \<open>The multiplications wrap as in a release build.\<close>

definition format_time64_value :: "time_unit \<Rightarrow> 64 word \<Rightarrow> err + string" where
  "format_time64_value unit v =
     (let micros = (case unit of Microsecond \<Rightarrow> sint v | Millisecond \<Rightarrow> sint (v * 1000) | Second \<Rightarrow> sint (v * 1000000)
          | Nanosecond \<Rightarrow> quot (sint v) 1000)
      in if micros < 0 then Inl (EPart NegativeTime)
         else let seconds = nat (micros div 1000000); micros = nat (micros mod 1000000) in
           Inr (pad0 2 (seconds div 3600) @ '':'' @ pad0 2 (seconds div 60 mod 60) @ '':'' @ pad0 2 (seconds mod 60)
             @ ''.'' @ pad0 6 micros))"

fun value_ref_to_sql_literal :: "float_fmt \<Rightarrow> calendar \<Rightarrow> value_ref \<Rightarrow> err + string" where
  "value_ref_to_sql_literal F K RNull = Inr ''NULL''"
| "value_ref_to_sql_literal F K (RBoolean b) = Inr (if b then ''true'' else ''false'')"
| "value_ref_to_sql_literal F K (RInteger i) = Inr (show_int i)"
| "value_ref_to_sql_literal F K (RFloat v) = Inr (show_f32 F v)"
| "value_ref_to_sql_literal F K (RDouble v) = Inr (show_f64 F v)"
| "value_ref_to_sql_literal F K (RDecimal v) = Inr v"
| "value_ref_to_sql_literal F K (RTimestamp unit v) =
     rbind (ok_or (timestamp_value_to_naive K unit v) (EPart TimestampRange)) (\<lambda>dt.
     Inr (''TIMESTAMP '' @ [CHR 0x27] @ sql_string (format_naive_datetime dt) @ [CHR 0x27]))"
| "value_ref_to_sql_literal F K (RText v) = Inr ([CHR 0x27] @ sql_string v @ [CHR 0x27])"
| "value_ref_to_sql_literal F K (RDate32 v) =
     rbind (ok_or (date32_value_to_naive K v) (EPart DateRange)) (\<lambda>dt.
     Inr (''DATE '' @ [CHR 0x27] @ format_date (fst dt) @ [CHR 0x27]))"
| "value_ref_to_sql_literal F K (RTime64 unit v) =
     rbind (format_time64_value unit v) (\<lambda>t. Inr (''TIME '' @ [CHR 0x27] @ sql_string t @ [CHR 0x27]))"
| "value_ref_to_sql_literal F K RBlob = Inl (EPart BlobUnsupported)"
| "value_ref_to_sql_literal F K RInterval = Inl (EPart IntervalUnsupported)"
| "value_ref_to_sql_literal F K ROther = Inl (EPart ValueUnsupported)"

section \<open>The name of a partition\<close>

text \<open>\<^verbatim>\<open>{:04}\<close> of a signed year.\<close>

definition year_text :: "int \<Rightarrow> string" where
  "year_text y = (if y < 0 then CHR ''-'' # pad0 3 (nat (- y)) else pad0 4 (nat y))"

text \<open>Other units do not reach this point: \<^verbatim>\<open>unreachable!\<close>.\<close>

definition partition_value_for_datetime :: "naive_datetime \<Rightarrow> string \<Rightarrow> err + string" where
  "partition_value_for_datetime dt unit =
     (let d = fst dt; y = year_text (d_year d); ym = y @ pad0 2 (d_month d); ymd = ym @ pad0 2 (d_day d) in
      if unit = ''hour'' then Inr (ymd @ pad0 2 (t_hour (snd dt)))
      else if unit = ''day'' then Inr ymd
      else if unit = ''month'' then Inr ym
      else if unit = ''year'' then Inr y
      else Inl EPanic)"

record partition_route =
  pr_value :: string
  pr_ts :: "naive_datetime option"

definition route_at :: "naive_datetime option \<Rightarrow> string \<Rightarrow> err + partition_route" where
  "route_at at unit = (case at of
     None \<Rightarrow> Inl (EPart NotRoutable)
   | Some dt \<Rightarrow> rbind (partition_value_for_datetime dt unit) (\<lambda>v. Inr \<lparr>pr_value = v, pr_ts = Some dt\<rparr>))"

definition partition_route_for_expr :: "calendar \<Rightarrow> expr_value \<Rightarrow> string \<Rightarrow> string \<Rightarrow> err + partition_route" where
  "partition_route_for_expr K e key_type unit = route_at (partition_datetime_from_expr K key_type e) unit"

definition partition_route_for_value_ref :: "calendar \<Rightarrow> value_ref \<Rightarrow> string \<Rightarrow> string \<Rightarrow> err + partition_route" where
  "partition_route_for_value_ref K v key_type unit = route_at (partition_datetime_from_value_ref K key_type v) unit"

section \<open>The bounds of a partition\<close>

record bounds_of_partition =
  pb_value :: string
  pb_lower :: naive_datetime
  pb_upper :: naive_datetime

definition add_months :: "calendar \<Rightarrow> naive_datetime \<Rightarrow> int \<Rightarrow> err + naive_datetime" where
  "add_months K v months =
     (let total = d_year (fst v) * 12 + (int (d_month (fst v)) - 1) + months in
      ok_or (Option.bind (cal_ymd K (total div 12) (nat (total mod 12) + 1) (d_day (fst v))) (\<lambda>d.
          cal_hms K d (t_hour (snd v)) (t_minute (snd v)) (t_second (snd v))))
        (EPart (BadMonthArithmetic (cal_text K v))))"

definition lower_bound :: "calendar \<Rightarrow> string \<Rightarrow> string \<Rightarrow> err + naive_datetime" where
  "lower_bound K v unit =
     (if unit = ''hour'' then ok_or (cal_datetime K ''%Y%m%d%H'' v) (EPart (BadPartitionValue unit v))
      else if unit = ''day'' then ok_or (date_midnight K ''%Y%m%d'' v) (EPart (BadPartitionValue unit v))
      else if unit = ''month'' then ok_or (date_midnight K ''%Y%m%d'' (v @ ''01'')) (EPart (BadPartitionValue unit v))
      else if unit = ''year'' then ok_or (date_midnight K ''%Y%m%d'' (v @ ''0101'')) (EPart (BadPartitionValue unit v))
      else Inl (EPart (UnsupportedUnit unit)))"

definition upper_bound :: "calendar \<Rightarrow> naive_datetime \<Rightarrow> string \<Rightarrow> err + naive_datetime" where
  "upper_bound K lower unit =
     (if unit = ''hour'' then ok_or (cal_add_hours K lower 1) EPanic
      else if unit = ''day'' then ok_or (cal_add_days K lower 1) EPanic
      else if unit = ''month'' then add_months K lower 1
      else if unit = ''year'' then add_months K lower 12
      else Inl (EPart (UnsupportedUnit unit)))"

definition partition_bounds :: "calendar \<Rightarrow> string \<Rightarrow> string \<Rightarrow> err + bounds_of_partition" where
  "partition_bounds K v unit =
     rbind (lower_bound K v unit) (\<lambda>lower.
     rbind (upper_bound K lower unit) (\<lambda>upper.
     Inr \<lparr>pb_value = v, pb_lower = lower, pb_upper = upper\<rparr>))"

section \<open>Groups of rows\<close>

type_synonym insert_groups = "(string \<times> naive_datetime option \<times> string list list) list"

fun push_partition_insert_group :: "insert_groups \<Rightarrow> partition_route \<Rightarrow> string list \<Rightarrow> insert_groups" where
  "push_partition_insert_group [] route exprs = [(pr_value route, pr_ts route, [exprs])]"
| "push_partition_insert_group ((v, ts, rows) # gs) route exprs =
     (if v = pr_value route then (v, (if ts = None then pr_ts route else ts), rows @ [exprs]) # gs
      else (v, ts, rows) # push_partition_insert_group gs route exprs)"

text \<open>A row with its route; the steps of both kinds of source.\<close>

definition values_row :: "calendar \<Rightarrow> string \<Rightarrow> string \<Rightarrow> string \<Rightarrow> nat \<Rightarrow> nat option \<Rightarrow> insert_expr list \<Rightarrow>
    err + partition_route \<times> string list" where
  "values_row K key key_type unit width idx row =
     (if length row \<noteq> width then Inl (EPart (InsertRowCount width (length row)))
      else rbind (ok_or idx (EPart (InsertNeedsKey key))) (\<lambda>i.
        rbind (partition_route_for_expr K (ie_value (row ! i)) key_type unit) (\<lambda>route.
        Inr (route, map ie_text row))))"

definition query_row_group :: "float_fmt \<Rightarrow> calendar \<Rightarrow> string \<Rightarrow> string \<Rightarrow> string \<Rightarrow> nat option \<Rightarrow> value_ref list \<Rightarrow>
    err + partition_route \<times> string list" where
  "query_row_group F K key key_type unit idx row =
     rbind (ok_or idx (EPart (InsertNeedsKey key))) (\<lambda>i.
     rbind (partition_route_for_value_ref K (row ! i) key_type unit) (\<lambda>route.
     rbind (rcollect (value_ref_to_sql_literal F K) row) (\<lambda>exprs. Inr (route, exprs))))"

definition push_row :: "('r \<Rightarrow> err + partition_route \<times> string list) \<Rightarrow> 'r \<Rightarrow> insert_groups \<Rightarrow> err + insert_groups" where
  "push_row f row gs = rbind (f row) (\<lambda>(route, exprs). Inr (push_partition_insert_group gs route exprs))"

definition values_groups :: "calendar \<Rightarrow> string \<Rightarrow> string \<Rightarrow> string \<Rightarrow> nat \<Rightarrow> nat option \<Rightarrow> insert_expr list list \<Rightarrow>
    err + insert_groups" where
  "values_groups K key key_type unit width idx rows = rfold (push_row (values_row K key key_type unit width idx)) rows []"

definition query_groups :: "float_fmt \<Rightarrow> calendar \<Rightarrow> string \<Rightarrow> string \<Rightarrow> string \<Rightarrow> nat option \<Rightarrow> value_ref list list \<Rightarrow>
    err + insert_groups" where
  "query_groups F K key key_type unit idx rows = rfold (push_row (query_row_group F K key key_type unit idx)) rows []"

section \<open>The groups are the rows\<close>

text \<open>Reference: the rows of one name, in their order.\<close>

definition rows_of :: "string \<Rightarrow> (partition_route \<times> string list) list \<Rightarrow> string list list" where
  "rows_of v routed = map snd (filter (\<lambda>(r, _). pr_value r = v) routed)"

definition push_all :: "insert_groups \<Rightarrow> (partition_route \<times> string list) list \<Rightarrow> insert_groups" where
  "push_all gs routed = foldl (\<lambda>gs (r, e). push_partition_insert_group gs r e) gs routed"

lemma push_keys: "map fst (push_partition_insert_group gs r e) =
    map fst gs @ (if pr_value r \<in> fst ` set gs then [] else [pr_value r])"
  by (induction gs r e rule: push_partition_insert_group.induct) auto

lemma push_all_snoc: "push_all gs (xs @ [x]) = push_partition_insert_group (push_all gs xs) (fst x) (snd x)"
  by (simp add: push_all_def split: prod.splits)

lemma push_absent:
  "pr_value r \<notin> fst ` set gs \<Longrightarrow> push_partition_insert_group gs r e = gs @ [(pr_value r, pr_ts r, [e])]"
  by (induction gs r e rule: push_partition_insert_group.induct) auto

lemma push_present:
  "distinct (map fst gs) \<Longrightarrow> pr_value r \<in> fst ` set gs \<Longrightarrow> push_partition_insert_group gs r e =
     map (\<lambda>(v, ts, rows). if v = pr_value r then (v, if ts = None then pr_ts r else ts, rows @ [e]) else (v, ts, rows)) gs"
  by (induction gs r e rule: push_partition_insert_group.induct) (auto intro!: map_idI [symmetric] simp: image_iff split: prod.splits)

lemma push_member:
  assumes "distinct (map fst gs)" "(v, ts, rows) \<in> set (push_partition_insert_group gs r e)"
  shows "v \<noteq> pr_value r \<and> (\<exists>t. (v, t, rows) \<in> set gs)
    \<or> v = pr_value r \<and> (\<exists>t rs. (v, t, rs) \<in> set gs \<and> rows = rs @ [e])
    \<or> v = pr_value r \<and> v \<notin> fst ` set gs \<and> rows = [e]"
proof (cases "pr_value r \<in> fst ` set gs")
  case True
  obtain v' t rs where "(v', t, rs) \<in> set gs"
    and e: "(v, ts, rows) = (if v' = pr_value r then (v', if t = None then pr_ts r else t, rs @ [e]) else (v', t, rs))"
    using assms(2) unfolding push_present [OF assms(1) True] by auto
  then show ?thesis by (cases "v' = pr_value r") auto
next
  case False
  then show ?thesis using assms(2) unfolding push_absent [OF False] by (auto simp: image_iff)
qed

lemma push_all_groups:
  "distinct (map fst (push_all [] routed)) \<and> fst ` set (push_all [] routed) = (\<lambda>x. pr_value (fst x)) ` set routed
   \<and> (\<forall>(v, ts, rows)\<in>set (push_all [] routed). rows_of v routed = rows)"
proof (induction routed rule: rev_induct)
  case Nil
  show ?case by (simp add: push_all_def)
next
  case (snoc x xs)
  let ?gs = "push_all [] xs"
  obtain r e where x: "x = (r, e)" by force
  have keys: "map fst (push_all [] (xs @ [x])) = map fst ?gs @ (if pr_value r \<in> fst ` set ?gs then [] else [pr_value r])"
    unfolding push_all_snoc x by (simp add: push_keys)
  have d: "distinct (map fst (push_all [] (xs @ [x])))" unfolding keys using snoc by auto
  have s: "fst ` set (push_all [] (xs @ [x])) = (\<lambda>x. pr_value (fst x)) ` set (xs @ [x])"
    using arg_cong [OF keys, of set] snoc by (auto simp: x)
  have "rows_of v (xs @ [x]) = rows" if "(v, ts, rows) \<in> set (push_all [] (xs @ [x]))" for v ts rows
  proof -
    have old: "rows_of v xs = rows0" if "(v, ts0, rows0) \<in> set ?gs" for ts0 rows0 using snoc that by fast
    have new: "v \<notin> fst ` set ?gs \<Longrightarrow> rows_of v xs = []"
      using snoc by (force simp: rows_of_def filter_empty_conv image_iff)
    have rows: "rows_of v (xs @ [x]) = rows_of v xs @ (if pr_value r = v then [e] else [])" by (simp add: rows_of_def x)
    have "(v, ts, rows) \<in> set (push_partition_insert_group ?gs r e)" using that unfolding push_all_snoc x by simp
    moreover have "distinct (map fst ?gs)" using snoc by blast
    ultimately show ?thesis
      unfolding rows using old new push_member [of ?gs v ts rows r e] by auto
  qed
  with d s show ?case by blast
qed

lemma groups_of_rows: "rfold (push_row f) rows gs = rbind (rcollect f rows) (\<lambda>routed. Inr (push_all gs routed))"
proof (induction rows arbitrary: gs)
  case (Cons row rows)
  then show ?case
    by (cases "f row"; cases "rcollect f rows") (auto simp: push_row_def push_all_def split: prod.splits)
qed (simp add: push_all_def)

section \<open>The bounds hold the point\<close>

lemma nothing_before_midnight: "not_later (a, time_of 0 0 0 0) (a, t)"
  by (cases t) (auto simp: not_later_def earlier_def earlier_time_def time_of_def)

lemma first_of_month: "valid_date (date_of y m d) \<Longrightarrow> valid_date (date_of y m 1)"
  by (simp add: valid_date_def date_of_def)

lemma pad0_one: "pad0 2 (Suc 0) = ''01''"
  by code_simp

context calendar_laws
begin

lemma midnight_hms: "cal_hms K a 0 0 0 = Some (a, time_of 0 0 0 0)"
  by (simp add: hms)

lemma read_date:
  assumes "valid_date a" "0 \<le> d_year a" "d_year a \<le> 9999"
  shows "date_midnight K ''%Y%m%d'' (year_text (d_year a) @ pad0 2 (d_month a) @ pad0 2 (d_day a)) = Some (a, time_of 0 0 0 0)"
  using assms by (simp add: date_midnight_def year_text_def compact_date midnight_hms)

lemma months_later:
  assumes "1 \<le> m" "m \<le> 12" "0 \<le> y" "y \<le> 9999"
  shows "add_months K (date_of y m 1, time_of 0 0 0 0) 1 =
    Inr (if m < 12 then date_of y (m + 1) 1 else date_of (y + 1) 1 1, time_of 0 0 0 0)"
proof -
  let ?total = "y * 12 + (int m - 1) + 1"
  show ?thesis
  proof (cases "m < 12")
    case True
    then have "?total div 12 = y" "nat (?total mod 12) + 1 = m + 1" by simp_all
    then show ?thesis using assms True
      by (simp add: add_months_def ymd midnight_hms date_of_def time_of_def valid_date_def month_days_def Let_def)
  next
    case False
    then have "m = 12" using assms by simp
    then have "?total div 12 = y + 1" "nat (?total mod 12) + 1 = 1" by simp_all
    then show ?thesis using assms False
      by (simp add: add_months_def ymd midnight_hms date_of_def time_of_def valid_date_def month_days_def Let_def)
  qed
qed

lemma year_later:
  assumes "0 \<le> y" "y \<le> 9999"
  shows "add_months K (date_of y 1 1, time_of 0 0 0 0) 12 = Inr (date_of (y + 1) 1 1, time_of 0 0 0 0)"
proof -
  have "(y * 12 + 12) div 12 = y + 1" "(y * 12 + 12) mod 12 = 0" by auto
  then show ?thesis
    using assms by (simp add: add_months_def ymd midnight_hms date_of_def time_of_def valid_date_def month_days_def Let_def)
qed

lemma bounds_contain:
  assumes "valid_date (fst dt)" "0 \<le> d_year (fst dt)" "d_year (fst dt) \<le> 9999" and unit: "unit \<in> {''day'', ''month'', ''year''}"
  shows "\<exists>v b. partition_value_for_datetime dt unit = Inr v \<and> partition_bounds K v unit = Inr b \<and> pb_value b = v
    \<and> not_later (pb_lower b) dt \<and> earlier dt (pb_upper b)"
proof -
  obtain a t where dt: "dt = (a, t)" by force
  note a = assms(1-3) [unfolded dt fst_conv]
  define y m d where "y = d_year a" and "m = d_month a" and "d = d_day a"
  have ad: "a = date_of y m d" by (simp add: date_of_def y_def m_def d_def)
  have m: "1 \<le> m" "m \<le> 12" "1 \<le> d" using a(1) by (simp_all add: valid_date_def m_def d_def)
  have y: "0 \<le> y" "y \<le> 9999" using a by (simp_all add: y_def)
  from unit consider "unit = ''day''" | "unit = ''month''" | "unit = ''year''" by auto
  then show ?thesis
  proof cases
    case 1
    then show ?thesis
      using a nothing_before_midnight [of a t] earlier_next_day [of a] read_date [OF a]
      by (simp add: dt partition_value_for_datetime_def partition_bounds_def lower_bound_def upper_bound_def Let_def one_day
          earlier_def)
  next
    case 2
    have "date_midnight K ''%Y%m%d'' (year_text y @ pad0 2 m @ ''01'') = Some (date_of y m 1, time_of 0 0 0 0)"
      using read_date [of "date_of y m 1"] first_of_month [of y m d] a ad y by (simp add: date_of_def pad0_one)
    moreover have "not_later (date_of y m 1, time_of 0 0 0 0) (a, t)"
      using nothing_before_midnight [of a t] m
      by (cases "d = 1") (auto simp: ad not_later_def earlier_def earlier_date_def date_of_def)
    ultimately show ?thesis
      using 2 m y months_later [OF m(1,2) y]
      by (simp add: dt ad partition_value_for_datetime_def partition_bounds_def lower_bound_def upper_bound_def Let_def
          earlier_def earlier_date_def) (simp add: date_of_def)
  next
    case 3
    have v: "valid_date (date_of y 1 1)" by (simp add: valid_date_def date_of_def month_days_def)
    have "date_midnight K ''%Y%m%d'' (year_text y @ ''0101'') = Some (date_of y 1 1, time_of 0 0 0 0)"
      using read_date [OF v] y by (simp add: date_of_def pad0_one)
    moreover have "not_later (date_of y 1 1, time_of 0 0 0 0) (a, t)"
      using nothing_before_midnight [of a t] m
      by (cases "d = 1 \<and> m = 1") (auto simp: ad not_later_def earlier_def earlier_date_def date_of_def)
    ultimately show ?thesis
      using 3 m y year_later [OF y]
      by (simp add: dt ad partition_value_for_datetime_def partition_bounds_def lower_bound_def upper_bound_def Let_def
          earlier_def earlier_date_def) (simp add: date_of_def)
  qed
qed

lemma no_hours: "partition_bounds K v ''hour'' = Inl (EPart (BadPartitionValue ''hour'' v))"
  by (simp add: partition_bounds_def lower_bound_def no_minutes)

end

section \<open>Names sort as the points\<close>

lemma less_append: "length s = length t \<Longrightarrow> (s :: string) @ s' < t @ t' \<longleftrightarrow> s < t \<or> s = t \<and> s' < t'"
  by (induction s t rule: list_induct2) auto

lemma pad0_snoc: "0 < w \<Longrightarrow> n < 10 ^ Suc w \<Longrightarrow> pad0 (Suc w) n = pad0 w (n div 10) @ [digit_char (n mod 10)]"
proof (cases "n < 10")
  case True
  assume "0 < w"
  then obtain v where "w = Suc v" by (cases w) simp_all
  moreover have "digit_char 0 = CHR ''0''" by code_simp
  ultimately show ?thesis using True
    by (simp add: pad0_def show_nat.simps [of n] show_nat.simps [of 0] replicate_append_same)
next
  case False
  then show ?thesis by (simp add: pad0_def show_nat.simps [of n])
qed

lemma less_by_digits: "(m :: nat) < n \<longleftrightarrow> m div 10 < n div 10 \<or> m div 10 = n div 10 \<and> m mod 10 < n mod 10"
proof -
  obtain a p where "m = 10 * a + p" "p < 10" by (metis mod_less_divisor mult_div_mod_eq zero_less_numeral)
  moreover obtain b q where "n = 10 * b + q" "q < 10" by (metis mod_less_divisor mult_div_mod_eq zero_less_numeral)
  ultimately show ?thesis by auto
qed

lemma digit_char_less: "m < 10 \<Longrightarrow> n < 10 \<Longrightarrow> digit_char m < digit_char n \<longleftrightarrow> m < n"
  by (simp add: digit_char_def less_char_def)

lemma pad0_less: "0 < w \<Longrightarrow> m < 10 ^ w \<Longrightarrow> n < 10 ^ w \<Longrightarrow> pad0 w m < pad0 w n \<longleftrightarrow> m < n"
proof (induction w arbitrary: m n)
  case (Suc w)
  show ?case
  proof (cases "w = 0")
    case True
    then show ?thesis using Suc.prems digit_char_less [of m n]
      by (simp add: pad0_def show_nat.simps [of m] show_nat.simps [of n])
  next
    case False
    have "m div 10 < 10 ^ w" "n div 10 < 10 ^ w" using Suc.prems by (simp_all add: div_less_iff_less_mult mult.commute)
    then have "pad0 w (m div 10) < pad0 w (n div 10) \<longleftrightarrow> m div 10 < n div 10"
      "pad0 w (n div 10) < pad0 w (m div 10) \<longleftrightarrow> n div 10 < m div 10"
      "length (pad0 w (m div 10)) = length (pad0 w (n div 10))"
      using False Suc.IH by (simp_all add: length_pad0)
    moreover have "pad0 w (m div 10) = pad0 w (n div 10) \<longleftrightarrow> m div 10 = n div 10"
      using calculation(1,2) by (metis less_irrefl linorder_neqE_nat)
    moreover have "digit_char (m mod 10) < digit_char (n mod 10) \<longleftrightarrow> m mod 10 < n mod 10"
      by (rule digit_char_less) simp_all
    ultimately show ?thesis using False Suc.prems by (simp add: pad0_snoc less_append less_by_digits [of m n])
  qed
qed simp

lemma pad0_eq: "0 < w \<Longrightarrow> m < 10 ^ w \<Longrightarrow> n < 10 ^ w \<Longrightarrow> pad0 w m = pad0 w n \<longleftrightarrow> m = n"
  using pad0_less [of w m n] pad0_less [of w n m] by (metis less_irrefl linorder_neqE_nat)

lemma valid_fields:
  assumes "valid_date a" "valid_time t"
  shows "d_month a < 100" "d_day a < 100" "t_hour t < 100"
proof -
  have "month_days (d_year a) (d_month a) \<le> 31" by (simp add: month_days_def)
  then show "d_month a < 100" "d_day a < 100" "t_hour t < 100"
    using assms unfolding valid_date_def valid_time_def by linarith+
qed

lemma names_sorted:
  assumes "valid_date (fst dt)" "valid_time (snd dt)" "0 \<le> d_year (fst dt)" "d_year (fst dt) \<le> 9999"
    and "valid_date (fst dt')" "valid_time (snd dt')" "0 \<le> d_year (fst dt')" "d_year (fst dt') \<le> 9999"
    and "partition_value_for_datetime dt unit = Inr v" "partition_value_for_datetime dt' unit = Inr v'" "v < v'"
  shows "earlier dt dt'"
proof -
  obtain a t b u where dt: "dt = (a, t)" "dt' = (b, u)" by force
  note f = valid_fields [OF assms(1,2)] valid_fields [OF assms(5,6)]
  have y: "nat (d_year a) < 10000" "nat (d_year b) < 10000" using assms dt by auto
  have s: "pad0 4 (nat (d_year a)) < pad0 4 (nat (d_year b)) \<longleftrightarrow> d_year a < d_year b"
    "pad0 4 (nat (d_year a)) = pad0 4 (nat (d_year b)) \<longleftrightarrow> d_year a = d_year b"
    "length (pad0 4 (nat (d_year a))) = 4" "length (pad0 4 (nat (d_year b))) = 4"
    using y assms dt by (auto simp: pad0_less pad0_eq length_pad0)
  have p: "m < 100 \<Longrightarrow> n < 100 \<Longrightarrow> pad0 2 m < pad0 2 n \<longleftrightarrow> m < n" "m < 100 \<Longrightarrow> n < 100 \<Longrightarrow> pad0 2 m = pad0 2 n \<longleftrightarrow> m = n"
    "m < 100 \<Longrightarrow> length (pad0 2 m) = 2" for m n
    by (simp_all add: pad0_less pad0_eq length_pad0)
  show ?thesis
    using assms(9-11) f assms(3,7)
    by (auto simp: dt partition_value_for_datetime_def Let_def year_text_def less_append s p earlier_def earlier_date_def
        earlier_time_def split: if_splits)
qed

section \<open>Properties\<close>

lemma push_length: "(\<Sum>(_, _, rs)\<leftarrow>push_partition_insert_group gs r e. length rs) = Suc (\<Sum>(_, _, rs)\<leftarrow>gs. length rs)"
  by (induction gs r e rule: push_partition_insert_group.induct) auto

lemma push_all_length: "(\<Sum>(_, _, rs)\<leftarrow>push_all gs routed. length rs) = length routed + (\<Sum>(_, _, rs)\<leftarrow>gs. length rs)"
  by (induction routed arbitrary: gs) (auto simp: push_all_def push_length)

lemma rcollect_length: "rcollect f xs = Inr ys \<Longrightarrow> length ys = length xs"
  by (induction f xs arbitrary: ys rule: rcollect.induct) (auto simp: rbind_Inr_conv)


text \<open>Partition names sort as the points in time they stand for, so the partitions that retention expires first,
  \<^verbatim>\<open>ORDER BY partition_value\<close>, are the oldest.\<close>

theorem partition_names_sort_by_time:
  assumes "valid_date (fst dt)" and "valid_time (snd dt)" and "0 \<le> d_year (fst dt)" and "d_year (fst dt) \<le> 9999"
    and "valid_date (fst dt')" and "valid_time (snd dt')" and "0 \<le> d_year (fst dt')" and "d_year (fst dt') \<le> 9999"
    and "partition_value_for_datetime dt unit = Inr v" and "partition_value_for_datetime dt' unit = Inr v'" and "v < v'"
  shows "earlier dt dt'"
  using names_sorted [OF assms] .

text \<open>C37: Grouping loses and repeats no row: when every row of the source has a route, the groups have distinct names, the
  names are those of the routes, each group holds the rows of its name in their order, and together the
  groups have as many rows as the source.\<close>

theorem insert_groups_are_the_rows:
  assumes "rfold (push_row f) rows [] = Inr gs"
  shows "\<exists>routed. rcollect f rows = Inr routed \<and> distinct (map fst gs)
    \<and> fst ` set gs = (\<lambda>x. pr_value (fst x)) ` set routed
    \<and> (\<forall>(v, ts, rs)\<in>set gs. rows_of v routed = rs) \<and> (\<Sum>(_, _, rs)\<leftarrow>gs. length rs) = length rows"
proof -
  obtain routed where r: "rcollect f rows = Inr routed" "gs = push_all [] routed"
    using assms unfolding groups_of_rows by (cases "rcollect f rows") auto
  moreover have "(\<Sum>(_, _, rs)\<leftarrow>gs. length rs) = length rows"
    using r push_all_length [of "[]" routed] rcollect_length [OF r(1)] by simp
  ultimately show ?thesis using push_all_groups [of routed] by blast
qed

section \<open>Witnesses\<close>


theorem partition_names_sort_by_time_witness:
  "earlier (date_of 2024 2 29, time_of 12 30 0 0) (date_of 2024 11 1, time_of 0 0 0 0)"
  by (rule partition_names_sort_by_time [where unit = "''day''" and v = "''20240229''" and v' = "''20241101''"]) code_simp+

text \<open>A source of three rows.\<close>

definition sample_row :: "string \<Rightarrow> string \<Rightarrow> insert_expr list" where
  "sample_row d v = [\<lparr>ie_value = XString d, ie_text = v\<rparr>]"

definition sample_group :: "insert_expr list \<Rightarrow> err + partition_route \<times> string list" where
  "sample_group = values_row gregorian ''d'' ''date'' ''month'' 1 (Some 0)"

lemma sample_groups:
  "sample_group (sample_row ''2024-01-05'' v) = Inr (\<lparr>pr_value = ''202401'', pr_ts = Some (date_of 2024 1 5, time_of 0 0 0 0)\<rparr>, [v])"
  "sample_group (sample_row ''2024-02-01'' v) = Inr (\<lparr>pr_value = ''202402'', pr_ts = Some (date_of 2024 2 1, time_of 0 0 0 0)\<rparr>, [v])"
  "sample_group (sample_row ''2024-01-31'' v) = Inr (\<lparr>pr_value = ''202401'', pr_ts = Some (date_of 2024 1 31, time_of 0 0 0 0)\<rparr>, [v])"
  by code_simp+

theorem insert_groups_are_the_rows_witness:
  "\<exists>routed. rcollect sample_group [sample_row ''2024-01-05'' ''a'', sample_row ''2024-02-01'' ''b'', sample_row ''2024-01-31'' ''c'']
      = Inr routed \<and> rows_of ''202401'' routed = [[''a''], [''c'']]"
proof -
  have "rfold (push_row sample_group) [sample_row ''2024-01-05'' ''a'', sample_row ''2024-02-01'' ''b'', sample_row ''2024-01-31'' ''c'']
      [] = Inr [(''202401'', Some (date_of 2024 1 5, time_of 0 0 0 0), [[''a''], [''c'']]),
     (''202402'', Some (date_of 2024 2 1, time_of 0 0 0 0), [[''b'']])]"
    by (simp add: push_row_def sample_groups)
  from insert_groups_are_the_rows [OF this] obtain routed where
    "rcollect sample_group [sample_row ''2024-01-05'' ''a'', sample_row ''2024-02-01'' ''b'', sample_row ''2024-01-31'' ''c'']
       = Inr routed" "rows_of ''202401'' routed = [[''a''], [''c'']]" by auto
  then show ?thesis by blast
qed

end
