(* ===== verification/Grants.thy ===== *)
theory Grants
  imports Accounts
begin

text \<open>
  GRANT and REVOKE of privileges and roles: \<^verbatim>\<open>src/catalog/mutation/grant.rs\<close>. Names are
  resolved before the transaction, the rows are written inside it. The abstract view is an access
  matrix: the set of granted (principal, object, action) and of memberships; a GRANT that
  succeeds is a union with it, a REVOKE a difference, and neither touches another table.
\<close>

section \<open>Resolving names\<close>

definition grant_contains_role_actions :: "privileges \<Rightarrow> bool" where
  "grant_contains_role_actions ps \<longleftrightarrow>
     (case ps of Actions actions \<Rightarrow> list_ex (\<lambda>a. case a of ARole _ \<Rightarrow> True | _ \<Rightarrow> False) actions | _ \<Rightarrow> False)"

definition push_new :: "'a \<Rightarrow> 'a list \<Rightarrow> 'a list" where
  "push_new x xs = (if x \<in> set xs then xs else xs @ [x])"

definition granted_role :: "'p external \<Rightarrow> action \<Rightarrow> int list \<Rightarrow> ('p, int list) db" where
  "granted_role X action role_ids = (case action of
     ARole role \<Rightarrow>
       cbind (clift (single_name_part role)) (\<lambda>role_name.
       cbind (role_id_by_name X role_name) (\<lambda>role_id. creturn (push_new role_id role_ids)))
   | _ \<Rightarrow> cthrow (EMut RoleMixed))"

definition granted_role_ids :: "'p external \<Rightarrow> privileges \<Rightarrow> ('p, int list) db" where
  "granted_role_ids X ps = (case ps of
     Actions actions \<Rightarrow>
       cbind (cfold (granted_role X) actions []) (\<lambda>role_ids.
         if role_ids = [] then cthrow (EMut RoleListEmpty) else creturn role_ids)
   | AllPrivileges \<Rightarrow> cthrow (EMut RoleActionRequired))"

definition grantee_text :: "grantee \<Rightarrow> err + string" where
  "grantee_text g = (case grantee_name g of
     Some (GName name) \<Rightarrow> single_name_part name
   | Some (GUserHost user) \<Rightarrow> Inr user
   | None \<Rightarrow> Inl (EMut GranteeNameRequired))"

definition role_grantee :: "'p external \<Rightarrow> grantee \<Rightarrow> int list \<Rightarrow> ('p, int list) db" where
  "role_grantee X g user_ids =
     (if grantee_type g = GTRole then cthrow (EMut RoleInheritance)
      else cbind (clift (grantee_text g)) (\<lambda>username.
           cbind (user_id_by_name X username) (\<lambda>user_id. creturn (push_new user_id user_ids))))"

definition role_grantee_user_ids :: "'p external \<Rightarrow> grantee list \<Rightarrow> ('p, int list) db" where
  "role_grantee_user_ids X grantees =
     (if grantees = [] then cthrow (EMut RoleGranteesEmpty) else cfold (role_grantee X) grantees [])"

definition grant_relation_target :: "'p external \<Rightarrow> object_name \<Rightarrow> ('p, string \<times> int) db" where
  "grant_relation_target X name =
     cbind (clift (relation_name name)) (\<lambda>(schema, relation).
     cbind (clift (reject_reserved_schema schema)) (\<lambda>_.
     cbind (relation_oid X schema relation) (\<lambda>relid. creturn (''relation'', relid))))"

definition grant_schema_target :: "'p external \<Rightarrow> object_name \<Rightarrow> ('p, string \<times> int) db" where
  "grant_schema_target X name =
     cbind (clift (single_name_part name)) (\<lambda>schema.
     cbind (clift (reject_reserved_schema schema)) (\<lambda>_.
     cbind (namespace_oid X schema) (\<lambda>ns. creturn (''schema'', ns))))"

definition grant_targets :: "'p external \<Rightarrow> grant_objects option \<Rightarrow> ('p, (string \<times> int) list) db" where
  "grant_targets X objects = (case objects of
     None \<Rightarrow> creturn [(''system'', 0)]
   | Some (GTables names) \<Rightarrow> cmapM (grant_relation_target X) names
   | Some (GViews names) \<Rightarrow> cmapM (grant_relation_target X) names
   | Some (GSchemas names) \<Rightarrow> cmapM (grant_schema_target X) names
   | Some (GDatabases _) \<Rightarrow> creturn [(''system'', 0)]
   | Some (GOther _) \<Rightarrow> cthrow (EGrant GrantTargetUnsupported))"

definition grant_principal :: "'p external \<Rightarrow> grantee \<Rightarrow> ('p, string \<times> int) db" where
  "grant_principal X g =
     cbind (clift (grantee_text g)) (\<lambda>name. case grantee_type g of
       GTRole \<Rightarrow> cbind (role_id_by_name X name) (\<lambda>i. creturn (''role'', i))
     | GTOther t \<Rightarrow> cthrow (EMut (GranteeTypeUnsupported t))
     | _ \<Rightarrow> cbind (user_id_by_name X name) (\<lambda>i. creturn (''user'', i)))"

definition grant_principals :: "'p external \<Rightarrow> grantee list \<Rightarrow> ('p, (string \<times> int) list) db" where
  "grant_principals X grantees =
     (if grantees = [] then cthrow (EMut GranteesEmpty) else cmapM (grant_principal X) grantees)"

section \<open>Actions\<close>

text \<open>The action of the catalog that one SQL privilege stands for, by the type of the object.\<close>

definition privilege_action :: "string \<Rightarrow> action \<Rightarrow> err + string" where
  "privilege_action object_type item =
     (if item \<in> {ASelect, ARead, AUsage} then Inr ''read''
      else if object_type = ''relation'' \<and> item \<in> {AInsert, AUpdate, ADelete} then Inr ''write''
      else if object_type = ''relation'' \<and> item \<in> {ACreate, ADrop, AOwnership} then Inr ''ddl''
      else if object_type = ''schema'' \<and> item \<in> {ACreate, ADrop, AOwnership} then Inr ''ddl''
      else if object_type = ''system'' \<and> item \<in> {ACreate, AOwnership} then Inr ''manage_user''
      else Inl (EGrant (PrivilegeActionUnsupported object_type)))"

definition all_actions :: "string \<Rightarrow> err + string list" where
  "all_actions object_type =
     (if object_type = ''relation'' then Inr [''read'', ''write'', ''ddl'']
      else if object_type = ''schema'' then Inr [''read'', ''ddl'']
      else if object_type = ''system'' then Inr [''manage_snapshot'', ''manage_catalog'', ''manage_user'']
      else Inl (EGrant (PrivilegeTypeUnsupported object_type)))"

definition privilege_actions :: "privileges \<Rightarrow> (string \<times> int) list \<Rightarrow> err + string list" where
  "privilege_actions ps targets =
     (let object_type = (case targets of [] \<Rightarrow> ''system'' | (t, _) # _ \<Rightarrow> t) in
      rbind (case ps of
          AllPrivileges \<Rightarrow> all_actions object_type
        | Actions items \<Rightarrow>
            rfold (\<lambda>item actions. rbind (privilege_action object_type item) (\<lambda>a. Inr (push_new a actions))) items [])
        (\<lambda>actions. if actions = [] then Inl (EGrant NoPrivilegeActions) else Inr actions))"

section \<open>Rows\<close>

definition upsert_privilege ::
    "'p external \<Rightarrow> int \<Rightarrow> string \<times> int \<times> string \<times> int \<times> string \<Rightarrow> ('p, nat) db" where
  "upsert_privilege X grantor_id k =
     cbind (cquery X ''check existing privilege failed'' (\<lambda>c. length (filter (\<lambda>p. prv_key p = k) (privileges c)))) (\<lambda>count.
     if count > 0 then creturn 0
     else
       cbind (allocate_oid X) (\<lambda>privilege_id.
       cbind (cexec X ''insert privilege failed'' (\<lambda>c. map_option (\<lambda>rows. c\<lparr>privileges := rows\<rparr>)
         (insert_privilege (case k of (pt, pi, ot, oi, a) \<Rightarrow>
            \<lparr>prv_id = privilege_id, prv_principal_type = pt, prv_principal = pi, prv_object_type = ot,
             prv_object = oi, prv_action = a, prv_granted_by = grantor_id\<rparr>) (privileges c)))) (\<lambda>_.
       creturn 1)))"

definition upsert_user_role :: "'p external \<Rightarrow> int \<Rightarrow> int \<Rightarrow> int \<Rightarrow> ('p, nat) db" where
  "upsert_user_role X user_id role_id grantor_id =
     cbind (cquery X ''check existing role grant failed'' (\<lambda>c. length (filter
        (\<lambda>r. ur_user r = user_id \<and> ur_role r = role_id) (user_roles c)))) (\<lambda>count.
     if count > 0 then creturn 0
     else
       cbind (cexec X ''grant role failed'' (\<lambda>c. map_option (\<lambda>rows. c\<lparr>user_roles := rows\<rparr>)
         (insert_user_role \<lparr>ur_user = user_id, ur_role = role_id, ur_granted_by = grantor_id\<rparr> (user_roles c)))) (\<lambda>_.
       creturn 1))"

definition delete_privilege :: "'p external \<Rightarrow> string \<times> int \<times> string \<times> int \<times> string \<Rightarrow> ('p, nat) db" where
  "delete_privilege X k = cexec_count X ''delete privilege failed'' (\<lambda>c.
     (length (filter (\<lambda>p. prv_key p = k) (privileges c)),
      c\<lparr>privileges := filter (\<lambda>p. prv_key p \<noteq> k) (privileges c)\<rparr>))"

definition delete_user_role :: "'p external \<Rightarrow> int \<Rightarrow> int \<Rightarrow> ('p, nat) db" where
  "delete_user_role X user_id role_id = cexec_count X ''revoke role failed'' (\<lambda>c.
     (length (filter (\<lambda>r. ur_user r = user_id \<and> ur_role r = role_id) (user_roles c)),
      c\<lparr>user_roles := filter (\<lambda>r. \<not> (ur_user r = user_id \<and> ur_role r = role_id)) (user_roles c)\<rparr>))"

text \<open>\<^verbatim>\<open>affected += f(x)?\<close>\<close>

definition adding :: "('p, nat) db \<Rightarrow> nat \<Rightarrow> ('p, nat) db" where
  "adding m affected = cbind m (\<lambda>n. creturn (affected + n))"

section \<open>The four statements\<close>

definition grant_roles :: "'p external \<Rightarrow> grant_stmt \<Rightarrow> string \<Rightarrow> int \<Rightarrow> ('p, nat) db" where
  "grant_roles X g sql grantor_id =
     cbind (granted_role_ids X (g_privileges g)) (\<lambda>role_ids.
     cbind (role_grantee_user_ids X (g_grantees g)) (\<lambda>user_ids.
     run_catalog_tx X (
       cbind (insert_journal X ''grant_role'' 0 sql) (\<lambda>journal_id.
       cbind (cfold (\<lambda>user_id. cfold (\<lambda>role_id.
           adding (upsert_user_role X user_id role_id grantor_id)) role_ids) user_ids 0) (\<lambda>affected.
       cbind (finish_journal X journal_id) (\<lambda>_.
       creturn affected))))))"

definition revoke_roles :: "'p external \<Rightarrow> grant_stmt \<Rightarrow> string \<Rightarrow> ('p, nat) db" where
  "revoke_roles X g sql =
     cbind (granted_role_ids X (g_privileges g)) (\<lambda>role_ids.
     cbind (role_grantee_user_ids X (g_grantees g)) (\<lambda>user_ids.
     run_catalog_tx X (
       cbind (insert_journal X ''revoke_role'' 0 sql) (\<lambda>journal_id.
       cbind (cfold (\<lambda>user_id. cfold (\<lambda>role_id.
           adding (delete_user_role X user_id role_id)) role_ids) user_ids 0) (\<lambda>affected.
       cbind (finish_journal X journal_id) (\<lambda>_.
       creturn affected))))))"

definition grant_privileges :: "'p external \<Rightarrow> grant_stmt \<Rightarrow> string \<Rightarrow> int \<Rightarrow> ('p, nat) db" where
  "grant_privileges X g sql grantor_id =
     (if g_objects g = None \<and> grant_contains_role_actions (g_privileges g) then grant_roles X g sql grantor_id
      else
      cbind (grant_targets X (g_objects g)) (\<lambda>targets.
      cbind (clift (privilege_actions (g_privileges g) targets)) (\<lambda>actions.
      cbind (grant_principals X (g_grantees g)) (\<lambda>principals.
      run_catalog_tx X (
        cbind (insert_journal X ''grant_privilege'' 0 sql) (\<lambda>journal_id.
        cbind (cfold (\<lambda>(principal_type, principal_id). cfold (\<lambda>(object_type, object_id). cfold (\<lambda>action.
            adding (upsert_privilege X grantor_id (principal_type, principal_id, object_type, object_id, action)))
            actions) targets) principals 0) (\<lambda>affected.
        cbind (finish_journal X journal_id) (\<lambda>_.
        creturn affected))))))))"

definition revoke_privileges :: "'p external \<Rightarrow> grant_stmt \<Rightarrow> string \<Rightarrow> ('p, nat) db" where
  "revoke_privileges X g sql =
     (if g_objects g = None \<and> grant_contains_role_actions (g_privileges g) then revoke_roles X g sql
      else
      cbind (grant_targets X (g_objects g)) (\<lambda>targets.
      cbind (clift (privilege_actions (g_privileges g) targets)) (\<lambda>actions.
      cbind (grant_principals X (g_grantees g)) (\<lambda>principals.
      run_catalog_tx X (
        cbind (insert_journal X ''revoke_privilege'' 0 sql) (\<lambda>journal_id.
        cbind (cfold (\<lambda>(principal_type, principal_id). cfold (\<lambda>(object_type, object_id). cfold (\<lambda>action.
            adding (delete_privilege X (principal_type, principal_id, object_type, object_id, action)))
            actions) targets) principals 0) (\<lambda>affected.
        cbind (finish_journal X journal_id) (\<lambda>_.
        creturn affected))))))))"

section \<open>Operations whose names are resolved first\<close>

text \<open>The contract for a computation that relies on \<open>P\<close> of the catalog when no transaction is
  open; the reads before it establish \<open>P\<close>.\<close>

definition atomic_when :: "(catalog \<Rightarrow> bool) \<Rightarrow> 'p external \<Rightarrow> ('p, 'a) db \<Rightarrow> bool" where
  "atomic_when P X m \<longleftrightarrow> (\<forall>s r s'. m s = (r, s') \<longrightarrow> good (x_fmt X) (catalog_of s) \<longrightarrow> (saved s = None \<longrightarrow> P (cat s)) \<longrightarrow>
     good (x_fmt X) (catalog_of s')
     \<and> (\<forall>e. r = Inl e \<longrightarrow> committed s' = committed s)
     \<and> (\<forall>v. r = Inr v \<longrightarrow> saved s = None \<longrightarrow> saved s' = None))"

lemma atomic_whenI: "atomic X m \<Longrightarrow> atomic_when P X m"
  unfolding atomic_def atomic_when_def by blast

lemma atomic_when_True: "atomic_when (\<lambda>_. True) X m \<Longrightarrow> atomic X m"
  unfolding atomic_def atomic_when_def by blast

lemma atomic_when_weaken: "atomic_when P X m \<Longrightarrow> (\<And>c. Q c \<Longrightarrow> P c) \<Longrightarrow> atomic_when Q X m"
  unfolding atomic_when_def by simp

lemma atomic_when_tx:
  assumes "body_spec (\<lambda>c. good (x_fmt X) c \<and> P c) f (\<lambda>_. good (x_fmt X))"
  shows "atomic_when P X (run_catalog_tx X f)"
  unfolding atomic_when_def
proof (intro allI impI)
  fix s r s' assume run: "run_catalog_tx X f s = (r, s')" and g: "good (x_fmt X) (catalog_of s)"
    and P: "saved s = None \<longrightarrow> P (cat s)"
  show "good (x_fmt X) (catalog_of s') \<and> (\<forall>e. r = Inl e \<longrightarrow> committed s' = committed s)
     \<and> (\<forall>v. r = Inr v \<longrightarrow> saved s = None \<longrightarrow> saved s' = None)"
  proof (cases "saved s")
    case None
    with g P have "good (x_fmt X) (cat s) \<and> P (cat s)" by (simp add: catalog_of_def committed_def)
    from tx_result [OF assms this run] g show ?thesis by (cases r) (auto simp: catalog_of_def committed_def)
  next
    case (Some x)
    with run run_in_open_tx [of s X f] g show ?thesis by (auto simp: catalog_of_def)
  qed
qed

lemma atomic_when_read_bind:
  assumes "read_only m" "body_spec P m Q" "\<And>v. atomic_when (Q v) X (f v)"
  shows "atomic_when P X (cbind m f)"
  unfolding atomic_when_def
proof (intro allI impI)
  fix s r s' assume b: "cbind m f s = (r, s')" and g: "good (x_fmt X) (catalog_of s)"
    and P: "saved s = None \<longrightarrow> P (cat s)"
  obtain rm s1 where m: "m s = (rm, s1)" by (cases "m s")
  note c = committed_read [OF assms(1) m]
  show "good (x_fmt X) (catalog_of s') \<and> (\<forall>e. r = Inl e \<longrightarrow> committed s' = committed s)
     \<and> (\<forall>v. r = Inr v \<longrightarrow> saved s = None \<longrightarrow> saved s' = None)"
  proof (cases rm)
    case (Inl e)
    with m b c g show ?thesis by (auto simp: cbind_def catalog_of_def)
  next
    case (Inr v)
    with m b have "f v s1 = (r, s')" by (simp add: cbind_def)
    moreover have "saved s1 = None \<longrightarrow> Q v (cat s1)"
      using body_specD [OF assms(2) _ m] P c Inr by auto
    ultimately show ?thesis using assms(3) [of v] c g unfolding atomic_when_def by (auto simp: catalog_of_def)
  qed
qed

section \<open>Nested loops\<close>

lemma cbind_return_left [simp]: "cbind (creturn x) f = f x"
  by (simp add: fun_eq_iff cbind_def creturn_def)

lemma cbind_assoc: "cbind (cbind m f) g = cbind m (\<lambda>x. cbind (f x) g)"
  by (simp add: fun_eq_iff cbind_def split: prod.split sum.split)

lemma cfold_append: "cfold f (xs @ ys) = (\<lambda>a. cbind (cfold f xs a) (cfold f ys))"
  by (induction xs) (rule ext, simp add: cbind_assoc)+

lemma cfold_map: "cfold f (map g xs) = cfold (\<lambda>x. f (g x)) xs"
  by (induction xs) (rule ext, simp)+

lemma cfold_concat: "cfold f (concat xss) = cfold (cfold f) xss"
  by (induction xss) (rule ext, simp add: cfold_append)+

definition grant_keys ::
    "(string \<times> int) list \<Rightarrow> (string \<times> int) list \<Rightarrow> string list \<Rightarrow> (string \<times> int \<times> string \<times> int \<times> string) list" where
  "grant_keys ps ts as = concat (map (\<lambda>(pt, p). concat (map (\<lambda>(ot, oi). map (\<lambda>a. (pt, p, ot, oi, a)) as) ts)) ps)"

lemma nested_grant_loop:
  "cfold (\<lambda>(pt, p). cfold (\<lambda>(ot, oi). cfold (\<lambda>a. f (pt, p, ot, oi, a)) as) ts) ps n = cfold f (grant_keys ps ts as) n"
  unfolding grant_keys_def cfold_concat cfold_map
  by (simp add: case_prod_beta' cfold_concat cfold_map)

lemma set_grant_keys:
  "set (grant_keys ps ts as) = {(pt, p, ot, oi, a). (pt, p) \<in> set ps \<and> (ot, oi) \<in> set ts \<and> a \<in> set as}"
  unfolding grant_keys_def by (auto simp: case_prod_beta') (metis fst_conv snd_conv imageI)

lemma nested_role_loop:
  "cfold (\<lambda>u. cfold (\<lambda>r. f u r) rs) us n = cfold (\<lambda>(u, r). f u r) (List.product us rs) n"
  by (simp add: product_concat_map cfold_concat cfold_map)

section \<open>What the loops do\<close>

definition only_privileges :: "catalog \<Rightarrow> catalog \<Rightarrow> bool" where
  "only_privileges c d \<longleftrightarrow> (\<exists>as ps. d = c\<lparr>allocs := as, privileges := ps\<rparr>)"

lemma only_privilegesD:
  assumes "only_privileges c d"
  shows "users d = users c" "roles d = roles c" "user_roles d = user_roles c" "journal d = journal c"
    "schemas d = schemas c" "relations d = relations c" "versions d = versions c"
  using assms by (auto simp: only_privileges_def)

lemma only_privileges_refl: "only_privileges c c"
  unfolding only_privileges_def by (intro exI [of _ "allocs c"] exI [of _ "privileges c"]) simp

lemma only_privileges_step: "only_privileges c d \<Longrightarrow> only_privileges c (d\<lparr>allocs := as, privileges := ps\<rparr>)"
  unfolding only_privileges_def by (elim exE) (intro exI [of _ as] exI [of _ ps], simp)

lemma principal_exists_same:
  "users d = users c \<Longrightarrow> roles d = roles c \<Longrightarrow> principal_exists d = principal_exists c"
  by (simp add: principal_exists_def fun_eq_iff)

definition privileges_granted :: "(string \<times> int \<times> string \<times> int \<times> string) set \<Rightarrow> catalog \<Rightarrow> catalog \<Rightarrow> bool" where
  "privileges_granted K c d \<longleftrightarrow> only_privileges c d \<and> wf_catalog d
     \<and> prv_key ` set (privileges d) = prv_key ` set (privileges c) \<union> K
     \<and> set (privileges c) \<subseteq> set (privileges d)"

lemma sp_upsert_privilege:
  assumes "principal_exists c (fst k) (fst (snd k))"
  shows "body_spec (privileges_granted K c) (upsert_privilege X g k) (\<lambda>_. privileges_granted (insert k K) c)"
proof -
  obtain pt p ot oi a where k: "k = (pt, p, ot, oi, a)" by (cases k)
  have old: "privileges_granted (insert k K) c d"
    if "privileges_granted K c d" "x \<in> set (privileges d)" "prv_key x = k" for d x
  proof -
    have "k \<in> prv_key ` set (privileges d)" using that by blast
    with that(1) show ?thesis by (auto simp: privileges_granted_def)
  qed
  have new: "privileges_granted (insert k K) c ((bump d)\<lparr>privileges := rows\<rparr>)"
    if "privileges_granted K c d" "next_oid d = Some i" "insert_privilege \<lparr>prv_id = i, prv_principal_type = pt,
        prv_principal = p, prv_object_type = ot, prv_object = oi, prv_action = a, prv_granted_by = g\<rparr> (privileges d) = Some rows"
    for d i rows
  proof -
    let ?r = "\<lparr>prv_id = i, prv_principal_type = pt,
        prv_principal = p, prv_object_type = ot, prv_object = oi, prv_action = a, prv_granted_by = g\<rparr>"
    have o: "only_privileges c d" and w: "wf_catalog d" using that(1) by (auto simp: privileges_granted_def)
    have "principal_exists d pt p"
      using assms principal_exists_same [OF only_privilegesD(1,2) [OF o]] by (simp add: k)
    then have "wf_catalog ((bump d)\<lparr>privileges := rows\<rparr>)"
      using that(2,3) w by (intro wf_add_privilege [where p = ?r])
        (auto simp: unused_next principal_exists_def)
    moreover have "rows = privileges d @ [?r]" using privilege_ids.ins_appends [OF that(3)] .
    moreover have "only_privileges c ((bump d)\<lparr>privileges := rows\<rparr>)"
      unfolding bump_def using o by (rule only_privileges_step)
    ultimately show ?thesis using that(1) by (auto simp: privileges_granted_def prv_key_def k)
  qed
  show ?thesis
    unfolding upsert_privilege_def
    by (rule body_bind [OF sp_query], intro body_if body_return body_bind [OF sp_allocate] body_bind [OF sp_exec])
      (auto simp: k filter_empty_conv intro: old [unfolded k] new [unfolded k])
qed

lemma sp_adding:
  "body_spec A m (\<lambda>_. Q) \<Longrightarrow> body_spec A (adding m n) (\<lambda>_. Q)"
  unfolding adding_def by (rule body_bind, assumption, rule body_return)

lemma sp_grant_loop:
  assumes "\<And>k. k \<in> set ks \<Longrightarrow> principal_exists c (fst k) (fst (snd k))"
  shows "body_spec (privileges_granted K c) (cfold (\<lambda>k. adding (upsert_privilege X g k)) ks n)
     (\<lambda>_. privileges_granted (set ks \<union> K) c)"
  using assms
proof (induction ks arbitrary: K n)
  case (Cons k ks)
  have "body_spec (privileges_granted K c) (adding (upsert_privilege X g k) n) (\<lambda>_. privileges_granted (insert k K) c)"
    by (rule sp_adding [OF sp_upsert_privilege]) (simp add: Cons.prems)
  moreover have "body_spec (privileges_granted (insert k K) c) (cfold (\<lambda>k. adding (upsert_privilege X g k)) ks m)
      (\<lambda>_. privileges_granted (set (k # ks) \<union> K) c)" for m
    by (rule body_post [OF Cons.IH]) (simp_all add: Cons.prems)
  ultimately show ?case by (auto intro: body_bind)
qed (simp add: body_return)

definition privileges_revoked :: "(string \<times> int \<times> string \<times> int \<times> string) set \<Rightarrow> catalog \<Rightarrow> catalog \<Rightarrow> bool" where
  "privileges_revoked K c d \<longleftrightarrow> d = c\<lparr>privileges := filter (\<lambda>p. prv_key p \<notin> K) (privileges c)\<rparr>"

lemma sp_revoke_loop:
  "body_spec (privileges_revoked K c) (cfold (\<lambda>k. adding (delete_privilege X k)) ks n)
     (\<lambda>_. privileges_revoked (set ks \<union> K) c)"
proof (induction ks arbitrary: K n)
  case (Cons k ks)
  have "body_spec (privileges_revoked K c) (adding (delete_privilege X k) n) (\<lambda>_. privileges_revoked (insert k K) c)"
    unfolding delete_privilege_def
    by (rule sp_adding, rule body_post, rule sp)
      (auto simp: privileges_revoked_def intro!: arg_cong [where f = "\<lambda>x. c\<lparr>privileges := x\<rparr>"] filter_cong)
  moreover have "body_spec (privileges_revoked (insert k K) c) (cfold (\<lambda>k. adding (delete_privilege X k)) ks m)
      (\<lambda>_. privileges_revoked (set (k # ks) \<union> K) c)" for m
    by (rule body_post [OF Cons.IH]) simp
  ultimately show ?case by (auto intro: body_bind)
qed (simp add: body_return)

definition roles_granted :: "(int \<times> int) set \<Rightarrow> catalog \<Rightarrow> catalog \<Rightarrow> bool" where
  "roles_granted K c d \<longleftrightarrow> (\<exists>urs. d = c\<lparr>user_roles := urs\<rparr> \<and> wf_catalog d
     \<and> (\<lambda>r. (ur_user r, ur_role r)) ` set urs = (\<lambda>r. (ur_user r, ur_role r)) ` set (user_roles c) \<union> K
     \<and> set (user_roles c) \<subseteq> set urs)"

lemma roles_granted_absorb:
  assumes "roles_granted K c d" "x \<in> set (user_roles d)"
  shows "roles_granted (insert (ur_user x, ur_role x) K) c d"
proof -
  have "insert (ur_user x, ur_role x) ((\<lambda>r. (ur_user r, ur_role r)) ` set (user_roles d))
      = (\<lambda>r. (ur_user r, ur_role r)) ` set (user_roles d)"
    by (rule insert_absorb) (use assms(2) in blast)
  with assms(1) show ?thesis by (fastforce simp: roles_granted_def)
qed

lemma sp_upsert_user_role:
  assumes "u \<in> usr_id ` set (users c)" "r \<in> rol_id ` set (roles c)"
  shows "body_spec (roles_granted K c) (upsert_user_role X u r g) (\<lambda>_. roles_granted (insert (u, r) K) c)"
proof -
  have new: "roles_granted (insert (u, r) K) c (d\<lparr>user_roles := rows\<rparr>)"
    if "roles_granted K c d" "insert_user_role \<lparr>ur_user = u, ur_role = r, ur_granted_by = g\<rparr> (user_roles d) = Some rows"
    for d rows
  proof -
    note granted = that(1)
    have "wf_catalog (d\<lparr>user_roles := rows\<rparr>)"
      using that assms by (intro wf_add_user_role [where r = "\<lparr>ur_user = u, ur_role = r, ur_granted_by = g\<rparr>"])
        (auto simp: roles_granted_def)
    moreover obtain urs where "d = c\<lparr>user_roles := urs\<rparr>" "set (user_roles c) \<subseteq> set urs"
      "(\<lambda>r. (ur_user r, ur_role r)) ` set urs = (\<lambda>r. (ur_user r, ur_role r)) ` set (user_roles c) \<union> K"
      using granted by (auto simp: roles_granted_def)
    ultimately show ?thesis
      unfolding roles_granted_def using user_role_keys.ins_appends [OF that(2)]
      by (intro exI [of _ rows]) auto
  qed
  show ?thesis
    unfolding upsert_user_role_def
    by (rule body_bind [OF sp_query], intro body_if body_return body_bind [OF sp_exec])
      (auto simp: filter_empty_conv intro: roles_granted_absorb new)
qed

lemma sp_grant_role_loop:
  assumes "\<And>u r. (u, r) \<in> set ks \<Longrightarrow> u \<in> usr_id ` set (users c) \<and> r \<in> rol_id ` set (roles c)"
  shows "body_spec (roles_granted K c) (cfold (\<lambda>(u, r). adding (upsert_user_role X u r g)) ks n)
     (\<lambda>_. roles_granted (set ks \<union> K) c)"
  using assms
proof (induction ks arbitrary: K n)
  case (Cons k ks)
  obtain u r where k: "k = (u, r)" by (cases k)
  have "body_spec (roles_granted K c) (adding (upsert_user_role X u r g) n) (\<lambda>_. roles_granted (insert k K) c)"
    unfolding k by (rule sp_adding, rule sp_upsert_user_role) (use Cons.prems k in auto)
  moreover have "body_spec (roles_granted (insert k K) c) (cfold (\<lambda>(u, r). adding (upsert_user_role X u r g)) ks m)
      (\<lambda>_. roles_granted (set (k # ks) \<union> K) c)" for m
    by (rule body_post [OF Cons.IH]) (rule Cons.prems, simp_all)
  ultimately show ?case by (auto intro: body_bind simp: k)
qed (simp add: body_return)

definition roles_revoked :: "(int \<times> int) set \<Rightarrow> catalog \<Rightarrow> catalog \<Rightarrow> bool" where
  "roles_revoked K c d \<longleftrightarrow> d = c\<lparr>user_roles := filter (\<lambda>r. (ur_user r, ur_role r) \<notin> K) (user_roles c)\<rparr>"

lemma sp_revoke_role_loop:
  "body_spec (roles_revoked K c) (cfold (\<lambda>(u, r). adding (delete_user_role X u r)) ks n)
     (\<lambda>_. roles_revoked (set ks \<union> K) c)"
proof (induction ks arbitrary: K n)
  case (Cons k ks)
  obtain u r where k: "k = (u, r)" by (cases k)
  have "body_spec (roles_revoked K c) (adding (delete_user_role X u r) n) (\<lambda>_. roles_revoked (insert k K) c)"
    unfolding delete_user_role_def
    by (rule sp_adding, rule body_post, rule sp)
      (auto simp: roles_revoked_def k intro!: arg_cong [where f = "\<lambda>x. c\<lparr>user_roles := x\<rparr>"] filter_cong)
  moreover have "body_spec (roles_revoked (insert k K) c) (cfold (\<lambda>(u, r). adding (delete_user_role X u r)) ks m)
      (\<lambda>_. roles_revoked (set (k # ks) \<union> K) c)" for m
    by (rule body_post [OF Cons.IH]) simp
  ultimately show ?case by (auto intro: body_bind simp: k)
qed (simp add: body_return)

lemma revoked_nothing: "privileges_revoked {} c c" "roles_revoked {} c c"
  by (simp_all add: privileges_revoked_def roles_revoked_def)

section \<open>What the names stand for\<close>

definition role_named :: "(string \<Rightarrow> string) \<Rightarrow> catalog \<Rightarrow> string \<Rightarrow> err + int" where
  "role_named low c name = ok_or (role_id_in low c name) (EMut (RoleMissing name))"

definition user_named :: "(string \<Rightarrow> string) \<Rightarrow> catalog \<Rightarrow> string \<Rightarrow> err + int" where
  "user_named low c name = ok_or (user_id_in low c name) (EMut (UserMissing name))"

definition principal_named :: "(string \<Rightarrow> string) \<Rightarrow> catalog \<Rightarrow> grantee \<Rightarrow> err + string \<times> int" where
  "principal_named low c g = rbind (grantee_text g) (\<lambda>name. case grantee_type g of
       GTRole \<Rightarrow> rbind (role_named low c name) (\<lambda>i. Inr (''role'', i))
     | GTOther t \<Rightarrow> Inl (EMut (GranteeTypeUnsupported t))
     | _ \<Rightarrow> rbind (user_named low c name) (\<lambda>i. Inr (''user'', i)))"

definition relation_named :: "(string \<Rightarrow> string) \<Rightarrow> catalog \<Rightarrow> object_name \<Rightarrow> err + string \<times> int" where
  "relation_named low c name = rbind (relation_name name) (\<lambda>(schema, relation).
     rbind (reject_reserved_schema schema) (\<lambda>_.
     rbind (ok_or (active_relation low c schema relation) (EAuth (RelationMissing schema relation))) (\<lambda>r.
     Inr (''relation'', rel_oid r))))"

definition schema_named :: "(string \<Rightarrow> string) \<Rightarrow> catalog \<Rightarrow> object_name \<Rightarrow> err + string \<times> int" where
  "schema_named low c name = rbind (single_name_part name) (\<lambda>schema.
     rbind (reject_reserved_schema schema) (\<lambda>_.
     rbind (ok_or (first_of (schema_rows low c schema)) (EAuth (NamespaceMissing schema))) (\<lambda>n.
     Inr (''schema'', sch_oid n))))"

definition targets_named :: "(string \<Rightarrow> string) \<Rightarrow> catalog \<Rightarrow> grant_objects option \<Rightarrow> err + (string \<times> int) list" where
  "targets_named low c objects = (case objects of
     None \<Rightarrow> Inr [(''system'', 0)]
   | Some (GTables names) \<Rightarrow> rcollect (relation_named low c) names
   | Some (GViews names) \<Rightarrow> rcollect (relation_named low c) names
   | Some (GSchemas names) \<Rightarrow> rcollect (schema_named low c) names
   | Some (GDatabases _) \<Rightarrow> Inr [(''system'', 0)]
   | Some (GOther _) \<Rightarrow> Inl (EGrant GrantTargetUnsupported))"

definition role_item :: "(string \<Rightarrow> string) \<Rightarrow> catalog \<Rightarrow> action \<Rightarrow> int list \<Rightarrow> err + int list" where
  "role_item low c action ids = (case action of
     ARole role \<Rightarrow> rbind (single_name_part role) (\<lambda>n. rbind (role_named low c n) (\<lambda>i. Inr (push_new i ids)))
   | _ \<Rightarrow> Inl (EMut RoleMixed))"

definition grantee_item :: "(string \<Rightarrow> string) \<Rightarrow> catalog \<Rightarrow> grantee \<Rightarrow> int list \<Rightarrow> err + int list" where
  "grantee_item low c g ids =
     (if grantee_type g = GTRole then Inl (EMut RoleInheritance)
      else rbind (grantee_text g) (\<lambda>n. rbind (user_named low c n) (\<lambda>i. Inr (push_new i ids))))"

lemma sp_mapM_pure:
  assumes "\<And>x A. body_spec A (f x) (\<lambda>v d. A d \<and> g d x = Inr v)"
  shows "body_spec A (cmapM f xs) (\<lambda>vs d. A d \<and> rcollect (g d) xs = Inr vs)"
proof (induction xs arbitrary: A)
  case (Cons x xs)
  show ?case
    by (simp, rule body_bind [OF assms], rule body_bind [OF Cons.IH], rule body_return) simp
qed (auto intro: body_return)

lemma sp_fold_pure:
  assumes "\<And>x a A. body_spec A (f x a) (\<lambda>v d. A d \<and> g d x a = Inr v)"
  shows "body_spec A (cfold f xs a) (\<lambda>v d. A d \<and> rfold (g d) xs a = Inr v)"
proof (induction xs arbitrary: A a)
  case (Cons x xs)
  show ?case
    by (simp, rule body_bind [OF assms], rule body_post [OF Cons.IH]) simp
qed (auto intro: body_return)

lemma sp_granted_role:
  "body_spec A (granted_role X x ids) (\<lambda>v d. A d \<and> role_item (x_lower X) d x ids = Inr v)"
proof (cases x)
  case (ARole role)
  show ?thesis
    unfolding granted_role_def ARole action.case
    by (rule body_post, (rule sp)+) (auto simp: role_item_def role_named_def)
qed (simp_all add: granted_role_def body_throw)

lemma sp_role_grantee:
  "body_spec A (role_grantee X x ids) (\<lambda>v d. A d \<and> grantee_item (x_lower X) d x ids = Inr v)"
  unfolding role_grantee_def
  by (rule body_post, (rule sp)+) (auto simp: grantee_item_def user_named_def split: if_splits)

lemma sp_grant_principal:
  "body_spec A (grant_principal X g) (\<lambda>v d. A d \<and> principal_named (x_lower X) d g = Inr v)"
  unfolding grant_principal_def
proof (rule body_bind [OF sp_lift])
  fix name
  show "body_spec (\<lambda>d. A d \<and> grantee_text g = Inr name) (case grantee_type g of
       GTRole \<Rightarrow> cbind (role_id_by_name X name) (\<lambda>i. creturn (''role'', i))
     | GTOther t \<Rightarrow> cthrow (EMut (GranteeTypeUnsupported t))
     | _ \<Rightarrow> cbind (user_id_by_name X name) (\<lambda>i. creturn (''user'', i)))
     (\<lambda>v d. A d \<and> principal_named (x_lower X) d g = Inr v)"
    by (cases "grantee_type g"; simp)
      (rule body_post, (rule sp)+, auto simp: principal_named_def user_named_def role_named_def)+
qed

lemma sp_grant_relation_target:
  "body_spec A (grant_relation_target X n) (\<lambda>v d. A d \<and> relation_named (x_lower X) d n = Inr v)"
  unfolding grant_relation_target_def
  by (rule body_post, (rule sp)+) (auto simp: relation_named_def)

lemma sp_grant_schema_target:
  "body_spec A (grant_schema_target X n) (\<lambda>v d. A d \<and> schema_named (x_lower X) d n = Inr v)"
  unfolding grant_schema_target_def
  by (rule body_post, (rule sp)+) (auto simp: schema_named_def)

lemma sp_grant_targets:
  "body_spec A (grant_targets X objects) (\<lambda>v d. A d \<and> targets_named (x_lower X) d objects = Inr v)"
proof (cases objects)
  case (Some os)
  show ?thesis
    unfolding grant_targets_def targets_named_def Some
    by (cases os) (simp_all add: body_return body_throw sp_mapM_pure sp_grant_relation_target sp_grant_schema_target)
qed (simp add: grant_targets_def targets_named_def body_return)

lemma grant_reads_ro [ro]:
  "read_only (granted_role_ids X ps)" "read_only (role_grantee_user_ids X gs)"
  "read_only (grant_targets X os)" "read_only (grant_principals X gs)"
proof -
  have 1: "read_only (granted_role X a ids)" for a ids
    unfolding granted_role_def by (cases a) (auto intro!: ro)
  then show "read_only (granted_role_ids X ps)"
    unfolding granted_role_ids_def by (cases ps) (auto intro!: ro 1)
  have 2: "read_only (role_grantee X g ids)" for g ids
    unfolding role_grantee_def by (intro ro)
  then show "read_only (role_grantee_user_ids X gs)" unfolding role_grantee_user_ids_def by (intro ro 2)
  have 3: "read_only (grant_relation_target X n)" "read_only (grant_schema_target X n)" for n
    unfolding grant_relation_target_def grant_schema_target_def by (intro ro)+
  show "read_only (grant_targets X os)"
    unfolding grant_targets_def
    by (cases os; simp add: ro_return; cases "the os"; simp add: ro_return ro_throw ro_mapM 3)
  have 4: "read_only (grant_principal X g)" for g
    unfolding grant_principal_def by (rule ro_bind, rule ro_lift, cases "grantee_type g") (auto intro!: ro)
  show "read_only (grant_principals X gs)" unfolding grant_principals_def by (intro ro 4)
qed

section \<open>The access matrix\<close>

type_synonym access_key = "string \<times> int \<times> string \<times> int \<times> string"

definition access_matrix :: "catalog \<Rightarrow> access_key set \<times> (int \<times> int) set" where
  "access_matrix c = (prv_key ` set (privileges c), (\<lambda>r. (ur_user r, ur_role r)) ` set (user_roles c))"

text \<open>What a GRANT or REVOKE names, in the catalog it starts from.\<close>

definition named_roles :: "(string \<Rightarrow> string) \<Rightarrow> catalog \<Rightarrow> grant_stmt \<Rightarrow> err + (int \<times> int) list" where
  "named_roles low c g =
     rbind (case g_privileges g of AllPrivileges \<Rightarrow> Inl (EMut RoleActionRequired)
       | Actions as \<Rightarrow> rbind (rfold (role_item low c) as []) (\<lambda>rs. if rs = [] then Inl (EMut RoleListEmpty) else Inr rs)) (\<lambda>rs.
     rbind (if g_grantees g = [] then Inl (EMut RoleGranteesEmpty) else rfold (grantee_item low c) (g_grantees g) []) (\<lambda>us.
     Inr (List.product us rs)))"

definition named_keys :: "(string \<Rightarrow> string) \<Rightarrow> catalog \<Rightarrow> grant_stmt \<Rightarrow> err + access_key list" where
  "named_keys low c g =
     rbind (targets_named low c (g_objects g)) (\<lambda>targets.
     rbind (privilege_actions (g_privileges g) targets) (\<lambda>actions.
     rbind (if g_grantees g = [] then Inl (EMut GranteesEmpty) else rcollect (principal_named low c) (g_grantees g)) (\<lambda>ps.
     Inr (grant_keys ps targets actions))))"

definition named_access :: "(string \<Rightarrow> string) \<Rightarrow> catalog \<Rightarrow> grant_stmt \<Rightarrow> err + access_key set \<times> (int \<times> int) set" where
  "named_access low c g =
     (if g_objects g = None \<and> grant_contains_role_actions (g_privileges g)
      then rbind (named_roles low c g) (\<lambda>rs. Inr ({}, set rs))
      else rbind (named_keys low c g) (\<lambda>ks. Inr (set ks, {})))"

text \<open>The statements with their reads collected.\<close>

definition read_roles :: "'p external \<Rightarrow> grant_stmt \<Rightarrow> ('p, (int \<times> int) list) db" where
  "read_roles X g =
     cbind (granted_role_ids X (g_privileges g)) (\<lambda>role_ids.
     cbind (role_grantee_user_ids X (g_grantees g)) (\<lambda>user_ids.
     creturn (List.product user_ids role_ids)))"

definition read_keys :: "'p external \<Rightarrow> grant_stmt \<Rightarrow> ('p, access_key list) db" where
  "read_keys X g =
     cbind (grant_targets X (g_objects g)) (\<lambda>targets.
     cbind (clift (privilege_actions (g_privileges g) targets)) (\<lambda>actions.
     cbind (grant_principals X (g_grantees g)) (\<lambda>principals.
     creturn (grant_keys principals targets actions))))"

definition journaled_loop :: "'p external \<Rightarrow> string \<Rightarrow> string \<Rightarrow> ('p, nat) db \<Rightarrow> ('p, nat) db" where
  "journaled_loop X m sql loop = run_catalog_tx X (
       cbind (insert_journal X m 0 sql) (\<lambda>journal_id.
       cbind loop (\<lambda>affected.
       cbind (finish_journal X journal_id) (\<lambda>_.
       creturn affected))))"

lemma grant_statement_shape:
  "grant_privileges X g sql grantor =
     (if g_objects g = None \<and> grant_contains_role_actions (g_privileges g)
      then cbind (read_roles X g) (\<lambda>rs. journaled_loop X ''grant_role'' sql
             (cfold (\<lambda>(u, r). adding (upsert_user_role X u r grantor)) rs 0))
      else cbind (read_keys X g) (\<lambda>ks. journaled_loop X ''grant_privilege'' sql
             (cfold (\<lambda>k. adding (upsert_privilege X grantor k)) ks 0)))"
  unfolding grant_privileges_def grant_roles_def read_roles_def read_keys_def journaled_loop_def cbind_assoc
    cbind_return_left nested_role_loop nested_grant_loop [symmetric]
  by simp

lemma revoke_statement_shape:
  "revoke_privileges X g sql =
     (if g_objects g = None \<and> grant_contains_role_actions (g_privileges g)
      then cbind (read_roles X g) (\<lambda>rs. journaled_loop X ''revoke_role'' sql
             (cfold (\<lambda>(u, r). adding (delete_user_role X u r)) rs 0))
      else cbind (read_keys X g) (\<lambda>ks. journaled_loop X ''revoke_privilege'' sql
             (cfold (\<lambda>k. adding (delete_privilege X k)) ks 0)))"
  unfolding revoke_privileges_def revoke_roles_def read_roles_def read_keys_def journaled_loop_def cbind_assoc
    cbind_return_left nested_role_loop nested_grant_loop [symmetric]
  by simp

lemma read_names_ro [ro]: "read_only (read_roles X g)" "read_only (read_keys X g)"
  unfolding read_roles_def read_keys_def by (intro ro)+

lemma sp_read_roles:
  "body_spec A (read_roles X g) (\<lambda>rs d. A d \<and> named_roles (x_lower X) d g = Inr rs)"
proof -
  have 1: "body_spec B (granted_role_ids X ps) (\<lambda>rs d. B d \<and> (case ps of AllPrivileges \<Rightarrow> Inl (EMut RoleActionRequired)
       | Actions as \<Rightarrow> rbind (rfold (role_item (x_lower X) d) as []) (\<lambda>rs. if rs = [] then Inl (EMut RoleListEmpty) else Inr rs))
       = Inr rs)" for B ps
  proof (cases ps)
    case (Actions as)
    show ?thesis
      unfolding granted_role_ids_def Actions privileges.case
      by (rule body_bind [OF sp_fold_pure [OF sp_granted_role]]) (auto intro!: body_return body_throw split: if_splits)
  qed (simp add: granted_role_ids_def body_throw)
  have 2: "body_spec B (role_grantee_user_ids X gs) (\<lambda>us d. B d \<and> (if gs = [] then Inl (EMut RoleGranteesEmpty)
       else rfold (grantee_item (x_lower X) d) gs []) = Inr us)" for B gs
    unfolding role_grantee_user_ids_def
    by (auto intro!: body_throw sp_fold_pure sp_role_grantee)
  show ?thesis
    unfolding read_roles_def
    by (rule body_bind [OF 1], rule body_bind [OF 2], rule body_return) (simp add: named_roles_def)
qed

lemma sp_read_keys:
  "body_spec A (read_keys X g) (\<lambda>ks d. A d \<and> named_keys (x_lower X) d g = Inr ks)"
proof -
  have 1: "body_spec B (grant_principals X gs) (\<lambda>us d. B d \<and> (if gs = [] then Inl (EMut GranteesEmpty)
       else rcollect (principal_named (x_lower X) d) gs) = Inr us)" for B gs
    unfolding grant_principals_def
    by (auto intro!: body_throw sp_mapM_pure sp_grant_principal)
  show ?thesis
    unfolding read_keys_def
    by (rule body_bind [OF sp_grant_targets], rule body_bind [OF sp_lift], rule body_bind [OF 1], rule body_return)
      (simp add: named_keys_def)
qed

section \<open>The contract and the refinement\<close>

lemma rfold_keeps:
  assumes "rfold f xs a = Inr b" "P a" "\<And>x a b. f x a = Inr b \<Longrightarrow> P a \<Longrightarrow> P b"
  shows "P b"
  using assms(1,2) by (induction xs arbitrary: a) (auto simp: result_simps intro: assms(3))

lemma named_roles_exist:
  assumes "named_roles low c g = Inr ks" "(u, r) \<in> set ks"
  shows "u \<in> usr_id ` set (users c) \<and> r \<in> rol_id ` set (roles c)"
proof -
  obtain us rs as where ks: "ks = List.product us rs"
    and us: "rfold (grantee_item low c) (g_grantees g) [] = Inr us" and rs: "rfold (role_item low c) as [] = Inr rs"
    using assms(1) by (auto simp: named_roles_def result_simps split: privileges.splits if_splits)
  have "set us \<subseteq> usr_id ` set (users c)"
    by (rule rfold_keeps [OF us]) (auto simp: grantee_item_def user_named_def push_new_def result_simps
        dest: user_id_in_SomeD split: if_splits)
  moreover have "set rs \<subseteq> rol_id ` set (roles c)"
    by (rule rfold_keeps [OF rs]) (auto simp: role_item_def role_named_def push_new_def result_simps
        dest: role_id_in_SomeD split: if_splits action.splits)
  ultimately show ?thesis using assms(2) ks by auto
qed

lemma rcollect_all: "rcollect f xs = Inr ys \<Longrightarrow> (\<And>x y. f x = Inr y \<Longrightarrow> P y) \<Longrightarrow> \<forall>y\<in>set ys. P y"
  by (induction xs arbitrary: ys) (auto simp: result_simps)

lemma principal_named_exists: "principal_named low c x = Inr y \<Longrightarrow> principal_exists c (fst y) (snd y)"
  by (cases "grantee_type x") (auto simp: principal_named_def principal_exists_def user_named_def role_named_def
        result_simps dest: user_id_in_SomeD role_id_in_SomeD)

lemma named_keys_exist:
  assumes "named_keys low c g = Inr ks" "k \<in> set ks"
  shows "principal_exists c (fst k) (fst (snd k))"
proof -
  obtain ps ts as where ks: "ks = grant_keys ps ts as" and ps: "rcollect (principal_named low c) (g_grantees g) = Inr ps"
    using assms(1) by (auto simp: named_keys_def result_simps split: if_splits)
  have "\<forall>p\<in>set ps. principal_exists c (fst p) (snd p)"
    by (rule rcollect_all [OF ps]) (rule principal_named_exists)
  then show ?thesis using assms(2) by (auto simp: ks set_grant_keys)
qed

lemma sp_journaled_loop:
  assumes "body_spec (\<lambda>d. d = open_journal m 0 sql c) loop (\<lambda>_. R)"
  shows "body_spec (\<lambda>d. d = c) (cbind (insert_journal X m 0 sql) (\<lambda>j. cbind loop (\<lambda>n. cbind (finish_journal X j) (\<lambda>_. creturn n))))
     (\<lambda>_ d. \<exists>e j. R e \<and> d = close_journal (x_fmt X) j e)"
  by (rule body_bind [OF sp_insert_journal], rule body_bind, rule body_conseq [OF assms], blast, assumption,
      rule body_bind [OF sp_finish_journal], rule body_return) blast

locale resolved_statement =
  fixes X :: "'p external" and reads :: "('p, 'k list) db" and resolved :: "catalog \<Rightarrow> err + 'k list"
    and mutation sql :: string and loop :: "'k list \<Rightarrow> ('p, nat) db" and R :: "'k list \<Rightarrow> catalog \<Rightarrow> catalog \<Rightarrow> bool"
  assumes reads_only: "read_only reads"
    and reads_resolve: "body_spec A reads (\<lambda>ks d. A d \<and> resolved d = Inr ks)"
    and loop_does: "resolved c = Inr ks \<Longrightarrow> wf_catalog c \<Longrightarrow> version_row c \<noteq> None \<Longrightarrow>
      body_spec (\<lambda>d. d = open_journal mutation 0 sql c) (loop ks) (\<lambda>_. R ks (open_journal mutation 0 sql c))"
    and keeps_wf: "R ks c d \<Longrightarrow> wf_catalog c \<Longrightarrow> wf_catalog d"
begin

lemma body_does:
  assumes "resolved c = Inr ks" "good (x_fmt X) c"
  shows "body_spec (\<lambda>d. d = c) (cbind (insert_journal X mutation 0 sql) (\<lambda>j. cbind (loop ks) (\<lambda>n.
      cbind (finish_journal X j) (\<lambda>_. creturn n))))
      (\<lambda>_ d. \<exists>e j. R ks (open_journal mutation 0 sql c) e \<and> d = close_journal (x_fmt X) j e)"
  by (rule sp_journaled_loop, rule loop_does) (use assms in \<open>auto simp: good_def wf_catalog_def\<close>)

lemma is_atomic: "atomic X (cbind reads (\<lambda>ks. journaled_loop X mutation sql (loop ks)))"
proof (rule atomic_when_True, rule atomic_when_read_bind [OF reads_only reads_resolve])
  fix ks
  have one: "body_spec (\<lambda>d. d = c) (cbind (insert_journal X mutation 0 sql) (\<lambda>j. cbind (loop ks) (\<lambda>n.
      cbind (finish_journal X j) (\<lambda>_. creturn n)))) (\<lambda>_. good (x_fmt X))"
    if "good (x_fmt X) c" "resolved c = Inr ks" for c
  proof (rule body_post [OF body_does [OF that(2,1)]], elim exE conjE)
    fix d e j assume e: "R ks (open_journal mutation 0 sql c) e" and d: "d = close_journal (x_fmt X) j e"
    show "good (x_fmt X) d" unfolding d by (rule good_close, rule keeps_wf [OF e]) (use that(1) in \<open>simp add: good_def\<close>)
  qed
  have "body_spec (\<lambda>c. good (x_fmt X) c \<and> resolved c = Inr ks)
      (cbind (insert_journal X mutation 0 sql) (\<lambda>j. cbind (loop ks) (\<lambda>n.
      cbind (finish_journal X j) (\<lambda>_. creturn n)))) (\<lambda>_. good (x_fmt X))"
    by (rule body_assume, rule one) (simp_all)
  then have "atomic_when (\<lambda>c. resolved c = Inr ks) X (journaled_loop X mutation sql (loop ks))"
    unfolding journaled_loop_def by (rule atomic_when_tx)
  then show "atomic_when (\<lambda>d. True \<and> resolved d = Inr ks) X (journaled_loop X mutation sql (loop ks))" by simp
qed

lemma result:
  assumes run: "cbind reads (\<lambda>ks. journaled_loop X mutation sql (loop ks)) s = (Inr n, s')"
    and closed: "saved s = None" and good: "good (x_fmt X) (cat s)"
  shows "\<exists>ks e j. resolved (cat s) = Inr ks \<and> R ks (open_journal mutation 0 sql (cat s)) e
     \<and> catalog_of s' = close_journal (x_fmt X) j e"
proof -
  obtain rm s1 where m: "reads s = (rm, s1)" by (cases "reads s")
  with run obtain ks where ks: "rm = Inr ks" "journaled_loop X mutation sql (loop ks) s1 = (Inr n, s')"
    by (cases rm) (auto simp: cbind_def)
  have s1: "cat s1 = cat s" "saved s1 = None" using read_onlyD [OF reads_only m] closed by simp_all
  have r: "resolved (cat s) = Inr ks"
    using body_specD [OF reads_resolve [of "\<lambda>_. True"] TrueI m] ks(1) s1(1) by simp
  from tx_result [OF body_does [OF r good] s1(1) ks(2) [unfolded journaled_loop_def]] r show ?thesis
    by (auto simp: catalog_of_def committed_def)
qed

end

interpretation grant_keys_op: resolved_statement X "read_keys X g" "\<lambda>c. named_keys (x_lower X) c g"
    "''grant_privilege''" sql "\<lambda>ks. cfold (\<lambda>k. adding (upsert_privilege X grantor k)) ks 0"
    "\<lambda>ks. privileges_granted (set ks)" for X g sql grantor
proof (unfold_locales, rule read_names_ro, rule sp_read_keys)
  fix c ks assume r: "named_keys (x_lower X) c g = Inr ks" and w: "wf_catalog c"
  let ?c = "open_journal ''grant_privilege'' 0 sql c"
  have "principal_exists ?c (fst k) (fst (snd k))" if "k \<in> set ks" for k
    using named_keys_exist [OF r that] by (simp add: principal_exists_def)
  from sp_grant_loop [OF this, of ks "{}"]
  show "body_spec (\<lambda>d. d = ?c) (cfold (\<lambda>k. adding (upsert_privilege X grantor k)) ks 0)
      (\<lambda>_. privileges_granted (set ks) ?c)"
    by (rule body_conseq) (use w in \<open>simp_all add: privileges_granted_def only_privileges_refl\<close>)
qed (simp add: privileges_granted_def)

interpretation revoke_keys_op: resolved_statement X "read_keys X g" "\<lambda>c. named_keys (x_lower X) c g"
    "''revoke_privilege''" sql "\<lambda>ks. cfold (\<lambda>k. adding (delete_privilege X k)) ks 0"
    "\<lambda>ks. privileges_revoked (set ks)" for X g sql
proof (unfold_locales, rule read_names_ro, rule sp_read_keys)
  fix c ks
  show "body_spec (\<lambda>d. d = open_journal ''revoke_privilege'' 0 sql c) (cfold (\<lambda>k. adding (delete_privilege X k)) ks 0)
      (\<lambda>_. privileges_revoked (set ks) (open_journal ''revoke_privilege'' 0 sql c))"
    by (rule body_conseq [OF sp_revoke_loop [of "{}" "open_journal ''revoke_privilege'' 0 sql c"]]) (simp_all only: revoked_nothing Un_empty_right)
qed (simp add: privileges_revoked_def wf_del_privileges)

interpretation grant_roles_op: resolved_statement X "read_roles X g" "\<lambda>c. named_roles (x_lower X) c g"
    "''grant_role''" sql "\<lambda>ks. cfold (\<lambda>(u, r). adding (upsert_user_role X u r grantor)) ks 0"
    "\<lambda>ks. roles_granted (set ks)" for X g sql grantor
proof (unfold_locales, rule read_names_ro, rule sp_read_roles)
  fix c ks assume r: "named_roles (x_lower X) c g = Inr ks" and w: "wf_catalog c"
  let ?c = "open_journal ''grant_role'' 0 sql c"
  have "u \<in> usr_id ` set (users ?c) \<and> r \<in> rol_id ` set (roles ?c)" if "(u, r) \<in> set ks" for u r
    using named_roles_exist [OF r that] by simp
  from sp_grant_role_loop [OF this, of ks "{}"]
  show "body_spec (\<lambda>d. d = ?c) (cfold (\<lambda>(u, r). adding (upsert_user_role X u r grantor)) ks 0)
      (\<lambda>_. roles_granted (set ks) ?c)"
    by (rule body_conseq) (use w in \<open>auto simp: roles_granted_def intro!: exI [of _ "user_roles ?c"]\<close>)
qed (auto simp: roles_granted_def)

interpretation revoke_roles_op: resolved_statement X "read_roles X g" "\<lambda>c. named_roles (x_lower X) c g"
    "''revoke_role''" sql "\<lambda>ks. cfold (\<lambda>(u, r). adding (delete_user_role X u r)) ks 0"
    "\<lambda>ks. roles_revoked (set ks)" for X g sql
proof (unfold_locales, rule read_names_ro, rule sp_read_roles)
  fix c ks
  show "body_spec (\<lambda>d. d = open_journal ''revoke_role'' 0 sql c) (cfold (\<lambda>(u, r). adding (delete_user_role X u r)) ks 0)
      (\<lambda>_. roles_revoked (set ks) (open_journal ''revoke_role'' 0 sql c))"
    by (rule body_conseq [OF sp_revoke_role_loop [of "{}" "open_journal ''revoke_role'' 0 sql c"]]) (simp_all only: revoked_nothing Un_empty_right)
qed (simp add: roles_revoked_def wf_del_user_roles)

lemma grant_atomic: "atomic X (grant_privileges X g sql grantor)"
  unfolding grant_statement_shape by (intro atomic_if grant_roles_op.is_atomic grant_keys_op.is_atomic)

lemma revoke_atomic: "atomic X (revoke_privileges X g sql)"
  unfolding revoke_statement_shape by (intro atomic_if revoke_roles_op.is_atomic revoke_keys_op.is_atomic)

interpretation grant_op: catalog_operation X "grant_privileges X g sql grantor" for X g sql grantor
  by (rule atomic_operation, rule grant_atomic)

interpretation revoke_op: catalog_operation X "revoke_privileges X g sql" for X g sql
  by (rule atomic_operation, rule revoke_atomic)

lemma access_matrix_journal [simp]:
  "access_matrix (open_journal m t r c) = access_matrix c" "access_matrix (close_journal F j c) = access_matrix c"
  by (simp_all add: access_matrix_def)

lemma matrix_of_changes:
  "privileges_granted K c d \<Longrightarrow> access_matrix d = (fst (access_matrix c) \<union> K, snd (access_matrix c))"
  "privileges_revoked K c d \<Longrightarrow> access_matrix d = (fst (access_matrix c) - K, snd (access_matrix c))"
  "roles_revoked M c d \<Longrightarrow> access_matrix d = (fst (access_matrix c), snd (access_matrix c) - M)"
  by (auto simp: access_matrix_def privileges_granted_def privileges_revoked_def roles_revoked_def only_privilegesD)

lemma matrix_of_roles_granted:
  "roles_granted M c d \<Longrightarrow> access_matrix d = (fst (access_matrix c), snd (access_matrix c) \<union> M)"
  unfolding roles_granted_def by (elim exE conjE) (simp add: access_matrix_def)

lemma same_accounts:
  "privileges_granted K c d \<Longrightarrow> users d = users c \<and> roles d = roles c"
  "privileges_revoked K c d \<Longrightarrow> users d = users c \<and> roles d = roles c"
  "roles_granted M c d \<Longrightarrow> users d = users c \<and> roles d = roles c"
  "roles_revoked M c d \<Longrightarrow> users d = users c \<and> roles d = roles c"
  by (auto simp: privileges_granted_def privileges_revoked_def roles_granted_def roles_revoked_def only_privilegesD)

text \<open>C25: GRANT refines the union with the access matrix: a GRANT that succeeds adds exactly the accesses
  its names stand for in the catalog it starts from, removes none, and leaves users, roles and
  everything else but the journal as they were.\<close>

theorem grant_refines_union:
  assumes "grant_privileges X g sql grantor s = (Inr n, s')" and "saved s = None" and "good (x_fmt X) (cat s)"
  shows "\<exists>K M. named_access (x_lower X) (cat s) g = Inr (K, M)
    \<and> access_matrix (catalog_of s') = (fst (access_matrix (cat s)) \<union> K, snd (access_matrix (cat s)) \<union> M)
    \<and> users (catalog_of s') = users (cat s) \<and> roles (catalog_of s') = roles (cat s)"
proof (cases "g_objects g = None \<and> grant_contains_role_actions (g_privileges g)")
  case True
  note run = assms(1) [unfolded grant_statement_shape if_P [OF True]]
  from grant_roles_op.result [OF run assms(2,3)] obtain ks e j where
    e: "named_roles (x_lower X) (cat s) g = Inr ks" "roles_granted (set ks) (open_journal ''grant_role'' 0 sql (cat s)) e"
    "catalog_of s' = close_journal (x_fmt X) j e" by blast
  with True show ?thesis
    using matrix_of_roles_granted [OF e(2)] same_accounts(3) [OF e(2)] by (simp add: named_access_def)
next
  case False
  note run = assms(1) [unfolded grant_statement_shape if_not_P [OF False]]
  from grant_keys_op.result [OF run assms(2,3)] obtain ks e j where
    e: "named_keys (x_lower X) (cat s) g = Inr ks" "privileges_granted (set ks) (open_journal ''grant_privilege'' 0 sql (cat s)) e"
    "catalog_of s' = close_journal (x_fmt X) j e" by blast
  with False show ?thesis
    using matrix_of_changes(1) [OF e(2)] same_accounts(1) [OF e(2)] by (auto simp: named_access_def)
qed

text \<open>C26: REVOKE refines the difference: a REVOKE that succeeds removes exactly the accesses it names,
  so that nobody keeps one of them directly, and adds none.\<close>

theorem revoke_refines_difference:
  assumes "revoke_privileges X g sql s = (Inr n, s')" and "saved s = None" and "good (x_fmt X) (cat s)"
  shows "\<exists>K M. named_access (x_lower X) (cat s) g = Inr (K, M)
    \<and> access_matrix (catalog_of s') = (fst (access_matrix (cat s)) - K, snd (access_matrix (cat s)) - M)
    \<and> users (catalog_of s') = users (cat s) \<and> roles (catalog_of s') = roles (cat s)"
proof (cases "g_objects g = None \<and> grant_contains_role_actions (g_privileges g)")
  case True
  note run = assms(1) [unfolded revoke_statement_shape if_P [OF True]]
  from revoke_roles_op.result [OF run assms(2,3)] obtain ks e j where
    e: "named_roles (x_lower X) (cat s) g = Inr ks" "roles_revoked (set ks) (open_journal ''revoke_role'' 0 sql (cat s)) e"
    "catalog_of s' = close_journal (x_fmt X) j e" by blast
  with True show ?thesis
    using matrix_of_changes(3) [OF e(2)] same_accounts(4) [OF e(2)] by (simp add: named_access_def)
next
  case False
  note run = assms(1) [unfolded revoke_statement_shape if_not_P [OF False]]
  from revoke_keys_op.result [OF run assms(2,3)] obtain ks e j where
    e: "named_keys (x_lower X) (cat s) g = Inr ks" "privileges_revoked (set ks) (open_journal ''revoke_privilege'' 0 sql (cat s)) e"
    "catalog_of s' = close_journal (x_fmt X) j e" by blast
  with False show ?thesis
    using matrix_of_changes(2) [OF e(2)] same_accounts(2) [OF e(2)] by (auto simp: named_access_def)
qed

section \<open>A statement whose names resolve succeeds\<close>

lemma runs_body: "runs m c v d \<Longrightarrow> body_spec A m Q \<Longrightarrow> A c \<Longrightarrow> Q v d"
proof -
  assume r: "runs m c v d" and b: "body_spec A m Q" and a: "A c"
  let ?s = "\<lparr>cat = c, phys = undefined, saved = None, ops = 0\<rparr>"
  obtain s' where "m ?s = (Inr v, s')" "cat s' = d" using r unfolding runs_def by force
  with body_specD [OF b _ this(1)] a show "Q v d" by simp
qed

lemma runs_mapM:
  assumes "\<And>x y. g x = Inr y \<Longrightarrow> runs (f x) c y c"
  shows "rcollect g xs = Inr ys \<Longrightarrow> runs (cmapM f xs) c ys c"
proof (induction xs arbitrary: ys)
  case (Cons x xs)
  then obtain y zs where "g x = Inr y" "rcollect g xs = Inr zs" "ys = y # zs" by (auto simp: result_simps)
  then show ?case by (auto intro!: runs_bind assms Cons.IH runs_return)
qed (simp add: runs_return)

lemma runs_fold_pure:
  assumes "\<And>x a b. g x a = Inr b \<Longrightarrow> runs (f x a) c b c"
  shows "rfold g xs a = Inr b \<Longrightarrow> runs (cfold f xs a) c b c"
proof (induction xs arbitrary: a)
  case (Cons x xs)
  then obtain y where "g x a = Inr y" "rfold g xs y = Inr b" by (auto simp: result_simps)
  then show ?case by (auto intro!: runs_bind assms Cons.IH)
qed (simp add: runs_return)

lemma runs_lookup:
  assumes "reliable X"
  shows "role_named (x_lower X) c n = Inr i \<Longrightarrow> runs (role_id_by_name X n) c i c"
    and "user_named (x_lower X) c n = Inr i \<Longrightarrow> runs (user_id_by_name X n) c i c"
    and "active_relation (x_lower X) c s n = Some r \<Longrightarrow> runs (relation_oid X s n) c (rel_oid r) c"
    and "first_of (schema_rows (x_lower X) c n) = Some ns \<Longrightarrow> runs (namespace_oid X n) c (sch_oid ns) c"
  unfolding role_id_by_name_def role_id_by_name_opt_def user_id_by_name_def user_id_by_name_opt_def
    relation_oid_def namespace_oid_def
  by (auto intro!: runs_rules runs_bind [OF runs_query] assms simp: role_named_def user_named_def)

lemma runs_read_roles:
  assumes "reliable X" "named_roles (x_lower X) c g = Inr ks"
  shows "runs (read_roles X g) c ks c"
proof -
  obtain us rs as where ks: "ks = List.product us rs" and as: "g_privileges g = Actions as" "rs \<noteq> []" "g_grantees g \<noteq> []"
    and us: "rfold (grantee_item (x_lower X) c) (g_grantees g) [] = Inr us" and rs: "rfold (role_item (x_lower X) c) as [] = Inr rs"
    using assms(2) by (auto simp: named_roles_def result_simps split: privileges.splits if_splits)
  have 1: "runs (granted_role X x a) c b c" if "role_item (x_lower X) c x a = Inr b" for x a b
    using that by (cases x) (auto simp: role_item_def granted_role_def result_simps
        intro!: runs_bind [OF runs_lift] runs_bind [OF runs_lookup(1) [OF assms(1)]] runs_return)
  have 2: "runs (role_grantee X x a) c b c" if "grantee_item (x_lower X) c x a = Inr b" for x a b
    using that by (auto simp: grantee_item_def role_grantee_def result_simps split: if_splits
        intro!: runs_bind [OF runs_lift] runs_bind [OF runs_lookup(2) [OF assms(1)]] runs_return)
  have r: "runs (granted_role_ids X (g_privileges g)) c rs c"
    using as(1,2) unfolding granted_role_ids_def
    by (auto intro!: runs_bind [OF runs_fold_pure [OF 1 rs]] runs_return)
  have u: "runs (role_grantee_user_ids X (g_grantees g)) c us c"
    using as(3) unfolding role_grantee_user_ids_def by (auto intro!: runs_fold_pure [OF 2 us])
  show ?thesis unfolding read_roles_def ks by (rule runs_bind [OF r], rule runs_bind [OF u], rule runs_return)
qed

lemma runs_read_keys:
  assumes "reliable X" "named_keys (x_lower X) c g = Inr ks"
  shows "runs (read_keys X g) c ks c"
proof -
  obtain ps ts as where ks: "ks = grant_keys ps ts as" and ne: "g_grantees g \<noteq> []"
    and ts: "targets_named (x_lower X) c (g_objects g) = Inr ts" and as: "privilege_actions (g_privileges g) ts = Inr as"
    and ps: "rcollect (principal_named (x_lower X) c) (g_grantees g) = Inr ps"
    using assms(2) by (auto simp: named_keys_def result_simps split: if_splits)
  have 1: "runs (grant_principal X x) c y c" if "principal_named (x_lower X) c x = Inr y" for x y
    using that unfolding grant_principal_def principal_named_def
    by (cases "grantee_type x") (auto simp: result_simps
        intro!: runs_bind [OF runs_lift] runs_bind [OF runs_lookup(1) [OF assms(1)]]
          runs_bind [OF runs_lookup(2) [OF assms(1)]] runs_return)
  have 2: "runs (grant_relation_target X x) c y c" if "relation_named (x_lower X) c x = Inr y" for x y
    using that unfolding grant_relation_target_def relation_named_def
    by (auto simp: result_simps intro!: runs_bind [OF runs_lift] runs_bind [OF runs_lookup(3) [OF assms(1)]] runs_return)
  have 3: "runs (grant_schema_target X x) c y c" if "schema_named (x_lower X) c x = Inr y" for x y
    using that unfolding grant_schema_target_def schema_named_def
    by (auto simp: result_simps intro!: runs_bind [OF runs_lift] runs_bind [OF runs_lookup(4) [OF assms(1)]] runs_return)
  have t: "runs (grant_targets X (g_objects g)) c ts c"
    using ts unfolding grant_targets_def targets_named_def
    by (auto split: option.splits grant_objects.splits intro!: runs_return runs_mapM [OF 2] runs_mapM [OF 3])
  have p: "runs (grant_principals X (g_grantees g)) c ps c"
    using ne unfolding grant_principals_def by (auto intro!: runs_mapM [OF 1 ps])
  show ?thesis unfolding read_keys_def ks
    by (rule runs_bind [OF t], rule runs_bind, rule runs_lift [OF as], rule runs_bind [OF p], rule runs_return)
qed

lemma runs_upsert_privilege:
  assumes "reliable X" "wf_catalog c"
  shows "\<exists>n d. runs (upsert_privilege X g k) c n d"
proof (cases "filter (\<lambda>p. prv_key p = k) (privileges c) = []")
  case True
  obtain i where i: "next_oid c = Some i" using assms(2) by (auto simp: wf_catalog_def wf_oids_def split: option.splits)
  obtain pt p ot oi a where k: "k = (pt, p, ot, oi, a)" by (cases k)
  have "i \<notin> prv_id ` set (privileges c)"
    using assms(2) i by (auto simp: wf_catalog_def wf_oids_def all_oids_def)
  then have ins: "insert_privilege \<lparr>prv_id = i, prv_principal_type = pt, prv_principal = p, prv_object_type = ot,
             prv_object = oi, prv_action = a, prv_granted_by = g\<rparr> (privileges c)
       = Some (privileges c @ [\<lparr>prv_id = i, prv_principal_type = pt, prv_principal = p, prv_object_type = ot,
             prv_object = oi, prv_action = a, prv_granted_by = g\<rparr>])"
    using True by (auto simp: insert_privilege_def insert_row_def list_ex_iff filter_empty_conv k prv_key_def)
  show ?thesis
    unfolding upsert_privilege_def
    by (intro exI, rule runs_bind, rule runs_query [OF assms(1)], subst if_not_P, simp add: True,
        rule runs_bind, rule runs_allocate [OF assms(1) i],
        rule runs_bind, rule runs_exec [OF assms(1)], simp add: k ins, rule runs_return)
next
  case False
  then show ?thesis
    unfolding upsert_privilege_def
    by (intro exI, intro runs_bind [OF runs_query [OF assms(1)]], subst if_P) (auto intro: runs_return)
qed

lemma runs_upsert_user_role:
  assumes "reliable X"
  shows "\<exists>n d. runs (upsert_user_role X u r g) c n d"
proof (cases "filter (\<lambda>x. ur_user x = u \<and> ur_role x = r) (user_roles c) = []")
  case True
  then have ins: "insert_user_role \<lparr>ur_user = u, ur_role = r, ur_granted_by = g\<rparr> (user_roles c)
      = Some (user_roles c @ [\<lparr>ur_user = u, ur_role = r, ur_granted_by = g\<rparr>])"
    by (auto simp: insert_user_role_def insert_row_def list_ex_iff filter_empty_conv)
  show ?thesis
    unfolding upsert_user_role_def
    by (intro exI, rule runs_bind, rule runs_query [OF assms(1)], subst if_not_P, simp add: True,
        rule runs_bind, rule runs_exec [OF assms(1)], simp add: ins, rule runs_return)
next
  case False
  then show ?thesis
    unfolding upsert_user_role_def
    by (intro exI, intro runs_bind [OF runs_query [OF assms(1)]], subst if_P) (auto intro: runs_return)
qed

lemma runs_loop:
  assumes "I c" "\<And>x c. x \<in> set xs \<Longrightarrow> I c \<Longrightarrow> \<exists>n d. runs (m x) c n d \<and> I d"
  shows "\<exists>n d. runs (cfold (\<lambda>x. adding (m x)) xs a) c n d \<and> I d"
  using assms
proof (induction xs arbitrary: c a)
  case (Cons x xs)
  obtain n d where 1: "runs (m x) c n d" "I d" using Cons.prems by (meson list.set_intros(1))
  obtain k e where 2: "runs (cfold (\<lambda>x. adding (m x)) xs (a + n)) d k e" "I e"
    using Cons.IH [OF 1(2)] Cons.prems(2) by (meson list.set_intros(2))
  have "runs (adding (m x) a) c (a + n) d" unfolding adding_def by (rule runs_bind [OF 1(1) runs_return])
  with 2 show ?case by (auto intro: runs_bind)
qed (auto intro: runs_return)

locale live_statement = resolved_statement +
  assumes reads_run: "reliable X \<Longrightarrow> resolved c = Inr ks \<Longrightarrow> runs reads c ks c"
    and loop_runs: "reliable X \<Longrightarrow> resolved c = Inr ks \<Longrightarrow> wf_catalog c \<Longrightarrow>
      \<exists>n d. runs (loop ks) (open_journal mutation 0 sql c) n d"
    and loop_keeps_journal: "R ks c d \<Longrightarrow> journal d = journal c"
begin

lemma succeeds:
  assumes X: "reliable X" and r: "resolved (cat s) = Inr ks" and w: "wf_catalog (cat s)" and closed: "saved s = None"
  shows "\<exists>n s'. cbind reads (\<lambda>ks. journaled_loop X mutation sql (loop ks)) s = (Inr n, s')"
proof -
  let ?c = "open_journal mutation 0 sql (cat s)"
  obtain j where j: "next_oid (cat s) = Some j"
    using w by (auto simp: wf_catalog_def wf_oids_def split: option.splits)
  obtain n d where l: "runs (loop ks) ?c n d" using loop_runs [OF X r w] by blast
  have "body_spec (\<lambda>d. d = ?c) (loop ks) (\<lambda>_. R ks ?c)"
    by (rule loop_does [OF r w]) (use w in \<open>simp add: wf_catalog_def\<close>)
  from runs_body [OF l this refl] have "journal d = journal ?c" by (rule loop_keeps_journal)
  then have "j \<in> jr_id ` set (journal d)" by (simp add: open_journal_def j)
  then have "runs (cbind (insert_journal X mutation 0 sql) (\<lambda>j. cbind (loop ks) (\<lambda>n. cbind (finish_journal X j)
      (\<lambda>_. creturn n)))) (cat s) n (close_journal (x_fmt X) j d)"
    by (intro runs_bind [OF runs_insert_journal [OF X w j]] runs_bind [OF l] runs_bind [OF runs_finish_journal [OF X]] runs_return)
  note body = this
  obtain s1 where s1: "reads s = (Inr ks, s1)" "cat s1 = cat s" "saved s1 = None"
    using reads_run [OF X r] closed by (auto simp: runs_def)
  obtain s2 where "journaled_loop X mutation sql (loop ks) s1 = (Inr n, s2)"
    using runs_tx [OF X body [folded s1(2)] s1(3)] by (auto simp: journaled_loop_def)
  with s1(1) show ?thesis by (auto simp: cbind_def)
qed

end

lemma runs_deletes:
  assumes "reliable X"
  shows "\<exists>n d. runs (delete_privilege X k) c n d" "\<exists>n d. runs (delete_user_role X u r) c n d"
  unfolding delete_privilege_def delete_user_role_def
  by (intro exI, rule runs_exec_count [OF assms], rule surjective_pairing)+

interpretation live_grant_keys: live_statement X "read_keys X g" "\<lambda>c. named_keys (x_lower X) c g"
    "''grant_privilege''" sql "\<lambda>ks. cfold (\<lambda>k. adding (upsert_privilege X grantor k)) ks 0"
    "\<lambda>ks. privileges_granted (set ks)" for X g sql grantor
proof (unfold_locales, rule runs_read_keys, assumption+)
  fix c ks assume X: "reliable X" and r: "named_keys (x_lower X) c g = Inr ks" and w: "wf_catalog c"
  let ?c = "open_journal ''grant_privilege'' 0 sql c"
  let ?I = "\<lambda>d. wf_catalog d \<and> (\<forall>k\<in>set ks. principal_exists d (fst k) (fst (snd k)))"
  have "?I ?c" using w named_keys_exist [OF r] by (simp add: principal_exists_def)
  moreover have "\<exists>n e. runs (upsert_privilege X grantor k) d n e \<and> ?I e" if "k \<in> set ks" "?I d" for k d
  proof -
    note I = that
    obtain n e where ne: "runs (upsert_privilege X grantor k) d n e" using runs_upsert_privilege [OF X] I(2) by blast
    have pg: "privileges_granted (insert k {}) d e"
      using runs_body [OF ne sp_upsert_privilege [of d k "{}"]] I by (simp add: privileges_granted_def only_privileges_refl)
    then have "wf_catalog e" "principal_exists e = principal_exists d"
      using same_accounts(1) [OF pg] principal_exists_same [of e d] pg by (auto simp: privileges_granted_def)
    with I(2) have "?I e" by simp
    with ne show ?thesis by blast
  qed
  ultimately show "\<exists>n d. runs (cfold (\<lambda>k. adding (upsert_privilege X grantor k)) ks 0) ?c n d"
    using runs_loop [of ?I ?c ks "upsert_privilege X grantor"] by blast
qed (auto simp: privileges_granted_def dest: only_privilegesD)

interpretation live_revoke_keys: live_statement X "read_keys X g" "\<lambda>c. named_keys (x_lower X) c g"
    "''revoke_privilege''" sql "\<lambda>ks. cfold (\<lambda>k. adding (delete_privilege X k)) ks 0"
    "\<lambda>ks. privileges_revoked (set ks)" for X g sql
proof (unfold_locales, rule runs_read_keys, assumption+)
  fix c ks assume X: "reliable X"
  show "\<exists>n d. runs (cfold (\<lambda>k. adding (delete_privilege X k)) ks 0) (open_journal ''revoke_privilege'' 0 sql c) n d"
    using runs_loop [of "\<lambda>_. True" _ ks "delete_privilege X"] runs_deletes(1) [OF X] by blast
qed (simp add: privileges_revoked_def)

interpretation live_grant_roles: live_statement X "read_roles X g" "\<lambda>c. named_roles (x_lower X) c g"
    "''grant_role''" sql "\<lambda>ks. cfold (\<lambda>(u, r). adding (upsert_user_role X u r grantor)) ks 0"
    "\<lambda>ks. roles_granted (set ks)" for X g sql grantor
proof (unfold_locales, rule runs_read_roles, assumption+)
  fix c ks assume X: "reliable X"
  show "\<exists>n d. runs (cfold (\<lambda>(u, r). adding (upsert_user_role X u r grantor)) ks 0) (open_journal ''grant_role'' 0 sql c) n d"
    using runs_loop [of "\<lambda>_. True" _ ks "\<lambda>(u, r). upsert_user_role X u r grantor"] runs_upsert_user_role [OF X]
    by (fastforce simp: case_prod_beta')
qed (auto simp: roles_granted_def)

interpretation live_revoke_roles: live_statement X "read_roles X g" "\<lambda>c. named_roles (x_lower X) c g"
    "''revoke_role''" sql "\<lambda>ks. cfold (\<lambda>(u, r). adding (delete_user_role X u r)) ks 0"
    "\<lambda>ks. roles_revoked (set ks)" for X g sql
proof (unfold_locales, rule runs_read_roles, assumption+)
  fix c ks assume X: "reliable X"
  show "\<exists>n d. runs (cfold (\<lambda>(u, r). adding (delete_user_role X u r)) ks 0) (open_journal ''revoke_role'' 0 sql c) n d"
    using runs_loop [of "\<lambda>_. True" _ ks "\<lambda>(u, r). delete_user_role X u r"] runs_deletes(2) [OF X]
    by (fastforce simp: case_prod_beta')
qed (simp add: roles_revoked_def)

lemma grant_runs:
  assumes "reliable X" and "saved s = None" and "wf_catalog (cat s)" and "named_access (x_lower X) (cat s) g = Inr KM"
  shows "(\<exists>n s'. grant_privileges X g sql grantor s = (Inr n, s')) \<and> (\<exists>n s'. revoke_privileges X g sql s = (Inr n, s'))"
proof (cases "g_objects g = None \<and> grant_contains_role_actions (g_privileges g)")
  case True
  then obtain ks where "named_roles (x_lower X) (cat s) g = Inr ks"
    using assms(4) by (auto simp: named_access_def result_simps)
  with live_grant_roles.succeeds [OF assms(1) this assms(3,2)] live_revoke_roles.succeeds [OF assms(1) this assms(3,2)] True
  show ?thesis unfolding grant_statement_shape revoke_statement_shape if_P [OF True] by blast
next
  case False
  then obtain ks where "named_keys (x_lower X) (cat s) g = Inr ks"
    using assms(4) by (auto simp: named_access_def result_simps)
  with live_grant_keys.succeeds [OF assms(1) this assms(3,2)] live_revoke_keys.succeeds [OF assms(1) this assms(3,2)]
  show ?thesis unfolding grant_statement_shape revoke_statement_shape if_not_P [OF False] by blast
qed

text \<open>C27: On an engine that refuses no statement, GRANT and REVOKE succeed whenever every name of the
  statement resolves and its privileges fit the kind of object.\<close>

theorem grant_and_revoke_succeed:
  assumes "reliable X" and "saved s = None" and "wf_catalog (cat s)" and "named_access (x_lower X) (cat s) g = Inr KM"
  shows "(\<exists>n s'. grant_privileges X g sql grantor s = (Inr n, s')) \<and> (\<exists>n s'. revoke_privileges X g sql s = (Inr n, s'))"
  using assms by (rule grant_runs)

section \<open>Witnesses\<close>

abbreviation sample_grant :: grant_stmt where
  "sample_grant \<equiv> \<lparr>g_privileges = Actions [ACreate], g_objects = None,
     g_grantees = [\<lparr>grantee_type = GTRole, grantee_name = Some (GName [Identifier ''Reader''])\<rparr>]\<rparr>"

lemma sample_grant_names:
  "named_access to_lower (cat small_world) sample_grant = Inr ({(''role'', ROLE_READER_ID, ''system'', 0, ''manage_user'')}, {})"
proof -
  have "role_named to_lower (cat small_world) ''Reader'' = Inr ROLE_READER_ID"
    unfolding role_named_def role_id_in_def small_roles by code_simp
  then show ?thesis
    by (simp add: named_access_def named_keys_def targets_named_def privilege_actions_def privilege_action_def
        grant_contains_role_actions_def principal_named_def grantee_text_def single_name_part_def push_new_def grant_keys_def)
qed

theorem grant_and_revoke_succeed_witness:
  "(\<exists>n s'. grant_privileges sample sample_grant [] 10 small_world = (Inr n, s'))
   \<and> (\<exists>n s'. revoke_privileges sample sample_grant [] small_world = (Inr n, s'))"
  by (rule grant_and_revoke_succeed [where KM = "({(''role'', ROLE_READER_ID, ''system'', 0, ''manage_user'')}, {})"])
    (use good_small_world in \<open>simp_all add: small_wf sample_grant_names\<close>)

lemma small_matrix: "access_matrix (cat small_world) = ({}, {})"
  by (simp add: access_matrix_def small_world_def sample_conn_def small_catalog_def empty_catalog_def)

theorem grant_refines_union_witness:
  "\<exists>n s'. grant_privileges sample sample_grant [] 10 small_world = (Inr n, s')
     \<and> fst (access_matrix (catalog_of s')) = {(''role'', ROLE_READER_ID, ''system'', 0, ''manage_user'')}"
proof -
  obtain n s' where run: "grant_privileges sample sample_grant [] 10 small_world = (Inr n, s')"
    using grant_runs [of sample small_world sample_grant _ "[]" 10] good_small_world small_wf sample_grant_names by auto
  from grant_refines_union [OF run] run show ?thesis
    using good_small_world sample_grant_names
    by (simp add: small_matrix catalog_of_def committed_def)
qed

theorem revoke_refines_difference_witness:
  "\<exists>n s'. revoke_privileges sample sample_grant [] small_world = (Inr n, s') \<and> fst (access_matrix (catalog_of s')) = {}"
proof -
  obtain n s' where run: "revoke_privileges sample sample_grant [] small_world = (Inr n, s')"
    using grant_runs [of sample small_world sample_grant _ "[]" 10] good_small_world small_wf sample_grant_names by auto
  from revoke_refines_difference [OF run] run show ?thesis
    using good_small_world sample_grant_names
    by (simp add: small_matrix catalog_of_def committed_def)
qed

end
