(* ===== verification/Schemas.thy ===== *)
theory Schemas
  imports Grants
begin

text \<open>
  CREATE SCHEMA and COMMENT ON: \<^verbatim>\<open>src/catalog/mutation/schema.rs\<close> and
  \<^verbatim>\<open>src/catalog/mutation/comment.rs\<close>. A schema is created once, under a name that is not
  reserved, as a catalog row and as a physical schema in one transaction. A comment replaces the
  one its object had; no other comment changes.
\<close>

section \<open>CREATE SCHEMA\<close>

definition create_schema_body :: "'p external \<Rightarrow> string \<Rightarrow> bool \<Rightarrow> int \<Rightarrow> ('p, nat) db" where
  "create_schema_body X schema if_not_exists owner_user_id =
     cbind (namespace_exists X schema) (\<lambda>present.
     if present then (if if_not_exists then creturn 0 else cthrow (EMut (SchemaExists schema)))
     else
       cbind (allocate_oid X) (\<lambda>ns_oid.
       cbind (insert_journal X ''create_schema'' ns_oid schema) (\<lambda>journal_id.
       cbind (cexec X ''write rs_schema failed'' (\<lambda>c. map_option (\<lambda>rows. c\<lparr>schemas := rows\<rparr>)
         (insert_schema \<lparr>sch_oid = ns_oid, sch_name = schema, sch_owner = owner_user_id, sch_acl = []\<rparr> (schemas c)))) (\<lambda>_.
       cbind (cddl X ''execute DuckDB CREATE SCHEMA failed'' (''CREATE SCHEMA '' @ quote_ident schema)) (\<lambda>_.
       cbind (finish_journal X journal_id) (\<lambda>_.
       creturn 0))))))"

definition create_schema :: "'p external \<Rightarrow> schema_name \<Rightarrow> bool \<Rightarrow> int \<Rightarrow> ('p, nat) db" where
  "create_schema X schema_name if_not_exists owner_user_id =
     cbind (clift (schema_name_value schema_name)) (\<lambda>schema.
     cbind (clift (reject_reserved_schema schema)) (\<lambda>_.
     run_catalog_tx X (create_schema_body X schema if_not_exists owner_user_id)))"

definition schema_created :: "'p external \<Rightarrow> string \<Rightarrow> int \<Rightarrow> catalog \<Rightarrow> catalog \<Rightarrow> bool" where
  "schema_created X schema owner c d \<longleftrightarrow> (\<exists>i ns. schema_rows (x_lower X) c schema = [] \<and> next_oid c = Some i
     \<and> insert_schema \<lparr>sch_oid = i, sch_name = schema, sch_owner = owner, sch_acl = []\<rparr> (schemas c) = Some ns
     \<and> d = journaled (x_fmt X) ''create_schema'' i schema (\<lambda>c. c\<lparr>schemas := ns\<rparr>) (bump c))"

lemma schema_rows_tables [simp]:
  "schema_rows low (bump c) n = schema_rows low c n" "schema_rows low (open_journal m t r c) n = schema_rows low c n"
  by (simp_all add: schema_rows_def)

lemma sp_create_schema_body:
  "body_spec A (create_schema_body X schema ine owner)
     (\<lambda>n d. n = 0 \<and> (ine \<and> A d \<and> schema_rows (x_lower X) d schema \<noteq> [] \<or> (\<exists>c. A c \<and> schema_created X schema owner c d)))"
  unfolding create_schema_body_def
  by (rule body_post, (rule sp)+) (auto simp: schema_created_def journaled_def split: if_splits)

lemma good_schema_created:
  assumes "schema_created X schema owner c d" "good (x_fmt X) c"
  shows "good (x_fmt X) d"
proof -
  obtain i ns where i: "next_oid c = Some i"
    and ns: "insert_schema \<lparr>sch_oid = i, sch_name = schema, sch_owner = owner, sch_acl = []\<rparr> (schemas c) = Some ns"
    and d: "d = journaled (x_fmt X) ''create_schema'' i schema (\<lambda>c. c\<lparr>schemas := ns\<rparr>) (bump c)"
    using assms(1) by (auto simp: schema_created_def)
  have "wf_catalog ((open_journal ''create_schema'' i schema (bump c))\<lparr>schemas := ns\<rparr>)"
    by (rule wf_add_schema [where n = "\<lparr>sch_oid = i, sch_name = schema, sch_owner = owner, sch_acl = []\<rparr>"])
      (use assms(2) i ns in \<open>simp_all add: good_def unused_next\<close>)
  then show ?thesis unfolding d by (rule good_journaled)
qed

lemma create_schema_atomic: "atomic X (create_schema X name ine owner)"
proof -
  have "body_spec (good (x_fmt X)) (create_schema_body X schema ine owner) (\<lambda>_. good (x_fmt X))" for schema
    by (rule body_post [OF sp_create_schema_body]) (auto dest: good_schema_created)
  then show ?thesis unfolding create_schema_def by (intro atomic_rules atomic_read_bind ro)
qed

interpretation create_schema_op: catalog_operation X "create_schema X name ine owner" for X name ine owner
  by (rule atomic_operation, rule create_schema_atomic)

section \<open>COMMENT ON\<close>

type_synonym comment_key = "int \<times> int \<times> int"

text \<open>The object of the comment; \<open>None\<close> is the early return of IF EXISTS.\<close>

definition comment_target :: "'p external \<Rightarrow> comment_object \<Rightarrow> object_name \<Rightarrow> bool \<Rightarrow> ('p, comment_key option) db" where
  "comment_target X object_type object_name if_exists =
     (case object_type of
        CSchema \<Rightarrow>
          cbind (clift (single_name_part object_name)) (\<lambda>schema.
          cbind (clift (reject_reserved_schema schema)) (\<lambda>_.
          cbind (ctry (namespace_oid X schema)) (\<lambda>r. case r of
            Inr i \<Rightarrow> creturn (Some (i, OBJECT_SCHEMA_KIND, 0))
          | Inl e \<Rightarrow> if if_exists then creturn None else cthrow e)))
      | CColumn \<Rightarrow>
          cbind (clift (column_comment_target object_name)) (\<lambda>(schema, relname, column).
          cbind (clift (reject_reserved_schema schema)) (\<lambda>_.
          cbind (find_relation_meta X schema relname) (\<lambda>found. case found of
            None \<Rightarrow> if if_exists then creturn None else cthrow (EMut (RelationDoesNotExist schema relname))
          | Some meta \<Rightarrow>
              cbind (column_attnum X (rm_oid meta) column) (\<lambda>attnum. case attnum of
                None \<Rightarrow> if if_exists then creturn None else cthrow (EMut (ColumnDoesNotExist schema relname column))
              | Some k \<Rightarrow> creturn (Some (rm_oid meta, OBJECT_RELATION_KIND, k))))))
      | COther t \<Rightarrow> cthrow (EAuth (CommentNotSupported t))
      | _ \<Rightarrow>
          cbind (clift (relation_name object_name)) (\<lambda>(schema, relname).
          cbind (clift (reject_reserved_schema schema)) (\<lambda>_.
          cbind (find_relation_meta X schema relname) (\<lambda>found. case found of
            Some meta \<Rightarrow> creturn (Some (rm_oid meta, OBJECT_RELATION_KIND, 0))
          | None \<Rightarrow> if if_exists then creturn None else cthrow (EMut (RelationDoesNotExist schema relname))))))"

definition com_key :: "rs_comment \<Rightarrow> comment_key" where
  "com_key r = (com_objoid r, com_classoid r, com_objsubid r)"

definition comment_row :: "comment_key \<Rightarrow> string \<Rightarrow> rs_comment" where
  "comment_row k text = (case k of (objoid, classoid, objsubid) \<Rightarrow>
     \<lparr>com_objoid = objoid, com_classoid = classoid, com_objsubid = objsubid, com_description = text\<rparr>)"

definition comment_write :: "'p external \<Rightarrow> comment_key \<Rightarrow> string option \<Rightarrow> string \<Rightarrow> ('p, nat) db" where
  "comment_write X k comment sql =
     cbind (insert_journal X ''comment_object'' (fst k) sql) (\<lambda>journal_id.
     cbind (cexec X ''delete previous comment failed'' (\<lambda>c. Some (c\<lparr>remarks :=
       filter (\<lambda>r. com_key r \<noteq> k) (remarks c)\<rparr>))) (\<lambda>_.
     cbind (case comment of
         None \<Rightarrow> creturn ()
       | Some text \<Rightarrow> cexec X ''write object comment failed'' (\<lambda>c. map_option (\<lambda>rows. c\<lparr>remarks := rows\<rparr>)
           (insert_comment (comment_row k text) (remarks c)))) (\<lambda>_.
     cbind (finish_journal X journal_id) (\<lambda>_.
     creturn 0))))"

definition comment_object ::
    "'p external \<Rightarrow> comment_object \<Rightarrow> object_name \<Rightarrow> string option \<Rightarrow> bool \<Rightarrow> string \<Rightarrow> ('p, nat) db" where
  "comment_object X object_type object_name comment if_exists sql = run_catalog_tx X (
     cbind (comment_target X object_type object_name if_exists) (\<lambda>target. case target of
       None \<Rightarrow> creturn 0
     | Some k \<Rightarrow> comment_write X k comment sql))"

text \<open>The object a name stands for.\<close>

definition commented :: "(string \<Rightarrow> string) \<Rightarrow> catalog \<Rightarrow> comment_object \<Rightarrow> object_name \<Rightarrow> comment_key option" where
  "commented low c object_type object_name = (case object_type of
     CSchema \<Rightarrow> (case single_name_part object_name of
         Inr schema \<Rightarrow> map_option (\<lambda>n. (sch_oid n, OBJECT_SCHEMA_KIND, 0)) (first_of (schema_rows low c schema))
       | _ \<Rightarrow> None)
   | CColumn \<Rightarrow> (case column_comment_target object_name of
         Inr (schema, relname, column) \<Rightarrow> Option.bind (active_relation low c schema relname) (\<lambda>r.
           map_option (\<lambda>a. (rel_oid r, OBJECT_RELATION_KIND, att_num a)) (first_of (column_rows low c (rel_oid r) column)))
       | _ \<Rightarrow> None)
   | COther _ \<Rightarrow> None
   | _ \<Rightarrow> (case relation_name object_name of
         Inr (schema, relname) \<Rightarrow> map_option (\<lambda>r. (rel_oid r, OBJECT_RELATION_KIND, 0)) (active_relation low c schema relname)
       | _ \<Rightarrow> None))"

lemma sp_namespace_try:
  "body_spec A (ctry (namespace_oid X n)) (\<lambda>r d. A d \<and> (\<forall>i. r = Inr i \<longrightarrow>
     map_option sch_oid (first_of (schema_rows (x_lower X) d n)) = Some i))"
  by (rule body_post [OF sp_try [OF lookup_ro(3) sp_namespace_oid [where A = A]]]) auto

lemma sp_comment_relation:
  "body_spec A (cbind (clift (relation_name name)) (\<lambda>(schema, relname).
          cbind (clift (reject_reserved_schema schema)) (\<lambda>_.
          cbind (find_relation_meta X schema relname) (\<lambda>found. case found of
            Some meta \<Rightarrow> creturn (Some (rm_oid meta, OBJECT_RELATION_KIND, 0))
          | None \<Rightarrow> if ife then creturn None else cthrow (EMut (RelationDoesNotExist schema relname))))))
     (\<lambda>t d. A d \<and> (case t of None \<Rightarrow> ife | Some k \<Rightarrow> (case relation_name name of
         Inr (schema, relname) \<Rightarrow> map_option (\<lambda>r. (rel_oid r, OBJECT_RELATION_KIND, 0 :: int))
           (active_relation (x_lower X) d schema relname)
       | _ \<Rightarrow> None) = Some k))"
  by (rule body_bind [OF sp_lift], rule body_prod, rule body_bind [OF sp_lift],
      rule body_bind [OF sp_find_relation_meta], rule body_option)
    (auto simp: meta_of_def Some_eq_map_option intro!: body_rules)

lemma sp_comment_target:
  "body_spec A (comment_target X ty name ife)
     (\<lambda>t d. A d \<and> (case t of None \<Rightarrow> ife | Some k \<Rightarrow> commented (x_lower X) d ty name = Some k))"
proof (cases ty)
  case CSchema
  show ?thesis
    unfolding comment_target_def CSchema comment_object.case
    by (rule body_bind [OF sp_lift], rule body_bind [OF sp_lift], rule body_bind [OF sp_namespace_try])
      (auto simp: commented_def split: sum.split intro!: body_rules)
next
  case CColumn
  show ?thesis
    unfolding comment_target_def CColumn comment_object.case
    by (rule body_bind [OF sp_lift], rule body_prod, rule body_prod, rule body_bind [OF sp_lift],
        rule body_bind [OF sp_find_relation_meta], rule body_option, rule body_if, rule body_return, simp,
        rule body_throw, rule body_bind [OF sp_column_attnum], rule body_option)
      (auto simp: commented_def meta_of_def Some_eq_map_option intro!: body_rules)
next
  case CTable
  show ?thesis
    unfolding comment_target_def CTable comment_object.case
    by (rule body_post [OF sp_comment_relation]) (auto simp: commented_def split: option.splits)
next
  case CView
  show ?thesis
    unfolding comment_target_def CView comment_object.case
    by (rule body_post [OF sp_comment_relation]) (auto simp: commented_def split: option.splits)
next
  case CIndex
  show ?thesis
    unfolding comment_target_def CIndex comment_object.case
    by (rule body_post [OF sp_comment_relation]) (auto simp: commented_def split: option.splits)
qed (simp add: comment_target_def body_throw)

definition commented_with :: "comment_key \<Rightarrow> string option \<Rightarrow> catalog \<Rightarrow> rs_comment list" where
  "commented_with k comment c = filter (\<lambda>r. com_key r \<noteq> k) (remarks c)
     @ (case comment of None \<Rightarrow> [] | Some text \<Rightarrow> [comment_row k text])"

definition comment_set :: "'p external \<Rightarrow> comment_key \<Rightarrow> string option \<Rightarrow> string \<Rightarrow> catalog \<Rightarrow> catalog \<Rightarrow> bool" where
  "comment_set X k comment sql c d \<longleftrightarrow>
     d = journaled (x_fmt X) ''comment_object'' (fst k) sql (\<lambda>e. e\<lparr>remarks := commented_with k comment c\<rparr>) c"

lemma com_key_row [simp]: "com_key (comment_row k text) = k"
  by (cases k) (simp add: com_key_def comment_row_def)

lemma sp_comment_write:
  "body_spec A (comment_write X k comment sql) (\<lambda>u d. u = 0 \<and> (\<exists>c. A c \<and> comment_set X k comment sql c d))"
proof (cases comment)
  case None
  show ?thesis
    unfolding None option.case comment_write_def
    by (rule body_post, (rule sp)+) (force simp: comment_set_def journaled_def commented_with_def)
next
  case (Some t)
  show ?thesis
    unfolding Some option.case comment_write_def
    by (rule body_post, (rule sp)+)
      (force simp: comment_set_def journaled_def commented_with_def dest: comment_keys.ins_appends)
qed

lemma good_comment_set:
  assumes "comment_set X k comment sql c d" "good (x_fmt X) c"
  shows "good (x_fmt X) d"
proof -
  let ?c = "open_journal ''comment_object'' (fst k) sql c"
  let ?c1 = "?c\<lparr>remarks := filter (\<lambda>r. com_key r \<noteq> k) (remarks ?c)\<rparr>"
  have 1: "wf_catalog ?c1" using assms(2) by (intro wf_del_comments) (simp add: good_def)
  have "wf_catalog (?c\<lparr>remarks := commented_with k comment c\<rparr>)"
  proof (cases comment)
    case None
    with 1 show ?thesis by (simp add: commented_with_def)
  next
    case (Some t)
    have "insert_comment (comment_row k t) (remarks ?c1) = Some (commented_with k comment c)"
      by (cases k) (auto simp: insert_comment_def insert_row_def list_ex_iff commented_with_def Some com_key_def comment_row_def)
    from wf_add_comment [OF 1 this] show ?thesis by simp
  qed
  then show ?thesis using assms(1) unfolding comment_set_def by (auto intro: good_journaled)
qed

lemma sp_comment_object_body:
  "body_spec A (cbind (comment_target X ty name ife) (\<lambda>target. case target of
       None \<Rightarrow> creturn 0 | Some k \<Rightarrow> comment_write X k comment sql)) (\<lambda>n d. n = 0 \<and> (ife \<and> A d
     \<or> (\<exists>c k. A c \<and> commented (x_lower X) c ty name = Some k \<and> comment_set X k comment sql c d)))"
proof (rule body_bind [OF sp_comment_target], rule body_option)
  fix target :: "comment_key option" and k assume t: "target = Some k"
  show "body_spec (\<lambda>d. A d \<and> (case target of None \<Rightarrow> ife | Some k \<Rightarrow> commented (x_lower X) d ty name = Some k))
    (comment_write X k comment sql) (\<lambda>n d. n = 0 \<and> (ife \<and> A d
     \<or> (\<exists>c k. A c \<and> commented (x_lower X) c ty name = Some k \<and> comment_set X k comment sql c d)))"
    unfolding t option.case by (rule body_post [OF sp_comment_write]) blast
qed (auto intro: body_return)

lemma comment_object_atomic: "atomic X (comment_object X ty name comment ife sql)"
  unfolding comment_object_def
  by (rule atomic_tx, rule body_post [OF sp_comment_object_body]) (auto dest: good_comment_set)

interpretation comment_op: catalog_operation X "comment_object X ty name comment ife sql" for X ty name comment ife sql
  by (rule atomic_operation, rule comment_object_atomic)

section \<open>What the statements do\<close>

lemma tx_closed_result:
  assumes "body_spec (\<lambda>d. d = cat s) f Q" "run_catalog_tx X f s = (Inr v, s')" "saved s = None"
  shows "Q v (catalog_of s')"
  using tx_result [OF assms(1) refl assms(2)] by (auto simp: catalog_of_def committed_def)

text \<open>CREATE SCHEMA that succeeds did nothing because the name exists and IF NOT EXISTS was given, or it
  added exactly one schema, under the name of the statement, which is not reserved and which no
  schema had in any letter case, with an identifier nothing else has.\<close>

theorem schema_created_once:
  assumes "create_schema X name ine owner s = (Inr n, s')" and "saved s = None" and "good (x_fmt X) (cat s)"
  shows "\<exists>schema. schema_name_value name = Inr schema \<and> \<not> is_reserved_schema schema
    \<and> (ine \<and> catalog_of s' = cat s \<and> schema_rows (x_lower X) (cat s) schema \<noteq> []
       \<or> (\<exists>i. i \<notin> set (all_oids (cat s)) \<and> schema_rows (x_lower X) (cat s) schema = []
            \<and> schemas (catalog_of s') = schemas (cat s) @ [\<lparr>sch_oid = i, sch_name = schema, sch_owner = owner, sch_acl = []\<rparr>]
            \<and> relations (catalog_of s') = relations (cat s) \<and> access_matrix (catalog_of s') = access_matrix (cat s)))"
proof -
  obtain schema where schema: "schema_name_value name = Inr schema" "\<not> is_reserved_schema schema"
    and run: "run_catalog_tx X (create_schema_body X schema ine owner) s = (Inr n, s')"
    using assms(1) unfolding create_schema_def
    by (auto simp: cbind_clift_cases reject_reserved_schema_def split: sum.splits if_splits)
  from tx_closed_result [OF sp_create_schema_body run assms(2)] consider
    "ine" "catalog_of s' = cat s" "schema_rows (x_lower X) (cat s) schema \<noteq> []"
    | "schema_created X schema owner (cat s) (catalog_of s')" by (elim conjE disjE exE) simp_all
  then show ?thesis
  proof cases
    case 2
    then obtain i ns where i: "next_oid (cat s) = Some i" "schema_rows (x_lower X) (cat s) schema = []"
      and ns: "insert_schema \<lparr>sch_oid = i, sch_name = schema, sch_owner = owner, sch_acl = []\<rparr> (schemas (cat s)) = Some ns"
      and d: "catalog_of s' = journaled (x_fmt X) ''create_schema'' i schema (\<lambda>c. c\<lparr>schemas := ns\<rparr>) (bump (cat s))"
      by (auto simp: schema_created_def)
    have "i \<notin> set (all_oids (cat s))" using assms(3) i(1) by (auto simp: good_def wf_catalog_def wf_oids_def)
    moreover have "access_matrix (catalog_of s') = access_matrix (cat s)" by (simp add: d access_matrix_def)
    ultimately show ?thesis
      using schema i schema_oids.ins_appends [OF ns] by (auto simp: d journaled_def)
  qed (use schema in blast)
qed

text \<open>COMMENT ON that succeeds did nothing because its object is missing and IF EXISTS was given, or it
  left the object with exactly the comment of the statement (none for NULL) and every other comment
  and every other table but the journal as they were.\<close>

theorem comment_is_stored:
  assumes "comment_object X ty name comment ife sql s = (Inr n, s')" and "saved s = None"
  shows "ife \<and> catalog_of s' = cat s
    \<or> (\<exists>k. commented (x_lower X) (cat s) ty name = Some k
         \<and> remarks (catalog_of s') = commented_with k comment (cat s)
         \<and> relations (catalog_of s') = relations (cat s) \<and> schemas (catalog_of s') = schemas (cat s)
         \<and> access_matrix (catalog_of s') = access_matrix (cat s))"
  using tx_closed_result [OF sp_comment_object_body assms(1) [unfolded comment_object_def] assms(2)]
  by (auto simp: comment_set_def access_matrix_def journaled_def)

section \<open>Witnesses\<close>

definition main_catalog :: catalog where
  "main_catalog = small_catalog\<lparr>schemas := [\<lparr>sch_oid = 2200, sch_name = ''main'', sch_owner = 10, sch_acl = []\<rparr>]\<rparr>"

lemma wf_main: "wf_catalog main_catalog" by code_simp

lemma wf_seal:
  assumes "wf_catalog c"
  shows "wf_catalog (seal F c)"
proof -
  have "all_oids (seal F c) = all_oids c" "next_oid (seal F c) = next_oid c"
    by (simp_all add: seal_def all_oids_def next_oid_def alloc_row_def)
  then have 1: "wf_oids (seal F c) = wf_oids c" by (rule wf_oids_cong [rotated])
  have 2: "wf_keys (seal F c) = wf_keys c" by (simp add: seal_def wf_keys_def)
  have 3: "wf_refs (seal F c) = wf_refs c" by (simp add: seal_def wf_refs_def)
  have 4: "version_row (seal F c) \<noteq> None \<longleftrightarrow> version_row c \<noteq> None" by (simp add: seal_def)
  show ?thesis using assms unfolding wf_catalog_def 1 2 3 4 .
qed

lemma good_seal: "wf_catalog c \<Longrightarrow> good F (seal F c)"
  unfolding good_def by (intro conjI wf_seal sealed_seal) (simp_all add: wf_catalog_def)

definition main_world :: "unit conn" where
  "main_world = sample_conn (seal sample_fmt main_catalog)"

lemma good_main: "good sample_fmt (cat main_world)" "saved main_world = None"
  by (simp_all add: main_world_def sample_conn_def good_seal wf_main)

lemma runs_comment_write:
  assumes X: "reliable X" and w: "wf_catalog c"
  shows "\<exists>d. runs (comment_write X k comment sql) c 0 d"
proof -
  obtain j where j: "next_oid c = Some j" using w by (auto simp: wf_catalog_def wf_oids_def split: option.splits)
  let ?c = "open_journal ''comment_object'' (fst k) sql c"
  let ?c1 = "?c\<lparr>remarks := filter (\<lambda>r. com_key r \<noteq> k) (remarks ?c)\<rparr>"
  obtain d where d: "runs (case comment of None \<Rightarrow> creturn ()
       | Some text \<Rightarrow> cexec X ''write object comment failed'' (\<lambda>c. map_option (\<lambda>rows. c\<lparr>remarks := rows\<rparr>)
           (insert_comment (comment_row k text) (remarks c)))) ?c1 () d" "journal d = journal ?c"
  proof (cases comment)
    case None
    then show thesis using that [of ?c1] by (simp add: runs_return)
  next
    case (Some t)
    have "insert_comment (comment_row k t) (remarks ?c1) = Some (remarks ?c1 @ [comment_row k t])"
      by (cases k) (auto simp: insert_comment_def insert_row_def list_ex_iff com_key_def comment_row_def)
    then show thesis
      using that [of "?c1\<lparr>remarks := remarks ?c1 @ [comment_row k t]\<rparr>"] by (simp add: Some runs_exec [OF X])
  qed
  have j': "j \<in> jr_id ` set (journal d)" by (simp add: d(2) open_journal_def j)
  show ?thesis
    unfolding comment_write_def
    by (rule exI, rule runs_bind [OF runs_insert_journal [OF X w j]], rule runs_bind, rule runs_exec [OF X refl],
        rule runs_bind, rule d(1), rule runs_bind, rule runs_finish_journal [OF X j'], rule runs_return)
qed

lemma main_commented: "commented to_lower (cat main_world) CSchema [Identifier ''Main''] = Some (2200, OBJECT_SCHEMA_KIND, 0)"
proof -
  have "schemas (cat main_world) = [\<lparr>sch_oid = 2200, sch_name = ''main'', sch_owner = 10, sch_acl = []\<rparr>]"
    by (simp add: main_world_def sample_conn_def main_catalog_def seal_def)
  moreover have "to_lower ''Main'' = to_lower ''main''" by code_simp
  ultimately show ?thesis
    by (simp add: commented_def single_name_part_def schema_rows_def)
qed

lemma runs_try: "runs m c v c \<Longrightarrow> runs (ctry m) c (Inr v) c"
  by (fastforce simp: runs_def ctry_def)

lemma main_schemas: "schemas (cat main_world) = [\<lparr>sch_oid = 2200, sch_name = ''main'', sch_owner = 10, sch_acl = []\<rparr>]"
  by (simp add: main_world_def sample_conn_def main_catalog_def seal_def)

lemma main_comment_runs:
  "\<exists>s'. comment_object sample CSchema [Identifier ''Main''] (Some ''it's main'') False [] main_world = (Inr 0, s')"
proof -
  have X: "reliable sample" and w: "wf_catalog (cat main_world)" using good_main by (simp_all add: good_def)
  have row: "first_of (schema_rows to_lower (cat main_world) ''Main'')
      = Some \<lparr>sch_oid = 2200, sch_name = ''main'', sch_owner = 10, sch_acl = []\<rparr>"
    unfolding schema_rows_def main_schemas by code_simp
  have "single_name_part [Identifier ''Main''] = Inr ''Main''" "reject_reserved_schema ''Main'' = Inr ()" by code_simp+
  moreover have "runs (namespace_oid sample ''Main'') (cat main_world) 2200 (cat main_world)"
    using runs_lookup(4) [OF X, of "cat main_world" "''Main''"] row by simp
  ultimately have "runs (comment_target sample CSchema [Identifier ''Main''] False) (cat main_world)
      (Some (2200, OBJECT_SCHEMA_KIND, 0)) (cat main_world)"
    unfolding comment_target_def comment_object.case
    by (intro runs_bind [OF runs_lift]) (assumption, assumption, rule runs_bind, erule runs_try, simp add: runs_return)
  moreover obtain d where "runs (comment_write sample (2200, OBJECT_SCHEMA_KIND, 0) (Some ''it's main'') []) (cat main_world) 0 d"
    using runs_comment_write [OF X w] by blast
  ultimately have "runs (cbind (comment_target sample CSchema [Identifier ''Main''] False) (\<lambda>target. case target of
       None \<Rightarrow> creturn 0 | Some k \<Rightarrow> comment_write sample k (Some ''it's main'') [])) (cat main_world) 0 d"
    by (auto intro: runs_bind)
  from runs_tx [OF X this good_main(2)] show ?thesis unfolding comment_object_def by blast
qed

theorem comment_is_stored_witness:
  "\<exists>s'. comment_object sample CSchema [Identifier ''Main''] (Some ''it's main'') False [] main_world = (Inr 0, s')
     \<and> remarks (catalog_of s') = [comment_row (2200, OBJECT_SCHEMA_KIND, 0) ''it's main'']"
proof -
  obtain s' where run: "comment_object sample CSchema [Identifier ''Main''] (Some ''it's main'') False [] main_world = (Inr 0, s')"
    using main_comment_runs by blast
  have "remarks (cat main_world) = []"
    by (simp add: main_world_def sample_conn_def main_catalog_def seal_def small_catalog_def empty_catalog_def)
  with comment_is_stored [OF run good_main(2)] main_commented run show ?thesis
    by (auto simp: commented_with_def)
qed

lemma schema_create_runs:
  assumes X: "reliable X" and w: "wf_catalog c" and new: "schema_rows (x_lower X) c schema = []"
  shows "\<exists>d. runs (create_schema_body X schema ine owner) c 0 d"
proof -
  obtain i where i: "next_oid c = Some i" using w by (auto simp: wf_catalog_def wf_oids_def split: option.splits)
  let ?r = "\<lparr>sch_oid = i, sch_name = schema, sch_owner = owner, sch_acl = []\<rparr>"
  let ?c = "open_journal ''create_schema'' i schema (bump c)"
  have "i \<notin> sch_oid ` set (schemas c)" using w i by (auto simp: wf_catalog_def wf_oids_def all_oids_def)
  moreover have "schema \<notin> sch_name ` set (schemas c)" using new by (auto simp: schema_rows_def filter_empty_conv)
  ultimately have ins: "insert_schema ?r (schemas ?c) = Some (schemas c @ [?r])"
    by (auto simp: insert_schema_def insert_row_def list_ex_iff)
  have ex: "runs (namespace_exists X schema) c False c"
    unfolding namespace_exists_def by (rule runs_conv, rule runs_query [OF X]) (simp_all add: new)
  have wb: "wf_catalog (bump c)" "next_oid (bump c) = Some (i + 1)" using w i by simp_all
  have j: "i + 1 \<in> jr_id ` set (journal (?c\<lparr>schemas := schemas c @ [?r]\<rparr>))" by (simp add: open_journal_def i)
  show ?thesis
    unfolding create_schema_body_def
    by (rule exI, rule runs_bind [OF ex], simp only: if_False, rule runs_bind, rule runs_allocate [OF X i],
        rule runs_bind, rule runs_insert_journal [OF X wb], rule runs_bind,
        rule runs_exec [OF X, of _ _ "?c\<lparr>schemas := schemas c @ [?r]\<rparr>"], simp only: ins option.map,
        rule runs_bind, rule runs_ddl [OF X], rule runs_bind, rule runs_finish_journal [OF X j], rule runs_return)
qed

theorem schema_created_once_witness:
  "\<exists>s'. create_schema sample (SimpleSchema [Identifier ''sales'']) False 10 main_world = (Inr 0, s')
     \<and> length (schemas (catalog_of s')) = 2"
proof -
  have X: "reliable sample" and w: "wf_catalog (cat main_world)" using good_main by (simp_all add: good_def)
  have new: "schema_rows (x_lower sample) (cat main_world) ''sales'' = []"
    unfolding schema_rows_def main_schemas sample_fields by code_simp
  obtain d where "runs (create_schema_body sample ''sales'' False 10) (cat main_world) 0 d"
    using schema_create_runs [OF X w new] by blast
  from runs_tx [OF X this good_main(2)]
  obtain s' where r: "run_catalog_tx sample (create_schema_body sample ''sales'' False 10) main_world = (Inr 0, s')" by blast
  have "schema_name_value (SimpleSchema [Identifier ''sales'']) = Inr ''sales''" "reject_reserved_schema ''sales'' = Inr ()"
    by code_simp+
  then have run: "create_schema sample (SimpleSchema [Identifier ''sales'']) False 10 main_world = (Inr 0, s')"
    unfolding create_schema_def by (simp add: cbind_clift_cases r)
  from schema_created_once [OF run good_main(2)] good_main(1) run show ?thesis
    by (auto simp: main_schemas)
qed

end
