(* ===== verification/Type_Mapping.thy ===== *)
theory Type_Mapping
  imports Rows
begin

text \<open>
  The column types of the catalog: \<^verbatim>\<open>src/catalog/type_mapping.rs\<close>. A type is a text of the
  engine; scalar types have a fixed identifier, complex ones a row of \<^verbatim>\<open>rs_type\<close> made on first
  use. Main results: a DECIMAL survives its coding as a type modifier; fixed float arrays are accepted
  exactly with a positive dimension that fits the machine; and two defects of the coding, types that
  are accepted and then do not match themselves, and types that cannot be registered together.
\<close>

unbundle bit_operations_syntax

section \<open>Scalar types\<close>

definition scalar_type_id_for_duckdb_type :: "string \<Rightarrow> int option" where
  "scalar_type_id_for_duckdb_type duckdb_type =
     (let lower = to_lower duckdb_type in
      if lower = ''boolean'' \<or> lower = ''bool'' then Some TYPE_BOOL
      else if lower = ''smallint'' \<or> lower = ''int2'' then Some TYPE_INT2
      else if lower = ''integer'' \<or> lower = ''int'' \<or> lower = ''int4'' then Some TYPE_INT4
      else if lower = ''bigint'' \<or> lower = ''int8'' then Some TYPE_INT8
      else if lower = ''real'' \<or> lower = ''float'' \<or> lower = ''float4'' then Some TYPE_FLOAT4
      else if lower = ''double'' \<or> lower = ''double precision'' \<or> lower = ''float8'' then Some TYPE_FLOAT8
      else if starts_with ''decimal'' lower \<or> starts_with ''numeric'' lower then Some TYPE_NUMERIC
      else if lower = ''varchar'' \<or> starts_with ''varchar('' lower then Some TYPE_VARCHAR
      else if lower = ''text'' \<or> lower = ''string'' then Some TYPE_TEXT
      else if lower = ''date'' then Some TYPE_DATE
      else if lower = ''time'' \<or> starts_with ''time('' lower then Some TYPE_TIME
      else if starts_with ''timestamp'' lower \<or> lower = ''datetime'' then Some TYPE_TIMESTAMP
      else None)"

definition type_id_for_duckdb_type :: "string \<Rightarrow> err + int" where
  "type_id_for_duckdb_type duckdb_type =
     ok_or (scalar_type_id_for_duckdb_type duckdb_type) (EType (UnsupportedType duckdb_type))"

section \<open>Type modifiers\<close>

definition TYPE_MODIFIER_HEADER_SIZE :: int where "TYPE_MODIFIER_HEADER_SIZE = 4"

definition is_decimal_type :: "string \<Rightarrow> bool" where
  "is_decimal_type duckdb_type = (let lower = to_lower (trim duckdb_type) in
     lower = ''decimal'' \<or> lower = ''numeric'' \<or> starts_with ''decimal('' lower \<or> starts_with ''numeric('' lower)"

definition valid_decimal :: "nat \<Rightarrow> nat \<Rightarrow> (nat \<times> nat) option" where
  "valid_decimal precision scale =
     (if precision = 0 \<or> precision > 38 \<or> scale > precision then None else Some (precision, scale))"

definition decimal_precision_and_scale :: "string \<Rightarrow> (nat \<times> nat) option" where
  "decimal_precision_and_scale duckdb_type =
     (let trimmed = trim duckdb_type in
      if \<not> is_decimal_type trimmed then None
      else Option.bind (find_char (CHR ''('') trimmed) (\<lambda>open.
           Option.bind (rfind_char (CHR '')'') trimmed) (\<lambda>close.
             if close \<le> open + 1 \<or> trim (drop (close + 1) trimmed) \<noteq> [] then None
             else Option.bind (split_once (CHR '','') (take (close - (open + 1)) (drop (open + 1) trimmed))) (\<lambda>(p, s).
                  Option.bind (parse_unsigned 255 (trim p)) (\<lambda>precision.
                  Option.bind (parse_unsigned 255 (trim s)) (\<lambda>scale.
                  valid_decimal precision scale))))))"

text \<open>\<^verbatim>\<open>as u8\<close> keeps the low eight bits.\<close>

definition decimal_precision_and_scale_from_modifier :: "int \<Rightarrow> (nat \<times> nat) option" where
  "decimal_precision_and_scale_from_modifier type_modifier =
     (if type_modifier < TYPE_MODIFIER_HEADER_SIZE then None
      else let encoded = type_modifier - TYPE_MODIFIER_HEADER_SIZE in
        valid_decimal (nat ((drop_bit 16 encoded AND 0xffff) mod 256)) (nat ((encoded AND 0xffff) mod 256)))"

definition type_modifier_for_duckdb_type :: "string \<Rightarrow> int" where
  "type_modifier_for_duckdb_type duckdb_type = (case decimal_precision_and_scale duckdb_type of
     Some (precision, scale) \<Rightarrow> (push_bit 16 (int precision) OR int scale) + TYPE_MODIFIER_HEADER_SIZE
   | None \<Rightarrow> - 1)"

definition decimal_text :: "nat \<Rightarrow> nat \<Rightarrow> string" where
  "decimal_text precision scale = ''DECIMAL('' @ show_nat precision @ '','' @ show_nat scale @ '')''"

definition duckdb_type_with_modifier :: "string \<Rightarrow> int \<Rightarrow> string" where
  "duckdb_type_with_modifier physical_type type_modifier =
     (if \<not> is_decimal_type physical_type then physical_type
      else case decimal_precision_and_scale_from_modifier type_modifier of
          Some (precision, scale) \<Rightarrow> decimal_text precision scale
        | None \<Rightarrow> physical_type)"

definition is_valid_type_modifier_for_duckdb_type :: "string \<Rightarrow> int \<Rightarrow> bool" where
  "is_valid_type_modifier_for_duckdb_type physical_type type_modifier \<longleftrightarrow>
     \<not> is_decimal_type physical_type \<or> decimal_precision_and_scale_from_modifier type_modifier \<noteq> None"

section \<open>Complex types\<close>

definition contains_complex_type_marker :: "string \<Rightarrow> bool" where
  "contains_complex_type_marker type_text = (let lower = to_lower (trim type_text) in
     ends_with ''[]'' lower \<or> (ends_with '']'' lower \<and> contains ''['' lower)
     \<or> starts_with ''struct('' lower \<or> starts_with ''map('' lower \<or> starts_with ''list('' lower
     \<or> starts_with ''list<'' lower)"

definition validate_scalar_type_part :: "string \<Rightarrow> err + unit" where
  "validate_scalar_type_part type_text =
     (if scalar_type_id_for_duckdb_type (trim type_text) \<noteq> None then Inr () else Inl (EType (UnsupportedScalar type_text)))"

text \<open>The parts between delimiters outside quotes and brackets; the text so far, its depth and quote.\<close>

definition quote_chars :: "char list" where "quote_chars = [squote, dquote, CHR 0x60]"

function type_parts_scan ::
    "char \<Rightarrow> char option \<Rightarrow> int \<Rightarrow> string \<Rightarrow> string \<Rightarrow> (string list \<times> string) option" where
  "type_parts_scan delim q depth cur [] = (if depth \<noteq> 0 \<or> q \<noteq> None then None else Some ([], cur))"
| "type_parts_scan delim q depth cur (c # s) = (case q of
     Some qc \<Rightarrow>
       if c = qc then
         (if next_is qc s then type_parts_scan delim q depth (cur @ [c, hd s]) (tl s)
          else type_parts_scan delim None depth (cur @ [c]) s)
       else type_parts_scan delim q depth (cur @ [c]) s
   | None \<Rightarrow>
       if c \<in> set quote_chars then type_parts_scan delim (Some c) depth (cur @ [c]) s
       else if c \<in> {CHR ''('', CHR ''<''} then type_parts_scan delim None (depth + 1) (cur @ [c]) s
       else if c \<in> {CHR '')'', CHR ''>''} then
         (if depth - 1 < 0 then None else type_parts_scan delim None (depth - 1) (cur @ [c]) s)
       else if c = delim \<and> depth = 0 then
         map_option (\<lambda>(ps, tail). (trim cur # ps, tail)) (type_parts_scan delim None depth [] s)
       else type_parts_scan delim None depth (cur @ [c]) s)"
  by pat_completeness auto
termination by (relation "measure (\<lambda>(_, _, _, _, s). length s)") auto

definition split_type_parts :: "string \<Rightarrow> char \<Rightarrow> err + string list" where
  "split_type_parts input delim = (case type_parts_scan delim None 0 [] input of
     None \<Rightarrow> Inl (EType (ComplexSyntax input))
   | Some (ps, tail) \<Rightarrow> Inr (if trim tail = [] then ps else ps @ [trim tail]))"

fun first_ws :: "string \<Rightarrow> nat option" where
  "first_ws [] = None"
| "first_ws (c # s) = (if ws_len (c # s) > 0 then Some 0 else map_option Suc (first_ws s))"

text \<open>The code's \<^verbatim>\<open>escaped\<close> flag is never set when it is read, so the first closing quote ends
  the name.\<close>

definition split_struct_field :: "string \<Rightarrow> err + string \<times> string" where
  "split_struct_field text = (let field = trim text in case field of
     [] \<Rightarrow> Inl (EType StructFieldEmpty)
   | c # s \<Rightarrow>
       if c = dquote \<or> c = CHR 0x60 then
         (case find_char c s of
            None \<Rightarrow> Inl (EType (BadQuotedStructField field))
          | Some idx \<Rightarrow>
              let rest = trim (drop (idx + 1) s) in
              if rest = [] then Inl (EType (StructFieldNoType field)) else Inr (c # take (idx + 1) s, rest))
       else (case first_ws field of
            None \<Rightarrow> Inl (EType (StructFieldNoType field))
          | Some idx \<Rightarrow>
              let name = trim (take idx field); ty = trim (drop idx field) in
              if name = [] \<or> ty = [] then Inl (EType (BadStructField field)) else Inr (name, ty)))"

definition fixed_float_array_dimension :: "string \<Rightarrow> err + nat" where
  "fixed_float_array_dimension duckdb_type = (case rfind_char (CHR ''['') duckdb_type of
     None \<Rightarrow> Inl (EType (FixedArraySyntax duckdb_type))
   | Some open_bracket \<Rightarrow>
       let last = length duckdb_type - 1 in
       if last < open_bracket + 1 then Inl EPanic
       else let element = trim (take open_bracket duckdb_type);
                dimension_text = trim (take (last - (open_bracket + 1)) (drop (open_bracket + 1) duckdb_type)) in
         if element = [] \<or> contains ''['' element \<or> contains '']'' element \<or> dimension_text = []
            \<or> \<not> list_all is_digit dimension_text
         then Inl (EType (FixedArraySyntax duckdb_type))
         else if scalar_type_id_for_duckdb_type element \<noteq> Some TYPE_FLOAT4
         then Inl (EType (FixedArrayElement duckdb_type))
         else rbind (ok_or (parse_unsigned (2 ^ 64 - 1) dimension_text) (EType (FixedArrayDimension duckdb_type))) (\<lambda>dimension.
           if dimension = 0 then Inl (EType (FixedArrayZero duckdb_type)) else Inr dimension))"

definition validate_fixed_float_array_type :: "string \<Rightarrow> err + unit" where
  "validate_fixed_float_array_type duckdb_type = rbind (fixed_float_array_dimension duckdb_type) (\<lambda>_. Inr ())"

definition map_error :: "'e \<Rightarrow> 'd + 'a \<Rightarrow> 'e + 'a" where
  "map_error e r = (case r of Inl _ \<Rightarrow> Inl e | Inr v \<Rightarrow> Inr v)"

definition validate_struct_field :: "string \<Rightarrow> string \<Rightarrow> err + unit" where
  "validate_struct_field duckdb_type field =
     rbind (split_struct_field field) (\<lambda>(_, field_type).
       if contains_complex_type_marker field_type then Inl (EType (NestedComplexType duckdb_type))
       else map_error (EType (UnsupportedStructField field_type)) (validate_scalar_type_part field_type))"

definition validate_map_part :: "string \<Rightarrow> string \<Rightarrow> err + unit" where
  "validate_map_part duckdb_type part =
     (if contains_complex_type_marker part then Inl (EType (NestedComplexType duckdb_type))
      else map_error (EType (UnsupportedMapPart part)) (validate_scalar_type_part part))"

definition between_brackets :: "nat \<Rightarrow> string \<Rightarrow> string" where
  "between_brackets n s = take (length s - 1 - (n + 1)) (drop (n + 1) s)"

definition validate_supported_complex_type :: "string \<Rightarrow> err + unit" where
  "validate_supported_complex_type duckdb_type =
     (let trimmed = trim duckdb_type; lower = to_lower trimmed in
      case strip_suffix ''[]'' trimmed of
        Some element \<Rightarrow>
          if ends_with ''[]'' element \<or> contains_complex_type_marker element
          then Inl (EType (NestedComplexType duckdb_type))
          else map_error (EType (UnsupportedType duckdb_type)) (validate_scalar_type_part element)
      | None \<Rightarrow>
          if ends_with '']'' trimmed then validate_fixed_float_array_type trimmed
          else if starts_with ''struct('' lower \<and> ends_with '')'' trimmed then
            rbind (split_type_parts (between_brackets 6 trimmed) (CHR '','')) (\<lambda>fields.
              if fields = [] then Inl (EType StructNoField)
              else rfold (\<lambda>f _. validate_struct_field duckdb_type f) fields ())
          else if starts_with ''map('' lower \<and> ends_with '')'' trimmed then
            rbind (split_type_parts (between_brackets 3 trimmed) (CHR '','')) (\<lambda>parts.
              if length parts \<noteq> 2 then Inl (EType (MapArity duckdb_type))
              else rfold (\<lambda>p _. validate_map_part duckdb_type p) parts ())
          else Inl (EType (UnsupportedType duckdb_type)))"

definition validate_supported_column_type :: "string \<Rightarrow> err + unit" where
  "validate_supported_column_type duckdb_type =
     (if scalar_type_id_for_duckdb_type duckdb_type \<noteq> None then Inr ()
      else validate_supported_complex_type duckdb_type)"

definition is_complex_duckdb_type :: "string \<Rightarrow> bool" where
  "is_complex_duckdb_type duckdb_type \<longleftrightarrow> scalar_type_id_for_duckdb_type duckdb_type = None
     \<and> validate_supported_complex_type duckdb_type = Inr ()"

text \<open>One underscore for each character that is no ASCII letter or digit; strings are UTF-8, so a
  continuation byte is part of the character before it.\<close>

definition continuation_byte :: "char \<Rightarrow> bool" where
  "continuation_byte c \<longleftrightarrow> (0x80 :: nat) \<le> of_char c \<and> of_char c < (0xC0 :: nat)"

definition complex_typname :: "string \<Rightarrow> string" where
  "complex_typname duckdb_type = ''complex_'' @ trim_matches (\<lambda>c. c = CHR ''_'')
     (map (\<lambda>c. if is_alnum c then lower_char c else CHR ''_'') (filter (\<lambda>c. \<not> continuation_byte c) duckdb_type))"

section \<open>Registered types\<close>

definition lookup_physical_type_id :: "'p external \<Rightarrow> string \<Rightarrow> ('p, int option) db" where
  "lookup_physical_type_id X duckdb_type = cquery X ''query complex type lookup failed''
     (\<lambda>c. map_option ty_oid (first_of (filter (\<lambda>t. ty_physical t = duckdb_type) (types c))))"

definition complex_type_row :: "int \<Rightarrow> string \<Rightarrow> rs_type" where
  "complex_type_row i duckdb_type = \<lparr>ty_oid = i, ty_name = complex_typname duckdb_type,
     ty_namespace = RSDUCK_CATALOG_NS, ty_owner = ADMIN_USER_ID, ty_len = - 1, ty_byval = False, ty_type = ''b'',
     ty_category = ''J'', ty_isdefined = True, ty_relid = 0, ty_elem = 0, ty_array = 0, ty_physical = duckdb_type\<rparr>"

definition ensure_type_id_for_duckdb_type :: "'p external \<Rightarrow> string \<Rightarrow> ('p, int) db" where
  "ensure_type_id_for_duckdb_type X duckdb_type = (case scalar_type_id_for_duckdb_type duckdb_type of
     Some type_id \<Rightarrow> creturn type_id
   | None \<Rightarrow>
       cbind (clift (validate_supported_complex_type duckdb_type)) (\<lambda>_.
       cbind (lookup_physical_type_id X duckdb_type) (\<lambda>existing. case existing of
         Some i \<Rightarrow> creturn i
       | None \<Rightarrow>
           cbind (allocate_oid X) (\<lambda>type_id.
           cbind (cexec X ''register complex DuckDB type failed'' (\<lambda>c. map_option (\<lambda>rows. c\<lparr>types := rows\<rparr>)
             (insert_type (complex_type_row type_id duckdb_type) (types c)))) (\<lambda>_.
           creturn type_id)))))"

section \<open>DECIMAL\<close>

lemma or_small:
  assumes "0 \<le> (s :: int)" "s < 65536"
  shows "push_bit 16 p OR s = p * 65536 + s"
proof -
  have t: "take_bit 16 s = s" using assms by (simp add: take_bit_int_eq_self_iff)
  have high: "\<not> bit s n" if "16 \<le> n" for n
  proof -
    have "bit s n = bit (take_bit 16 s) n" by (simp only: t)
    then show ?thesis using that by (simp only: bit_take_bit_iff) simp
  qed
  have "push_bit 16 p + s = push_bit 16 p OR s"
    by (rule disjunctive_add_eq_or) (rule bit_eqI, simp add: bit_simps, use high in blast)
  then show ?thesis by (simp add: push_bit_eq_mult)
qed

lemma modifier_roundtrip:
  assumes "1 \<le> p" "p \<le> 38" "s \<le> p"
  shows "decimal_precision_and_scale_from_modifier ((push_bit 16 (int p) OR int s) + TYPE_MODIFIER_HEADER_SIZE) = Some (p, s)"
proof -
  have enc: "push_bit 16 (int p) OR int s = int p * 65536 + int s" by (rule or_small) (use assms in auto)
  have mask: "x AND 0xffff = x mod 65536" for x :: int
    using take_bit_eq_mask [of 16 x] by (simp add: take_bit_eq_mod mask_eq_exp_minus_1)
  have "drop_bit 16 (int p * 65536 + int s) = int p" using assms by (simp add: drop_bit_eq_div)
  then show ?thesis
    using assms unfolding decimal_precision_and_scale_from_modifier_def enc
    by (simp add: mask TYPE_MODIFIER_HEADER_SIZE_def Let_def valid_decimal_def)
qed

text \<open>C33: Every DECIMAL the catalog accepts survives its type modifier: the modifier of the type text,
  read back with any physical type of the DECIMAL family, is the DECIMAL of the same precision and
  scale, and it is a valid modifier; a text that is no such DECIMAL has none.\<close>

theorem decimal_modifier_roundtrip:
  assumes "is_decimal_type physical"
  shows "case decimal_precision_and_scale t of
      Some (p, s) \<Rightarrow> duckdb_type_with_modifier physical (type_modifier_for_duckdb_type t) = decimal_text p s
        \<and> is_valid_type_modifier_for_duckdb_type physical (type_modifier_for_duckdb_type t)
    | None \<Rightarrow> type_modifier_for_duckdb_type t = - 1
        \<and> duckdb_type_with_modifier physical (type_modifier_for_duckdb_type t) = physical"
proof (cases "decimal_precision_and_scale t")
  case None
  then show ?thesis
    by (simp add: type_modifier_for_duckdb_type_def duckdb_type_with_modifier_def
        decimal_precision_and_scale_from_modifier_def TYPE_MODIFIER_HEADER_SIZE_def)
next
  case (Some ps)
  obtain p s where ps: "ps = (p, s)" by (cases ps)
  have "1 \<le> p" "p \<le> 38" "s \<le> p"
    using Some unfolding ps decimal_precision_and_scale_def
    by (auto simp: Let_def valid_decimal_def bind_eq_Some_conv split: if_splits)
  from modifier_roundtrip [OF this] show ?thesis
    using assms by (simp add: Some ps type_modifier_for_duckdb_type_def duckdb_type_with_modifier_def
        is_valid_type_modifier_for_duckdb_type_def)
qed

theorem decimal_modifier_roundtrip_witness:
  "duckdb_type_with_modifier ''DECIMAL'' (type_modifier_for_duckdb_type ''numeric( 38 , 10 )'') = ''DECIMAL(38,10)''"
proof -
  have "decimal_precision_and_scale ''numeric( 38 , 10 )'' = Some (38, 10)" "is_decimal_type ''DECIMAL''" by code_simp+
  with decimal_modifier_roundtrip [of "''DECIMAL''" "''numeric( 38 , 10 )''"]
  have "duckdb_type_with_modifier ''DECIMAL'' (type_modifier_for_duckdb_type ''numeric( 38 , 10 )'') = decimal_text 38 10" by simp
  moreover have "decimal_text 38 10 = ''DECIMAL(38,10)''" by code_simp
  ultimately show ?thesis by simp
qed

section \<open>Fixed float arrays\<close>

lemma find_char_last: "c \<notin> set b \<Longrightarrow> rfind_char c (a @ c # b) = Some (length a)"
  by (rule rfind_char_append)

text \<open>A fixed array of an ASCII spelling of FLOAT is accepted for exactly the dimensions from 1 to the
  largest machine integer, and the dimension read is the one written.\<close>

theorem float_array_dimension_exact:
  "fixed_float_array_dimension (''FLOAT['' @ show_nat n @ '']'') =
     (if n = 0 then Inl (EType (FixedArrayZero (''FLOAT['' @ show_nat n @ '']'')))
      else if n \<le> 2 ^ 64 - 1 then Inr n
      else Inl (EType (FixedArrayDimension (''FLOAT['' @ show_nat n @ '']''))))"
proof -
  let ?t = "''FLOAT['' @ show_nat n @ '']''"
  have no: "CHR ''['' \<notin> set (show_nat n @ '']'')"
    using not_digit_show_nat [of "CHR ''[''" n] by (simp add: is_digit_def)
  have t: "?t = ''FLOAT'' @ CHR ''['' # (show_nat n @ '']'')" by simp
  have r: "rfind_char (CHR ''['') ?t = Some 5"
    using rfind_char_append [OF no, of "''FLOAT''"] unfolding t by simp
  have el: "trim (take 5 ?t) = ''FLOAT''" "\<not> contains ''['' ''FLOAT''" "\<not> contains '']'' ''FLOAT''"
    "scalar_type_id_for_duckdb_type ''FLOAT'' = Some TYPE_FLOAT4"
    by code_simp+
  have dim: "take (length ?t - 1 - (5 + 1)) (drop (5 + 1) ?t) = show_nat n" by simp
  have dig: "list_all is_digit (show_nat n)" by (auto simp: list_all_iff show_nat_digits)
  show ?thesis
    unfolding fixed_float_array_dimension_def r option.case Let_def dim trim_show_nat el(1)
    using el(2-4) dig by (simp add: parse_unsigned_show_nat)
qed

section \<open>Registering complex types\<close>

lemma bind_fails: "(\<And>v s'. m s = (Inr v, s') \<Longrightarrow> \<exists>e. fst (f v s') = Inl e) \<Longrightarrow> \<exists>e. fst (cbind m f s) = Inl e"
  by (cases "m s" rule: prod.exhaust, cases "fst (m s)") (auto simp: cbind_def)

text \<open>Two complex types whose texts differ only in characters that the catalog name drops (letter case,
  punctuation or any non-ASCII character of a field name) cannot both be used: once one is registered,
  registering the other fails on every engine, and with it the statement that needs it.\<close>

theorem complex_type_names_collide:
  assumes "t \<in> set (types (cat s))" and "ty_name t = complex_typname b" and "ty_namespace t = RSDUCK_CATALOG_NS"
    and "\<And>u. u \<in> set (types (cat s)) \<Longrightarrow> ty_physical u \<noteq> b" and "scalar_type_id_for_duckdb_type b = None"
  shows "\<exists>e. fst (ensure_type_id_for_duckdb_type X b s) = Inl e"
  unfolding ensure_type_id_for_duckdb_type_def assms(5) option.case
proof (rule bind_fails, rule bind_fails)
  fix u s1 existing s2
  assume "clift (validate_supported_complex_type b) s = (Inr u, s1)" and look: "lookup_physical_type_id X b s1 = (Inr existing, s2)"
  then have s1: "cat s1 = cat s" by (auto simp: clift_def)
  from look have s2: "cat s2 = cat s" "existing = None"
    using assms(4) by (auto simp: lookup_physical_type_id_def cquery_def stmt_def s1 filter_empty_conv split: if_splits)
  show "\<exists>e. fst ((case existing of Some i \<Rightarrow> creturn i
       | None \<Rightarrow>
           cbind (allocate_oid X) (\<lambda>type_id.
           cbind (cexec X ''register complex DuckDB type failed'' (\<lambda>c. map_option (\<lambda>rows. c\<lparr>types := rows\<rparr>)
             (insert_type (complex_type_row type_id b) (types c)))) (\<lambda>_.
           creturn type_id))) s2) = Inl e"
    unfolding s2(2) option.case
  proof (rule bind_fails)
    fix i s3 assume "allocate_oid X s2 = (Inr i, s3)"
    with body_specD [OF sp_allocate [of "\<lambda>d. d = cat s" X], of s2] s2(1) have "cat s3 = bump (cat s)" by fastforce
    then have "insert_type (complex_type_row i b) (types (cat s3)) = None"
      using assms(1-3) by (auto simp: insert_type_def insert_row_def list_ex_iff complex_type_row_def intro!: bexI [of _ t])
    then show "\<exists>e. fst (cbind (cexec X ''register complex DuckDB type failed'' (\<lambda>c. map_option (\<lambda>rows. c\<lparr>types := rows\<rparr>)
             (insert_type (complex_type_row i b) (types c)))) (\<lambda>_. creturn i) s3) = Inl e"
      by (auto simp: cbind_def cexec_def stmt_def)
  qed
qed

theorem complex_type_names_collide_witness:
  "\<exists>e. fst (ensure_type_id_for_duckdb_type (sample_ext (one_parser SetStmt [])) ''STRUCT(A INTEGER)''
     (sample_conn (empty_catalog\<lparr>types := [complex_type_row 10000 ''STRUCT(a INTEGER)'']\<rparr>))) = Inl e"
proof (rule complex_type_names_collide)
  show "complex_type_row 10000 ''STRUCT(a INTEGER)''
      \<in> set (types (cat (sample_conn (empty_catalog\<lparr>types := [complex_type_row 10000 ''STRUCT(a INTEGER)'']\<rparr>))))"
    by (simp add: sample_conn_def)
  show "ty_name (complex_type_row 10000 ''STRUCT(a INTEGER)'') = complex_typname ''STRUCT(A INTEGER)''" by code_simp
  show "scalar_type_id_for_duckdb_type ''STRUCT(A INTEGER)'' = None" by code_simp
qed (auto simp: sample_conn_def complex_type_row_def)


section \<open>The rows after registering\<close>

definition type_registered :: "string \<Rightarrow> int \<Rightarrow> catalog \<Rightarrow> catalog \<Rightarrow> bool" where
  "type_registered t i c d \<longleftrightarrow> d = c \<or> (\<exists>ts. next_oid c = Some i
     \<and> insert_type (complex_type_row i t) (types c) = Some ts \<and> d = (bump c)\<lparr>types := ts\<rparr>)"

lemma sp_ensure_type:
  "body_spec A (ensure_type_id_for_duckdb_type X t) (\<lambda>i d. \<exists>c. A c \<and> type_registered t i c d)"
  unfolding ensure_type_id_for_duckdb_type_def lookup_physical_type_id_def
  by (rule body_option, rule body_bind [OF sp_lift], rule body_bind [OF sp_query], rule body_option,
      rule body_bind [OF sp_allocate], rule body_bind [OF sp_exec])
    (auto simp: type_registered_def intro!: body_return)

end
