(* ===== verification/Relation_Rows.thy ===== *)
theory Relation_Rows
  imports Type_Mapping "HOL-Library.Multiset"
begin

text \<open>
  What the invariant of the catalog says after rows of the relation tables come or go: types,
  relations, defaults and constraints carry identifiers, the other tables do not matter to it.
\<close>

section \<open>Identifiers as a multiset\<close>

lemma distinct_iff_count: "distinct xs \<longleftrightarrow> (\<forall>i. count (mset xs) i \<le> 1)"
proof
  assume "distinct xs"
  then show "\<forall>i. count (mset xs) i \<le> 1" by (simp add: distinct_count_atmost_1)
next
  assume "\<forall>i. count (mset xs) i \<le> 1"
  then have "count (mset xs) i = (if i \<in> set xs then 1 else 0)" for i
    using count_greater_eq_one_iff [of "mset xs" i] by (auto simp: not_in_iff le_Suc_eq Suc_le_eq dest: spec [of _ i])
  then show "distinct xs" by (simp add: distinct_count_atmost_1)
qed

lemma wf_oids_shrink:
  assumes "wf_oids c" "next_oid d = next_oid c" "mset (all_oids d) \<subseteq># mset (all_oids c)"
  shows "wf_oids d"
proof -
  have "distinct (all_oids d)"
    using wf_oids_distinct [OF assms(1)] assms(3)
    by (metis distinct_iff_count mset_subset_eq_count order.trans)
  moreover have "set (all_oids d) \<subseteq> set (all_oids c)" using assms(3) by (metis set_mset_mono set_mset_mset)
  ultimately show ?thesis by (intro wf_oids_subset [OF assms(2,1)])
qed

lemma wf_oids_grow:
  assumes "wf_oids c" "unused i c" "next_oid d = next_oid c" "mset (all_oids d) = add_mset i (mset (all_oids c))"
  shows "wf_oids d"
proof (rule wf_oids_intro [OF assms(3,1,2)])
  show "set (all_oids d) \<subseteq> insert i (set (all_oids c))"
    using assms(4) by (metis set_mset_add_mset_insert set_mset_mset subset_refl)
  have "mset (all_oids d) = mset (i # all_oids c)" using assms(4) by simp
  then have "distinct (all_oids d) = distinct (i # all_oids c)" by (rule mset_eq_imp_distinct_iff)
  then show "distinct (all_oids d)"
    using wf_oids_distinct [OF assms(1)] assms(2) by (simp add: unused_def)
qed

lemma mset_map_filter: "mset (map f (filter P xs)) \<subseteq># mset (map f xs)"
  by (simp add: image_mset_subseteq_mono)

section \<open>Tables the invariant does not mention\<close>

lemma wf_other [simp]:
  "wf_catalog (c\<lparr>cols := x1\<rparr>) = wf_catalog c" "wf_catalog (c\<lparr>indexes := x2\<rparr>) = wf_catalog c"
  "wf_catalog (c\<lparr>vectors := x3\<rparr>) = wf_catalog c" "wf_catalog (c\<lparr>depends := x4\<rparr>) = wf_catalog c"
  "wf_catalog (c\<lparr>exts := x5\<rparr>) = wf_catalog c" "wf_catalog (c\<lparr>parts := x6\<rparr>) = wf_catalog c"
  by (auto simp: wf_catalog_def wf_oids_def wf_keys_def wf_refs_def next_oid_def alloc_row_def all_oids_def version_row_def
      split: option.splits)

lemma wf_by_oids:
  "wf_catalog c \<Longrightarrow> wf_oids d \<Longrightarrow> wf_keys d = wf_keys c \<Longrightarrow> wf_refs d = wf_refs c \<Longrightarrow> version_row d = version_row c \<Longrightarrow>
   wf_catalog d"
  by (simp add: wf_catalog_def)

lemma keys_refs_other [simp]:
  "wf_keys (c\<lparr>types := ts\<rparr>) = wf_keys c" "wf_keys (c\<lparr>relations := rs\<rparr>) = wf_keys c"
  "wf_keys (c\<lparr>defaults := ds\<rparr>) = wf_keys c" "wf_keys (c\<lparr>constraints := cs\<rparr>) = wf_keys c"
  "wf_refs (c\<lparr>types := ts\<rparr>) = wf_refs c" "wf_refs (c\<lparr>relations := rs\<rparr>) = wf_refs c"
  "wf_refs (c\<lparr>defaults := ds\<rparr>) = wf_refs c" "wf_refs (c\<lparr>constraints := cs\<rparr>) = wf_refs c"
  "version_row (c\<lparr>types := ts\<rparr>) = version_row c" "version_row (c\<lparr>relations := rs\<rparr>) = version_row c"
  "version_row (c\<lparr>defaults := ds\<rparr>) = version_row c" "version_row (c\<lparr>constraints := cs\<rparr>) = version_row c"
  "next_oid (c\<lparr>types := ts\<rparr>) = next_oid c" "next_oid (c\<lparr>relations := rs\<rparr>) = next_oid c"
  "next_oid (c\<lparr>defaults := ds\<rparr>) = next_oid c" "next_oid (c\<lparr>constraints := cs\<rparr>) = next_oid c"
  by (simp_all add: wf_keys_def wf_refs_def version_row_def next_oid_def alloc_row_def)

section \<open>Rows gone\<close>

lemma wf_del_rows:
  assumes "wf_catalog c"
  shows "wf_catalog (c\<lparr>types := filter P1 (types c)\<rparr>)" "wf_catalog (c\<lparr>relations := filter P2 (relations c)\<rparr>)"
    "wf_catalog (c\<lparr>defaults := filter P3 (defaults c)\<rparr>)" "wf_catalog (c\<lparr>constraints := filter P4 (constraints c)\<rparr>)"
proof -
  have w: "wf_oids c" using assms by (simp add: wf_catalog_def)
  show "wf_catalog (c\<lparr>types := filter P1 (types c)\<rparr>)"
    by (rule wf_by_oids [OF assms], rule wf_oids_shrink [OF w])
      (simp_all add: all_oids_def image_mset_subseteq_mono subset_mset.add_mono)
  show "wf_catalog (c\<lparr>relations := filter P2 (relations c)\<rparr>)"
    by (rule wf_by_oids [OF assms], rule wf_oids_shrink [OF w])
      (simp_all add: all_oids_def image_mset_subseteq_mono subset_mset.add_mono)
  show "wf_catalog (c\<lparr>defaults := filter P3 (defaults c)\<rparr>)"
    by (rule wf_by_oids [OF assms], rule wf_oids_shrink [OF w])
      (simp_all add: all_oids_def image_mset_subseteq_mono subset_mset.add_mono)
  show "wf_catalog (c\<lparr>constraints := filter P4 (constraints c)\<rparr>)"
    by (rule wf_by_oids [OF assms], rule wf_oids_shrink [OF w])
      (simp_all add: all_oids_def image_mset_subseteq_mono subset_mset.add_mono)
qed

section \<open>Rows come\<close>

lemma wf_add_rows:
  assumes "wf_catalog c"
  shows "unused (ty_oid t) c \<Longrightarrow> wf_catalog (c\<lparr>types := types c @ [t]\<rparr>)"
    "unused (rel_oid r) c \<Longrightarrow> wf_catalog (c\<lparr>relations := relations c @ [r]\<rparr>)"
    "unused (def_oid d) c \<Longrightarrow> wf_catalog (c\<lparr>defaults := defaults c @ [d]\<rparr>)"
    "unused (con_oid k) c \<Longrightarrow> wf_catalog (c\<lparr>constraints := constraints c @ [k]\<rparr>)"
proof -
  have w: "wf_oids c" using assms by (simp add: wf_catalog_def)
  show "unused (ty_oid t) c \<Longrightarrow> wf_catalog (c\<lparr>types := types c @ [t]\<rparr>)"
    by (rule wf_by_oids [OF assms], rule wf_oids_grow [OF w]) (assumption | simp add: all_oids_def)+
  show "unused (rel_oid r) c \<Longrightarrow> wf_catalog (c\<lparr>relations := relations c @ [r]\<rparr>)"
    by (rule wf_by_oids [OF assms], rule wf_oids_grow [OF w]) (assumption | simp add: all_oids_def)+
  show "unused (def_oid d) c \<Longrightarrow> wf_catalog (c\<lparr>defaults := defaults c @ [d]\<rparr>)"
    by (rule wf_by_oids [OF assms], rule wf_oids_grow [OF w]) (assumption | simp add: all_oids_def)+
  show "unused (con_oid k) c \<Longrightarrow> wf_catalog (c\<lparr>constraints := constraints c @ [k]\<rparr>)"
    by (rule wf_by_oids [OF assms], rule wf_oids_grow [OF w]) (assumption | simp add: all_oids_def)+
qed

section \<open>Rows changed outside their identifier\<close>

lemma wf_update_relations:
  assumes "wf_catalog c" "\<And>r. rel_oid (f r) = rel_oid r"
  shows "wf_catalog (c\<lparr>relations := update_where P f (relations c)\<rparr>)"
proof -
  have "map rel_oid (update_where P f (relations c)) = map rel_oid (relations c)"
    using assms(2) by (simp add: map_update_where)
  then have "all_oids (c\<lparr>relations := update_where P f (relations c)\<rparr>) = all_oids c" by (simp add: all_oids_def)
  then have "wf_oids (c\<lparr>relations := update_where P f (relations c)\<rparr>)"
    using assms(1) by (auto simp: wf_catalog_def intro: iffD2 [OF wf_oids_cong])
  then show ?thesis by (rule wf_by_oids [OF assms(1)]) simp_all
qed

end
