(* ===== verification/Relations.thy ===== *)
theory Relations
  imports Schemas Relation_Rows
begin

text \<open>
  The rows of a relation: \<^verbatim>\<open>src/catalog/mutation/relation.rs\<close>, \<^verbatim>\<open>constraint.rs\<close> and the
  column part of \<^verbatim>\<open>src/catalog/lookup.rs\<close>. Columns are loaded from the engine's
  own listing, each with a catalog type that is registered when it is new; a relation is written
  as its row type, its row, its columns with their defaults and its extension row; a constraint
  with the dependencies its key lists imply. Main result: the key lists written are read back.
\<close>

section \<open>Columns\<close>

record catalog_column =
  cc_name :: string
  cc_type_id :: int
  cc_duckdb_type :: string
  cc_attnum :: int
  cc_not_null :: bool
  cc_default :: "string option"

text \<open>\<^verbatim>\<open>duckdb_columns()\<close>, ordered by the column index.\<close>

definition duckdb_columns :: "physical \<Rightarrow> string \<Rightarrow> string \<Rightarrow> duck_column list" where
  "duckdb_columns p schema relation = sort_key dc_index
     (map (\<lambda>(_, _, col). col) (filter (\<lambda>(s, r, _). s = schema \<and> r = relation) (ph_columns p)))"

definition load_column :: "'p external \<Rightarrow> duck_column \<Rightarrow> ('p, catalog_column) db" where
  "load_column X row = cbind (ensure_type_id_for_duckdb_type X (dc_type row)) (\<lambda>type_id.
     creturn \<lparr>cc_name = dc_name row, cc_type_id = type_id, cc_duckdb_type = dc_type row,
       cc_attnum = dc_index row, cc_not_null = (\<not> dc_nullable row), cc_default = dc_default row\<rparr>)"

definition load_duckdb_columns :: "'p external \<Rightarrow> string \<Rightarrow> string \<Rightarrow> ('p, catalog_column list) db" where
  "load_duckdb_columns X schema relation =
     cbind (cphys X ''query duckdb_columns failed'' (\<lambda>p. duckdb_columns p schema relation)) (\<lambda>rows.
     cbind (cmapM (load_column X) rows) (\<lambda>columns.
     if columns = [] then cthrow (EDdl (NoDuckColumns schema relation)) else creturn columns))"

text \<open>The stored columns with their types and defaults; types have unique identifiers and a column at
  most one default, so the joins yield each column at most once.\<close>

definition column_default_in :: "catalog \<Rightarrow> int \<Rightarrow> int \<Rightarrow> string option" where
  "column_default_in c rel attnum =
     map_option def_bin (first_of (filter (\<lambda>d. def_relid d = rel \<and> def_num d = attnum) (defaults c)))"

definition typed_column :: "catalog \<Rightarrow> rs_column \<Rightarrow> catalog_column option" where
  "typed_column c a = map_option (\<lambda>t. \<lparr>cc_name = att_name a, cc_type_id = att_typid a,
       cc_duckdb_type = duckdb_type_with_modifier (ty_physical t) (att_typmod a), cc_attnum = att_num a,
       cc_not_null = att_notnull a, cc_default = column_default_in c (att_relid a) (att_num a)\<rparr>)
     (first_of (filter (\<lambda>t. ty_oid t = att_typid a) (types c)))"

definition catalog_columns_in :: "catalog \<Rightarrow> int \<Rightarrow> catalog_column list" where
  "catalog_columns_in c rel = List.map_filter (typed_column c)
     (sort_key att_num (filter (\<lambda>a. att_relid a = rel \<and> \<not> att_isdropped a) (cols c)))"

definition catalog_columns :: "'p external \<Rightarrow> int \<Rightarrow> ('p, catalog_column list) db" where
  "catalog_columns X rel = cquery X ''query catalog columns failed'' (\<lambda>c. catalog_columns_in c rel)"

definition find_column :: "string \<Rightarrow> catalog_column list \<Rightarrow> catalog_column option" where
  "find_column name columns = List.find (\<lambda>col. eq_ignore_case (cc_name col) name) columns"

section \<open>Writing a relation\<close>

definition column_row :: "int \<Rightarrow> catalog_column \<Rightarrow> rs_column" where
  "column_row rel col = \<lparr>att_relid = rel, att_name = cc_name col, att_typid = cc_type_id col, att_num = cc_attnum col,
     att_typmod = type_modifier_for_duckdb_type (cc_duckdb_type col), att_notnull = cc_not_null col,
     att_hasdef = (cc_default col \<noteq> None), att_isdropped = False, att_identity = [], att_generated = [], att_options = []\<rparr>"

definition insert_attribute_row :: "'p external \<Rightarrow> int \<Rightarrow> catalog_column \<Rightarrow> ('p, unit) db" where
  "insert_attribute_row X rel column =
     cbind (cexec X ''write rs_column failed'' (\<lambda>c. map_option (\<lambda>rows. c\<lparr>cols := rows\<rparr>)
       (insert_column (column_row rel column) (cols c)))) (\<lambda>_.
     case cc_default column of
       None \<Rightarrow> creturn ()
     | Some default_expr \<Rightarrow>
         cbind (allocate_oid X) (\<lambda>default_oid.
         cexec X ''write rs_column_default failed'' (\<lambda>c. map_option (\<lambda>rows. c\<lparr>defaults := rows\<rparr>)
           (insert_default \<lparr>def_oid = default_oid, def_relid = rel, def_num = cc_attnum column,
              def_bin = default_expr\<rparr> (defaults c)))))"

definition row_type_row :: "int \<Rightarrow> int \<Rightarrow> int \<Rightarrow> string \<Rightarrow> int \<Rightarrow> rs_type" where
  "row_type_row type_oid rel_id namespace relation owner_user_id =
     \<lparr>ty_oid = type_oid, ty_name = relation, ty_namespace = namespace, ty_owner = owner_user_id, ty_len = - 1,
      ty_byval = False, ty_type = ''c'', ty_category = ''C'', ty_isdefined = True, ty_relid = rel_id, ty_elem = 0,
      ty_array = 0, ty_physical = ''STRUCT''\<rparr>"

definition relation_row :: "int \<Rightarrow> int \<Rightarrow> int \<Rightarrow> string \<Rightarrow> string \<Rightarrow> nat \<Rightarrow> int \<Rightarrow> rs_relation" where
  "relation_row rel_id type_oid namespace relation relkind natts owner_user_id =
     \<lparr>rel_oid = rel_id, rel_name = relation, rel_namespace = namespace, rel_type = type_oid, rel_owner = owner_user_id,
      rel_kind = relkind, rel_persistence = ''p'', rel_natts = int natts, rel_tuples = 0, rel_hasindex = False,
      rel_ispartition = False, rel_partbound = [], rel_options = [], rel_status = ''active'', rel_error = []\<rparr>"

definition relation_ext_row :: "int \<Rightarrow> string \<Rightarrow> string \<Rightarrow> string \<Rightarrow> rs_relation_ext" where
  "relation_ext_row rel_id managed_kind visibility generated_sql =
     \<lparr>ext_relid = rel_id, ext_managed_kind = managed_kind, ext_storage_mode = ''memory'', ext_visibility = visibility,
      ext_partition_key = [], ext_partition_key_type = [], ext_partition_unit = [], ext_retention_count = 0,
      ext_generated_sql = generated_sql, ext_properties = ''{}''\<rparr>"

definition insert_relation_rows ::
    "'p external \<Rightarrow> int \<Rightarrow> int \<Rightarrow> string \<Rightarrow> string \<Rightarrow> string \<Rightarrow> string \<Rightarrow> string \<Rightarrow> string \<Rightarrow> catalog_column list \<Rightarrow> int
     \<Rightarrow> ('p, unit) db" where
  "insert_relation_rows X rel_id type_oid schema relation relkind managed_kind visibility generated_sql columns
      owner_user_id =
     cbind (namespace_oid X schema) (\<lambda>namespace.
     cbind (cexec X ''write relation row type failed'' (\<lambda>c. map_option (\<lambda>rows. c\<lparr>types := rows\<rparr>)
       (insert_type (row_type_row type_oid rel_id namespace relation owner_user_id) (types c)))) (\<lambda>_.
     cbind (cexec X ''write rs_relation failed'' (\<lambda>c. map_option (\<lambda>rows. c\<lparr>relations := rows\<rparr>)
       (insert_relation (relation_row rel_id type_oid namespace relation relkind (length columns) owner_user_id)
          (relations c)))) (\<lambda>_.
     cbind (cforeach (insert_attribute_row X rel_id) columns) (\<lambda>_.
     cexec X ''write rs_relation_ext failed'' (\<lambda>c. map_option (\<lambda>rows. c\<lparr>exts := rows\<rparr>)
       (insert_ext (relation_ext_row rel_id managed_kind visibility generated_sql) (exts c)))))))"

definition update_partition_relation_ext ::
    "'p external \<Rightarrow> int \<Rightarrow> string \<Rightarrow> string \<Rightarrow> string \<Rightarrow> int \<Rightarrow> string \<Rightarrow> ('p, unit) db" where
  "update_partition_relation_ext X rel_id partition_key partition_key_type partition_unit retention_count generated_sql =
     cexec X ''update partition relation extension failed'' (\<lambda>c. Some (c\<lparr>exts := update_where (\<lambda>e. ext_relid e = rel_id)
       (\<lambda>e. e\<lparr>ext_partition_key := partition_key, ext_partition_key_type := partition_key_type,
          ext_partition_unit := partition_unit, ext_retention_count := retention_count,
          ext_generated_sql := generated_sql\<rparr>) (exts c)\<rparr>))"

section \<open>Key lists\<close>

text \<open>\<^verbatim>\<open>parse::<i32>\<close>\<close>

definition parse_i32 :: "string \<Rightarrow> int option" where
  "parse_i32 = parse_signed (- (2 ^ 31)) (2 ^ 31 - 1)"

definition parse_attnums :: "string \<Rightarrow> int list" where
  "parse_attnums v = List.map_filter (\<lambda>part. parse_i32 (trim part)) (split_by (\<lambda>c. c = CHR '','') v)"

definition parse_attnum_list :: "string \<Rightarrow> err + int list" where
  "parse_attnum_list attnums =
     (if trim attnums = [] then Inr []
      else rcollect (\<lambda>part. ok_or (parse_i32 (trim part)) (EDdl (BadAttnumList attnums)))
             (split_by (\<lambda>c. c = CHR '','') attnums))"

definition attnum_text :: "int list \<Rightarrow> string" where
  "attnum_text attnums = join '','' (map show_int attnums)"

definition key_column :: "catalog_column list \<Rightarrow> string \<Rightarrow> err + int" where
  "key_column columns column_name =
     (case find_column column_name columns of
        None \<Rightarrow> Inl (EDdl (UnknownConstraintColumn column_name))
      | Some column \<Rightarrow>
          if is_complex_duckdb_type (cc_duckdb_type column) then Inl (EDdl (ComplexConstraintColumn column_name))
          else Inr (cc_attnum column))"

definition index_columns_to_attnums :: "index_column list \<Rightarrow> catalog_column list \<Rightarrow> err + string" where
  "index_columns_to_attnums index_columns columns =
     rbind (rcollect (\<lambda>ic. key_column columns (ic_text ic)) index_columns) (\<lambda>attnums. Inr (attnum_text attnums))"

definition ident_columns_to_attnums :: "string list \<Rightarrow> catalog_column list \<Rightarrow> err + string" where
  "ident_columns_to_attnums idents columns =
     rbind (rcollect (key_column columns) idents) (\<lambda>attnums. Inr (attnum_text attnums))"

section \<open>Dependencies and constraints\<close>

definition dependency_row :: "int \<times> int \<times> int \<times> int \<times> int \<times> int \<Rightarrow> string \<Rightarrow> rs_dependency" where
  "dependency_row k deptype = (case k of (classid, objid, objsubid, refclassid, refobjid, refobjsubid) \<Rightarrow>
     \<lparr>dep_classid = classid, dep_objid = objid, dep_objsubid = objsubid, dep_refclassid = refclassid,
      dep_refobjid = refobjid, dep_refobjsubid = refobjsubid, dep_type = deptype\<rparr>)"

definition write_dependency :: "'p external \<Rightarrow> string \<Rightarrow> int \<times> int \<times> int \<times> int \<times> int \<times> int \<Rightarrow> string \<Rightarrow> ('p, unit) db" where
  "write_dependency X what k deptype = cexec X what (\<lambda>c. map_option (\<lambda>rows. c\<lparr>depends := rows\<rparr>)
     (insert_dependency (dependency_row k deptype) (depends c)))"

definition insert_depend_if_missing :: "'p external \<Rightarrow> int \<times> int \<times> int \<times> int \<times> int \<times> int \<Rightarrow> string \<Rightarrow> ('p, unit) db" where
  "insert_depend_if_missing X k deptype =
     cbind (cquery X ''check dependency failed'' (\<lambda>c. list_ex (\<lambda>d. dep_key d = k) (depends c))) (\<lambda>present.
     if present then creturn () else write_dependency X ''write dependency failed'' k deptype)"

definition constraint_dependency :: "'p external \<Rightarrow> int \<Rightarrow> int \<Rightarrow> int \<Rightarrow> ('p, unit) db" where
  "constraint_dependency X constraint_oid refobjid refobjsubid = insert_depend_if_missing X
     (OBJECT_CONSTRAINT_KIND, constraint_oid, 0, OBJECT_RELATION_KIND, refobjid, refobjsubid) ''n''"

definition insert_constraint_dependencies ::
    "'p external \<Rightarrow> int \<Rightarrow> int \<Rightarrow> string \<Rightarrow> int \<Rightarrow> string \<Rightarrow> ('p, unit) db" where
  "insert_constraint_dependencies X constraint_oid rel_id conkey confrelid confkey =
     cbind (constraint_dependency X constraint_oid rel_id 0) (\<lambda>_.
     cbind (cforeach (constraint_dependency X constraint_oid rel_id) (parse_attnums conkey)) (\<lambda>_.
     if confrelid > 0 then
       cbind (constraint_dependency X constraint_oid confrelid 0) (\<lambda>_.
       cforeach (constraint_dependency X constraint_oid confrelid) (parse_attnums confkey))
     else creturn ()))"

definition constraint_row :: "int \<Rightarrow> string \<Rightarrow> int \<Rightarrow> string \<Rightarrow> int \<Rightarrow> string \<Rightarrow> int \<Rightarrow> string \<Rightarrow> string \<Rightarrow> rs_constraint" where
  "constraint_row i conname namespace contype rel_id conkey confrelid confkey conbin =
     \<lparr>con_oid = i, con_name = conname, con_namespace = namespace, con_type = contype, con_relid = rel_id,
      con_indid = 0, con_key = conkey, con_frelid = confrelid, con_fkey = confkey, con_validated = True, con_bin = conbin\<rparr>"

definition insert_constraint ::
    "'p external \<Rightarrow> int \<Rightarrow> string \<Rightarrow> int \<Rightarrow> string \<Rightarrow> int \<Rightarrow> string \<Rightarrow> int \<Rightarrow> string \<Rightarrow> string \<Rightarrow> ('p, unit) db" where
  "insert_constraint X i conname namespace contype rel_id conkey confrelid confkey conbin =
     cbind (cexec X ''write rs_constraint failed'' (\<lambda>c. map_option (\<lambda>rows. c\<lparr>constraints := rows\<rparr>)
       (insert_constraint_row (constraint_row i conname namespace contype rel_id conkey confrelid confkey conbin)
          (constraints c)))) (\<lambda>_.
     insert_constraint_dependencies X i rel_id conkey confrelid confkey)"

definition foreign_key_reference :: "'p external \<Rightarrow> string \<Rightarrow> string \<Rightarrow> foreign_key \<Rightarrow> ('p, int \<times> string) db" where
  "foreign_key_reference X local_schema table fk =
     (if list_ex (\<lambda>given. given) (fk_options fk) then cthrow (EDdl FkOptions)
      else if fk_referred fk = [] then cthrow (EDdl FkNoColumns)
      else
        cbind (clift (relation_name_with_default (fk_foreign_table fk) local_schema)) (\<lambda>(foreign_schema, foreign_table).
        cbind (find_relation_meta X foreign_schema foreign_table) (\<lambda>found. case found of
          None \<Rightarrow> cthrow (EDdl (FkTableMissing foreign_schema foreign_table))
        | Some foreign_meta \<Rightarrow>
            if rm_relkind foreign_meta \<noteq> ''r'' then cthrow (EDdl (FkTableKind foreign_schema foreign_table))
            else
              cbind (catalog_columns X (rm_oid foreign_meta)) (\<lambda>foreign_columns.
              cbind (clift (ident_columns_to_attnums (fk_referred fk) foreign_columns)) (\<lambda>confkey.
              if fk_columns fk \<noteq> [] \<and> length (fk_columns fk) \<noteq> length (fk_referred fk)
              then cthrow (EDdl (FkCountMismatch table (length (fk_columns fk)) (length (fk_referred fk))))
              else creturn (rm_oid foreign_meta, confkey))))))"

section \<open>The constraints of CREATE TABLE\<close>

definition materialized :: "catalog_column list \<Rightarrow> nat \<Rightarrow> string \<Rightarrow> string \<Rightarrow> err + int" where
  "materialized columns idx what column_name =
     (if idx < length columns then Inr (cc_attnum (columns ! idx)) else Inl (EDdl (NotMaterialized what column_name)))"

definition insert_column_constraint ::
    "'p external \<Rightarrow> int \<Rightarrow> int \<Rightarrow> string \<Rightarrow> string \<Rightarrow> catalog_column list \<Rightarrow> nat \<Rightarrow> column_def \<Rightarrow> column_option_def \<Rightarrow> ('p, unit) db"
where
  "insert_column_constraint X rel_id namespace schema table columns idx column opt = (case co_option opt of
     PrimaryKey \<Rightarrow>
       cbind (allocate_oid X) (\<lambda>i.
       cbind (clift (materialized columns idx ''primary key'' (cd_name_text column))) (\<lambda>attnum.
       insert_constraint X i (case co_name opt of Some n \<Rightarrow> n | None \<Rightarrow> table @ ''_pkey'') namespace ''p'' rel_id
         (show_int attnum) 0 [] []))
   | ForeignKey fk \<Rightarrow>
       cbind (allocate_oid X) (\<lambda>i.
       cbind (clift (materialized columns idx ''foreign key'' (cd_name_text column))) (\<lambda>attnum.
       cbind (foreign_key_reference X schema table fk) (\<lambda>(foreign_relid, confkey).
       insert_constraint X i
         (case co_name opt of Some n \<Rightarrow> n | None \<Rightarrow> table @ ''_'' @ cd_name column @ ''_fkey'') namespace ''f'' rel_id
         (show_int attnum) foreign_relid confkey (fk_text fk))))
   | _ \<Rightarrow> creturn ())"

definition insert_table_constraint ::
    "'p external \<Rightarrow> int \<Rightarrow> int \<Rightarrow> string \<Rightarrow> string \<Rightarrow> catalog_column list \<Rightarrow> table_constraint \<Rightarrow> ('p, unit) db" where
  "insert_table_constraint X rel_id namespace schema table columns constr = (case constr of
     CPrimaryKey name key \<Rightarrow>
       cbind (allocate_oid X) (\<lambda>i.
       cbind (clift (index_columns_to_attnums key columns)) (\<lambda>conkey.
       insert_constraint X i (case name of Some n \<Rightarrow> n | None \<Rightarrow> table @ ''_pkey'') namespace ''p'' rel_id conkey 0 [] []))
   | CUnique name key \<Rightarrow>
       cbind (allocate_oid X) (\<lambda>i.
       cbind (clift (index_columns_to_attnums key columns)) (\<lambda>conkey.
       insert_constraint X i (case name of Some n \<Rightarrow> n | None \<Rightarrow> table @ ''_key'') namespace ''u'' rel_id conkey 0 [] []))
   | CCheck name expr \<Rightarrow>
       cbind (allocate_oid X) (\<lambda>i.
       insert_constraint X i (case name of Some n \<Rightarrow> n | None \<Rightarrow> table @ ''_check'') namespace ''c'' rel_id [] 0 [] expr)
   | CForeignKey fk \<Rightarrow>
       cbind (allocate_oid X) (\<lambda>i.
       cbind (clift (ident_columns_to_attnums (fk_columns fk) columns)) (\<lambda>conkey.
       cbind (foreign_key_reference X schema table fk) (\<lambda>(foreign_relid, confkey).
       insert_constraint X i (case fk_name fk of Some n \<Rightarrow> n | None \<Rightarrow> table @ ''_fkey'') namespace ''f'' rel_id conkey
         foreign_relid confkey (fk_text fk))))
   | CTOther \<Rightarrow> creturn ())"

definition insert_create_table_constraints ::
    "'p external \<Rightarrow> int \<Rightarrow> string \<Rightarrow> string \<Rightarrow> catalog_column list \<Rightarrow> create_table \<Rightarrow> ('p, unit) db" where
  "insert_create_table_constraints X rel_id schema table columns ct =
     cbind (namespace_oid X schema) (\<lambda>namespace.
     cbind (cforeach (\<lambda>(idx, column).
         cforeach (insert_column_constraint X rel_id namespace schema table columns idx column) (cd_options column))
       (enumerate 0 (ct_columns ct))) (\<lambda>_.
     cforeach (insert_table_constraint X rel_id namespace schema table columns) (ct_constraints ct)))"

end
