(* ===== verification/Integrity.thy ===== *)
theory Integrity
  imports Relations
begin

text \<open>
  The integrity checks of the start, \<^verbatim>\<open>validate_catalog_integrity\<close> of
  \<^verbatim>\<open>src/catalog/recovery.rs\<close>, and what the operations on relations must keep for them to
  pass. \<open>integral\<close> says that no check counts a row; \<open>sane\<close> adds what makes it
  an invariant of the operations: columns use types that belong to no relation, a relation's row
  type belongs to it alone, and a constraint's dependencies refer to its own relations. Main
  results: the checks pass exactly on the integral catalogs; each statement of the relation
  operations keeps \<open>sane\<close>.
\<close>

section \<open>The checks\<close>

definition count_bad :: "('r \<Rightarrow> bool) \<Rightarrow> 'r list \<Rightarrow> nat" where
  "count_bad P rows = length (filter P rows)"

text \<open>\<^verbatim>\<open>GROUP BY k HAVING COUNT(*) > 1\<close>\<close>

definition repeated :: "'k list \<Rightarrow> nat" where
  "repeated ks = length (filter (\<lambda>k. length (filter (\<lambda>x. x = k) ks) > 1) (remdups ks))"

definition active_names :: "(string \<Rightarrow> string) \<Rightarrow> catalog \<Rightarrow> (int \<times> string) list" where
  "active_names low c = map (\<lambda>r. (rel_namespace r, low (rel_name r))) (filter (\<lambda>r. rel_status r = ''active'') (relations c))"

definition catalog_classes :: "int list" where
  "catalog_classes = [OBJECT_RELATION_KIND, OBJECT_CONSTRAINT_KIND, OBJECT_SCHEMA_KIND]"

definition vector_metrics :: "string list" where
  "vector_metrics = [''cosine'', ''l2sq'', ''ip'']"

definition vector_build_statuses :: "string list" where
  "vector_build_statuses = [''pending'', ''building'', ''active'', ''rebuilding'', ''compacting'', ''stale'',
     ''failed'', ''unavailable'']"

definition valid_vector :: "rs_vector_index \<Rightarrow> bool" where
  "valid_vector v \<longleftrightarrow> \<not> (vx_dimension v \<le> 0 \<or> vx_metric v \<notin> set vector_metrics
     \<or> vx_build_status v \<notin> set vector_build_statuses)"

definition integrity_checks :: "(string \<Rightarrow> string) \<Rightarrow> (string \<times> (catalog \<Rightarrow> nat)) list" where
  "integrity_checks low =
     [(''rs_relation.relnamespace must reference rs_schema'',
         \<lambda>c. count_bad (\<lambda>r. rel_namespace r \<notin> sch_oid ` set (schemas c)) (relations c)),
      (''rs_column.attrelid must reference rs_relation'',
         \<lambda>c. count_bad (\<lambda>a. att_relid a \<notin> rel_oid ` set (relations c)) (cols c)),
      (''rs_column.atttypid must reference rs_type'',
         \<lambda>c. count_bad (\<lambda>a. att_typid a \<notin> ty_oid ` set (types c)) (cols c)),
      (''rs_vector_index.indexrelid must reference rs_index'',
         \<lambda>c. count_bad (\<lambda>v. vx_relid v \<notin> idx_relid ` set (indexes c)) (vectors c)),
      (''rs_vector_index definition and status must be valid'',
         \<lambda>c. count_bad (\<lambda>v. \<not> valid_vector v) (vectors c)),
      (''active relation names must be unique per namespace'', \<lambda>c. repeated (active_names low c)),
      (''rs_dependency classid/refclassid must reference supported catalog classes'',
         \<lambda>c. count_bad (\<lambda>d. dep_classid d \<notin> set catalog_classes \<or> dep_refclassid d \<notin> set catalog_classes) (depends c)),
      (''rs_dependency relation object must reference rs_relation'',
         \<lambda>c. count_bad (\<lambda>d. dep_classid d = OBJECT_RELATION_KIND \<and> dep_objid d \<notin> rel_oid ` set (relations c)) (depends c)),
      (''rs_dependency referenced relation object must reference rs_relation'',
         \<lambda>c. count_bad (\<lambda>d. dep_refclassid d = OBJECT_RELATION_KIND \<and> dep_refobjid d \<notin> rel_oid ` set (relations c)) (depends c)),
      (''rs_dependency constraint object must reference rs_constraint'',
         \<lambda>c. count_bad (\<lambda>d. dep_classid d = OBJECT_CONSTRAINT_KIND \<and> dep_objid d \<notin> con_oid ` set (constraints c)) (depends c)),
      (''rs_dependency referenced constraint object must reference rs_constraint'',
         \<lambda>c. count_bad (\<lambda>d. dep_refclassid d = OBJECT_CONSTRAINT_KIND \<and> dep_refobjid d \<notin> con_oid ` set (constraints c)) (depends c)),
      (''rs_dependency schema object must reference rs_schema'',
         \<lambda>c. count_bad (\<lambda>d. dep_classid d = OBJECT_SCHEMA_KIND \<and> dep_objid d \<notin> sch_oid ` set (schemas c)) (depends c)),
      (''rs_dependency referenced schema object must reference rs_schema'',
         \<lambda>c. count_bad (\<lambda>d. dep_refclassid d = OBJECT_SCHEMA_KIND \<and> dep_refobjid d \<notin> sch_oid ` set (schemas c)) (depends c))]"

definition ensure_catalog_count_zero :: "'p external \<Rightarrow> (catalog \<Rightarrow> nat) \<Rightarrow> string \<Rightarrow> ('p, unit) db" where
  "ensure_catalog_count_zero X q violation =
     cbind (cquery X ''catalog integrity check failed'' q) (\<lambda>count.
     if count = 0 then creturn () else cthrow (EStart (IntegrityViolation violation count)))"

definition validate_catalog_integrity :: "'p external \<Rightarrow> ('p, unit) db" where
  "validate_catalog_integrity X =
     cforeach (\<lambda>(violation, q). ensure_catalog_count_zero X q violation) (integrity_checks (x_lower X))"

definition integral :: "(string \<Rightarrow> string) \<Rightarrow> catalog \<Rightarrow> bool" where
  "integral low c \<longleftrightarrow> list_all (\<lambda>(_, q). q c = 0) (integrity_checks low)"

lemma count_bad_0: "count_bad P rows = 0 \<longleftrightarrow> (\<forall>r\<in>set rows. \<not> P r)"
  by (auto simp: count_bad_def filter_empty_conv)

lemma filter_eq_count: "length (filter (\<lambda>x. x = k) ks) = count_list ks k"
  by (induction ks) auto

lemma repeated_0: "repeated ks = 0 \<longleftrightarrow> distinct ks"
proof -
  have "distinct ks \<longleftrightarrow> (\<forall>k\<in>set ks. count_list ks k \<le> 1)"
  proof (induction ks)
    case (Cons x xs)
    have "(\<forall>k\<in>set (x # xs). count_list (x # xs) k \<le> 1) \<longleftrightarrow> count_list xs x = 0 \<and> (\<forall>k\<in>set xs. count_list xs k \<le> 1)"
      by (auto simp: count_list_0_iff)
    then show ?case using Cons by (simp add: count_list_0_iff)
  qed simp
  then show ?thesis
    by (auto simp: repeated_def filter_eq_count filter_empty_conv not_less)
qed

lemma integral_iff:
  "integral low c \<longleftrightarrow>
     (\<forall>r\<in>set (relations c). rel_namespace r \<in> sch_oid ` set (schemas c))
   \<and> (\<forall>a\<in>set (cols c). att_relid a \<in> rel_oid ` set (relations c) \<and> att_typid a \<in> ty_oid ` set (types c))
   \<and> (\<forall>v\<in>set (vectors c). vx_relid v \<in> idx_relid ` set (indexes c) \<and> valid_vector v)
   \<and> distinct (active_names low c)
   \<and> (\<forall>d\<in>set (depends c).
        dep_classid d \<in> set catalog_classes \<and> dep_refclassid d \<in> set catalog_classes
      \<and> (dep_classid d = OBJECT_RELATION_KIND \<longrightarrow> dep_objid d \<in> rel_oid ` set (relations c))
      \<and> (dep_refclassid d = OBJECT_RELATION_KIND \<longrightarrow> dep_refobjid d \<in> rel_oid ` set (relations c))
      \<and> (dep_classid d = OBJECT_CONSTRAINT_KIND \<longrightarrow> dep_objid d \<in> con_oid ` set (constraints c))
      \<and> (dep_refclassid d = OBJECT_CONSTRAINT_KIND \<longrightarrow> dep_refobjid d \<in> con_oid ` set (constraints c))
      \<and> (dep_classid d = OBJECT_SCHEMA_KIND \<longrightarrow> dep_objid d \<in> sch_oid ` set (schemas c))
      \<and> (dep_refclassid d = OBJECT_SCHEMA_KIND \<longrightarrow> dep_refobjid d \<in> sch_oid ` set (schemas c)))"
  by (simp only: integral_def integrity_checks_def list.pred_inject split_conv count_bad_0 repeated_0 ball_conj_distrib
      de_Morgan_disj de_Morgan_conj not_not imp_conv_disj simp_thms conj_assoc)

section \<open>The invariant of the relation tables\<close>

definition scalar_type_ids :: "int list" where
  "scalar_type_ids = [TYPE_BOOL, TYPE_INT8, TYPE_INT2, TYPE_INT4, TYPE_TEXT, TYPE_FLOAT4, TYPE_FLOAT8, TYPE_VARCHAR,
     TYPE_DATE, TYPE_TIME, TYPE_TIMESTAMP, TYPE_NUMERIC]"

text \<open>A type a column may have: registered, and not the row type of a relation.\<close>

definition column_type :: "catalog \<Rightarrow> int \<Rightarrow> bool" where
  "column_type c i \<longleftrightarrow> (\<exists>t\<in>set (types c). ty_oid t = i \<and> ty_relid t = 0)"

definition types_ok :: "catalog \<Rightarrow> bool" where
  "types_ok c \<longleftrightarrow> (\<forall>i\<in>set scalar_type_ids. column_type c i)
     \<and> (\<forall>a\<in>set (cols c). column_type c (att_typid a))
     \<and> (\<forall>t\<in>set (types c). ty_oid t \<noteq> 0 \<and> (ty_relid t \<noteq> 0 \<longrightarrow> ty_physical t = ''STRUCT''))
     \<and> (\<forall>r\<in>set (relations c). rel_oid r \<noteq> 0 \<and> (rel_type r = 0 \<or> rel_type r \<in> ty_oid ` set (types c))
          \<and> (\<forall>t\<in>set (types c). ty_oid t = rel_type r \<longrightarrow> ty_relid t = rel_oid r))"

definition constraint_refs :: "rs_constraint \<Rightarrow> int set" where
  "constraint_refs k = {con_relid k} \<union> (if con_frelid k > 0 then {con_frelid k} else {})"

definition deps_ok :: "catalog \<Rightarrow> bool" where
  "deps_ok c \<longleftrightarrow> (\<forall>d\<in>set (depends c).
       dep_classid d \<in> {OBJECT_RELATION_KIND, OBJECT_CONSTRAINT_KIND} \<and> dep_refclassid d = OBJECT_RELATION_KIND
     \<and> (dep_classid d = OBJECT_CONSTRAINT_KIND \<longrightarrow>
          (\<exists>k\<in>set (constraints c). con_oid k = dep_objid d \<and> dep_refobjid d \<in> constraint_refs k)))"

definition sane :: "(string \<Rightarrow> string) \<Rightarrow> catalog \<Rightarrow> bool" where
  "sane low c \<longleftrightarrow> integral low c \<and> types_ok c \<and> deps_ok c"

text \<open>What an operation may rely on between its statements: \<open>b\<close> selects whether \<open>sane\<close>
  is kept besides the catalog invariant, \<open>S\<close> are identifiers handed out and not used yet,
  \<open>F\<close> is what the operation knows of the tables it does not own, \<open>G\<close> what it has
  learnt of types and constraints, which only grow.\<close>

definition pool :: "int list \<Rightarrow> catalog \<Rightarrow> bool" where
  "pool S c \<longleftrightarrow> distinct S \<and> (\<forall>i\<in>set S. unused i c)"

definition work :: "bool \<Rightarrow> (string \<Rightarrow> string) \<Rightarrow> (catalog \<Rightarrow> bool) \<Rightarrow> (catalog \<Rightarrow> bool) \<Rightarrow> int list \<Rightarrow> catalog \<Rightarrow> bool" where
  "work b low F G S c \<longleftrightarrow> wf_catalog c \<and> (b \<longrightarrow> sane low c) \<and> pool S c \<and> F c \<and> G c"

definition lasting :: "(catalog \<Rightarrow> bool) \<Rightarrow> bool" where
  "lasting G \<longleftrightarrow> (\<forall>c d. set (types c) \<subseteq> set (types d) \<longrightarrow> set (constraints c) \<subseteq> set (constraints d) \<longrightarrow> G c \<longrightarrow> G d)"

definition core :: "int \<Rightarrow> catalog \<Rightarrow> catalog" where
  "core rid c = c\<lparr>versions := [], allocs := [], journal := [], types := [], depends := [],
     cols := filter (\<lambda>a. att_relid a \<noteq> rid) (cols c), defaults := filter (\<lambda>d. def_relid d \<noteq> rid) (defaults c),
     constraints := filter (\<lambda>k. con_relid k \<noteq> rid) (constraints c), exts := filter (\<lambda>e. ext_relid e \<noteq> rid) (exts c)\<rparr>"

text \<open>\<open>steady rid F\<close>: \<open>F\<close> speaks of the schemas, the relations and what belongs to relations other
  than \<open>rid\<close>, not of the allocator, the journal, the types and the dependencies.\<close>

definition steady :: "int \<Rightarrow> (catalog \<Rightarrow> bool) \<Rightarrow> bool" where
  "steady rid F \<longleftrightarrow> (\<forall>c d. core rid c = core rid d \<longrightarrow> F c = F d)"

lemma steadyD: "steady rid F \<Longrightarrow> core rid d = core rid c \<Longrightarrow> F c \<Longrightarrow> F d"
  unfolding steady_def by blast

lemma steadyI: "(\<And>c. F c = G (core rid c)) \<Longrightarrow> steady rid F"
  by (simp add: steady_def)

lemma steady_conj [intro]: "steady rid F \<Longrightarrow> steady rid G \<Longrightarrow> steady rid (\<lambda>c. F c \<and> G c)"
  unfolding steady_def by blast

lemma core_simps [simp]:
  "core rid (c\<lparr>versions := v\<rparr>) = core rid c" "core rid (c\<lparr>allocs := a\<rparr>) = core rid c"
  "core rid (c\<lparr>journal := j\<rparr>) = core rid c" "core rid (c\<lparr>types := ts\<rparr>) = core rid c"
  "core rid (c\<lparr>depends := ds\<rparr>) = core rid c"
  "schemas (core rid c) = schemas c" "relations (core rid c) = relations c" "remarks (core rid c) = remarks c"
  "indexes (core rid c) = indexes c" "vectors (core rid c) = vectors c" "parts (core rid c) = parts c"
  "users (core rid c) = users c" "roles (core rid c) = roles c" "user_roles (core rid c) = user_roles c"
  "privileges (core rid c) = privileges c"
  by (simp_all add: core_def)

lemma core_bump [simp]: "core rid (bump c) = core rid c"
  by (simp add: bump_def)

lemma core_update_version [simp]: "core rid (update_version f c) = core rid c"
  by (simp add: update_version_def)

lemma core_journal [simp]: "core rid (open_journal m t r c) = core rid c" "core rid (close_journal F j c) = core rid c"
  by (simp_all add: open_journal_def close_journal_def seal_def)

subsection \<open>Tables the invariant does not mention\<close>

lemma sane_other [simp]:
  "sane low (c\<lparr>versions := v\<rparr>) = sane low c" "sane low (c\<lparr>allocs := a\<rparr>) = sane low c"
  "sane low (c\<lparr>journal := j\<rparr>) = sane low c" "sane low (c\<lparr>defaults := df\<rparr>) = sane low c"
  "sane low (c\<lparr>remarks := rm\<rparr>) = sane low c" "sane low (c\<lparr>exts := es\<rparr>) = sane low c"
  "sane low (c\<lparr>parts := ps\<rparr>) = sane low c" "sane low (c\<lparr>users := us\<rparr>) = sane low c"
  "sane low (c\<lparr>roles := rs\<rparr>) = sane low c" "sane low (c\<lparr>user_roles := ur\<rparr>) = sane low c"
  "sane low (c\<lparr>privileges := pv\<rparr>) = sane low c"
  by (simp_all add: sane_def integral_iff types_ok_def deps_ok_def column_type_def active_names_def)

lemma sane_bump [simp]: "sane low (bump c) = sane low c"
  by (simp add: bump_def)

lemma sane_update_version [simp]: "sane low (update_version f c) = sane low c"
  by (simp add: update_version_def)

lemma sane_journal [simp]:
  "sane low (open_journal m t r c) = sane low c" "sane low (close_journal F j c) = sane low c"
  "sane low (seal F c) = sane low c"
  by (simp_all add: open_journal_def close_journal_def seal_def)

lemma all_oids_free [simp]:
  "all_oids (c\<lparr>cols := x1\<rparr>) = all_oids c" "all_oids (c\<lparr>indexes := x2\<rparr>) = all_oids c"
  "all_oids (c\<lparr>vectors := x3\<rparr>) = all_oids c" "all_oids (c\<lparr>depends := x4\<rparr>) = all_oids c"
  "all_oids (c\<lparr>exts := x5\<rparr>) = all_oids c" "all_oids (c\<lparr>parts := x6\<rparr>) = all_oids c"
  by (simp_all add: all_oids_def)

lemma next_oid_free [simp]:
  "next_oid (c\<lparr>cols := x1\<rparr>) = next_oid c" "next_oid (c\<lparr>indexes := x2\<rparr>) = next_oid c"
  "next_oid (c\<lparr>vectors := x3\<rparr>) = next_oid c" "next_oid (c\<lparr>depends := x4\<rparr>) = next_oid c"
  "next_oid (c\<lparr>exts := x5\<rparr>) = next_oid c" "next_oid (c\<lparr>parts := x6\<rparr>) = next_oid c"
  by (simp_all add: next_oid_def alloc_row_def)

lemma unused_other [simp]:
  "unused i (c\<lparr>cols := x1\<rparr>) = unused i c" "unused i (c\<lparr>indexes := x2\<rparr>) = unused i c"
  "unused i (c\<lparr>vectors := x3\<rparr>) = unused i c" "unused i (c\<lparr>depends := x4\<rparr>) = unused i c"
  "unused i (c\<lparr>exts := x5\<rparr>) = unused i c" "unused i (c\<lparr>parts := x6\<rparr>) = unused i c"
  "unused i (c\<lparr>remarks := x7\<rparr>) = unused i c" "unused i (c\<lparr>user_roles := x8\<rparr>) = unused i c"
  by (simp_all add: unused_def)

lemma unused_added:
  "unused i c \<Longrightarrow> i \<noteq> ty_oid t \<Longrightarrow> unused i (c\<lparr>types := types c @ [t]\<rparr>)"
  "unused i c \<Longrightarrow> i \<noteq> rel_oid r \<Longrightarrow> unused i (c\<lparr>relations := relations c @ [r]\<rparr>)"
  "unused i c \<Longrightarrow> i \<noteq> def_oid d \<Longrightarrow> unused i (c\<lparr>defaults := defaults c @ [d]\<rparr>)"
  "unused i c \<Longrightarrow> i \<noteq> con_oid k \<Longrightarrow> unused i (c\<lparr>constraints := constraints c @ [k]\<rparr>)"
  by (auto simp: unused_def all_oids_def split: option.splits)

lemma unused_less:
  assumes "unused i c" "set (all_oids d) \<subseteq> set (all_oids c)" "next_oid d = next_oid c"
  shows "unused i d"
  using assms by (auto simp: unused_def split: option.splits)

lemma lastingD:
  "lasting G \<Longrightarrow> G c \<Longrightarrow> set (types c) \<subseteq> set (types d) \<Longrightarrow> set (constraints c) \<subseteq> set (constraints d) \<Longrightarrow> G d"
  unfolding lasting_def by blast

named_theorems lasting "knowledge that lasts"

lemma lasting_True [lasting]: "lasting (\<lambda>_. True)"
  by (simp add: lasting_def)

lemma lasting_conj [lasting]: "lasting G \<Longrightarrow> lasting H \<Longrightarrow> lasting (\<lambda>c. G c \<and> H c)"
  unfolding lasting_def by blast

lemma lasting_imp [lasting]: "lasting G \<Longrightarrow> lasting (\<lambda>c. b \<longrightarrow> G c)"
  unfolding lasting_def by blast

lemma lasting_ball [lasting]: "(\<And>v. v \<in> A \<Longrightarrow> lasting (G v)) \<Longrightarrow> lasting (\<lambda>c. \<forall>v\<in>A. G v c)"
  unfolding lasting_def by blast

lemma lasting_column_type [lasting]: "lasting (\<lambda>c. column_type c i)"
  unfolding lasting_def column_type_def by blast

lemma lasting_constraint [lasting]: "lasting (\<lambda>c. k \<in> set (constraints c))"
  unfolding lasting_def by blast

section \<open>Statements that keep the invariant\<close>

named_theorems work "statements that keep the invariant"

lemma workD:
  "work b low F G S c \<Longrightarrow> wf_catalog c" "work b low F G S c \<Longrightarrow> b \<Longrightarrow> sane low c" "work b low F G S c \<Longrightarrow> pool S c"
  "work b low F G S c \<Longrightarrow> F c" "work b low F G S c \<Longrightarrow> G c"
  by (simp_all add: work_def)

lemma pool_bump: "pool S c \<Longrightarrow> wf_catalog c \<Longrightarrow> next_oid c = Some i \<Longrightarrow> pool (i # S) (bump c)"
  by (auto simp: pool_def unused_next) (auto simp: unused_def)

lemma pool_open: "pool S c \<Longrightarrow> next_oid c \<noteq> None \<Longrightarrow> pool S (open_journal m t r c)"
  by (auto simp: pool_def)

lemma unused_close [simp]: "unused i (close_journal F j c) = unused i c"
  by (simp add: unused_def)

lemma wf_next: "wf_catalog c \<Longrightarrow> next_oid c \<noteq> None"
  by (auto simp: wf_catalog_def wf_oids_def split: option.splits)

lemma work_allocate [work]:
  assumes "steady rid F" "lasting G"
  shows "body_spec (work b low F G S) (allocate_oid X) (\<lambda>i. work b low F G (i # S))"
  by (rule body_post [OF sp_allocate])
    (auto simp: work_def pool_bump intro: steadyD [OF assms(1)] lastingD [OF assms(2)])

lemma work_journal [work]:
  assumes "steady rid F" "lasting G"
  shows "body_spec (work b low F G S) (insert_journal X m t r) (\<lambda>_. work b low F G S)"
  by (rule body_post [OF sp_insert_journal])
    (auto simp: work_def intro: pool_open steadyD [OF assms(1)] lastingD [OF assms(2)])

lemma work_finish [work]:
  assumes "steady rid F" "lasting G"
  shows "body_spec (work b low F G S) (finish_journal X j) (\<lambda>_ c. work b low F G S c \<and> good (x_fmt X) c)"
  by (rule body_post [OF sp_finish_journal])
    (auto simp: work_def good_close pool_def intro: steadyD [OF assms(1)] lastingD [OF assms(2)])

lemma work_read: "read_only m \<Longrightarrow> body_spec (work b low F G S) m (\<lambda>_. work b low F G S)"
  by (rule body_read_only)

lemma work_ddl [work]: "body_spec (work b low F G S) (cddl X w sql) (\<lambda>_. work b low F G S)"
  by (rule body_ddl)

subsection \<open>Types\<close>

lemma struct_no_complex: "validate_supported_complex_type ''STRUCT'' \<noteq> Inr ()"
  by code_simp

lemma scalar_id: "scalar_type_id_for_duckdb_type t = Some i \<Longrightarrow> i \<in> set scalar_type_ids"
  by (auto simp: scalar_type_id_for_duckdb_type_def scalar_type_ids_def Let_def split: if_splits)

lemma sane_add_type:
  assumes s: "sane low c" and n: "ty_oid t \<notin> ty_oid ` set (types c)" "ty_oid t \<noteq> 0" "ty_relid t \<noteq> 0 \<longrightarrow> ty_physical t = ''STRUCT''"
  shows "sane low (c\<lparr>types := types c @ [t]\<rparr>)"
proof -
  have "integral low (c\<lparr>types := types c @ [t]\<rparr>)"
    using s unfolding sane_def integral_iff by (auto simp: active_names_def)
  moreover have "types_ok (c\<lparr>types := types c @ [t]\<rparr>)"
    using s n unfolding sane_def types_ok_def by (auto simp: column_type_def)
  moreover have "deps_ok (c\<lparr>types := types c @ [t]\<rparr>)" using s by (simp add: sane_def deps_ok_def)
  ultimately show ?thesis by (simp add: sane_def)
qed

lemma unused_no_type: "unused i c \<Longrightarrow> i \<notin> ty_oid ` set (types c)" "unused i c \<Longrightarrow> i \<noteq> 0"
  by (auto simp: unused_def all_oids_def FIRST_USER_OID_def)

lemma work_add_type:
  assumes "work b low F G (ty_oid t # S) c" "steady rid F" "lasting G" "ty_relid t \<noteq> 0 \<longrightarrow> ty_physical t = ''STRUCT''"
  shows "work b low F G S (c\<lparr>types := types c @ [t]\<rparr>)"
proof -
  have p: "pool (ty_oid t # S) c" using assms(1) by (rule workD)
  then have u: "unused (ty_oid t) c" by (simp add: pool_def)
  have "pool S (c\<lparr>types := types c @ [t]\<rparr>)"
    using p by (auto simp: pool_def intro!: unused_added)
  moreover have "sane low c \<Longrightarrow> sane low (c\<lparr>types := types c @ [t]\<rparr>)"
    using unused_no_type [OF u] assms(4) by (intro sane_add_type) simp_all
  ultimately show ?thesis
    using assms(1) u by (auto simp: work_def wf_add_rows intro: steadyD [OF assms(2)] lastingD [OF assms(3)])
qed

lemma sane_scalar: "sane low c \<Longrightarrow> i \<in> set scalar_type_ids \<Longrightarrow> column_type c i"
  by (simp add: sane_def types_ok_def)

lemma sane_complex:
  assumes "sane low c" "t \<in> set (types c)" "validate_supported_complex_type (ty_physical t) = Inr ()"
  shows "column_type c (ty_oid t)"
  using assms struct_no_complex unfolding sane_def types_ok_def column_type_def by force

lemma work_ensure_type [work]:
  assumes st: "steady rid F" and ls: "lasting G"
  shows "body_spec (work b low F G S) (ensure_type_id_for_duckdb_type X t)
     (\<lambda>i. work b low F (\<lambda>c. G c \<and> (b \<longrightarrow> column_type c i)) S)"
proof (cases "scalar_type_id_for_duckdb_type t")
  case (Some i)
  then show ?thesis
    unfolding ensure_type_id_for_duckdb_type_def
    using sane_scalar [OF _ scalar_id [OF Some]] by (auto simp: work_def intro!: body_return)
next
  case None
  let ?I = "work b low F G S"
  have found: "body_spec (\<lambda>c. (?I c \<and> validate_supported_complex_type t = Inr ()) \<and> Some i = map_option ty_oid
        (first_of (filter (\<lambda>t'. ty_physical t' = t) (types c)))) (creturn i) (\<lambda>i. work b low F (\<lambda>c. G c \<and> (b \<longrightarrow> column_type c i)) S)" for i
    by (rule body_return) (auto simp: work_def Some_eq_map_option dest!: first_of_in intro!: sane_complex)
  have add: "body_spec (work b low F G (i # S)) (cbind (cexec X w (\<lambda>c. map_option (\<lambda>rows. c\<lparr>types := rows\<rparr>)
        (insert_type (complex_type_row i t) (types c)))) (\<lambda>_. creturn i))
      (\<lambda>i. work b low F (\<lambda>c. G c \<and> (b \<longrightarrow> column_type c i)) S)" for i w
  proof (rule body_bind [OF body_exec, of _ _ "\<lambda>_. work b low F (\<lambda>c. G c \<and> (b \<longrightarrow> column_type c i)) S"])
    fix c d assume c: "work b low F G (i # S) c"
      and g: "map_option (\<lambda>rows. c\<lparr>types := rows\<rparr>) (insert_type (complex_type_row i t) (types c)) = Some d"
    then have d: "d = c\<lparr>types := types c @ [complex_type_row i t]\<rparr>" by (auto dest: type_oids.ins_appends)
    have o: "ty_oid (complex_type_row i t) = i" "ty_relid (complex_type_row i t) = 0" by (simp_all add: complex_type_row_def)
    have "work b low F G S d" unfolding d by (rule work_add_type [OF _ st ls]) (use c o in simp_all)
    moreover have "column_type d i" unfolding d column_type_def using o by auto
    ultimately show "work b low F (\<lambda>c. G c \<and> (b \<longrightarrow> column_type c i)) S d" by (simp add: work_def)
  qed (rule body_return)
  show ?thesis
    unfolding ensure_type_id_for_duckdb_type_def lookup_physical_type_id_def None option.case
    by (rule body_bind [OF sp_lift], rule body_bind [OF sp_query], rule body_option,
        rule body_conseq [where A' = ?I], rule body_bind [OF work_allocate [OF st ls] add])
      (auto intro: body_conseq [OF found])
qed

lemma work_mapM:
  assumes "\<And>x H. x \<in> set xs \<Longrightarrow> lasting H \<Longrightarrow> body_spec (work b low F H S) (f x) (\<lambda>v. work b low F (\<lambda>c. H c \<and> P v c) S)"
    and "lasting G" and P: "\<And>v. lasting (P v)"
  shows "body_spec (work b low F G S) (cmapM f xs) (\<lambda>vs. work b low F (\<lambda>c. G c \<and> (\<forall>v\<in>set vs. P v c)) S)"
  using assms(1,2)
proof (induction xs arbitrary: G)
  case (Cons x xs)
  have l: "lasting (\<lambda>c. G c \<and> P v c)" for v using Cons.prems(2) P by (rule lasting_conj)
  have "body_spec (work b low F (\<lambda>c. G c \<and> P v c) S) (cmapM f xs)
      (\<lambda>vs. work b low F (\<lambda>c. (G c \<and> P v c) \<and> (\<forall>v\<in>set vs. P v c)) S)" for v
    by (rule Cons.IH [OF _ l]) (use Cons.prems(1) in simp_all)
  note tail = this
  have head: "body_spec (work b low F G S) (f x) (\<lambda>v. work b low F (\<lambda>c. G c \<and> P v c) S)"
    using Cons.prems by simp
  show ?case
    unfolding cmapM.simps
    by (rule body_bind [OF head], rule body_bind [OF tail], rule body_return) (auto simp: work_def)
qed (auto simp: work_def intro: body_return)

lemma work_load_columns [work]:
  assumes st: "steady rid F" and ls: "lasting G"
  shows "body_spec (work b low F G S) (load_duckdb_columns X schema relation)
     (\<lambda>columns. work b low F (\<lambda>c. G c \<and> (\<forall>col\<in>set columns. b \<longrightarrow> column_type c (cc_type_id col))) S)"
proof -
  have one: "body_spec (work b low F H S) (load_column X row)
      (\<lambda>col. work b low F (\<lambda>c. H c \<and> (b \<longrightarrow> column_type c (cc_type_id col))) S)" if "lasting H" for row H
    unfolding load_column_def by (rule body_bind [OF work_ensure_type [OF st that]], rule body_return) simp
  have l: "lasting (\<lambda>c. b \<longrightarrow> column_type c (cc_type_id v))" for v :: catalog_column by (intro lasting)
  show ?thesis
    unfolding load_duckdb_columns_def
    by (rule body_bind [OF sp_phys], rule body_bind [OF work_mapM [OF one ls l]])
      (auto intro: body_rules)
qed

end
