(* ===== verification/Relation_Steps.thy ===== *)
theory Relation_Steps
  imports Integrity
begin

text \<open>
  The steps that build a relation, each shown to keep the invariant of \<open>Integrity\<close>: columns
  and their defaults, the relation with its row type, constraints and dependencies. A CREATE of a
  relation is a chain of these rules.
\<close>

section \<open>Rows that keep the catalog sane\<close>

definition rel_ids :: "catalog \<Rightarrow> int set" where
  "rel_ids c = rel_oid ` set (relations c)"

lemma rel_ids_same [simp]:
  "rel_ids (c\<lparr>types := x1\<rparr>) = rel_ids c" "rel_ids (c\<lparr>cols := x2\<rparr>) = rel_ids c" "rel_ids (c\<lparr>depends := x3\<rparr>) = rel_ids c"
  "rel_ids (c\<lparr>constraints := x4\<rparr>) = rel_ids c" "rel_ids (c\<lparr>relations := rs\<rparr>) = rel_oid ` set rs"
  by (simp_all add: rel_ids_def)

lemma column_type_registered: "column_type c i \<Longrightarrow> i \<in> ty_oid ` set (types c)"
  by (auto simp: column_type_def)

lemma sane_add_column:
  assumes "sane low c" "att_relid a \<in> rel_ids c" "column_type c (att_typid a)"
  shows "sane low (c\<lparr>cols := cols c @ [a]\<rparr>)"
proof -
  have "integral low (c\<lparr>cols := cols c @ [a]\<rparr>)"
    using assms column_type_registered [OF assms(3)] unfolding sane_def integral_iff by (auto simp: active_names_def rel_ids_def)
  moreover have "types_ok (c\<lparr>cols := cols c @ [a]\<rparr>)"
    using assms by (auto simp: sane_def types_ok_def column_type_def)
  ultimately show ?thesis using assms(1) by (simp add: sane_def deps_ok_def)
qed

lemma sane_add_constraint:
  assumes "sane low c"
  shows "sane low (c\<lparr>constraints := constraints c @ [k]\<rparr>)"
proof -
  have "integral low (c\<lparr>constraints := constraints c @ [k]\<rparr>)"
    using assms unfolding sane_def integral_iff by (auto simp: active_names_def)
  moreover have "deps_ok (c\<lparr>constraints := constraints c @ [k]\<rparr>)"
    using assms by (auto simp: sane_def deps_ok_def)
  ultimately show ?thesis using assms(1) by (simp add: sane_def types_ok_def column_type_def)
qed

lemma sane_add_relation:
  assumes "sane low c" "rel_namespace r \<in> sch_oid ` set (schemas c)"
    and "(rel_namespace r, low (rel_name r)) \<notin> set (active_names low c)" "rel_oid r \<noteq> 0"
    and "rel_type r = 0 \<or> rel_type r \<in> ty_oid ` set (types c)"
    and "\<forall>t\<in>set (types c). ty_oid t = rel_type r \<longrightarrow> ty_relid t = rel_oid r"
  shows "sane low (c\<lparr>relations := relations c @ [r]\<rparr>)"
proof -
  have "distinct (active_names low (c\<lparr>relations := relations c @ [r]\<rparr>))"
    using assms(1,3) by (simp add: sane_def integral_iff active_names_def)
  then have "integral low (c\<lparr>relations := relations c @ [r]\<rparr>)"
    using assms(1,2) unfolding sane_def integral_iff by auto
  moreover have "types_ok (c\<lparr>relations := relations c @ [r]\<rparr>)"
    using assms unfolding sane_def types_ok_def by (auto simp: column_type_def)
  moreover have "deps_ok (c\<lparr>relations := relations c @ [r]\<rparr>)" using assms(1) by (simp add: sane_def deps_ok_def)
  ultimately show ?thesis by (simp add: sane_def)
qed

text \<open>A dependency the code may write: a relation or a constraint on a relation.\<close>

definition dep_allowed :: "catalog \<Rightarrow> rs_dependency \<Rightarrow> bool" where
  "dep_allowed c d \<longleftrightarrow> dep_refclassid d = OBJECT_RELATION_KIND \<and> dep_refobjid d \<in> rel_ids c
     \<and> (dep_classid d = OBJECT_RELATION_KIND \<and> dep_objid d \<in> rel_ids c
        \<or> dep_classid d = OBJECT_CONSTRAINT_KIND
          \<and> (\<exists>k\<in>set (constraints c). con_oid k = dep_objid d \<and> dep_refobjid d \<in> constraint_refs k))"

lemmas object_kinds = OBJECT_RELATION_KIND_def OBJECT_CONSTRAINT_KIND_def OBJECT_SCHEMA_KIND_def

lemma sane_deps:
  assumes "sane low c" "\<forall>d\<in>set ds. d \<in> set (depends c) \<or> dep_allowed c d"
  shows "sane low (c\<lparr>depends := ds\<rparr>)"
proof -
  have one: "dep_classid d \<in> set catalog_classes \<and> dep_refclassid d \<in> set catalog_classes
      \<and> (dep_classid d = OBJECT_RELATION_KIND \<longrightarrow> dep_objid d \<in> rel_oid ` set (relations c))
      \<and> (dep_refclassid d = OBJECT_RELATION_KIND \<longrightarrow> dep_refobjid d \<in> rel_oid ` set (relations c))
      \<and> (dep_classid d = OBJECT_CONSTRAINT_KIND \<longrightarrow> dep_objid d \<in> con_oid ` set (constraints c))
      \<and> (dep_refclassid d = OBJECT_CONSTRAINT_KIND \<longrightarrow> dep_refobjid d \<in> con_oid ` set (constraints c))
      \<and> (dep_classid d = OBJECT_SCHEMA_KIND \<longrightarrow> dep_objid d \<in> sch_oid ` set (schemas c))
      \<and> (dep_refclassid d = OBJECT_SCHEMA_KIND \<longrightarrow> dep_refobjid d \<in> sch_oid ` set (schemas c))" if "d \<in> set ds" for d
    using assms(2) [rule_format, OF that]
  proof
    assume "d \<in> set (depends c)"
    then show ?thesis using assms(1) unfolding sane_def integral_iff by blast
  next
    assume "dep_allowed c d"
    then show ?thesis by (auto simp: dep_allowed_def catalog_classes_def rel_ids_def object_kinds intro: rev_image_eqI [OF _ sym])
  qed
  have two: "dep_classid d \<in> {OBJECT_RELATION_KIND, OBJECT_CONSTRAINT_KIND} \<and> dep_refclassid d = OBJECT_RELATION_KIND
     \<and> (dep_classid d = OBJECT_CONSTRAINT_KIND \<longrightarrow>
          (\<exists>k\<in>set (constraints c). con_oid k = dep_objid d \<and> dep_refobjid d \<in> constraint_refs k))" if "d \<in> set ds" for d
    using assms(2) [rule_format, OF that]
  proof
    assume "d \<in> set (depends c)"
    then show ?thesis using assms(1) unfolding sane_def deps_ok_def by blast
  next
    assume "dep_allowed c d"
    then show ?thesis by (auto simp: dep_allowed_def object_kinds)
  qed
  have "integral low (c\<lparr>depends := ds\<rparr>)"
    using assms(1) one unfolding sane_def integral_iff by (simp add: active_names_def)
  moreover have "deps_ok (c\<lparr>depends := ds\<rparr>)" unfolding deps_ok_def using two by simp
  ultimately show ?thesis using assms(1) by (simp add: sane_def types_ok_def column_type_def)
qed

section \<open>Columns\<close>

lemma core_own [simp]:
  "att_relid a = rid \<Longrightarrow> core rid (c\<lparr>cols := cols c @ [a]\<rparr>) = core rid c"
  "def_relid d = rid \<Longrightarrow> core rid (c\<lparr>defaults := defaults c @ [d]\<rparr>) = core rid c"
  "con_relid k = rid \<Longrightarrow> core rid (c\<lparr>constraints := constraints c @ [k]\<rparr>) = core rid c"
  "ext_relid e = rid \<Longrightarrow> core rid (c\<lparr>exts := exts c @ [e]\<rparr>) = core rid c"
  by (simp_all add: core_def)

lemma work_attribute:
  assumes st: "steady rid F" and ls: "lasting G" and F: "\<And>c. F c \<Longrightarrow> rid \<in> rel_ids c"
    and ty: "\<And>c. G c \<Longrightarrow> b \<Longrightarrow> column_type c (cc_type_id col)"
  shows "body_spec (work b low F G S) (insert_attribute_row X rid col) (\<lambda>_. work b low F G S)"
  unfolding insert_attribute_row_def
proof (rule body_bind [OF body_exec, of _ _ "\<lambda>_. work b low F G S"], goal_cases)
  case (1 c d)
  then have d: "d = c\<lparr>cols := cols c @ [column_row rid col]\<rparr>" by (auto dest: column_keys.ins_appends)
  have "att_relid (column_row rid col) = rid" "att_typid (column_row rid col) = cc_type_id col"
    by (simp_all add: column_row_def)
  then show "work b low F G S d"
    unfolding d using 1(1) F [OF workD(4) [OF 1(1)]] ty [OF workD(5) [OF 1(1)]]
    by (auto simp: work_def pool_def intro!: sane_add_column elim: steadyD [OF st, rotated] lastingD [OF ls])
next
  case 2
  have "body_spec (work b low F G (i # S)) (cexec X w (\<lambda>c. map_option (\<lambda>rows. c\<lparr>defaults := rows\<rparr>)
      (insert_default \<lparr>def_oid = i, def_relid = rid, def_num = n, def_bin = e\<rparr> (defaults c)))) (\<lambda>_. work b low F G S)" for i n e w
  proof (rule body_exec)
    fix c d assume c: "work b low F G (i # S) c"
      and "map_option (\<lambda>rows. c\<lparr>defaults := rows\<rparr>)
        (insert_default \<lparr>def_oid = i, def_relid = rid, def_num = n, def_bin = e\<rparr> (defaults c)) = Some d"
    then have d: "d = c\<lparr>defaults := defaults c @ [\<lparr>def_oid = i, def_relid = rid, def_num = n, def_bin = e\<rparr>]\<rparr>"
      by (auto dest: default_oids.ins_appends)
    have "pool (i # S) c" using c by (rule workD)
    then have "wf_catalog d" "pool S d" unfolding d
      using workD(1) [OF c] by (auto simp: pool_def intro!: wf_add_rows unused_added)
    then show "work b low F G S d"
      using c unfolding d by (auto simp: work_def elim: steadyD [OF st, rotated] lastingD [OF ls])
  qed
  then show ?case by (intro body_option body_return body_bind [OF work_allocate [OF st ls]])
qed

section \<open>Constraints and dependencies\<close>

lemma body_cond: "(\<And>c. A c \<Longrightarrow> P) \<Longrightarrow> (P \<Longrightarrow> body_spec A m Q) \<Longrightarrow> body_spec A m Q"
  unfolding body_spec_def by blast

lemma work_depends:
  assumes "steady rid F" "lasting G" "work b low F G S c" "b \<Longrightarrow> \<forall>d\<in>set ds. d \<in> set (depends c) \<or> dep_allowed c d"
  shows "work b low F G S (c\<lparr>depends := ds\<rparr>)"
  using assms(3,4) by (auto simp: work_def pool_def intro!: sane_deps elim: steadyD [OF assms(1), rotated] lastingD [OF assms(2)])

lemma work_write_dependency:
  assumes st: "steady rid F" and ls: "lasting G"
    and ok: "\<And>c. work b low F G S c \<Longrightarrow> b \<Longrightarrow> dep_allowed c (dependency_row k t)"
  shows "body_spec (work b low F G S) (write_dependency X w k t) (\<lambda>_. work b low F G S)"
  unfolding write_dependency_def
  by (rule body_exec) (auto dest!: dependency_keys.ins_appends intro!: work_depends [OF st ls] ok)

lemma work_depend:
  assumes "steady rid F" "lasting G" "\<And>c. work b low F G S c \<Longrightarrow> b \<Longrightarrow> dep_allowed c (dependency_row k t)"
  shows "body_spec (work b low F G S) (insert_depend_if_missing X k t) (\<lambda>_. work b low F G S)"
  unfolding insert_depend_if_missing_def
  by (rule body_bind [OF work_read [OF ro_query]], rule body_if [OF body_return work_write_dependency [OF assms]])

lemma work_constraint_dependency:
  assumes "steady rid F" "lasting G" "\<And>c. F c \<Longrightarrow> r \<in> rel_ids c" "\<And>c. G c \<Longrightarrow> k \<in> set (constraints c)"
    and "con_oid k = i" "r \<in> constraint_refs k"
  shows "body_spec (work b low F G S) (constraint_dependency X i r n) (\<lambda>_. work b low F G S)"
  unfolding constraint_dependency_def
proof (rule work_depend [OF assms(1,2)])
  fix c assume "work b low F G S c"
  then have "r \<in> rel_ids c" "k \<in> set (constraints c)" using assms(3,4) by (auto dest: workD)
  with assms(5,6) show "dep_allowed c (dependency_row (OBJECT_CONSTRAINT_KIND, i, 0, OBJECT_RELATION_KIND, r, n) ''n'')"
    by (auto simp: dep_allowed_def dependency_row_def)
qed

lemma work_weaken: "body_spec A m (\<lambda>v. work b low F (\<lambda>c. G c \<and> H c) S) \<Longrightarrow> body_spec A m (\<lambda>v. work b low F G S)"
  by (erule body_conseq) (auto simp: work_def)

lemma work_constraint:
  assumes st: "steady rid F" and ls: "lasting G" and F: "\<And>c. F c \<Longrightarrow> rid \<in> rel_ids c"
    and fr: "\<And>c. F c \<Longrightarrow> frel > 0 \<Longrightarrow> frel \<in> rel_ids c"
  shows "body_spec (work b low F G (i # S)) (insert_constraint X i n ns t rid key frel fkey bin) (\<lambda>_. work b low F G S)"
proof -
  let ?k = "constraint_row i n ns t rid key frel fkey bin"
  let ?G = "\<lambda>c. G c \<and> ?k \<in> set (constraints c)"
  have lG: "lasting ?G" using ls by (intro lasting)
  have k: "con_oid ?k = i" "rid \<in> constraint_refs ?k" "frel > 0 \<Longrightarrow> frel \<in> constraint_refs ?k" "con_relid ?k = rid"
    by (simp_all add: constraint_row_def constraint_refs_def)
  have ins: "body_spec (work b low F G (i # S)) (cexec X w (\<lambda>c. map_option (\<lambda>rows. c\<lparr>constraints := rows\<rparr>)
      (insert_constraint_row ?k (constraints c)))) (\<lambda>_. work b low F ?G S)" for w
  proof (rule body_exec)
    fix c d assume c: "work b low F G (i # S) c"
      and "map_option (\<lambda>rows. c\<lparr>constraints := rows\<rparr>) (insert_constraint_row ?k (constraints c)) = Some d"
    then have d: "d = c\<lparr>constraints := constraints c @ [?k]\<rparr>" by (auto dest: constraint_oids.ins_appends)
    have "pool (i # S) c" using c by (rule workD)
    then have "wf_catalog d" "pool S d" unfolding d
      using workD(1) [OF c] k(1) by (auto simp: pool_def intro!: wf_add_rows unused_added)
    then show "work b low F ?G S d"
      using c k(4) unfolding d
      by (auto simp: work_def intro!: sane_add_constraint elim: steadyD [OF st, rotated] lastingD [OF ls])
  qed
  have own: "body_spec (work b low F ?G S) (constraint_dependency X i rid m) (\<lambda>_. work b low F ?G S)" for m
    by (rule work_constraint_dependency [OF st lG, of _ ?k]) (use F k in auto)
  have other: "frel > 0 \<Longrightarrow> body_spec (work b low F ?G S) (constraint_dependency X i frel m) (\<lambda>_. work b low F ?G S)" for m
    by (rule work_constraint_dependency [OF st lG, of _ ?k]) (use fr k in auto)
  have "body_spec (work b low F ?G S) (insert_constraint_dependencies X i rid key frel fkey) (\<lambda>_. work b low F ?G S)"
    unfolding insert_constraint_dependencies_def
    by (rule body_bind [OF own], rule body_bind [OF body_foreach [OF own]], rule body_if,
        rule body_bind [OF other], assumption, rule body_foreach [OF other], assumption, rule body_return)
  then show ?thesis
    unfolding insert_constraint_def by (intro body_bind [OF ins] work_weaken)
qed

section \<open>The constraints of a CREATE TABLE\<close>

lemma active_relation_rel: "active_relation low c s r = Some x \<Longrightarrow> rel_oid x \<in> rel_ids c"
  by (auto simp: active_relation_def relation_rows_def rel_ids_def dest!: first_of_in)

lemma foreign_key_ro [ro]: "read_only (catalog_columns X i)" "read_only (foreign_key_reference X s t fk)"
  unfolding foreign_key_reference_def catalog_columns_def by (intro ro)+

lemma work_foreign_key:
  "body_spec (work b low F G S) (foreign_key_reference X s t fk)
     (\<lambda>(frel, key). work b low (\<lambda>c. F c \<and> frel \<in> rel_ids c) G S)"
proof -
  have "body_spec A (foreign_key_reference X s t fk) (\<lambda>(frel, key) c. frel \<in> rel_ids c)" for A
    unfolding foreign_key_reference_def catalog_columns_def
    by (rule body_if, rule body_throw, rule body_if, rule body_throw, rule body_bind [OF sp_lift], rule body_prod,
        rule body_bind [OF sp_find_relation_meta], rule body_option, rule body_throw, rule body_if, rule body_throw,
        rule body_bind [OF sp_query], rule body_bind [OF sp_lift], rule body_if, rule body_throw, rule body_return)
      (auto simp: Some_eq_map_option meta_of_def dest: active_relation_rel)
  then show ?thesis
    by (rule body_conseq [OF body_conj [OF work_read [OF foreign_key_ro(2), where b = b and low = low and F = F and G = G and S = S]]]) (auto simp: work_def)
qed

lemma steady_rel_ids: "steady rid F \<Longrightarrow> steady rid (\<lambda>c. F c \<and> i \<in> rel_ids c)"
  by (rule steady_conj, assumption) (rule steadyI [where G = "\<lambda>c. i \<in> rel_ids c"], simp add: rel_ids_def)

lemma work_forget: "body_spec (work b low (\<lambda>c. F c \<and> H c) G S) m (\<lambda>_. work b low (\<lambda>c. F c \<and> H c) G T) \<Longrightarrow>
    body_spec (work b low (\<lambda>c. F c \<and> H c) G S) m (\<lambda>_. work b low F G T)"
  by (erule body_conseq) (auto simp: work_def)

lemma work_foreign_constraint:
  assumes "steady rid F" "lasting G" "\<And>c. F c \<Longrightarrow> rid \<in> rel_ids c"
  shows "body_spec (work b low F G (i # S)) (cbind (foreign_key_reference X s t fk) (\<lambda>(frel, fkey).
     insert_constraint X i n ns ty rid key frel fkey bin)) (\<lambda>_. work b low F G S)"
  by (rule body_bind [OF work_foreign_key], rule body_prod)
    (use assms in \<open>auto intro!: work_forget work_constraint steady_rel_ids\<close>)

lemma work_column_constraint:
  assumes "steady rid F" "lasting G" "\<And>c. F c \<Longrightarrow> rid \<in> rel_ids c"
  shows "body_spec (work b low F G S) (insert_column_constraint X rid ns s t columns idx col opt) (\<lambda>_. work b low F G S)"
proof -
  note a = work_allocate [OF assms(1,2)] and l = work_read [OF ro_lift]
  show ?thesis
    by (cases "co_option opt")
      (simp_all add: insert_column_constraint_def body_return body_bind [OF a body_bind [OF l work_constraint [OF assms]]]
        body_bind [OF a body_bind [OF l work_foreign_constraint [OF assms]]])
qed

lemma work_table_constraint:
  assumes "steady rid F" "lasting G" "\<And>c. F c \<Longrightarrow> rid \<in> rel_ids c"
  shows "body_spec (work b low F G S) (insert_table_constraint X rid ns s t columns k) (\<lambda>_. work b low F G S)"
proof -
  note a = work_allocate [OF assms(1,2)] and l = work_read [OF ro_lift]
  show ?thesis
    by (cases k)
      (simp_all add: insert_table_constraint_def body_return body_bind [OF a work_constraint [OF assms]]
        body_bind [OF a body_bind [OF l work_constraint [OF assms]]]
        body_bind [OF a body_bind [OF l work_foreign_constraint [OF assms]]])
qed

lemma work_table_constraints:
  assumes "steady rid F" "lasting G" "\<And>c. F c \<Longrightarrow> rid \<in> rel_ids c"
  shows "body_spec (work b low F G S) (insert_create_table_constraints X rid s t columns ct) (\<lambda>_. work b low F G S)"
  unfolding insert_create_table_constraints_def
  by (rule body_bind [OF work_read [OF lookup_ro(3)]], rule body_bind [OF body_foreach], rule body_prod,
      rule body_foreach, rule work_column_constraint [OF assms], assumption, rule body_foreach,
      rule work_table_constraint [OF assms], assumption)

section \<open>The rows of a relation\<close>

definition same :: "int \<Rightarrow> catalog \<Rightarrow> catalog \<Rightarrow> bool" where
  "same rid c0 c \<longleftrightarrow> core rid c = core rid c0"

lemma steady_same [intro]: "steady rid (same rid c0)"
  by (simp add: steady_def same_def)

lemma same_tables:
  assumes "same rid c0 c"
  shows "schemas c = schemas c0" "relations c = relations c0" "remarks c = remarks c0" "indexes c = indexes c0"
    "vectors c = vectors c0" "parts c = parts c0" "users c = users c0" "roles c = roles c0"
    "user_roles c = user_roles c0" "privileges c = privileges c0"
proof -
  have e: "core rid c = core rid c0" using assms by (simp add: same_def)
  show "schemas c = schemas c0" "relations c = relations c0" "remarks c = remarks c0" "indexes c = indexes c0"
    "vectors c = vectors c0" "parts c = parts c0" "users c = users c0" "roles c = roles c0"
    "user_roles c = user_roles c0" "privileges c = privileges c0"
    by (metis e core_simps)+
qed

lemma same_rows:
  assumes "same rid c0 c"
  shows "filter (\<lambda>a. att_relid a \<noteq> rid) (cols c) = filter (\<lambda>a. att_relid a \<noteq> rid) (cols c0)"
    "filter (\<lambda>k. con_relid k \<noteq> rid) (constraints c) = filter (\<lambda>k. con_relid k \<noteq> rid) (constraints c0)"
    "filter (\<lambda>e. ext_relid e \<noteq> rid) (exts c) = filter (\<lambda>e. ext_relid e \<noteq> rid) (exts c0)"
proof -
  have e: "core rid c = core rid c0" using assms by (simp add: same_def)
  show "filter (\<lambda>a. att_relid a \<noteq> rid) (cols c) = filter (\<lambda>a. att_relid a \<noteq> rid) (cols c0)"
    "filter (\<lambda>k. con_relid k \<noteq> rid) (constraints c) = filter (\<lambda>k. con_relid k \<noteq> rid) (constraints c0)"
    "filter (\<lambda>e. ext_relid e \<noteq> rid) (exts c) = filter (\<lambda>e. ext_relid e \<noteq> rid) (exts c0)"
    using arg_cong [OF e, of cols] arg_cong [OF e, of constraints] arg_cong [OF e, of exts]
    by (simp_all add: core_def)
qed

text \<open>\<open>with_relation c r\<close>: the catalog the operation has after the row of the relation.\<close>

definition with_relation :: "catalog \<Rightarrow> rs_relation \<Rightarrow> catalog" where
  "with_relation c r = c\<lparr>relations := relations c @ [r]\<rparr>"

lemma core_set_relations: "core rid (c\<lparr>relations := rs\<rparr>) = core rid c\<lparr>relations := rs\<rparr>"
  by (cases c) (simp add: core_def)

lemma core_relations: "core rid c = core rid d \<Longrightarrow> core rid (c\<lparr>relations := rs\<rparr>) = core rid (d\<lparr>relations := rs\<rparr>)"
  by (simp add: core_set_relations)

lemma same_with_relation:
  assumes "same rid c0 c"
  shows "same rid (with_relation c0 r) (c\<lparr>relations := relations c @ [r]\<rparr>)"
proof -
  have "relations c = relations c0" using assms by (rule same_tables)
  then show ?thesis
    using assms core_relations [of rid c c0 "relations c0 @ [r]"] by (simp add: same_def with_relation_def)
qed

lemma absent_name:
  assumes "active_relation low c schema relation = None" "n \<in> set (schema_rows low c schema)"
  shows "(sch_oid n, low relation) \<notin> set (active_names low c)"
  using assms by (auto simp: active_relation_def relation_rows_def schema_rows_def active_names_def filter_empty_conv list_ex_iff)

lemma no_rows_not_active: "relation_rows low c schema relation = [] \<Longrightarrow> active_relation low c schema relation = None"
  by (simp add: active_relation_def)

lemma type_oid_unique: "wf_catalog c \<Longrightarrow> t \<in> set (types c) \<Longrightarrow> t' \<in> set (types c) \<Longrightarrow> ty_oid t = ty_oid t' \<Longrightarrow> t = t'"
proof -
  assume "wf_catalog c"
  then have "distinct (all_oids c)" by (auto simp: wf_catalog_def wf_oids_distinct)
  then have "distinct (map ty_oid (types c))" by (simp add: all_oids_def)
  then show "t \<in> set (types c) \<Longrightarrow> t' \<in> set (types c) \<Longrightarrow> ty_oid t = ty_oid t' \<Longrightarrow> t = t'"
    by (simp add: distinct_map inj_on_def)
qed

lemma work_insert_relation:
  assumes ls: "lasting G" and absent: "active_relation low c0 schema relation = None"
    and ns: "first_of (schema_rows low c0 schema) = Some n"
    and r: "r = relation_row rid tid (sch_oid n) relation kind k owner"
    and t: "t = row_type_row tid rid (sch_oid n) relation owner"
  shows "body_spec (\<lambda>c. work b low (same rid c0) G (rid # S) c \<and> t \<in> set (types c))
     (cexec X w (\<lambda>c. map_option (\<lambda>rows. c\<lparr>relations := rows\<rparr>) (insert_relation r (relations c))))
     (\<lambda>_. work b low (same rid (with_relation c0 r)) G S)"
proof (rule body_exec, elim conjE)
  fix c d assume c: "work b low (same rid c0) G (rid # S) c" and tc: "t \<in> set (types c)"
    and "map_option (\<lambda>rows. c\<lparr>relations := rows\<rparr>) (insert_relation r (relations c)) = Some d"
  then have d: "d = c\<lparr>relations := relations c @ [r]\<rparr>" by (auto dest: relation_oids.ins_appends)
  note sm = workD(4) [OF c]
  have p: "pool (rid # S) c" using c by (rule workD)
  then have u: "unused rid c" by (simp add: pool_def)
  have ro: "rel_oid r = rid" "rel_type r = tid" "rel_namespace r = sch_oid n" "rel_name r = relation"
    unfolding r by (simp_all add: relation_row_def)
  have to: "ty_oid t = tid" "ty_relid t = rid" unfolding t by (simp_all add: row_type_row_def)
  have wf: "wf_catalog d" unfolding d by (rule wf_add_rows) (use workD(1) [OF c] u ro in simp_all)
  have "sane low d" if b
    unfolding d
  proof (rule sane_add_relation)
    show "sane low c" using c that by (rule workD)
    show "rel_namespace r \<in> sch_oid ` set (schemas c)"
      using first_of_in [OF ns] same_tables(1) [OF sm] by (auto simp: ro schema_rows_def)
    have "(sch_oid n, low relation) \<notin> set (active_names low c0)" by (rule absent_name [OF absent first_of_in [OF ns]])
    then show "(rel_namespace r, low (rel_name r)) \<notin> set (active_names low c)"
      using same_tables(2) [OF sm] by (simp add: ro active_names_def)
    show "rel_oid r \<noteq> 0" using unused_no_type(2) [OF u] ro by simp
    show "rel_type r = 0 \<or> rel_type r \<in> ty_oid ` set (types c)" using tc to ro by auto
    show "\<forall>t'\<in>set (types c). ty_oid t' = rel_type r \<longrightarrow> ty_relid t' = rel_oid r"
      using type_oid_unique [OF workD(1) [OF c] tc] to ro by metis
  qed
  moreover have "pool S d" unfolding d using p ro by (auto simp: pool_def intro!: unused_added)
  moreover have "same rid (with_relation c0 r) d" unfolding d by (rule same_with_relation [OF sm])
  moreover have "G d" by (rule lastingD [OF ls workD(5) [OF c]]) (simp_all add: d)
  ultimately show "work b low (same rid (with_relation c0 r)) G S d" using wf by (simp add: work_def)
qed

lemma work_relation_rows:
  assumes ls: "lasting G" and absent: "active_relation low c0 schema relation = None" and low: "low = x_lower X"
    and ty: "\<And>c col. G c \<Longrightarrow> col \<in> set columns \<Longrightarrow> b \<Longrightarrow> column_type c (cc_type_id col)"
  shows "body_spec (work b low (same rid c0) G (tid # rid # S))
     (insert_relation_rows X rid tid schema relation kind mk vis sql columns owner)
     (\<lambda>_ c. \<exists>n. first_of (schema_rows low c0 schema) = Some n
        \<and> work b low (same rid (with_relation c0 (relation_row rid tid (sch_oid n) relation kind (length columns) owner))) G S c)"
proof -
  have st: "steady rid (same rid c)" for c by (rule steady_same)
  let ?A = "work b low (same rid c0) G (tid # rid # S)"
  have ns: "body_spec ?A (namespace_oid X schema)
      (\<lambda>i c. ?A c \<and> (\<exists>n. first_of (schema_rows low c0 schema) = Some n \<and> sch_oid n = i))"
    by (rule body_post [OF sp_namespace_oid])
      (auto simp: schema_rows_def low dest!: workD(4) same_tables(1))
  have rest: "body_spec (\<lambda>c. ?A c \<and> (\<exists>n. first_of (schema_rows low c0 schema) = Some n \<and> sch_oid n = i))
     (cbind (cexec X w1 (\<lambda>c. map_option (\<lambda>rows. c\<lparr>types := rows\<rparr>)
         (insert_type (row_type_row tid rid i relation owner) (types c)))) (\<lambda>_.
      cbind (cexec X w2 (\<lambda>c. map_option (\<lambda>rows. c\<lparr>relations := rows\<rparr>)
         (insert_relation (relation_row rid tid i relation kind (length columns) owner) (relations c)))) (\<lambda>_.
      cbind (cforeach (insert_attribute_row X rid) columns) (\<lambda>_.
      cexec X w3 (\<lambda>c. map_option (\<lambda>rows. c\<lparr>exts := rows\<rparr>) (insert_ext (relation_ext_row rid mk vis sql) (exts c)))))))
     (\<lambda>_ c. \<exists>n. first_of (schema_rows low c0 schema) = Some n
        \<and> work b low (same rid (with_relation c0 (relation_row rid tid (sch_oid n) relation kind (length columns) owner))) G S c)"
    for i w1 w2 w3
  proof (rule body_cond)
    fix c assume "?A c \<and> (\<exists>n. first_of (schema_rows low c0 schema) = Some n \<and> sch_oid n = i)"
    then show "\<exists>n. first_of (schema_rows low c0 schema) = Some n \<and> sch_oid n = i" by blast
  next
    assume "\<exists>n. first_of (schema_rows low c0 schema) = Some n \<and> sch_oid n = i"
    then obtain n where n: "first_of (schema_rows low c0 schema) = Some n" "sch_oid n = i" by blast
    let ?t = "row_type_row tid rid i relation owner"
    let ?r = "relation_row rid tid i relation kind (length columns) owner"
    let ?F = "same rid (with_relation c0 ?r)"
    have t: "body_spec ?A (cexec X w1 (\<lambda>c. map_option (\<lambda>rows. c\<lparr>types := rows\<rparr>) (insert_type ?t (types c))))
        (\<lambda>_ c. work b low (same rid c0) G (rid # S) c \<and> ?t \<in> set (types c))"
    proof (rule body_exec)
      fix c d assume c: "?A c" and "map_option (\<lambda>rows. c\<lparr>types := rows\<rparr>) (insert_type ?t (types c)) = Some d"
      then have d: "d = c\<lparr>types := types c @ [?t]\<rparr>" by (auto dest: type_oids.ins_appends)
      have o: "ty_oid ?t = tid" "ty_physical ?t = ''STRUCT''" by (simp_all add: row_type_row_def)
      have "work b low (same rid c0) G (rid # S) d" unfolding d by (rule work_add_type [OF _ st ls]) (use c o in simp_all)
      then show "work b low (same rid c0) G (rid # S) d \<and> ?t \<in> set (types d)" by (simp add: d)
    qed
    have in_F: "?F c \<Longrightarrow> rid \<in> rel_ids c" for c
      by (drule same_tables(2)) (simp add: rel_ids_def with_relation_def relation_row_def)
    have e: "body_spec (work b low ?F G S) (cexec X w3 (\<lambda>c. map_option (\<lambda>rows. c\<lparr>exts := rows\<rparr>)
        (insert_ext (relation_ext_row rid mk vis sql) (exts c)))) (\<lambda>_. work b low ?F G S)"
    proof (rule body_exec)
      fix c d assume c: "work b low ?F G S c"
        and "map_option (\<lambda>rows. c\<lparr>exts := rows\<rparr>) (insert_ext (relation_ext_row rid mk vis sql) (exts c)) = Some d"
      then have d: "d = c\<lparr>exts := exts c @ [relation_ext_row rid mk vis sql]\<rparr>" by (auto dest: ext_keys.ins_appends)
      have "ext_relid (relation_ext_row rid mk vis sql) = rid" by (simp add: relation_ext_row_def)
      then show "work b low ?F G S d"
        using c unfolding d
        by (auto simp: work_def pool_def elim: steadyD [OF st, rotated] lastingD [OF ls])
    qed
    have "body_spec (\<lambda>c. work b low (same rid c0) G (rid # S) c \<and> ?t \<in> set (types c))
       (cexec X w2 (\<lambda>c. map_option (\<lambda>rows. c\<lparr>relations := rows\<rparr>) (insert_relation ?r (relations c))))
       (\<lambda>_. work b low ?F G S)"
      by (rule work_insert_relation [OF ls absent n(1)]) (simp_all add: n(2))
    then have "body_spec ?A (cbind (cexec X w1 (\<lambda>c. map_option (\<lambda>rows. c\<lparr>types := rows\<rparr>) (insert_type ?t (types c)))) (\<lambda>_.
      cbind (cexec X w2 (\<lambda>c. map_option (\<lambda>rows. c\<lparr>relations := rows\<rparr>) (insert_relation ?r (relations c)))) (\<lambda>_.
      cbind (cforeach (insert_attribute_row X rid) columns) (\<lambda>_.
      cexec X w3 (\<lambda>c. map_option (\<lambda>rows. c\<lparr>exts := rows\<rparr>) (insert_ext (relation_ext_row rid mk vis sql) (exts c)))))))
      (\<lambda>_. work b low ?F G S)"
      by (intro body_bind [OF t] body_bind [OF _ body_bind [OF body_foreach e]])
        (auto intro!: work_attribute [OF st ls] in_F ty)
    then show "body_spec (\<lambda>c. ?A c \<and> (\<exists>n. first_of (schema_rows low c0 schema) = Some n \<and> sch_oid n = i))
     (cbind (cexec X w1 (\<lambda>c. map_option (\<lambda>rows. c\<lparr>types := rows\<rparr>)
         (insert_type (row_type_row tid rid i relation owner) (types c)))) (\<lambda>_.
      cbind (cexec X w2 (\<lambda>c. map_option (\<lambda>rows. c\<lparr>relations := rows\<rparr>)
         (insert_relation (relation_row rid tid i relation kind (length columns) owner) (relations c)))) (\<lambda>_.
      cbind (cforeach (insert_attribute_row X rid) columns) (\<lambda>_.
      cexec X w3 (\<lambda>c. map_option (\<lambda>rows. c\<lparr>exts := rows\<rparr>) (insert_ext (relation_ext_row rid mk vis sql) (exts c)))))))
     (\<lambda>_ c. \<exists>n. first_of (schema_rows low c0 schema) = Some n
        \<and> work b low (same rid (with_relation c0 (relation_row rid tid (sch_oid n) relation kind (length columns) owner))) G S c)"
      by (rule body_conseq) (use n in auto)
  qed
  show ?thesis unfolding insert_relation_rows_def by (rule body_bind [OF ns rest])
qed

section \<open>From the start to the end of an operation\<close>

definition fine :: "bool \<Rightarrow> 'p external \<Rightarrow> catalog \<Rightarrow> bool" where
  "fine b X c \<longleftrightarrow> good (x_fmt X) c \<and> (b \<longrightarrow> sane (x_lower X) c)"

lemma fineD: "fine b X c \<Longrightarrow> good (x_fmt X) c" "fine b X c \<Longrightarrow> wf_catalog c" "fine b X c \<Longrightarrow> b \<Longrightarrow> sane (x_lower X) c"
  by (simp_all add: fine_def good_def)

lemma fine_False [simp]: "fine False X = good (x_fmt X)"
  by (rule ext) (simp add: fine_def)

lemma work_start:
  assumes "fine b X c0"
  shows "body_spec (\<lambda>d. d = c0) (allocate_oid X)
    (\<lambda>i c. work b (x_lower X) (same i c0) (\<lambda>_. True) [i] c \<and> i \<notin> set (all_oids c0))"
proof (rule body_post [OF sp_allocate], elim exE conjE)
  fix i d c assume "c = c0" and n: "next_oid c = Some i" and d: "d = bump c"
  then have w: "wf_catalog c" using fineD(2) [OF assms] by simp
  have "pool [i] d" unfolding d using unused_next [OF w n] by (simp add: pool_def)
  moreover have "i \<notin> set (all_oids c0)" using unused_next [OF w n] \<open>c = c0\<close> by (simp add: unused_def)
  moreover have "same i c0 d" using \<open>c = c0\<close> by (simp add: same_def d)
  ultimately show "work b (x_lower X) (same i c0) (\<lambda>_. True) [i] d \<and> i \<notin> set (all_oids c0)"
    using w assms fineD(3) [OF assms] \<open>c = c0\<close> by (auto simp: work_def d)
qed

lemma work_end:
  assumes "steady rid F" "lasting G"
  shows "body_spec (work b (x_lower X) F G S) (cbind (finish_journal X j) (\<lambda>_. creturn v)) (\<lambda>w d. w = v \<and> fine b X d \<and> F d)"
  by (rule body_bind [OF work_finish [OF assms]], rule body_return) (auto simp: fine_def work_def)

text \<open>One relation more, and for the rest the catalog as it was but for types, dependencies and
  the journal.\<close>

definition relation_added :: "(string \<Rightarrow> string) \<Rightarrow> string \<Rightarrow> string \<Rightarrow> string \<Rightarrow> int \<Rightarrow> catalog \<Rightarrow> catalog \<Rightarrow> bool" where
  "relation_added low schema relation kind owner c d \<longleftrightarrow> (\<exists>rid tid n k. rid \<notin> set (all_oids c)
     \<and> active_relation low c schema relation = None \<and> first_of (schema_rows low c schema) = Some n
     \<and> same rid (with_relation c (relation_row rid tid (sch_oid n) relation kind k owner)) d)"

lemma relation_addedI:
  "rid \<notin> set (all_oids c) \<Longrightarrow> active_relation low c schema relation = None \<Longrightarrow> first_of (schema_rows low c schema) = Some n \<Longrightarrow>
   same rid (with_relation c (relation_row rid tid (sch_oid n) relation kind k owner)) d \<Longrightarrow>
   relation_added low schema relation kind owner c d"
  unfolding relation_added_def by blast

lemma relation_in: "same rid (with_relation c0 r) c \<Longrightarrow> rel_oid r = rid \<Longrightarrow> rid \<in> rel_ids c"
  by (drule same_tables(2)) (auto simp: rel_ids_def with_relation_def)

lemma body_pure: "(P \<Longrightarrow> body_spec A m Q) \<Longrightarrow> body_spec (\<lambda>c. A c \<and> P) m Q"
  unfolding body_spec_def by blast

lemma body_known: "(\<And>n. P n \<Longrightarrow> body_spec (A n) m Q) \<Longrightarrow> body_spec (\<lambda>c. \<exists>n. P n \<and> A n c) m Q"
  unfolding body_spec_def by blast

lemma work_drop_True: "body_spec A m (\<lambda>v. work b low F (\<lambda>c. True \<and> H v c) S) \<Longrightarrow> body_spec A m (\<lambda>v. work b low F (H v) S)"
  by simp

section \<open>Changes within one relation\<close>

text \<open>\<open>others rid c d\<close>: what does not belong to the relation \<open>rid\<close> is the same in both
  catalogs, but for types, dependencies and the journal.\<close>

definition others :: "int \<Rightarrow> catalog \<Rightarrow> catalog \<Rightarrow> bool" where
  "others rid c d \<longleftrightarrow> schemas d = schemas c \<and> users d = users c \<and> roles d = roles c \<and> user_roles d = user_roles c
     \<and> privileges d = privileges c \<and> parts d = parts c \<and> indexes d = indexes c \<and> vectors d = vectors c
     \<and> filter (\<lambda>r. rel_oid r \<noteq> rid) (relations d) = filter (\<lambda>r. rel_oid r \<noteq> rid) (relations c)
     \<and> filter (\<lambda>r. com_objoid r \<noteq> rid) (remarks d) = filter (\<lambda>r. com_objoid r \<noteq> rid) (remarks c)
     \<and> filter (\<lambda>a. att_relid a \<noteq> rid) (cols d) = filter (\<lambda>a. att_relid a \<noteq> rid) (cols c)
     \<and> filter (\<lambda>d. def_relid d \<noteq> rid) (defaults d) = filter (\<lambda>d. def_relid d \<noteq> rid) (defaults c)
     \<and> filter (\<lambda>k. con_relid k \<noteq> rid) (constraints d) = filter (\<lambda>k. con_relid k \<noteq> rid) (constraints c)
     \<and> filter (\<lambda>e. ext_relid e \<noteq> rid) (exts d) = filter (\<lambda>e. ext_relid e \<noteq> rid) (exts c)"

definition own :: "int \<Rightarrow> catalog \<Rightarrow> catalog \<Rightarrow> bool" where
  "own rid c0 c \<longleftrightarrow> rid \<in> rel_ids c \<and> others rid c0 c"

lemma core_others:
  assumes e: "core rid c = core rid d"
  shows "others rid c0 c = others rid c0 d"
proof -
  have "filter (\<lambda>a. att_relid a \<noteq> rid) (cols c) = filter (\<lambda>a. att_relid a \<noteq> rid) (cols d)"
    using arg_cong [OF e, of cols] by (simp add: core_def)
  moreover have "filter (\<lambda>x. def_relid x \<noteq> rid) (defaults c) = filter (\<lambda>x. def_relid x \<noteq> rid) (defaults d)"
    using arg_cong [OF e, of defaults] by (simp add: core_def)
  moreover have "filter (\<lambda>k. con_relid k \<noteq> rid) (constraints c) = filter (\<lambda>k. con_relid k \<noteq> rid) (constraints d)"
    using arg_cong [OF e, of constraints] by (simp add: core_def)
  moreover have "filter (\<lambda>x. ext_relid x \<noteq> rid) (exts c) = filter (\<lambda>x. ext_relid x \<noteq> rid) (exts d)"
    using arg_cong [OF e, of exts] by (simp add: core_def)
  ultimately show ?thesis
    using same_tables [of rid d c] e by (simp add: others_def same_def)
qed

lemma steady_own [intro]: "steady rid (own rid c0)"
  unfolding steady_def own_def rel_ids_def
  by (metis core_others core_simps(7))

lemma others_refl [simp]: "others rid c c"
  by (simp add: others_def)

lemma own_in: "own rid c0 c \<Longrightarrow> rid \<in> rel_ids c"
  by (simp add: own_def)

lemma filter_filter_implied: "(\<And>x. Q x \<Longrightarrow> P x) \<Longrightarrow> filter Q (filter P xs) = filter Q xs"
  by (induction xs) auto

lemma filter_update_where: "(\<And>x. P x \<Longrightarrow> \<not> Q x \<and> \<not> Q (f x)) \<Longrightarrow> filter Q (update_where P f xs) = filter Q xs"
  by (induction xs) (auto simp: update_where_def)

lemma own_rows [simp]:
  "own rid c0 (c\<lparr>defaults := filter (\<lambda>d. def_relid d \<noteq> rid) (defaults c)\<rparr>) = own rid c0 c"
  "own rid c0 (c\<lparr>cols := filter (\<lambda>a. att_relid a \<noteq> rid) (cols c)\<rparr>) = own rid c0 c"
  "own rid c0 (c\<lparr>remarks := filter (\<lambda>r. \<not> (com_objoid r = rid \<and> P r)) (remarks c)\<rparr>) = own rid c0 c"
  by (simp_all add: own_def others_def rel_ids_def cong: rev_conj_cong)

lemma ids_update_where: "(\<And>r. P r \<Longrightarrow> k (f r) = k r) \<Longrightarrow> k ` set (update_where P f xs) = k ` set xs"
  unfolding set_update_where image_image by (rule image_cong) simp_all

lemma own_update [simp]:
  "(\<And>r. rel_oid (f r) = rel_oid r) \<Longrightarrow> own rid c0 (c\<lparr>relations := update_where (\<lambda>r. rel_oid r = rid) f (relations c)\<rparr>) = own rid c0 c"
  "(\<And>e. ext_relid (g e) = ext_relid e) \<Longrightarrow> own rid c0 (c\<lparr>exts := update_where (\<lambda>e. ext_relid e = rid) g (exts c)\<rparr>) = own rid c0 c"
  by (simp_all add: own_def others_def rel_ids_def filter_update_where ids_update_where)

lemma keys_update_where:
  assumes "\<And>r. r \<in> set xs \<Longrightarrow> P r \<Longrightarrow> k (f r) = k r \<and> (A (f r) \<longrightarrow> A r)"
  shows "set (map k (filter A (update_where P f xs))) \<subseteq> set (map k (filter A xs))
    \<and> (distinct (map k (filter A xs)) \<longrightarrow> distinct (map k (filter A (update_where P f xs))))"
  using assms
proof (induction xs)
  case (Cons x xs)
  have "set (map k (filter A (update_where P f xs))) \<subseteq> set (map k (filter A xs))
    \<and> (distinct (map k (filter A xs)) \<longrightarrow> distinct (map k (filter A (update_where P f xs))))"
    by (rule Cons.IH) (use Cons.prems in auto)
  moreover have "update_where P f (x # xs) = (if P x then f x else x) # update_where P f xs"
    by (simp add: update_where_def)
  ultimately show ?case using Cons.prems [of x] by (auto simp del: set_update_where)
qed (simp add: update_where_def)

text \<open>One statement that changes rows of the relation itself.\<close>

lemma work_change:
  assumes "\<And>c. work b low F G S c \<Longrightarrow> wf_catalog (g c) \<and> (b \<longrightarrow> sane low (g c)) \<and> F (g c)"
    and "\<And>c. all_oids (g c) = all_oids c \<or> set (all_oids (g c)) \<subseteq> set (all_oids c)" "\<And>c. next_oid (g c) = next_oid c"
    and "lasting G" "\<And>c. types (g c) = types c" "\<And>c. constraints (g c) = constraints c"
  shows "body_spec (work b low F G S) (cexec X w (\<lambda>c. Some (g c))) (\<lambda>_. work b low F G S)"
proof (rule body_exec)
  fix c d assume c: "work b low F G S c" and "Some (g c) = Some d"
  then have d: "d = g c" by simp
  have "unused i d" if "unused i c" for i
    unfolding d by (rule unused_less [OF that]) (use assms(2) [of c] assms(3) in auto)
  then have "pool S d" using workD(3) [OF c] by (simp add: pool_def)
  moreover have "G d" by (rule lastingD [OF assms(4) workD(5) [OF c]]) (simp_all add: d assms)
  ultimately show "work b low F G S d" using assms(1) [OF c] by (simp add: work_def d)
qed

lemma sane_del_columns: "sane low c \<Longrightarrow> sane low (c\<lparr>cols := filter P (cols c)\<rparr>)"
proof -
  assume s: "sane low c"
  have "integral low (c\<lparr>cols := filter P (cols c)\<rparr>)" using s unfolding sane_def integral_iff by (simp add: active_names_def)
  moreover have "types_ok (c\<lparr>cols := filter P (cols c)\<rparr>)"
    using s unfolding sane_def types_ok_def by (simp add: column_type_def)
  ultimately show "sane low (c\<lparr>cols := filter P (cols c)\<rparr>)" using s by (simp add: sane_def deps_ok_def)
qed

lemma sane_del_depends: "sane low c \<Longrightarrow> sane low (c\<lparr>depends := filter P (depends c)\<rparr>)"
  by (rule sane_deps) auto

lemma sane_update_relations:
  assumes "sane low c"
    and f: "\<And>r. r \<in> set (relations c) \<Longrightarrow> P r \<Longrightarrow> rel_oid (f r) = rel_oid r \<and> rel_namespace (f r) = rel_namespace r
      \<and> rel_name (f r) = rel_name r \<and> rel_type (f r) = rel_type r \<and> (rel_status (f r) = ''active'' \<longrightarrow> rel_status r = ''active'')"
  shows "sane low (c\<lparr>relations := update_where P f (relations c)\<rparr>)"
proof -
  let ?rs = "update_where P f (relations c)"
  have pre: "\<exists>q\<in>set (relations c). rel_oid r = rel_oid q \<and> rel_namespace r = rel_namespace q \<and> rel_type r = rel_type q"
    if "r \<in> set ?rs" for r
  proof -
    obtain q where q: "q \<in> set (relations c)" "r = (if P q then f q else q)" using \<open>r \<in> set ?rs\<close> by (auto simp: set_update_where)
    then show ?thesis by (cases "P q") (auto simp: f intro!: bexI [of _ q])
  qed
  have ids: "rel_oid ` set ?rs = rel_oid ` set (relations c)"
    unfolding set_update_where image_image by (rule image_cong [OF refl]) (simp add: f)
  have "set (active_names low (c\<lparr>relations := ?rs\<rparr>)) \<subseteq> set (active_names low c)
      \<and> (distinct (active_names low c) \<longrightarrow> distinct (active_names low (c\<lparr>relations := ?rs\<rparr>)))"
    unfolding active_names_def using keys_update_where
      [of "relations c" P "\<lambda>r. (rel_namespace r, low (rel_name r))" f "\<lambda>r. rel_status r = ''active''"] f by simp
  moreover have "\<forall>r\<in>set ?rs. rel_namespace r \<in> sch_oid ` set (schemas c)"
    using assms(1) pre unfolding sane_def integral_iff by metis
  ultimately have "integral low (c\<lparr>relations := ?rs\<rparr>)"
    using assms(1) unfolding sane_def integral_iff by (simp add: ids)
  moreover have "types_ok (c\<lparr>relations := ?rs\<rparr>)"
  proof -
    have "rel_oid r \<noteq> 0 \<and> (rel_type r = 0 \<or> rel_type r \<in> ty_oid ` set (types c))
          \<and> (\<forall>t\<in>set (types c). ty_oid t = rel_type r \<longrightarrow> ty_relid t = rel_oid r)" if "r \<in> set ?rs" for r
      using pre [OF that] assms(1) unfolding sane_def types_ok_def by metis
    then show ?thesis using assms(1) unfolding sane_def types_ok_def by (simp add: column_type_def)
  qed
  ultimately show ?thesis using assms(1) by (simp add: sane_def deps_ok_def)
qed

end
