(* ===== verification/Partition_Index.thy ===== *)
theory Partition_Index
  imports Relation_Steps
begin

text \<open>
  The partitions of a managed table and the indexes they share: the lookups of
  \<^verbatim>\<open>src/catalog/recovery.rs\<close> and \<^verbatim>\<open>src/catalog/mutation/drop.rs\<close> that join
  \<^verbatim>\<open>rs_partition\<close> with its child relations, and the lower half of
  \<^verbatim>\<open>src/catalog/mutation/index.rs\<close>, which keeps one physical index per active partition for
  every index of the parent. Relations and schemas have unique identifiers, so each partition row
  joins at most one of either.
\<close>

section \<open>Children\<close>

definition relation_by_oid :: "catalog \<Rightarrow> int \<Rightarrow> rs_relation option" where
  "relation_by_oid c i = List.find (\<lambda>r. rel_oid r = i) (relations c)"

definition schema_of_relation :: "catalog \<Rightarrow> rs_relation \<Rightarrow> rs_schema option" where
  "schema_of_relation c r = List.find (\<lambda>n. sch_oid n = rel_namespace r) (schemas c)"

text \<open>The rows of \<^verbatim>\<open>rs_partition p JOIN rs_relation c JOIN rs_schema n\<close>.\<close>

definition joined_partition :: "catalog \<Rightarrow> rs_partition \<Rightarrow> (rs_partition \<times> rs_relation \<times> rs_schema) option" where
  "joined_partition c p = Option.bind (relation_by_oid c (par_child p)) (\<lambda>r.
     map_option (\<lambda>n. (p, r, n)) (schema_of_relation c r))"

definition joined_partitions ::
    "catalog \<Rightarrow> (rs_partition \<Rightarrow> bool) \<Rightarrow> (rs_partition \<times> rs_relation \<times> rs_schema) list" where
  "joined_partitions c P = List.map_filter (joined_partition c) (filter P (parts c))"

text \<open>\<^verbatim>\<open>ORDER BY p.is_null_partition, p.partition_value\<close>\<close>

definition by_partition_order ::
    "(rs_partition \<times> 'a) list \<Rightarrow> (rs_partition \<times> 'a) list" where
  "by_partition_order rows = sort_key (\<lambda>(p, _). par_is_null p) (sort_key (\<lambda>(p, _). par_value p) rows)"

record active_partition_child =
  ap_child_oid :: int
  ap_schema :: string
  ap_relname :: string
  ap_child_status :: string

definition active_child :: "rs_partition \<times> rs_relation \<times> rs_schema \<Rightarrow> active_partition_child" where
  "active_child = (\<lambda>(p, r, n). \<lparr>ap_child_oid = par_child p, ap_schema = sch_name n, ap_relname = rel_name r,
     ap_child_status = rel_status r\<rparr>)"

definition active_partition_children :: "'p external \<Rightarrow> int \<Rightarrow> ('p, active_partition_child list) db" where
  "active_partition_children X parent_oid = cquery X ''query active partition lookup failed'' (\<lambda>c.
     map active_child (by_partition_order
       (joined_partitions c (\<lambda>p. par_parent p = parent_oid \<and> par_status p = ''active''))))"

record partition_child_meta =
  pc_meta :: relation_meta
  pc_schema :: string
  pc_relname :: string

definition child_meta :: "rs_partition \<times> rs_relation \<times> rs_schema \<Rightarrow> partition_child_meta" where
  "child_meta = (\<lambda>(p, r, n). \<lparr>pc_meta = meta_of r, pc_schema = sch_name n, pc_relname = rel_name r\<rparr>)"

definition partition_child_metas :: "'p external \<Rightarrow> int \<Rightarrow> ('p, partition_child_meta list) db" where
  "partition_child_metas X parent_oid = cquery X ''query partition child lookup failed'' (\<lambda>c.
     map child_meta (by_partition_order (joined_partitions c (\<lambda>p. par_parent p = parent_oid))))"

section \<open>Indexes of a partitioned table\<close>

record partition_index_spec =
  pi_index_oid :: int
  pi_index_name :: string
  pi_columns :: "string list"
  pi_unique :: bool

definition partition_index_name :: "string \<Rightarrow> string \<Rightarrow> string" where
  "partition_index_name child_relname parent_index_name = child_relname @ ''__'' @ parent_index_name"

definition duckdb_index_exists :: "'p external \<Rightarrow> string \<Rightarrow> string \<Rightarrow> ('p, bool) db" where
  "duckdb_index_exists X schema index_name =
     cphys X ''query DuckDB index failed'' (\<lambda>p. (schema, index_name) \<in> set (ph_indexes p))"

definition partitioned_index_parent :: "'p external \<Rightarrow> int \<Rightarrow> ('p, int option) db" where
  "partitioned_index_parent X index_oid = cquery X ''query partitioned index parent lookup failed'' (\<lambda>c.
     map_option idx_indrelid (first_of (filter (\<lambda>i. idx_relid i = index_oid
       \<and> list_ex (\<lambda>r. rel_oid r = idx_indrelid i \<and> rel_kind r = ''p'') (relations c)) (indexes c))))"

definition partition_index_rows :: "catalog \<Rightarrow> int \<Rightarrow> (rs_index \<times> rs_relation) list" where
  "partition_index_rows c parent_oid = List.map_filter (\<lambda>i. map_option (\<lambda>r. (i, r))
       (List.find (\<lambda>r. rel_oid r = idx_relid i \<and> rel_status r = ''active'') (relations c)))
     (sort_key idx_relid (filter (\<lambda>i. idx_indrelid i = parent_oid) (indexes c)))"

definition partition_index_spec_of :: "'p external \<Rightarrow> int \<Rightarrow> rs_index \<times> rs_relation \<Rightarrow> ('p, partition_index_spec) db" where
  "partition_index_spec_of X parent_oid row =
     cbind (clift (parse_attnum_list (idx_key (fst row)))) (\<lambda>attnums.
     cbind (cmapM (column_name_by_attnum X parent_oid) attnums) (\<lambda>columns.
     creturn \<lparr>pi_index_oid = idx_relid (fst row), pi_index_name = rel_name (snd row), pi_columns = columns,
       pi_unique = idx_isunique (fst row)\<rparr>))"

definition partition_index_specs :: "'p external \<Rightarrow> int \<Rightarrow> ('p, partition_index_spec list) db" where
  "partition_index_specs X parent_oid =
     cbind (cquery X ''query partition index lookup failed'' (\<lambda>c. partition_index_rows c parent_oid)) (\<lambda>rows.
     cmapM (partition_index_spec_of X parent_oid) rows)"

definition create_partition_index :: "'p external \<Rightarrow> partition_index_spec \<Rightarrow> string \<Rightarrow> ('p, unit) db" where
  "create_partition_index X ispec child_relname =
     (let child_index = partition_index_name child_relname (pi_index_name ispec) in
      cbind (duckdb_index_exists X ''rsduck_internal'' child_index) (\<lambda>present.
      if present then creturn ()
      else cddl X ''execute DuckDB CREATE partition index failed''
        (''CREATE '' @ (if pi_unique ispec then ''UNIQUE '' else []) @ ''INDEX '' @ quote_ident child_index @ '' ON ''
         @ quote_qualified ''rsduck_internal'' child_relname
         @ '' ('' @ join '', '' (map quote_ident (pi_columns ispec)) @ '')'')))"

definition create_partition_indexes :: "'p external \<Rightarrow> int \<Rightarrow> string \<Rightarrow> ('p, unit) db" where
  "create_partition_indexes X parent_oid child_relname =
     cbind (partition_index_specs X parent_oid) (\<lambda>specs.
     cforeach (\<lambda>ispec. create_partition_index X ispec child_relname) specs)"

definition create_partition_indexes_from_columns ::
    "'p external \<Rightarrow> int \<Rightarrow> string \<Rightarrow> string list \<Rightarrow> bool \<Rightarrow> ('p, unit) db" where
  "create_partition_indexes_from_columns X parent_oid index_name columns unique =
     cbind (active_partition_children X parent_oid) (\<lambda>children.
     cforeach (\<lambda>partition. create_partition_index X
       \<lparr>pi_index_oid = 0, pi_index_name = index_name, pi_columns = columns, pi_unique = unique\<rparr> (ap_relname partition))
       children)"

section \<open>What they read\<close>

lemma partition_reads_ro [ro]:
  "read_only (active_partition_children X i)" "read_only (partition_child_metas X i)"
  "read_only (duckdb_index_exists X s n)" "read_only (partitioned_index_parent X i)"
  "read_only (partition_index_specs X i)"
  unfolding active_partition_children_def partition_child_metas_def duckdb_index_exists_def
    partitioned_index_parent_def partition_index_specs_def partition_index_spec_of_def
  by (intro ro)+

text \<open>Statements on the physical objects only: the catalog stays as it is.\<close>

definition physical_only :: "('p, 'a) db \<Rightarrow> bool" where
  "physical_only m \<longleftrightarrow> (\<forall>A. body_spec A m (\<lambda>_. A))"

lemma physical_onlyD: "physical_only m \<Longrightarrow> body_spec A m (\<lambda>_. A)"
  by (simp add: physical_only_def)

lemma physical_read: "read_only m \<Longrightarrow> physical_only m"
  by (simp add: physical_only_def body_read_only)

lemma physical_ddl: "physical_only (cddl X w sql)"
  by (simp add: physical_only_def sp_ddl)

lemma physical_bind: "physical_only m \<Longrightarrow> (\<And>v. physical_only (f v)) \<Longrightarrow> physical_only (cbind m f)"
  unfolding physical_only_def by (blast intro: body_bind)

lemma physical_foreach: "(\<And>x. physical_only (f x)) \<Longrightarrow> physical_only (cforeach f xs)"
  unfolding physical_only_def by (blast intro: body_foreach)

lemma physical_if: "physical_only m \<Longrightarrow> physical_only n \<Longrightarrow> physical_only (if b then m else n)"
  by simp

lemma partition_index_physical:
  "physical_only (create_partition_index X ispec r)" "physical_only (create_partition_indexes X i r)"
  "physical_only (create_partition_indexes_from_columns X i n cs u)"
  unfolding create_partition_indexes_def create_partition_indexes_from_columns_def create_partition_index_def Let_def
  by (intro physical_bind physical_foreach physical_if physical_ddl physical_read ro)+

end
