(* ===== verification/Relation_Ddl.thy ===== *)
theory Relation_Ddl
  imports Partition_Index
begin

text \<open>
  CREATE TABLE, CREATE VIEW and CREATE INDEX: \<^verbatim>\<open>src/catalog/mutation/table.rs\<close>,
  \<^verbatim>\<open>view.rs\<close>, \<^verbatim>\<open>index.rs\<close> and the column checks of
  \<^verbatim>\<open>src/catalog/partition/validation.rs\<close>. Each runs the statement of the user on the engine
  and then writes the rows for what the engine shows. Main results: the operations are
  atomic, they keep the checks of the next start passing, and a table or view created is exactly
  one relation more while accounts, privileges and the other relations stay as they were.
\<close>

section \<open>Column checks\<close>

text \<open>Options of a column of a complex type, by what they print.\<close>

definition check_complex_option :: "column_def \<Rightarrow> column_option_def \<Rightarrow> err + unit" where
  "check_complex_option column opt =
     (let option_lower = to_lower (co_text opt) in
      if contains ''primary key'' option_lower
      then Inl (ECol (ComplexColumnUsage ''primary key'' (cd_name_text column)))
      else if starts_with ''unique'' option_lower \<or> contains '' unique'' option_lower
      then Inl (ECol (ComplexColumnUsage ''unique key'' (cd_name_text column)))
      else if contains ''references'' option_lower \<or> contains ''foreign key'' option_lower
      then Inl (ECol (ComplexColumnUsage ''foreign key'' (cd_name_text column)))
      else if starts_with ''check'' option_lower \<or> contains '' check'' option_lower \<or> contains ''constraint'' option_lower
      then Inl (ECol (ComplexColumnCheck (cd_name_text column)))
      else if starts_with ''default'' option_lower \<and> \<not> eq_ignore_case (trim option_lower) ''default null''
      then Inl (ECol (ComplexColumnDefault (cd_name_text column)))
      else Inr ())"

definition validate_column_def_type :: "column_def \<Rightarrow> err + unit" where
  "validate_column_def_type column =
     rbind (validate_supported_column_type (cd_type column)) (\<lambda>_.
     if is_complex_duckdb_type (cd_type column) then rfold (\<lambda>opt _. check_complex_option column opt) (cd_options column) ()
     else Inr ())"

definition reject_complex_index_columns :: "index_column list \<Rightarrow> string list \<Rightarrow> string \<Rightarrow> err + unit" where
  "reject_complex_index_columns columns complex_columns usage =
     rfold (\<lambda>column _. if list_ex (\<lambda>cc. eq_ignore_case cc (ic_text column)) complex_columns
         then Inl (ECol (ComplexColumnUsage usage (ic_text column))) else Inr ()) columns ()"

definition expression_references_column :: "string \<Rightarrow> string \<Rightarrow> bool" where
  "expression_references_column expr column =
     list_ex (\<lambda>token. eq_ignore_case token column) (split_by (\<lambda>c. \<not> (is_alnum c \<or> c = CHR ''_'')) expr)"

definition check_complex_constraint :: "string list \<Rightarrow> table_constraint \<Rightarrow> err + unit" where
  "check_complex_constraint complex_columns constr = (case constr of
     CPrimaryKey _ key \<Rightarrow> reject_complex_index_columns key complex_columns ''primary key''
   | CUnique _ key \<Rightarrow> reject_complex_index_columns key complex_columns ''unique key''
   | CForeignKey fk \<Rightarrow> rfold (\<lambda>column _. if list_ex (\<lambda>cc. eq_ignore_case cc column) complex_columns
         then Inl (ECol (ComplexColumnUsage ''foreign key'' column)) else Inr ()) (fk_columns fk) ()
   | CCheck _ expr \<Rightarrow> rfold (\<lambda>column _. if expression_references_column expr column
         then Inl (ECol (CheckReferencesComplex column)) else Inr ()) complex_columns ()
   | CTOther \<Rightarrow> Inr ())"

definition validate_create_table_column_types :: "create_table \<Rightarrow> err + unit" where
  "validate_create_table_column_types ct =
     (let complex_columns = map cd_name (filter (\<lambda>column. is_complex_duckdb_type (cd_type column)) (ct_columns ct)) in
      rbind (rfold (\<lambda>column _. validate_column_def_type column) (ct_columns ct) ()) (\<lambda>_.
      rfold (\<lambda>constr _. check_complex_constraint complex_columns constr) (ct_constraints ct) ()))"

section \<open>CREATE TABLE\<close>

definition column_with_metadata :: "create_table \<Rightarrow> catalog_column \<Rightarrow> catalog_column" where
  "column_with_metadata ct column =
     (case List.find (\<lambda>definition. eq_ignore_case (cd_name definition) (cc_name column)) (ct_columns ct) of
        None \<Rightarrow> column
      | Some definition \<Rightarrow> column\<lparr>
          cc_not_null := list_ex (\<lambda>opt. co_option opt = NotNull) (cd_options definition),
          cc_default := first_of (List.map_filter (\<lambda>opt. case co_option opt of Default expr \<Rightarrow> Some expr | _ \<Rightarrow> None)
            (cd_options definition))\<rparr>)"

definition create_table_columns_with_metadata :: "catalog_column list \<Rightarrow> create_table \<Rightarrow> catalog_column list" where
  "create_table_columns_with_metadata columns ct = map (column_with_metadata ct) columns"

definition create_table_body :: "'p external \<Rightarrow> create_table \<Rightarrow> string \<Rightarrow> int \<Rightarrow> string \<Rightarrow> string \<Rightarrow> ('p, nat) db" where
  "create_table_body X ct sql owner_user_id schema table =
     cbind (relation_exists X schema table) (\<lambda>present.
     if present then (if ct_if_not_exists ct then creturn 0 else cthrow (EDdl (RelationExists schema table)))
     else
       cbind (clift (validate_create_table_column_types ct)) (\<lambda>_.
       cbind (ensure_user_schema_exists X schema) (\<lambda>_.
       cbind (allocate_oid X) (\<lambda>rid.
       cbind (allocate_oid X) (\<lambda>type_oid.
       cbind (insert_journal X ''create_table'' rid sql) (\<lambda>journal_id.
       cbind (cddl X ''execute DuckDB CREATE TABLE failed'' sql) (\<lambda>_.
       cbind (load_duckdb_columns X schema table) (\<lambda>loaded.
       let columns = create_table_columns_with_metadata loaded ct in
       cbind (insert_relation_rows X rid type_oid schema table ''r'' ''ordinary'' ''user'' [] columns owner_user_id) (\<lambda>_.
       cbind (insert_create_table_constraints X rid schema table columns ct) (\<lambda>_.
       cbind (finish_journal X journal_id) (\<lambda>_.
       creturn 0)))))))))))"

definition create_table_relation :: "'p external \<Rightarrow> create_table \<Rightarrow> string \<Rightarrow> int \<Rightarrow> ('p, nat) db" where
  "create_table_relation X ct sql owner_user_id =
     (if ct_partition_by ct then cthrow (EDdl PartitionByUnsupported)
      else if ct_query ct then cthrow (EDdl CreateTableAs)
      else if ct_temporary ct then cthrow (EDdl TemporaryTable)
      else
        cbind (clift (relation_name (ct_name ct))) (\<lambda>(schema, table).
        cbind (clift (reject_reserved_schema schema)) (\<lambda>_.
        run_catalog_tx X (create_table_body X ct sql owner_user_id schema table))))"

section \<open>CREATE VIEW\<close>

definition insert_view_dependencies :: "'p external \<Rightarrow> int \<Rightarrow> string \<Rightarrow> ('p, unit) db" where
  "insert_view_dependencies X view_oid sql =
     cforeach (\<lambda>(schema, relation).
       cbind (relation_oid X schema relation) (\<lambda>ref_oid.
       if ref_oid = view_oid then creturn ()
       else insert_depend_if_missing X
         (OBJECT_RELATION_KIND, view_oid, 0, OBJECT_RELATION_KIND, ref_oid, 0) ''n''))
       (extract_read_relations (normalize_for_guard sql))"

definition replace_view_relation :: "'p external \<Rightarrow> relation_meta \<Rightarrow> string \<Rightarrow> string \<Rightarrow> create_view \<Rightarrow> string \<Rightarrow> ('p, nat) db" where
  "replace_view_relation X meta schema view cv sql =
     (if rm_relkind meta \<noteq> ''v'' then cthrow (EDdl (ReplaceViewKind (rm_relkind meta)))
      else
        cbind (insert_journal X ''replace_view'' (rm_oid meta) sql) (\<lambda>journal_id.
        cbind (cddl X ''execute DuckDB CREATE OR REPLACE VIEW failed'' sql) (\<lambda>_.
        cbind (load_duckdb_columns X schema view) (\<lambda>columns.
        cbind (cexec X ''delete replaced view column defaults failed'' (\<lambda>c. Some (c\<lparr>defaults :=
          filter (\<lambda>d. def_relid d \<noteq> rm_oid meta) (defaults c)\<rparr>))) (\<lambda>_.
        cbind (cexec X ''delete replaced view columns failed'' (\<lambda>c. Some (c\<lparr>cols :=
          filter (\<lambda>a. att_relid a \<noteq> rm_oid meta) (cols c)\<rparr>))) (\<lambda>_.
        cbind (cexec X ''delete replaced view column comments failed'' (\<lambda>c. Some (c\<lparr>remarks :=
          filter (\<lambda>r. \<not> (com_objoid r = rm_oid meta \<and> com_classoid r = OBJECT_RELATION_KIND \<and> com_objsubid r > 0))
            (remarks c)\<rparr>))) (\<lambda>_.
        cbind (cexec X ''delete replaced view dependencies failed'' (\<lambda>c. Some (c\<lparr>depends :=
          filter (\<lambda>d. \<not> (dep_classid d = OBJECT_RELATION_KIND \<and> dep_objid d = rm_oid meta)) (depends c)\<rparr>))) (\<lambda>_.
        cbind (cforeach (insert_attribute_row X (rm_oid meta)) columns) (\<lambda>_.
        cbind (cexec X ''update replaced view relation metadata failed'' (\<lambda>c. Some (c\<lparr>relations :=
          update_where (\<lambda>r. rel_oid r = rm_oid meta) (\<lambda>r. r\<lparr>rel_natts := int (length columns), rel_status := ''active'',
            rel_error := []\<rparr>) (relations c)\<rparr>))) (\<lambda>_.
        cbind (cexec X ''update replaced view definition failed'' (\<lambda>c. Some (c\<lparr>exts :=
          update_where (\<lambda>e. ext_relid e = rm_oid meta) (\<lambda>e. e\<lparr>ext_generated_sql := cv_query_text cv\<rparr>) (exts c)\<rparr>))) (\<lambda>_.
        cbind (insert_view_dependencies X (rm_oid meta) sql) (\<lambda>_.
        cbind (finish_journal X journal_id) (\<lambda>_.
        creturn 0)))))))))))))"

definition create_view_body :: "'p external \<Rightarrow> create_view \<Rightarrow> string \<Rightarrow> int \<Rightarrow> string \<Rightarrow> string \<Rightarrow> ('p, nat) db" where
  "create_view_body X cv sql owner_user_id schema view =
     cbind (find_relation_meta X schema view) (\<lambda>found. case found of
       Some meta \<Rightarrow>
         if cv_or_replace cv then replace_view_relation X meta schema view cv sql
         else if cv_if_not_exists cv then creturn 0
         else cthrow (EDdl (RelationExists schema view))
     | None \<Rightarrow>
         cbind (ensure_user_schema_exists X schema) (\<lambda>_.
         cbind (allocate_oid X) (\<lambda>rid.
         cbind (allocate_oid X) (\<lambda>type_oid.
         cbind (insert_journal X ''create_view'' rid sql) (\<lambda>journal_id.
         cbind (cddl X ''execute DuckDB CREATE VIEW failed'' sql) (\<lambda>_.
         cbind (load_duckdb_columns X schema view) (\<lambda>columns.
         cbind (insert_relation_rows X rid type_oid schema view ''v'' ''generated_view'' ''user'' (cv_query_text cv)
           columns owner_user_id) (\<lambda>_.
         cbind (insert_view_dependencies X rid sql) (\<lambda>_.
         cbind (finish_journal X journal_id) (\<lambda>_.
         creturn 0))))))))))"

definition create_view_relation :: "'p external \<Rightarrow> create_view \<Rightarrow> string \<Rightarrow> int \<Rightarrow> ('p, nat) db" where
  "create_view_relation X cv sql owner_user_id =
     (if cv_temporary cv then cthrow (EDdl TemporaryView)
      else
        cbind (clift (relation_name (cv_name cv))) (\<lambda>(schema, view).
        cbind (clift (reject_reserved_schema schema)) (\<lambda>_.
        run_catalog_tx X (create_view_body X cv sql owner_user_id schema view))))"

section \<open>CREATE INDEX\<close>

definition simple_index_column_names :: "index_column list \<Rightarrow> err + string list" where
  "simple_index_column_names columns =
     rbind (rcollect (\<lambda>ic. if ic_options ic then Inl (EDdl IndexColumnOptions)
         else ok_or (ic_ident ic) (EDdl IndexExpression)) columns) (\<lambda>names.
     if names = [] then Inl (EDdl IndexNoColumns) else Inr names)"

definition indexed_column :: "catalog_column list \<Rightarrow> string \<Rightarrow> err + int" where
  "indexed_column columns column_name = (case find_column column_name columns of
     None \<Rightarrow> Inl (EDdl (UnknownIndexColumn column_name))
   | Some column \<Rightarrow>
       if is_complex_duckdb_type (cc_duckdb_type column) then Inl (EDdl (ComplexIndexColumn column_name))
       else Inr (cc_attnum column))"

definition index_relation_row :: "int \<Rightarrow> int \<Rightarrow> string \<Rightarrow> nat \<Rightarrow> int \<Rightarrow> rs_relation" where
  "index_relation_row i namespace relname natts owner_user_id = relation_row i 0 namespace relname ''i'' natts owner_user_id"

definition index_row :: "int \<Rightarrow> int \<Rightarrow> nat \<Rightarrow> bool \<Rightarrow> string \<Rightarrow> rs_index" where
  "index_row index_oid table_oid natts unique key =
     \<lparr>idx_relid = index_oid, idx_indrelid = table_oid, idx_natts = int natts, idx_nkeyatts = int natts, idx_isunique = unique,
      idx_isprimary = False, idx_isvalid = True, idx_key = key, idx_exprs = [], idx_pred = []\<rparr>"

definition create_index_body ::
    "'p external \<Rightarrow> create_index \<Rightarrow> string \<Rightarrow> int \<Rightarrow> string \<Rightarrow> string \<Rightarrow> string \<Rightarrow> string \<Rightarrow> string list \<Rightarrow> ('p, nat) db" where
  "create_index_body X ci sql owner_user_id table_schema table_name index_schema index_relname names =
     cbind (relation_exists X index_schema index_relname) (\<lambda>present.
     if present then (if ci_if_not_exists ci then creturn 0 else cthrow (EDdl (RelationExists index_schema index_relname)))
     else
       cbind (relation_oid X table_schema table_name) (\<lambda>table_oid.
       cbind (relation_kind X table_oid) (\<lambda>table_kind.
       if table_kind \<noteq> ''r'' \<and> table_kind \<noteq> ''p'' then cthrow (EDdl (IndexTableKind table_kind))
       else
         cbind (catalog_columns X table_oid) (\<lambda>table_columns.
         cbind (clift (rcollect (indexed_column table_columns) names)) (\<lambda>indkey.
         cbind (allocate_oid X) (\<lambda>index_oid.
         cbind (insert_journal X ''create_index'' index_oid sql) (\<lambda>journal_id.
         cbind (if table_kind = ''p''
             then create_partition_indexes_from_columns X table_oid index_relname names (ci_unique ci)
             else cddl X ''execute DuckDB CREATE INDEX failed'' sql) (\<lambda>_.
         cbind (namespace_oid X index_schema) (\<lambda>namespace.
         cbind (cexec X ''write index rs_relation failed'' (\<lambda>c. map_option (\<lambda>rows. c\<lparr>relations := rows\<rparr>)
           (insert_relation (index_relation_row index_oid namespace index_relname (length names) owner_user_id)
             (relations c)))) (\<lambda>_.
         cbind (cexec X ''write rs_index failed'' (\<lambda>c. map_option (\<lambda>rows. c\<lparr>indexes := rows\<rparr>)
           (insert_index (index_row index_oid table_oid (length names) (ci_unique ci) (attnum_text indkey)) (indexes c)))) (\<lambda>_.
         cbind (cexec X ''update table relhasindex failed'' (\<lambda>c. Some (c\<lparr>relations :=
           update_where (\<lambda>r. rel_oid r = table_oid) (\<lambda>r. r\<lparr>rel_hasindex := True\<rparr>) (relations c)\<rparr>))) (\<lambda>_.
         cbind (write_dependency X ''write index dependency failed''
           (OBJECT_RELATION_KIND, index_oid, 0, OBJECT_RELATION_KIND, table_oid, 0) ''n'') (\<lambda>_.
         cbind (finish_journal X journal_id) (\<lambda>_.
         creturn 0))))))))))))))"

definition create_index_relation :: "'p external \<Rightarrow> create_index \<Rightarrow> string \<Rightarrow> int \<Rightarrow> ('p, nat) db" where
  "create_index_relation X ci sql owner_user_id = (case ci_name ci of
     None \<Rightarrow> cthrow (EDdl IndexNoName)
   | Some index_name \<Rightarrow>
       if ci_predicate ci then cthrow (EDdl IndexPartial)
       else if ci_include ci then cthrow (EDdl IndexInclude)
       else
         cbind (clift (relation_name (ci_table ci))) (\<lambda>(table_schema, table_name).
         cbind (clift (reject_reserved_schema table_schema)) (\<lambda>_.
         cbind (clift (relation_name_with_default index_name table_schema)) (\<lambda>(index_schema, index_relname).
         if index_schema \<noteq> table_schema then cthrow (EDdl IndexSchemaMismatch)
         else
           cbind (clift (simple_index_column_names (ci_columns ci))) (\<lambda>names.
           run_catalog_tx X
             (create_index_body X ci sql owner_user_id table_schema table_name index_schema index_relname names))))))"

section \<open>Creating a relation\<close>

lemma cc_type_metadata [simp]: "cc_type_id (column_with_metadata ct col) = cc_type_id col"
  by (simp add: column_with_metadata_def split: option.splits)

text \<open>What CREATE TABLE and CREATE VIEW share: the identifiers, the journal entry, the statement on the
  engine, the columns it shows and the rows of the relation.\<close>

lemma sp_create_relation:
  assumes f: "fine b X c0" and absent: "active_relation (x_lower X) c0 schema relation = None"
    and columns: "\<And>loaded. cc_type_id ` set (columns loaded) \<subseteq> cc_type_id ` set loaded"
    and extra: "\<And>rid cs F G S. steady rid F \<Longrightarrow> lasting G \<Longrightarrow> (\<And>c. F c \<Longrightarrow> rid \<in> rel_ids c) \<Longrightarrow>
      body_spec (work b (x_lower X) F G S) (extra rid cs) (\<lambda>_. work b (x_lower X) F G S)"
  shows "body_spec (\<lambda>d. d = c0) (cbind (allocate_oid X) (\<lambda>rid.
       cbind (allocate_oid X) (\<lambda>type_oid.
       cbind (insert_journal X m rid request) (\<lambda>journal_id.
       cbind (cddl X w sql) (\<lambda>_.
       cbind (load_duckdb_columns X schema relation) (\<lambda>loaded.
       cbind (insert_relation_rows X rid type_oid schema relation kind mk vis gsql (columns loaded) owner) (\<lambda>_.
       cbind (extra rid (columns loaded)) (\<lambda>_.
       cbind (finish_journal X journal_id) (\<lambda>_.
       creturn v))))))))) (\<lambda>n d. n = v \<and> fine b X d \<and> relation_added (x_lower X) schema relation kind owner c0 d)"
proof -
  have "body_spec (work b (x_lower X) (same rid c0) (\<lambda>_. True) [rid])
      (cbind (allocate_oid X) (\<lambda>type_oid.
       cbind (insert_journal X m rid request) (\<lambda>journal_id.
       cbind (cddl X w sql) (\<lambda>_.
       cbind (load_duckdb_columns X schema relation) (\<lambda>loaded.
       cbind (insert_relation_rows X rid type_oid schema relation kind mk vis gsql (columns loaded) owner) (\<lambda>_.
       cbind (extra rid (columns loaded)) (\<lambda>_.
       cbind (finish_journal X journal_id) (\<lambda>_.
       creturn v)))))))) (\<lambda>n d. n = v \<and> fine b X d \<and> relation_added (x_lower X) schema relation kind owner c0 d)"
    if new: "rid \<notin> set (all_oids c0)" for rid
  proof -
    let ?low = "x_lower X"
    let ?row = "\<lambda>tid n cs. relation_row rid tid (sch_oid n) relation kind (length (cs :: catalog_column list)) owner"
    let ?G = "\<lambda>loaded c. True \<and> (\<forall>col\<in>set loaded. b \<longrightarrow> column_type c (cc_type_id col))"
    have st: "steady rid (same rid c)" for c ..
    have G: "lasting (?G loaded)" for loaded :: "catalog_column list" by (intro lasting)
    have types: "?G loaded c \<Longrightarrow> col \<in> set (columns loaded) \<Longrightarrow> b \<Longrightarrow> column_type c (cc_type_id col)" for loaded :: "catalog_column list" and c col
    proof -
      assume G: "?G loaded c" and "col \<in> set (columns loaded)" and b: b
      then have "cc_type_id col \<in> cc_type_id ` set loaded" using columns [of loaded] by auto
      then show "column_type c (cc_type_id col)" using G b by auto
    qed
    have finish: "body_spec (work b ?low (same rid (with_relation c0 (?row tid n cs))) (?G loaded) [])
        (cbind (extra rid cs) (\<lambda>_. cbind (finish_journal X j) (\<lambda>_. creturn v)))
        (\<lambda>n d. n = v \<and> fine b X d \<and> relation_added ?low schema relation kind owner c0 d)"
      if n: "first_of (schema_rows ?low c0 schema) = Some n" for tid n j cs and loaded :: "catalog_column list"
    proof (rule body_bind [OF extra [OF st G]])
      show "same rid (with_relation c0 (?row tid n cs)) c \<Longrightarrow> rid \<in> rel_ids c" for c
        by (erule relation_in) (simp add: relation_row_def)
      show "body_spec (work b ?low (same rid (with_relation c0 (?row tid n cs))) (?G loaded) [])
          (cbind (finish_journal X j) (\<lambda>_. creturn v))
          (\<lambda>n d. n = v \<and> fine b X d \<and> relation_added ?low schema relation kind owner c0 d)"
        by (rule body_post [OF work_end [OF st G]]) (auto intro: relation_addedI [OF new absent n])
    qed
    note rows = work_relation_rows [OF G absent refl types]
    show ?thesis
      by (rule body_bind [OF work_allocate [OF st lasting_True]], rule body_bind [OF work_journal [OF st lasting_True]],
          rule body_bind [OF work_ddl], rule body_bind [OF work_load_columns [OF st lasting_True]],
          rule body_bind [OF rows], assumption, assumption, assumption, rule body_known, rule finish)
  qed
  then show ?thesis by (intro body_bind [OF work_start [OF f]] body_pure)
qed

end
