(* ===== verification/Relation_Ops.thy ===== *)
theory Relation_Ops
  imports Relation_Ddl
begin

text \<open>
  The contract of the operations on relations: that of every catalog operation, and besides it that the
  integrity checks of the next start still pass. CREATE TABLE, CREATE VIEW and CREATE INDEX are
  shown to keep it, and what each of them does to the catalog is stated as a relation between the
  catalog before and after.
\<close>

section \<open>The checks of the start\<close>

lemma sp_ensure_zero:
  "body_spec (\<lambda>d. d = c) (ensure_catalog_count_zero X q v) (\<lambda>_ d. d = c \<and> q c = 0)"
  unfolding ensure_catalog_count_zero_def
  by (rule body_bind [OF body_query, where R = "\<lambda>n d. d = c \<and> n = q c"]) (auto intro!: body_rules)

lemma sp_ensure_all:
  "body_spec (\<lambda>d. d = c) (cforeach (\<lambda>(v, q). ensure_catalog_count_zero X q v) qs) (\<lambda>_ d. d = c \<and> list_all (\<lambda>(_, q). q c = 0) qs)"
proof (induction qs)
  case (Cons a qs)
  obtain v q where a: "a = (v, q)" by force
  have "body_spec (\<lambda>d. d = c \<and> q c = 0) (cforeach (\<lambda>(v, q). ensure_catalog_count_zero X q v) qs)
      (\<lambda>_ d. d = c \<and> list_all (\<lambda>(_, q). q c = 0) (a # qs))"
    by (rule body_pure, rule body_post [OF Cons.IH]) (simp add: a)
  then show ?case by (auto simp: a intro: body_bind [OF sp_ensure_zero])
qed (auto intro: body_return)

lemma validate_runs:
  assumes "reliable X" "list_all (\<lambda>(_, q). q c = 0) qs"
  shows "runs (cforeach (\<lambda>(v, q). ensure_catalog_count_zero X q v) qs) c () c"
  using assms(2)
proof (induction qs)
  case (Cons a qs)
  obtain v q where a: "a = (v, q)" by force
  have "runs (ensure_catalog_count_zero X q v) c () c"
    unfolding ensure_catalog_count_zero_def
    by (rule runs_bind [OF runs_query [OF assms(1)]]) (use Cons.prems a in \<open>simp add: runs_return\<close>)
  then show ?case using Cons a by (auto intro: runs_bind)
qed (simp add: runs_return)

lemma validate_sound: "fst (validate_catalog_integrity X s) = Inr () \<Longrightarrow> integral (x_lower X) (cat s)"
  using body_specD [OF sp_ensure_all [of "cat s" X "integrity_checks (x_lower X)"], of s]
  unfolding validate_catalog_integrity_def integral_def
  by (cases "cforeach (\<lambda>(v, q). ensure_catalog_count_zero X q v) (integrity_checks (x_lower X)) s") auto

lemma validate_complete:
  "reliable X \<Longrightarrow> integral (x_lower X) (cat s) \<Longrightarrow> fst (validate_catalog_integrity X s) = Inr ()"
  using validate_runs [of X "cat s" "integrity_checks (x_lower X)"]
  unfolding validate_catalog_integrity_def integral_def runs_def by (metis fst_conv)

section \<open>The contract\<close>

text \<open>\<open>keeping P m\<close>: a property of the committed catalog that the computation keeps, whatever fails.\<close>

definition keeping :: "(catalog \<Rightarrow> bool) \<Rightarrow> ('p, 'a) db \<Rightarrow> bool" where
  "keeping P m \<longleftrightarrow> (\<forall>s. P (catalog_of s) \<longrightarrow> P (catalog_of (snd (m s))))"

named_theorems keeping_rules "computations that keep a property of the committed catalog"

lemma keeping_tx: "body_spec P f (\<lambda>_. P) \<Longrightarrow> keeping P (run_catalog_tx X f)"
  by (simp add: keeping_def tx_invariant)

lemma keeping_read_bind [keeping_rules]:
  fixes m :: "('p, 'a) db"
  assumes "read_only m" "\<And>v. keeping P (f v)"
  shows "keeping P (cbind m f)"
  unfolding keeping_def
proof (intro allI impI)
  fix s :: "'p conn" assume p: "P (catalog_of s)"
  obtain rm s1 where m: "m s = (rm, s1)" by (cases "m s")
  have "catalog_of s1 = catalog_of s" using committed_read [OF assms(1) m] by (simp add: catalog_of_def)
  then show "P (catalog_of (snd (cbind m f s)))"
    using p m assms(2) by (cases rm) (auto simp: cbind_def keeping_def)
qed

lemma keeping_basic [keeping_rules]: "keeping P (cthrow e)" "keeping P (creturn v)"
  by (simp_all add: keeping_def cthrow_def creturn_def)

lemma keeping_if [keeping_rules]: "keeping P m \<Longrightarrow> keeping P n \<Longrightarrow> keeping P (if b then m else n)"
  by simp

lemma keeping_option [keeping_rules]:
  "keeping P m \<Longrightarrow> (\<And>x. keeping P (f x)) \<Longrightarrow> keeping P (case v of None \<Rightarrow> m | Some x \<Rightarrow> f x)"
  by (cases v) auto

lemma keeping_prod [keeping_rules]: "(\<And>a b. keeping P (f a b)) \<Longrightarrow> keeping P (case v of (a, b) \<Rightarrow> f a b)"
  by (cases v) auto

locale relation_operation = catalog_operation X run
  for X :: "'p external" and run :: "('p, 'a) db" +
  assumes keeps_fine: "fine True X (catalog_of s) \<Longrightarrow> fine True X (catalog_of (snd (run s)))"
begin

text \<open>Any number of runs later the checks of the start pass.\<close>

lemma repeat_fine: "fine True X (catalog_of s) \<Longrightarrow> fine True X (catalog_of (((\<lambda>t. snd (run t)) ^^ n) s))"
  by (induction n) (auto intro: keeps_fine)

lemma checks_pass_after:
  "reliable X \<Longrightarrow> fine True X (catalog_of s) \<Longrightarrow> cat t = catalog_of (((\<lambda>t. snd (run t)) ^^ n) s) \<Longrightarrow>
   fst (validate_catalog_integrity X t) = Inr ()"
  using repeat_fine [of s n] by (intro validate_complete) (simp_all add: fine_def sane_def)

end

lemma relation_operationI: "atomic X m \<Longrightarrow> keeping (fine True X) m \<Longrightarrow> relation_operation X m"
  by unfold_locales (auto dest: atomicD simp: keeping_def)

text \<open>A transaction over a body that keeps both invariants.\<close>

lemma careful_tx:
  assumes "\<And>b. body_spec (fine b X) f (\<lambda>_. fine b X)"
  shows "atomic X (run_catalog_tx X f)" "keeping (fine True X) (run_catalog_tx X f)"
  using assms [of False] assms [of True] by (simp_all add: atomic_tx keeping_tx)

section \<open>CREATE TABLE\<close>

lemma sp_create_table_body:
  assumes f: "fine b X c0"
  shows "body_spec (\<lambda>d. d = c0) (create_table_body X ct sql owner schema table)
     (\<lambda>n d. n = 0 \<and> fine b X d \<and> (ct_if_not_exists ct \<and> d = c0 \<and> relation_rows (x_lower X) c0 schema table \<noteq> []
        \<or> relation_added (x_lower X) schema table ''r'' owner c0 d))"
proof -
  have ex: "body_spec (\<lambda>d. d = c0) (relation_exists X schema table)
      (\<lambda>v d. d = c0 \<and> v = (relation_rows (x_lower X) c0 schema table \<noteq> []))"
    unfolding relation_exists_def by (rule body_query) simp
  show ?thesis
    unfolding create_table_body_def Let_def
  proof (rule body_bind [OF ex], rule body_pure, rule body_if, goal_cases)
    case (1 present)
    then show ?case using f by (auto intro!: body_rules)
  next
    case (2 present)
    then have absent: "active_relation (x_lower X) c0 schema table = None" by (intro no_rows_not_active) simp
    show ?case
      by (rule body_bind [OF body_read_only [OF ro_lift]], rule body_bind [OF body_read_only [OF lookup_ro(2)]],
          rule body_post [OF sp_create_relation [OF f absent]])
        (auto simp: create_table_columns_with_metadata_def image_iff intro!: work_table_constraints)
  qed
qed

lemma fine_body:
  assumes "\<And>c0. fine b X c0 \<Longrightarrow> body_spec (\<lambda>d. d = c0) f (Q c0)" "\<And>v c0 d. Q c0 v d \<Longrightarrow> fine b X d"
  shows "body_spec (fine b X) f (\<lambda>_. fine b X)"
  by (rule body_assume, rule body_conseq [OF assms(1)]) (auto intro: assms(2))

section \<open>CREATE VIEW\<close>

lemma work_relation_oid:
  "body_spec (work b low F G S) (relation_oid X s r) (\<lambda>i. work b low (\<lambda>c. F c \<and> i \<in> rel_ids c) G S)"
  by (rule body_post [OF sp_relation_oid]) (auto simp: work_def dest!: sym [of _ "Some _"] active_relation_rel)

lemma work_view_dependencies:
  assumes st: "steady rid F" and ls: "lasting G" and F: "\<And>c. F c \<Longrightarrow> view \<in> rel_ids c"
  shows "body_spec (work b low F G S) (insert_view_dependencies X view sql) (\<lambda>_. work b low F G S)"
proof -
  have one: "body_spec (work b low F G S) (cbind (relation_oid X s r) (\<lambda>i. if i = view then creturn ()
       else insert_depend_if_missing X (OBJECT_RELATION_KIND, view, 0, OBJECT_RELATION_KIND, i, 0) ''n''))
     (\<lambda>_. work b low F G S)" for s r
  proof (rule body_bind [OF work_relation_oid], rule body_if, rule body_return, goal_cases)
    case (2 i)
    have "body_spec (work b low (\<lambda>c. F c \<and> i \<in> rel_ids c) G S)
        (insert_depend_if_missing X (OBJECT_RELATION_KIND, view, 0, OBJECT_RELATION_KIND, i, 0) ''n'')
        (\<lambda>_. work b low (\<lambda>c. F c \<and> i \<in> rel_ids c) G S)"
      by (rule work_depend [OF steady_rel_ids [OF st] ls])
        (use F in \<open>auto simp: dep_allowed_def dependency_row_def dest!: workD(4)\<close>)
    then show ?case by (rule work_forget)
  qed (auto simp: work_def)
  show ?thesis unfolding insert_view_dependencies_def by (rule body_foreach, rule body_prod) (rule one)
qed

lemma fine_work: "fine b X c \<Longrightarrow> F c \<Longrightarrow> work b (x_lower X) F (\<lambda>_. True) [] c"
  using fineD(2,3) by (auto simp: work_def pool_def)

lemma relation_oid_unique:
  assumes "wf_catalog c" "r \<in> set (relations c)" "r' \<in> set (relations c)" "rel_oid r = rel_oid r'"
  shows "r = r'"
proof -
  have "distinct (map rel_oid (relations c))"
    using wf_oids_distinct [of c] assms(1) by (simp add: wf_catalog_def all_oids_def)
  then show ?thesis using assms by (simp add: distinct_map inj_on_def)
qed

lemma active_relation_row: "active_relation low c s r = Some x \<Longrightarrow> x \<in> set (relations c) \<and> rel_status x = ''active''"
  by (auto simp: active_relation_def relation_rows_def dest!: first_of_in)

text \<open>The statements of CREATE OR REPLACE VIEW on the view's own rows.\<close>

definition own_part :: "int \<Rightarrow> catalog \<Rightarrow> catalog \<Rightarrow> bool" where
  "own_part rid c0 c \<longleftrightarrow> own rid c0 c \<and> relations c = relations c0"

lemma steady_own_part [intro]: "steady rid (own_part rid c0)"
  unfolding own_part_def
  by (intro steady_conj steady_own steadyI [where G = "\<lambda>c. relations c = relations c0"]) simp

lemma own_depends [simp]: "own rid c0 (c\<lparr>depends := ds\<rparr>) = own rid c0 c"
  by (simp add: own_def others_def)

lemma own_remarks [simp]:
  "own rid c0 (c\<lparr>remarks := filter (\<lambda>r. com_objoid r = rid \<longrightarrow> P r) (remarks c)\<rparr>) = own rid c0 c"
  by (simp add: own_def others_def rel_ids_def cong: rev_conj_cong)

lemma own_part_rows [simp]:
  "own_part rid c0 (c\<lparr>defaults := filter (\<lambda>d. def_relid d \<noteq> rid) (defaults c)\<rparr>) = own_part rid c0 c"
  "own_part rid c0 (c\<lparr>cols := filter (\<lambda>a. att_relid a \<noteq> rid) (cols c)\<rparr>) = own_part rid c0 c"
  "own_part rid c0 (c\<lparr>remarks := filter (\<lambda>r. com_objoid r = rid \<longrightarrow> P r) (remarks c)\<rparr>) = own_part rid c0 c"
  "own_part rid c0 (c\<lparr>depends := ds\<rparr>) = own_part rid c0 c"
  by (simp_all add: own_part_def)

lemma work_own:
  assumes "lasting G"
  shows "body_spec (work b low (own_part rid c0) G S)
      (cexec X w1 (\<lambda>c. Some (c\<lparr>defaults := filter (\<lambda>d. def_relid d \<noteq> rid) (defaults c)\<rparr>))) (\<lambda>_. work b low (own_part rid c0) G S)"
    "body_spec (work b low (own_part rid c0) G S)
      (cexec X w2 (\<lambda>c. Some (c\<lparr>cols := filter (\<lambda>a. att_relid a \<noteq> rid) (cols c)\<rparr>))) (\<lambda>_. work b low (own_part rid c0) G S)"
    "body_spec (work b low (own_part rid c0) G S)
      (cexec X w3 (\<lambda>c. Some (c\<lparr>remarks := filter (\<lambda>r. \<not> (com_objoid r = rid \<and> P r)) (remarks c)\<rparr>)))
      (\<lambda>_. work b low (own_part rid c0) G S)"
    "body_spec (work b low (own_part rid c0) G S)
      (cexec X w4 (\<lambda>c. Some (c\<lparr>depends := filter D (depends c)\<rparr>))) (\<lambda>_. work b low (own_part rid c0) G S)"
  by ((rule work_change [OF _ _ _ assms]; auto simp: work_def wf_del_rows wf_del_comments sane_del_columns sane_del_depends all_oids_def))+

lemma work_own_relation:
  assumes "lasting G" and "\<And>q. q \<in> set (relations c0) \<Longrightarrow> rel_oid q = rid \<Longrightarrow> rel_status q = ''active''"
    and f: "\<And>r. rel_oid (f r) = rel_oid r \<and> rel_namespace (f r) = rel_namespace r \<and> rel_name (f r) = rel_name r
      \<and> rel_type (f r) = rel_type r"
  shows "body_spec (work b low (own_part rid c0) G S)
     (cexec X w (\<lambda>c. Some (c\<lparr>relations := update_where (\<lambda>r. rel_oid r = rid) f (relations c)\<rparr>))) (\<lambda>_. work b low (own rid c0) G S)"
proof (rule body_exec, drule sym, simp only: option.inject, hypsubst)
  fix c assume c: "work b low (own_part rid c0) G S c"
  let ?d = "c\<lparr>relations := update_where (\<lambda>r. rel_oid r = rid) f (relations c)\<rparr>"
  have rels: "relations c = relations c0" and own: "own rid c0 c" using workD(4) [OF c] by (simp_all add: own_part_def)
  have "wf_catalog ?d" using workD(1) [OF c] f by (intro wf_update_relations) simp_all
  moreover have "sane low ?d" if b
    by (rule sane_update_relations [OF workD(2) [OF c that]]) (use f assms(2) rels in auto)
  moreover have "own rid c0 ?d" using own by (simp add: f)
  moreover have "G ?d" by (rule lastingD [OF assms(1) workD(5) [OF c]]) simp_all
  moreover have "pool S ?d"
    using workD(3) [OF c] f by (auto simp: pool_def unused_def all_oids_def map_update_where split: option.splits)
  ultimately show "work b low (own rid c0) G S ?d" by (simp add: work_def)
qed

lemma work_own_ext:
  assumes "lasting G" "\<And>e. ext_relid (g e) = ext_relid e"
  shows "body_spec (work b low (own rid c0) G S)
     (cexec X w (\<lambda>c. Some (c\<lparr>exts := update_where (\<lambda>e. ext_relid e = rid) g (exts c)\<rparr>))) (\<lambda>_. work b low (own rid c0) G S)"
  by (rule work_change [OF _ _ _ assms(1)]) (auto simp: work_def assms)

text \<open>CREATE OR REPLACE VIEW touches only what belongs to the view.\<close>

lemma sp_replace_view:
  assumes f: "fine b X c0" and a: "active_relation (x_lower X) c0 schema view = Some r" and m: "meta = meta_of r"
  shows "body_spec (\<lambda>d. d = c0) (replace_view_relation X meta schema view cv sql)
     (\<lambda>n d. n = 0 \<and> rel_kind r = ''v'' \<and> fine b X d \<and> others (rel_oid r) c0 d)"
proof -
  let ?low = "x_lower X" and ?rid = "rel_oid r"
  let ?F = "own_part ?rid c0"
  let ?G = "\<lambda>columns c. True \<and> (\<forall>col\<in>set (columns :: catalog_column list). b \<longrightarrow> column_type c (cc_type_id col))"
  have id: "rm_oid meta = ?rid" "rm_relkind meta = rel_kind r" by (simp_all add: m meta_of_def)
  have r: "r \<in> set (relations c0)" "rel_status r = ''active''" using active_relation_row [OF a] by simp_all
  have F0: "?F c0" using r(1) by (simp add: own_part_def own_def rel_ids_def)
  have st: "steady ?rid ?F" and so: "steady ?rid (own ?rid c0)" by blast+
  have G: "lasting (?G columns)" for columns by (intro lasting)
  have unique: "q \<in> set (relations c0) \<Longrightarrow> rel_oid q = ?rid \<Longrightarrow> rel_status q = ''active''" for q
    using relation_oid_unique [OF fineD(2) [OF f] _ r(1)] r(2) by blast
  have own_rel: "own ?rid c0 c \<Longrightarrow> ?rid \<in> rel_ids c" for c by (rule own_in)
  have part_rel: "?F c \<Longrightarrow> ?rid \<in> rel_ids c" for c by (rule own_in [of _ c0]) (simp add: own_part_def)
  have "body_spec (\<lambda>d. d = c0) (replace_view_relation X meta schema view cv sql)
     (\<lambda>n d. n = 0 \<and> fine b X d \<and> own ?rid c0 d)" if kind: "rel_kind r = ''v''"
    unfolding replace_view_relation_def id
    apply (rule body_if, simp add: kind)
    apply (rule body_conseq [where A' = "work b ?low ?F (\<lambda>_. True) []" and Q' = "\<lambda>n d. n = 0 \<and> fine b X d \<and> own ?rid c0 d"])
      apply (rule body_bind [OF work_journal [OF st lasting_True]])
      apply (rule body_bind [OF work_ddl])
      apply (rule body_bind [OF work_load_columns [OF st lasting_True]])
    subgoal for j u columns
      by (rule body_bind [OF work_own(1) [OF G]], rule body_bind [OF work_own(2) [OF G]],
          rule body_bind [OF work_own(3) [OF G]], rule body_bind [OF work_own(4) [OF G]],
          rule body_bind [OF body_foreach [OF work_attribute [OF st G part_rel]]], assumption, simp,
          rule body_bind [OF work_own_relation [OF G unique]], assumption, assumption, simp,
          rule body_bind [OF work_own_ext [OF G]], simp,
          rule body_bind [OF work_view_dependencies [OF so G own_rel]], assumption, rule work_end [OF so G])
    using fine_work [OF f, of ?F] F0 by auto
  then show ?thesis
    by (cases "rel_kind r = ''v''") (auto simp: replace_view_relation_def id own_def elim!: body_post intro: body_throw)
qed

lemma sp_create_view_body:
  assumes f: "fine b X c0"
  shows "body_spec (\<lambda>d. d = c0) (create_view_body X cv sql owner schema view)
     (\<lambda>n d. n = 0 \<and> fine b X d \<and> (case active_relation (x_lower X) c0 schema view of
        Some r \<Rightarrow> if cv_or_replace cv then rel_kind r = ''v'' \<and> others (rel_oid r) c0 d else cv_if_not_exists cv \<and> d = c0
      | None \<Rightarrow> relation_added (x_lower X) schema view ''v'' owner c0 d))"
proof -
  have find: "body_spec (\<lambda>d. d = c0) (find_relation_meta X schema view)
      (\<lambda>v d. d = c0 \<and> v = map_option meta_of (active_relation (x_lower X) c0 schema view))"
    by (rule body_post [OF sp_find_relation_meta]) auto
  show ?thesis
    unfolding create_view_body_def
  proof (rule body_bind [OF find], rule body_pure, rule body_option, goal_cases)
    case (1 v)
    then have absent: "active_relation (x_lower X) c0 schema view = None" by simp
    show ?case
      by (rule body_bind [OF body_read_only [OF lookup_ro(2)]],
          rule body_post [OF sp_create_relation [OF f absent]])
        (auto simp: absent intro!: work_view_dependencies)
  next
    case (2 v meta)
    then obtain r where r: "active_relation (x_lower X) c0 schema view = Some r" "meta = meta_of r" by (auto simp: Some_eq_map_option)
    show ?case
      by (rule body_if, rule body_post [OF sp_replace_view [OF f r]], simp add: r)
        (auto simp: r f intro!: body_rules)
  qed
qed

section \<open>CREATE INDEX\<close>

text \<open>The catalog after CREATE INDEX: the relation of the index, its row, and the mark on the table.\<close>

definition with_index :: "catalog \<Rightarrow> rs_relation \<Rightarrow> rs_index \<Rightarrow> catalog" where
  "with_index c r i = c\<lparr>relations := update_where (\<lambda>q. rel_oid q = idx_indrelid i) (\<lambda>q. q\<lparr>rel_hasindex := True\<rparr>)
     (relations c @ [r]), indexes := indexes c @ [i]\<rparr>"

lemma sane_add_index: "sane low c \<Longrightarrow> sane low (c\<lparr>indexes := indexes c @ [i]\<rparr>)"
proof -
  assume s: "sane low c"
  have "integral low (c\<lparr>indexes := indexes c @ [i]\<rparr>)" using s unfolding sane_def integral_iff by (auto simp: active_names_def)
  then show ?thesis using s by (simp add: sane_def deps_ok_def types_ok_def column_type_def)
qed

lemma core_set: "core rid (c\<lparr>indexes := xs\<rparr>) = core rid c\<lparr>indexes := xs\<rparr>"
  by (cases c) (simp add: core_def)

lemma same_set:
  assumes "same rid c0 c"
  shows "same rid (c0\<lparr>relations := rs\<rparr>) (c\<lparr>relations := rs\<rparr>)" "same rid (c0\<lparr>indexes := xs\<rparr>) (c\<lparr>indexes := xs\<rparr>)"
  using assms by (simp_all add: same_def core_set core_set_relations)

lemma work_index_relation:
  assumes "active_relation low c0 schema relation = None"
    and ns: "first_of (schema_rows low c0 schema) = Some n"
    and r: "r = index_relation_row i (sch_oid n) relation k owner"
  shows "body_spec (work b low (same i c0) (\<lambda>_. True) [i])
     (cexec X w (\<lambda>c. map_option (\<lambda>rows. c\<lparr>relations := rows\<rparr>) (insert_relation r (relations c))))
     (\<lambda>_. work b low (same i (with_relation c0 r)) (\<lambda>_. True) [])"
proof (rule body_exec)
  fix c d assume c: "work b low (same i c0) (\<lambda>_. True) [i] c"
    and "map_option (\<lambda>rows. c\<lparr>relations := rows\<rparr>) (insert_relation r (relations c)) = Some d"
  then have d: "d = c\<lparr>relations := relations c @ [r]\<rparr>" by (auto dest: relation_oids.ins_appends)
  note sm = workD(4) [OF c]
  have u: "unused i c" using workD(3) [OF c] by (simp add: pool_def)
  have ro: "rel_oid r = i" "rel_type r = 0" "rel_namespace r = sch_oid n" "rel_name r = relation"
    unfolding r by (simp_all add: index_relation_row_def relation_row_def)
  have "wf_catalog d" unfolding d by (rule wf_add_rows) (use workD(1) [OF c] u ro in simp_all)
  moreover have "sane low d" if b
    unfolding d
  proof (rule sane_add_relation)
    show s: "sane low c" using c that by (rule workD)
    show "rel_namespace r \<in> sch_oid ` set (schemas c)"
      using first_of_in [OF ns] same_tables(1) [OF sm] by (auto simp: ro schema_rows_def)
    show "(rel_namespace r, low (rel_name r)) \<notin> set (active_names low c)"
      using absent_name [OF assms(1) first_of_in [OF ns]] same_tables(2) [OF sm] by (simp add: ro active_names_def)
    show "rel_oid r \<noteq> 0" using unused_no_type(2) [OF u] ro by simp
    show "\<forall>t\<in>set (types c). ty_oid t = rel_type r \<longrightarrow> ty_relid t = rel_oid r"
      using s by (auto simp: ro sane_def types_ok_def)
  qed (simp add: ro)
  moreover have "same i (with_relation c0 r) d" unfolding d by (rule same_with_relation [OF sm])
  ultimately show "work b low (same i (with_relation c0 r)) (\<lambda>_. True) [] d" by (simp add: work_def pool_def)
qed

lemma work_index_rows:
  fixes c0 :: catalog and x :: rs_index
  defines "c1 \<equiv> c0\<lparr>indexes := indexes c0 @ [x]\<rparr>"
  shows "body_spec (work b low (same i c0) (\<lambda>_. True) [])
      (cexec X w (\<lambda>c. map_option (\<lambda>rows. c\<lparr>indexes := rows\<rparr>) (insert_index x (indexes c))))
      (\<lambda>_. work b low (same i c1) (\<lambda>_. True) [])"
    "body_spec (work b low (same i c1) (\<lambda>_. True) [])
      (cexec X w' (\<lambda>c. Some (c\<lparr>relations := update_where (\<lambda>q. rel_oid q = t) (\<lambda>q. q\<lparr>rel_hasindex := True\<rparr>) (relations c)\<rparr>)))
      (\<lambda>_. work b low (same i (c1\<lparr>relations := update_where (\<lambda>q. rel_oid q = t) (\<lambda>q. q\<lparr>rel_hasindex := True\<rparr>) (relations c1)\<rparr>))
         (\<lambda>_. True) [])"
proof -
  show "body_spec (work b low (same i c0) (\<lambda>_. True) [])
      (cexec X w (\<lambda>c. map_option (\<lambda>rows. c\<lparr>indexes := rows\<rparr>) (insert_index x (indexes c))))
      (\<lambda>_. work b low (same i c1) (\<lambda>_. True) [])"
  proof (rule body_exec)
    fix c d assume c: "work b low (same i c0) (\<lambda>_. True) [] c"
      and "map_option (\<lambda>rows. c\<lparr>indexes := rows\<rparr>) (insert_index x (indexes c)) = Some d"
    then have d: "d = c\<lparr>indexes := indexes c @ [x]\<rparr>" by (auto dest: index_oids.ins_appends)
    have "same i c1 d" unfolding d c1_def same_tables(4) [OF workD(4) [OF c]] by (rule same_set [OF workD(4) [OF c]])
    then show "work b low (same i c1) (\<lambda>_. True) [] d"
      using c by (auto simp: work_def pool_def d intro: sane_add_index)
  qed
  show "body_spec (work b low (same i c1) (\<lambda>_. True) [])
      (cexec X w' (\<lambda>c. Some (c\<lparr>relations := update_where (\<lambda>q. rel_oid q = t) (\<lambda>q. q\<lparr>rel_hasindex := True\<rparr>) (relations c)\<rparr>)))
      (\<lambda>_. work b low (same i (c1\<lparr>relations := update_where (\<lambda>q. rel_oid q = t) (\<lambda>q. q\<lparr>rel_hasindex := True\<rparr>) (relations c1)\<rparr>))
         (\<lambda>_. True) [])"
  proof (rule body_exec, drule sym, simp only: option.inject, hypsubst)
    fix c assume c: "work b low (same i c1) (\<lambda>_. True) [] c"
    note sm = workD(4) [OF c]
    have "wf_catalog (c\<lparr>relations := update_where (\<lambda>q. rel_oid q = t) (\<lambda>q. q\<lparr>rel_hasindex := True\<rparr>) (relations c)\<rparr>)"
      using workD(1) [OF c] by (intro wf_update_relations) simp_all
    moreover have "sane low (c\<lparr>relations := update_where (\<lambda>q. rel_oid q = t) (\<lambda>q. q\<lparr>rel_hasindex := True\<rparr>) (relations c)\<rparr>)" if b
      by (rule sane_update_relations [OF workD(2) [OF c that]]) simp
    moreover have "same i (c1\<lparr>relations := update_where (\<lambda>q. rel_oid q = t) (\<lambda>q. q\<lparr>rel_hasindex := True\<rparr>) (relations c1)\<rparr>)
        (c\<lparr>relations := update_where (\<lambda>q. rel_oid q = t) (\<lambda>q. q\<lparr>rel_hasindex := True\<rparr>) (relations c)\<rparr>)"
      unfolding same_tables(2) [OF sm] by (rule same_set [OF sm])
    ultimately show "work b low (same i (c1\<lparr>relations := update_where (\<lambda>q. rel_oid q = t) (\<lambda>q. q\<lparr>rel_hasindex := True\<rparr>) (relations c1)\<rparr>))
         (\<lambda>_. True) [] (c\<lparr>relations := update_where (\<lambda>q. rel_oid q = t) (\<lambda>q. q\<lparr>rel_hasindex := True\<rparr>) (relations c)\<rparr>)"
      by (simp add: work_def pool_def)
  qed
qed


text \<open>One index more on an existing table.\<close>

definition index_added :: "(string \<Rightarrow> string) \<Rightarrow> string \<Rightarrow> string \<Rightarrow> string \<Rightarrow> string list \<Rightarrow> bool \<Rightarrow> int \<Rightarrow> catalog \<Rightarrow> catalog \<Rightarrow> bool" where
  "index_added low schema table index names unique owner c d \<longleftrightarrow> (\<exists>i n t attnums. i \<notin> set (all_oids c)
     \<and> active_relation low c schema index = None \<and> first_of (schema_rows low c schema) = Some n
     \<and> active_relation low c schema table = Some t \<and> rel_kind t \<in> {''r'', ''p''}
     \<and> rcollect (indexed_column (catalog_columns_in c (rel_oid t))) names = Inr attnums
     \<and> same i (with_index c (index_relation_row i (sch_oid n) index (length names) owner)
         (index_row i (rel_oid t) (length names) unique (attnum_text attnums))) d)"

lemma find_relation_by_oid:
  assumes "wf_catalog c" "t \<in> set (relations c)"
  shows "List.find (\<lambda>r. rel_oid r = rel_oid t) (relations c) = Some t"
proof (cases "List.find (\<lambda>r. rel_oid r = rel_oid t) (relations c)")
  case (Some r)
  then have "r \<in> set (relations c)" "rel_oid r = rel_oid t" by (auto simp: find_Some_iff)
  then show ?thesis using Some relation_oid_unique [OF assms(1) _ assms(2)] by simp
qed (use assms(2) in \<open>auto simp: find_None_iff\<close>)

lemma sp_create_index_rows:
  assumes f: "fine b X c0" and absent: "active_relation (x_lower X) c0 schema index = None"
    and t: "active_relation (x_lower X) c0 schema table = Some t" and kind: "rel_kind t \<in> {''r'', ''p''}"
    and cols: "rcollect (indexed_column (catalog_columns_in c0 (rel_oid t))) names = Inr attnums"
    and phys: "\<And>A. body_spec A m (\<lambda>_. A)"
  shows "body_spec (\<lambda>d. d = c0) (cbind (allocate_oid X) (\<lambda>index_oid.
         cbind (insert_journal X ''create_index'' index_oid sql) (\<lambda>journal_id.
         cbind m (\<lambda>_ :: unit.
         cbind (namespace_oid X schema) (\<lambda>namespace.
         cbind (cexec X w1 (\<lambda>c. map_option (\<lambda>rows. c\<lparr>relations := rows\<rparr>)
           (insert_relation (index_relation_row index_oid namespace index (length names) owner) (relations c)))) (\<lambda>_.
         cbind (cexec X w2 (\<lambda>c. map_option (\<lambda>rows. c\<lparr>indexes := rows\<rparr>)
           (insert_index (index_row index_oid (rel_oid t) (length names) unique (attnum_text attnums)) (indexes c)))) (\<lambda>_.
         cbind (cexec X w3 (\<lambda>c. Some (c\<lparr>relations :=
           update_where (\<lambda>r. rel_oid r = rel_oid t) (\<lambda>r. r\<lparr>rel_hasindex := True\<rparr>) (relations c)\<rparr>))) (\<lambda>_.
         cbind (write_dependency X w4 (OBJECT_RELATION_KIND, index_oid, 0, OBJECT_RELATION_KIND, rel_oid t, 0) ''n'') (\<lambda>_.
         cbind (finish_journal X journal_id) (\<lambda>_.
         creturn 0))))))))))
     (\<lambda>n d. n = (0 :: nat) \<and> fine b X d \<and> index_added (x_lower X) schema table index names unique owner c0 d)"
proof (rule body_bind [OF work_start [OF f]], rule body_pure, goal_cases)
  case (1 i)
  note new = 1
  let ?low = "x_lower X"
  let ?r = "\<lambda>n. index_relation_row i (sch_oid n) index (length names) owner"
  let ?x = "index_row i (rel_oid t) (length names) unique (attnum_text attnums)"
  have st: "steady i (same i c)" for c ..
  have ns: "body_spec (work b ?low (same i c0) (\<lambda>_. True) [i]) (namespace_oid X schema)
      (\<lambda>v c. \<exists>n. (first_of (schema_rows ?low c0 schema) = Some n \<and> sch_oid n = v) \<and> work b ?low (same i c0) (\<lambda>_. True) [i] c)"
    by (rule body_post [OF sp_namespace_oid]) (auto simp: schema_rows_def dest!: workD(4) same_tables(1))
  have x: "idx_indrelid ?x = rel_oid t" by (simp add: index_row_def)
  have t_in: "t \<in> set (relations c0)" using active_relation_row [OF t] by simp
  have end_F: "same i (with_index c0 (?r n) ?x) c \<Longrightarrow> i \<in> rel_ids c \<and> rel_oid t \<in> rel_ids c" for n c
  proof -
    assume "same i (with_index c0 (?r n) ?x) c"
    then have "rel_ids c = rel_oid ` set (relations (with_index c0 (?r n) ?x))"
      by (simp add: rel_ids_def same_tables(2))
    also have "\<dots> = rel_oid ` set (relations c0 @ [?r n])" by (simp add: with_index_def ids_update_where del: set_append)
    finally show ?thesis using t_in by (simp add: index_relation_row_def relation_row_def)
  qed
  have dep: "body_spec (work b ?low (same i (with_index c0 (?r n) ?x)) (\<lambda>_. True) [])
      (write_dependency X w4 (OBJECT_RELATION_KIND, i, 0, OBJECT_RELATION_KIND, rel_oid t, 0) ''n'')
      (\<lambda>_. work b ?low (same i (with_index c0 (?r n) ?x)) (\<lambda>_. True) [])" for n
    by (rule work_write_dependency [OF st lasting_True]) (auto simp: dep_allowed_def dependency_row_def dest!: workD(4) end_F)
  have eq: "with_relation c0 r\<lparr>indexes := indexes (with_relation c0 r) @ [?x],
      relations := update_where (\<lambda>q. rel_oid q = rel_oid t) (\<lambda>q. q\<lparr>rel_hasindex := True\<rparr>)
        (relations (with_relation c0 r\<lparr>indexes := indexes (with_relation c0 r) @ [?x]\<rparr>))\<rparr> = with_index c0 r ?x" for r
    by (simp add: with_index_def with_relation_def x)
  have tail: "body_spec (work b ?low (same i (with_relation c0 (?r n))) (\<lambda>_. True) [])
      (cbind (cexec X w2 (\<lambda>c. map_option (\<lambda>rows. c\<lparr>indexes := rows\<rparr>) (insert_index ?x (indexes c)))) (\<lambda>_.
       cbind (cexec X w3 (\<lambda>c. Some (c\<lparr>relations :=
         update_where (\<lambda>r. rel_oid r = rel_oid t) (\<lambda>r. r\<lparr>rel_hasindex := True\<rparr>) (relations c)\<rparr>))) (\<lambda>_.
       cbind (write_dependency X w4 (OBJECT_RELATION_KIND, i, 0, OBJECT_RELATION_KIND, rel_oid t, 0) ''n'') (\<lambda>_.
       cbind (finish_journal X j) (\<lambda>_. creturn 0)))))
      (\<lambda>m d. m = (0 :: nat) \<and> fine b X d \<and> index_added ?low schema table index names unique owner c0 d)"
    if n: "first_of (schema_rows ?low c0 schema) = Some n" for n j
  proof (rule body_bind [OF work_index_rows(1)], rule body_bind [OF work_index_rows(2)], goal_cases)
    case 1
    show ?case
      unfolding eq
      by (rule body_bind [OF dep], rule body_post [OF work_end [OF st lasting_True]])
        (use n new absent t kind cols in \<open>auto simp: index_added_def\<close>)
  qed
  show ?case
    by (rule body_bind [OF work_journal [OF st lasting_True]], rule body_bind [OF phys], rule body_bind [OF ns], rule body_known,
        elim conjE, hypsubst, rule body_bind [OF work_index_relation [OF absent _ refl]], assumption, rule tail)
qed


lemma sp_create_index_body:
  assumes f: "fine b X c0"
  shows "body_spec (\<lambda>d. d = c0) (create_index_body X ci sql owner schema table schema index names)
     (\<lambda>n d. n = 0 \<and> fine b X d \<and> (ci_if_not_exists ci \<and> d = c0 \<and> relation_rows (x_lower X) c0 schema index \<noteq> []
        \<or> index_added (x_lower X) schema table index names (ci_unique ci) owner c0 d))"
proof -
  let ?low = "x_lower X"
  have ex: "body_spec (\<lambda>d. d = c0) (relation_exists X schema index)
      (\<lambda>v d. d = c0 \<and> v = (relation_rows ?low c0 schema index \<noteq> []))"
    unfolding relation_exists_def by (rule body_query) simp
  have oid: "body_spec (\<lambda>d. d = c0) (relation_oid X schema table)
      (\<lambda>i d. d = c0 \<and> (\<exists>t. active_relation ?low c0 schema table = Some t \<and> rel_oid t = i))"
    by (rule body_post [OF sp_relation_oid]) auto
  have kind: "body_spec (\<lambda>d. d = c0) (relation_kind X (rel_oid t)) (\<lambda>k d. d = c0 \<and> k = rel_kind t)"
    if "active_relation ?low c0 schema table = Some t" for t
    unfolding relation_kind_def
    by (rule body_query_row) (use find_relation_by_oid [OF fineD(2) [OF f]] active_relation_row [OF that] in auto)
  have columns: "body_spec (\<lambda>d. d = c0) (catalog_columns X i) (\<lambda>cs d. d = c0 \<and> cs = catalog_columns_in c0 i)" for i
    unfolding catalog_columns_def by (rule body_query) simp
  have lift: "body_spec (\<lambda>d. d = c0) (clift r) (\<lambda>v d. d = c0 \<and> r = Inr v)" for r :: "err + int list"
    by (rule body_lift) simp
  show ?thesis
    unfolding create_index_body_def
  proof (rule body_bind [OF ex], rule body_pure, rule body_if, goal_cases)
    case (1 present)
    then show ?case using f by (auto intro!: body_rules)
  next
    case (2 present)
    then have absent: "active_relation ?low c0 schema index = None" by (intro no_rows_not_active) simp
    show ?case
    proof (rule body_bind [OF oid], rule body_pure, elim exE conjE, hypsubst, rule body_bind [OF kind], assumption,
        rule body_pure, rule body_if, rule body_throw, rule body_bind [OF columns], rule body_pure,
        rule body_bind [OF lift], rule body_pure, goal_cases)
      case (1 i t k cs key)
      have m: "body_spec A (if k = ''p'' then create_partition_indexes_from_columns X (rel_oid t) index names (ci_unique ci)
             else cddl X ''execute DuckDB CREATE INDEX failed'' sql) (\<lambda>_. A)" for A
        by (rule physical_onlyD) (intro physical_if physical_ddl partition_index_physical)
      show ?case
        by (rule body_post [OF sp_create_index_rows [OF f absent 1(1) _ _ m]]) (use 1 in auto)
    qed
  qed
qed

section \<open>The operations keep the contract\<close>

lemma create_table_careful: "body_spec (fine b X) (create_table_body X ct sql owner schema table) (\<lambda>_. fine b X)"
  by (rule fine_body [OF sp_create_table_body]) auto

lemma create_view_careful: "body_spec (fine b X) (create_view_body X cv sql owner schema view) (\<lambda>_. fine b X)"
  by (rule fine_body [OF sp_create_view_body]) auto

lemma create_index_careful: "body_spec (fine b X) (create_index_body X ci sql owner schema table schema index names) (\<lambda>_. fine b X)"
  by (rule fine_body [OF sp_create_index_body]) auto

lemma create_table_atomic: "atomic X (create_table_relation X ct sql owner)"
  unfolding create_table_relation_def by (intro atomic_rules atomic_read_bind ro careful_tx create_table_careful)

interpretation create_table_op: relation_operation X "create_table_relation X ct sql owner" for X ct sql owner
  by (rule relation_operationI [OF create_table_atomic], unfold create_table_relation_def, intro atomic_rules keeping_rules atomic_read_bind ro careful_tx create_table_careful)

lemma create_view_atomic: "atomic X (create_view_relation X cv sql owner)"
  unfolding create_view_relation_def by (intro atomic_rules atomic_read_bind ro careful_tx create_view_careful)

interpretation create_view_op: relation_operation X "create_view_relation X cv sql owner" for X cv sql owner
  by (rule relation_operationI [OF create_view_atomic], unfold create_view_relation_def, intro atomic_rules keeping_rules atomic_read_bind ro careful_tx create_view_careful)

lemma create_index_tx:
  fixes X :: "'p external"
  shows "atomic X (if s2 \<noteq> s1 then cthrow e else cbind (clift r)
      (\<lambda>names. run_catalog_tx X (create_index_body X ci sql owner s1 t s2 i names)))"
    "keeping (fine True X) (if s2 \<noteq> s1 then cthrow e else cbind (clift r)
      (\<lambda>names. run_catalog_tx X (create_index_body X ci sql owner s1 t s2 i names)))"
  by (cases "s2 = s1"; simp; intro atomic_rules keeping_rules atomic_read_bind ro careful_tx create_index_careful)+

lemma create_index_atomic: "atomic X (create_index_relation X ci sql owner)"
  unfolding create_index_relation_def by (intro create_index_tx atomic_rules atomic_read_bind ro)

interpretation create_index_op: relation_operation X "create_index_relation X ci sql owner" for X ci sql owner
  by (rule relation_operationI [OF create_index_atomic], unfold create_index_relation_def, intro create_index_tx atomic_rules keeping_rules atomic_read_bind ro)

section \<open>What the statements do\<close>

text \<open>The two ends of an operation, seen from outside: it fails and nothing is committed, or it leaves no
  transaction open and its result and the catalog are as \<open>Q\<close> says.\<close>

definition outcome :: "'p conn \<Rightarrow> (err + 'a) \<times> 'p conn \<Rightarrow> ('a \<Rightarrow> catalog \<Rightarrow> bool) \<Rightarrow> bool" where
  "outcome s result Q = (case result of
      (Inl _, s') \<Rightarrow> committed s' = committed s
    | (Inr v, s') \<Rightarrow> saved s' = None \<and> Q v (catalog_of s'))"

lemma outcomeI:
  assumes "atomic X m" "good (x_fmt X) (catalog_of s)" "saved s = None" "\<And>n s'. m s = (Inr n, s') \<Longrightarrow> Q n (catalog_of s')"
  shows "outcome s (m s) Q"
  using assms atomicD [OF assms(1) prod.collapse [symmetric] assms(2)]
  by (cases "m s") (auto simp: outcome_def split: sum.splits dest: atomicD [OF assms(1)])

lemma closed_catalog: "saved s = None \<Longrightarrow> catalog_of s = cat s"
  by (simp add: catalog_of_def committed_def)


text \<open>CREATE VIEW either fails without effect, or it added exactly one view under a name no active relation had,
  or found the name taken and, with OR REPLACE, replaced a view and touched nothing that belongs to another
  relation, or, with IF NOT EXISTS, did nothing.\<close>

theorem create_view_touches_only_the_view:
  assumes "good (x_fmt X) (catalog_of s)" and "saved s = None"
  shows "outcome s (create_view_relation X cv sql owner s) (\<lambda>n d. n = 0 \<and> (\<exists>schema view.
      relation_name (cv_name cv) = Inr (schema, view) \<and> reject_reserved_schema schema = Inr ()
      \<and> (case active_relation (x_lower X) (catalog_of s) schema view of
           None \<Rightarrow> relation_added (x_lower X) schema view ''v'' owner (catalog_of s) d
         | Some r \<Rightarrow> if cv_or_replace cv then rel_kind r = ''v'' \<and> others (rel_oid r) (catalog_of s) d
             else cv_if_not_exists cv \<and> d = catalog_of s)))"
proof (rule outcomeI [OF create_view_atomic assms])
  fix n s' assume "create_view_relation X cv sql owner s = (Inr n, s')"
  then obtain schema view where n: "relation_name (cv_name cv) = Inr (schema, view)" "reject_reserved_schema schema = Inr ()"
    and run: "run_catalog_tx X (create_view_body X cv sql owner schema view) s = (Inr n, s')"
    by (auto simp: create_view_relation_def cthrow_def cbind_clift_cases split: if_splits sum.splits)
  have "fine False X (cat s)" using assms by (simp add: closed_catalog)
  from tx_closed_result [OF sp_create_view_body [OF this] run assms(2)]
  show "n = 0 \<and> (\<exists>schema view. relation_name (cv_name cv) = Inr (schema, view) \<and> reject_reserved_schema schema = Inr ()
      \<and> (case active_relation (x_lower X) (catalog_of s) schema view of
           None \<Rightarrow> relation_added (x_lower X) schema view ''v'' owner (catalog_of s) (catalog_of s')
         | Some r \<Rightarrow> if cv_or_replace cv then rel_kind r = ''v'' \<and> others (rel_oid r) (catalog_of s) (catalog_of s')
             else cv_if_not_exists cv \<and> catalog_of s' = catalog_of s))"
    using n unfolding closed_catalog [OF assms(2)] by blast
qed



section \<open>Key lists\<close>

lemma parse_signed_show_int:
  assumes "lo \<le> k" "k \<le> hi"
  shows "parse_signed lo hi (show_int k) = Some k"
proof (cases "k < 0")
  case True
  with digits_from_show_nat [of "nat (- k)"] assms show ?thesis by (simp add: parse_signed_def show_int_def)
next
  case False
  obtain c r where cr: "show_nat (nat k) = c # r" by (cases "show_nat (nat k)") auto
  with show_nat_digits [of c "nat k"] have "c \<noteq> CHR ''+''" "c \<noteq> CHR ''-''" by (auto simp: is_digit_def)
  with cr digits_from_show_nat [of "nat k"] assms False show ?thesis by (simp add: parse_signed_def show_int_def)
qed

lemma plain_show_int: "c \<in> set (show_int k) \<Longrightarrow> plain c \<and> c \<noteq> CHR '',''"
proof -
  have minus: "plain (CHR ''-'')" by code_simp
  have digit: "is_digit d \<Longrightarrow> plain d \<and> d \<noteq> CHR '',''" for d using plain_digit [of d] by (auto simp: is_digit_def)
  show "c \<in> set (show_int k) \<Longrightarrow> plain c \<and> c \<noteq> CHR '',''"
    using minus digit show_nat_digits [of c] by (auto simp: show_int_def split: if_splits)
qed

lemma show_int_nonempty: "show_int k \<noteq> []"
  by (simp add: show_int_def)

lemma trim_all_plain: "s \<noteq> [] \<Longrightarrow> \<forall>c\<in>set s. plain c \<Longrightarrow> trim s = s"
  by (rule trim_plain) auto

lemma split_by_from_append: "\<forall>c\<in>set s. \<not> p c \<Longrightarrow> split_by_from p acc (s @ t) = split_by_from p (acc @ s) t"
  by (induction s arbitrary: acc) auto

lemma split_join:
  assumes "p c" "ss \<noteq> []" "\<forall>s\<in>set ss. \<forall>c\<in>set s. \<not> p c"
  shows "split_by p (join [c] ss) = ss"
  using assms(2,3) unfolding split_by_def
  by (induction "[c]" ss rule: join.induct) (simp_all add: split_by_from_append split_by_from_no assms(1))

lemma set_join: "set (join sep ss) \<subseteq> set sep \<union> \<Union> (set ` set ss)"
  by (induction sep ss rule: join.induct) auto

text \<open>The list of column numbers that an index or a constraint stores is read back as it was written, for numbers
  that fit an i32.\<close>

theorem attnum_list_roundtrip:
  assumes "list_all (\<lambda>k. - (2 ^ 31) \<le> k \<and> k < 2 ^ 31) ks"
  shows "parse_attnum_list (attnum_text ks) = Inr ks \<and> parse_attnums (attnum_text ks) = ks"
proof -
  have one: "k \<in> set ks \<Longrightarrow> parse_i32 (show_int k) = Some k" for k
    using assms by (auto simp: parse_i32_def list_all_iff intro!: parse_signed_show_int)
  show ?thesis
  proof (cases "ks = []")
    case True
    show ?thesis unfolding True by code_simp
  next
    case False
    then have split: "split_by (\<lambda>c. c = CHR '','') (attnum_text ks) = map show_int ks"
      unfolding attnum_text_def by (intro split_join) (auto dest: plain_show_int)
    have "set (attnum_text ks) \<subseteq> {CHR '',''} \<union> \<Union> (set ` set (map show_int ks))"
      unfolding attnum_text_def using set_join [of "'',''" "map show_int ks"] by simp
    then have plain: "\<forall>c\<in>set (attnum_text ks). plain c"
      using plain_show_int by (fastforce simp: plain_def ws1_def)
    have "attnum_text ks \<noteq> []"
      using False show_int_nonempty by (cases ks; cases "tl ks") (auto simp: attnum_text_def)
    then have trim: "trim (attnum_text ks) \<noteq> []" using trim_all_plain [OF _ plain] by simp
    have parts: "k \<in> set ks \<Longrightarrow> parse_i32 (trim (show_int k)) = Some k" for k
      using one trim_all_plain [OF show_int_nonempty, of k] plain_show_int by simp
    have "rcollect (\<lambda>part. ok_or (parse_i32 (trim part)) e) (map show_int ks) = Inr ks" for e :: err
      using parts by (induction ks) simp_all
    moreover have "List.map_filter (\<lambda>part. parse_i32 (trim part)) (map show_int ks) = ks"
      using parts by (induction ks) (simp_all add: List.map_filter_simps)
    ultimately show ?thesis using trim split False by (simp add: parse_attnum_list_def parse_attnums_def)
  qed
qed

section \<open>Witnesses\<close>

abbreviation people_table :: create_table where
  "people_table \<equiv> \<lparr>ct_name = [Identifier ''people''], ct_columns = [], ct_constraints = [], ct_if_not_exists = False,
     ct_temporary = False, ct_partition_by = False, ct_query = False\<rparr>"

abbreviation people_view :: create_view where
  "people_view \<equiv> \<lparr>cv_name = [Identifier ''adults''], cv_temporary = False, cv_or_replace = True, cv_if_not_exists = False,
     cv_query_text = ''SELECT * FROM people''\<rparr>"

abbreviation people_index :: create_index where
  "people_index \<equiv> \<lparr>ci_name = Some [Identifier ''by_id''], ci_table = [Identifier ''people''],
     ci_columns = [\<lparr>ic_text = ''id'', ic_ident = Some ''id'', ic_options = False\<rparr>], ci_unique = True, ci_if_not_exists = False,
     ci_predicate = False, ci_include = False\<rparr>"

lemma good_main_world: "good (x_fmt sample) (catalog_of main_world)"
  using good_main by (simp add: closed_catalog)


theorem create_view_touches_only_the_view_witness:
  "outcome main_world (create_view_relation sample people_view [] 10 main_world) (\<lambda>n d. n = 0 \<and> (\<exists>schema view.
      relation_name [Identifier ''adults''] = Inr (schema, view) \<and> reject_reserved_schema schema = Inr ()
      \<and> (case active_relation to_lower (catalog_of main_world) schema view of
           None \<Rightarrow> relation_added to_lower schema view ''v'' 10 (catalog_of main_world) d
         | Some r \<Rightarrow> rel_kind r = ''v'' \<and> others (rel_oid r) (catalog_of main_world) d)))"
  using create_view_touches_only_the_view [OF good_main_world good_main(2), of people_view "[]" 10] by (simp cong: option.case_cong)


lemma integral_seal: "integral low (seal F c) = integral low c"
  by (simp add: integral_iff seal_def active_names_def)


theorem attnum_list_roundtrip_witness: "parse_attnum_list (attnum_text [1, 12, - 3]) = Inr [1, 12, - 3]"
  using attnum_list_roundtrip [of "[1, 12, - 3]"] by simp

end
