(* ===== verification/Relation_Drop.thy ===== *)
theory Relation_Drop
  imports Relation_Ops
begin

text \<open>
  DROP of tables, views and indexes: \<^verbatim>\<open>drop_objects\<close> of \<^verbatim>\<open>src/catalog/mutation/drop.rs\<close> and the
  part of \<^verbatim>\<open>src/catalog/lookup.rs\<close> that deletes the rows of a relation. Main results: the operation
  is atomic; where no constraint refers to another table it keeps the checks of the next start passing; a table with a
  foreign key to another table leaves its dependency behind, and then they fail.
\<close>

section \<open>Lookups\<close>

definition ensure_drop_type :: "object_type \<Rightarrow> relation_meta \<Rightarrow> err + unit" where
  "ensure_drop_type object_type meta =
     (if (case object_type of
            OTable \<Rightarrow> rm_relkind meta = ''r'' \<or> rm_relkind meta = ''p''
          | OView \<Rightarrow> rm_relkind meta = ''v''
          | OIndex \<Rightarrow> rm_relkind meta = ''i''
          | _ \<Rightarrow> False)
      then Inr () else Inl (EMut (DropKindMismatch object_type (rm_relkind meta))))"

definition dependent_relations_in :: "catalog \<Rightarrow> int \<Rightarrow> int list" where
  "dependent_relations_in c i = map dep_objid (filter (\<lambda>d. dep_refclassid d = OBJECT_RELATION_KIND \<and> dep_refobjid d = i
     \<and> dep_classid d = OBJECT_RELATION_KIND) (depends c))"

definition dependent_relation_oids :: "'p external \<Rightarrow> int \<Rightarrow> ('p, int list) db" where
  "dependent_relation_oids X i = cquery X ''query dependent lookup failed'' (\<lambda>c. dependent_relations_in c i)"

definition dependent_constraints_in :: "catalog \<Rightarrow> int \<Rightarrow> int list" where
  "dependent_constraints_in c i = remdups (map dep_objid (filter (\<lambda>d. dep_refclassid d = OBJECT_RELATION_KIND
     \<and> dep_refobjid d = i \<and> dep_classid d = OBJECT_CONSTRAINT_KIND
     \<and> list_ex (\<lambda>k. con_oid k = dep_objid d \<and> con_relid k \<noteq> i) (constraints c)) (depends c)))"

definition dependent_constraint_oids :: "'p external \<Rightarrow> int \<Rightarrow> ('p, int list) db" where
  "dependent_constraint_oids X i = cquery X ''query dependent constraint lookup failed'' (\<lambda>c. dependent_constraints_in c i)"

definition relation_meta_by_oid :: "'p external \<Rightarrow> int \<Rightarrow> ('p, relation_meta option) db" where
  "relation_meta_by_oid X i = cquery X ''query relation-by-oid lookup failed'' (\<lambda>c.
     map_option meta_of (first_of (filter (\<lambda>r. rel_oid r = i) (relations c))))"

section \<open>Deleting rows\<close>

definition execute_physical_drop :: "'p external \<Rightarrow> object_type \<Rightarrow> string \<Rightarrow> string \<Rightarrow> bool \<Rightarrow> ('p, unit) db" where
  "execute_physical_drop X object_type schema relname cascade =
     (let drop = (\<lambda>keyword. cddl X (''execute DuckDB DROP '' @ keyword @ '' failed'')
        (''DROP '' @ keyword @ '' '' @ quote_qualified schema relname @ (if cascade then '' CASCADE'' else [])))
      in case object_type of
        OTable \<Rightarrow> drop ''TABLE''
      | OView \<Rightarrow> drop ''VIEW''
      | OIndex \<Rightarrow> drop ''INDEX''
      | _ \<Rightarrow> cthrow (EMut (DropUnsupported object_type)))"

definition constraint_deletes :: "int \<Rightarrow> (catalog \<Rightarrow> catalog) list" where
  "constraint_deletes i =
     [\<lambda>c. c\<lparr>depends := filter (\<lambda>d. \<not> (dep_classid d = OBJECT_CONSTRAINT_KIND \<and> dep_objid d = i
          \<or> dep_refclassid d = OBJECT_CONSTRAINT_KIND \<and> dep_refobjid d = i)) (depends c)\<rparr>,
      \<lambda>c. c\<lparr>remarks := filter (\<lambda>r. com_objoid r \<noteq> i) (remarks c)\<rparr>,
      \<lambda>c. c\<lparr>constraints := filter (\<lambda>k. con_oid k \<noteq> i) (constraints c)\<rparr>]"

definition delete_constraint_catalog :: "'p external \<Rightarrow> int \<Rightarrow> ('p, unit) db" where
  "delete_constraint_catalog X i =
     cforeach (\<lambda>g. cexec X ''delete constraint catalog rows failed'' (\<lambda>c. Some (g c))) (constraint_deletes i)"

definition relation_deletes :: "int \<Rightarrow> int \<Rightarrow> (catalog \<Rightarrow> catalog) list" where
  "relation_deletes i reltype =
     [\<lambda>c. c\<lparr>depends := filter (\<lambda>d. \<not> (dep_objid d = i \<or> dep_refobjid d = i)) (depends c)\<rparr>,
      \<lambda>c. c\<lparr>remarks := filter (\<lambda>r. com_objoid r \<noteq> i) (remarks c)\<rparr>,
      \<lambda>c. c\<lparr>defaults := filter (\<lambda>d. def_relid d \<noteq> i) (defaults c)\<rparr>,
      \<lambda>c. c\<lparr>cols := filter (\<lambda>a. att_relid a \<noteq> i) (cols c)\<rparr>,
      \<lambda>c. c\<lparr>constraints := filter (\<lambda>k. \<not> (con_relid k = i \<or> con_indid k = i)) (constraints c)\<rparr>,
      \<lambda>c. c\<lparr>vectors := filter (\<lambda>v. \<not> (vx_relid v = i
          \<or> list_ex (\<lambda>x. idx_indrelid x = i \<and> idx_relid x = vx_relid v) (indexes c))) (vectors c)\<rparr>,
      \<lambda>c. c\<lparr>indexes := filter (\<lambda>x. \<not> (idx_relid x = i \<or> idx_indrelid x = i)) (indexes c)\<rparr>,
      \<lambda>c. c\<lparr>exts := filter (\<lambda>e. ext_relid e \<noteq> i) (exts c)\<rparr>,
      \<lambda>c. c\<lparr>parts := filter (\<lambda>p. \<not> (par_parent p = i \<or> par_child p = i)) (parts c)\<rparr>,
      \<lambda>c. c\<lparr>types := filter (\<lambda>t. \<not> (ty_oid t = reltype \<or> ty_relid t = i)) (types c)\<rparr>,
      \<lambda>c. c\<lparr>relations := filter (\<lambda>r. rel_oid r \<noteq> i) (relations c)\<rparr>]"

definition delete_relation_catalog :: "'p external \<Rightarrow> relation_meta \<Rightarrow> ('p, unit) db" where
  "delete_relation_catalog X meta =
     cbind (if rm_relkind meta = ''i''
        then cbind (ctry (cquery_row X [] (\<lambda>c. map_option idx_indrelid
               (first_of (filter (\<lambda>x. idx_relid x = rm_oid meta) (indexes c))))))
             (\<lambda>r. creturn (case r of Inl _ \<Rightarrow> None | Inr v \<Rightarrow> Some v))
        else creturn None) (\<lambda>table_oid.
     cbind (cforeach (\<lambda>g. cexec X ''delete relation catalog rows failed'' (\<lambda>c. Some (g c)))
        (relation_deletes (rm_oid meta) (rm_reltype meta))) (\<lambda>_.
     case table_oid of
       None \<Rightarrow> creturn ()
     | Some table \<Rightarrow>
         cbind (cquery X ''count remaining indexes failed'' (\<lambda>c. length (filter (\<lambda>x. idx_indrelid x = table) (indexes c))))
           (\<lambda>index_count.
         cexec X ''update relhasindex after drop failed'' (\<lambda>c. Some (c\<lparr>relations := update_where (\<lambda>r. rel_oid r = table)
           (\<lambda>r. r\<lparr>rel_hasindex := (index_count > 0)\<rparr>) (relations c)\<rparr>)))))"

definition drop_dependent :: "'p external \<Rightarrow> int \<Rightarrow> ('p, unit) db" where
  "drop_dependent X i = cbind (relation_meta_by_oid X i) (\<lambda>found. case found of
     None \<Rightarrow> creturn () | Some dependent \<Rightarrow> delete_relation_catalog X dependent)"

definition drop_relation_dependencies :: "'p external \<Rightarrow> relation_meta \<Rightarrow> bool \<Rightarrow> ('p, unit) db" where
  "drop_relation_dependencies X meta cascade =
     cbind (dependent_relation_oids X (rm_oid meta)) (\<lambda>dependent_relations.
     cbind (dependent_constraint_oids X (rm_oid meta)) (\<lambda>dependent_constraints.
     if (dependent_relations \<noteq> [] \<or> dependent_constraints \<noteq> []) \<and> \<not> cascade then cthrow (EMut DropNeedsCascade)
     else
       cbind (cforeach (delete_constraint_catalog X) dependent_constraints) (\<lambda>_.
       cforeach (drop_dependent X) dependent_relations)))"

section \<open>Partitioned relations\<close>

definition drop_partitioned_relation :: "'p external \<Rightarrow> relation_meta \<Rightarrow> string \<Rightarrow> string \<Rightarrow> ('p, unit) db" where
  "drop_partitioned_relation X meta schema relname =
     cbind (partition_child_metas X (rm_oid meta)) (\<lambda>children.
     cbind (cddl X ''execute DuckDB DROP partition entrypoint failed'' (''DROP VIEW '' @ quote_qualified schema relname)) (\<lambda>_.
     cbind (cforeach (\<lambda>child.
         cbind (cddl X ''execute DuckDB DROP physical partition failed''
           (''DROP TABLE '' @ quote_qualified (pc_schema child) (pc_relname child))) (\<lambda>_.
         delete_relation_catalog X (pc_meta child))) children) (\<lambda>_.
     delete_relation_catalog X meta)))"

definition drop_child_index :: "'p external \<Rightarrow> partition_index_spec \<Rightarrow> active_partition_child \<Rightarrow> ('p, unit) db" where
  "drop_child_index X ispec child =
     (let child_index = partition_index_name (ap_relname child) (pi_index_name ispec) in
      cbind (duckdb_index_exists X ''rsduck_internal'' child_index) (\<lambda>present.
      if present then cddl X ''execute DuckDB DROP partition index failed'' (''DROP INDEX '' @ quote_ident child_index)
      else creturn ()))"

definition drop_partitioned_index :: "'p external \<Rightarrow> relation_meta \<Rightarrow> ('p, unit) db" where
  "drop_partitioned_index X meta =
     cbind (partitioned_index_parent X (rm_oid meta)) (\<lambda>parent.
     cbind (case parent of
         None \<Rightarrow> creturn ()
       | Some parent_oid \<Rightarrow>
           cbind (partition_index_specs X parent_oid) (\<lambda>specs.
           cforeach (\<lambda>ispec.
             cbind (active_partition_children X parent_oid) (\<lambda>children.
             cforeach (drop_child_index X ispec) children)) (filter (\<lambda>ispec. pi_index_oid ispec = rm_oid meta) specs))) (\<lambda>_.
     delete_relation_catalog X meta))"

section \<open>DROP\<close>

definition drop_target :: "object_type \<Rightarrow> object_name option \<Rightarrow> object_name \<Rightarrow> err + string \<times> string" where
  "drop_target object_type table name = (case (object_type, table) of
     (OIndex, Some table_name) \<Rightarrow>
       rbind (relation_name table_name) (\<lambda>(table_schema, _). relation_name_with_default name table_schema)
   | _ \<Rightarrow> relation_name name)"

definition drop_one_object ::
    "'p external \<Rightarrow> object_type \<Rightarrow> bool \<Rightarrow> bool \<Rightarrow> object_name option \<Rightarrow> string \<Rightarrow> object_name \<Rightarrow> nat \<Rightarrow> ('p, nat) db" where
  "drop_one_object X object_type if_exists cascade table sql name affected =
     cbind (clift (drop_target object_type table name)) (\<lambda>(schema, relname).
     cbind (clift (reject_reserved_schema schema)) (\<lambda>_.
     cbind (find_relation_meta X schema relname) (\<lambda>found. case found of
       None \<Rightarrow> if if_exists then creturn affected else cthrow (EMut (RelationDoesNotExist schema relname))
     | Some meta \<Rightarrow>
         cbind (clift (ensure_drop_type object_type meta)) (\<lambda>_.
         if rm_relispartition meta then cthrow (EDdl DropPhysicalPartition)
         else
           cbind (insert_journal X ''drop_relation'' (rm_oid meta) sql) (\<lambda>journal_id.
           cbind (drop_relation_dependencies X meta cascade) (\<lambda>_.
           cbind (if rm_relkind meta = ''p'' then drop_partitioned_relation X meta schema relname
              else cbind (if rm_relkind meta = ''i''
                   then cbind (partitioned_index_parent X (rm_oid meta)) (\<lambda>parent. creturn (parent \<noteq> None))
                   else creturn False) (\<lambda>partitioned.
                 if partitioned then drop_partitioned_index X meta
                 else cbind (execute_physical_drop X object_type schema relname cascade) (\<lambda>_.
                   delete_relation_catalog X meta))) (\<lambda>_.
           cbind (finish_journal X journal_id) (\<lambda>_.
           creturn (affected + 1)))))))))"

definition drop_objects ::
    "'p external \<Rightarrow> object_type \<Rightarrow> bool \<Rightarrow> object_name list \<Rightarrow> bool \<Rightarrow> object_name option \<Rightarrow> string \<Rightarrow> ('p, nat) db" where
  "drop_objects X object_type if_exists names cascade table sql =
     (if names = [] then cthrow (EDdl DropNoNames)
      else case object_type of
        OUser \<Rightarrow> drop_user_accounts X if_exists names sql
      | ORole \<Rightarrow> drop_role_accounts X if_exists names cascade sql
      | _ \<Rightarrow> run_catalog_tx X (cfold (drop_one_object X object_type if_exists cascade table sql) names 0))"

section \<open>What deleting the rows of a relation does\<close>

lemma sp_deletes:
  "body_spec (\<lambda>d. d = c) (cforeach (\<lambda>g. cexec X w (\<lambda>c. Some (g c))) gs) (\<lambda>_ d. d = fold (\<lambda>g. g) gs c)"
proof (induction gs arbitrary: c)
  case (Cons g gs)
  show ?case
    by (simp, rule body_bind [OF body_exec, of _ _ "\<lambda>_ d. d = g c"], simp, rule body_post [OF Cons.IH]) simp
qed (simp add: body_return)

definition relation_deleted :: "int \<Rightarrow> int \<Rightarrow> catalog \<Rightarrow> catalog" where
  "relation_deleted i reltype c = c\<lparr>
      depends := filter (\<lambda>d. \<not> (dep_objid d = i \<or> dep_refobjid d = i)) (depends c),
      remarks := filter (\<lambda>r. com_objoid r \<noteq> i) (remarks c),
      defaults := filter (\<lambda>d. def_relid d \<noteq> i) (defaults c),
      cols := filter (\<lambda>a. att_relid a \<noteq> i) (cols c),
      constraints := filter (\<lambda>k. \<not> (con_relid k = i \<or> con_indid k = i)) (constraints c),
      vectors := filter (\<lambda>v. \<not> (vx_relid v = i
          \<or> list_ex (\<lambda>x. idx_indrelid x = i \<and> idx_relid x = vx_relid v) (indexes c))) (vectors c),
      indexes := filter (\<lambda>x. \<not> (idx_relid x = i \<or> idx_indrelid x = i)) (indexes c),
      exts := filter (\<lambda>e. ext_relid e \<noteq> i) (exts c),
      parts := filter (\<lambda>p. \<not> (par_parent p = i \<or> par_child p = i)) (parts c),
      types := filter (\<lambda>t. \<not> (ty_oid t = reltype \<or> ty_relid t = i)) (types c),
      relations := filter (\<lambda>r. rel_oid r \<noteq> i) (relations c)\<rparr>"

definition constraint_deleted :: "int \<Rightarrow> catalog \<Rightarrow> catalog" where
  "constraint_deleted i c = c\<lparr>
      depends := filter (\<lambda>d. \<not> (dep_classid d = OBJECT_CONSTRAINT_KIND \<and> dep_objid d = i
          \<or> dep_refclassid d = OBJECT_CONSTRAINT_KIND \<and> dep_refobjid d = i)) (depends c),
      remarks := filter (\<lambda>r. com_objoid r \<noteq> i) (remarks c),
      constraints := filter (\<lambda>k. con_oid k \<noteq> i) (constraints c)\<rparr>"

lemma fold_deletes:
  "fold (\<lambda>g. g) (relation_deletes i t) c = relation_deleted i t c" "fold (\<lambda>g. g) (constraint_deletes i) c = constraint_deleted i c"
  by (simp_all add: relation_deletes_def relation_deleted_def constraint_deletes_def constraint_deleted_def)

lemma wf_deleted:
  assumes "wf_catalog c"
  shows "wf_catalog (relation_deleted i t c)" "wf_catalog (constraint_deleted i c)"
proof -
  let ?c1 = "c\<lparr>types := filter (\<lambda>x. \<not> (ty_oid x = t \<or> ty_relid x = i)) (types c)\<rparr>"
  let ?c2 = "?c1\<lparr>relations := filter (\<lambda>r. rel_oid r \<noteq> i) (relations ?c1)\<rparr>"
  let ?c3 = "?c2\<lparr>defaults := filter (\<lambda>d. def_relid d \<noteq> i) (defaults ?c2)\<rparr>"
  let ?c4 = "?c3\<lparr>constraints := filter (\<lambda>k. \<not> (con_relid k = i \<or> con_indid k = i)) (constraints ?c3)\<rparr>"
  let ?c5 = "?c4\<lparr>remarks := filter (\<lambda>r. com_objoid r \<noteq> i) (remarks ?c4)\<rparr>"
  let ?d = "relation_deleted i t c"
  have "wf_catalog ?c5"
    by (intro wf_del_comments wf_del_rows assms)
  then have w: "wf_catalog (?c5\<lparr>cols := cols ?d, vectors := vectors ?d, indexes := indexes ?d, exts := exts ?d, parts := parts ?d,
      depends := depends ?d\<rparr>)" by (simp only: wf_other)
  have "?c5\<lparr>cols := cols ?d, vectors := vectors ?d, indexes := indexes ?d, exts := exts ?d, parts := parts ?d,
      depends := depends ?d\<rparr> = ?d" by (simp add: relation_deleted_def)
  with w show "wf_catalog (relation_deleted i t c)" by (simp only:)
  let ?k = "c\<lparr>constraints := filter (\<lambda>k. con_oid k \<noteq> i) (constraints c)\<rparr>"
  have "wf_catalog (?k\<lparr>remarks := filter (\<lambda>r. com_objoid r \<noteq> i) (remarks ?k)\<rparr>)"
    by (intro wf_del_comments wf_del_rows assms)
  then have w: "wf_catalog (?k\<lparr>remarks := filter (\<lambda>r. com_objoid r \<noteq> i) (remarks ?k), depends := depends (constraint_deleted i c)\<rparr>)"
    by (simp only: wf_other)
  have "?k\<lparr>remarks := filter (\<lambda>r. com_objoid r \<noteq> i) (remarks ?k), depends := depends (constraint_deleted i c)\<rparr>
      = constraint_deleted i c" by (simp add: constraint_deleted_def)
  with w show "wf_catalog (constraint_deleted i c)" by (simp only:)
qed

section \<open>What keeps the checks passing\<close>

text \<open>No constraint refers to a table other than its own.\<close>

definition no_foreign :: "catalog \<Rightarrow> bool" where
  "no_foreign c \<longleftrightarrow> (\<forall>k\<in>set (constraints c). constraint_refs k = {con_relid k} \<and> con_indid k = 0)"

text \<open>The row type named in the lookup of a relation is the relation's own.\<close>

definition typed :: "relation_meta \<Rightarrow> catalog \<Rightarrow> bool" where
  "typed m c \<longleftrightarrow> rm_oid m \<noteq> 0 \<and> (\<forall>t\<in>set (types c). ty_oid t = rm_reltype m \<longrightarrow> ty_relid t = rm_oid m)"

text \<open>The invariant, table by table.\<close>

lemma sane_iff:
  "sane low c \<longleftrightarrow> (\<forall>r\<in>set (relations c). rel_namespace r \<in> sch_oid ` set (schemas c))
     \<and> (\<forall>a\<in>set (cols c). att_relid a \<in> rel_ids c)
     \<and> (\<forall>v\<in>set (vectors c). vx_relid v \<in> idx_relid ` set (indexes c) \<and> valid_vector v)
     \<and> distinct (active_names low c) \<and> (\<forall>d\<in>set (depends c). dep_allowed c d) \<and> types_ok c"
  (is "_ \<longleftrightarrow> ?R")
proof
  assume s: "sane low c"
  have "dep_allowed c d" if d: "d \<in> set (depends c)" for d
  proof -
    have "dep_classid d \<in> {OBJECT_RELATION_KIND, OBJECT_CONSTRAINT_KIND}" "dep_refclassid d = OBJECT_RELATION_KIND"
      "dep_classid d = OBJECT_CONSTRAINT_KIND \<longrightarrow> (\<exists>k\<in>set (constraints c). con_oid k = dep_objid d \<and> dep_refobjid d \<in> constraint_refs k)"
      using s d by (simp_all add: sane_def deps_ok_def)
    moreover have "dep_classid d = OBJECT_RELATION_KIND \<longrightarrow> dep_objid d \<in> rel_ids c"
      "dep_refclassid d = OBJECT_RELATION_KIND \<longrightarrow> dep_refobjid d \<in> rel_ids c"
      using s d by (simp_all add: sane_def integral_iff rel_ids_def)
    ultimately show ?thesis unfolding dep_allowed_def by blast
  qed
  then show ?R using s by (simp add: sane_def integral_iff rel_ids_def)
next
  assume r: ?R
  have "column_type c (att_typid a)" if "a \<in> set (cols c)" for a using r that by (simp add: types_ok_def)
  then have "integral low (c\<lparr>depends := []\<rparr>)"
    using r column_type_registered unfolding integral_iff by (simp add: rel_ids_def active_names_def)
  then have "sane low (c\<lparr>depends := []\<rparr>)" using r by (simp add: sane_def deps_ok_def types_ok_def column_type_def)
  then have "sane low (c\<lparr>depends := []\<rparr>\<lparr>depends := depends c\<rparr>)"
    by (rule sane_deps) (use r in \<open>simp add: dep_allowed_def\<close>)
  then show "sane low c" by simp
qed

lemma sane_constraint_deleted:
  assumes "sane low c"
  shows "sane low (constraint_deleted i c)"
proof -
  have "dep_allowed (constraint_deleted i c) d" if "d \<in> set (depends (constraint_deleted i c))" for d
  proof -
    have d: "dep_allowed c d" "\<not> (dep_classid d = OBJECT_CONSTRAINT_KIND \<and> dep_objid d = i)"
      using assms that by (simp_all add: sane_iff constraint_deleted_def)
    then show ?thesis unfolding dep_allowed_def constraint_deleted_def by (auto simp: rel_ids_def)
  qed
  then show ?thesis
    using assms unfolding sane_iff
    by (simp add: constraint_deleted_def rel_ids_def active_names_def types_ok_def column_type_def)
qed

lemma sane_relation_deleted:
  assumes s: "sane low c" and n: "no_foreign c" and m: "typed m c"
  shows "sane low (relation_deleted (rm_oid m) (rm_reltype m) c)"
proof -
  let ?i = "rm_oid m" and ?d = "relation_deleted (rm_oid m) (rm_reltype m) c"
  have ty: "t \<in> set (types ?d) \<longleftrightarrow> t \<in> set (types c) \<and> ty_relid t \<noteq> ?i" for t
    using m by (auto simp: typed_def relation_deleted_def)
  have ct: "column_type ?d j = column_type c j" for j
    using ty m by (auto simp: column_type_def typed_def)
  have rl: "r \<in> set (relations ?d) \<longleftrightarrow> r \<in> set (relations c) \<and> rel_oid r \<noteq> ?i" for r by (simp add: relation_deleted_def)
  have ids: "rel_ids ?d = rel_ids c - {?i}" using rl by (auto simp: rel_ids_def)
  have cn: "k \<in> set (constraints ?d) \<longleftrightarrow> k \<in> set (constraints c) \<and> con_relid k \<noteq> ?i" for k
    using n m by (auto simp: relation_deleted_def no_foreign_def typed_def)
  have dep: "dep_allowed ?d d" if "d \<in> set (depends ?d)" for d
  proof -
    have d: "dep_allowed c d" "dep_objid d \<noteq> ?i" "dep_refobjid d \<noteq> ?i" using s that by (simp_all add: sane_iff relation_deleted_def)
    have "k \<in> set (constraints ?d)" if "k \<in> set (constraints c)" "dep_refobjid d \<in> constraint_refs k" for k
      using n d(3) that by (auto simp: cn no_foreign_def)
    then show ?thesis using d unfolding dep_allowed_def ids by blast
  qed
  have vec: "vx_relid v \<in> idx_relid ` set (indexes ?d) \<and> valid_vector v" if "v \<in> set (vectors ?d)" for v
  proof -
    have v: "v \<in> set (vectors c)" "vx_relid v \<noteq> ?i" "\<And>x. x \<in> set (indexes c) \<Longrightarrow> idx_relid x = vx_relid v \<Longrightarrow> idx_indrelid x \<noteq> ?i"
      using that by (auto simp: relation_deleted_def list_ex_iff)
    then obtain x where "x \<in> set (indexes c)" "idx_relid x = vx_relid v" "valid_vector v" using s by (auto simp: sane_iff)
    then show ?thesis using v by (force simp: relation_deleted_def)
  qed
  have "distinct (active_names low ?d)"
  proof -
    have e: "filter (\<lambda>r. rel_status r = ''active'') (relations ?d)
        = filter (\<lambda>r. rel_oid r \<noteq> ?i) (filter (\<lambda>r. rel_status r = ''active'') (relations c))"
      by (simp add: relation_deleted_def conj_commute)
    have "distinct (active_names low c)" using s by (simp add: sane_iff)
    then show ?thesis unfolding active_names_def e by (rule distinct_map_filter)
  qed
  moreover have "types_ok ?d"
  proof -
    have "rel_oid r \<noteq> 0 \<and> (rel_type r = 0 \<or> rel_type r \<in> ty_oid ` set (types ?d))
          \<and> (\<forall>t\<in>set (types ?d). ty_oid t = rel_type r \<longrightarrow> ty_relid t = rel_oid r)" if "r \<in> set (relations ?d)" for r
    proof -
      have r: "r \<in> set (relations c)" "rel_oid r \<noteq> ?i" using that by (simp_all add: rl)
      have o: "rel_oid r \<noteq> 0" "rel_type r = 0 \<or> rel_type r \<in> ty_oid ` set (types c)"
          "\<forall>t\<in>set (types c). ty_oid t = rel_type r \<longrightarrow> ty_relid t = rel_oid r"
        using s r(1) by (simp_all add: sane_def types_ok_def)
      have "rel_type r = 0 \<or> rel_type r \<in> ty_oid ` set (types ?d)"
      proof (cases "rel_type r = 0")
        case False
        then obtain t where t: "t \<in> set (types c)" "ty_oid t = rel_type r" using o(2) by auto
        then have "t \<in> set (types ?d)" using o(3) r(2) ty by simp
        then show ?thesis using t(2) by force
      qed simp
      then show ?thesis using o ty by blast
    qed
    moreover have "column_type c (att_typid a)" if "a \<in> set (cols ?d)" for a
      using s that by (simp add: relation_deleted_def sane_def types_ok_def)
    moreover have "ty_oid t \<noteq> 0 \<and> (ty_relid t \<noteq> 0 \<longrightarrow> ty_physical t = ''STRUCT'')" if "t \<in> set (types ?d)" for t
      using s that ty by (simp add: sane_def types_ok_def)
    ultimately show ?thesis using s unfolding types_ok_def ct by (simp add: sane_def types_ok_def)
  qed
  moreover have "att_relid a \<in> rel_ids ?d" if "a \<in> set (cols ?d)" for a
    using s that unfolding ids by (simp add: relation_deleted_def sane_iff)
  moreover have "rel_namespace r \<in> sch_oid ` set (schemas ?d)" if "r \<in> set (relations ?d)" for r
    using s that by (simp add: relation_deleted_def sane_iff)
  ultimately show ?thesis unfolding sane_iff using dep vec by blast
qed

section \<open>The operation\<close>

text \<open>What holds between the statements of DROP: \<open>b\<close> selects whether the checks of the start are
  kept besides the catalog invariant, \<open>M\<close> are the relations whose rows may still go.\<close>

definition dropping :: "bool \<Rightarrow> (string \<Rightarrow> string) \<Rightarrow> relation_meta set \<Rightarrow> catalog \<Rightarrow> bool" where
  "dropping b low M c \<longleftrightarrow> wf_catalog c \<and> (b \<longrightarrow> sane low c \<and> no_foreign c \<and> (\<forall>m\<in>M. typed m c))"

lemma no_foreign_journal [simp]:
  "no_foreign (open_journal m t r c) = no_foreign c" "no_foreign (close_journal F j c) = no_foreign c"
  "typed x (open_journal m t r c) = typed x c" "typed x (close_journal F j c) = typed x c"
  by (simp_all add: no_foreign_def typed_def)

lemma drop_journal: "body_spec (dropping b low M) (insert_journal X m t r) (\<lambda>_. dropping b low M)"
  by (rule body_post [OF sp_insert_journal]) (auto simp: dropping_def)

lemma drop_finish: "body_spec (dropping b low M) (finish_journal X j) (\<lambda>_ c. dropping b low M c \<and> good (x_fmt X) c)"
  by (rule body_post [OF sp_finish_journal]) (auto simp: dropping_def good_close)

lemma typed_row: "sane low c \<Longrightarrow> r \<in> set (relations c) \<Longrightarrow> typed (meta_of r) c"
  by (simp add: sane_def types_ok_def typed_def meta_of_def)

lemma dropping_more: "dropping b low M c \<Longrightarrow> (\<And>m. m \<in> N \<Longrightarrow> \<exists>r\<in>set (relations c). m = meta_of r) \<Longrightarrow> dropping b low (N \<union> M) c"
  unfolding dropping_def using typed_row by blast

lemma dropping_less: "dropping b low M c \<Longrightarrow> N \<subseteq> M \<Longrightarrow> dropping b low N c"
  unfolding dropping_def by blast

lemma dropping_deleted:
  assumes "dropping b low M c" "m \<in> M"
  shows "dropping b low M (relation_deleted (rm_oid m) (rm_reltype m) c)"
proof -
  have "no_foreign c \<Longrightarrow> no_foreign (relation_deleted i t c)" "typed x c \<Longrightarrow> typed x (relation_deleted i t c)" for i t x
    by (simp_all add: no_foreign_def typed_def relation_deleted_def)
  then show ?thesis using assms sane_relation_deleted wf_deleted unfolding dropping_def by blast
qed

lemma dropping_constraint_deleted: "dropping b low M c \<Longrightarrow> dropping b low M (constraint_deleted i c)"
  unfolding dropping_def by (auto simp: wf_deleted sane_constraint_deleted) (simp_all add: no_foreign_def typed_def constraint_deleted_def)

lemma dropping_hasindex:
  assumes "dropping b low M c"
  shows "dropping b low M (c\<lparr>relations := update_where P (\<lambda>r. r\<lparr>rel_hasindex := v\<rparr>) (relations c)\<rparr>)"
proof -
  have "sane low c \<Longrightarrow> sane low (c\<lparr>relations := update_where P (\<lambda>r. r\<lparr>rel_hasindex := v\<rparr>) (relations c)\<rparr>)"
    by (rule sane_update_relations) simp_all
  then show ?thesis using assms by (simp add: dropping_def wf_update_relations no_foreign_def typed_def)
qed

lemma drop_rows:
  assumes "m \<in> M"
  shows "body_spec (dropping b low M) (delete_relation_catalog X m) (\<lambda>_. dropping b low M)"
proof -
  have del: "body_spec (dropping b low M) (cforeach (\<lambda>g. cexec X w (\<lambda>c. Some (g c))) (relation_deletes (rm_oid m) (rm_reltype m)))
      (\<lambda>_. dropping b low M)" for w
    by (rule body_assume, rule body_post [OF sp_deletes]) (simp add: fold_deletes dropping_deleted [OF _ assms])
  show ?thesis
    unfolding delete_relation_catalog_def
    by (rule body_bind [OF body_read_only], intro ro, rule body_bind [OF del], rule body_option, rule body_return, assumption,
        rule body_bind [OF body_read_only], intro ro, rule body_exec) (auto intro: dropping_hasindex)
qed

lemma drop_dependent_rows: "body_spec (dropping b low M) (drop_dependent X i) (\<lambda>_. dropping b low M)"
proof -
  have meta: "body_spec (dropping b low M) (relation_meta_by_oid X i)
      (\<lambda>v. dropping b low ((case v of None \<Rightarrow> {} | Some m \<Rightarrow> {m}) \<union> M))"
    unfolding relation_meta_by_oid_def
    by (rule body_query, erule dropping_more) (auto split: option.splits dest!: first_of_in)
  have rows: "body_spec (dropping b low ({m} \<union> M)) (delete_relation_catalog X m) (\<lambda>_. dropping b low M)" for m
    by (rule body_post [OF drop_rows]) (auto elim: dropping_less)
  show ?thesis
    unfolding drop_dependent_def
  proof (rule body_bind [OF meta])
    fix v show "body_spec (dropping b low ((case v of None \<Rightarrow> {} | Some m \<Rightarrow> {m}) \<union> M))
        (case v of None \<Rightarrow> creturn () | Some d \<Rightarrow> delete_relation_catalog X d) (\<lambda>_. dropping b low M)"
      by (cases v) (simp_all add: body_return rows [simplified])
  qed
qed

lemma drop_reads_ro [ro]: "read_only (dependent_relation_oids X i)" "read_only (dependent_constraint_oids X i)"
  "read_only (relation_meta_by_oid X i)"
  unfolding dependent_relation_oids_def dependent_constraint_oids_def relation_meta_by_oid_def by (intro ro)+

lemma drop_dependencies: "body_spec (dropping b low M) (drop_relation_dependencies X m cascade) (\<lambda>_. dropping b low M)"
proof -
  have con: "body_spec (dropping b low M) (delete_constraint_catalog X i) (\<lambda>_. dropping b low M)" for i
    unfolding delete_constraint_catalog_def
    by (rule body_assume, rule body_post [OF sp_deletes]) (simp add: fold_deletes dropping_constraint_deleted)
  show ?thesis
    unfolding drop_relation_dependencies_def
    by (rule body_bind [OF body_read_only], intro ro, rule body_bind [OF body_read_only], intro ro, rule body_if, rule body_throw,
        rule body_bind [OF body_foreach [OF con]], rule body_foreach [OF drop_dependent_rows])
qed

lemma find_in: "List.find P xs = Some x \<Longrightarrow> x \<in> set xs \<and> P x"
  by (auto simp: find_Some_iff)

lemma joined_partition_rows:
  assumes "(p, r, n) \<in> set (joined_partitions c P)"
  shows "r \<in> set (relations c)"
proof -
  obtain q where "joined_partition c q = Some (p, r, n)"
    using assms by (auto simp: joined_partitions_def List.map_filter_def)
  then have "List.find (\<lambda>r. rel_oid r = par_child q) (relations c) = Some r"
    by (auto simp: joined_partition_def relation_by_oid_def bind_eq_Some_conv)
  then show ?thesis by (auto dest: find_in)
qed

lemma drop_partitioned: 
  assumes "m \<in> M"
  shows "body_spec (dropping b low M) (drop_partitioned_relation X m s r) (\<lambda>_. dropping b low M)"
proof -
  have children: "body_spec (dropping b low M) (partition_child_metas X (rm_oid m)) (\<lambda>v. dropping b low (pc_meta ` set v \<union> M))"
    unfolding partition_child_metas_def
    by (rule body_query, erule dropping_more)
      (auto simp: by_partition_order_def child_meta_def split_beta dest: joined_partition_rows)
  have one: "body_spec (dropping b low (pc_meta ` set v \<union> M)) (cbind (cddl X w1 (f child)) (\<lambda>_. delete_relation_catalog X (pc_meta child)))
      (\<lambda>_. dropping b low (pc_meta ` set v \<union> M))" if "child \<in> set v" for v child w1 f
    by (rule body_bind [OF sp_ddl], rule drop_rows) (use that in simp)
  have last: "body_spec (dropping b low (pc_meta ` set v \<union> M)) (delete_relation_catalog X m) (\<lambda>_. dropping b low M)" for v
    by (rule body_post [OF drop_rows]) (use assms in \<open>auto elim: dropping_less\<close>)
  show ?thesis
    unfolding drop_partitioned_relation_def
    by (rule body_bind [OF children], rule body_bind [OF sp_ddl], rule body_bind [OF body_foreach [OF one] last])
qed

lemma drop_index_physical: "physical_only (drop_child_index X ispec child)"
  unfolding drop_child_index_def Let_def by (intro physical_bind physical_if physical_ddl physical_read ro)

lemma drop_partitioned_index_rows:
  assumes "m \<in> M"
  shows "body_spec (dropping b low M) (drop_partitioned_index X m) (\<lambda>_. dropping b low M)"
  unfolding drop_partitioned_index_def
  by (rule body_bind [OF body_read_only], intro ro, rule body_bind [OF _ drop_rows [OF assms]], rule body_option, rule body_return,
      assumption, rule physical_onlyD, intro physical_bind physical_foreach drop_index_physical physical_read ro)

text \<open>The invariant of the whole operation.\<close>

definition droppable :: "bool \<Rightarrow> 'p external \<Rightarrow> catalog \<Rightarrow> bool" where
  "droppable b X c \<longleftrightarrow> good (x_fmt X) c \<and> (b \<longrightarrow> sane (x_lower X) c \<and> no_foreign c)"

lemma drop_one_careful: "body_spec (droppable b X) (drop_one_object X ot ife cascade table sql name n) (\<lambda>_. droppable b X)"
proof -
  let ?D = "dropping b (x_lower X)"
  have find: "body_spec (droppable b X) (find_relation_meta X s r)
      (\<lambda>v c. droppable b X c \<and> ?D (case v of None \<Rightarrow> {} | Some m \<Rightarrow> {m}) c)" for s r
  proof (rule body_post [OF sp_find_relation_meta], elim conjE, intro conjI)
    fix v c assume d: "droppable b X c" and v: "v = map_option meta_of (active_relation (x_lower X) c s r)"
    show "droppable b X c" by (rule d)
    have "?D ((case v of None \<Rightarrow> {} | Some m \<Rightarrow> {m}) \<union> {}) c"
      by (rule dropping_more) (use d v active_relation_row in \<open>auto simp: droppable_def dropping_def good_def split: option.splits\<close>)
    then show "?D (case v of None \<Rightarrow> {} | Some m \<Rightarrow> {m}) c" by simp
  qed
  have phys: "body_spec (?D {m}) (execute_physical_drop X ot s r cascade) (\<lambda>_. ?D {m})" for m s r
    unfolding execute_physical_drop_def Let_def by (cases ot) (auto intro: sp_ddl body_throw)
  have drop: "body_spec (?D {m}) (if rm_relkind m = ''p'' then drop_partitioned_relation X m s r
              else cbind (if rm_relkind m = ''i''
                   then cbind (partitioned_index_parent X (rm_oid m)) (\<lambda>parent. creturn (parent \<noteq> None))
                   else creturn False) (\<lambda>partitioned.
                 if partitioned then drop_partitioned_index X m
                 else cbind (execute_physical_drop X ot s r cascade) (\<lambda>_.
                   delete_relation_catalog X m))) (\<lambda>_. ?D {m})" for m s r
    by (rule body_if, rule drop_partitioned, simp, rule body_bind [OF body_read_only], intro ro, rule body_if,
        rule drop_partitioned_index_rows, simp, rule body_bind [OF phys], rule drop_rows, simp)
  have fin: "body_spec (?D {m}) (cbind (finish_journal X j) (\<lambda>_. creturn v)) (\<lambda>_. droppable b X)" for m j and v :: nat
    by (rule body_bind [OF drop_finish], rule body_return) (auto simp: dropping_def droppable_def)
  have some: "body_spec (?D {m}) (cbind (clift (ensure_drop_type ot m)) (\<lambda>_.
         if rm_relispartition m then cthrow (EDdl DropPhysicalPartition)
         else
           cbind (insert_journal X ''drop_relation'' (rm_oid m) sql) (\<lambda>journal_id.
           cbind (drop_relation_dependencies X m cascade) (\<lambda>_.
           cbind (if rm_relkind m = ''p'' then drop_partitioned_relation X m s r
              else cbind (if rm_relkind m = ''i''
                   then cbind (partitioned_index_parent X (rm_oid m)) (\<lambda>parent. creturn (parent \<noteq> None))
                   else creturn False) (\<lambda>partitioned.
                 if partitioned then drop_partitioned_index X m
                 else cbind (execute_physical_drop X ot s r cascade) (\<lambda>_.
                   delete_relation_catalog X m))) (\<lambda>_.
           cbind (finish_journal X journal_id) (\<lambda>_.
           creturn (n + 1))))))) (\<lambda>_. droppable b X)" for m s r
    by (rule body_bind [OF body_read_only [OF ro_lift]], rule body_if, rule body_throw, rule body_bind [OF drop_journal],
        rule body_bind [OF drop_dependencies], rule body_bind [OF drop], rule fin)
  show ?thesis
    unfolding drop_one_object_def
  proof (rule body_bind [OF body_read_only [OF ro_lift]], rule body_prod, rule body_bind [OF body_read_only [OF ro_lift]],
      rule body_bind [OF find], rule body_option, goal_cases)
    case (1 v s r u found)
    then show ?case by (auto intro!: body_rules)
  next
    case (2 v s r u found meta)
    show ?case by (rule body_conseq [OF some]) (use 2 in simp_all)
  qed
qed

lemma drop_loop_careful:
  "body_spec (droppable b X) (cfold (drop_one_object X ot ife cascade table sql) names n) (\<lambda>_. droppable b X)"
  by (rule body_fold [where I = "\<lambda>_. droppable b X"], rule drop_one_careful)

lemma droppable_False [simp]: "droppable False X = good (x_fmt X)"
  by (rule ext) (simp add: droppable_def)

lemma drop_objects_atomic: "atomic X (drop_objects X ot ife names cascade table sql)"
proof -
  have "atomic X (run_catalog_tx X (cfold (drop_one_object X ot ife cascade table sql) names 0))"
    using drop_loop_careful [of False] by (intro atomic_tx) simp
  then show ?thesis
    unfolding drop_objects_def by (cases ot) (auto intro: atomic_rules drop_users_atomic drop_roles_atomic)
qed

interpretation drop_objects_op: catalog_operation X "drop_objects X ot ife names cascade table sql"
  for X ot ife names cascade table sql
  by (rule atomic_operation, rule drop_objects_atomic)

lemma drop_objects_keeping:
  assumes "ot \<noteq> OUser" "ot \<noteq> ORole"
  shows "keeping (droppable True X) (drop_objects X ot ife names cascade table sql)"
  using assms unfolding drop_objects_def
  by (cases ot) (auto intro: keeping_rules keeping_tx drop_loop_careful)

text \<open>C30: On a catalog in which no constraint refers to another table, DROP TABLE, DROP VIEW and DROP INDEX, with or
  without CASCADE, one name or many, keep the integrity checks of the next start passing, and keep it so
  that no constraint refers to another table, whatever fails on the way.\<close>

theorem drop_keeps_the_checks:
  assumes "good (x_fmt X) (catalog_of s)" and "sane (x_lower X) (catalog_of s)" and "no_foreign (catalog_of s)"
    and "ot \<in> {OTable, OView, OIndex}"
  shows "let d = catalog_of (snd (drop_objects X ot ife names cascade table sql s))
    in good (x_fmt X) d \<and> sane (x_lower X) d \<and> integral (x_lower X) d \<and> no_foreign d"
proof -
  have "droppable True X (catalog_of s)" using assms by (simp add: droppable_def)
  moreover have "keeping (droppable True X) (drop_objects X ot ife names cascade table sql)"
    by (rule drop_objects_keeping) (use assms(4) in auto)
  ultimately have "droppable True X (catalog_of (snd (drop_objects X ot ife names cascade table sql s)))"
    by (simp add: keeping_def)
  then show ?thesis by (simp add: droppable_def sane_def)
qed

section \<open>A table with a foreign key\<close>

text \<open>Success of the single steps.\<close>

lemma runs_relation_deletes:
  "reliable X \<Longrightarrow> runs (cforeach (\<lambda>g. cexec X w (\<lambda>c. Some (g c))) gs) c () (fold (\<lambda>g. g) gs c)"
  by (induction gs arbitrary: c) (auto intro: runs_return runs_bind [OF runs_exec])

lemma runs_drop_table:
  assumes X: "reliable X" and w: "good (x_fmt X) (cat s)" and s: "saved s = None"
    and n: "relation_name name = Inr (schema, table)" "reject_reserved_schema schema = Inr ()"
    and t: "active_relation (x_lower X) (cat s) schema table = Some t" "rel_kind t = ''r''" "\<not> rel_ispartition t"
    and d: "dependent_relations_in (cat s) (rel_oid t) = []" "dependent_constraints_in (cat s) (rel_oid t) = []"
  shows "\<exists>s' j. drop_objects X OTable ife [name] cascade None sql s = (Inr 1, s') \<and> saved s' = None
     \<and> cat s' = close_journal (x_fmt X) j (relation_deleted (rel_oid t) (rel_type t)
         (open_journal ''drop_relation'' (rel_oid t) sql (cat s)))"
proof -
  let ?m = "meta_of t" and ?c = "cat s"
  let ?o = "open_journal ''drop_relation'' (rel_oid t) sql ?c"
  let ?d = "relation_deleted (rel_oid t) (rel_type t) ?o"
  have wf: "wf_catalog ?c" using w by (simp add: good_def)
  obtain j where j: "next_oid ?c = Some j" using wf_next [OF wf] by blast
  have m: "rm_oid ?m = rel_oid t" "rm_reltype ?m = rel_type t" "rm_relkind ?m = ''r''" "\<not> rm_relispartition ?m"
    using t by (simp_all add: meta_of_def)
  have tables: "depends ?o = depends ?c" "constraints ?o = constraints ?c" by simp_all
  have deps: "runs (drop_relation_dependencies X ?m cascade) ?o () ?o"
    unfolding drop_relation_dependencies_def dependent_relation_oids_def dependent_constraint_oids_def m
    by (rule runs_bind [OF runs_query [OF X]], rule runs_bind [OF runs_query [OF X]])
      (use d in \<open>simp add: dependent_relations_in_def dependent_constraints_in_def runs_return runs_bind [OF runs_return]\<close>)
  have phys: "runs (execute_physical_drop X OTable schema table cascade) ?o () ?o"
    unfolding execute_physical_drop_def Let_def by (simp add: runs_ddl [OF X])
  have rows: "runs (delete_relation_catalog X ?m) ?o () ?d"
    unfolding delete_relation_catalog_def m
    using runs_relation_deletes [OF X, of "''delete relation catalog rows failed''" "relation_deletes (rel_oid t) (rel_type t)" ?o]
    by (auto simp: fold_deletes intro!: runs_bind [OF runs_return] runs_bind [OF _ runs_return])
  have jr: "j \<in> jr_id ` set (journal ?d)" by (simp add: relation_deleted_def open_journal_def j)
  have find: "runs (find_relation_meta X schema table) ?c (Some ?m) ?c"
    unfolding find_relation_meta_def using runs_query [OF X, of _ "\<lambda>c. map_option meta_of (active_relation (x_lower X) c schema table)" ?c]
    by (simp add: t(1))
  have "runs (drop_one_object X OTable ife cascade None sql name 0) ?c 1 (close_journal (x_fmt X) j ?d)"
    unfolding drop_one_object_def
    by (rule runs_bind [OF runs_lift [of _ "(schema, table)"]], simp add: drop_target_def n, simp only: split_conv,
        rule runs_bind [OF runs_lift [OF n(2)]], rule runs_bind [OF find], simp only: option.case,
        rule runs_bind [OF runs_lift [of _ "()"]], simp add: ensure_drop_type_def m, simp only: m if_False,
        rule runs_bind [OF runs_insert_journal [OF X wf j]], rule runs_bind [OF deps], rule runs_bind [of _ _ "()" ?d],
        simp add: runs_bind [OF runs_return] runs_bind [OF phys rows],
        rule runs_bind [OF runs_finish_journal [OF X jr]], rule runs_conv, rule runs_return) simp_all
  then have "runs (cfold (drop_one_object X OTable ife cascade None sql) [name] 0) ?c 1 (close_journal (x_fmt X) j ?d)"
    unfolding cfold.simps by (rule runs_bind) (rule runs_return)
  from runs_tx [OF X this s] show ?thesis by (auto simp: drop_objects_def)
qed


text \<open>C31: A table whose constraint depends on another table is dropped without complaint, on an engine that refuses
  nothing, and leaves the dependency of its deleted constraint behind: the committed catalog is no longer
  integral and the integrity check of the next start fails.\<close>

theorem drop_of_referencing_table_breaks_start:
  assumes "reliable X" and "good (x_fmt X) (cat s)" and "saved s = None"
    and "relation_name name = Inr (schema, table)" and "reject_reserved_schema schema = Inr ()"
    and "active_relation (x_lower X) (cat s) schema table = Some t" and "rel_kind t = ''r''" and "\<not> rel_ispartition t"
    and "dependent_relations_in (cat s) (rel_oid t) = []" and "dependent_constraints_in (cat s) (rel_oid t) = []"
    and k: "k \<in> set (constraints (cat s))" and rel: "con_relid k = rel_oid t"
    and d: "d \<in> set (depends (cat s))" and con: "dep_classid d = OBJECT_CONSTRAINT_KIND" "dep_objid d = con_oid k"
    and ref: "dep_refobjid d \<noteq> rel_oid t"
  shows "\<exists>s'. drop_objects X OTable ife [name] cascade None sql s = (Inr 1, s')
     \<and> \<not> integral (x_lower X) (catalog_of s') \<and> fst (validate_catalog_integrity X s') \<noteq> Inr ()"
proof -
  from runs_drop_table [OF assms(1-10), of ife cascade sql] obtain s' j where
    run: "drop_objects X OTable ife [name] cascade None sql s = (Inr 1, s')" and s': "saved s' = None"
    and cat: "cat s' = close_journal (x_fmt X) j (relation_deleted (rel_oid t) (rel_type t)
         (open_journal ''drop_relation'' (rel_oid t) sql (cat s)))" by blast
  have "distinct (all_oids (cat s))" using assms(2) wf_oids_distinct by (auto simp: good_def wf_catalog_def)
  moreover have "t \<in> set (relations (cat s))" using active_relation_row [OF assms(6)] by simp
  ultimately have ne: "con_oid k \<noteq> rel_oid t" and
    unique: "k' \<in> set (constraints (cat s)) \<Longrightarrow> con_oid k' = con_oid k \<Longrightarrow> k' = k" for k'
    using k by (auto simp: all_oids_def distinct_map inj_on_def)
  have "d \<in> set (depends (cat s'))" using d con ref ne by (simp add: cat relation_deleted_def)
  moreover have "con_oid k \<notin> con_oid ` set (constraints (cat s'))"
    using unique rel by (auto simp: cat relation_deleted_def)
  ultimately have bad: "\<not> integral (x_lower X) (cat s')" using con unfolding integral_iff by metis
  then have "fst (validate_catalog_integrity X s') \<noteq> Inr ()" using validate_sound [of X s'] by blast
  then show ?thesis using run bad s' by (auto simp: closed_catalog)
qed

text \<open>Two tables, the second with a foreign key to the first.\<close>

definition orders_catalog :: catalog where
  "orders_catalog = main_catalog\<lparr>
     relations := [relation_row 100 0 2200 ''people'' ''r'' 1 10, relation_row 101 0 2200 ''orders'' ''r'' 1 10],
     constraints := [constraint_row 102 ''orders_fkey'' 2200 ''f'' 101 ''1'' 100 ''1'' ''FOREIGN KEY''],
     depends := [dependency_row (OBJECT_CONSTRAINT_KIND, 102, 0, OBJECT_RELATION_KIND, 101, 0) ''n'',
       dependency_row (OBJECT_CONSTRAINT_KIND, 102, 0, OBJECT_RELATION_KIND, 100, 0) ''n'']\<rparr>"

definition orders_world :: "unit conn" where
  "orders_world = sample_conn (seal sample_fmt orders_catalog)"

lemma wf_orders: "wf_catalog orders_catalog"
proof -
  let ?oids = "[100, 101, 102] @ all_oids main_catalog"
  have w: "wf_oids main_catalog" "wf_keys main_catalog" "wf_refs main_catalog" "version_row main_catalog \<noteq> None"
    using wf_main by (simp_all add: wf_catalog_def)
  have "all_oids orders_catalog = [2200, 100, 101, 102, 10, 24, 20]" "next_oid orders_catalog = Some 10000"
    by code_simp+
  then have "wf_oids orders_catalog" by (simp add: wf_oids_def FIRST_USER_OID_def)
  moreover have "wf_keys orders_catalog" "wf_refs orders_catalog" "version_row orders_catalog \<noteq> None"
    using w by (simp_all add: orders_catalog_def wf_keys_def wf_refs_def version_row_def)
  ultimately show ?thesis by (simp add: wf_catalog_def)
qed

lemma good_orders: "good (x_fmt sample) (cat orders_world)" "saved orders_world = None"
  by (simp_all add: orders_world_def sample_conn_def good_seal wf_orders)

lemma orders_tables:
  "relations (cat orders_world) = relations orders_catalog" "schemas (cat orders_world) = schemas orders_catalog"
  "constraints (cat orders_world) = constraints orders_catalog" "depends (cat orders_world) = depends orders_catalog"
  by (simp_all add: orders_world_def sample_conn_def seal_def)

theorem drop_of_referencing_table_breaks_start_witness:
  "\<exists>s'. drop_objects sample OTable False [[Identifier ''orders'']] False None [] orders_world = (Inr 1, s')
     \<and> \<not> integral to_lower (catalog_of s') \<and> fst (validate_catalog_integrity sample s') \<noteq> Inr ()"
proof -
  have t: "active_relation to_lower (cat orders_world) ''main'' ''orders'' = Some (relation_row 101 0 2200 ''orders'' ''r'' 1 10)"
    unfolding active_relation_def relation_rows_def orders_tables by code_simp
  have n: "relation_name [Identifier ''orders''] = Inr (''main'', ''orders'')" "reject_reserved_schema ''main'' = Inr ()"
    by code_simp+
  have d: "dependent_relations_in (cat orders_world) 101 = []" "dependent_constraints_in (cat orders_world) 101 = []"
    unfolding dependent_relations_in_def dependent_constraints_in_def orders_tables by code_simp+
  have k: "constraint_row 102 ''orders_fkey'' 2200 ''f'' 101 ''1'' 100 ''1'' ''FOREIGN KEY'' \<in> set (constraints (cat orders_world))"
    "dependency_row (OBJECT_CONSTRAINT_KIND, 102, 0, OBJECT_RELATION_KIND, 100, 0) ''n'' \<in> set (depends (cat orders_world))"
    unfolding orders_tables by (simp_all add: orders_catalog_def)
  have "relation_row 101 0 2200 ''orders'' ''r'' 1 10 = \<lparr>rel_oid = 101, rel_name = ''orders'', rel_namespace = 2200, rel_type = 0,
      rel_owner = 10, rel_kind = ''r'', rel_persistence = ''p'', rel_natts = 1, rel_tuples = 0, rel_hasindex = False,
      rel_ispartition = False, rel_partbound = [], rel_options = [], rel_status = ''active'', rel_error = []\<rparr>"
    by (simp add: relation_row_def)
  then show ?thesis
    using drop_of_referencing_table_breaks_start [OF reliable_sample good_orders n, where cascade = False and ife = False and sql = "[]"] t d k
    by (simp add: constraint_row_def dependency_row_def)
qed

lemma types_ok_empty:
  assumes "types c = bootstrap_types" "relations c = []" "cols c = []"
  shows "types_ok c"
proof -
  have "list_all (\<lambda>i. list_ex (\<lambda>t. ty_oid t = i \<and> ty_relid t = 0) bootstrap_types) scalar_type_ids" by code_simp
  moreover have "list_all (\<lambda>t. ty_oid t \<noteq> 0 \<and> ty_relid t = 0) bootstrap_types" by code_simp
  ultimately show ?thesis using assms by (simp add: types_ok_def column_type_def list_all_iff list_ex_iff)
qed

lemma bootstrap_relation_tables:
  "types (bootstrap_catalog F hash auth) = bootstrap_types" "relations (bootstrap_catalog F hash auth) = []"
  "cols (bootstrap_catalog F hash auth) = []" "vectors (bootstrap_catalog F hash auth) = []"
  "depends (bootstrap_catalog F hash auth) = []" "constraints (bootstrap_catalog F hash auth) = []"
  by (simp_all add: bootstrap_catalog_def seal_def empty_catalog_def)

lemma sane_bootstrap: "sane low (bootstrap_catalog F hash auth)"
  by (simp add: sane_iff active_names_def types_ok_empty bootstrap_relation_tables)

lemma no_foreign_bootstrap: "no_foreign (bootstrap_catalog F hash auth)"
  by (simp add: no_foreign_def bootstrap_relation_tables)

definition start_world :: "unit conn" where
  "start_world = sample_conn (bootstrap_catalog sample_fmt [] [])"

lemma good_start: "good (x_fmt sample) (catalog_of start_world)" "sane (x_lower sample) (catalog_of start_world)"
    "no_foreign (catalog_of start_world)" "saved start_world = None"
  by (simp_all add: start_world_def sample_conn_def catalog_of_def committed_def good_bootstrap sane_bootstrap no_foreign_bootstrap)

theorem drop_keeps_the_checks_witness:
  "integral to_lower (catalog_of (snd (drop_objects sample OTable True [[Identifier ''people''], [Identifier ''orders'']]
     True None [] start_world)))"
  using drop_keeps_the_checks [OF good_start(1-3), of OTable True "[[Identifier ''people''], [Identifier ''orders'']]" True None "[]"]
  by (simp add: Let_def)

end
