(* ===== verification/Partitions.thy ===== *)
theory Partitions
  imports Partition_Value Sql_Scan Relation_Drop
begin

text \<open>
  Managed partitioned tables: \<^verbatim>\<open>src/catalog/partition/\<close> (\<^verbatim>\<open>entrypoint.rs\<close>,
  \<^verbatim>\<open>routing.rs\<close>, \<^verbatim>\<open>create.rs\<close>, \<^verbatim>\<open>retention.rs\<close>, \<^verbatim>\<open>maintenance.rs\<close>,
  \<^verbatim>\<open>repair.rs\<close>), their part of \<^verbatim>\<open>src/catalog/mutation/table.rs\<close> and the helpers of
  \<^verbatim>\<open>src/catalog/recovery.rs\<close> they call. A partitioned table is a view over the physical
  tables of its active partitions, kept in the schema \<^verbatim>\<open>rsduck_internal\<close>; an INSERT creates the
  partitions it needs, the oldest go when there are more than the table keeps, and the view is written
  anew.
\<close>

record part_relation =
  pt_oid :: int
  pt_schema :: string
  pt_name :: string
  pt_key :: string
  pt_key_type :: string
  pt_unit :: string
  pt_retention :: int
  pt_columns :: "catalog_column list"

section \<open>The physical side of a relation\<close>

definition validate_catalog_columns_match_duckdb :: "'p external \<Rightarrow> int \<Rightarrow> string \<Rightarrow> string \<Rightarrow> ('p, unit) db" where
  "validate_catalog_columns_match_duckdb X rel schema relname =
     cbind (catalog_columns X rel) (\<lambda>catalog.
     cbind (load_duckdb_columns X schema relname) (\<lambda>physical.
     if length catalog \<noteq> length physical then cthrow (EPhys (ColumnCountMismatch (length catalog) (length physical)))
     else case List.find (\<lambda>(cc, pc). \<not> eq_ignore_case (cc_name cc) (cc_name pc) \<or> cc_type_id cc \<noteq> cc_type_id pc
            \<or> \<not> eq_ignore_case (cc_duckdb_type cc) (cc_duckdb_type pc)) (zip catalog physical) of
        Some (cc, pc) \<Rightarrow> cthrow (EPhys (ColumnMismatch (cc_attnum cc) (cc_name cc) (cc_duckdb_type cc) (cc_name pc) (cc_duckdb_type pc)))
      | None \<Rightarrow> creturn ()))"

definition validate_table_physical :: "'p external \<Rightarrow> int \<Rightarrow> string \<Rightarrow> string \<Rightarrow> ('p, unit) db" where
  "validate_table_physical X rel schema relname =
     cbind (cphys X ''query DuckDB physical relation failed'' (\<lambda>p. length (filter (\<lambda>t. t = (schema, relname)) (ph_tables p)))) (\<lambda>count.
     if count = 0 then cthrow (EPhys MissingTable) else validate_catalog_columns_match_duckdb X rel schema relname)"

definition validate_view_physical :: "'p external \<Rightarrow> int \<Rightarrow> string \<Rightarrow> string \<Rightarrow> ('p, unit) db" where
  "validate_view_physical X rel schema relname =
     cbind (cphys X ''query DuckDB physical relation failed'' (\<lambda>p. length (filter (\<lambda>t. t = (schema, relname)) (ph_views p)))) (\<lambda>count.
     if count = 0 then cthrow (EPhys MissingView) else validate_catalog_columns_match_duckdb X rel schema relname)"

definition relation_unavailable_message :: "int \<Rightarrow> string \<Rightarrow> string" where
  "relation_unavailable_message rel reason =
     (if contains ''RS-CATALOG-'' reason then reason else ''RS-CATALOG-'' @ show_int rel @ '': '' @ reason)"

definition mark_relation_unavailable :: "'p external \<Rightarrow> int \<Rightarrow> string \<Rightarrow> ('p, unit) db" where
  "mark_relation_unavailable X rel reason =
     cexec X ''mark relation unavailable failed'' (\<lambda>c. Some (c\<lparr>relations := update_where (\<lambda>r. rel_oid r = rel)
       (\<lambda>r. r\<lparr>rel_status := ''unavailable'', rel_error := relation_unavailable_message rel reason\<rparr>) (relations c)\<rparr>))"

section \<open>The view over the partitions\<close>

definition partition_entrypoint_sql :: "string \<Rightarrow> string \<Rightarrow> (string \<times> string) list \<Rightarrow> string" where
  "partition_entrypoint_sql schema table children =
     ''CREATE OR REPLACE VIEW '' @ quote_qualified schema table @ '' AS ''
     @ join '' UNION ALL '' (map (\<lambda>(s, r). ''SELECT * FROM '' @ quote_qualified s r) children)"

definition empty_entrypoint_sql :: "string \<Rightarrow> string \<Rightarrow> (string \<times> string) list \<Rightarrow> string" where
  "empty_entrypoint_sql schema table columns =
     ''CREATE OR REPLACE VIEW '' @ quote_qualified schema table @ '' AS SELECT ''
     @ join '', '' (map (\<lambda>(ty, name). ''CAST(NULL AS '' @ ty @ '') AS '' @ quote_ident name) columns) @ '' WHERE FALSE''"

definition empty_partition_entrypoint_sql_from_create_table :: "string \<Rightarrow> string \<Rightarrow> create_table \<Rightarrow> string" where
  "empty_partition_entrypoint_sql_from_create_table schema table ct =
     empty_entrypoint_sql schema table (map (\<lambda>column. (cd_type column, cd_name column)) (ct_columns ct))"

definition partition_entrypoint_sql_from_catalog ::
    "'p external \<Rightarrow> int \<Rightarrow> string \<Rightarrow> string \<Rightarrow> active_partition_child list \<Rightarrow> ('p, string) db" where
  "partition_entrypoint_sql_from_catalog X parent_oid schema table children =
     (if children \<noteq> []
      then creturn (partition_entrypoint_sql schema table (map (\<lambda>p. (ap_schema p, ap_relname p)) children))
      else cbind (catalog_columns X parent_oid) (\<lambda>columns.
        creturn (empty_entrypoint_sql schema table (map (\<lambda>column. (cc_duckdb_type column, cc_name column)) columns))))"

definition rebuild_partition_entrypoint :: "'p external \<Rightarrow> int \<Rightarrow> string \<Rightarrow> ('p, unit) db" where
  "rebuild_partition_entrypoint X parent_oid expected_sql =
     cbind (cddl X ''rebuild partition entrypoint failed'' expected_sql) (\<lambda>_.
     cexec X ''record rebuilt partition entrypoint failed'' (\<lambda>c. Some (c\<lparr>exts := update_where (\<lambda>e. ext_relid e = parent_oid)
       (\<lambda>e. e\<lparr>ext_generated_sql := expected_sql\<rparr>) (exts c)\<rparr>)))"

definition sync_partition_dependencies :: "'p external \<Rightarrow> int \<Rightarrow> active_partition_child list \<Rightarrow> ('p, unit) db" where
  "sync_partition_dependencies X parent_oid children =
     cbind (cexec X ''delete partition dependencies failed'' (\<lambda>c. Some (c\<lparr>depends := filter (\<lambda>d.
        \<not> (dep_classid d = OBJECT_RELATION_KIND \<and> dep_objid d = parent_oid \<and> dep_refclassid d = OBJECT_RELATION_KIND))
        (depends c)\<rparr>))) (\<lambda>_.
     cforeach (\<lambda>partition. write_dependency X ''write partition dependency failed''
       (OBJECT_RELATION_KIND, parent_oid, 0, OBJECT_RELATION_KIND, ap_child_oid partition, 0) ''n'') children)"

definition refresh_partition_entrypoint :: "'p external \<Rightarrow> int \<Rightarrow> string \<Rightarrow> string \<Rightarrow> ('p, unit) db" where
  "refresh_partition_entrypoint X parent_oid schema relname =
     cbind (active_partition_children X parent_oid) (\<lambda>children.
     cbind (partition_entrypoint_sql_from_catalog X parent_oid schema relname children) (\<lambda>sql.
     cbind (rebuild_partition_entrypoint X parent_oid sql) (\<lambda>_.
     sync_partition_dependencies X parent_oid children)))"

definition widen :: "(int \<Rightarrow> int \<Rightarrow> bool) \<Rightarrow> int \<Rightarrow> int option \<Rightarrow> int option" where
  "widen beyond v old = (case old of None \<Rightarrow> Some v | Some w \<Rightarrow> if beyond v w then Some v else old)"

definition update_partition_stats ::
    "'p external \<Rightarrow> int \<Rightarrow> string \<Rightarrow> nat \<Rightarrow> naive_datetime option \<Rightarrow> ('p, unit) db" where
  "update_partition_stats X parent_oid partition_value inserted_rows route_ts =
     cexec X ''update partition stats failed'' (\<lambda>c. Some (c\<lparr>parts := update_where
       (\<lambda>p. par_parent p = parent_oid \<and> par_value p = partition_value)
       (\<lambda>p. case route_ts of
          None \<Rightarrow> p\<lparr>par_row_count := par_row_count p + int inserted_rows\<rparr>
        | Some dt \<Rightarrow> p\<lparr>par_row_count := par_row_count p + int inserted_rows,
            par_min_ts := widen (<) (cal_micros (x_cal X) dt) (par_min_ts p),
            par_max_ts := widen (>) (cal_micros (x_cal X) dt) (par_max_ts p)\<rparr>)
       (parts c)\<rparr>))"

section \<open>Reading a partitioned table\<close>

definition partition_settings :: "catalog \<Rightarrow> int \<Rightarrow> (string \<times> string \<times> string \<times> int) option" where
  "partition_settings c i = map_option (\<lambda>e. (ext_partition_key e, ext_partition_key_type e, ext_partition_unit e, ext_retention_count e))
     (List.find (\<lambda>e. ext_relid e = i \<and> ext_managed_kind e = ''range_partitioned_table'') (exts c))"

definition partitioned_relation :: "'p external \<Rightarrow> string \<Rightarrow> string \<Rightarrow> ('p, part_relation option) db" where
  "partitioned_relation X schema table =
     cbind (find_relation_meta X schema table) (\<lambda>found. case found of
       None \<Rightarrow> creturn None
     | Some meta \<Rightarrow>
         if rm_relkind meta \<noteq> ''p'' then creturn None
         else
           cbind (cquery_row X ''read partitioned relation metadata failed'' (\<lambda>c. partition_settings c (rm_oid meta)))
             (\<lambda>(key, key_type, unit, retention).
           cbind (catalog_columns X (rm_oid meta)) (\<lambda>columns.
           creturn (Some \<lparr>pt_oid = rm_oid meta, pt_schema = schema, pt_name = table, pt_key = key, pt_key_type = key_type,
             pt_unit = unit, pt_retention = retention, pt_columns = columns\<rparr>))))"

definition insert_target_columns :: "insert \<Rightarrow> part_relation \<Rightarrow> err + string list" where
  "insert_target_columns ins relation =
     (if in_columns ins = [] then Inr (map cc_name (pt_columns relation))
      else rcollect (\<lambda>name. rbind (single_name_part name) (\<lambda>column.
        if list_ex (\<lambda>catalog_column. eq_ignore_case (cc_name catalog_column) column) (pt_columns relation)
        then Inr column else Inl (EPart (InsertUnknownColumn column)))) (in_columns ins))"

definition partition_by_value :: "catalog \<Rightarrow> int \<Rightarrow> string \<Rightarrow> (rs_partition \<Rightarrow> bool) \<Rightarrow> active_partition_child option" where
  "partition_by_value c parent_oid partition_value P = map_option active_child
     (first_of (joined_partitions c (\<lambda>p. par_parent p = parent_oid \<and> par_value p = partition_value \<and> P p)))"

definition active_partition_by_value :: "'p external \<Rightarrow> int \<Rightarrow> string \<Rightarrow> ('p, active_partition_child option) db" where
  "active_partition_by_value X parent_oid partition_value = cquery X ''query partition lookup failed''
     (\<lambda>c. partition_by_value c parent_oid partition_value (\<lambda>p. par_status p = ''active''))"

definition partition_child_by_value :: "'p external \<Rightarrow> int \<Rightarrow> string \<Rightarrow> ('p, active_partition_child option) db" where
  "partition_child_by_value X parent_oid partition_value = cquery X ''query partition child lookup failed''
     (\<lambda>c. partition_by_value c parent_oid partition_value (\<lambda>_. True))"

text \<open>\<^verbatim>\<open>ORDER BY child_relid DESC LIMIT 1\<close>\<close>

definition partition_status_by_value :: "'p external \<Rightarrow> int \<Rightarrow> string \<Rightarrow> ('p, string option) db" where
  "partition_status_by_value X parent_oid partition_value = cquery X ''query partition status lookup failed'' (\<lambda>c.
     map_option par_status (first_of (sort_key (\<lambda>p. - par_child p)
       (filter (\<lambda>p. par_parent p = parent_oid \<and> par_value p = partition_value) (parts c)))))"

section \<open>Creating a partition\<close>

definition physical_partition_name :: "string \<Rightarrow> string \<Rightarrow> string" where
  "physical_partition_name parent partition_value = parent @ ''_'' @ trim_start_matches (CHR ''_'') partition_value"

definition constraint_column_list :: "'p external \<Rightarrow> int \<Rightarrow> string \<Rightarrow> ('p, string) db" where
  "constraint_column_list X rel attnums =
     cbind (clift (parse_attnum_list attnums)) (\<lambda>ks.
     cbind (cmapM (column_name_by_attnum X rel) ks) (\<lambda>names.
     creturn (join '', '' (map quote_ident names))))"

definition physical_constraint :: "'p external \<Rightarrow> int \<Rightarrow> rs_constraint \<Rightarrow> ('p, string option) db" where
  "physical_constraint X parent_oid k =
     (let prefix = ''CONSTRAINT '' @ quote_ident (con_name k) in
      if con_type k = ''p'' then
        cbind (constraint_column_list X parent_oid (con_key k)) (\<lambda>columns.
        creturn (Some (prefix @ '' PRIMARY KEY ('' @ columns @ '')'')))
      else if con_type k = ''u'' then
        cbind (constraint_column_list X parent_oid (con_key k)) (\<lambda>columns.
        creturn (Some (prefix @ '' UNIQUE ('' @ columns @ '')'')))
      else if con_type k = ''c'' then creturn (Some (prefix @ '' CHECK ('' @ con_bin k @ '')''))
      else if con_type k = ''f'' then
        cbind (constraint_column_list X parent_oid (con_key k)) (\<lambda>columns.
        cbind (constraint_column_list X (con_frelid k) (con_fkey k)) (\<lambda>ref_columns.
        cbind (relation_name_by_oid X (con_frelid k)) (\<lambda>(ref_schema, ref_table).
        creturn (Some (prefix @ '' FOREIGN KEY ('' @ columns @ '') REFERENCES '' @ quote_qualified ref_schema ref_table
          @ '' ('' @ ref_columns @ '')'')))))
      else creturn None)"

definition physical_partition_constraints_from_catalog :: "'p external \<Rightarrow> int \<Rightarrow> ('p, string list) db" where
  "physical_partition_constraints_from_catalog X parent_oid =
     cbind (cquery X ''query partition constraint lookup failed''
       (\<lambda>c. sort_key con_oid (filter (\<lambda>k. con_relid k = parent_oid) (constraints c)))) (\<lambda>rows.
     cbind (cmapM (physical_constraint X parent_oid) rows) (\<lambda>texts.
     creturn (List.map_filter (\<lambda>t. t) texts)))"

definition column_definition :: "catalog_column \<Rightarrow> string" where
  "column_definition column = quote_ident (cc_name column) @ '' '' @ cc_duckdb_type column
     @ (if cc_not_null column then '' NOT NULL'' else [])
     @ (case cc_default column of None \<Rightarrow> [] | Some default_expr \<Rightarrow> '' DEFAULT '' @ default_expr)"

definition physical_partition_create_from_catalog_sql ::
    "'p external \<Rightarrow> int \<Rightarrow> string \<Rightarrow> string \<Rightarrow> catalog_column list \<Rightarrow> ('p, string) db" where
  "physical_partition_create_from_catalog_sql X parent_oid schema relation columns =
     cbind (physical_partition_constraints_from_catalog X parent_oid) (\<lambda>constrs.
     creturn (''CREATE TABLE '' @ quote_qualified schema relation @ '' (''
       @ join '', '' (map column_definition columns @ constrs) @ '')''))"

definition bounds_text :: "calendar \<Rightarrow> bounds_of_partition \<Rightarrow> string" where
  "bounds_text K bounds = ''['' @ cal_text K (pb_lower bounds) @ '', '' @ cal_text K (pb_upper bounds) @ '')''"

definition mark_physical_partition :: "'p external \<Rightarrow> string \<Rightarrow> int \<Rightarrow> bounds_of_partition \<Rightarrow> ('p, unit) db" where
  "mark_physical_partition X what child_oid bounds = cexec X what (\<lambda>c. Some (c\<lparr>relations :=
     update_where (\<lambda>r. rel_oid r = child_oid)
       (\<lambda>r. r\<lparr>rel_ispartition := True, rel_partbound := bounds_text (x_cal X) bounds\<rparr>) (relations c)\<rparr>))"

definition partition_row :: "calendar \<Rightarrow> part_relation \<Rightarrow> int \<Rightarrow> bounds_of_partition \<Rightarrow> rs_partition" where
  "partition_row K relation child_oid bounds =
     \<lparr>par_parent = pt_oid relation, par_child = child_oid, par_value = pb_value bounds, par_unit = pt_unit relation,
      par_lower = Some (cal_micros K (pb_lower bounds)), par_upper = Some (cal_micros K (pb_upper bounds)),
      par_is_null = False, par_status = ''active'', par_row_count = 0, par_min_ts = None, par_max_ts = None,
      par_checksum = [], par_error = []\<rparr>"

definition create_range_partition :: "'p external \<Rightarrow> part_relation \<Rightarrow> string \<Rightarrow> ('p, string) db" where
  "create_range_partition X relation partition_value =
     cbind (clift (partition_bounds (x_cal X) partition_value (pt_unit relation))) (\<lambda>bounds.
     let child_relname = physical_partition_name (pt_name relation) partition_value in
     cbind (relation_exists X ''rsduck_internal'' child_relname) (\<lambda>present.
     if present then cthrow (EPart (PartitionRelationExists child_relname))
     else
       cbind (allocate_oid X) (\<lambda>child_oid.
       cbind (allocate_oid X) (\<lambda>child_type_oid.
       cbind (physical_partition_create_from_catalog_sql X (pt_oid relation) ''rsduck_internal'' child_relname
          (pt_columns relation)) (\<lambda>create_sql.
       cbind (cddl X ''execute DuckDB CREATE partition failed'' create_sql) (\<lambda>_.
       cbind (load_duckdb_columns X ''rsduck_internal'' child_relname) (\<lambda>columns.
       cbind (insert_relation_rows X child_oid child_type_oid ''rsduck_internal'' child_relname ''r'' ''physical_partition''
          ''internal'' [] columns ADMIN_USER_ID) (\<lambda>_.
       cbind (mark_physical_partition X ''mark physical partition rs_relation failed'' child_oid bounds) (\<lambda>_.
       cbind (update_partition_relation_ext X child_oid (pt_key relation) (pt_key_type relation) (pt_unit relation) 0 []) (\<lambda>_.
       cbind (cexec X ''write range partition metadata failed'' (\<lambda>c. map_option (\<lambda>rows. c\<lparr>parts := rows\<rparr>)
          (insert_partition (partition_row (x_cal X) relation child_oid bounds) (parts c)))) (\<lambda>_.
       cbind (write_dependency X ''write range partition dependency failed''
          (OBJECT_RELATION_KIND, pt_oid relation, 0, OBJECT_RELATION_KIND, child_oid, 0) ''n'') (\<lambda>_.
       cbind (create_partition_indexes X (pt_oid relation) child_relname) (\<lambda>_.
       creturn child_relname)))))))))))))"

definition ensure_active_partition :: "'p external \<Rightarrow> part_relation \<Rightarrow> string \<Rightarrow> ('p, string) db" where
  "ensure_active_partition X relation partition_value =
     cbind (active_partition_by_value X (pt_oid relation) partition_value) (\<lambda>active. case active of
       Some child \<Rightarrow> creturn (ap_relname child)
     | None \<Rightarrow>
         cbind (partition_status_by_value X (pt_oid relation) partition_value) (\<lambda>known. case known of
           Some status \<Rightarrow> cthrow (EPart (PartitionInactive (pt_name relation) partition_value status))
         | None \<Rightarrow> create_range_partition X relation partition_value))"

end
