(* ===== verification/Partition_Ddl.thy ===== *)
theory Partition_Ddl
  imports Partitions
begin

text \<open>
  The operations on managed partitioned tables: INSERT and CREATE (\<^verbatim>\<open>src/catalog/mutation/table.rs\<close>,
  \<^verbatim>\<open>src/catalog/partition/validation.rs\<close>), retention, maintenance, marking a partition
  unavailable and repairing it (\<^verbatim>\<open>src/catalog/partition/\<close>).
\<close>

section \<open>Retention\<close>

record retention_partition =
  rt_value :: string
  rt_schema :: string
  rt_relname :: string
  rt_meta :: relation_meta

definition retention_partitions_in :: "catalog \<Rightarrow> int \<Rightarrow> retention_partition list" where
  "retention_partitions_in c parent_oid = map (\<lambda>(p, r, n). \<lparr>rt_value = par_value p, rt_schema = sch_name n,
       rt_relname = rel_name r, rt_meta = meta_of r\<rparr>)
     (sort_key (\<lambda>(p, _). par_value p) (joined_partitions c (\<lambda>p. par_parent p = parent_oid \<and> par_status p = ''active''
        \<and> \<not> par_is_null p)))"

definition retention_partitions :: "'p external \<Rightarrow> int \<Rightarrow> ('p, retention_partition list) db" where
  "retention_partitions X parent_oid = cquery X ''query retention partition lookup failed''
     (\<lambda>c. retention_partitions_in c parent_oid)"

definition partition_child_deletes :: "int \<Rightarrow> int \<Rightarrow> (catalog \<Rightarrow> catalog) list" where
  "partition_child_deletes i reltype =
     [\<lambda>c. c\<lparr>depends := filter (\<lambda>d. \<not> (dep_objid d = i \<or> dep_refobjid d = i)) (depends c)\<rparr>,
      \<lambda>c. c\<lparr>remarks := filter (\<lambda>r. com_objoid r \<noteq> i) (remarks c)\<rparr>,
      \<lambda>c. c\<lparr>defaults := filter (\<lambda>d. def_relid d \<noteq> i) (defaults c)\<rparr>,
      \<lambda>c. c\<lparr>cols := filter (\<lambda>a. att_relid a \<noteq> i) (cols c)\<rparr>,
      \<lambda>c. c\<lparr>constraints := filter (\<lambda>k. \<not> (con_relid k = i \<or> con_indid k = i)) (constraints c)\<rparr>,
      \<lambda>c. c\<lparr>indexes := filter (\<lambda>x. \<not> (idx_relid x = i \<or> idx_indrelid x = i)) (indexes c)\<rparr>,
      \<lambda>c. c\<lparr>exts := filter (\<lambda>e. ext_relid e \<noteq> i) (exts c)\<rparr>,
      \<lambda>c. c\<lparr>types := filter (\<lambda>t. \<not> (ty_oid t = reltype \<or> ty_relid t = i)) (types c)\<rparr>,
      \<lambda>c. c\<lparr>relations := filter (\<lambda>r. rel_oid r \<noteq> i) (relations c)\<rparr>]"

definition delete_partition_child_catalog :: "'p external \<Rightarrow> relation_meta \<Rightarrow> ('p, unit) db" where
  "delete_partition_child_catalog X meta =
     cforeach (\<lambda>g. cexec X ''delete partition child catalog rows failed'' (\<lambda>c. Some (g c)))
       (partition_child_deletes (rm_oid meta) (rm_reltype meta))"

definition expire_partition :: "'p external \<Rightarrow> int \<Rightarrow> retention_partition \<Rightarrow> ('p, unit) db" where
  "expire_partition X parent_oid old =
     (let child = rm_oid (rt_meta old) in
      cbind (cexec X ''mark partition expiring failed'' (\<lambda>c. Some (c\<lparr>parts := update_where
         (\<lambda>p. par_parent p = parent_oid \<and> par_child p = child \<and> \<not> par_is_null p \<and> par_status p = ''active'')
         (\<lambda>p. p\<lparr>par_status := ''expiring''\<rparr>) (parts c)\<rparr>))) (\<lambda>_.
      cbind (cddl X ''execute DuckDB DROP expired partition failed''
         (''DROP TABLE '' @ quote_qualified (rt_schema old) (rt_relname old))) (\<lambda>_.
      cbind (delete_partition_child_catalog X (rt_meta old)) (\<lambda>_.
      cexec X ''mark partition dropped failed'' (\<lambda>c. Some (c\<lparr>parts := update_where
         (\<lambda>p. par_parent p = parent_oid \<and> par_child p = child \<and> par_value p = rt_value old)
         (\<lambda>p. p\<lparr>par_status := ''dropped'', par_error := []\<rparr>) (parts c)\<rparr>))))))"

definition expire_old_partitions :: "'p external \<Rightarrow> part_relation \<Rightarrow> ('p, nat) db" where
  "expire_old_partitions X relation =
     (if pt_retention relation \<le> 0 then creturn 0
      else
        cbind (retention_partitions X (pt_oid relation)) (\<lambda>all.
        let keep = nat (pt_retention relation) in
        if length all \<le> keep then creturn 0
        else
          let expire_count = length all - keep in
          cbind (cforeach (expire_partition X (pt_oid relation)) (take expire_count all)) (\<lambda>_.
          creturn expire_count)))"

section \<open>Maintenance\<close>

text \<open>The names of the active partitioned tables, \<^verbatim>\<open>ORDER BY n.nspname, c.relname\<close>.\<close>

definition partitioned_names :: "catalog \<Rightarrow> (string \<times> string) list" where
  "partitioned_names c = (let rows = List.map_filter (\<lambda>r.
       if rel_status r = ''active'' \<and> rel_kind r = ''p''
          \<and> list_ex (\<lambda>e. ext_relid e = rel_oid r \<and> ext_managed_kind e = ''range_partitioned_table'') (exts c)
       then map_option (\<lambda>n. (sch_name n, rel_name r)) (schema_of_relation c r) else None) (relations c)
     in sort_key fst (sort_key snd rows))"

definition partitioned_relations :: "'p external \<Rightarrow> ('p, part_relation list) db" where
  "partitioned_relations X =
     cbind (cquery X ''query partitioned relation list failed'' partitioned_names) (\<lambda>names.
     cbind (cmapM (\<lambda>(schema, table). partitioned_relation X schema table) names) (\<lambda>found.
     creturn (List.map_filter (\<lambda>r. r) found)))"

definition maintain_relation :: "'p external \<Rightarrow> part_relation \<Rightarrow> nat \<Rightarrow> ('p, nat) db" where
  "maintain_relation X relation expired =
     cbind (expire_old_partitions X relation) (\<lambda>n.
     cbind (refresh_partition_entrypoint X (pt_oid relation) (pt_schema relation) (pt_name relation)) (\<lambda>_.
     creturn (expired + n)))"

definition partition_maintenance_body :: "'p external \<Rightarrow> string \<Rightarrow> ('p, nat) db" where
  "partition_maintenance_body X sql =
     cbind (insert_journal X ''run_partition_maintenance'' 0 sql) (\<lambda>journal_id.
     cbind (partitioned_relations X) (\<lambda>relations.
     cbind (cfold (maintain_relation X) relations 0) (\<lambda>expired.
     cbind (finish_journal X journal_id) (\<lambda>_.
     creturn expired))))"

definition run_partition_maintenance :: "'p external \<Rightarrow> string \<Rightarrow> ('p, nat) db" where
  "run_partition_maintenance X sql = run_catalog_tx X (partition_maintenance_body X sql)"

section \<open>Marking and repairing\<close>

definition mark_partition_failed :: "'p external \<Rightarrow> string \<Rightarrow> int \<Rightarrow> int \<Rightarrow> string \<Rightarrow> ('p, unit) db" where
  "mark_partition_failed X what parent_oid child_oid reason =
     cexec X what (\<lambda>c. Some (c\<lparr>parts := update_where (\<lambda>p. par_parent p = parent_oid \<and> par_child p = child_oid)
       (\<lambda>p. p\<lparr>par_status := ''failed'', par_error := reason\<rparr>) (parts c)\<rparr>))"

definition mark_partition_body ::
    "'p external \<Rightarrow> part_relation \<Rightarrow> string \<Rightarrow> string \<Rightarrow> string \<Rightarrow> string \<Rightarrow> string \<Rightarrow> ('p, nat) db" where
  "mark_partition_body X relation schema table partition_value reason sql =
     cbind (partition_child_by_value X (pt_oid relation) partition_value) (\<lambda>found. case found of
       None \<Rightarrow> cthrow (EPart (PartitionMissing schema table partition_value))
     | Some child \<Rightarrow>
         cbind (insert_journal X ''mark_partition_unavailable'' (ap_child_oid child) sql) (\<lambda>journal_id.
         cbind (mark_partition_failed X ''mark partition unavailable failed'' (pt_oid relation) (ap_child_oid child)
            (relation_unavailable_message (ap_child_oid child) reason)) (\<lambda>_.
         cbind (mark_relation_unavailable X (ap_child_oid child) reason) (\<lambda>_.
         cbind (refresh_partition_entrypoint X (pt_oid relation) schema table) (\<lambda>_.
         cbind (finish_journal X journal_id) (\<lambda>_.
         creturn 1))))))"

definition mark_partition_unavailable ::
    "'p external \<Rightarrow> string \<Rightarrow> string \<Rightarrow> string \<Rightarrow> string \<Rightarrow> string \<Rightarrow> ('p, nat) db" where
  "mark_partition_unavailable X schema table partition_value reason sql =
     cbind (partitioned_relation X schema table) (\<lambda>found. case found of
       None \<Rightarrow> cthrow (EPart (PartitionedMissing schema table))
     | Some relation \<Rightarrow> run_catalog_tx X (mark_partition_body X relation schema table partition_value reason sql))"

definition recreate_partition :: "'p external \<Rightarrow> part_relation \<Rightarrow> int \<Rightarrow> string \<Rightarrow> string \<Rightarrow> ('p, unit) db" where
  "recreate_partition X relation child_oid child_relname partition_value =
     cbind (allocate_oid X) (\<lambda>child_type_oid.
     cbind (physical_partition_create_from_catalog_sql X (pt_oid relation) ''rsduck_internal'' child_relname
        (pt_columns relation)) (\<lambda>create_sql.
     cbind (cddl X ''execute DuckDB CREATE repaired partition failed'' create_sql) (\<lambda>_.
     cbind (load_duckdb_columns X ''rsduck_internal'' child_relname) (\<lambda>columns.
     cbind (insert_relation_rows X child_oid child_type_oid ''rsduck_internal'' child_relname ''r'' ''physical_partition''
        ''internal'' [] columns ADMIN_USER_ID) (\<lambda>_.
     cbind (clift (partition_bounds (x_cal X) partition_value (pt_unit relation))) (\<lambda>bounds.
     cbind (mark_physical_partition X ''mark repaired partition rs_relation failed'' child_oid bounds) (\<lambda>_.
     cbind (update_partition_relation_ext X child_oid (pt_key relation) (pt_key_type relation) (pt_unit relation) 0 []) (\<lambda>_.
     create_partition_indexes X (pt_oid relation) child_relname))))))))"

definition repair_non_active_partition :: "'p external \<Rightarrow> part_relation \<Rightarrow> string \<Rightarrow> ('p, unit) db" where
  "repair_non_active_partition X relation partition_value =
     cbind (cmap_err (\<lambda>_. EPart (PartitionNoMetadata (pt_name relation) partition_value))
       (cquery_row X [] (\<lambda>c. map_option (\<lambda>p. (par_child p, par_status p))
         (List.find (\<lambda>p. par_parent p = pt_oid relation \<and> par_value p = partition_value) (parts c)))))
       (\<lambda>(child_oid, partition_status).
     if partition_status = ''active'' then creturn ()
     else
       let child_relname = physical_partition_name (pt_name relation) partition_value in
       cbind (relation_exists X ''rsduck_internal'' child_relname) (\<lambda>present.
       cbind (if \<not> present then recreate_partition X relation child_oid child_relname partition_value
          else
            cbind (partition_child_by_value X (pt_oid relation) partition_value) (\<lambda>found. case found of
              Some child \<Rightarrow> validate_table_physical X (ap_child_oid child) (ap_schema child) (ap_relname child)
            | None \<Rightarrow> cthrow (EPart (PartitionNoCatalogRelation child_relname)))) (\<lambda>_.
       cbind (cexec X ''repair partition metadata failed'' (\<lambda>c. Some (c\<lparr>parts := update_where
          (\<lambda>p. par_parent p = pt_oid relation \<and> par_value p = partition_value)
          (\<lambda>p. p\<lparr>par_status := ''active'', par_error := []\<rparr>) (parts c)\<rparr>))) (\<lambda>_.
       cexec X ''repair partition relation status failed'' (\<lambda>c. Some (c\<lparr>relations := update_where
          (\<lambda>r. rel_oid r = child_oid) (\<lambda>r. r\<lparr>rel_status := ''active'', rel_error := []\<rparr>) (relations c)\<rparr>))))))"

definition repair_partition_body ::
    "'p external \<Rightarrow> part_relation \<Rightarrow> string \<Rightarrow> string \<Rightarrow> string \<Rightarrow> string \<Rightarrow> ('p, nat) db" where
  "repair_partition_body X relation schema table partition_value sql =
     cbind (insert_journal X ''repair_partition'' (pt_oid relation) sql) (\<lambda>journal_id.
     cbind (active_partition_by_value X (pt_oid relation) partition_value) (\<lambda>found. case found of
       Some child \<Rightarrow>
         cbind (validate_table_physical X (ap_child_oid child) (ap_schema child) (ap_relname child)) (\<lambda>_.
         cbind (refresh_partition_entrypoint X (pt_oid relation) schema table) (\<lambda>_.
         cbind (finish_journal X journal_id) (\<lambda>_.
         creturn 0)))
     | None \<Rightarrow>
         cbind (repair_non_active_partition X relation partition_value) (\<lambda>_.
         cbind (refresh_partition_entrypoint X (pt_oid relation) schema table) (\<lambda>_.
         cbind (finish_journal X journal_id) (\<lambda>_.
         creturn 1)))))"

definition repair_partition :: "'p external \<Rightarrow> string \<Rightarrow> string \<Rightarrow> string \<Rightarrow> string \<Rightarrow> ('p, nat) db" where
  "repair_partition X schema table partition_value sql =
     cbind (partitioned_relation X schema table) (\<lambda>found. case found of
       None \<Rightarrow> cthrow (EPart (PartitionedMissing schema table))
     | Some relation \<Rightarrow> run_catalog_tx X (repair_partition_body X relation schema table partition_value sql))"

section \<open>INSERT\<close>

text \<open>The rows of the source by partition; a source other than VALUES is run by the engine.\<close>

definition partition_insert_groups ::
    "'p external \<Rightarrow> insert_source \<Rightarrow> string list \<Rightarrow> nat option \<Rightarrow> part_relation \<Rightarrow> ('p, insert_groups) db" where
  "partition_insert_groups X source target_columns idx relation = (case is_values source of
     Some rows \<Rightarrow> clift (values_groups (x_cal X) (pt_key relation) (pt_key_type relation) (pt_unit relation)
       (length target_columns) idx rows)
   | None \<Rightarrow>
       cbind (stmt X ''query partition INSERT source failed'' (\<lambda>s. map_option (\<lambda>v. (v, s))
         (x_select X (''SELECT * FROM ('' @ is_text source @ '') AS rsduck_insert_source'') (cat s) (phys s)))) (\<lambda>(width, rows).
       if width \<noteq> length target_columns then cthrow (EPart (InsertSourceCount (length target_columns) width))
       else clift (query_groups (x_fmt X) (x_cal X) (pt_key relation) (pt_key_type relation) (pt_unit relation) idx rows)))"

definition insert_sql :: "string \<Rightarrow> string list \<Rightarrow> string list list \<Rightarrow> string" where
  "insert_sql child_relname target_columns rows =
     ''INSERT INTO '' @ quote_qualified ''rsduck_internal'' child_relname @ '' ('' @ join '', '' (map quote_ident target_columns)
     @ '') VALUES '' @ join '', '' (map (\<lambda>row. ''('' @ join '', '' row @ '')'') rows)"

definition insert_group ::
    "'p external \<Rightarrow> part_relation \<Rightarrow> string list \<Rightarrow> string \<times> naive_datetime option \<times> string list list \<Rightarrow> nat
     \<Rightarrow> ('p, nat) db" where
  "insert_group X relation target_columns g affected = (case g of (partition_value, route_ts, rows) \<Rightarrow>
     cbind (ensure_active_partition X relation partition_value) (\<lambda>child_relname.
     cbind (cddl X ''insert partition rows failed'' (insert_sql child_relname target_columns rows)) (\<lambda>_.
     cbind (update_partition_stats X (pt_oid relation) partition_value (length rows) route_ts) (\<lambda>_.
     creturn (affected + length rows)))))"

definition partition_insert_body ::
    "'p external \<Rightarrow> insert_source \<Rightarrow> string list \<Rightarrow> nat option \<Rightarrow> part_relation \<Rightarrow> string \<Rightarrow> ('p, nat) db" where
  "partition_insert_body X source target_columns idx relation sql =
     cbind (insert_journal X ''insert_partitioned_rows'' (pt_oid relation) sql) (\<lambda>journal_id.
     cbind (partition_insert_groups X source target_columns idx relation) (\<lambda>groups.
     cbind (cfold (insert_group X relation target_columns) groups 0) (\<lambda>affected.
     cbind (expire_old_partitions X relation) (\<lambda>_.
     cbind (refresh_partition_entrypoint X (pt_oid relation) (pt_schema relation) (pt_name relation)) (\<lambda>_.
     cbind (finish_journal X journal_id) (\<lambda>_.
     creturn affected))))))"

definition key_index :: "string list \<Rightarrow> string \<Rightarrow> nat option" where
  "key_index columns key = map_option fst (List.find (\<lambda>(_, column). eq_ignore_case column key) (enumerate 0 columns))"

definition insert_partitioned_relation :: "'p external \<Rightarrow> insert \<Rightarrow> string \<Rightarrow> ('p, nat) db" where
  "insert_partitioned_relation X ins sql = (case in_table ins of
     None \<Rightarrow> creturn 0
   | Some table_name \<Rightarrow>
       cbind (clift (relation_name table_name)) (\<lambda>(schema, table).
       cbind (clift (reject_reserved_schema schema)) (\<lambda>_.
       cbind (partitioned_relation X schema table) (\<lambda>found. case found of
         None \<Rightarrow> creturn 0
       | Some relation \<Rightarrow> (case in_source ins of
           None \<Rightarrow> cthrow (EPart InsertNoSource)
         | Some source \<Rightarrow>
             if list_ex (\<lambda>given. given) (in_options ins) then cthrow (EPart InsertForm)
             else
               cbind (clift (insert_target_columns ins relation)) (\<lambda>target_columns.
               run_catalog_tx X (partition_insert_body X source target_columns
                 (key_index target_columns (pt_key relation)) relation sql)))))))"

section \<open>CREATE\<close>

definition partition_units_ok :: "string list" where
  "partition_units_ok = [''hour'', ''day'', ''month'', ''year'']"

definition validate_partition_key :: "create_table \<Rightarrow> string \<Rightarrow> string \<Rightarrow> err + string \<times> int" where
  "validate_partition_key ct partition_key partition_unit =
     (if partition_unit \<notin> set partition_units_ok then Inl (EPart (BadKeyUnit partition_unit))
      else case List.find (\<lambda>column. eq_ignore_case (cd_name column) partition_key) (ct_columns ct) of
        None \<Rightarrow> Inl (EPart (KeyColumnMissing partition_key))
      | Some column \<Rightarrow>
          if \<not> list_ex (\<lambda>opt. co_option opt = NotNull) (cd_options column) then Inl (EPart KeyNullable)
          else
            let type_lower = to_lower (cd_type column) in
            rbind (if type_lower = ''date''
               then (if partition_unit = ''hour'' then Inl (EPart DateHourUnit) else Inr ''date'')
               else if starts_with ''timestamp'' type_lower \<or> type_lower = ''datetime'' then Inr ''timestamp''
               else Inl (EPart (KeyType (cd_type column)))) (\<lambda>key_type.
            rbind (type_id_for_duckdb_type (cd_type column)) (\<lambda>type_id. Inr (key_type, type_id))))"

definition create_partitioned_body ::
    "'p external \<Rightarrow> managed_partition_create \<Rightarrow> create_table \<Rightarrow> int \<Rightarrow> string \<Rightarrow> string \<Rightarrow> ('p, nat) db" where
  "create_partitioned_body X partitioned ct owner_user_id schema table =
     (let view_sql = empty_partition_entrypoint_sql_from_create_table schema table ct in
      cbind (relation_exists X schema table) (\<lambda>present.
      if present then (if ct_if_not_exists ct then creturn 0 else cthrow (EDdl (RelationExists schema table)))
      else
        cbind (clift (validate_create_table_column_types ct)) (\<lambda>_.
        cbind (clift (validate_partition_key ct (mp_partition_key partitioned) (mp_partition_unit partitioned)))
          (\<lambda>(partition_key_type, _).
        cbind (ensure_user_schema_exists X schema) (\<lambda>_.
        cbind (allocate_oid X) (\<lambda>parent_oid.
        cbind (allocate_oid X) (\<lambda>parent_type_oid.
        cbind (insert_journal X ''create_range_partitioned_table'' parent_oid (mp_base_sql partitioned)) (\<lambda>journal_id.
        cbind (cddl X ''execute DuckDB CREATE partition entrypoint failed'' view_sql) (\<lambda>_.
        cbind (load_duckdb_columns X schema table) (\<lambda>loaded.
        let columns = create_table_columns_with_metadata loaded ct in
        cbind (insert_relation_rows X parent_oid parent_type_oid schema table ''p'' ''range_partitioned_table'' ''user''
           view_sql columns owner_user_id) (\<lambda>_.
        cbind (insert_create_table_constraints X parent_oid schema table columns ct) (\<lambda>_.
        cbind (update_partition_relation_ext X parent_oid (mp_partition_key partitioned) partition_key_type
           (mp_partition_unit partitioned) (mp_retention_count partitioned) view_sql) (\<lambda>_.
        cbind (finish_journal X journal_id) (\<lambda>_.
        creturn 0))))))))))))))"

text \<open>\<^verbatim>\<open>parse_one_statement\<close> is the statement scanner's; a base text that is not one statement is its error.\<close>

definition create_range_partitioned_table :: "'p external \<Rightarrow> managed_partition_create \<Rightarrow> int \<Rightarrow> ('p, nat) db" where
  "create_range_partitioned_table X partitioned owner_user_id =
     cbind (clift (parse_one_statement (x_parser X) (mp_base_sql partitioned))) (\<lambda>(statement, _). case statement of
       Create (CreateTable ct) \<Rightarrow>
         if ct_query ct then cthrow (EPart PartitionTableAs)
         else if ct_temporary ct then cthrow (EPart PartitionTemporary)
         else
           cbind (clift (relation_name (ct_name ct))) (\<lambda>(schema, table).
           cbind (clift (reject_reserved_schema schema)) (\<lambda>_.
           run_catalog_tx X (create_partitioned_body X partitioned ct owner_user_id schema table)))
     | _ \<Rightarrow> cthrow (EPart BaseNotCreateTable))"

end
