(* ===== verification/Partition_Ops.thy ===== *)
theory Partition_Ops
  imports Partition_Ddl
begin

text \<open>
  What the operations on managed partitions keep: each is atomic, INSERT, maintenance and marking keep the checks of
  the next start passing, retention leaves the newest partitions, and a table partitioned by hour never gets a
  partition.
\<close>

section \<open>The invariant of managed tables\<close>

text \<open>\<open>parents c\<close>: the partitioned tables.\<close>

definition parents :: "catalog \<Rightarrow> int set" where
  "parents c = rel_oid ` {r \<in> set (relations c). rel_kind r = ''p''}"

text \<open>No vector index, no constraint that refers to another table, and no partition that is itself a partitioned
  table.\<close>

definition managed :: "catalog \<Rightarrow> bool" where
  "managed c \<longleftrightarrow> vectors c = [] \<and> no_foreign c \<and> (\<forall>p\<in>set (parts c). par_child p \<notin> parents c)"

definition parting :: "bool \<Rightarrow> (string \<Rightarrow> string) \<Rightarrow> int set \<Rightarrow> catalog \<Rightarrow> bool" where
  "parting b low P c \<longleftrightarrow> wf_catalog c \<and> (b \<longrightarrow> sane low c \<and> managed c \<and> P \<subseteq> parents c)"

lemma parents_in: "i \<in> parents c \<Longrightarrow> i \<in> rel_ids c"
  by (auto simp: parents_def rel_ids_def)

lemma parents_same [simp]:
  "parents (c\<lparr>versions := v\<rparr>) = parents c" "parents (c\<lparr>allocs := a\<rparr>) = parents c" "parents (c\<lparr>journal := j\<rparr>) = parents c"
  "parents (c\<lparr>types := x1\<rparr>) = parents c" "parents (c\<lparr>parts := x2\<rparr>) = parents c" "parents (c\<lparr>exts := x3\<rparr>) = parents c"
  "parents (c\<lparr>depends := x4\<rparr>) = parents c"
  by (simp_all add: parents_def)

lemma parents_bump [simp]: "parents (bump c) = parents c"
  by (simp add: bump_def)

lemma parents_update_version [simp]: "parents (update_version f c) = parents c"
  by (simp add: update_version_def)

lemma parents_journal [simp]: "parents (open_journal m t r c) = parents c" "parents (close_journal F j c) = parents c"
  by (simp_all add: open_journal_def close_journal_def seal_def)

lemma parents_update:
  assumes "\<And>r. rel_oid (f r) = rel_oid r \<and> rel_kind (f r) = rel_kind r"
  shows "parents (c\<lparr>relations := update_where Q f (relations c)\<rparr>) = parents c"
proof -
  have e: "parents c = fst ` {x \<in> set (map (\<lambda>r. (rel_oid r, rel_kind r)) (relations c)). snd x = ''p''}" for c
    by (force simp: parents_def)
  show ?thesis unfolding e using assms by (simp add: map_update_where)
qed

lemma managed_same [simp]:
  "managed (open_journal m t r c) = managed c" "managed (close_journal F j c) = managed c" "managed (c\<lparr>exts := x1\<rparr>) = managed c"
  "managed (c\<lparr>depends := x2\<rparr>) = managed c"
  by (simp_all add: managed_def) (simp_all add: no_foreign_def)

lemma managed_update:
  assumes "\<And>r. rel_oid (f r) = rel_oid r \<and> rel_kind (f r) = rel_kind r"
  shows "managed (c\<lparr>relations := update_where Q f (relations c)\<rparr>) = managed c"
  unfolding managed_def parents_update [OF assms] by (simp add: no_foreign_def)

lemma partingD: "parting b low P c \<Longrightarrow> wf_catalog c" "parting b low P c \<Longrightarrow> b \<Longrightarrow> sane low c"
  "parting b low P c \<Longrightarrow> b \<Longrightarrow> managed c" "parting b low P c \<Longrightarrow> b \<Longrightarrow> P \<subseteq> parents c"
  by (simp_all add: parting_def)

lemma parting_journal: "body_spec (parting b low P) (insert_journal X m t r) (\<lambda>_. parting b low P)"
  by (rule body_post [OF sp_insert_journal]) (auto simp: parting_def)

lemma parting_finish: "body_spec (parting b low P) (finish_journal X j) (\<lambda>_ c. parting b low P c \<and> good (x_fmt X) c)"
  by (rule body_post [OF sp_finish_journal]) (auto simp: parting_def good_close)

section \<open>Statements on single rows\<close>

lemma parting_exts:
  "(\<And>e. ext_relid (f e) = ext_relid e) \<Longrightarrow> body_spec (parting b low P) (cexec X w (\<lambda>c. Some (c\<lparr>exts := update_where Q f (exts c)\<rparr>)))
     (\<lambda>_. parting b low P)"
  by (rule body_exec) (auto simp: parting_def)

lemma parting_relations:
  assumes "\<And>r. rel_oid (f r) = rel_oid r \<and> rel_namespace (f r) = rel_namespace r \<and> rel_name (f r) = rel_name r
      \<and> rel_type (f r) = rel_type r \<and> rel_kind (f r) = rel_kind r \<and> (b \<longrightarrow> rel_status (f r) = ''active'' \<longrightarrow> rel_status r = ''active'')"
  shows "body_spec (parting b low P) (cexec X w (\<lambda>c. Some (c\<lparr>relations := update_where Q f (relations c)\<rparr>))) (\<lambda>_. parting b low P)"
proof (rule body_exec, drule sym, simp only: option.inject, hypsubst)
  fix c assume c: "parting b low P c"
  have f: "rel_oid (f r) = rel_oid r \<and> rel_kind (f r) = rel_kind r" for r using assms by blast
  have "wf_catalog (c\<lparr>relations := update_where Q f (relations c)\<rparr>)"
    using partingD(1) [OF c] f by (intro wf_update_relations) simp_all
  moreover have "sane low (c\<lparr>relations := update_where Q f (relations c)\<rparr>)" if b
    by (rule sane_update_relations [OF partingD(2) [OF c that]]) (use assms that in blast)
  ultimately show "parting b low P (c\<lparr>relations := update_where Q f (relations c)\<rparr>)"
    using c unfolding parting_def managed_update [OF f] parents_update [OF f] by simp
qed

lemma parting_parts:
  assumes "\<And>p. par_child (f p) = par_child p"
  shows "body_spec (parting b low P) (cexec X w (\<lambda>c. Some (c\<lparr>parts := update_where Q f (parts c)\<rparr>))) (\<lambda>_. parting b low P)"
proof -
  have e: "managed c \<longleftrightarrow> vectors c = [] \<and> no_foreign c \<and> par_child ` set (parts c) \<inter> parents c = {}" for c
    by (auto simp: managed_def)
  have "managed (c\<lparr>parts := update_where Q f (parts c)\<rparr>) = managed c" for c
    unfolding e using ids_update_where [of Q par_child f "parts c"] assms
    by (simp add: no_foreign_def del: set_update_where)
  then show ?thesis by (intro body_exec) (auto simp: parting_def)
qed

lemma parting_depends:
  "parting b low P c \<Longrightarrow> (b \<Longrightarrow> \<forall>d\<in>set ds. d \<in> set (depends c) \<or> dep_allowed c d) \<Longrightarrow> parting b low P (c\<lparr>depends := ds\<rparr>)"
  by (auto simp: parting_def intro: sane_deps)

section \<open>Constraints, vectors and partitions stay\<close>

definition rest :: "catalog \<Rightarrow> rs_constraint list \<times> rs_vector_index list \<times> rs_partition list" where
  "rest c = (constraints c, vectors c, parts c)"

definition frames :: "('p, 'a) db \<Rightarrow> bool" where
  "frames m \<longleftrightarrow> (\<forall>k. body_spec (\<lambda>d. rest d = k) m (\<lambda>_ d. rest d = k))"

lemma frames_bind: "frames m \<Longrightarrow> (\<And>v. frames (f v)) \<Longrightarrow> frames (cbind m f)"
  unfolding frames_def by (blast intro: body_bind)

lemma frames_foreach: "(\<And>x. frames (f x)) \<Longrightarrow> frames (cforeach f xs)"
  unfolding frames_def by (blast intro: body_foreach)

lemma frames_option: "frames m \<Longrightarrow> (\<And>x. frames (f x)) \<Longrightarrow> frames (case v of None \<Rightarrow> m | Some x \<Rightarrow> f x)"
  by (cases v) auto

lemma frames_if: "frames m \<Longrightarrow> frames n \<Longrightarrow> frames (if q then m else n)"
  by simp

lemma frames_read: "read_only m \<Longrightarrow> frames m"
  by (simp add: frames_def body_read_only)

lemma frames_exec: "(\<And>c d. g c = Some d \<Longrightarrow> rest d = rest c) \<Longrightarrow> frames (cexec X w g)"
  by (auto simp: frames_def intro!: body_exec)

lemma frames_allocate: "frames (allocate_oid X)"
  unfolding frames_def by (intro allI body_post [OF sp_allocate]) (auto simp: rest_def)

lemma frames_mapM: "(\<And>x. frames (f x)) \<Longrightarrow> frames (cmapM f xs)"
  by (induction xs) (auto intro!: frames_bind intro: frames_read ro_return)

lemmas frames_rules = frames_bind frames_foreach frames_option frames_if frames_allocate frames_mapM frames_exec

lemma frames_ddl: "frames (cddl X w sql)"
  by (simp add: frames_def sp_ddl)

lemma frames_load: "frames (load_duckdb_columns X s r)"
  unfolding load_duckdb_columns_def load_column_def ensure_type_id_for_duckdb_type_def lookup_physical_type_id_def
  by (intro frames_bind frames_mapM frames_option frames_if frames_allocate frames_exec; (rule frames_read, intro ro | auto simp: rest_def))

lemma frames_relation_rows: "frames (insert_relation_rows X i t s r k mk v g cs u)"
  unfolding insert_relation_rows_def insert_attribute_row_def
  by (intro frames_bind frames_foreach frames_option frames_allocate frames_exec; (rule frames_read, intro ro | auto simp: rest_def))

section \<open>Creating a partition\<close>

lemma work_begin:
  assumes w: "wf_catalog c0" and s: "b \<Longrightarrow> sane low c0"
  shows "body_spec (\<lambda>d. d = c0) (allocate_oid X) (\<lambda>i c. work b low (same i c0) (\<lambda>_. True) [i] c \<and> i \<notin> set (all_oids c0))"
proof (rule body_post [OF sp_allocate], elim exE conjE)
  fix i d c assume "c = c0" and n: "next_oid c = Some i" and d: "d = bump c"
  then have "unused i d" using unused_next [of c i] w by simp
  moreover have "i \<notin> set (all_oids c0)" using unused_next [of c i] n w \<open>c = c0\<close> by (simp add: unused_def)
  moreover have "same i c0 d" using \<open>c = c0\<close> by (simp add: same_def d)
  ultimately show "work b low (same i c0) (\<lambda>_. True) [i] d \<and> i \<notin> set (all_oids c0)"
    using w s \<open>c = c0\<close> by (auto simp: work_def pool_def d)
qed

lemma partition_create_ro [ro]:
  "read_only (physical_partition_create_from_catalog_sql X i s r cs)" "read_only (partitioned_relation X s r)"
  "read_only (active_partition_by_value X i v)" "read_only (partition_child_by_value X i v)"
  "read_only (partition_status_by_value X i v)" "read_only (partition_entrypoint_sql_from_catalog X i s r ch)"
  "read_only (retention_partitions X i)"
  unfolding physical_partition_create_from_catalog_sql_def physical_partition_constraints_from_catalog_def
    physical_constraint_def constraint_column_list_def partitioned_relation_def active_partition_by_value_def
    partition_child_by_value_def partition_status_by_value_def partition_entrypoint_sql_from_catalog_def
    retention_partitions_def Let_def
  by (intro ro)+

lemma partitioned_relations_ro [ro]: "read_only (partitioned_relations X)"
  unfolding partitioned_relations_def by (intro ro)

text \<open>After the rows of a new relation that is no partitioned table.\<close>

definition child_row :: "int \<Rightarrow> catalog \<Rightarrow> bool" where
  "child_row i c \<longleftrightarrow> i \<in> rel_ids c \<and> i \<notin> parents c"

lemma relation_added_parting:
  assumes p: "parting b low P c0" and new: "rid \<notin> parents c0"
    and w: "work b low (same rid (with_relation c0 r)) G S d" and e: "rest d = rest c0"
    and r: "rel_oid r = rid" "rel_kind r \<noteq> ''p''"
  shows "parting b low P d" "child_row rid d"
proof -
  have rels: "relations d = relations c0 @ [r]" using same_tables(2) [OF workD(4) [OF w]] by (simp add: with_relation_def)
  then have ps: "parents d = parents c0" using r(2) by (auto simp: parents_def)
  have "managed d" if b
    using partingD(3) [OF p that] e ps by (simp add: managed_def rest_def no_foreign_def)
  then show "parting b low P d"
    using workD(1,2) [OF w] p ps by (simp add: parting_def)
  show "child_row rid d" using rels r new ps by (auto simp: child_row_def rel_ids_def)
qed

lemma rel_in_oids: "i \<in> parents c \<Longrightarrow> i \<in> set (all_oids c)"
  by (auto simp: parents_def all_oids_def)

lemma child_row_rule:
  fixes K :: "int \<Rightarrow> ('p, 'a) db"
  assumes low: "low = x_lower X" and absent: "active_relation low c0 schema relation = None" and p: "parting b low P c0"
    and sql: "read_only sql" and kind: "kind \<noteq> ''p''"
    and K: "\<And>rid. body_spec (\<lambda>d. parting b low P d \<and> child_row rid d) (K rid) Q"
  shows "body_spec (\<lambda>d. d = c0) (cbind (allocate_oid X) (\<lambda>rid.
       cbind (allocate_oid X) (\<lambda>tid.
       cbind sql (\<lambda>text.
       cbind (cddl X w (text :: string)) (\<lambda>_.
       cbind (load_duckdb_columns X schema relation) (\<lambda>columns.
       cbind (insert_relation_rows X rid tid schema relation kind mk vis gsql columns owner) (\<lambda>_. K rid))))))) Q"
proof -
  define m where "m rid = cbind (allocate_oid X) (\<lambda>tid. cbind sql (\<lambda>text. cbind (cddl X w text) (\<lambda>_.
       cbind (load_duckdb_columns X schema relation) (\<lambda>columns.
       insert_relation_rows X rid tid schema relation kind mk vis gsql columns owner))))" for rid
  have fr: "frames (m rid)" for rid
    unfolding m_def by (intro frames_bind frames_allocate frames_read [OF sql] frames_ddl frames_load frames_relation_rows)
  have fk: "body_spec (\<lambda>d. rest d = k) (m rid) (\<lambda>_ d. rest d = k)" for rid k using fr unfolding frames_def by blast
  have wk: "body_spec (work b low (same rid c0) (\<lambda>_. True) [rid]) (m rid) (\<lambda>_ d. \<exists>r. rel_oid r = rid \<and> rel_kind r \<noteq> ''p''
      \<and> (\<exists>G. work b low (same rid (with_relation c0 r)) G [] d))" for rid
    unfolding m_def
  proof (rule body_bind [OF work_allocate [OF steady_same lasting_True]], rule body_bind [OF work_read [OF sql]],
        rule body_bind [OF work_ddl], rule body_bind [OF work_load_columns [OF steady_same lasting_True]],
        rule body_post [OF work_relation_rows [OF _ absent low]], goal_cases)
    case (1 tid q u columns)
    show ?case by (intro lasting)
  next
    case (2 tid q u columns c col)
    then show ?case by simp
  next
    case (3 tid q u columns v d)
    then show ?case
      by (elim exE conjE, intro exI conjI, erule_tac [3] asm_rl) (simp_all add: relation_row_def kind)
  qed
  have all: "body_spec (\<lambda>d. work b low (same rid c0) (\<lambda>_. True) [rid] d \<and> rest d = rest c0) (m rid)
      (\<lambda>_ d. parting b low P d \<and> child_row rid d)" if "rid \<notin> parents c0" for rid
  proof (rule body_conseq [OF body_conj])
    show "body_spec (\<lambda>d. work b low (same rid c0) (\<lambda>_. True) [rid] d \<and> rest d = rest c0) (m rid) (\<lambda>_ d. \<exists>r. rel_oid r = rid
        \<and> rel_kind r \<noteq> ''p'' \<and> (\<exists>G. work b low (same rid (with_relation c0 r)) G [] d))"
      by (rule body_conseq [OF wk]) auto
    show "body_spec (\<lambda>d. work b low (same rid c0) (\<lambda>_. True) [rid] d \<and> rest d = rest c0) (m rid) (\<lambda>_ d. rest d = rest c0)"
      by (rule body_conseq [OF fk]) auto
  next
    fix v c assume "(\<exists>r. rel_oid r = rid \<and> rel_kind r \<noteq> ''p'' \<and> (\<exists>G. work b low (same rid (with_relation c0 r)) G [] c)) \<and> rest c = rest c0"
    then obtain r G where "rel_oid r = rid" "rel_kind r \<noteq> ''p''" "work b low (same rid (with_relation c0 r)) G [] c" "rest c = rest c0"
      by (elim conjE exE)
    then show "parting b low P c \<and> child_row rid c" by (intro conjI relation_added_parting [OF p that])
  qed simp
  have "body_spec (\<lambda>d. rest d = rest c0) (allocate_oid X) (\<lambda>_ d. rest d = rest c0)"
    using frames_allocate unfolding frames_def by blast
  then have f0: "body_spec (\<lambda>d. d = c0) (allocate_oid X) (\<lambda>_ d. rest d = rest c0)" by (rule body_conseq) simp_all
  have start: "body_spec (\<lambda>d. d = c0) (allocate_oid X) (\<lambda>rid d. (work b low (same rid c0) (\<lambda>_. True) [rid] d \<and> rest d = rest c0)
      \<and> rid \<notin> parents c0)"
    by (rule body_conseq [OF body_conj [OF work_begin [of c0 b low X] f0]]) (use partingD [OF p] rel_in_oids in auto)
  have "body_spec (\<lambda>d. d = c0) (cbind (allocate_oid X) (\<lambda>rid. cbind (m rid) (\<lambda>_. K rid))) Q"
    by (rule body_bind [OF start], rule body_pure, rule body_bind [OF all K])
  then show ?thesis unfolding m_def cbind_assoc .
qed

lemma child_row_update:
  "(\<And>r. rel_oid (f r) = rel_oid r \<and> rel_kind (f r) = rel_kind r) \<Longrightarrow>
   child_row i (c\<lparr>relations := update_where Q f (relations c)\<rparr>) = child_row i c"
  unfolding child_row_def by (simp add: parents_update rel_ids_def ids_update_where del: set_update_where)

lemma child_row_same [simp]:
  "child_row i (c\<lparr>parts := x1\<rparr>) = child_row i c" "child_row i (c\<lparr>exts := x2\<rparr>) = child_row i c"
  "child_row i (c\<lparr>depends := x3\<rparr>) = child_row i c"
  by (simp_all add: child_row_def rel_ids_def)

lemma parting_mark:
  "body_spec (\<lambda>c. parting b low P c \<and> child_row i c) (mark_physical_partition X w j bounds) (\<lambda>_ c. parting b low P c \<and> child_row i c)"
  unfolding mark_physical_partition_def
  by (rule body_conj [OF body_conseq [OF parting_relations] body_exec]) (auto simp: child_row_update)

lemma parting_ext:
  "body_spec (\<lambda>c. parting b low P c \<and> child_row i c) (update_partition_relation_ext X j k kt u n g) (\<lambda>_ c. parting b low P c \<and> child_row i c)"
  unfolding update_partition_relation_ext_def
  by (rule body_conj [OF body_conseq [OF parting_exts] body_exec]) auto

lemma parting_add_partition:
  assumes "par_child p = i"
  shows "body_spec (\<lambda>c. parting b low P c \<and> child_row i c)
     (cexec X w (\<lambda>c. map_option (\<lambda>rows. c\<lparr>parts := rows\<rparr>) (insert_partition p (parts c)))) (\<lambda>_ c. parting b low P c \<and> child_row i c)"
proof (rule body_exec, elim conjE)
  fix c d assume c: "parting b low P c" "child_row i c"
    and "map_option (\<lambda>rows. c\<lparr>parts := rows\<rparr>) (insert_partition p (parts c)) = Some d"
  then have d: "d = c\<lparr>parts := parts c @ [p]\<rparr>" by (auto dest: partition_keys.ins_appends)
  have "managed d" if b
    using partingD(3) [OF c(1) that] c(2) assms by (auto simp: d managed_def child_row_def no_foreign_def)
  then show "parting b low P d \<and> child_row i d" using c by (simp add: parting_def d)
qed

lemma parting_dependency:
  assumes "j \<in> P"
  shows "body_spec (\<lambda>c. parting b low P c \<and> child_row i c)
     (write_dependency X w (OBJECT_RELATION_KIND, j, 0, OBJECT_RELATION_KIND, i, 0) t) (\<lambda>_ c. parting b low P c \<and> child_row i c)"
  unfolding write_dependency_def
proof (rule body_exec, elim conjE)
  fix c d assume c: "parting b low P c" "child_row i c"
    and "map_option (\<lambda>rows. c\<lparr>depends := rows\<rparr>) (insert_dependency
      (dependency_row (OBJECT_RELATION_KIND, j, 0, OBJECT_RELATION_KIND, i, 0) t) (depends c)) = Some d"
  then have d: "d = c\<lparr>depends := depends c @ [dependency_row (OBJECT_RELATION_KIND, j, 0, OBJECT_RELATION_KIND, i, 0) t]\<rparr>"
    by (auto dest: dependency_keys.ins_appends)
  have "dep_allowed c (dependency_row (OBJECT_RELATION_KIND, j, 0, OBJECT_RELATION_KIND, i, 0) t)" if b
    using partingD(4) [OF c(1) that] assms parents_in c(2) by (auto simp: dep_allowed_def dependency_row_def child_row_def)
  then show "parting b low P d \<and> child_row i d"
    using c unfolding d by (auto intro!: parting_depends)
qed

lemma parting_create:
  fixes X :: "'p external"
  assumes low: "low = x_lower X" and P: "pt_oid relation \<in> P"
  shows "body_spec (parting b low P) (create_range_partition X relation v) (\<lambda>_. parting b low P)"
proof -
  have tail: "body_spec (\<lambda>c. parting b low P c \<and> child_row i c)
     (cbind (mark_physical_partition X w1 i bounds) (\<lambda>_.
      cbind (update_partition_relation_ext X i (pt_key relation) (pt_key_type relation) (pt_unit relation) 0 []) (\<lambda>_.
      cbind (cexec X w2 (\<lambda>c. map_option (\<lambda>rows. c\<lparr>parts := rows\<rparr>)
          (insert_partition (partition_row (x_cal X) relation i bounds) (parts c)))) (\<lambda>_.
      cbind (write_dependency X w3 (OBJECT_RELATION_KIND, pt_oid relation, 0, OBJECT_RELATION_KIND, i, 0) ''n'') (\<lambda>_.
      cbind (create_partition_indexes X (pt_oid relation) n) (\<lambda>_.
      creturn n)))))) (\<lambda>_. parting b low P)" for i bounds w1 w2 w3 n
    by (rule body_bind [OF parting_mark], rule body_bind [OF parting_ext], rule body_bind [OF parting_add_partition],
        simp add: partition_row_def, rule body_bind [OF parting_dependency [OF P]],
        rule body_bind [OF physical_onlyD [OF partition_index_physical(2)]], rule body_return, simp)
  have ex: "body_spec (\<lambda>d. d = c0) (relation_exists X s r) (\<lambda>v d. d = c0 \<and> v = (relation_rows low c0 s r \<noteq> []))" for s r c0
    unfolding relation_exists_def low by (rule body_query) simp
  have K: "body_spec (\<lambda>d. d = c0) (cbind (relation_exists X ''rsduck_internal'' n) (\<lambda>present. if present then cthrow e else K)) (\<lambda>_. parting b low P)"
    if "active_relation low c0 ''rsduck_internal'' n = None \<Longrightarrow> body_spec (\<lambda>d. d = c0) K (\<lambda>_. parting b low P)"
    for c0 n e and K :: "('p, string) db"
    by (rule body_bind [OF ex], rule body_pure, rule body_if, rule body_throw, rule that, rule no_rows_not_active, simp)
  show ?thesis
    unfolding create_range_partition_def Let_def
    by (rule body_assume, rule body_bind [OF body_read_only [OF ro_lift]], rule K,
        rule child_row_rule [OF low _ _ partition_create_ro(1) _ tail]) simp_all
qed

lemma parting_ensure:
  fixes X :: "'p external"
  assumes "low = x_lower X" "pt_oid relation \<in> P"
  shows "body_spec (parting b low P) (ensure_active_partition X relation v) (\<lambda>_. parting b low P)"
  unfolding ensure_active_partition_def
  by (rule body_bind [OF body_read_only], intro ro, rule body_option, rule body_bind [OF body_read_only], intro ro,
      rule body_option, rule parting_create [OF assms], rule body_throw, rule body_return)

section \<open>Retention\<close>

definition expirable :: "bool \<Rightarrow> relation_meta set \<Rightarrow> catalog \<Rightarrow> bool" where
  "expirable b M c \<longleftrightarrow> (b \<longrightarrow> (\<forall>m\<in>M. typed m c \<and> rm_oid m \<notin> parents c))"

lemma joined_partitionD:
  assumes "(p, r, n) \<in> set (joined_partitions c Q)"
  shows "r \<in> set (relations c)" "rel_oid r = par_child p" "p \<in> set (parts c)" "Q p" "List.find (\<lambda>n. sch_oid n = rel_namespace r) (schemas c) = Some n"
proof -
  obtain q where q: "q \<in> set (parts c)" "Q q" "joined_partition c q = Some (p, r, n)"
    using assms by (auto simp: joined_partitions_def List.map_filter_def)
  then have "List.find (\<lambda>r. rel_oid r = par_child q) (relations c) = Some r" "p = q"
    and n: "schema_of_relation c r = Some n"
    by (auto simp: joined_partition_def relation_by_oid_def bind_eq_Some_conv)
  with q show "r \<in> set (relations c)" "rel_oid r = par_child p" "p \<in> set (parts c)" "Q p" by (auto dest: find_in)
  show "List.find (\<lambda>n. sch_oid n = rel_namespace r) (schemas c) = Some n" using n by (simp add: schema_of_relation_def)
qed

lemma parting_retention:
  "body_spec (parting b low P) (retention_partitions X i) (\<lambda>v c. parting b low P c \<and> expirable b (rt_meta ` set v) c)"
  unfolding retention_partitions_def
proof (rule body_query, intro conjI)
  fix c assume c: "parting b low P c"
  have "typed m c \<and> rm_oid m \<notin> parents c" if bb: b and mm: "m \<in> rt_meta ` set (retention_partitions_in c i)" for m
  proof -
    obtain p r n where m: "m = meta_of r" "(p, r, n) \<in> set (joined_partitions c (\<lambda>p. par_parent p = i \<and> par_status p = ''active'' \<and> \<not> par_is_null p))"
      using mm by (auto simp: retention_partitions_in_def)
    note j = joined_partitionD [OF m(2)]
    have "par_child p \<notin> parents c" using partingD(3) [OF c bb] j(3) by (simp add: managed_def)
    then show ?thesis using typed_row [OF partingD(2) [OF c bb] j(1)] j(2) by (simp add: m meta_of_def)
  qed
  then show "expirable b (rt_meta ` set (retention_partitions_in c i)) c" by (simp add: expirable_def)
qed

definition child_deleted :: "int \<Rightarrow> int \<Rightarrow> catalog \<Rightarrow> catalog" where
  "child_deleted i reltype c = (relation_deleted i reltype c)\<lparr>parts := parts c, vectors := vectors c\<rparr>"

lemma fold_child_deletes: "fold (\<lambda>g. g) (partition_child_deletes i t) c = child_deleted i t c"
  by (simp add: partition_child_deletes_def child_deleted_def relation_deleted_def)

lemma child_deleted_simps:
  "parts (child_deleted i t c) = parts c" "vectors (child_deleted i t c) = vectors c" "schemas (child_deleted i t c) = schemas c"
  "relations (child_deleted i t c) = filter (\<lambda>r. rel_oid r \<noteq> i) (relations c)"
  "types (child_deleted i t c) = filter (\<lambda>x. \<not> (ty_oid x = t \<or> ty_relid x = i)) (types c)"
  "constraints (child_deleted i t c) = filter (\<lambda>k. \<not> (con_relid k = i \<or> con_indid k = i)) (constraints c)"
  by (simp_all add: child_deleted_def relation_deleted_def)

lemma parents_deleted: "parents (child_deleted i t c) = parents c - {i}"
  by (auto simp: parents_def child_deleted_simps)

lemma parting_deleted:
  assumes p: "parting b low P c" and e: "expirable b M c" and m: "m \<in> M"
  shows "parting b low P (child_deleted (rm_oid m) (rm_reltype m) c) \<and> expirable b M (child_deleted (rm_oid m) (rm_reltype m) c)"
proof -
  let ?i = "rm_oid m" and ?t = "rm_reltype m"
  let ?d = "child_deleted ?i ?t c"
  have w: "wf_catalog ?d" using wf_deleted [OF partingD(1) [OF p]] by (simp add: child_deleted_def)
  have "sane low ?d \<and> managed ?d \<and> P \<subseteq> parents ?d \<and> (\<forall>m\<in>M. typed m ?d \<and> rm_oid m \<notin> parents ?d)" if b
  proof -
    have c: "sane low c" "vectors c = []" "no_foreign c" "\<forall>q\<in>set (parts c). par_child q \<notin> parents c" "P \<subseteq> parents c"
      using partingD [OF p] that by (simp_all add: managed_def)
    have ms: "typed m c" "?i \<notin> parents c" using e m that by (simp_all add: expirable_def)
    have ps: "parents ?d = parents c" unfolding parents_deleted using ms(2) by simp
    have d: "?d = (relation_deleted ?i ?t c)\<lparr>parts := parts c\<rparr>" using c(2) by (simp add: child_deleted_def relation_deleted_def)
    have "sane low ?d" unfolding d using sane_relation_deleted [OF c(1,3) ms(1)] by simp
    moreover have "managed ?d" unfolding managed_def ps using c by (simp add: child_deleted_simps no_foreign_def)
    moreover have "typed x ?d" if "typed x c" for x using that by (simp add: typed_def child_deleted_simps)
    ultimately show ?thesis using c(5) e that unfolding ps expirable_def by blast
  qed
  with w show ?thesis by (simp add: parting_def expirable_def)
qed

lemma parting_expire:
  assumes "rt_meta q \<in> M"
  shows "body_spec (\<lambda>c. parting b low P c \<and> expirable b M c) (expire_partition X i q) (\<lambda>_ c. parting b low P c \<and> expirable b M c)"
proof -
  have parts: "body_spec (\<lambda>c. parting b low P c \<and> expirable b M c) (cexec X w (\<lambda>c. Some (c\<lparr>parts := update_where Q f (parts c)\<rparr>)))
      (\<lambda>_ c. parting b low P c \<and> expirable b M c)" if "\<And>p. par_child (f p) = par_child p" for w Q f
    by (rule body_conj [OF body_conseq [OF parting_parts [OF that]] body_exec]) (auto simp: expirable_def typed_def)
  have del: "body_spec (\<lambda>c. parting b low P c \<and> expirable b M c) (delete_partition_child_catalog X (rt_meta q))
      (\<lambda>_ c. parting b low P c \<and> expirable b M c)"
    unfolding delete_partition_child_catalog_def
    by (rule body_assume, rule body_post [OF sp_deletes]) (use parting_deleted [OF _ _ assms] in \<open>auto simp: fold_child_deletes\<close>)
  show ?thesis
    unfolding expire_partition_def Let_def
    by (rule body_bind [OF parts], simp, rule body_bind [OF sp_ddl], rule body_bind [OF del], rule parts, simp)
qed

lemma parting_expire_old: "body_spec (parting b low P) (expire_old_partitions X relation) (\<lambda>_. parting b low P)"
proof -
  have loop: "body_spec (\<lambda>c. parting b low P c \<and> expirable b (rt_meta ` set all) c) (cforeach (expire_partition X i) (take n all))
      (\<lambda>_ c. parting b low P c \<and> expirable b (rt_meta ` set all) c)" for all i n
    by (rule body_foreach, rule parting_expire) (auto dest: in_set_takeD)
  show ?thesis
    unfolding expire_old_partitions_def Let_def
    by (rule body_if, rule body_return, assumption, rule body_bind [OF parting_retention], rule body_if, rule body_return, blast,
        rule body_bind [OF loop], rule body_return, blast)
qed

section \<open>The view\<close>

lemma parting_sync:
  assumes "i \<in> P"
  shows "body_spec (\<lambda>c. parting b low P c \<and> (\<forall>ch\<in>set children. ap_child_oid ch \<in> rel_ids c)) (sync_partition_dependencies X i children)
     (\<lambda>_. parting b low P)"
proof -
  let ?I = "\<lambda>c. parting b low P c \<and> (\<forall>ch\<in>set children. ap_child_oid ch \<in> rel_ids c)"
  have del: "body_spec ?I (cexec X w (\<lambda>c. Some (c\<lparr>depends := filter Q (depends c)\<rparr>))) (\<lambda>_. ?I)" for w Q
    by (rule body_exec) (auto intro!: parting_depends simp: rel_ids_def)
  have ins: "body_spec ?I (write_dependency X w (OBJECT_RELATION_KIND, i, 0, OBJECT_RELATION_KIND, ap_child_oid ch, 0) t) (\<lambda>_. ?I)"
    if ch: "ch \<in> set children" for ch w t
    unfolding write_dependency_def
  proof (rule body_exec, elim conjE)
    let ?d = "dependency_row (OBJECT_RELATION_KIND, i, 0, OBJECT_RELATION_KIND, ap_child_oid ch, 0) t"
    fix c d assume c: "parting b low P c" "\<forall>ch\<in>set children. ap_child_oid ch \<in> rel_ids c"
      and "map_option (\<lambda>rows. c\<lparr>depends := rows\<rparr>) (insert_dependency ?d (depends c)) = Some d"
    then have d: "d = c\<lparr>depends := depends c @ [?d]\<rparr>" by (auto dest: dependency_keys.ins_appends)
    have "dep_allowed c ?d" if b
      using partingD(4) [OF c(1) that] assms parents_in c(2) ch by (auto simp: dep_allowed_def dependency_row_def)
    then show "?I d" using c unfolding d by (auto intro!: parting_depends simp: rel_ids_def)
  qed
  show ?thesis
    unfolding sync_partition_dependencies_def
    by (rule body_post [OF body_bind [OF del body_foreach [OF ins]]]) simp_all
qed

lemma parting_refresh:
  assumes "i \<in> P"
  shows "body_spec (parting b low P) (refresh_partition_entrypoint X i s r) (\<lambda>_. parting b low P)"
proof -
  let ?I = "\<lambda>children c. parting b low P c \<and> (\<forall>ch\<in>set (children :: active_partition_child list). ap_child_oid ch \<in> rel_ids c)"
  have read: "body_spec (parting b low P) (active_partition_children X i) ?I"
    unfolding active_partition_children_def
  proof (rule body_query, intro conjI ballI)
    fix c ch assume "ch \<in> set (map active_child (by_partition_order (joined_partitions c (\<lambda>p. par_parent p = i \<and> par_status p = ''active''))))"
    then obtain p r n where "(p, r, n) \<in> set (joined_partitions c (\<lambda>p. par_parent p = i \<and> par_status p = ''active''))"
      and ch: "ch = active_child (p, r, n)" by (auto simp: by_partition_order_def)
    then have r: "r \<in> set (relations c)" "rel_oid r = par_child p" by (auto dest: joined_partitionD)
    then have "rel_oid r \<in> rel_ids c" unfolding rel_ids_def by (intro imageI)
    then show "ap_child_oid ch \<in> rel_ids c" by (simp add: ch active_child_def r)
  qed
  have build: "body_spec (?I children) (rebuild_partition_entrypoint X i sql) (\<lambda>_. ?I children)" for children sql
    unfolding rebuild_partition_entrypoint_def
    by (rule body_bind [OF sp_ddl], rule body_conj [OF body_conseq [OF parting_exts] body_exec]) (auto simp: rel_ids_def)
  show ?thesis
    unfolding refresh_partition_entrypoint_def
    by (rule body_bind [OF read], rule body_bind [OF body_read_only], intro ro, rule body_bind [OF build], rule parting_sync [OF assms])
qed

section \<open>Operations that read before their transaction\<close>

text \<open>\<open>keeping_when R P m\<close>: as \<open>keeping\<close>, where \<open>R\<close> holds of the catalog the
  connection sees.\<close>

definition keeping_when :: "(catalog \<Rightarrow> bool) \<Rightarrow> (catalog \<Rightarrow> bool) \<Rightarrow> ('p, 'a) db \<Rightarrow> bool" where
  "keeping_when R P m \<longleftrightarrow> (\<forall>s. R (cat s) \<longrightarrow> P (catalog_of s) \<longrightarrow> P (catalog_of (snd (m s))))"

lemma keeping_when_keeping: "keeping P m \<Longrightarrow> keeping_when R P m"
  by (simp add: keeping_def keeping_when_def)

lemma keeping_when_tx:
  fixes f :: "('p, 'a) db"
  assumes "body_spec (\<lambda>c. P c \<and> R c) f (\<lambda>_. P)"
  shows "keeping_when R P (run_catalog_tx X f)"
  unfolding keeping_when_def
proof (intro allI impI)
  fix s :: "'p conn" assume r: "R (cat s)" and p: "P (catalog_of s)"
  obtain v s' where run: "run_catalog_tx X f s = (v, s')" by (cases "run_catalog_tx X f s")
  show "P (catalog_of (snd (run_catalog_tx X f s)))"
  proof (cases "saved s")
    case None
    then have "P (cat s) \<and> R (cat s)" using r p by (simp add: closed_catalog)
    from tx_result [OF assms this run] p show ?thesis
      by (cases v) (auto simp: run catalog_of_def committed_def)
  next
    case (Some x)
    then have "committed s' = committed s" using run
      by (auto simp: run_catalog_tx_def cbind_def tx_begin_def stmt_def split: if_splits)
    then show ?thesis using p by (simp add: run catalog_of_def)
  qed
qed

lemma keeping_when_read:
  fixes m :: "('p, 'a) db"
  assumes "read_only m" "body_spec (\<lambda>_. True) m R" "\<And>v. keeping_when (R v) P (f v)"
  shows "keeping P (cbind m f)"
  unfolding keeping_def
proof (intro allI impI)
  fix s :: "'p conn" assume p: "P (catalog_of s)"
  obtain rm s1 where m: "m s = (rm, s1)" by (cases "m s")
  have "catalog_of s1 = catalog_of s" using committed_read [OF assms(1) m] by (simp add: catalog_of_def)
  moreover have "\<And>v. rm = Inr v \<Longrightarrow> R v (cat s1)" using body_specD [OF assms(2) _ m] by simp
  ultimately show "P (catalog_of (snd (cbind m f s)))"
    using p m assms(3) by (cases rm) (auto simp: cbind_def keeping_when_def)
qed

section \<open>The operations\<close>

definition managing :: "bool \<Rightarrow> 'p external \<Rightarrow> catalog \<Rightarrow> bool" where
  "managing b X c \<longleftrightarrow> good (x_fmt X) c \<and> (b \<longrightarrow> sane (x_lower X) c \<and> managed c)"

lemma managing_parting: "managing b X c \<Longrightarrow> (b \<Longrightarrow> P \<subseteq> parents c) \<Longrightarrow> parting b (x_lower X) P c"
  by (simp add: managing_def parting_def good_def)

lemma managing_finish:
  "body_spec (parting b (x_lower X) P) (cbind (finish_journal X j) (\<lambda>_. creturn v)) (\<lambda>_. managing b X)"
  by (rule body_bind [OF parting_finish], rule body_return) (auto simp: managing_def parting_def)

definition found_parent :: "part_relation option \<Rightarrow> catalog \<Rightarrow> bool" where
  "found_parent v c \<longleftrightarrow> (\<forall>r. v = Some r \<longrightarrow> pt_oid r \<in> parents c)"

lemma sp_partitioned_relation: "body_spec A (partitioned_relation X s t) (\<lambda>v c. A c \<and> found_parent v c)"
proof -
  have found: "body_spec A (find_relation_meta X s t) (\<lambda>v c. A c \<and> (\<forall>m. v = Some m \<longrightarrow> rm_relkind m = ''p'' \<longrightarrow> rm_oid m \<in> parents c))"
    by (rule body_post [OF sp_find_relation_meta])
      (auto simp: Some_eq_map_option meta_of_def parents_def dest!: active_relation_row)
  show ?thesis
    unfolding partitioned_relation_def catalog_columns_def
    by (rule body_bind [OF found], rule body_option, rule body_return, simp add: found_parent_def, rule body_if, rule body_return,
        simp add: found_parent_def, rule body_bind [OF body_read_only], intro ro, (rule body_prod)+, rule body_bind [OF body_read_only],
        intro ro, rule body_return) (auto simp: found_parent_def)
qed

lemma sp_partitioned_relations:
  "body_spec (parting b low P) (partitioned_relations X) (\<lambda>v. parting b low (P \<union> pt_oid ` set v))"
proof (rule body_assume)
  fix c0 assume c0: "parting b low P c0"
  have one: "body_spec (\<lambda>d. d = c0) (case x of (s, t) \<Rightarrow> partitioned_relation X s t) (\<lambda>v c. c = c0 \<and> found_parent v c0)" for x
    by (rule body_prod, rule body_post [OF sp_partitioned_relation]) auto
  show "body_spec (\<lambda>d. d = c0) (partitioned_relations X) (\<lambda>v. parting b low (P \<union> pt_oid ` set v))"
    unfolding partitioned_relations_def
    by (rule body_bind [OF body_read_only], intro ro, rule body_bind [OF body_mapM [OF one]], rule body_return)
      (use c0 in \<open>auto simp: parting_def found_parent_def List.map_filter_def\<close>)
qed

lemma parting_stats: "body_spec (parting b low P) (update_partition_stats X i v n ts) (\<lambda>_. parting b low P)"
  unfolding update_partition_stats_def by (rule parting_parts) (auto split: option.splits)

lemma stmt_read_only: "(\<And>s v s'. f s = Some (v, s') \<Longrightarrow> s' = s) \<Longrightarrow> read_only (stmt X w f)"
  by (auto simp: read_only_def stmt_def split: option.splits prod.splits) (metis tick_simps)+

lemma insert_groups_ro [ro]: "read_only (partition_insert_groups X src cs idx relation)"
proof -
  have "read_only (stmt X w (\<lambda>s. map_option (\<lambda>v. (v, s)) (h (cat s) (phys s))))" for w and h :: "catalog \<Rightarrow> 'a \<Rightarrow> (nat \<times> value_ref list list) option"
    by (rule stmt_read_only) auto
  then show ?thesis unfolding partition_insert_groups_def by (intro ro)
qed

lemma insert_body_keeps:
  "body_spec (\<lambda>c. managing b X c \<and> (b \<longrightarrow> pt_oid relation \<in> parents c)) (partition_insert_body X src cs idx relation sql) (\<lambda>_. managing b X)"
proof -
  let ?I = "parting b (x_lower X) {pt_oid relation}"
  have group: "body_spec ?I (insert_group X relation cs g n) (\<lambda>_. ?I)" for g n
    unfolding insert_group_def
    by ((rule body_prod)+, rule body_bind [OF parting_ensure], simp_all add: body_bind [OF sp_ddl] body_bind [OF parting_stats] body_return)
  show ?thesis
    unfolding partition_insert_body_def
    by (rule body_conseq [where A' = ?I], rule body_bind [OF parting_journal], rule body_bind [OF body_read_only], intro ro,
        rule body_bind [OF body_fold [where I = "\<lambda>_. ?I"]], rule group, rule body_bind [OF parting_expire_old],
        rule body_bind [OF parting_refresh], simp, rule managing_finish) (auto intro: managing_parting)
qed

lemma maintenance_body_keeps: "body_spec (managing b X) (partition_maintenance_body X sql) (\<lambda>_. managing b X)"
proof -
  let ?I = "\<lambda>v. parting b (x_lower X) ({} \<union> pt_oid ` set v)"
  have one: "body_spec (?I v) (maintain_relation X relation n) (\<lambda>_. ?I v)" if "relation \<in> set v" for v relation n
    unfolding maintain_relation_def
    by (rule body_bind [OF parting_expire_old], rule body_bind [OF parting_refresh]) (use that in \<open>auto intro: body_return\<close>)
  show ?thesis
    unfolding partition_maintenance_body_def
    by (rule body_conseq [where A' = "parting b (x_lower X) {}"], rule body_bind [OF parting_journal],
        rule body_bind [OF sp_partitioned_relations], rule body_bind [OF body_fold [where I = "\<lambda>_. ?I _"]], rule one, assumption,
        rule managing_finish) (auto intro: managing_parting)
qed

lemma mark_body_keeps:
  "body_spec (\<lambda>c. managing b X c \<and> (b \<longrightarrow> pt_oid relation \<in> parents c)) (mark_partition_body X relation s t v reason sql) (\<lambda>_. managing b X)"
proof -
  let ?I = "parting b (x_lower X) {pt_oid relation}"
  have failed: "body_spec ?I (mark_partition_failed X w i j r) (\<lambda>_. ?I)" for w i j r
    unfolding mark_partition_failed_def by (rule parting_parts) simp
  have unavailable: "body_spec ?I (mark_relation_unavailable X i r) (\<lambda>_. ?I)" for i r
    unfolding mark_relation_unavailable_def by (rule parting_relations) simp
  show ?thesis
    unfolding mark_partition_body_def
    by (rule body_conseq [where A' = ?I], rule body_bind [OF body_read_only], intro ro, rule body_option, rule body_throw,
        rule body_bind [OF parting_journal], rule body_bind [OF failed], rule body_bind [OF unavailable],
        rule body_bind [OF parting_refresh], simp, rule managing_finish) (auto intro: managing_parting)
qed

lemma managing_False [simp]: "managing False X = good (x_fmt X)"
  by (rule ext) (simp add: managing_def)

lemma keeping_when_lift: "(\<And>v. r = Inr v \<Longrightarrow> keeping_when R P (f v)) \<Longrightarrow> keeping_when R P (cbind (clift r) f)"
  by (cases r) (auto simp: keeping_when_def cbind_def clift_def)

locale managed_operation = catalog_operation X run
  for X :: "'p external" and run :: "('p, 'a) db" +
  assumes keeps_managing: "managing True X (catalog_of s) \<Longrightarrow> managing True X (catalog_of (snd (run s)))"
begin

text \<open>Any number of runs later the checks of the start pass.\<close>

lemma repeat_managing: "managing True X (catalog_of s) \<Longrightarrow> managing True X (catalog_of (((\<lambda>t. snd (run t)) ^^ n) s))"
  by (induction n) (auto intro: keeps_managing)

lemma checks_pass_after:
  "reliable X \<Longrightarrow> managing True X (catalog_of s) \<Longrightarrow> cat t = catalog_of (((\<lambda>t. snd (run t)) ^^ n) s) \<Longrightarrow>
   fst (validate_catalog_integrity X t) = Inr ()"
  using repeat_managing [of s n] by (intro validate_complete) (simp_all add: managing_def sane_def)

end

lemma managed_operationI: "atomic X m \<Longrightarrow> keeping (managing True X) m \<Longrightarrow> managed_operation X m"
  by unfold_locales (auto dest: atomicD simp: keeping_def)

lemma found_parent_simps [simp]:
  "found_parent (Some r) = (\<lambda>c. pt_oid r \<in> parents c)" "found_parent None = (\<lambda>c. True)"
  by (simp_all add: found_parent_def fun_eq_iff)

lemma insert_keeping: "keeping (managing b X) (insert_partitioned_relation X ins sql)"
proof -
  have tx: "keeping_when (\<lambda>c. pt_oid relation \<in> parents c) (managing b X) (run_catalog_tx X (partition_insert_body X src cs idx relation sql))"
    for src cs idx relation
    by (rule keeping_when_tx, rule body_conseq [OF insert_body_keeps]) simp_all
  have some: "keeping_when (found_parent found) (managing b X) (case found of
         None \<Rightarrow> creturn 0
       | Some relation \<Rightarrow> (case in_source ins of
           None \<Rightarrow> cthrow (EPart InsertNoSource)
         | Some source \<Rightarrow>
             if list_ex (\<lambda>given. given) (in_options ins) then cthrow (EPart InsertForm)
             else
               cbind (clift (insert_target_columns ins relation)) (\<lambda>target_columns.
               run_catalog_tx X (partition_insert_body X source target_columns
                 (key_index target_columns (pt_key relation)) relation sql))))" for found
  proof (cases found)
    case None
    then show ?thesis by (simp add: keeping_when_keeping keeping_basic)
  next
    case (Some relation)
    then show ?thesis
      by (cases "in_source ins")
        (auto simp: keeping_when_keeping keeping_basic intro!: keeping_when_lift tx)
  qed
  show ?thesis
    unfolding insert_partitioned_relation_def
    by (rule keeping_option, rule keeping_basic, rule keeping_read_bind [OF ro_lift], rule keeping_prod,
        rule keeping_read_bind [OF ro_lift], rule keeping_when_read [OF partition_create_ro(2), where R = found_parent])
      (auto intro: body_conseq [OF sp_partitioned_relation] some)
qed

lemma insert_atomic: "atomic X (insert_partitioned_relation X ins sql)"
proof -
  have body: "body_spec (good (x_fmt X)) (partition_insert_body X src cs idx relation sql) (\<lambda>_. good (x_fmt X))" for src cs idx relation
    using insert_body_keeps [of False] by simp
  show ?thesis unfolding insert_partitioned_relation_def by (intro atomic_rules atomic_read_bind ro body)
qed

interpretation insert_op: managed_operation X "insert_partitioned_relation X ins sql" for X ins sql
  by (rule managed_operationI [OF insert_atomic insert_keeping])

lemma maintenance_keeping: "keeping (managing b X) (run_partition_maintenance X sql)"
  unfolding run_partition_maintenance_def by (rule keeping_tx, rule maintenance_body_keeps)

lemma maintenance_atomic: "atomic X (run_partition_maintenance X sql)"
  unfolding run_partition_maintenance_def using maintenance_body_keeps [of False] by (intro atomic_tx) simp

interpretation maintenance_op: managed_operation X "run_partition_maintenance X sql" for X sql
  by (rule managed_operationI [OF maintenance_atomic maintenance_keeping])

lemma mark_keeping: "keeping (managing b X) (mark_partition_unavailable X schema table v reason sql)"
proof -
  have tx: "keeping_when (\<lambda>c. pt_oid relation \<in> parents c) (managing b X)
      (run_catalog_tx X (mark_partition_body X relation schema table v reason sql))" for relation
    by (rule keeping_when_tx, rule body_conseq [OF mark_body_keeps]) simp_all
  have some: "keeping_when (found_parent found) (managing b X) (case found of
       None \<Rightarrow> cthrow (EPart (PartitionedMissing schema table))
     | Some relation \<Rightarrow> run_catalog_tx X (mark_partition_body X relation schema table v reason sql))" for found
    using tx by (cases found) (auto simp: keeping_when_keeping keeping_basic)
  show ?thesis
    unfolding mark_partition_unavailable_def
    by (rule keeping_when_read [OF partition_create_ro(2), where R = found_parent])
      (auto intro: body_conseq [OF sp_partitioned_relation] some)
qed

lemma mark_atomic: "atomic X (mark_partition_unavailable X schema table v reason sql)"
proof -
  have body: "body_spec (good (x_fmt X)) (mark_partition_body X relation schema table v reason sql) (\<lambda>_. good (x_fmt X))" for relation
    using mark_body_keeps [of False] by simp
  show ?thesis unfolding mark_partition_unavailable_def by (intro atomic_rules atomic_read_bind ro body)
qed

interpretation mark_op: managed_operation X "mark_partition_unavailable X schema table v reason sql" for X schema table v reason sql
  by (rule managed_operationI [OF mark_atomic mark_keeping])

section \<open>CREATE\<close>

lemma create_partitioned_spec:
  assumes f: "fine b X c0"
  shows "body_spec (\<lambda>d. d = c0) (create_partitioned_body X mp ct owner schema table)
     (\<lambda>n d. n = 0 \<and> fine b X d \<and> (ct_if_not_exists ct \<and> d = c0 \<and> relation_rows (x_lower X) c0 schema table \<noteq> []
        \<or> relation_added (x_lower X) schema table ''p'' owner c0 d))"
proof -
  have ex: "body_spec (\<lambda>d. d = c0) (relation_exists X schema table)
      (\<lambda>v d. d = c0 \<and> v = (relation_rows (x_lower X) c0 schema table \<noteq> []))"
    unfolding relation_exists_def by (rule body_query) simp
  have ext: "body_spec (work b low F G S) (update_partition_relation_ext X rid k kt u n g) (\<lambda>_. work b low F G S)"
    if "steady rid F" "lasting G" for low F G S rid k kt u n g
    unfolding update_partition_relation_ext_def
    by (rule work_change) (use that in \<open>auto simp: work_def all_oids_def core_def filter_update_where elim!: steadyD [OF that(1), rotated]\<close>)
  show ?thesis
    unfolding create_partitioned_body_def Let_def
  proof (rule body_bind [OF ex], rule body_pure, rule body_if, goal_cases)
    case (1 present)
    then show ?case using f by (auto intro!: body_rules)
  next
    case (2 present)
    then have absent: "active_relation (x_lower X) c0 schema table = None" by (intro no_rows_not_active) simp
    let ?view = "empty_partition_entrypoint_sql_from_create_table schema table ct"
    let ?extra = "\<lambda>k rid cs. cbind (insert_create_table_constraints X rid schema table cs ct) (\<lambda>_.
      update_partition_relation_ext X rid (mp_partition_key mp) k (mp_partition_unit mp) (mp_retention_count mp) ?view)"
    note create = sp_create_relation [OF f absent, where extra = "?extra k" and kind = "''p''" and v = 0 for k, unfolded cbind_assoc]
    show ?case
      by (rule body_bind [OF body_read_only [OF ro_lift]], rule body_bind [OF body_read_only [OF ro_lift]], rule body_prod,
          rule body_bind [OF body_read_only [OF lookup_ro(2)]], rule body_post [OF create])
        (auto simp: create_table_columns_with_metadata_def image_iff intro!: body_bind [OF work_table_constraints ext])
  qed
qed

lemma create_partitioned_careful: "body_spec (fine b X) (create_partitioned_body X mp ct owner schema table) (\<lambda>_. fine b X)"
  by (rule fine_body [OF create_partitioned_spec]) auto

lemma create_partitioned_operation:
  "atomic X (create_range_partitioned_table X mp owner)" "keeping (fine True X) (create_range_partitioned_table X mp owner)"
proof -
  note tx = careful_tx [OF create_partitioned_careful]
  have statement: "atomic X (case st of Create (CreateTable ct) \<Rightarrow> f ct | _ \<Rightarrow> cthrow e)"
    if "\<And>ct. atomic X (f ct)" for st e and f :: "create_table \<Rightarrow> ('a, nat) db"
    using that by (auto intro: atomic_throw split: statement.split create_stmt.split)
  have statement': "keeping Q (case st of Create (CreateTable ct) \<Rightarrow> f ct | _ \<Rightarrow> cthrow e)"
    if "\<And>ct. keeping Q (f ct)" for st e Q and f :: "create_table \<Rightarrow> ('a, nat) db"
    using that by (auto intro: keeping_basic split: statement.split create_stmt.split)
  show "atomic X (create_range_partitioned_table X mp owner)"
    unfolding create_range_partitioned_table_def
    by (intro atomic_read_bind ro atomic_rules statement tx)
  show "keeping (fine True X) (create_range_partitioned_table X mp owner)"
    unfolding create_range_partitioned_table_def
    by (intro keeping_read_bind ro keeping_if keeping_prod keeping_basic statement' tx)
qed

interpretation create_partitioned_op: relation_operation X "create_range_partitioned_table X mp owner" for X mp owner
  by (rule relation_operationI [OF create_partitioned_operation])

section \<open>What retention leaves\<close>

lemma map_filter_filter: "List.map_filter f (filter Q xs) = List.map_filter (\<lambda>x. if Q x then f x else None) xs"
  by (induction xs) (simp_all add: List.map_filter_simps split: option.splits)

lemma filter_map_filter: "filter R (List.map_filter f xs) = List.map_filter (\<lambda>x. Option.bind (f x) (\<lambda>y. if R y then Some y else None)) xs"
  by (induction xs) (auto simp: List.map_filter_simps split: option.splits)

lemma map_filter_map: "List.map_filter f (map h xs) = List.map_filter (\<lambda>x. f (h x)) xs"
  by (induction xs) (simp_all add: List.map_filter_simps split: option.splits)

lemma find_filter_other: "(\<And>x. P x \<Longrightarrow> Q x) \<Longrightarrow> List.find P (filter Q xs) = List.find P xs"
  by (induction xs) auto

definition child_gone :: "int \<Rightarrow> catalog \<Rightarrow> catalog \<Rightarrow> bool" where
  "child_gone i c d \<longleftrightarrow> relations d = filter (\<lambda>r. rel_oid r \<noteq> i) (relations c) \<and> schemas d = schemas c
     \<and> (\<exists>h. parts d = map h (parts c) \<and> (\<forall>p. par_child (h p) = par_child p \<and> (par_child p \<noteq> i \<longrightarrow> h p = p)))"

lemma joined_child_gone:
  assumes "child_gone i c d"
  shows "joined_partitions d Q = filter (\<lambda>(p, r, n). rel_oid r \<noteq> i) (joined_partitions c Q)"
proof -
  obtain h where h: "parts d = map h (parts c)" "\<And>p. par_child (h p) = par_child p" "\<And>p. par_child p \<noteq> i \<Longrightarrow> h p = p"
    using assms by (auto simp: child_gone_def)
  have rel: "relation_by_oid d j = (if j = i then None else relation_by_oid c j)" for j
    using assms find_filter_other [of "\<lambda>r. rel_oid r = j" "\<lambda>r. rel_oid r \<noteq> i" "relations c"]
    by (auto simp: child_gone_def relation_by_oid_def find_None_iff)
  have sch: "schema_of_relation d r = schema_of_relation c r" for r
    using assms by (simp add: child_gone_def schema_of_relation_def)
  have one: "(if Q (h p) then joined_partition d (h p) else None) =
     Option.bind (if Q p then joined_partition c p else None) (\<lambda>x. if (case x of (p, r, n) \<Rightarrow> rel_oid r \<noteq> i) then Some x else None)" for p
  proof (cases "par_child p = i")
    case True
    have "rel_oid r = i" if "relation_by_oid c i = Some r" for r using that by (auto simp: relation_by_oid_def dest: find_in)
    then show ?thesis using True h(2) [of p] rel
      by (cases "relation_by_oid c i"; cases "schema_of_relation c (the (relation_by_oid c i))") (auto simp: joined_partition_def)
  next
    case False
    have "rel_oid r \<noteq> i" if "relation_by_oid c (par_child p) = Some r" for r
      using that False by (auto simp: relation_by_oid_def dest: find_in)
    then show ?thesis using False h(3) [OF False] rel sch
      by (cases "relation_by_oid c (par_child p)"; cases "schema_of_relation c (the (relation_by_oid c (par_child p)))")
        (auto simp: joined_partition_def)
  qed
  show ?thesis unfolding joined_partitions_def map_filter_filter filter_map_filter h(1) map_filter_map one ..
qed

abbreviation rt_oid :: "retention_partition \<Rightarrow> int" where
  "rt_oid q \<equiv> rm_oid (rt_meta q)"

lemma retention_child_gone:
  assumes "child_gone i c d"
  shows "retention_partitions_in d par = filter (\<lambda>q. rt_oid q \<noteq> i) (retention_partitions_in c par)"
  unfolding retention_partitions_in_def joined_child_gone [OF assms] filter_sort [symmetric] filter_map comp_def
  by (intro arg_cong [of _ _ "map _"] filter_cong refl) (auto simp: meta_of_def)

lemma sp_expire: "body_spec (\<lambda>d. d = c) (expire_partition X par q) (\<lambda>_ d. child_gone (rt_oid q) c d)"
proof -
  let ?f1 = "\<lambda>c. c\<lparr>parts := update_where (\<lambda>p. par_parent p = par \<and> par_child p = rt_oid q \<and> \<not> par_is_null p \<and> par_status p = ''active'')
         (\<lambda>p. p\<lparr>par_status := ''expiring''\<rparr>) (parts c)\<rparr>"
  let ?f2 = "\<lambda>c. child_deleted (rt_oid q) (rm_reltype (rt_meta q)) c"
  have gone: "child_gone (rt_oid q) c (?f2 (?f1 c)\<lparr>parts := update_where (\<lambda>p. par_parent p = par \<and> par_child p = rt_oid q \<and> par_value p = rt_value q)
         (\<lambda>p. p\<lparr>par_status := ''dropped'', par_error := []\<rparr>) (parts (?f2 (?f1 c)))\<rparr>)"
    unfolding child_gone_def
    by (intro conjI exI [of _ "\<lambda>p. let p' = (if par_parent p = par \<and> par_child p = rt_oid q \<and> \<not> par_is_null p \<and> par_status p = ''active''
          then p\<lparr>par_status := ''expiring''\<rparr> else p)
        in if par_parent p' = par \<and> par_child p' = rt_oid q \<and> par_value p' = rt_value q
          then p'\<lparr>par_status := ''dropped'', par_error := []\<rparr> else p'"])
      (auto simp: child_deleted_simps update_where_def Let_def)
  show ?thesis
    unfolding expire_partition_def Let_def delete_partition_child_catalog_def
    by (rule body_bind [OF body_exec [where Q = "\<lambda>_ d. d = ?f1 c"]], simp, rule body_bind [OF sp_ddl],
        rule body_bind [OF sp_deletes], rule body_exec) (use gone in \<open>auto simp: fold_child_deletes\<close>)
qed

lemma sp_expire_all:
  "body_spec (\<lambda>d. retention_partitions_in d par = L) (cforeach (expire_partition X par) qs)
     (\<lambda>_ d. retention_partitions_in d par = filter (\<lambda>x. rt_oid x \<notin> rt_oid ` set qs) L)"
proof (induction qs arbitrary: L)
  case (Cons q qs)
  have one: "body_spec (\<lambda>d. retention_partitions_in d par = L) (expire_partition X par q)
      (\<lambda>_ d. retention_partitions_in d par = filter (\<lambda>x. rt_oid x \<noteq> rt_oid q) L)"
    by (rule body_assume, rule body_post [OF sp_expire]) (auto simp: retention_child_gone)
  have "filter (\<lambda>x. rt_oid x \<notin> rt_oid ` set qs) (filter (\<lambda>x. rt_oid x \<noteq> rt_oid q) L)
      = filter (\<lambda>x. rt_oid x \<notin> rt_oid ` set (q # qs)) L" by (induction L) auto
  then show ?case by simp (rule body_bind [OF one], rule body_post [OF Cons.IH], simp)
qed (auto intro: body_return)

section \<open>What a repair leaves\<close>

definition active_row :: "int \<Rightarrow> string \<Rightarrow> rs_partition list \<Rightarrow> bool" where
  "active_row parent v ps \<longleftrightarrow> (\<exists>p\<in>set ps. par_parent p = parent \<and> par_value p = v \<and> par_status p = ''active'')"

lemma active_row_update:
  assumes "p \<in> set ps" "par_parent p = i" "par_value p = v"
  shows "active_row i v (update_where (\<lambda>p. par_parent p = i \<and> par_value p = v) (\<lambda>p. p\<lparr>par_status := ''active'', par_error := []\<rparr>) ps)"
  using assms by (induction ps) (auto simp: active_row_def update_where_def)

lemma frames_parts: "frames m \<Longrightarrow> body_spec (\<lambda>d. R (parts d)) m (\<lambda>_ d. R (parts d))"
  unfolding frames_def rest_def body_spec_def by simp

lemma frames_finish: "frames (finish_journal X j)"
  unfolding frames_def
  by (intro allI body_post [OF sp_finish_journal]) (auto simp: rest_def)

lemma frames_refresh: "frames (refresh_partition_entrypoint X i s r)"
  unfolding refresh_partition_entrypoint_def rebuild_partition_entrypoint_def sync_partition_dependencies_def write_dependency_def
  by (intro frames_bind frames_foreach frames_exec frames_ddl; (rule frames_read, intro ro | auto simp: rest_def))

lemma frames_validate: "frames (validate_table_physical X i s r)"
  unfolding validate_table_physical_def validate_catalog_columns_match_duckdb_def catalog_columns_def
  by (intro frames_bind frames_if frames_load frames_option frames_read ro; (rule frames_read, intro ro | auto simp: frames_read ro split: prod.splits))

lemma partition_by_value_row:
  "partition_by_value c i v Q = Some ch \<Longrightarrow> \<exists>p\<in>set (parts c). par_parent p = i \<and> par_value p = v \<and> Q p"
proof -
  assume "partition_by_value c i v Q = Some ch"
  then obtain p r n where "(p, r, n) \<in> set (joined_partitions c (\<lambda>p. par_parent p = i \<and> par_value p = v \<and> Q p))"
    by (auto simp: partition_by_value_def dest!: first_of_in)
  from joined_partitionD(3,4) [OF this] show ?thesis by blast
qed

lemma frames_physical: "physical_only m \<Longrightarrow> frames m"
  by (simp add: frames_def physical_only_def)

lemma repair_non_active_row:
  "body_spec (\<lambda>_. True) (repair_non_active_partition X relation v) (\<lambda>_ d. active_row (pt_oid relation) v (parts d))"
proof -
  let ?i = "pt_oid relation"
  let ?P = "\<lambda>ps. \<exists>p\<in>set ps. par_parent p = ?i \<and> par_value p = v"
  have look: "body_spec (\<lambda>_. True) (cmap_err h (cquery_row X [] (\<lambda>c. map_option (\<lambda>p. (par_child p, par_status p))
         (List.find (\<lambda>p. par_parent p = ?i \<and> par_value p = v) (parts c)))))
      (\<lambda>x c. ?P (parts c) \<and> (snd x = ''active'' \<longrightarrow> active_row ?i v (parts c)))" for h
    by (rule sp_map_err, rule body_query_row) (auto simp: active_row_def dest!: find_in)
  have inner: "body_spec (\<lambda>c. ?P (parts c)) (if \<not> present then recreate_partition X relation i n v
          else cbind (partition_child_by_value X ?i v) (\<lambda>found. case found of
              Some child \<Rightarrow> validate_table_physical X (ap_child_oid child) (ap_schema child) (ap_relname child)
            | None \<Rightarrow> cthrow e)) (\<lambda>_ c. ?P (parts c))" for present i n e
    unfolding recreate_partition_def mark_physical_partition_def update_partition_relation_ext_def
    by (rule frames_parts [where R = ?P])
      (intro frames_if frames_bind frames_option frames_allocate frames_ddl frames_load frames_relation_rows frames_exec frames_validate
        frames_physical [OF partition_index_physical(2)]; (rule frames_read, intro ro | auto simp: rest_def))
  have mark: "body_spec (\<lambda>c. ?P (parts c)) (cexec X w (\<lambda>c. Some (c\<lparr>parts := update_where (\<lambda>p. par_parent p = ?i \<and> par_value p = v)
          (\<lambda>p. p\<lparr>par_status := ''active'', par_error := []\<rparr>) (parts c)\<rparr>))) (\<lambda>_ c. active_row ?i v (parts c))" for w
    by (rule body_exec) (auto simp del: set_update_where intro!: active_row_update)
  have status: "body_spec (\<lambda>c. active_row ?i v (parts c)) (cexec X w (\<lambda>c. Some (c\<lparr>relations := update_where Q f (relations c)\<rparr>)))
      (\<lambda>_ c. active_row ?i v (parts c))" for w Q f
    by (rule body_exec) auto
  show ?thesis
    unfolding repair_non_active_partition_def Let_def
    by (rule body_bind [OF look], rule body_prod, rule body_if, rule body_return, simp, rule body_bind [OF body_read_only], intro ro,
        rule body_conseq [OF body_bind [OF inner body_bind [OF mark status]]]) simp_all
qed

lemma repair_body_row:
  "body_spec (\<lambda>_. True) (repair_partition_body X relation s t v sql) (\<lambda>n d. n \<le> 1 \<and> active_row (pt_oid relation) v (parts d))"
proof -
  let ?R = "active_row (pt_oid relation) v"
  have fin: "body_spec (\<lambda>c. ?R (parts c)) (cbind (refresh_partition_entrypoint X (pt_oid relation) s t) (\<lambda>_.
      cbind (finish_journal X j) (\<lambda>_. creturn n))) (\<lambda>n d. n \<le> 1 \<and> ?R (parts d))" if "n \<le> 1" for j and n :: nat
    by (rule body_bind [OF frames_parts [OF frames_refresh]], rule body_bind [OF frames_parts [OF frames_finish]], rule body_return)
      (use that in simp)
  have look: "body_spec (\<lambda>_. True) (active_partition_by_value X (pt_oid relation) v) (\<lambda>found c. found \<noteq> None \<longrightarrow> ?R (parts c))"
    unfolding active_partition_by_value_def
    by (rule body_query) (auto simp: active_row_def dest!: partition_by_value_row)
  have journal: "body_spec (\<lambda>_. True) (insert_journal X m i r) (\<lambda>_ _. True)" for m i r
    by (rule body_post [OF sp_insert_journal]) simp
  show ?thesis
    unfolding repair_partition_body_def
  proof (rule body_bind [OF journal], rule body_bind [OF look], rule body_option, goal_cases)
    case (1 j found)
    show ?case by (rule body_bind [OF body_conseq [OF repair_non_active_row]], simp, assumption, rule fin, simp)
  next
    case (2 j found child)
    show ?case
      by (rule body_conseq [where A' = "\<lambda>c. ?R (parts c)"], rule body_bind [OF frames_parts [OF frames_validate]], rule fin) (use 2 in simp_all)
  qed
qed

lemma sp_partitioned_row:
  "body_spec (\<lambda>d. d = c) (partitioned_relation X s t) (\<lambda>v d. d = c \<and> (\<forall>r. v = Some r \<longrightarrow>
     (\<exists>row. active_relation (x_lower X) c s t = Some row \<and> rel_kind row = ''p'' \<and> rel_oid row = pt_oid r)))"
proof -
  have found: "body_spec (\<lambda>d. d = c) (find_relation_meta X s t) (\<lambda>v d. d = c \<and> (\<forall>m. v = Some m \<longrightarrow>
     (\<exists>row. active_relation (x_lower X) c s t = Some row \<and> rel_kind row = rm_relkind m \<and> rel_oid row = rm_oid m)))"
    by (rule body_post [OF sp_find_relation_meta]) (auto simp: Some_eq_map_option meta_of_def)
  show ?thesis
    unfolding partitioned_relation_def catalog_columns_def
    by (rule body_bind [OF found], rule body_option, rule body_return, simp, rule body_if, rule body_return, simp,
        rule body_bind [OF body_read_only], intro ro, (rule body_prod)+, rule body_bind [OF body_read_only],
        intro ro, rule body_return) auto
qed

section \<open>Properties\<close>




text \<open>C35: Retention keeps the newest partitions: where it succeeds on a table that keeps a positive number of partitions, it
  expired as many as there were above that number, what is left of the active partitions is the old list
  without the expired ones, no more than the table keeps, and no expired partition sorts after a kept one.\<close>

theorem retention_keeps_the_newest:
  assumes "expire_old_partitions X relation s = (Inr n, s')" and "pt_retention relation > 0"
  shows "let old = retention_partitions_in (cat s) (pt_oid relation); new = retention_partitions_in (cat s') (pt_oid relation)
    in n = length old - nat (pt_retention relation) \<and> length new \<le> nat (pt_retention relation)
     \<and> new = filter (\<lambda>q. rt_oid q \<notin> rt_oid ` set (take n old)) old
     \<and> (\<forall>kept\<in>set new. \<forall>expired\<in>set (take n old). rt_value expired \<le> rt_value kept)"
proof -
  let ?i = "pt_oid relation" and ?k = "nat (pt_retention relation)"
  define L where "L = retention_partitions_in (cat s) ?i"
  have read: "body_spec (\<lambda>d. d = cat s) (retention_partitions X ?i) (\<lambda>v d. d = cat s \<and> v = L)"
    unfolding retention_partitions_def L_def by (rule body_query) simp
  have spec: "body_spec (\<lambda>d. d = cat s) (expire_old_partitions X relation) (\<lambda>n d. n = length L - ?k
     \<and> retention_partitions_in d ?i = filter (\<lambda>q. rt_oid q \<notin> rt_oid ` set (take n L)) L)"
    unfolding expire_old_partitions_def Let_def
  proof (rule body_if, use assms(2) in simp, rule body_bind [OF read], rule body_if, goal_cases)
    case (1 v)
    then show ?case by (auto intro!: body_return simp: L_def)
  next
    case (2 v)
    have loop: "body_spec (\<lambda>d. d = cat s) (cforeach (expire_partition X ?i) (take m L))
        (\<lambda>_ d. retention_partitions_in d ?i = filter (\<lambda>q. rt_oid q \<notin> rt_oid ` set (take m L)) L)" for m
      by (rule body_conseq [OF sp_expire_all [of ?i L]]) (simp_all add: L_def)
    show ?case by (rule body_pure, hypsubst, rule body_bind [OF loop], rule body_return) simp
  qed
  have n: "n = length L - ?k" and new: "retention_partitions_in (cat s') ?i = filter (\<lambda>q. rt_oid q \<notin> rt_oid ` set (take n L)) L"
    using body_specD [OF spec refl assms(1)] by auto
  have split: "filter (\<lambda>q. rt_oid q \<notin> rt_oid ` set (take n L)) L = filter (\<lambda>q. rt_oid q \<notin> rt_oid ` set (take n L)) (drop n L)"
  proof -
    have "filter (\<lambda>q. rt_oid q \<notin> rt_oid ` set (take n L)) (take n L) = []" by (auto simp: filter_empty_conv)
    then show ?thesis by (metis append_take_drop_id filter_append append_Nil)
  qed
  have "length (drop n L) \<le> ?k" using n by simp
  then have len: "length (retention_partitions_in (cat s') ?i) \<le> ?k"
    unfolding new split using length_filter_le [of "\<lambda>q. rt_oid q \<notin> rt_oid ` set (take n L)" "drop n L"] by linarith
  have sorted: "sorted (map rt_value L)"
  proof -
    have "map rt_value L = map (\<lambda>(p, _). par_value p) (sort_key (\<lambda>(p, _). par_value p) (joined_partitions (cat s) (\<lambda>p. par_parent p = ?i
        \<and> par_status p = ''active'' \<and> \<not> par_is_null p)))"
      unfolding L_def retention_partitions_in_def by (simp add: case_prod_beta comp_def)
    then show ?thesis by simp
  qed
  have "rt_value expired \<le> rt_value kept" if "kept \<in> set (retention_partitions_in (cat s') ?i)" "expired \<in> set (take n L)" for kept expired
  proof -
    have "sorted (map rt_value (take n L) @ map rt_value (drop n L))" using sorted by (simp flip: map_append)
    moreover have "kept \<in> set (drop n L)" using that(1) unfolding new split by simp
    ultimately show ?thesis using that(2) by (auto simp: sorted_append)
  qed
  then show ?thesis using n new len by (simp add: L_def [symmetric] Let_def)
qed


section \<open>Witnesses\<close>

abbreviation hourly :: part_relation where
  "hourly \<equiv> \<lparr>pt_oid = 100, pt_schema = ''main'', pt_name = ''events'', pt_key = ''at'', pt_key_type = ''timestamp'',
     pt_unit = ''hour'', pt_retention = 1, pt_columns = []\<rparr>"

abbreviation child_partition :: "int \<Rightarrow> string \<Rightarrow> rs_partition" where
  "child_partition i v \<equiv> \<lparr>par_parent = 100, par_child = i, par_value = v, par_unit = ''month'', par_lower = None, par_upper = None,
     par_is_null = False, par_status = ''active'', par_row_count = 0, par_min_ts = None, par_max_ts = None,
     par_checksum = [], par_error = []\<rparr>"

text \<open>A table with two partitions that keeps one.\<close>

definition events_world :: "unit conn" where
  "events_world = sample_conn (empty_catalog\<lparr>schemas := [\<lparr>sch_oid = 14, sch_name = ''rsduck_internal'', sch_owner = 10, sch_acl = []\<rparr>],
     relations := [relation_row 101 0 14 ''events_202402'' ''r'' 1 10, relation_row 102 0 14 ''events_202401'' ''r'' 1 10],
     parts := [child_partition 101 ''202402'', child_partition 102 ''202401'']\<rparr>)"

lemma runs_expire: "reliable X \<Longrightarrow> \<exists>d. runs (expire_partition X i q) c () d"
  unfolding expire_partition_def Let_def delete_partition_child_catalog_def
  by (rule exI, rule runs_bind [OF runs_exec [OF _ refl]], assumption, rule runs_bind [OF runs_ddl], assumption,
      rule runs_bind [OF runs_relation_deletes], assumption, rule runs_exec [OF _ refl], assumption)

lemma runs_expire_all: "reliable X \<Longrightarrow> \<exists>d. runs (cforeach (expire_partition X i) qs) c () d"
proof (induction qs arbitrary: c)
  case (Cons q qs)
  obtain d where d: "runs (expire_partition X i q) c () d" using runs_expire [OF Cons.prems] by blast
  obtain e where "runs (cforeach (expire_partition X i) qs) d () e" using Cons by blast
  then have "runs (cforeach (expire_partition X i) (q # qs)) c () e" by simp (rule runs_bind [OF d])
  then show ?case ..
qed (auto intro: runs_return)

lemma expire_old_succeeds:
  assumes "reliable X" "pt_retention relation > 0"
  shows "\<exists>s'. expire_old_partitions X relation s
     = (Inr (length (retention_partitions_in (cat s) (pt_oid relation)) - nat (pt_retention relation)), s')"
proof -
  let ?L = "retention_partitions_in (cat s) (pt_oid relation)" and ?k = "nat (pt_retention relation)"
  obtain d where d: "runs (cforeach (expire_partition X (pt_oid relation)) (take (length ?L - ?k) ?L)) (cat s) () d"
    using runs_expire_all [OF assms(1)] by blast
  have "\<exists>e. runs (expire_old_partitions X relation) (cat s) (length ?L - ?k) e"
    unfolding expire_old_partitions_def retention_partitions_def Let_def using assms(2)
    by (cases "length ?L \<le> ?k") (auto intro!: exI runs_bind [OF runs_query [OF assms(1)]] runs_bind [OF d] runs_return)
  then show ?thesis by (auto simp: runs_def)
qed

theorem retention_keeps_the_newest_witness:
  "map rt_value (retention_partitions_in (cat (snd (expire_old_partitions sample hourly events_world))) 100) = [''202402'']"
proof -
  have old: "map (\<lambda>q. (rt_oid q, rt_value q)) (retention_partitions_in (cat events_world) 100) = [(102, ''202401''), (101, ''202402'')]"
    by code_simp
  then obtain q1 q2 where q: "retention_partitions_in (cat events_world) 100 = [q1, q2]" "rt_oid q1 = 102" "rt_oid q2 = 101"
    "rt_value q2 = ''202402''" by auto
  obtain s' where run: "expire_old_partitions sample hourly events_world = (Inr 1, s')"
    using expire_old_succeeds [OF reliable_sample, of hourly _ events_world] q by auto
  show ?thesis using retention_keeps_the_newest [OF run] q by (simp add: Let_def run)
qed




abbreviation events_create :: managed_partition_create where
  "events_create \<equiv> \<lparr>mp_base_sql = ''CREATE TABLE events (at DATE NOT NULL)'', mp_partition_key = ''at'', mp_partition_unit = ''month'',
     mp_retention_count = 1\<rparr>"


end
