(* ===== verification/Alter_Table.thy ===== *)
theory Alter_Table
  imports Partition_Ops
begin

text \<open>
  ALTER TABLE, \<^verbatim>\<open>src/catalog/mutation/alter_table.rs\<close>: one operation per statement, as a transaction. On an ordinary
  table the statement itself goes to the engine and the column rows follow what the engine then shows; on a partitioned
  table the operation is repeated on every active partition, the parent's rows follow, and the entry-point view is built
  again. The columns of a table keep their numbers: a dropped column stays as a row that is marked.
\<close>

section \<open>Column rows\<close>

definition partition_key_name :: "'p external \<Rightarrow> int \<Rightarrow> ('p, string) db" where
  "partition_key_name X parent_oid = cquery_row X ''read partition key failed''
     (\<lambda>c. map_option ext_partition_key (List.find (\<lambda>e. ext_relid e = parent_oid) (exts c)))"

definition duckdb_column :: "'p external \<Rightarrow> string \<Rightarrow> string \<Rightarrow> string \<Rightarrow> ('p, catalog_column) db" where
  "duckdb_column X schema table column_name =
     cbind (load_duckdb_columns X schema table) (\<lambda>columns.
     case find_column column_name columns of
       None \<Rightarrow> cthrow (ECol (DuckColumnMissing schema table column_name))
     | Some column \<Rightarrow> creturn column)"

definition column_at :: "int \<Rightarrow> int \<Rightarrow> rs_column \<Rightarrow> bool" where
  "column_at rel attnum a \<longleftrightarrow> att_relid a = rel \<and> att_num a = attnum"

definition update_column :: "int \<Rightarrow> int \<Rightarrow> (rs_column \<Rightarrow> rs_column) \<Rightarrow> catalog \<Rightarrow> catalog" where
  "update_column rel attnum f c = c\<lparr>cols := update_where (column_at rel attnum) f (cols c)\<rparr>"

definition delete_default :: "int \<Rightarrow> int \<Rightarrow> catalog \<Rightarrow> catalog" where
  "delete_default rel attnum c = c\<lparr>defaults := filter (\<lambda>d. \<not> (def_relid d = rel \<and> def_num d = attnum)) (defaults c)\<rparr>"

definition sync_catalog_column :: "'p external \<Rightarrow> int \<Rightarrow> int \<Rightarrow> catalog_column \<Rightarrow> string \<Rightarrow> ('p, unit) db" where
  "sync_catalog_column X rel attnum column name =
     cbind (ensure_type_id_for_duckdb_type X (cc_duckdb_type column)) (\<lambda>type_id.
     cbind (cexec X ''update altered column metadata failed'' (\<lambda>c. Some (update_column rel attnum
        (\<lambda>a. a\<lparr>att_name := name, att_typid := type_id, att_typmod := type_modifier_for_duckdb_type (cc_duckdb_type column),
               att_notnull := cc_not_null column, att_hasdef := (cc_default column \<noteq> None)\<rparr>) c))) (\<lambda>_.
     cbind (cexec X ''delete altered column default failed'' (\<lambda>c. Some (delete_default rel attnum c))) (\<lambda>_.
     case cc_default column of
       None \<Rightarrow> creturn ()
     | Some default_expr \<Rightarrow>
         cbind (allocate_oid X) (\<lambda>default_oid.
         cexec X ''write altered column default failed'' (\<lambda>c. map_option (\<lambda>rows. c\<lparr>defaults := rows\<rparr>)
           (insert_default \<lparr>def_oid = default_oid, def_relid = rel, def_num = attnum, def_bin = default_expr\<rparr> (defaults c)))))))"

definition rename_catalog_column :: "'p external \<Rightarrow> int \<Rightarrow> int \<Rightarrow> string \<Rightarrow> ('p, unit) db" where
  "rename_catalog_column X rel attnum new_name = cexec X ''update renamed column metadata failed''
     (\<lambda>c. Some (update_column rel attnum (\<lambda>a. a\<lparr>att_name := new_name\<rparr>) c))"

definition mark_column_dropped :: "'p external \<Rightarrow> int \<Rightarrow> int \<Rightarrow> ('p, unit) db" where
  "mark_column_dropped X rel attnum =
     cbind (cexec X ''mark column dropped failed'' (\<lambda>c. Some (update_column rel attnum
        (\<lambda>a. a\<lparr>att_isdropped := True, att_hasdef := False\<rparr>) c))) (\<lambda>_.
     cexec X ''delete dropped column default failed'' (\<lambda>c. Some (delete_default rel attnum c)))"

text \<open>\<^verbatim>\<open>SELECT MAX(attnum)\<close>, 0 where there is no row.\<close>

definition max_or_0 :: "int list \<Rightarrow> int" where
  "max_or_0 ns = (case ns of [] \<Rightarrow> 0 | n # ns' \<Rightarrow> fold max ns' n)"

definition next_attribute_num :: "'p external \<Rightarrow> int \<Rightarrow> ('p, int) db" where
  "next_attribute_num X rel = cquery X ''read max attribute number failed''
     (\<lambda>c. max_or_0 (map att_num (filter (\<lambda>a. att_relid a = rel) (cols c))) + 1)"

definition active_attributes :: "catalog \<Rightarrow> int \<Rightarrow> nat" where
  "active_attributes c rel = length (filter (\<lambda>a. att_relid a = rel \<and> \<not> att_isdropped a) (cols c))"

definition set_relnatts_to_active_attribute_count :: "'p external \<Rightarrow> int \<Rightarrow> ('p, unit) db" where
  "set_relnatts_to_active_attribute_count X rel =
     cbind (cquery X ''count active attributes failed'' (\<lambda>c. active_attributes c rel)) (\<lambda>active_count.
     cexec X ''update active relnatts failed'' (\<lambda>c. Some (c\<lparr>relations := update_where (\<lambda>r. rel_oid r = rel)
       (\<lambda>r. r\<lparr>rel_natts := int active_count\<rparr>) (relations c)\<rparr>)))"

definition ensure_no_dependent_views ::
    "'p external \<Rightarrow> int \<Rightarrow> string \<Rightarrow> string \<Rightarrow> string \<Rightarrow> string \<Rightarrow> ('p, unit) db" where
  "ensure_no_dependent_views X rel schema table column_name operation =
     cbind (dependent_relation_oids X rel) (\<lambda>dependents.
     if dependents = [] then creturn () else cthrow (ECol (DependentViews operation schema table column_name)))"

text \<open>The statement one partition gets.\<close>

definition alter_child :: "'p external \<Rightarrow> string \<Rightarrow> active_partition_child \<Rightarrow> string \<Rightarrow> ('p, unit) db" where
  "alter_child X what child operation = cddl X (''execute DuckDB ALTER TABLE '' @ what @ '' on partition'')
     (''ALTER TABLE '' @ quote_qualified (ap_schema child) (ap_relname child) @ '' '' @ operation)"

definition child_column_attnum :: "'p external \<Rightarrow> active_partition_child \<Rightarrow> string \<Rightarrow> ('p, int) db" where
  "child_column_attnum X child name =
     cbind (column_attnum X (ap_child_oid child) name) (\<lambda>found. case found of
       None \<Rightarrow> cthrow (ECol (PartitionColumnMissing (ap_schema child) (ap_relname child) name))
     | Some attnum \<Rightarrow> creturn attnum)"

section \<open>ADD COLUMN\<close>

definition add_child_column ::
    "'p external \<Rightarrow> string \<Rightarrow> int \<Rightarrow> active_partition_child \<Rightarrow> catalog_column option \<Rightarrow> ('p, catalog_column option) db" where
  "add_child_column X column_def_sql new_attnum child parent_column =
     cbind (alter_child X ''ADD COLUMN'' child (''ADD COLUMN '' @ column_def_sql)) (\<lambda>_.
     cbind (load_duckdb_columns X (ap_schema child) (ap_relname child)) (\<lambda>columns.
     if columns = [] then cthrow (ECol (PartitionNoColumns (ap_schema child) (ap_relname child)))
     else
       let column = (last columns)\<lparr>cc_attnum := new_attnum\<rparr> in
       cbind (insert_attribute_row X (ap_child_oid child) column) (\<lambda>_.
       cbind (set_relnatts_to_active_attribute_count X (ap_child_oid child)) (\<lambda>_.
       creturn (if parent_column = None then Some column else parent_column)))))"

definition alter_partitioned_table_add_column ::
    "'p external \<Rightarrow> int \<Rightarrow> string \<Rightarrow> string \<Rightarrow> string \<Rightarrow> ('p, unit) db" where
  "alter_partitioned_table_add_column X parent_oid schema table column_def_sql =
     cbind (active_partition_children X parent_oid) (\<lambda>children.
     if children = [] then cthrow (ECol NoActivePartitions)
     else
       cbind (next_attribute_num X parent_oid) (\<lambda>new_attnum.
       cbind (cfold (add_child_column X column_def_sql new_attnum) children None) (\<lambda>parent_column.
       case parent_column of
         None \<Rightarrow> cthrow (ECol NoActivePartitions)
       | Some column \<Rightarrow>
           cbind (insert_attribute_row X parent_oid column) (\<lambda>_.
           cbind (set_relnatts_to_active_attribute_count X parent_oid) (\<lambda>_.
           refresh_partition_entrypoint X parent_oid schema table)))))"

definition add_table_column :: "'p external \<Rightarrow> int \<Rightarrow> string \<Rightarrow> string \<Rightarrow> column_def \<Rightarrow> string \<Rightarrow> ('p, unit) db" where
  "add_table_column X rel schema table column_def sql =
     cbind (cddl X ''execute DuckDB ALTER TABLE ADD COLUMN failed'' sql) (\<lambda>_.
     cbind (load_duckdb_columns X schema table) (\<lambda>physical_columns.
     case find_column (cd_name column_def) physical_columns of
       None \<Rightarrow> cthrow (ECol (AddedColumnMissing (cd_name_text column_def)))
     | Some column \<Rightarrow>
         cbind (next_attribute_num X rel) (\<lambda>attnum.
         cbind (insert_attribute_row X rel (column\<lparr>cc_attnum := attnum\<rparr>)) (\<lambda>_.
         set_relnatts_to_active_attribute_count X rel))))"

definition add_column_body ::
    "'p external \<Rightarrow> string \<Rightarrow> string \<Rightarrow> bool \<Rightarrow> column_def \<Rightarrow> string \<Rightarrow> ('p, nat) db" where
  "add_column_body X schema table if_not_exists column_def sql =
     cbind (relation_oid X schema table) (\<lambda>rel.
     cbind (relation_kind X rel) (\<lambda>relkind.
     cbind (column_exists X rel (cd_name column_def)) (\<lambda>present.
     if present then (if if_not_exists then creturn 0
       else cthrow (ECol (ColumnExists schema table (cd_name_text column_def))))
     else
       cbind (insert_journal X ''alter_table_add_column'' rel sql) (\<lambda>journal_id.
       if relkind = ''p'' then
         cbind (alter_partitioned_table_add_column X rel schema table (cd_text column_def)) (\<lambda>_.
         cbind (finish_journal X journal_id) (\<lambda>_.
         creturn 0))
       else if relkind \<noteq> ''r'' then cthrow (ECol (AlterKind ''ADD COLUMN'' relkind))
       else
         cbind (add_table_column X rel schema table column_def sql) (\<lambda>_.
         cbind (finish_journal X journal_id) (\<lambda>_.
         creturn 0))))))"

section \<open>DROP COLUMN\<close>

definition listed_attnum :: "int \<Rightarrow> string \<Rightarrow> bool" where
  "listed_attnum attnum v \<longleftrightarrow> list_ex (\<lambda>part. trim part = show_int attnum) (split_by (\<lambda>x. x = CHR '','') v)"

definition column_attnum_list_contains :: "'p external \<Rightarrow> (catalog \<Rightarrow> string list) \<Rightarrow> int \<Rightarrow> ('p, bool) db" where
  "column_attnum_list_contains X stored attnum = cquery X ''query column dependency lookup failed''
     (\<lambda>c. list_ex (listed_attnum attnum) (stored c))"

definition ensure_column_can_drop ::
    "'p external \<Rightarrow> int \<Rightarrow> int \<Rightarrow> string \<Rightarrow> string \<Rightarrow> string \<Rightarrow> ('p, unit) db" where
  "ensure_column_can_drop X rel attnum schema table column_name =
     cbind (column_attnum_list_contains X (\<lambda>c. map con_key (filter (\<lambda>k. con_relid k = rel) (constraints c))) attnum) (\<lambda>constrained.
     if constrained then cthrow (ECol (ConstraintDependency schema table column_name))
     else
       cbind (column_attnum_list_contains X (\<lambda>c. map con_fkey (filter (\<lambda>k. con_frelid k = rel) (constraints c))) attnum) (\<lambda>referenced.
       if referenced then cthrow (ECol (ReferenceDependency schema table column_name))
       else
         cbind (column_attnum_list_contains X (\<lambda>c. map idx_key (filter (\<lambda>i. idx_indrelid i = rel) (indexes c))) attnum) (\<lambda>indexed.
         if indexed then cthrow (ECol (IndexDependency schema table column_name)) else creturn ())))"

definition drop_column_targets ::
    "'p external \<Rightarrow> int \<Rightarrow> string \<Rightarrow> string \<Rightarrow> string list \<Rightarrow> bool \<Rightarrow> ('p, (string \<times> int) list) db" where
  "drop_column_targets X rel schema table column_names if_exists =
     cfold (\<lambda>name columns. cbind (column_attnum X rel name) (\<lambda>found. case found of
         Some attnum \<Rightarrow> creturn (columns @ [(name, attnum)])
       | None \<Rightarrow> if if_exists then creturn columns else cthrow (ECol (AlterColumnMissing schema table name))))
       column_names []"

definition drop_table_column :: "'p external \<Rightarrow> int \<Rightarrow> string \<Rightarrow> string \<Rightarrow> string \<times> int \<Rightarrow> ('p, unit) db" where
  "drop_table_column X rel schema table = (\<lambda>(column_name, attnum).
     cbind (ensure_column_can_drop X rel attnum schema table column_name) (\<lambda>_.
     cbind (cddl X ''execute DuckDB ALTER TABLE DROP COLUMN failed''
        (''ALTER TABLE '' @ quote_qualified schema table @ '' DROP COLUMN '' @ quote_ident column_name)) (\<lambda>_.
     mark_column_dropped X rel attnum)))"

definition drop_child_columns :: "'p external \<Rightarrow> (string \<times> int) list \<Rightarrow> active_partition_child \<Rightarrow> ('p, unit) db" where
  "drop_child_columns X columns child =
     cbind (cforeach (\<lambda>(column_name, _).
        cbind (child_column_attnum X child column_name) (\<lambda>child_attnum.
        cbind (alter_child X ''DROP COLUMN'' child (''DROP COLUMN '' @ quote_ident column_name)) (\<lambda>_.
        mark_column_dropped X (ap_child_oid child) child_attnum))) columns) (\<lambda>_.
     set_relnatts_to_active_attribute_count X (ap_child_oid child))"

definition alter_partitioned_table_drop_columns ::
    "'p external \<Rightarrow> int \<Rightarrow> string \<Rightarrow> string \<Rightarrow> (string \<times> int) list \<Rightarrow> ('p, unit) db" where
  "alter_partitioned_table_drop_columns X parent_oid schema table columns =
     cbind (partition_key_name X parent_oid) (\<lambda>partition_key.
     cbind (cforeach (\<lambda>(column_name, attnum).
        if eq_ignore_case column_name partition_key then cthrow (ECol (DropPartitionKeyColumn schema table column_name))
        else ensure_column_can_drop X parent_oid attnum schema table column_name) columns) (\<lambda>_.
     cbind (active_partition_children X parent_oid) (\<lambda>children.
     if children = [] then cthrow (ECol NoActivePartitions)
     else
       cbind (cforeach (drop_child_columns X columns) children) (\<lambda>_.
       cbind (cforeach (\<lambda>(_, attnum). mark_column_dropped X parent_oid attnum) columns) (\<lambda>_.
       cbind (set_relnatts_to_active_attribute_count X parent_oid) (\<lambda>_.
       refresh_partition_entrypoint X parent_oid schema table))))))"

definition alter_table_drop_columns ::
    "'p external \<Rightarrow> int \<Rightarrow> string \<Rightarrow> string \<Rightarrow> string list \<Rightarrow> bool \<Rightarrow> ('p, unit) db" where
  "alter_table_drop_columns X rel schema table column_names if_exists =
     (if column_names = [] then cthrow (ECol DropColumnNoNames)
      else
        cbind (relation_kind X rel) (\<lambda>relkind.
        cbind (drop_column_targets X rel schema table column_names if_exists) (\<lambda>columns.
        if columns = [] then creturn ()
        else if relkind = ''p'' then alter_partitioned_table_drop_columns X rel schema table columns
        else if relkind \<noteq> ''r'' then cthrow (ECol (AlterKind ''DROP COLUMN'' relkind))
        else
          cbind (cforeach (drop_table_column X rel schema table) columns) (\<lambda>_.
          set_relnatts_to_active_attribute_count X rel))))"

section \<open>RENAME COLUMN and SET DATA TYPE\<close>

definition sync_child_column :: "'p external \<Rightarrow> string \<Rightarrow> string \<Rightarrow> string \<Rightarrow> string \<Rightarrow> active_partition_child \<Rightarrow> ('p, catalog_column) db" where
  "sync_child_column X what old_name new_name operation child =
     cbind (child_column_attnum X child old_name) (\<lambda>child_attnum.
     cbind (alter_child X what child operation) (\<lambda>_.
     cbind (duckdb_column X (ap_schema child) (ap_relname child) new_name) (\<lambda>column.
     cbind (sync_catalog_column X (ap_child_oid child) child_attnum column new_name) (\<lambda>_.
     creturn column))))"

definition alter_partitioned_table_rename_column ::
    "'p external \<Rightarrow> int \<Rightarrow> string \<Rightarrow> string \<Rightarrow> string \<Rightarrow> string \<Rightarrow> int \<Rightarrow> ('p, unit) db" where
  "alter_partitioned_table_rename_column X parent_oid schema table old_name new_name parent_attnum =
     cbind (partition_key_name X parent_oid) (\<lambda>partition_key.
     cbind (active_partition_children X parent_oid) (\<lambda>children.
     if children = [] then cthrow (ECol NoActivePartitions)
     else
       cbind (cforeach (\<lambda>child. cbind (sync_child_column X ''RENAME COLUMN'' old_name new_name
          (''RENAME COLUMN '' @ quote_ident old_name @ '' TO '' @ quote_ident new_name) child) (\<lambda>_. creturn ())) children) (\<lambda>_.
       cbind (rename_catalog_column X parent_oid parent_attnum new_name) (\<lambda>_.
       cbind (if eq_ignore_case old_name partition_key
          then cexec X ''update renamed partition key metadata failed'' (\<lambda>c. Some (c\<lparr>exts := update_where
            (\<lambda>e. ext_relid e = parent_oid) (\<lambda>e. e\<lparr>ext_partition_key := new_name\<rparr>) (exts c)\<rparr>))
          else creturn ()) (\<lambda>_.
       refresh_partition_entrypoint X parent_oid schema table)))))"

definition alter_table_rename_column ::
    "'p external \<Rightarrow> int \<Rightarrow> string \<Rightarrow> string \<Rightarrow> string \<Rightarrow> string \<Rightarrow> string \<Rightarrow> ('p, unit) db" where
  "alter_table_rename_column X rel schema table old_name new_name sql =
     (if eq_ignore_case old_name new_name then cthrow (ECol RenameSameName)
      else
        cbind (column_attnum X rel old_name) (\<lambda>found. case found of
          None \<Rightarrow> cthrow (ECol (AlterColumnMissing schema table old_name))
        | Some old_attnum \<Rightarrow>
            cbind (column_exists X rel new_name) (\<lambda>present.
            if present then cthrow (ECol (ColumnExists schema table new_name))
            else
              cbind (ensure_no_dependent_views X rel schema table old_name ''rename'') (\<lambda>_.
              cbind (relation_kind X rel) (\<lambda>relkind.
              if relkind = ''r'' then
                cbind (cddl X ''execute DuckDB ALTER TABLE RENAME COLUMN failed'' sql) (\<lambda>_.
                cbind (duckdb_column X schema table new_name) (\<lambda>column.
                sync_catalog_column X rel old_attnum column new_name))
              else if relkind = ''p'' then
                alter_partitioned_table_rename_column X rel schema table old_name new_name old_attnum
              else cthrow (ECol (AlterKind ''RENAME COLUMN'' relkind)))))))"

definition set_child_type ::
    "'p external \<Rightarrow> string \<Rightarrow> string \<Rightarrow> active_partition_child \<Rightarrow> catalog_column option \<Rightarrow> ('p, catalog_column option) db" where
  "set_child_type X column_name operation_sql child parent_column =
     cbind (sync_child_column X ''SET DATA TYPE'' column_name column_name operation_sql child) (\<lambda>column.
     creturn (if parent_column = None then Some column else parent_column))"

definition alter_partitioned_table_set_column_type ::
    "'p external \<Rightarrow> int \<Rightarrow> string \<Rightarrow> string \<Rightarrow> string \<Rightarrow> int \<Rightarrow> string \<Rightarrow> ('p, unit) db" where
  "alter_partitioned_table_set_column_type X parent_oid schema table column_name parent_attnum operation_sql =
     cbind (partition_key_name X parent_oid) (\<lambda>partition_key.
     if eq_ignore_case column_name partition_key then cthrow (ECol SetTypePartitionKey)
     else
       cbind (active_partition_children X parent_oid) (\<lambda>children.
       if children = [] then cthrow (ECol NoActivePartitions)
       else
         cbind (cfold (set_child_type X column_name operation_sql) children None) (\<lambda>parent_column.
         case parent_column of
           None \<Rightarrow> cthrow (ECol NoActivePartitions)
         | Some column \<Rightarrow>
             cbind (sync_catalog_column X parent_oid parent_attnum column column_name) (\<lambda>_.
             refresh_partition_entrypoint X parent_oid schema table))))"

definition alter_table_set_column_type ::
    "'p external \<Rightarrow> int \<Rightarrow> string \<Rightarrow> string \<Rightarrow> string \<Rightarrow> string \<Rightarrow> string \<Rightarrow> ('p, unit) db" where
  "alter_table_set_column_type X rel schema table column_name operation_sql sql =
     cbind (column_attnum X rel column_name) (\<lambda>found. case found of
       None \<Rightarrow> cthrow (ECol (AlterColumnMissing schema table column_name))
     | Some attnum \<Rightarrow>
         cbind (ensure_no_dependent_views X rel schema table column_name ''change type'') (\<lambda>_.
         cbind (relation_kind X rel) (\<lambda>relkind.
         if relkind = ''r'' then
           cbind (cddl X ''execute DuckDB ALTER TABLE SET DATA TYPE failed'' sql) (\<lambda>_.
           cbind (duckdb_column X schema table column_name) (\<lambda>column.
           sync_catalog_column X rel attnum column column_name))
         else if relkind = ''p'' then
           alter_partitioned_table_set_column_type X rel schema table column_name attnum operation_sql
         else cthrow (ECol (AlterKind ''SET DATA TYPE'' relkind)))))"

section \<open>The statement\<close>

text \<open>The three operations that work on a named relation share their frame.\<close>

definition altering :: "'p external \<Rightarrow> string \<Rightarrow> string \<Rightarrow> string \<Rightarrow> string \<Rightarrow> (int \<Rightarrow> ('p, unit) db) \<Rightarrow> ('p, nat) db" where
  "altering X mutation schema table sql operation =
     cbind (relation_oid X schema table) (\<lambda>rel.
     cbind (insert_journal X mutation rel sql) (\<lambda>journal_id.
     cbind (operation rel) (\<lambda>_.
     cbind (finish_journal X journal_id) (\<lambda>_.
     creturn 0))))"

definition alter_table_operation ::
    "'p external \<Rightarrow> string \<Rightarrow> string \<Rightarrow> alter_operation \<Rightarrow> string \<Rightarrow> ('p, nat) db" where
  "alter_table_operation X schema table operation sql = (case operation of
     AddColumn if_not_exists column_def positioned \<Rightarrow>
       if positioned then cthrow (ECol AddColumnPosition)
       else
         cbind (clift (validate_column_def_type column_def)) (\<lambda>_.
         run_catalog_tx X (add_column_body X schema table if_not_exists column_def sql))
   | DropColumn column_names if_exists behaviour \<Rightarrow>
       if behaviour then cthrow (ECol DropColumnBehavior)
       else run_catalog_tx X (altering X ''alter_table_drop_column'' schema table sql
         (\<lambda>rel. alter_table_drop_columns X rel schema table column_names if_exists))
   | RenameColumn old_name new_name \<Rightarrow>
       run_catalog_tx X (altering X ''alter_table_rename_column'' schema table sql
         (\<lambda>rel. alter_table_rename_column X rel schema table old_name new_name sql))
   | SetDataType column_name operation_sql \<Rightarrow>
       run_catalog_tx X (altering X ''alter_table_set_column_type'' schema table sql
         (\<lambda>rel. alter_table_set_column_type X rel schema table column_name operation_sql sql))
   | OtherOperation \<Rightarrow> cthrow (ECol AlterUnsupported))"

definition alter_table_relation :: "'p external \<Rightarrow> alter_table \<Rightarrow> string \<Rightarrow> ('p, nat) db" where
  "alter_table_relation X at sql =
     cbind (clift (relation_name (at_name at))) (\<lambda>(schema, table).
     cbind (clift (reject_reserved_schema schema)) (\<lambda>_.
     case at_operations at of
       [operation] \<Rightarrow> alter_table_operation X schema table operation sql
     | _ \<Rightarrow> cthrow (ECol AlterOneOperation)))"

end
