(* ===== verification/Alter_Ops.thy ===== *)
theory Alter_Ops
  imports Alter_Table
begin

text \<open>
  What ALTER TABLE keeps: it is atomic and keeps the integrity checks of the next start passing, whatever fails on the way;
  and DROP COLUMN removes only columns that no constraint, foreign key or index uses.
\<close>

section \<open>The invariant of an ALTER\<close>

text \<open>The catalog stays well formed, and sane where it was; the relations \<open>R\<close> exist.\<close>

definition alt :: "bool \<Rightarrow> (string \<Rightarrow> string) \<Rightarrow> int set \<Rightarrow> (catalog \<Rightarrow> bool) \<Rightarrow> catalog \<Rightarrow> bool" where
  "alt b low R G = work b low (\<lambda>c. R \<subseteq> rel_ids c) G []"

lemma steady_rels: "steady rid (\<lambda>c. R \<subseteq> rel_ids c)"
  by (rule steadyI [where G = "\<lambda>c. R \<subseteq> rel_ids c"]) (simp add: rel_ids_def)

lemma alt_more: "alt b low R G c \<Longrightarrow> (\<And>d. G d \<Longrightarrow> G' d) \<Longrightarrow> R' \<subseteq> R \<Longrightarrow> alt b low R' G' c"
  by (auto simp: alt_def work_def)

lemma alt_read: "read_only m \<Longrightarrow> body_spec (alt b low R G) m (\<lambda>_. alt b low R G)"
  by (rule body_read_only)

lemma alt_ddl: "body_spec (alt b low R G) (cddl X w sql) (\<lambda>_. alt b low R G)"
  by (rule body_ddl)

lemma alt_journal: "lasting G \<Longrightarrow> body_spec (alt b low R G) (insert_journal X m t r) (\<lambda>_. alt b low R G)"
  unfolding alt_def by (rule work_journal [OF steady_rels])

lemma alt_load: "lasting G \<Longrightarrow> body_spec (alt b low R G) (load_duckdb_columns X s r)
    (\<lambda>columns. alt b low R (\<lambda>c. G c \<and> (\<forall>col\<in>set columns. b \<longrightarrow> column_type c (cc_type_id col))))"
  unfolding alt_def by (rule work_load_columns [OF steady_rels])

lemma alt_change:
  assumes "\<And>c. wf_catalog c \<Longrightarrow> wf_catalog (g c)" and "\<And>c. G c \<Longrightarrow> b \<Longrightarrow> sane low c \<Longrightarrow> sane low (g c)"
    and "\<And>c. rel_ids (g c) = rel_ids c" and "\<And>c. set (all_oids (g c)) \<subseteq> set (all_oids c)" and "\<And>c. next_oid (g c) = next_oid c"
    and "lasting G" "\<And>c. types (g c) = types c" "\<And>c. constraints (g c) = constraints c"
  shows "body_spec (alt b low R G) (cexec X w (\<lambda>c. Some (g c))) (\<lambda>_. alt b low R G)"
  unfolding alt_def by (rule work_change) (use assms in \<open>auto simp: work_def\<close>)

lemma sane_update_columns:
  assumes "sane low c" and f: "\<And>a. att_relid (f a) = att_relid a"
    and ty: "\<And>a. att_typid (f a) = att_typid a \<or> column_type c (att_typid (f a))"
  shows "sane low (c\<lparr>cols := update_where P f (cols c)\<rparr>)"
proof -
  have old: "att_relid a \<in> rel_oid ` set (relations c) \<and> column_type c (att_typid a)" if "a \<in> set (cols c)" for a
    using assms(1) that by (auto simp: sane_def integral_iff types_ok_def)
  have new: "att_relid a \<in> rel_oid ` set (relations c) \<and> column_type c (att_typid a)" if "a \<in> set (update_where P f (cols c))" for a
  proof -
    from that obtain q where q: "q \<in> set (cols c)" "a = (if P q then f q else q)" by (auto simp: set_update_where)
    then show ?thesis using old [OF q(1)] f [of q] ty [of q] by (auto split: if_splits)
  qed
  have "integral low (c\<lparr>cols := update_where P f (cols c)\<rparr>)"
    using assms(1) new column_type_registered unfolding sane_def integral_iff by (auto simp: active_names_def)
  moreover have "types_ok (c\<lparr>cols := update_where P f (cols c)\<rparr>)"
    using assms(1) new by (auto simp: sane_def types_ok_def column_type_def)
  ultimately show ?thesis using assms(1) by (simp add: sane_def deps_ok_def)
qed


lemma alt_update_column:
  assumes "lasting G" and f: "\<And>a. att_relid (f a) = att_relid a"
    and ty: "\<And>c a. G c \<Longrightarrow> b \<Longrightarrow> att_typid (f a) = att_typid a \<or> column_type c (att_typid (f a))"
  shows "body_spec (alt b low R G) (cexec X w (\<lambda>c. Some (update_column rel n f c))) (\<lambda>_. alt b low R G)"
  unfolding update_column_def
  by (rule alt_change) (use assms in \<open>auto intro!: sane_update_columns\<close>)

lemma alt_delete_default:
  "lasting G \<Longrightarrow> body_spec (alt b low R G) (cexec X w (\<lambda>c. Some (delete_default rel n c))) (\<lambda>_. alt b low R G)"
  unfolding delete_default_def
  by (rule alt_change) (auto simp: wf_del_rows rel_ids_def all_oids_def)

lemma alt_relnatts:
  assumes "lasting G"
  shows "body_spec (alt b low R G) (set_relnatts_to_active_attribute_count X rel) (\<lambda>_. alt b low R G)"
  unfolding set_relnatts_to_active_attribute_count_def
proof (rule body_bind [OF alt_read [OF ro_query]], rule alt_change [OF _ _ _ _ _ assms], goal_cases)
  case (2 v c)
  then show ?case by (intro sane_update_relations) simp_all
next
  case (4 v c)
  have "map rel_oid (update_where P f (relations c)) = map rel_oid (relations c)"
    if "\<And>r. rel_oid (f r) = rel_oid r" for P f using that by (simp add: map_update_where)
  then show ?case by (simp add: all_oids_def flip: set_map)
qed (auto simp: wf_update_relations rel_ids_def ids_update_where simp del: set_update_where)

lemma alt_attribute:
  assumes "lasting G" and "rel \<in> R" and "\<And>c. G c \<Longrightarrow> b \<Longrightarrow> column_type c (cc_type_id column)"
  shows "body_spec (alt b low R G) (insert_attribute_row X rel column) (\<lambda>_. alt b low R G)"
  unfolding alt_def by (rule work_attribute [OF steady_rels assms(1) _ assms(3)]) (use assms(2) in auto)

lemma alt_sync:
  assumes ls: "lasting G"
  shows "body_spec (alt b low R G) (sync_catalog_column X rel n column name) (\<lambda>_. alt b low R G)"
proof -
  let ?H = "\<lambda>i c. G c \<and> (b \<longrightarrow> column_type c i)"
  have l: "lasting (?H i)" for i using ls by (intro lasting)
  have ty: "body_spec (alt b low R G) (ensure_type_id_for_duckdb_type X t) (\<lambda>i. alt b low R (?H i))" for t
    unfolding alt_def by (rule work_ensure_type [OF steady_rels ls])
  have ins: "body_spec (alt b low R (?H i)) (cbind (allocate_oid X) (\<lambda>oid. cexec X w (\<lambda>c. map_option (\<lambda>rows. c\<lparr>defaults := rows\<rparr>)
      (insert_default \<lparr>def_oid = oid, def_relid = rel, def_num = n, def_bin = e\<rparr> (defaults c))))) (\<lambda>_. alt b low R G)" for i w e
    unfolding alt_def
  proof (rule body_bind [OF work_allocate [OF steady_rels l]], rule body_exec)
    fix oid c d assume c: "work b low (\<lambda>c. R \<subseteq> rel_ids c) (?H i) [oid] c"
      and "map_option (\<lambda>rows. c\<lparr>defaults := rows\<rparr>) (insert_default \<lparr>def_oid = oid, def_relid = rel, def_num = n, def_bin = e\<rparr> (defaults c)) = Some d"
    then have d: "d = c\<lparr>defaults := defaults c @ [\<lparr>def_oid = oid, def_relid = rel, def_num = n, def_bin = e\<rparr>]\<rparr>"
      by (auto dest: default_oids.ins_appends)
    have "unused oid c" using workD(3) [OF c] by (simp add: pool_def)
    then have "wf_catalog d" unfolding d using workD(1) [OF c] by (intro wf_add_rows) simp_all
    moreover have "G d" using lastingD [OF ls, of c d] c by (simp add: work_def d)
    ultimately show "work b low (\<lambda>c. R \<subseteq> rel_ids c) G [] d"
      using c by (auto simp: work_def pool_def d rel_ids_def)
  qed
  show ?thesis
    unfolding sync_catalog_column_def
    by (rule body_bind [OF ty], rule body_bind [OF alt_update_column [OF l]], simp, simp, rule body_bind [OF alt_delete_default [OF l]],
        rule body_option, rule body_return, (erule alt_more; simp), rule ins)
qed

lemma alt_drop_mark: "lasting G \<Longrightarrow> body_spec (alt b low R G) (mark_column_dropped X rel n) (\<lambda>_. alt b low R G)"
  unfolding mark_column_dropped_def
  by (rule body_bind [OF alt_update_column alt_delete_default]) auto

lemma alt_rename: "lasting G \<Longrightarrow> body_spec (alt b low R G) (rename_catalog_column X rel n name) (\<lambda>_. alt b low R G)"
  unfolding rename_catalog_column_def by (rule alt_update_column) auto

lemma alt_exts: "lasting G \<Longrightarrow> body_spec (alt b low R G) (cexec X w (\<lambda>c. Some (c\<lparr>exts := update_where P f (exts c)\<rparr>))) (\<lambda>_. alt b low R G)"
  by (rule alt_change) (auto simp: rel_ids_def)

section \<open>Partitions\<close>

definition child_ids :: "active_partition_child list \<Rightarrow> int set" where
  "child_ids children = ap_child_oid ` set children"

lemma alt_children:
  "body_spec (alt b low R G) (active_partition_children X i) (\<lambda>children. alt b low (R \<union> child_ids children) G)"
  unfolding active_partition_children_def
proof (rule body_query)
  fix c assume c: "alt b low R G c"
  let ?ch = "map active_child (by_partition_order (joined_partitions c (\<lambda>p. par_parent p = i \<and> par_status p = ''active'')))"
  have "ap_child_oid ch \<in> rel_ids c" if "ch \<in> set ?ch" for ch
  proof -
    from that obtain p r n where "(p, r, n) \<in> set (joined_partitions c (\<lambda>p. par_parent p = i \<and> par_status p = ''active''))"
      and ch: "ch = active_child (p, r, n)" by (auto simp: by_partition_order_def)
    then have r: "r \<in> set (relations c)" "rel_oid r = par_child p" by (auto dest: joined_partitionD)
    then show ?thesis by (simp add: ch active_child_def rel_ids_def image_iff bexI [of _ r])
  qed
  then show "alt b low (R \<union> child_ids ?ch) G c" using c by (auto simp: alt_def work_def child_ids_def)
qed

lemma alt_dependency:
  assumes "lasting G" "i \<in> R" "j \<in> R"
  shows "body_spec (alt b low R G) (write_dependency X w (OBJECT_RELATION_KIND, i, 0, OBJECT_RELATION_KIND, j, 0) t) (\<lambda>_. alt b low R G)"
  unfolding alt_def
  by (rule work_write_dependency [OF steady_rels assms(1)]) (use assms in \<open>auto simp: dep_allowed_def dependency_row_def dest!: workD(4)\<close>)

lemma alt_refresh:
  assumes ls: "lasting G" and i: "i \<in> R"
  shows "body_spec (alt b low R G) (refresh_partition_entrypoint X i s r) (\<lambda>_. alt b low R G)"
proof -
  have build: "body_spec (alt b low R' G) (rebuild_partition_entrypoint X i sql) (\<lambda>_. alt b low R' G)" for R' sql
    unfolding rebuild_partition_entrypoint_def by (rule body_bind [OF alt_ddl alt_exts [OF ls]])
  have del: "body_spec (alt b low R' G) (cexec X w (\<lambda>c. Some (c\<lparr>depends := filter Q (depends c)\<rparr>))) (\<lambda>_. alt b low R' G)" for R' w Q
    by (rule alt_change [OF _ _ _ _ _ ls]) (auto intro!: sane_deps)
  have sync: "body_spec (alt b low (R \<union> child_ids children) G) (sync_partition_dependencies X i children) (\<lambda>_. alt b low R G)" for children
    unfolding sync_partition_dependencies_def
    by (rule body_conseq [OF body_bind [OF del body_foreach [OF alt_dependency [OF ls, where R = "R \<union> child_ids children"]]]])
      (use i in \<open>auto simp: child_ids_def intro: alt_more\<close>)
  show ?thesis
    unfolding refresh_partition_entrypoint_def
    by (rule body_bind [OF alt_children], rule body_bind [OF alt_read], intro ro, rule body_bind [OF build sync])
qed


section \<open>The operations\<close>

lemma alter_ro [ro]:
  "read_only (partition_key_name X i)" "read_only (child_column_attnum X ch cn)" "read_only (next_attribute_num X i)"
  "read_only (ensure_no_dependent_views X i s t cn w)" "read_only (column_attnum_list_contains X l n)"
  "read_only (ensure_column_can_drop X i n s t cn)" "read_only (drop_column_targets X i s t ns e)"
  unfolding partition_key_name_def child_column_attnum_def next_attribute_num_def ensure_no_dependent_views_def
    column_attnum_list_contains_def ensure_column_can_drop_def drop_column_targets_def dependent_relation_oids_def
  by (intro ro | simp)+

text \<open>A column the engine has shown, whose type is registered.\<close>

definition typed_col :: "bool \<Rightarrow> catalog_column option \<Rightarrow> catalog \<Rightarrow> bool" where
  "typed_col b p c \<longleftrightarrow> (b \<longrightarrow> (\<forall>col. p = Some col \<longrightarrow> column_type c (cc_type_id col)))"

lemma typed_col_simps [simp]: "typed_col b None c" "typed_col b (Some col) c \<longleftrightarrow> (b \<longrightarrow> column_type c (cc_type_id col))"
  by (simp_all add: typed_col_def)

lemma lasting_typed_col [lasting]: "lasting (typed_col b p)"
  unfolding typed_col_def lasting_def column_type_def by blast

lemma in_children: "ch \<in> set children \<Longrightarrow> ap_child_oid ch \<in> R \<union> child_ids children"
  by (simp add: child_ids_def)

lemma alt_add_child:
  assumes "ap_child_oid ch \<in> R"
  shows "body_spec (alt b low R (typed_col b p)) (add_child_column X sql n ch p) (\<lambda>q. alt b low R (typed_col b q))"
  unfolding add_child_column_def alter_child_def Let_def
proof (rule body_bind [OF alt_ddl], rule body_bind [OF alt_load [OF lasting_typed_col]], rule body_if, rule body_throw, goal_cases)
  case (1 u columns)
  then have l: "last columns \<in> set columns" by simp
  let ?G = "\<lambda>c. typed_col b p c \<and> (\<forall>col\<in>set columns. b \<longrightarrow> column_type c (cc_type_id col))"
  have ls: "lasting ?G" by (intro lasting)
  show ?case
    by (rule body_bind [OF alt_attribute [OF ls assms]], use l in simp, rule body_bind [OF alt_relnatts [OF ls]], rule body_return,
        erule alt_more) (use l in auto)
qed

lemma alt_add_partitioned:
  assumes i: "i \<in> R"
  shows "body_spec (alt b low R (\<lambda>_. True)) (alter_partitioned_table_add_column X i s t sql) (\<lambda>_. alt b low R (\<lambda>_. True))"
proof -
  have tail: "body_spec (alt b low (R \<union> S) (typed_col b (Some col))) (cbind (insert_attribute_row X i col) (\<lambda>_.
      cbind (set_relnatts_to_active_attribute_count X i) (\<lambda>_. refresh_partition_entrypoint X i s t))) (\<lambda>_. alt b low R (\<lambda>_. True))" for S col
  proof (rule body_conseq)
    show "body_spec (alt b low (R \<union> S) (typed_col b (Some col))) (cbind (insert_attribute_row X i col) (\<lambda>_.
      cbind (set_relnatts_to_active_attribute_count X i) (\<lambda>_. refresh_partition_entrypoint X i s t)))
      (\<lambda>_. alt b low (R \<union> S) (typed_col b (Some col)))"
      by (rule body_bind [OF alt_attribute [OF lasting_typed_col]], use i in simp, simp,
          rule body_bind [OF alt_relnatts [OF lasting_typed_col]], rule alt_refresh [OF lasting_typed_col]) (use i in simp)
  qed (auto intro: alt_more)
  have start: "alt b low R' (\<lambda>_. True) c \<Longrightarrow> alt b low R' (typed_col b None) c" for R' c by (erule alt_more) simp_all
  show ?thesis
    unfolding alter_partitioned_table_add_column_def
    by (rule body_bind [OF alt_children], rule body_if, rule body_throw, rule body_bind [OF alt_read], intro ro,
        rule body_bind, rule body_conseq [OF body_fold [where I = "\<lambda>q. alt b low (R \<union> child_ids children) (typed_col b q)" for children]],
        rule alt_add_child, erule in_children, erule start, assumption, rule body_option, rule body_throw, simp, rule tail)
qed

lemma find_column_in: "find_column n cs = Some col \<Longrightarrow> col \<in> set cs"
  unfolding find_column_def by (simp add: find_Some_iff2)

lemma alt_add_table:
  assumes i: "i \<in> R"
  shows "body_spec (alt b low R (\<lambda>_. True)) (add_table_column X i s t cd sql) (\<lambda>_. alt b low R (\<lambda>_. True))"
  unfolding add_table_column_def
proof (rule body_bind [OF alt_ddl], rule body_bind [OF alt_load [OF lasting_True]], rule body_option, rule body_throw, goal_cases)
  case (1 u columns col)
  let ?G = "\<lambda>c. True \<and> (\<forall>col\<in>set columns. b \<longrightarrow> column_type c (cc_type_id col))"
  have ls: "lasting ?G" by (intro lasting)
  show ?case
    by (rule body_bind [OF alt_read], intro ro, rule body_conseq [OF body_bind [OF alt_attribute [OF ls i] alt_relnatts [OF ls]]])
      (use find_column_in [OF 1] in \<open>auto intro: alt_more\<close>)
qed

lemma alt_drop_child:
  "body_spec (alt b low R (\<lambda>_. True)) (drop_child_columns X cs ch) (\<lambda>_. alt b low R (\<lambda>_. True))"
  unfolding drop_child_columns_def alter_child_def
  by (rule body_bind [OF body_foreach alt_relnatts [OF lasting_True]], rule body_prod, rule body_bind [OF alt_read], intro ro,
      rule body_bind [OF alt_ddl alt_drop_mark [OF lasting_True]])

lemma alt_drop_partitioned:
  assumes i: "i \<in> R"
  shows "body_spec (alt b low R (\<lambda>_. True)) (alter_partitioned_table_drop_columns X i s t cs) (\<lambda>_. alt b low R (\<lambda>_. True))"
proof -
  have check: "read_only (cforeach (\<lambda>(n, k). if eq_ignore_case n key then cthrow e else ensure_column_can_drop X i k s t n) cs)" for key e
    by (intro ro)
  have check: "read_only (cforeach (\<lambda>(n, k). if eq_ignore_case n key then cthrow (e n) else ensure_column_can_drop X i k s t n) cs)" for key e
    by (intro ro)
  have marks: "body_spec (alt b low R' (\<lambda>_. True)) (cforeach (\<lambda>(_, k). mark_column_dropped X i k) cs) (\<lambda>_. alt b low R' (\<lambda>_. True))" for R'
    by (rule body_foreach, rule body_prod, rule alt_drop_mark [OF lasting_True])
  have "body_spec (alt b low (R \<union> S) (\<lambda>_. True)) (cbind (cforeach (drop_child_columns X cs) children) (\<lambda>_.
       cbind (cforeach (\<lambda>(_, attnum). mark_column_dropped X i attnum) cs) (\<lambda>_.
       cbind (set_relnatts_to_active_attribute_count X i) (\<lambda>_.
       refresh_partition_entrypoint X i s t)))) (\<lambda>_. alt b low (R \<union> S) (\<lambda>_. True))" for S children
    by (rule body_bind [OF body_foreach [OF alt_drop_child]], rule body_bind [OF marks],
        rule body_bind [OF alt_relnatts [OF lasting_True] alt_refresh [OF lasting_True]]) (use i in simp)
  note tail = body_conseq [OF this _ alt_more]
  show ?thesis
    unfolding alter_partitioned_table_drop_columns_def
    by (rule body_bind [OF alt_read], intro ro, rule body_bind [OF alt_read], rule check, rule body_bind [OF alt_children],
        rule body_if, rule body_throw, rule tail) auto
qed

lemma alt_drop:
  assumes i: "i \<in> R"
  shows "body_spec (alt b low R (\<lambda>_. True)) (alter_table_drop_columns X i s t ns e) (\<lambda>_. alt b low R (\<lambda>_. True))"
proof -
  have one: "body_spec (alt b low R (\<lambda>_. True)) (drop_table_column X i s t q) (\<lambda>_. alt b low R (\<lambda>_. True))" for q
    unfolding drop_table_column_def
    by (rule body_prod, rule body_bind [OF alt_read], intro ro, rule body_bind [OF alt_ddl alt_drop_mark [OF lasting_True]])
  show ?thesis
    unfolding alter_table_drop_columns_def
    by (rule body_if, rule body_throw, rule body_bind [OF alt_read], intro ro, rule body_bind [OF alt_read], intro ro,
        rule body_if, rule body_return, assumption, rule body_if, rule alt_drop_partitioned [OF i], rule body_if, rule body_throw,
        rule body_bind [OF body_foreach [OF one] alt_relnatts [OF lasting_True]])
qed

lemma alt_duckdb_column:
  "body_spec (alt b low R (\<lambda>_. True)) (duckdb_column X s t n) (\<lambda>col. alt b low R (\<lambda>_. True))"
  unfolding duckdb_column_def
  by (rule body_bind [OF alt_load [OF lasting_True]], rule body_option, rule body_throw, rule body_return) (auto intro: alt_more)

lemma alt_sync_child:
  "body_spec (alt b low R (\<lambda>_. True)) (sync_child_column X w on nn sql ch) (\<lambda>_. alt b low R (\<lambda>_. True))"
  unfolding sync_child_column_def alter_child_def
  by (rule body_bind [OF alt_read], intro ro, rule body_bind [OF alt_ddl], rule body_bind [OF alt_duckdb_column],
      rule body_bind [OF alt_sync [OF lasting_True]], rule body_return)

lemma alt_rename_partitioned:
  assumes i: "i \<in> R"
  shows "body_spec (alt b low R (\<lambda>_. True)) (alter_partitioned_table_rename_column X i s t on nn k) (\<lambda>_. alt b low R (\<lambda>_. True))"
proof -
  have key: "body_spec (alt b low R' (\<lambda>_. True)) (if q then cexec X w (\<lambda>c. Some (c\<lparr>exts := update_where P f (exts c)\<rparr>)) else creturn ())
     (\<lambda>_. alt b low R' (\<lambda>_. True))" for R' q w P f
    by (rule body_if [OF alt_exts [OF lasting_True] body_return])
  have "body_spec (alt b low (R \<union> S) (\<lambda>_. True)) (cbind (cforeach (\<lambda>child. cbind (sync_child_column X w on nn sql child) (\<lambda>_. creturn ())) children) (\<lambda>_.
       cbind (rename_catalog_column X i k nn) (\<lambda>_. cbind (if q then cexec X w2 (\<lambda>c. Some (c\<lparr>exts := update_where P f (exts c)\<rparr>)) else creturn ()) (\<lambda>_.
       refresh_partition_entrypoint X i s t)))) (\<lambda>_. alt b low (R \<union> S) (\<lambda>_. True))" for S children w sql q w2 P f
    by (rule body_bind [OF body_foreach], rule body_bind [OF alt_sync_child], rule body_return, assumption,
        rule body_bind [OF alt_rename [OF lasting_True]], rule body_bind [OF key], rule alt_refresh [OF lasting_True]) (use i in simp)
  note tail = body_conseq [OF this _ alt_more]
  show ?thesis
    unfolding alter_partitioned_table_rename_column_def
    by (rule body_bind [OF alt_read], intro ro, rule body_bind [OF alt_children], rule body_if, rule body_throw, rule tail) auto
qed

lemma alt_set_type_partitioned:
  assumes i: "i \<in> R"
  shows "body_spec (alt b low R (\<lambda>_. True)) (alter_partitioned_table_set_column_type X i s t n k sql) (\<lambda>_. alt b low R (\<lambda>_. True))"
proof -
  have child: "body_spec (alt b low R' (\<lambda>_. True)) (set_child_type X n sql ch p) (\<lambda>_. alt b low R' (\<lambda>_. True))" for R' ch p
    unfolding set_child_type_def by (rule body_bind [OF alt_sync_child], rule body_return)
  have "body_spec (alt b low (R \<union> S) (\<lambda>_. True)) (cbind (cfold (set_child_type X n sql) children None) (\<lambda>p. case p of
         None \<Rightarrow> cthrow e
       | Some column \<Rightarrow> cbind (sync_catalog_column X i k column n) (\<lambda>_. refresh_partition_entrypoint X i s t)))
     (\<lambda>_. alt b low (R \<union> S) (\<lambda>_. True))" for S children e
    by (rule body_bind [OF body_fold [where I = "\<lambda>_. alt b low (R \<union> S) (\<lambda>_. True)", OF child]], rule body_option, rule body_throw,
        rule body_bind [OF alt_sync [OF lasting_True]], rule alt_refresh [OF lasting_True]) (use i in simp)
  note tail = body_conseq [OF this _ alt_more]
  show ?thesis
    unfolding alter_partitioned_table_set_column_type_def
    by (rule body_bind [OF alt_read], intro ro, rule body_if, rule body_throw, rule body_bind [OF alt_children], rule body_if,
        rule body_throw, rule tail) auto
qed

lemma alt_change_column:
  assumes i: "i \<in> R"
  shows "body_spec (alt b low R (\<lambda>_. True)) (alter_table_rename_column X i s t on nn sql) (\<lambda>_. alt b low R (\<lambda>_. True))"
    "body_spec (alt b low R (\<lambda>_. True)) (alter_table_set_column_type X i s t n op sql) (\<lambda>_. alt b low R (\<lambda>_. True))"
proof -
  show "body_spec (alt b low R (\<lambda>_. True)) (alter_table_rename_column X i s t on nn sql) (\<lambda>_. alt b low R (\<lambda>_. True))"
    unfolding alter_table_rename_column_def
    by (rule body_if, rule body_throw, rule body_bind [OF alt_read], intro ro, rule body_option, rule body_throw,
        rule body_bind [OF alt_read], intro ro, rule body_if, rule body_throw, rule body_bind [OF alt_read], intro ro,
        rule body_bind [OF alt_read], intro ro, rule body_if, rule body_bind [OF alt_ddl],
        rule body_bind [OF alt_duckdb_column], rule alt_sync [OF lasting_True], rule body_if,
        rule alt_rename_partitioned [OF i], rule body_throw)
  show "body_spec (alt b low R (\<lambda>_. True)) (alter_table_set_column_type X i s t n op sql) (\<lambda>_. alt b low R (\<lambda>_. True))"
    unfolding alter_table_set_column_type_def
    by (rule body_bind [OF alt_read], intro ro, rule body_option, rule body_throw, rule body_bind [OF alt_read], intro ro,
        rule body_bind [OF alt_read], intro ro, rule body_if, rule body_bind [OF alt_ddl],
        rule body_bind [OF alt_duckdb_column], rule alt_sync [OF lasting_True], rule body_if,
        rule alt_set_type_partitioned [OF i], rule body_throw)
qed

section \<open>The contract\<close>

lemma fine_alt: "fine b X c \<Longrightarrow> R \<subseteq> rel_ids c \<Longrightarrow> alt b (x_lower X) R (\<lambda>_. True) c"
  unfolding alt_def by (rule fine_work)

lemma alt_finish: "body_spec (alt b (x_lower X) R (\<lambda>_. True)) (cbind (finish_journal X j) (\<lambda>_. creturn v)) (\<lambda>_. fine b X)"
  unfolding alt_def by (rule body_conseq [OF work_end [OF steady_rels lasting_True]]) auto

lemma alt_relation_oid:
  "body_spec (fine b X) (relation_oid X s t) (\<lambda>i. alt b (x_lower X) {i} (\<lambda>_. True))"
  by (rule body_conseq [OF work_relation_oid [where F = "\<lambda>_. True" and G = "\<lambda>_. True" and S = "[]"]])
    (simp_all add: alt_def fine_work)

lemma altering_careful:
  assumes "\<And>i. body_spec (alt b (x_lower X) {i} (\<lambda>_. True)) (operation i) (\<lambda>_. alt b (x_lower X) {i} (\<lambda>_. True))"
  shows "body_spec (fine b X) (altering X m s t sql operation) (\<lambda>_. fine b X)"
  unfolding altering_def
  by (rule body_bind [OF alt_relation_oid], rule body_bind [OF alt_journal [OF lasting_True]], rule body_bind [OF assms alt_finish])

lemma alt_fine: "alt b (x_lower X) R G c \<Longrightarrow> good (x_fmt X) c \<Longrightarrow> fine b X c"
  by (simp add: alt_def work_def fine_def)

lemma add_column_careful: "body_spec (fine b X) (add_column_body X s t e cd sql) (\<lambda>_. fine b X)"
proof -
  let ?A = "\<lambda>i. alt b (x_lower X) {i} (\<lambda>_. True)"
  have oid: "body_spec (fine b X) (relation_oid X s t) (\<lambda>i c. ?A i c \<and> fine b X c)"
    by (rule body_conj [OF alt_relation_oid body_read_only]) (intro ro)
  have keep: "body_spec (\<lambda>c. ?A i c \<and> fine b X c) m (\<lambda>_ c. ?A i c \<and> fine b X c)" if "read_only m" for i and m :: "('a, 'v) db"
    by (rule body_read_only [OF that])
  have drop: "body_spec (?A i) m Q \<Longrightarrow> body_spec (\<lambda>c. ?A i c \<and> fine b X c) m Q" for i and m :: "('a, 'v) db" and Q
    by (erule body_conseq) auto
  show ?thesis
    unfolding add_column_body_def
    by (rule body_bind [OF oid], rule body_bind [OF keep], intro ro, rule body_bind [OF keep], intro ro, rule body_if, rule body_if,
        rule body_return, blast, rule body_throw, rule drop, rule body_bind [OF alt_journal [OF lasting_True]], rule body_if,
        rule body_bind [OF alt_add_partitioned alt_finish], blast, rule body_if, rule body_throw,
        rule body_bind [OF alt_add_table alt_finish], blast)
qed

lemma alter_careful:
  "body_spec (fine b X) (altering X m s t sql (\<lambda>i. alter_table_drop_columns X i s t ns e)) (\<lambda>_. fine b X)"
  "body_spec (fine b X) (altering X m s t sql (\<lambda>i. alter_table_rename_column X i s t on nn sql)) (\<lambda>_. fine b X)"
  "body_spec (fine b X) (altering X m s t sql (\<lambda>i. alter_table_set_column_type X i s t n op sql)) (\<lambda>_. fine b X)"
  by (rule altering_careful, (rule alt_drop alt_change_column)+, simp)+

lemma alter_operation_tx:
  fixes X :: "'p external"
  shows "atomic X (alter_table_operation X s t op sql)" "keeping (fine True X) (alter_table_operation X s t op sql)"
  unfolding alter_table_operation_def
  by (cases op; simp; intro conjI impI atomic_rules keeping_rules atomic_read_bind ro careful_tx add_column_careful alter_careful)+

lemma alter_table_tx:
  fixes X :: "'p external"
  shows "atomic X (alter_table_relation X at sql)" "keeping (fine True X) (alter_table_relation X at sql)"
proof -
  have one: "atomic X (case ops of [op] \<Rightarrow> alter_table_operation X s t op sql | _ \<Rightarrow> cthrow e)"
    "keeping (fine True X) (case ops of [op] \<Rightarrow> alter_table_operation X s t op sql | _ \<Rightarrow> cthrow e)" for ops s t e
    by (cases ops rule: remdups_adj.cases; simp add: alter_operation_tx atomic_throw keeping_basic)+
  show "atomic X (alter_table_relation X at sql)" "keeping (fine True X) (alter_table_relation X at sql)"
    unfolding alter_table_relation_def
    by (intro atomic_rules keeping_rules atomic_read_bind ro one)+
qed

interpretation alter_op: relation_operation X "alter_table_relation X at sql" for X at sql
  by (rule relation_operationI [OF alter_table_tx])

end
