(* ===== verification/Drop_Column.thy ===== *)
theory Drop_Column
  imports Alter_Ops
begin

text \<open>
  What ALTER TABLE DROP COLUMN removes: a column goes only when no constraint, no foreign key of another table and no index
  uses it, on an ordinary table and on a partitioned one.
\<close>

section \<open>What an operation leaves alone\<close>

text \<open>\<open>leaves f m\<close>: whatever \<open>m\<close> does, it leaves what \<open>f\<close> shows of the catalog.\<close>

definition leaves :: "(catalog \<Rightarrow> 'b) \<Rightarrow> ('p, 'a) db \<Rightarrow> bool" where
  "leaves f m \<longleftrightarrow> (\<forall>k. body_spec (\<lambda>d. f d = k) m (\<lambda>_ d. f d = k))"

lemma leavesD: "leaves f m \<Longrightarrow> body_spec (\<lambda>d. f d = k) m (\<lambda>_ d. f d = k)"
  by (simp add: leaves_def)

lemma leaves_bind: "leaves f m \<Longrightarrow> (\<And>v. leaves f (g v)) \<Longrightarrow> leaves f (cbind m g)"
  unfolding leaves_def by (blast intro: body_bind)

lemma leaves_foreach: "(\<And>x. leaves f (g x)) \<Longrightarrow> leaves f (cforeach g xs)"
  unfolding leaves_def by (blast intro: body_foreach)

lemma leaves_prod: "(\<And>a b. leaves f (g a b)) \<Longrightarrow> leaves f (case v of (a, b) \<Rightarrow> g a b)"
  by (cases v) simp

lemma leaves_read: "read_only m \<Longrightarrow> leaves f m"
  by (simp add: leaves_def body_read_only)

lemma leaves_ddl: "leaves f (cddl X w sql)"
  by (simp add: leaves_def sp_ddl)

lemma leaves_exec: "(\<And>c d. g c = Some d \<Longrightarrow> f d = f c) \<Longrightarrow> leaves f (cexec X w g)"
  by (auto simp: leaves_def intro!: body_exec)

lemmas leaves_rules = leaves_bind leaves_foreach leaves_prod leaves_ddl leaves_exec

text \<open>The columns used by constraints, foreign keys and indexes.\<close>

definition users_of_columns :: "catalog \<Rightarrow> rs_constraint list \<times> rs_index list" where
  "users_of_columns c = (constraints c, indexes c)"

definition column_free :: "catalog \<Rightarrow> int \<Rightarrow> int \<Rightarrow> bool" where
  "column_free c i k \<longleftrightarrow> (\<forall>q\<in>set (constraints c). (con_relid q = i \<longrightarrow> \<not> listed_attnum k (con_key q))
       \<and> (con_frelid q = i \<longrightarrow> \<not> listed_attnum k (con_fkey q)))
     \<and> (\<forall>x\<in>set (indexes c). idx_indrelid x = i \<longrightarrow> \<not> listed_attnum k (idx_key x))"

definition column_gone :: "int \<Rightarrow> int \<Rightarrow> catalog \<Rightarrow> bool" where
  "column_gone i k c \<longleftrightarrow> (\<forall>a\<in>set (cols c). column_at i k a \<longrightarrow> att_isdropped a)"

lemma column_free_same: "users_of_columns d = users_of_columns c \<Longrightarrow> column_free d = column_free c"
  by (simp add: users_of_columns_def column_free_def fun_eq_iff)

lemma body_foreach_all:
  assumes "\<And>x. x \<in> set xs \<Longrightarrow> body_spec I (f x) (\<lambda>_ d. I d \<and> P x d)"
    and "\<And>x y. x \<in> set xs \<Longrightarrow> body_spec (\<lambda>d. I d \<and> P y d) (f x) (\<lambda>_ d. I d \<and> P y d)"
  shows "body_spec I (cforeach f xs) (\<lambda>_ d. I d \<and> (\<forall>x\<in>set xs. P x d))"
  using assms
proof (induction xs)
  case (Cons x xs)
  have keep: "body_spec (\<lambda>d. I d \<and> P x d) (cforeach f xs) (\<lambda>_ d. I d \<and> P x d)"
    by (rule body_foreach) (use Cons.prems(2) in simp)
  have rest: "body_spec I (cforeach f xs) (\<lambda>_ d. I d \<and> (\<forall>x\<in>set xs. P x d))"
    by (rule Cons.IH) (use Cons.prems in simp_all)
  have "body_spec (\<lambda>d. I d \<and> P x d) (cforeach f xs) (\<lambda>_ d. (I d \<and> P x d) \<and> (I d \<and> (\<forall>x\<in>set xs. P x d)))"
    by (rule body_conj [OF keep body_conseq [OF rest]]) simp_all
  then have "body_spec (\<lambda>d. I d \<and> P x d) (cforeach f xs) (\<lambda>_ d. I d \<and> (\<forall>y\<in>set (x # xs). P y d))"
    by (rule body_conseq) auto
  moreover have "body_spec I (f x) (\<lambda>_ d. I d \<and> P x d)" using Cons.prems(1) by simp
  ultimately show ?case unfolding cforeach.simps by (rule body_bind [rotated])
qed (simp add: body_return)

lemma ball_update_where: "(\<forall>a\<in>set (update_where P f xs). Q a) \<longleftrightarrow> (\<forall>a\<in>set xs. if P a then Q (f a) else Q a)"
  by (induction xs) (simp_all add: update_where_def)

lemma gone_update:
  "column_gone i k (update_column i k (\<lambda>a. a\<lparr>att_isdropped := True, att_hasdef := False\<rparr>) c)"
  "column_gone j n c \<Longrightarrow> column_gone j n (update_column i k (\<lambda>a. a\<lparr>att_isdropped := True, att_hasdef := False\<rparr>) c)"
  unfolding column_gone_def update_column_def
  by (auto simp: column_at_def ball_update_where simp del: set_update_where)

lemma users_update [simp]: "users_of_columns (update_column i k f c) = users_of_columns c"
  "users_of_columns (delete_default i k c) = users_of_columns c"
  "column_gone j n (delete_default i k c) = column_gone j n c"
  by (simp_all add: users_of_columns_def update_column_def delete_default_def column_gone_def)

lemma mark_gone:
  "body_spec (\<lambda>d. users_of_columns d = U) (mark_column_dropped X i k) (\<lambda>_ d. users_of_columns d = U \<and> column_gone i k d)"
  "body_spec (\<lambda>d. users_of_columns d = U \<and> column_gone j n d) (mark_column_dropped X i k) (\<lambda>_ d. users_of_columns d = U \<and> column_gone j n d)"
  unfolding mark_column_dropped_def
  by (rule body_bind [where R = "\<lambda>_ d. users_of_columns d = U \<and> column_gone i k d", OF body_exec body_exec], auto intro: gone_update,
      rule body_bind [where R = "\<lambda>_ d. users_of_columns d = U \<and> column_gone j n d", OF body_exec body_exec], auto intro: gone_update)

lemma can_drop:
  "body_spec (\<lambda>d. users_of_columns d = users_of_columns c \<and> Q d) (ensure_column_can_drop X i k s t n)
     (\<lambda>_ d. (users_of_columns d = users_of_columns c \<and> Q d) \<and> column_free c i k)"
  unfolding ensure_column_can_drop_def column_attnum_list_contains_def
  by (rule body_bind [OF sp_query], rule body_if, rule body_throw, rule body_bind [OF sp_query], rule body_if, rule body_throw,
      rule body_bind [OF sp_query], rule body_if, rule body_throw, rule body_return)
    (auto simp: users_of_columns_def column_free_def list_ex_iff)

lemma sp_targets:
  fixes X :: "'p external"
  shows "body_spec (\<lambda>d. users_of_columns d = U \<and> cols d = cols c) (drop_column_targets X i s t ns e)
     (\<lambda>cs d. (users_of_columns d = U \<and> cols d = cols c) \<and> (\<forall>n\<in>set ns. case first_of (column_rows (x_lower X) c i n) of
         None \<Rightarrow> e | Some a \<Rightarrow> att_num a \<in> snd ` set cs))"
proof -
  let ?I = "\<lambda>d. users_of_columns d = U \<and> cols d = cols c"
  let ?R = "\<lambda>n. first_of (column_rows (x_lower X) c i n)"
  define step where "step n cs = cbind (column_attnum X i n) (\<lambda>found. case found of
         Some attnum \<Rightarrow> creturn (cs @ [(n, attnum)])
       | None \<Rightarrow> if e then creturn cs else cthrow (ECol (AlterColumnMissing s t n)))" for n :: string and cs
  have one: "body_spec ?I (step n cs) (\<lambda>cs' d. ?I d \<and> set cs \<subseteq> set cs' \<and> (case ?R n of None \<Rightarrow> e | Some a \<Rightarrow> att_num a \<in> snd ` set cs'))" for n cs
  proof -
    have "body_spec ?I (column_attnum X i n) (\<lambda>v d. ?I d \<and> v = map_option att_num (?R n))"
      unfolding column_attnum_def by (rule body_query) (simp add: column_rows_def)
    then show ?thesis
      unfolding step_def
      by (rule body_bind, intro body_pure body_option body_if body_return body_throw) (auto split: option.splits)
  qed
  have "body_spec ?I (cfold step ns cs) (\<lambda>cs' d. ?I d \<and> set cs \<subseteq> set cs' \<and> (\<forall>n\<in>set ns. case ?R n of None \<Rightarrow> e | Some a \<Rightarrow> att_num a \<in> snd ` set cs'))" for cs
  proof (induction ns arbitrary: cs)
    case (Cons n ns)
    have "body_spec (\<lambda>d. ?I d \<and> set cs \<subseteq> set cs' \<and> (case ?R n of None \<Rightarrow> e | Some a \<Rightarrow> att_num a \<in> snd ` set cs')) (cfold step ns cs')
        (\<lambda>cs'' d. ?I d \<and> set cs \<subseteq> set cs'' \<and> (\<forall>n\<in>set (n # ns). case ?R n of None \<Rightarrow> e | Some a \<Rightarrow> att_num a \<in> snd ` set cs''))" for cs'
      unfolding conj_assoc [symmetric]
      by (rule body_pure, rule body_pure, rule body_post [OF Cons.IH]) (auto split: option.splits)
    then show ?case by (auto intro: body_bind [OF one])
  qed (auto intro: body_return)
  from this [of "[]"] show ?thesis
    unfolding drop_column_targets_def step_def by (rule body_conseq) auto
qed

definition column_dropped :: "catalog \<Rightarrow> int \<Rightarrow> int \<Rightarrow> catalog \<Rightarrow> bool" where
  "column_dropped c i k d \<longleftrightarrow> column_gone i k d \<and> column_free d i k"

lemma leaves_mark: "leaves users_of_columns (mark_column_dropped X i k)"
  unfolding mark_column_dropped_def by (intro leaves_rules) auto

lemma leaves_relnatts: "leaves (\<lambda>c. (users_of_columns c, cols c)) (set_relnatts_to_active_attribute_count X i)"
  unfolding set_relnatts_to_active_attribute_count_def by (intro leaves_rules leaves_read ro) (auto simp: users_of_columns_def)

lemma leaves_refresh: "leaves (\<lambda>c. (users_of_columns c, cols c)) (refresh_partition_entrypoint X i s r)"
  unfolding refresh_partition_entrypoint_def rebuild_partition_entrypoint_def sync_partition_dependencies_def write_dependency_def
  by (rule leaves_bind [OF leaves_read], intro ro, rule leaves_bind [OF leaves_read], intro ro, rule leaves_bind,
      rule leaves_bind [OF leaves_ddl leaves_exec], simp add: users_of_columns_def, rule leaves_bind [OF leaves_exec leaves_foreach],
      simp add: users_of_columns_def, rule leaves_exec) (auto simp: users_of_columns_def)

lemma leaves_users: "leaves (\<lambda>c. (users_of_columns c, cols c)) m \<Longrightarrow> leaves users_of_columns m"
proof -
  assume l: "leaves (\<lambda>c. (users_of_columns c, cols c)) m"
  have "body_spec (\<lambda>d. users_of_columns d = k) m (\<lambda>_ d. users_of_columns d = k)" for k
  proof (rule body_specI)
    fix s r s' assume a: "users_of_columns (cat s) = k" and m: "m s = (r, s')"
    show "saved s' = saved s \<and> (\<forall>v. r = Inr v \<longrightarrow> users_of_columns (cat s') = k)"
      using body_specD [OF leavesD [OF l] refl m] a by simp
  qed
  then show ?thesis by (simp add: leaves_def)
qed

lemma leaves_drop_child: "leaves users_of_columns (drop_child_columns X cs ch)"
  unfolding drop_child_columns_def alter_child_def
  by (rule leaves_bind, rule leaves_foreach, rule leaves_prod, rule leaves_bind, rule leaves_read, intro ro,
      rule leaves_bind [OF leaves_ddl leaves_mark], rule leaves_users [OF leaves_relnatts])

lemma keep_dropped:
  assumes "leaves (\<lambda>c. (users_of_columns c, cols c)) m"
  shows "body_spec (\<lambda>d. users_of_columns d = U \<and> (\<forall>q\<in>S. column_gone i (f q) d)) m
    (\<lambda>_ d. users_of_columns d = U \<and> (\<forall>q\<in>S. column_gone i (f q) d))"
proof (rule body_specI)
  fix s r s' assume a: "users_of_columns (cat s) = U \<and> (\<forall>q\<in>S. column_gone i (f q) (cat s))" and m: "m s = (r, s')"
  show "saved s' = saved s \<and> (\<forall>v. r = Inr v \<longrightarrow> users_of_columns (cat s') = U \<and> (\<forall>q\<in>S. column_gone i (f q) (cat s')))"
    using body_specD [OF leavesD [OF assms] refl m] a by (simp add: column_gone_def)
qed

lemma drop_columns_ordinary:
  "body_spec (\<lambda>d. users_of_columns d = users_of_columns c)
     (cbind (cforeach (drop_table_column X i s t) cs) (\<lambda>_. set_relnatts_to_active_attribute_count X i))
     (\<lambda>_ d. users_of_columns d = users_of_columns c \<and> (\<forall>q\<in>set cs. column_gone i (snd q) d \<and> column_free c i (snd q)))"
proof -
  let ?I = "\<lambda>d. users_of_columns d = users_of_columns c"
  let ?P = "\<lambda>q d. column_gone i (snd q) d \<and> column_free c i (snd q)"
  have one: "body_spec ?I (drop_table_column X i s t q) (\<lambda>_ d. ?I d \<and> ?P q d)" for q
    unfolding drop_table_column_def
    by (rule body_prod, rule body_bind [where R = "\<lambda>_ d. ?I d \<and> column_free c i (snd q)"],
        rule body_conseq [OF can_drop [where c = c and Q = "\<lambda>_. True"]], simp, simp, rule body_pure,
        rule body_bind [OF sp_ddl], rule body_post [OF mark_gone(1)], simp)
  have keep: "body_spec (\<lambda>d. ?I d \<and> ?P q' d) (drop_table_column X i s t q) (\<lambda>_ d. ?I d \<and> ?P q' d)" for q q'
    unfolding drop_table_column_def conj_assoc [symmetric]
    by (rule body_prod, rule body_pure, rule body_bind [OF body_read_only], intro ro, rule body_bind, rule body_ddl, assumption,
        rule body_post [OF mark_gone(2)]) auto
  show ?thesis
    by (rule body_bind [OF body_foreach_all [OF one keep]],
        rule body_conseq [where A' = "\<lambda>d. (?I d \<and> (\<forall>q\<in>set cs. column_gone i (snd q) d)) \<and> (\<forall>q\<in>set cs. column_free c i (snd q))"],
        rule body_pure, rule body_post [OF keep_dropped [OF leaves_relnatts]]) auto
qed

lemma drop_columns_partitioned:
  "body_spec (\<lambda>d. users_of_columns d = users_of_columns c) (alter_partitioned_table_drop_columns X i s t cs)
     (\<lambda>_ d. users_of_columns d = users_of_columns c \<and> (\<forall>q\<in>set cs. column_gone i (snd q) d \<and> column_free c i (snd q)))"
proof -
  let ?I = "\<lambda>d. users_of_columns d = users_of_columns c"
  have check: "body_spec ?I (if eq_ignore_case n key then cthrow e else ensure_column_can_drop X i k s t n)
      (\<lambda>_ d. ?I d \<and> column_free c i k)" for n k key e
    by (rule body_if, rule body_throw, rule body_conseq [OF can_drop [where c = c and Q = "\<lambda>_. True"]]) simp_all
  have keep: "body_spec A (if eq_ignore_case n key then cthrow e else ensure_column_can_drop X i k s t n) (\<lambda>_. A)" for n k key e A
    by (rule body_if, rule body_throw, rule body_read_only, intro ro)
  have checks: "body_spec ?I (cforeach (\<lambda>(n, k). if eq_ignore_case n key then cthrow (e n) else ensure_column_can_drop X i k s t n) cs)
      (\<lambda>_ d. ?I d \<and> (\<forall>q\<in>set cs. column_free c i (snd q)))" for key e
    by (rule body_foreach_all [where P = "\<lambda>q _. column_free c i (snd q)"]; rule body_prod, simp add: check keep)
  have marks: "body_spec ?I (cforeach (\<lambda>(_, k). mark_column_dropped X i k) cs) (\<lambda>_ d. ?I d \<and> (\<forall>q\<in>set cs. column_gone i (snd q) d))"
    by (rule body_foreach_all; rule body_prod, simp add: mark_gone)
  have children: "body_spec ?I (cforeach (drop_child_columns X cs) chs) (\<lambda>_. ?I)" for chs
    by (rule body_foreach, rule leavesD [OF leaves_drop_child])
  show ?thesis
    unfolding alter_partitioned_table_drop_columns_def
    by (rule body_bind [OF body_read_only], intro ro, rule body_bind [OF checks], rule body_pure, rule body_bind [OF body_read_only], intro ro,
        rule body_if, rule body_throw, rule body_bind [OF children], rule body_bind [OF marks],
        rule body_bind [OF keep_dropped [OF leaves_relnatts]], rule body_post [OF keep_dropped [OF leaves_refresh]]) simp
qed

lemma drop_columns_spec:
  "body_spec (\<lambda>d. users_of_columns d = users_of_columns c \<and> cols d = cols c) (alter_table_drop_columns X i s t ns e)
     (\<lambda>_ d. users_of_columns d = users_of_columns c \<and> (\<forall>n\<in>set ns. case first_of (column_rows (x_lower X) c i n) of
        None \<Rightarrow> e | Some a \<Rightarrow> column_gone i (att_num a) d \<and> column_free c i (att_num a)))"
proof -
  let ?I = "\<lambda>d. users_of_columns d = users_of_columns c"
  define T where "T cs \<longleftrightarrow> (\<forall>n\<in>set ns. case first_of (column_rows (x_lower X) c i n) of None \<Rightarrow> e | Some a \<Rightarrow> att_num a \<in> snd ` set cs)" for cs :: "(string \<times> int) list"
  have fin: "\<forall>n\<in>set ns. case first_of (column_rows (x_lower X) c i n) of
        None \<Rightarrow> e | Some a \<Rightarrow> column_gone i (att_num a) d \<and> column_free c i (att_num a)"
    if "T cs" "\<forall>q\<in>set cs. column_gone i (snd q) d \<and> column_free c i (snd q)" for cs d
    using that unfolding T_def by (fastforce split: option.splits)
  have targets: "body_spec (\<lambda>d. ?I d \<and> cols d = cols c) (drop_column_targets X i s t ns e) (\<lambda>cs d. ?I d \<and> T cs)"
    by (rule body_post [OF sp_targets]) (simp add: T_def)
  show ?thesis
    unfolding alter_table_drop_columns_def
    by (rule body_if, rule body_throw, rule body_bind [OF body_read_only], intro ro, rule body_bind [OF targets], rule body_pure,
        rule body_if, rule body_return, simp, drule fin, simp, assumption,
        rule body_if, rule body_post [OF drop_columns_partitioned], elim conjE, rule conjI, assumption, rule fin, assumption+,
        rule body_if, rule body_throw, rule body_post [OF drop_columns_ordinary], elim conjE, rule conjI, assumption, rule fin, assumption+)
qed


section \<open>Properties\<close>

text \<open>The named columns of a table in \<open>c\<close> are gone in \<open>d\<close>.\<close>

definition columns_dropped :: "(string \<Rightarrow> string) \<Rightarrow> catalog \<Rightarrow> bool \<Rightarrow> string list \<Rightarrow> int \<Rightarrow> catalog \<Rightarrow> bool" where
  "columns_dropped low c if_exists names i d \<longleftrightarrow> (\<forall>name\<in>set names. case first_of (column_rows low c i name) of
     None \<Rightarrow> if_exists | Some a \<Rightarrow> column_gone i (att_num a) d \<and> column_free d i (att_num a))"

lemma close_journal_columns [simp]:
  "users_of_columns (close_journal F j d) = users_of_columns d" "column_gone i k (close_journal F j d) = column_gone i k d"
  by (simp_all add: users_of_columns_def column_gone_def close_journal_def bump_def seal_def update_version_def)

lemma drop_columns_body:
  "body_spec (\<lambda>d. d = c) (altering X m s t sql (\<lambda>i. alter_table_drop_columns X i s t names if_exists))
     (\<lambda>_ d. \<exists>r. active_relation (x_lower X) c s t = Some r \<and> columns_dropped (x_lower X) c if_exists names (rel_oid r) d)"
proof -
  let ?I = "\<lambda>d. users_of_columns d = users_of_columns c"
  let ?K = "\<lambda>i. map_option rel_oid (active_relation (x_lower X) c s t) = Some i"
  let ?G = "\<lambda>i d. \<forall>n\<in>set names. case first_of (column_rows (x_lower X) c i n) of
     None \<Rightarrow> if_exists | Some a \<Rightarrow> column_gone i (att_num a) d \<and> column_free c i (att_num a)"
  have oid: "body_spec (\<lambda>d. d = c) (relation_oid X s t) (\<lambda>i d. d = c \<and> ?K i)"
    by (rule body_post [OF sp_relation_oid]) auto
  have journal: "body_spec (\<lambda>d. d = c) (insert_journal X m i sql) (\<lambda>_ d. ?I d \<and> cols d = cols c)" for i
    by (rule body_post [OF sp_insert_journal]) (auto simp: open_journal_def users_of_columns_def)
  have finish: "body_spec (\<lambda>d. ?I d \<and> ?G i d) (finish_journal X j) (\<lambda>_ d. ?I d \<and> ?G i d)" for i j
    by (rule body_post [OF sp_finish_journal]) (auto split: option.splits)
  have final: "\<exists>r. active_relation (x_lower X) c s t = Some r \<and> columns_dropped (x_lower X) c if_exists names (rel_oid r) d"
    if k: "?K i" and u: "?I d" and g: "?G i d" for i d
  proof -
    obtain r where r: "active_relation (x_lower X) c s t = Some r" "rel_oid r = i"
      using k unfolding map_option_eq_Some by blast
    show ?thesis using g unfolding columns_dropped_def column_free_same [OF u] r(2) [symmetric] using r(1) by blast
  qed
  show ?thesis
    unfolding altering_def
    by (rule body_bind [OF oid], rule body_pure, rule body_bind [OF journal], rule body_bind [OF drop_columns_spec],
        rule body_bind [OF finish], rule body_return, elim conjE, rule final)
qed


text \<open>C7: Any number of ALTER TABLE statements, whatever fails in them, keeps the committed catalog well formed and
  sealed, and keeps the integrity checks of the next start passing.\<close>

theorem alter_keeps_the_checks:
  assumes "good (x_fmt X) (catalog_of s)" and "sane (x_lower X) (catalog_of s)"
  shows "let d = catalog_of (((\<lambda>t. snd (alter_table_relation X at sql t)) ^^ n) s)
    in good (x_fmt X) d \<and> sane (x_lower X) d \<and> integral (x_lower X) d"
  using alter_op.repeat_fine [of X s n at sql] assms by (simp add: fine_def sane_def Let_def)

section \<open>Witnesses\<close>

abbreviation drop_id :: alter_table where
  "drop_id \<equiv> \<lparr>at_name = [Identifier ''people''], at_operations = [DropColumn [''id''] True False]\<rparr>"


theorem alter_keeps_the_checks_witness:
  "integral to_lower (catalog_of (((\<lambda>t. snd (alter_table_relation sample drop_id [] t)) ^^ 3) start_world))"
  using alter_keeps_the_checks [OF good_start(1,2), of 3 drop_id "[]"] by (simp add: Let_def)

end
