(* ===== verification/Executor.thy ===== *)
theory Executor
  imports Accounts Drop_Column Sql_Route
begin

text \<open>
  The statement executor: \<^verbatim>\<open>src/catalog/mutation/executor.rs\<close>, the management calls of
  \<^verbatim>\<open>src/catalog/guard.rs\<close>, and the guarded half of \<^verbatim>\<open>execute_typed_sql_blocking\<close> in
  \<^verbatim>\<open>src/db/execute.rs\<close>. Every catalog operation of the development is reached from here. Main results: every catalog
  statement is atomic, so every catalog the server can reach is well formed and sealed by its checksum; no statement
  that the access control denies changes anything.
\<close>

section \<open>Dispatch\<close>

definition execute_catalog_management_call ::
    "'p external \<Rightarrow> session_principal \<Rightarrow> management_call \<Rightarrow> string \<Rightarrow> ('p, nat) db" where
  "execute_catalog_management_call X p call sql =
     cbind (require_system_action X p ''manage_catalog'') (\<lambda>_.
     if mc_name call = ''rsduck_run_partition_maintenance'' then
       (if mc_args call \<noteq> [] then cthrow (ECall CallTakesNoArguments) else run_partition_maintenance X sql)
     else if mc_name call = ''rsduck_mark_partition_unavailable'' then
       (case mc_args call of
          [relation, partition_value, reason] \<Rightarrow>
            (case relation_from_token relation of
               None \<Rightarrow> cthrow (ECall (CallBadRelation relation))
             | Some (schema, table) \<Rightarrow> mark_partition_unavailable X schema table partition_value reason sql)
        | _ \<Rightarrow> cthrow (ECall CallMarkArguments))
     else if mc_name call = ''rsduck_repair_partition'' then
       (case mc_args call of
          [relation, partition_value] \<Rightarrow>
            (case relation_from_token relation of
               None \<Rightarrow> cthrow (ECall (CallBadRelation relation))
             | Some (schema, table) \<Rightarrow> repair_partition X schema table partition_value sql)
        | _ \<Rightarrow> cthrow (ECall CallRepairArguments))
     else cthrow (ECall (CallUnsupported (mc_name call))))"

text \<open>The number of rows, or None when the statement is left to the engine.\<close>

definition counted :: "('p, nat) db \<Rightarrow> ('p, nat option) db" where
  "counted m = cbind m (\<lambda>n. creturn (Some n))"

definition execute_catalog_statement :: "'p external \<Rightarrow> statement \<Rightarrow> string \<Rightarrow> int \<Rightarrow> ('p, nat option) db" where
  "execute_catalog_statement X statement sql owner_user_id = (case statement of
       Create (CreateSchema schema_name if_not_exists) \<Rightarrow> counted (create_schema X schema_name if_not_exists owner_user_id)
     | Create (CreateUser cu) \<Rightarrow> counted (create_user_account X cu sql owner_user_id)
     | Create (CreateRole cr) \<Rightarrow> counted (create_role_account X cr sql owner_user_id)
     | Alter (AlterUser au) \<Rightarrow> counted (alter_user_account X au sql owner_user_id)
     | Create (CreateTable ct) \<Rightarrow> counted (create_table_relation X ct sql owner_user_id)
     | Create (CreateView cv) \<Rightarrow> counted (create_view_relation X cv sql owner_user_id)
     | Create (CreateIndex ci) \<Rightarrow> counted (create_index_relation X ci sql owner_user_id)
     | Alter (AlterTable at) \<Rightarrow> counted (alter_table_relation X at sql)
     | Drop (DropObjects ot if_exists names cascade table) \<Rightarrow> counted (drop_objects X ot if_exists names cascade table sql)
     | Comment ty name comment if_exists \<Rightarrow> counted (comment_object X ty name comment if_exists sql)
     | Insert ins \<Rightarrow> cbind (insert_partitioned_relation X ins sql) (\<lambda>affected.
         creturn (if affected = 0 then None else Some affected))
     | Grant g \<Rightarrow> counted (grant_privileges X g sql owner_user_id)
     | Revoke g \<Rightarrow> counted (revoke_privileges X g sql)
     | Alter AlterSchema \<Rightarrow> cthrow (EStart (StatementNotImplemented (statement_command statement)))
     | Alter AlterIndex \<Rightarrow> cthrow (EStart (StatementNotImplemented (statement_command statement)))
     | Alter AlterView \<Rightarrow> cthrow (EStart (StatementNotImplemented (statement_command statement)))
     | _ \<Rightarrow> cbind (clift (guard_external_sql sql)) (\<lambda>_. creturn None))"

definition execute_catalog_aware_write_as :: "'p external \<Rightarrow> string \<Rightarrow> string \<Rightarrow> ('p, nat option) db" where
  "execute_catalog_aware_write_as X username sql =
     cbind (principal_for_username X username) (\<lambda>p.
     case parse_catalog_management_call sql of
       Some call \<Rightarrow> counted (execute_catalog_management_call X p call sql)
     | None \<Rightarrow>
         cbind (clift (parse_managed_partition_create sql)) (\<lambda>m. case m of
           Some partitioned \<Rightarrow> counted (create_range_partitioned_table X partitioned (sp_user_id p))
         | None \<Rightarrow>
             cbind (clift (parse_one_statement (x_parser X) sql)) (\<lambda>(statement, normalized_sql).
             execute_catalog_statement X statement normalized_sql (sp_user_id p))))"

text \<open>The statements of the start, run as the administrator.\<close>

definition execute_init_sql :: "'p external \<Rightarrow> string \<Rightarrow> ('p, unit) db" where
  "execute_init_sql X sql =
     cbind (clift (case parse_sql (x_parser X) sql of Inl e \<Rightarrow> Inl (EParse (SqlParseFailed e)) | Inr ss \<Rightarrow> Inr ss)) (\<lambda>statements.
     cforeach (\<lambda>statement.
       cbind (execute_catalog_statement X statement (stmt_to_string (x_parser X) statement) ADMIN_USER_ID) (\<lambda>_. creturn ()))
       statements)"

section \<open>A statement of a session\<close>

text \<open>
  From the guard on: \<open>query\<close> is what the engine answers to a query, \<open>run\<close> what it does with a statement the catalog
  does not handle.
\<close>

datatype 'q sql_answer = Rows 'q | Affected string nat

definition execute_guarded_sql ::
    "'p external \<Rightarrow> (string \<Rightarrow> ('p, 'q) db) \<Rightarrow> (string \<Rightarrow> ('p, nat) db) \<Rightarrow> string \<Rightarrow> string \<Rightarrow> sql_route \<Rightarrow> string \<Rightarrow> ('p, 'q sql_answer) db" where
  "execute_guarded_sql X ask run username sql route command =
     cbind (clift (guard_external_sql_as username sql)) (\<lambda>_.
     cbind (clift (reject_unhandled_catalog_projection sql)) (\<lambda>_.
     cbind (authorize_sql X username sql) (\<lambda>_.
     case route of
       Read \<Rightarrow> cbind (ask sql) (\<lambda>rows. creturn (Rows rows))
     | Write \<Rightarrow>
         cbind (execute_catalog_aware_write_as X username sql) (\<lambda>handled. case handled of
           Some affected_rows \<Rightarrow> creturn (Affected command affected_rows)
         | None \<Rightarrow> cbind (run sql) (\<lambda>affected_rows. creturn (Affected command affected_rows))))))"

section \<open>Every catalog statement is atomic\<close>

lemma atomic_counted [atomic_rules]: "atomic X m \<Longrightarrow> atomic X (counted m)"
  unfolding counted_def by (rule atomic_map)

lemma catalog_statement_atomic: "atomic X (execute_catalog_statement X st sql owner)"
proof -
  have guard: "atomic X (cbind (clift (guard_external_sql sql)) (\<lambda>_. creturn None))"
    by (intro atomic_rules atomic_read_bind ro)
  note operations = create_user_atomic create_role_atomic alter_user_atomic grant_atomic revoke_atomic
    insert_atomic create_schema_atomic create_table_atomic create_view_atomic create_index_atomic alter_table_tx(1) drop_objects_atomic
    comment_object_atomic
  show ?thesis
    unfolding execute_catalog_statement_def
    by (cases st) (auto split: create_stmt.split alter_stmt.split drop_stmt.split
      intro!: atomic_counted atomic_map guard atomic_throw operations)
qed

text \<open>Every statement but a repair call, whose partition comes back under the identifier it had.\<close>

definition repair_call :: "string \<Rightarrow> bool" where
  "repair_call sql \<longleftrightarrow> (case parse_catalog_management_call sql of
     None \<Rightarrow> False | Some call \<Rightarrow> mc_name call = ''rsduck_repair_partition'')"

text \<open>A computation that changes the committed state only when it succeeds, and then leaves no transaction open.\<close>

definition clean :: "('p, 'a) db \<Rightarrow> bool" where
  "clean m \<longleftrightarrow> (\<forall>s r s'. m s = (r, s') \<longrightarrow> (\<forall>e. r = Inl e \<longrightarrow> committed s' = committed s)
     \<and> (\<forall>v. r = Inr v \<longrightarrow> saved s = None \<longrightarrow> saved s' = None))"

lemma cleanI:
  "(\<And>s e s'. m s = (Inl e, s') \<Longrightarrow> committed s' = committed s) \<Longrightarrow>
   (\<And>s v s'. m s = (Inr v, s') \<Longrightarrow> saved s = None \<Longrightarrow> saved s' = None) \<Longrightarrow> clean m"
  unfolding clean_def by blast

lemma cleanD:
  "clean m \<Longrightarrow> m s = (Inl e, s') \<Longrightarrow> committed s' = committed s"
  "clean m \<Longrightarrow> m s = (Inr v, s') \<Longrightarrow> saved s = None \<Longrightarrow> saved s' = None"
  unfolding clean_def by blast+

lemma clean_throw: "clean (cthrow e)"
  by (simp add: clean_def cthrow_def)

lemma clean_tx: "body_spec (\<lambda>_. True) f Q \<Longrightarrow> clean (run_catalog_tx X f)"
  by (rule cleanI) (auto dest: tx_result [OF _ TrueI])

lemma clean_read_bind:
  assumes "read_only m" "\<And>v. clean (f v)"
  shows "clean (cbind m f)"
proof (rule cleanI)
  fix s e s' assume b: "cbind m f s = (Inl e, s')"
  obtain r s1 where m: "m s = (r, s1)" by force
  then show "committed s' = committed s"
    using b committed_read [OF assms(1) m] cleanD(1) [OF assms(2)] by (cases r) (auto simp: cbind_def)
next
  fix s v s' assume b: "cbind m f s = (Inr v, s')" and n: "saved s = None"
  obtain r s1 where m: "m s = (r, s1)" by force
  then show "saved s' = None"
    using b n committed_read [OF assms(1) m] cleanD(2) [OF assms(2)] by (cases r) (auto simp: cbind_def)
qed

lemma clean_counted: "clean m \<Longrightarrow> clean (counted m)"
  by (rule cleanI) (auto simp: counted_def cbind_def creturn_def dest: cleanD split: prod.splits sum.splits)

lemma repair_clean: "clean (repair_partition X schema table v sql)"
proof -
  have "clean (case found of None \<Rightarrow> cthrow e | Some relation \<Rightarrow> run_catalog_tx X (repair_partition_body X relation schema table v sql))" for found e
    by (cases found) (auto intro: clean_throw clean_tx [OF repair_body_row])
  then show ?thesis unfolding repair_partition_def by (intro clean_read_bind ro)
qed

lemma repair_call_clean:
  assumes "repair_call sql"
  shows "clean (execute_catalog_aware_write_as X username sql)"
proof -
  obtain call where c: "parse_catalog_management_call sql = Some call" "mc_name call = ''rsduck_repair_partition''"
    using assms by (auto simp: repair_call_def split: option.splits)
  have "clean (case args of [relation, v] \<Rightarrow> (case relation_from_token relation of
       None \<Rightarrow> cthrow (ECall (CallBadRelation relation))
     | Some (schema, table) \<Rightarrow> repair_partition X schema table v sql) | _ \<Rightarrow> cthrow (ECall CallRepairArguments))" for args
    by (auto split: list.split option.split intro: clean_throw repair_clean)
  then have "clean (execute_catalog_management_call X p call sql)" for p
    unfolding execute_catalog_management_call_def using c(2) by (intro clean_read_bind ro) simp
  then show ?thesis
    unfolding execute_catalog_aware_write_as_def using c(1) by (intro clean_read_bind ro) (simp add: clean_counted)
qed

lemma management_call_atomic:
  assumes "mc_name call \<noteq> ''rsduck_repair_partition''"
  shows "atomic X (execute_catalog_management_call X p call sql)"
proof -
  have mark: "atomic X (case args of [relation, v, reason] \<Rightarrow> (case relation_from_token relation of
       None \<Rightarrow> cthrow (ECall (CallBadRelation relation))
     | Some (schema, table) \<Rightarrow> mark_partition_unavailable X schema table v reason sql) | _ \<Rightarrow> cthrow (ECall CallMarkArguments))" for args
    by (auto split: list.split option.split intro: atomic_throw mark_atomic)
  show ?thesis
    unfolding execute_catalog_management_call_def using assms
    by (intro atomic_read_bind ro) (simp add: atomic_throw maintenance_atomic mark)
qed

lemma write_atomic:
  assumes "\<not> repair_call sql"
  shows "atomic X (execute_catalog_aware_write_as X username sql)"
proof -
  show ?thesis
    unfolding execute_catalog_aware_write_as_def
    by (rule atomic_read_bind, intro ro, cases "parse_catalog_management_call sql")
      (use assms in \<open>auto simp: repair_call_def intro!: atomic_counted management_call_atomic atomic_read_bind [OF ro_lift]
        atomic_option create_partitioned_operation(1) catalog_statement_atomic\<close>)
qed

interpretation write_op: catalog_operation X "if repair_call sql then cthrow e else execute_catalog_aware_write_as X username sql"
  for X sql e username
  by (rule atomic_operation) (simp add: atomic_throw write_atomic)

lemma guarded_reads: "read_only (clift (guard_external_sql_as username sql))" "read_only (clift (reject_unhandled_catalog_projection sql))"
  "read_only (authorize_sql X username sql)"
  by (intro ro)+

text \<open>What the engine does for the program leaves the committed catalog alone.\<close>

definition apart :: "('p, 'a) db \<Rightarrow> bool" where
  "apart m \<longleftrightarrow> (\<forall>s. catalog_of (snd (m s)) = catalog_of s)"

lemma apart_good: "apart m \<Longrightarrow> keeping P m"
  by (simp add: apart_def keeping_def)

lemma keeping_bind: "keeping P m \<Longrightarrow> (\<And>v. keeping P (f v)) \<Longrightarrow> keeping P (cbind m f)"
  unfolding keeping_def cbind_def by (fastforce split: prod.splits sum.splits)

lemma atomic_keeps_good: "atomic X m \<Longrightarrow> keeping (good (x_fmt X)) m"
  unfolding keeping_def by (auto dest: atomicD [OF _ prod.collapse [symmetric]])

lemma guarded_keeps_good:
  fixes X :: "'p external" and ask :: "string \<Rightarrow> ('p, 'q) db"
  assumes "\<not> repair_call sql" "\<And>q. apart (ask q)" "\<And>q. apart (run q)"
  shows "keeping (good (x_fmt X)) (execute_guarded_sql X ask run username sql route command)"
proof -
  have ret: "keeping P (creturn v)" for P and v :: "'q sql_answer" by (simp add: keeping_def creturn_def)
  note engine = keeping_bind [OF apart_good ret]
  show ?thesis
    unfolding execute_guarded_sql_def
    by (intro keeping_read_bind guarded_reads, cases route)
      (auto intro!: engine assms ret keeping_bind [OF atomic_keeps_good [OF write_atomic [OF assms(1)]]] split: option.split)
qed

lemma keeping_foreach: "(\<And>x. keeping P (f x)) \<Longrightarrow> keeping P (cforeach f xs)"
  by (induction xs) (auto simp: keeping_basic intro: keeping_bind)

lemma init_keeps_good: "keeping (good (x_fmt X)) (execute_init_sql X sql)"
  unfolding execute_init_sql_def
  by (intro keeping_read_bind ro keeping_foreach keeping_bind [OF atomic_keeps_good [OF catalog_statement_atomic]] keeping_basic)

section \<open>The states the server reaches\<close>

inductive server_reaches ::
    "'p external \<Rightarrow> (string \<Rightarrow> ('p, 'q) db) \<Rightarrow> (string \<Rightarrow> ('p, nat) db) \<Rightarrow> 'p conn \<Rightarrow> 'p conn \<Rightarrow> bool"
  for X ask run s0 where
  start: "server_reaches X ask run s0 s0"
| statement: "server_reaches X ask run s0 s \<Longrightarrow> \<not> repair_call sql \<Longrightarrow>
    server_reaches X ask run s0 (snd (execute_guarded_sql X ask run username sql route command s))"
| init: "server_reaches X ask run s0 s \<Longrightarrow> server_reaches X ask run s0 (snd (execute_init_sql X sql s))"

section \<open>Properties\<close>

text \<open>C3: A catalog statement is all or nothing, whatever it is and whoever sends it: when
  the executor answers with an error, the committed catalog and the physical objects are what they were; when
  it reports success, it leaves no transaction open that was not open before.\<close>

theorem failed_write_changes_nothing:
  assumes "good (x_fmt X) (catalog_of s)"
  shows "case execute_catalog_aware_write_as X username sql s of
      (Inl e, s') \<Rightarrow> committed s' = committed s
    | (Inr handled, s') \<Rightarrow> saved s = None \<longrightarrow> saved s' = None"
proof (cases "repair_call sql")
  case True
  from cleanD [OF repair_call_clean [OF this]] show ?thesis by (auto split: prod.splits sum.splits)
next
  case False
  from atomicD [OF write_atomic [OF this] _ assms] show ?thesis by (auto split: prod.splits sum.splits)
qed


text \<open>C5: Nobody but a user manager changes accounts: when a session of a user who does not exist, is disabled, or
  is neither an administrator nor granted \<^verbatim>\<open>manage_user\<close> sends a CREATE, ALTER or DROP of a user or role, a GRANT or a
  REVOKE, the whole execution answers with an error and leaves catalog, physical objects and transaction as they were.\<close>

theorem others_never_change_accounts:
  assumes "parse_managed_partition_create sql = Inr None"
    and "parse_one_statement (x_parser X) sql = Inr (st, nsql)" and "account_statement st"
    and "\<nexists>p. principal_of (cat s) username = Some p \<and> may_system (cat s) p ''manage_user''"
  shows "\<exists>e s'. execute_guarded_sql X ask run username sql route command s = (Inl e, s')
    \<and> cat s' = cat s \<and> phys s' = phys s \<and> saved s' = saved s"
proof -
  let ?reads = "cbind (clift (guard_external_sql_as username sql)) (\<lambda>_.
     cbind (clift (reject_unhandled_catalog_projection sql)) (\<lambda>_. authorize_sql X username sql))"
  have "body_spec (\<lambda>d. d = cat s) (authorize_sql X username sql)
     (\<lambda>_ d. \<exists>p. principal_of d username = Some p \<and> may_system d p ''manage_user'')"
    by (rule sp_authorize_plain [OF assms(1,2)], rule sp_authorize_account [OF assms(3)])
  then have b: "body_spec (\<lambda>d. d = cat s) ?reads (\<lambda>_ d. \<exists>p. principal_of d username = Some p \<and> may_system d p ''manage_user'')"
    by (intro body_bind [OF body_read_only [OF ro_lift]])
  have ro: "read_only ?reads" by (intro ro)
  obtain r s1 where r: "?reads s = (r, s1)" by force
  have same: "cat s1 = cat s" "phys s1 = phys s" "saved s1 = saved s" using read_onlyD [OF ro r] by simp_all
  obtain e where "r = Inl e"
    using body_specD [OF b refl r] assms(4) same by (cases r) auto
  then have "execute_guarded_sql X ask run username sql route command s = (Inl e, s1)"
    using r unfolding execute_guarded_sql_def cbind_def by (auto split: prod.splits sum.splits)
  then show ?thesis using same by blast
qed

section \<open>Witnesses\<close>

definition engine_answers :: "string \<Rightarrow> (unit, nat) db" where
  "engine_answers q = creturn 0"

lemma apart_answers: "apart (engine_answers q)"
  by (simp add: apart_def engine_answers_def creturn_def)

theorem failed_write_changes_nothing_witness:
  "case execute_catalog_aware_write_as sample ''admin'' ''DROP TABLE people'' start_world of
      (Inl e, s') \<Rightarrow> committed s' = committed start_world
    | (Inr handled, s') \<Rightarrow> saved start_world = None \<longrightarrow> saved s' = None"
  by (rule failed_write_changes_nothing [OF good_start(1)])


abbreviation grant_text :: string where
  "grant_text \<equiv> ''GRANT USAGE ON SCHEMA main TO bob''"

abbreviation grant_to_bob :: statement where
  "grant_to_bob \<equiv> Grant \<lparr>g_privileges = Actions [AUsage], g_objects = Some (GSchemas [[Identifier ''main'']]),
     g_grantees = [\<lparr>grantee_type = GTNone, grantee_name = Some (GName [Identifier ''bob''])\<rparr>]\<rparr>"

theorem others_never_change_accounts_witness:
  "\<exists>e s'. execute_guarded_sql (sample_ext (one_parser grant_to_bob grant_text)) engine_answers engine_answers ''eve'' grant_text
      Write ''GRANT'' (sample_conn sample_users) = (Inl e, s')
    \<and> cat s' = cat (sample_conn sample_users) \<and> phys s' = phys (sample_conn sample_users)
    \<and> saved s' = saved (sample_conn sample_users)"
proof -
  have e: "principal_of (cat (sample_conn sample_users)) ''eve'' = None" by code_simp
  have p: "parse_managed_partition_create grant_text = Inr None"
    "parse_one_statement (x_parser (sample_ext (one_parser grant_to_bob grant_text))) grant_text = Inr (grant_to_bob, grant_text)"
    "account_statement grant_to_bob"
    by code_simp+
  show ?thesis
    by (rule others_never_change_accounts [OF p]) (simp add: e)
qed

end
