(* ===== verification/Recovery.thy ===== *)
theory Recovery
  imports Partition_Ops
begin

text \<open>
  The start of the server, \<^verbatim>\<open>validate_after_start\<close> of \<^verbatim>\<open>src/catalog/recovery.rs\<close>: version checks, unfinished journal
  entries, integrity, checksum, and the comparison of every active relation with the physical objects, which marks what
  does not match as unavailable. The statements run one by one, outside a transaction; an error of a validation is
  caught and stored, so what it changed before it failed stays. The text stored is the message of the error,
  \<open>x_message\<close>. A panic is not caught here.
\<close>

section \<open>Is there a catalog?\<close>

definition catalog_exists :: "'p external \<Rightarrow> ('p, bool) db" where
  "catalog_exists X = cphys X ''check catalog existence failed''
     (\<lambda>p. (''rsduck_catalog'', ''rs_catalog_version'') \<in> set (ph_tables p))"

definition system_schemas :: "string list" where
  "system_schemas = [''information_schema'', ''pg_catalog'', ''rsduck_catalog'', ''rsduck_internal'']"

definition has_user_objects :: "'p external \<Rightarrow> ('p, bool) db" where
  "has_user_objects X = cphys X ''check existing DuckDB user objects failed''
     (\<lambda>p. list_ex (\<lambda>(s, _). s \<notin> set system_schemas) (ph_tables p))"

section \<open>Unfinished journal entries\<close>

definition pending_entries :: "catalog \<Rightarrow> rs_catalog_journal list" where
  "pending_entries c = filter (\<lambda>j. jr_status j = ''pending'') (journal c)"

definition journal_summary :: "rs_catalog_journal \<Rightarrow> string" where
  "journal_summary j = ''#'' @ show_int (jr_id j) @ '' '' @ jr_mutation_type j @ '' '' @ jr_status j @ '': '' @ jr_error j"

definition fail_pending :: "string \<Rightarrow> catalog \<Rightarrow> catalog" where
  "fail_pending summary c = c\<lparr>journal := update_where (\<lambda>j. jr_status j = ''pending'')
     (\<lambda>j. j\<lparr>jr_status := ''failed'', jr_error := ''recovered at startup: '' @ summary\<rparr>) (journal c)\<rparr>"

definition validate_catalog_journal_state :: "'p external \<Rightarrow> ('p, unit) db" where
  "validate_catalog_journal_state X =
     cbind (cquery X ''check catalog journal state failed'' (\<lambda>c. length (pending_entries c))) (\<lambda>count.
     if count = 0 then creturn ()
     else
       cbind (cquery X ''query unfinished catalog journal summary failed'' (\<lambda>c.
          map journal_summary (take 5 (sort_key jr_id (pending_entries c))))) (\<lambda>summaries.
       cbind (cexec X ''recover pending catalog journal failed'' (\<lambda>c. Some (fail_pending (join ''; '' summaries) c))) (\<lambda>_.
       refresh_catalog_checksum X)))"

section \<open>Relations and their physical objects\<close>

definition mark_vector_index_recovery_status :: "'p external \<Rightarrow> int \<Rightarrow> string \<Rightarrow> string \<Rightarrow> ('p, unit) db" where
  "mark_vector_index_recovery_status X index_oid status reason =
     cexec X ''mark vector index startup status failed'' (\<lambda>c. Some (c\<lparr>vectors := update_where (\<lambda>v. vx_relid v = index_oid)
       (\<lambda>v. v\<lparr>vx_build_status := status, vx_error := reason\<rparr>) (vectors c)\<rparr>))"

definition interrupted_statuses :: "string list" where
  "interrupted_statuses = [''pending'', ''building'', ''rebuilding'', ''compacting'']"

text \<open>No row in \<^verbatim>\<open>rs_vector_index\<close> means an ordinary index.\<close>

definition reconcile_vector_index_runtime_status :: "'p external \<Rightarrow> int \<Rightarrow> ('p, unit) db" where
  "reconcile_vector_index_runtime_status X index_oid =
     cbind (cquery X ''read vector index startup status failed'' (\<lambda>c.
        List.find (\<lambda>v. vx_relid v = index_oid) (vectors c))) (\<lambda>found. case found of
       None \<Rightarrow> creturn ()
     | Some v \<Rightarrow>
         if vx_build_status v \<in> set interrupted_statuses then
           mark_vector_index_recovery_status X index_oid ''unavailable''
             (''interrupted vector index operation: '' @ vx_build_status v)
         else if vx_build_status v \<noteq> ''active'' then creturn ()
         else
           cbind (stmt X ''read loaded VSS version at startup failed'' (\<lambda>s.
              map_option (\<lambda>w. (w, s)) (ph_vss (x_phys X (phys s))))) (\<lambda>loaded.
           if loaded \<noteq> vx_extension_version v then
             mark_vector_index_recovery_status X index_oid ''stale''
               (''VSS extension version changed: stored='' @ vx_extension_version v @ '', loaded='' @ loaded)
           else creturn ()))"

definition validate_partition_indexes :: "'p external \<Rightarrow> int \<Rightarrow> int \<Rightarrow> string \<Rightarrow> string \<Rightarrow> ('p, unit) db" where
  "validate_partition_indexes X parent_oid index_oid schema relname =
     cbind (partition_index_specs X parent_oid) (\<lambda>specs.
     case List.find (\<lambda>sp. pi_index_oid sp = index_oid) specs of
       None \<Rightarrow> cthrow (EPhys (MissingIndexMetadata schema relname))
     | Some ispec \<Rightarrow>
         cbind (active_partition_children X parent_oid) (\<lambda>children.
         cforeach (\<lambda>child. let child_index = partition_index_name (ap_relname child) (pi_index_name ispec) in
           cbind (duckdb_index_exists X ''rsduck_internal'' child_index) (\<lambda>present.
           if present then creturn () else cthrow (EPhys (MissingPartitionIndex child_index)))) children))"

definition validate_index_physical :: "'p external \<Rightarrow> int \<Rightarrow> string \<Rightarrow> string \<Rightarrow> ('p, unit) db" where
  "validate_index_physical X index_oid schema relname =
     cbind (partitioned_index_parent X index_oid) (\<lambda>found. case found of
       Some parent_oid \<Rightarrow> validate_partition_indexes X parent_oid index_oid schema relname
     | None \<Rightarrow>
         cbind (cphys X ''query DuckDB physical index failed'' (\<lambda>p.
            length (filter (\<lambda>i. i = (schema, relname)) (ph_indexes p)))) (\<lambda>count.
         if count = 0 then cthrow (EPhys MissingIndex) else creturn ()))"

text \<open>\<^verbatim>\<open>if let Err(reason) = m { handler(reason)? } else { done? }\<close>\<close>

definition on_error :: "('p, unit) db \<Rightarrow> (err \<Rightarrow> ('p, unit) db) \<Rightarrow> ('p, unit) db \<Rightarrow> ('p, unit) db" where
  "on_error m handler finish = cbind (ctry m) (\<lambda>r. case r of
     Inl e \<Rightarrow> if e = EPanic then cthrow EPanic else handler e
   | Inr _ \<Rightarrow> finish)"

type_synonym named_relation = "int \<times> string \<times> string \<times> string"

text \<open>The active relations of some kinds with their schemas, \<^verbatim>\<open>ORDER BY c.oid\<close>.\<close>

definition active_relations :: "string list \<Rightarrow> catalog \<Rightarrow> named_relation list" where
  "active_relations kinds c = List.map_filter (\<lambda>r. map_option (\<lambda>n. (rel_oid r, sch_name n, rel_name r, rel_kind r))
       (schema_of_relation c r))
     (sort_key rel_oid (filter (\<lambda>r. rel_status r = ''active'' \<and> rel_kind r \<in> set kinds) (relations c)))"

definition validate_physical :: "'p external \<Rightarrow> named_relation \<Rightarrow> ('p, unit) db" where
  "validate_physical X = (\<lambda>(rel, schema, relname, kind).
     if kind = ''r'' then validate_table_physical X rel schema relname
     else if kind = ''v'' then validate_view_physical X rel schema relname
     else if kind = ''i'' then validate_index_physical X rel schema relname
     else creturn ())"

definition validate_physical_relation :: "'p external \<Rightarrow> named_relation \<Rightarrow> ('p, unit) db" where
  "validate_physical_relation X q = (case q of (rel, schema, relname, kind) \<Rightarrow>
     on_error (validate_physical X q)
       (\<lambda>reason. cbind (mark_relation_unavailable X rel (x_message X reason)) (\<lambda>_.
          if kind = ''i'' then mark_vector_index_recovery_status X rel ''unavailable'' (x_message X reason) else creturn ()))
       (if kind = ''i'' then reconcile_vector_index_runtime_status X rel else creturn ()))"

definition validate_physical_relations :: "'p external \<Rightarrow> ('p, unit) db" where
  "validate_physical_relations X =
     cbind (cquery X ''query catalog physical validation failed'' (active_relations [''r'', ''v'', ''i''])) (\<lambda>found.
     cforeach (validate_physical_relation X) found)"

section \<open>Partitioned tables\<close>

definition validate_partition_child :: "'p external \<Rightarrow> int \<Rightarrow> active_partition_child \<Rightarrow> ('p, unit) db" where
  "validate_partition_child X parent_oid child =
     (let failed = ''mark partition failed failed'' in
      if ap_child_status child \<noteq> ''active'' then
        let reason = EPhys (ChildNotActive (ap_schema child) (ap_relname child) (ap_child_status child)) in
        cbind (mark_partition_failed X failed parent_oid (ap_child_oid child) (x_message X reason)) (\<lambda>_. cthrow reason)
      else
        on_error (validate_table_physical X (ap_child_oid child) (ap_schema child) (ap_relname child))
          (\<lambda>reason. cbind (mark_relation_unavailable X (ap_child_oid child) (x_message X reason)) (\<lambda>_.
             cbind (mark_partition_failed X failed parent_oid (ap_child_oid child) (x_message X reason)) (\<lambda>_.
             cthrow (EPhys (ChildUnavailable (ap_schema child) (ap_relname child) (x_message X reason))))))
          (creturn ()))"

definition validate_entrypoint :: "'p external \<Rightarrow> int \<Rightarrow> string \<Rightarrow> string \<Rightarrow> string \<Rightarrow> ('p, unit) db" where
  "validate_entrypoint X parent_oid schema relname expected_sql =
     cbind (cquery_row X ''read partition entrypoint SQL failed'' (\<lambda>c.
        map_option ext_generated_sql (List.find (\<lambda>e. ext_relid e = parent_oid) (exts c)))) (\<lambda>generated_sql.
     if trim generated_sql \<noteq> expected_sql then rebuild_partition_entrypoint X parent_oid expected_sql
     else on_error (validate_view_physical X parent_oid schema relname)
       (\<lambda>_. rebuild_partition_entrypoint X parent_oid expected_sql) (creturn ()))"

definition validate_partitioned_relation :: "'p external \<Rightarrow> int \<Rightarrow> string \<Rightarrow> string \<Rightarrow> ('p, unit) db" where
  "validate_partitioned_relation X parent_oid schema relname =
     cbind (active_partition_children X parent_oid) (\<lambda>children.
     cbind (cforeach (validate_partition_child X parent_oid) children) (\<lambda>_.
     cbind (partition_entrypoint_sql_from_catalog X parent_oid schema relname children) (\<lambda>expected_sql.
     cbind (validate_entrypoint X parent_oid schema relname expected_sql) (\<lambda>_.
     cbind (validate_view_physical X parent_oid schema relname) (\<lambda>_.
     sync_partition_dependencies X parent_oid children)))))"

definition validate_partitioned :: "'p external \<Rightarrow> named_relation \<Rightarrow> ('p, unit) db" where
  "validate_partitioned X = (\<lambda>(parent_oid, schema, relname, _).
     on_error (validate_partitioned_relation X parent_oid schema relname)
       (\<lambda>reason. mark_relation_unavailable X parent_oid (x_message X reason)) (creturn ()))"

definition validate_partitioned_relations :: "'p external \<Rightarrow> ('p, unit) db" where
  "validate_partitioned_relations X =
     cbind (cquery X ''query partitioned relation validation failed'' (active_relations [''p''])) (\<lambda>found.
     cforeach (validate_partitioned X) found)"

section \<open>The start\<close>

definition ensure_catalog :: "'p external \<Rightarrow> ('p, unit) db" where
  "ensure_catalog X =
     cbind (catalog_exists X) (\<lambda>present.
     if present then creturn ()
     else
       cbind (has_user_objects X) (\<lambda>objects.
       if objects then cthrow (EStart CatalogMissing) else bootstrap_fresh X))"

definition validate_catalog_version :: "'p external \<Rightarrow> ('p, unit) db" where
  "validate_catalog_version X =
     cbind (cquery_row X ''read catalog version failed'' (\<lambda>c. map_option ver_schema_version (version_row c))) (\<lambda>version.
     if version \<noteq> CATALOG_VERSION then cthrow (EStart (CatalogVersionUnsupported version))
     else
       cbind (cquery_row X ''read catalog snapshot format version failed''
         (\<lambda>c. map_option ver_snapshot_format (version_row c))) (\<lambda>format.
       if format \<noteq> SNAPSHOT_FORMAT_VERSION then cthrow (EStart (SnapshotVersionUnsupported format))
       else
         cbind (cquery_row X ''read catalog status failed'' (\<lambda>c. map_option ver_status (version_row c))) (\<lambda>status.
         if status \<noteq> ''ready'' then cthrow (EStart (StatusNotReady status)) else creturn ())))"

definition validate_after_start :: "'p external \<Rightarrow> ('p, unit) db" where
  "validate_after_start X =
     cbind (ensure_catalog X) (\<lambda>_.
     cbind (validate_catalog_version X) (\<lambda>_.
     cbind (validate_catalog_journal_state X) (\<lambda>_.
     cbind (validate_catalog_integrity X) (\<lambda>_.
     cbind (validate_catalog_checksum X) (\<lambda>_.
     cbind (validate_physical_relations X) (\<lambda>_.
     cbind (validate_partitioned_relations X) (\<lambda>_.
     refresh_catalog_checksum X)))))))"

end
