(* ===== verification/Recovery_Ops.thy ===== *)
theory Recovery_Ops
  imports Recovery
begin

text \<open>
  What a start guarantees. The validations run outside a transaction and errors are caught, so the rules here are about
  both exits of a computation, \<open>spec\<close>. Main results: a start that succeeds leaves a sound catalog, and every table it
  leaves active has a physical table with the same columns.
\<close>

section \<open>Rules for statements on both exits\<close>

text \<open>A property of the catalog and one of the physical side.\<close>

definition st :: "(catalog \<Rightarrow> bool) \<Rightarrow> ('p \<Rightarrow> bool) \<Rightarrow> 'p conn \<Rightarrow> bool" where
  "st C B s \<longleftrightarrow> C (cat s) \<and> B (phys s)"

lemma st_tick [simp]: "st C B (tick s) = st C B s"
  by (simp add: st_def)

lemma spec_known:
  assumes "\<And>k. spec (\<lambda>s. A s \<and> f s = k) m Q E"
  shows "spec A m Q E"
proof (rule specI)
  fix s assume "A s"
  then show "case m s of (Inl e, s') \<Rightarrow> E e s' | (Inr x, s') \<Rightarrow> Q x s'"
    using assms [unfolded spec_def, rule_format, of s "f s"] by simp
qed

lemma spec_post: "spec P m Q' E' \<Longrightarrow> (\<And>v s. Q' v s \<Longrightarrow> Q v s) \<Longrightarrow> (\<And>e s. E' e s \<Longrightarrow> E e s) \<Longrightarrow> spec P m Q E"
  by (rule spec_conseq)

lemma spec_pure: "(K \<Longrightarrow> spec P m Q E) \<Longrightarrow> spec (\<lambda>s. P s \<and> K) m Q E"
  by (cases K) (simp_all add: spec_def)

lemma spec_sum:
  "(\<And>e. v = Inl e \<Longrightarrow> spec P (f e) Q E) \<Longrightarrow> (\<And>x. v = Inr x \<Longrightarrow> spec P (g x) Q E) \<Longrightarrow>
   spec P (case v of Inl e \<Rightarrow> f e | Inr x \<Rightarrow> g x) Q E"
  by (cases v) simp_all

lemma spec_prod: "(\<And>a b. v = (a, b) \<Longrightarrow> spec P (f a b) Q E) \<Longrightarrow> spec P (case v of (a, b) \<Rightarrow> f a b) Q E"
  by (cases v) simp

lemma st_stmt:
  assumes "\<And>s v s'. st C B s \<Longrightarrow> f s = Some (v, s') \<Longrightarrow> Q v s'"
  shows "spec (st C B) (stmt X w f) Q (\<lambda>_. st C B)"
proof (rule specI)
  fix s assume "st C B s"
  then show "case stmt X w f s of (Inl e, s') \<Rightarrow> st C B s' | (Inr v, s') \<Rightarrow> Q v s'"
    using assms [of "tick s"] by (auto simp: stmt_def split: option.splits)
qed

lemma st_query: "spec (st C B) (cquery X w f) (\<lambda>v. st (\<lambda>c. C c \<and> f c = v) B) (\<lambda>_. st C B)"
  unfolding cquery_def by (rule st_stmt) (auto simp: st_def)

lemma st_query_row: "spec (st C B) (cquery_row X w f) (\<lambda>v. st (\<lambda>c. C c \<and> f c = Some v) B) (\<lambda>_. st C B)"
  unfolding cquery_row_def by (rule st_stmt) (auto simp: st_def)

lemma st_phys: "spec (st C B) (cphys X w f) (\<lambda>v. st C (\<lambda>p. B p \<and> f (x_phys X p) = v)) (\<lambda>_. st C B)"
  unfolding cphys_def by (rule st_stmt) (auto simp: st_def)

lemma st_exec:
  assumes "\<And>c d. C c \<Longrightarrow> g c = Some d \<Longrightarrow> C' d"
  shows "spec (st C B) (cexec X w g) (\<lambda>_. st C' B) (\<lambda>_. st C B)"
  unfolding cexec_def using assms by (intro st_stmt) (auto simp: st_def)

lemma st_ddl: "inv_cmd (st C (\<lambda>_. True)) (cddl X w sql)"
  unfolding cddl_def by (rule st_stmt) (auto simp: st_def)

lemma st_read:
  assumes "read_only m"
  shows "inv_cmd (st C B) m"
proof (rule specI)
  fix s assume "st C B s"
  then show "case m s of (Inl e, s') \<Rightarrow> st C B s' | (Inr v, s') \<Rightarrow> st C B s'"
    using read_onlyD [OF assms, of s "fst (m s)" "snd (m s)"]
    by (cases "m s") (auto simp: st_def split: sum.splits)
qed

lemma spec_try: "spec P m Q E \<Longrightarrow> spec P (ctry m) (\<lambda>r s. case r of Inl e \<Rightarrow> E e s | Inr v \<Rightarrow> Q v s) F"
  unfolding spec_def ctry_def by (auto split: prod.splits sum.splits)

lemma spec_on_error:
  assumes "spec P m (\<lambda>_. Q) E" and "\<And>e. spec (E e) (handler e) R F" and "spec Q d R F" and "\<And>s. E EPanic s \<Longrightarrow> F EPanic s"
  shows "spec P (on_error m handler d) R F"
  unfolding on_error_def
proof (rule spec_bind [OF spec_try [OF assms(1)]], rule spec_sum, goal_cases)
  case (1 r e)
  then show ?case using assms(2) [of e] assms(4) by (auto intro: spec_throw)
next
  case (2 r u)
  then show ?case using assms(3) by simp
qed

section \<open>What stays true during the start\<close>

definition version_ok :: "catalog \<Rightarrow> bool" where
  "version_ok c \<longleftrightarrow> (\<exists>v. version_row c = Some v \<and> ver_schema_version v = CATALOG_VERSION
     \<and> ver_snapshot_format v = SNAPSHOT_FORMAT_VERSION \<and> ver_status v = ''ready'')"

definition named :: "catalog \<Rightarrow> rs_relation \<Rightarrow> named_relation option" where
  "named c r = map_option (\<lambda>n. (rel_oid r, sch_name n, rel_name r, rel_kind r)) (schema_of_relation c r)"

text \<open>A column of the catalog and one of the engine, as the code compares them.\<close>

definition agree :: "catalog_column \<Rightarrow> duck_column \<Rightarrow> bool" where
  "agree cc dc \<longleftrightarrow> eq_ignore_case (cc_name cc) (dc_name dc) \<and> eq_ignore_case (cc_duckdb_type cc) (dc_type dc)"

definition described :: "physical \<Rightarrow> catalog \<Rightarrow> named_relation \<Rightarrow> bool" where
  "described p c = (\<lambda>(rel, schema, relname, _). (schema, relname) \<in> set (ph_tables p)
     \<and> list_all2 agree (catalog_columns_in c rel) (duckdb_columns p schema relname))"

text \<open>Every active table is described, those in \<open>D\<close> not yet.\<close>

definition tables_described :: "physical \<Rightarrow> named_relation set \<Rightarrow> catalog \<Rightarrow> bool" where
  "tables_described p D c \<longleftrightarrow> (\<forall>r\<in>set (relations c). rel_status r = ''active'' \<and> rel_kind r = ''r'' \<longrightarrow>
     (\<exists>q. named c r = Some q \<and> (q \<in> D \<or> described p c q)))"

definition begun :: "(string \<Rightarrow> string) \<Rightarrow> int set \<Rightarrow> physical \<Rightarrow> named_relation set \<Rightarrow> catalog \<Rightarrow> bool" where
  "begun low R p D c \<longleftrightarrow> integral low c \<and> pending_entries c = [] \<and> version_ok c \<and> rel_ids c = R \<and> tables_described p D c"

text \<open>Types may be added at any time: reading the columns of the engine registers the complex ones.\<close>

definition typeable :: "(catalog \<Rightarrow> bool) \<Rightarrow> bool" where
  "typeable C \<longleftrightarrow> (\<forall>c a t. C c \<longrightarrow> C (c\<lparr>allocs := a\<rparr>) \<and> C (c\<lparr>types := types c @ [t]\<rparr>))"

lemma catalog_columns_type:
  assumes "\<forall>a\<in>set (cols c). att_typid a \<in> ty_oid ` set (types c)"
  shows "catalog_columns_in (c\<lparr>types := types c @ [t]\<rparr>) i = catalog_columns_in c i"
proof -
  have first: "first_of (filter P (xs @ [y])) = first_of (filter P xs)" if "\<exists>x\<in>set xs. P x" for P and xs :: "rs_type list" and y
    using that by (cases "filter P xs") (auto simp: filter_empty_conv)
  have "typed_column (c\<lparr>types := types c @ [t]\<rparr>) a = typed_column c a" if "a \<in> set (cols c)" for a
  proof -
    have "\<exists>x\<in>set (types c). ty_oid x = att_typid a" using assms that by force
    from first [OF this, of t] show ?thesis by (simp add: typed_column_def column_default_in_def)
  qed
  then have "List.map_filter (typed_column (c\<lparr>types := types c @ [t]\<rparr>)) as = List.map_filter (typed_column c) as"
    if "set as \<subseteq> set (cols c)" for as
    using that by (induction as) (auto simp: List.map_filter_simps split: option.split)
  from this [of "sort_key att_num (filter (\<lambda>a. att_relid a = i \<and> \<not> att_isdropped a) (cols c))"]
  show ?thesis unfolding catalog_columns_in_def by auto
qed

lemma catalog_columns_same [simp]:
  "catalog_columns_in (c\<lparr>allocs := a\<rparr>) i = catalog_columns_in c i" "catalog_columns_in (c\<lparr>relations := b\<rparr>) i = catalog_columns_in c i"
  "catalog_columns_in (c\<lparr>parts := d\<rparr>) i = catalog_columns_in c i" "catalog_columns_in (c\<lparr>exts := e\<rparr>) i = catalog_columns_in c i"
  "catalog_columns_in (c\<lparr>vectors := f\<rparr>) i = catalog_columns_in c i" "catalog_columns_in (c\<lparr>depends := g\<rparr>) i = catalog_columns_in c i"
  "catalog_columns_in (c\<lparr>versions := h\<rparr>) i = catalog_columns_in c i"
  by (simp_all add: catalog_columns_in_def typed_column_def [abs_def] column_default_in_def)

lemma described_cong: "(\<And>i. catalog_columns_in d i = catalog_columns_in c i) \<Longrightarrow> described p d = described p c"
  by (simp add: described_def)

lemma integral_columns: "integral low c \<Longrightarrow> \<forall>a\<in>set (cols c). att_typid a \<in> ty_oid ` set (types c)"
  by (simp add: integral_iff)

lemma begun_types:
  assumes "begun low R p D c"
  shows "begun low R p D (c\<lparr>types := types c @ [t]\<rparr>)"
proof -
  have i: "integral low c" using assms by (simp add: begun_def)
  have "integral low (c\<lparr>types := types c @ [t]\<rparr>)" using i unfolding integral_iff by (auto simp: active_names_def)
  moreover have "described p (c\<lparr>types := types c @ [t]\<rparr>) = described p c"
    by (rule described_cong, rule catalog_columns_type [OF integral_columns [OF i]])
  ultimately show ?thesis
    using assms by (simp add: begun_def pending_entries_def version_ok_def version_row_def tables_described_def named_def schema_of_relation_def)
qed

lemma begun_same:
  assumes "begun low R p D c" and "integral low d" and "pending_entries d = pending_entries c" and "version_ok d = version_ok c"
    and "relations d = relations c" and "schemas d = schemas c" and "\<And>i. catalog_columns_in d i = catalog_columns_in c i"
  shows "begun low R p D d"
  using assms(1,2) described_cong [OF assms(7)]
  by (simp add: begun_def assms(3-6) rel_ids_def tables_described_def named_def schema_of_relation_def)

lemma begun_integral: "begun low R p D c \<Longrightarrow> integral low c"
  by (simp add: begun_def)

lemma integral_free [simp]:
  "integral low (c\<lparr>allocs := a\<rparr>) = integral low c" "integral low (c\<lparr>versions := v\<rparr>) = integral low c"
  "integral low (c\<lparr>parts := ps\<rparr>) = integral low c" "integral low (c\<lparr>exts := es\<rparr>) = integral low c"
  "integral low (c\<lparr>journal := js\<rparr>) = integral low c"
  by (simp_all add: integral_iff active_names_def)

lemma begun_free:
  assumes b: "begun low R p D c"
  shows "begun low R p D (c\<lparr>allocs := a\<rparr>)" "begun low R p D (c\<lparr>parts := ps\<rparr>)" "begun low R p D (c\<lparr>exts := es\<rparr>)"
  using begun_integral [OF b]
  by (intro begun_same [OF b]; simp add: pending_entries_def version_ok_def version_row_def)+

lemma typeable_begun: "typeable (begun low R p D)"
  unfolding typeable_def by (intro allI impI conjI begun_types begun_free)

lemma typeable_columns: "typeable (\<lambda>c. begun low R p D c \<and> catalog_columns_in c i = K)"
  using typeable_begun [of low R p D] catalog_columns_type [OF integral_columns]
  unfolding typeable_def by (auto simp: begun_def)

lemma begun_depends:
  assumes b: "begun low R p D c"
    and ds: "\<And>d. d \<in> set ds \<Longrightarrow> d \<in> set (depends c) \<or> dep_classid d = OBJECT_RELATION_KIND \<and> dep_refclassid d = OBJECT_RELATION_KIND
      \<and> dep_objid d \<in> R \<and> dep_refobjid d \<in> R"
  shows "begun low R p D (c\<lparr>depends := ds\<rparr>)"
proof (rule begun_same [OF b])
  have i: "integral low c" "rel_oid ` set (relations c) = R" using b by (simp_all add: begun_def rel_ids_def)
  have one: "dep_classid d \<in> set catalog_classes \<and> dep_refclassid d \<in> set catalog_classes
      \<and> (dep_classid d = OBJECT_RELATION_KIND \<longrightarrow> dep_objid d \<in> R) \<and> (dep_refclassid d = OBJECT_RELATION_KIND \<longrightarrow> dep_refobjid d \<in> R)
      \<and> (dep_classid d = OBJECT_CONSTRAINT_KIND \<longrightarrow> dep_objid d \<in> con_oid ` set (constraints c))
      \<and> (dep_refclassid d = OBJECT_CONSTRAINT_KIND \<longrightarrow> dep_refobjid d \<in> con_oid ` set (constraints c))
      \<and> (dep_classid d = OBJECT_SCHEMA_KIND \<longrightarrow> dep_objid d \<in> sch_oid ` set (schemas c))
      \<and> (dep_refclassid d = OBJECT_SCHEMA_KIND \<longrightarrow> dep_refobjid d \<in> sch_oid ` set (schemas c))" if "d \<in> set ds" for d
    using ds [OF that]
  proof
    assume "d \<in> set (depends c)"
    then show ?thesis using i unfolding integral_iff by blast
  qed (auto simp: catalog_classes_def object_kinds)
  show "integral low (c\<lparr>depends := ds\<rparr>)" using i one unfolding integral_iff by (simp add: active_names_def)
qed (simp_all add: pending_entries_def version_ok_def version_row_def)

text \<open>Marking relations unavailable.\<close>

definition marking :: "(rs_relation \<Rightarrow> rs_relation) \<Rightarrow> bool" where
  "marking f \<longleftrightarrow> (\<forall>r. rel_oid (f r) = rel_oid r \<and> rel_namespace (f r) = rel_namespace r \<and> rel_name (f r) = rel_name r
     \<and> rel_kind (f r) = rel_kind r \<and> rel_status (f r) \<noteq> ''active'')"

lemma active_names_mark:
  assumes "distinct (active_names low c)" "marking f"
  shows "distinct (active_names low (c\<lparr>relations := update_where Q f (relations c)\<rparr>))"
proof -
  have "set (map (\<lambda>r. (rel_namespace r, low (rel_name r))) (filter (\<lambda>r. rel_status r = ''active'') (update_where Q f rs)))
      \<subseteq> set (map (\<lambda>r. (rel_namespace r, low (rel_name r))) (filter (\<lambda>r. rel_status r = ''active'') rs))
    \<and> (distinct (map (\<lambda>r. (rel_namespace r, low (rel_name r))) (filter (\<lambda>r. rel_status r = ''active'') rs)) \<longrightarrow>
       distinct (map (\<lambda>r. (rel_namespace r, low (rel_name r))) (filter (\<lambda>r. rel_status r = ''active'') (update_where Q f rs))))" for rs
    using assms(2) by (induction rs) (auto simp: marking_def)
  with assms(1) show ?thesis by (simp add: active_names_def)
qed

lemma begun_mark:
  assumes b: "begun low R p D c" and f: "marking f" and Q: "\<And>q r. q \<in> D - D' \<Longrightarrow> r \<in> set (relations c) \<Longrightarrow> named c r = Some q \<Longrightarrow> Q r"
  shows "begun low R p D' (c\<lparr>relations := update_where Q f (relations c)\<rparr>)"
proof -
  let ?d = "c\<lparr>relations := update_where Q f (relations c)\<rparr>"
  have ids: "rel_oid ` set (relations ?d) = rel_oid ` set (relations c)"
    using f by (simp add: marking_def ids_update_where del: set_update_where)
  have ns: "rel_namespace ` set (relations ?d) = rel_namespace ` set (relations c)"
    using f by (simp add: marking_def ids_update_where del: set_update_where)
  have "distinct (active_names low ?d)" by (rule active_names_mark [OF _ f]) (use b in \<open>simp add: begun_def integral_iff\<close>)
  moreover have "rel_namespace ` set (relations ?d) \<subseteq> sch_oid ` set (schemas c)"
    unfolding ns using begun_integral [OF b] unfolding integral_iff by blast
  then have "\<forall>r\<in>set (relations ?d). rel_namespace r \<in> sch_oid ` set (schemas ?d)"
    by (simp add: image_subset_iff del: set_update_where)
  ultimately have "integral low ?d"
    using b ids unfolding begun_def integral_iff by simp
  moreover have "tables_described p D' ?d"
  proof -
    have same: "named ?d r = named c r" for r by (simp add: named_def schema_of_relation_def)
    have "described p ?d = described p c" by (rule described_cong) simp
    moreover have "r \<in> set (relations c) \<and> \<not> Q r" if "r \<in> set (relations ?d)" "rel_status r = ''active''" for r
      using that f by (auto simp: marking_def set_update_where split: if_splits)
    ultimately show ?thesis
      using b Q unfolding begun_def tables_described_def same by (metis DiffI)
  qed
  ultimately show ?thesis
    using b ids by (simp add: begun_def pending_entries_def version_ok_def version_row_def rel_ids_def)
qed

section \<open>Reading the physical side\<close>

lemma st_more: "st C B s \<Longrightarrow> (\<And>c. C c \<Longrightarrow> C' c) \<Longrightarrow> (\<And>p. B p \<Longrightarrow> B' p) \<Longrightarrow> st C' B' s"
  by (simp add: st_def)

lemma spec_pre: "spec P' m Q E \<Longrightarrow> (\<And>s. P s \<Longrightarrow> P' s) \<Longrightarrow> spec P m Q E"
  by (rule spec_conseq)

lemma spec_mapM_all:
  assumes "\<And>x. spec I (f x) (\<lambda>v s. I s \<and> R x v) E"
  shows "spec I (cmapM f xs) (\<lambda>vs s. I s \<and> list_all2 R xs vs) E"
proof (induction xs)
  case (Cons x xs)
  have "spec (\<lambda>s. I s \<and> R x v) (cbind (cmapM f xs) (\<lambda>vs. creturn (v # vs))) (\<lambda>vs s. I s \<and> list_all2 R (x # xs) vs) E" for v
    by (rule spec_pure, rule spec_bind [OF Cons.IH], rule spec_return) simp
  then show ?case unfolding cmapM.simps by (rule spec_bind [OF assms])
qed (simp add: spec_return)

lemma st_ensure_type:
  assumes ty: "typeable C"
  shows "inv_cmd (st C B) (ensure_type_id_for_duckdb_type X t)"
proof -
  have alloc: "inv_cmd (st C B) (allocate_oid X)"
    unfolding allocate_oid_def
    by (rule spec_bind [OF st_read], intro ro, rule spec_bind [OF st_exec [where C' = C]], use ty in \<open>simp add: typeable_def\<close>,
        blast, rule spec_return, assumption)
  have ins: "spec (st C B) (cexec X w (\<lambda>c. map_option (\<lambda>rows. c\<lparr>types := rows\<rparr>) (insert_type r (types c)))) (\<lambda>_. st C B) (\<lambda>_. st C B)" for w r
    by (rule st_exec) (use ty in \<open>auto simp: typeable_def dest!: type_oids.ins_appends\<close>)
  show ?thesis
    unfolding ensure_type_id_for_duckdb_type_def lookup_physical_type_id_def
    by (rule spec_option, rule spec_bind [OF st_read [OF ro_lift]], rule spec_bind [OF st_read [OF ro_query]],
        rule spec_option, rule spec_bind [OF alloc], rule spec_bind [OF ins], (rule spec_return, assumption)+)
qed

lemma st_load:
  assumes ty: "typeable C"
  shows "spec (st C B) (load_duckdb_columns X s r)
     (\<lambda>columns t. st C B t \<and> (\<exists>p. B p \<and> list_all2 (\<lambda>d cc. cc_name cc = dc_name d \<and> cc_duckdb_type cc = dc_type d)
        (duckdb_columns (x_phys X p) s r) columns)) (\<lambda>_. st C B)"
proof -
  let ?R = "\<lambda>d cc. cc_name cc = dc_name d \<and> cc_duckdb_type cc = dc_type d"
  have one: "spec (st C B') (load_column X row) (\<lambda>cc t. st C B' t \<and> ?R row cc) (\<lambda>_. st C B')" for row B'
    unfolding load_column_def by (rule spec_bind [OF st_ensure_type [OF ty]], rule spec_return) simp
  have look: "spec (st C B) (cphys X w (\<lambda>p. duckdb_columns p s r))
     (\<lambda>v. st C (\<lambda>p. B p \<and> duckdb_columns (x_phys X p) s r = v)) (\<lambda>_. st C B)" for w
    by (rule st_phys)
  have tail: "spec (st C (\<lambda>p. B p \<and> duckdb_columns (x_phys X p) s r = v)) (cbind (cmapM (load_column X) v) (\<lambda>columns.
      if columns = [] then cthrow e else creturn columns)) (\<lambda>columns t. st C B t \<and> (\<exists>p. B p \<and> list_all2 ?R (duckdb_columns (x_phys X p) s r) columns))
      (\<lambda>_. st C B)" for v e
    by (rule spec_conseq [OF spec_bind [where R = "\<lambda>columns t. st C (\<lambda>p. B p \<and> duckdb_columns (x_phys X p) s r = v) t \<and> list_all2 ?R v columns"
          and Q = "\<lambda>columns t. st C (\<lambda>p. B p \<and> duckdb_columns (x_phys X p) s r = v) t \<and> list_all2 ?R v columns",
          OF spec_mapM_all [OF one] spec_if [OF spec_throw spec_return]]]) (auto simp: st_def)
  show ?thesis unfolding load_duckdb_columns_def by (rule spec_bind [OF look tail])
qed

text \<open>The comparison of columns: what it accepts agrees with the engine, and it changes nothing but types.\<close>

lemma agree_columns:
  assumes "list_all2 (\<lambda>d cc. cc_name cc = dc_name d \<and> cc_duckdb_type cc = dc_type d) ds ps" and "length cs = length ps"
    and "List.find (\<lambda>(cc, pc). \<not> eq_ignore_case (cc_name cc) (cc_name pc) \<or> cc_type_id cc \<noteq> cc_type_id pc
            \<or> \<not> eq_ignore_case (cc_duckdb_type cc) (cc_duckdb_type pc)) (zip cs ps) = None"
  shows "list_all2 agree cs ds"
  using assms by (induction arbitrary: cs rule: list_all2_induct) (auto simp: length_Suc_conv agree_def split: if_splits)

lemma st_columns:
  "inv_cmd (st C B) (catalog_columns X rel)"
  unfolding catalog_columns_def by (rule st_read [OF ro_query])

lemma st_match_keeps:
  assumes "typeable C"
  shows "inv_cmd (st C B) (validate_catalog_columns_match_duckdb X rel s r)"
proof -
  have load: "inv_cmd (st C B) (load_duckdb_columns X s r)"
    by (rule spec_post [OF st_load [OF assms]]) simp_all
  show ?thesis
    unfolding validate_catalog_columns_match_duckdb_def
    by (rule spec_bind [OF st_columns], rule spec_bind [OF load], rule spec_if, rule spec_throw, assumption, rule spec_option,
        rule spec_return, assumption, rule spec_prod, rule spec_throw)
qed

lemma st_match:
  "spec (st (begun low R P D) (\<lambda>p. x_phys X p = P)) (validate_catalog_columns_match_duckdb X rel s r)
     (\<lambda>_. st (\<lambda>c. begun low R P D c \<and> list_all2 agree (catalog_columns_in c rel) (duckdb_columns P s r)) (\<lambda>p. x_phys X p = P))
     (\<lambda>_. st (begun low R P D) (\<lambda>p. x_phys X p = P))"
proof (rule spec_known [where f = "\<lambda>t. catalog_columns_in (cat t) rel"])
  fix K
  let ?C = "\<lambda>c. begun low R P D c \<and> catalog_columns_in c rel = K" and ?B = "\<lambda>p. x_phys X p = P"
  let ?R = "\<lambda>d cc. cc_name cc = dc_name d \<and> cc_duckdb_type cc = dc_type d"
  have read: "spec (st ?C ?B) (catalog_columns X rel) (\<lambda>v t. st ?C ?B t \<and> v = K) (\<lambda>_. st ?C ?B)"
    unfolding catalog_columns_def by (rule spec_post [OF st_query]) (auto simp: st_def)
  have load: "spec (st ?C ?B) (load_duckdb_columns X s r) (\<lambda>ps t. st ?C ?B t \<and> list_all2 ?R (duckdb_columns P s r) ps) (\<lambda>_. st ?C ?B)"
    by (rule spec_post [OF st_load [OF typeable_columns]]) auto
  have "spec (st ?C ?B) (validate_catalog_columns_match_duckdb X rel s r)
      (\<lambda>_ t. st ?C ?B t \<and> list_all2 agree K (duckdb_columns P s r)) (\<lambda>_. st ?C ?B)"
    unfolding validate_catalog_columns_match_duckdb_def
    by (rule spec_bind [OF read], rule spec_pure, rule spec_bind [OF load], rule spec_pure, rule spec_if, rule spec_throw, assumption,
        rule spec_option, rule spec_return, simp add: agree_columns, rule spec_prod, rule spec_throw)
  then show "spec (\<lambda>t. st (begun low R P D) ?B t \<and> catalog_columns_in (cat t) rel = K) (validate_catalog_columns_match_duckdb X rel s r)
     (\<lambda>_. st (\<lambda>c. begun low R P D c \<and> list_all2 agree (catalog_columns_in c rel) (duckdb_columns P s r)) ?B) (\<lambda>_. st (begun low R P D) ?B)"
    by (rule spec_conseq) (auto simp: st_def)
qed

lemma st_table:
  "spec (st (begun low R P D) (\<lambda>p. x_phys X p = P)) (validate_table_physical X rel s r)
     (\<lambda>_. st (\<lambda>c. begun low R P D c \<and> described P c (rel, s, r, k)) (\<lambda>p. x_phys X p = P))
     (\<lambda>_. st (begun low R P D) (\<lambda>p. x_phys X p = P))"
proof -
  let ?C = "begun low R P D" and ?B = "\<lambda>p. x_phys X p = P"
  have look: "spec (st ?C ?B) (cphys X w (\<lambda>p. length (filter (\<lambda>t. t = (s, r)) (ph_tables p))))
      (\<lambda>n t. st ?C ?B t \<and> n = length (filter (\<lambda>t. t = (s, r)) (ph_tables P))) (\<lambda>_. st ?C ?B)" for w
    by (rule spec_post [OF st_phys]) (auto simp: st_def)
  show ?thesis
    unfolding validate_table_physical_def
    by (rule spec_bind [OF look], rule spec_pure, rule spec_if, rule spec_throw, assumption, rule spec_post [OF st_match])
      (auto simp: st_def described_def filter_empty_conv)
qed

lemma st_physical_keeps:
  assumes "typeable C"
  shows "inv_cmd (st C B) (validate_table_physical X rel s r)" "inv_cmd (st C B) (validate_view_physical X rel s r)"
proof -
  have look: "inv_cmd (st C B) (cphys X w f)" for w and f :: "physical \<Rightarrow> nat"
    by (rule st_read, intro ro)
  show "inv_cmd (st C B) (validate_table_physical X rel s r)" "inv_cmd (st C B) (validate_view_physical X rel s r)"
    unfolding validate_table_physical_def validate_view_physical_def
    by (rule spec_bind [OF look], rule spec_if, rule spec_throw, assumption, rule st_match_keeps [OF assms])+
qed

section \<open>Marking\<close>

lemma marking_unavailable: "marking (\<lambda>r. r\<lparr>rel_status := ''unavailable'', rel_error := e\<rparr>)"
  by (simp add: marking_def)

lemma named_oid: "named c r = Some (i, s, n, k) \<Longrightarrow> rel_oid r = i \<and> rel_kind r = k"
  by (auto simp: named_def)

lemma st_mark:
  assumes "\<And>q. q \<in> D - D' \<Longrightarrow> fst q = rel"
  shows "spec (st (begun low R p D) B) (mark_relation_unavailable X rel reason) (\<lambda>_. st (begun low R p D') B) (\<lambda>_. st (begun low R p D) B)"
  unfolding mark_relation_unavailable_def
  by (rule st_exec) (use assms in \<open>force intro!: begun_mark marking_unavailable dest: named_oid\<close>)

lemma st_mark_same: "inv_cmd (st (begun low R p D) B) (mark_relation_unavailable X rel reason)"
  by (rule st_mark) simp

lemma st_mark_partition: "inv_cmd (st (begun low R p D) B) (mark_partition_failed X w i j reason)"
  unfolding mark_partition_failed_def by (rule st_exec) (auto intro: begun_free)

lemma st_vector:
  assumes "status \<in> set vector_build_statuses"
  shows "inv_cmd (st (begun low R p D) B) (mark_vector_index_recovery_status X i status reason)"
  unfolding mark_vector_index_recovery_status_def
proof (rule st_exec, drule sym, simp only: option.inject, hypsubst)
  fix c assume b: "begun low R p D c"
  let ?d = "c\<lparr>vectors := update_where (\<lambda>v. vx_relid v = i) (\<lambda>v. v\<lparr>vx_build_status := status, vx_error := reason\<rparr>) (vectors c)\<rparr>"
  have "integral low ?d"
    using begun_integral [OF b] assms unfolding integral_iff by (auto simp: valid_vector_def active_names_def set_update_where)
  then show "begun low R p D ?d"
    by (intro begun_same [OF b]) (simp_all add: pending_entries_def version_ok_def version_row_def)
qed

lemma st_reconcile: "inv_cmd (st (begun low R p D) B) (reconcile_vector_index_runtime_status X i)"
proof -
  have loaded: "inv_cmd (st (begun low R p D) B) (stmt X w (\<lambda>s. map_option (\<lambda>v. (v, s)) (ph_vss (x_phys X (phys s)))))" for w
    by (rule st_read, rule stmt_read_only) auto
  show ?thesis
    unfolding reconcile_vector_index_runtime_status_def
    by (rule spec_bind [OF st_read [OF ro_query]], rule spec_option, rule spec_return, assumption, rule spec_if, rule st_vector,
        simp add: vector_build_statuses_def, rule spec_if, rule spec_return, assumption, rule spec_bind [OF loaded], rule spec_if,
        rule st_vector, simp add: vector_build_statuses_def, rule spec_return)
qed

lemma st_index: "inv_cmd (st C B) (validate_index_physical X i s r)"
proof -
  have one: "inv_cmd (st C B) (validate_partition_indexes X j i s r)" for j
    unfolding validate_partition_indexes_def Let_def
    by (rule spec_bind [OF st_read], intro ro, rule spec_option, rule spec_throw, assumption, rule spec_bind [OF st_read], intro ro,
        rule spec_foreach, rule spec_bind [OF st_read], intro ro, rule spec_if, rule spec_return, assumption, rule spec_throw)
  show ?thesis
    unfolding validate_index_physical_def
    by (rule spec_bind [OF st_read], intro ro, rule spec_option, rule spec_bind [OF st_read], intro ro, rule spec_if,
        rule spec_throw, assumption, rule spec_return, assumption, rule one)
qed

lemma begun_less:
  assumes b: "begun low R p D c" and d: "\<And>q. q \<in> D - D' \<Longrightarrow> described p c q \<or> (case q of (_, _, _, k) \<Rightarrow> k \<noteq> ''r'')"
  shows "begun low R p D' c"
proof -
  have "\<exists>q. named c r = Some q \<and> (q \<in> D' \<or> described p c q)"
    if r: "r \<in> set (relations c)" "rel_status r = ''active''" "rel_kind r = ''r''" for r
  proof -
    obtain q where q: "named c r = Some q" "q \<in> D \<or> described p c q" using b r unfolding begun_def tables_described_def by blast
    have "case q of (_, _, _, k) \<Rightarrow> k = ''r''" using q(1) r(3) by (auto simp: named_def)
    then show ?thesis using q d [of q] by (cases q) auto
  qed
  then show ?thesis using b by (simp add: begun_def tables_described_def)
qed

section \<open>The validation of the relations\<close>

text \<open>One relation is looked at: it leaves the set of those still to be described.\<close>

lemma st_validate:
  fixes X :: "'p external"
  shows "spec (st (begun low R P D) (\<lambda>p. x_phys X p = P)) (validate_physical X q) (\<lambda>_. st (begun low R P (D - {q})) (\<lambda>p. x_phys X p = P))
     (\<lambda>_. st (begun low R P D) (\<lambda>p. x_phys X p = P))"
proof -
  obtain rel s r k where q: "q = (rel, s, r, k)" by (cases q)
  let ?B = "\<lambda>p. x_phys X p = P"
  have other: "st (begun low R P D) ?B t \<Longrightarrow> k \<noteq> ''r'' \<Longrightarrow> st (begun low R P (D - {q})) ?B t" for t
    by (erule st_more) (auto simp: q elim!: begun_less)
  have table: "spec (st (begun low R P D) ?B) (validate_table_physical X rel s r) (\<lambda>_. st (begun low R P (D - {q})) ?B)
      (\<lambda>_. st (begun low R P D) ?B)"
    by (rule spec_post [OF st_table [where k = k]]) (auto simp: q elim!: st_more begun_less)
  have keeps: "spec (st (begun low R P D) ?B) m (\<lambda>_. st (begun low R P (D - {q})) ?B) (\<lambda>_. st (begun low R P D) ?B)"
    if "inv_cmd (st (begun low R P D) ?B) m" "k \<noteq> ''r''" for m :: "('p, unit) db"
    by (rule spec_post [OF that(1)]) (simp_all add: other that(2))
  show ?thesis
    unfolding validate_physical_def q split_conv
    unfolding q [symmetric]
    by (rule spec_if, rule table, rule spec_if, rule keeps [OF st_physical_keeps(2) [OF typeable_begun]], assumption,
        rule spec_if, rule keeps [OF st_index], assumption, rule keeps [OF spec_return], assumption+)
qed

lemma st_relation:
  fixes X :: "'p external"
  shows "spec (st (begun low R P D) (\<lambda>p. x_phys X p = P)) (validate_physical_relation X q)
     (\<lambda>_. st (begun low R P (D - {q})) (\<lambda>p. x_phys X p = P)) (\<lambda>_ _. True)"
proof -
  obtain rel s r k where q: "q = (rel, s, r, k)" by (cases q)
  let ?B = "\<lambda>p. x_phys X p = P" and ?D' = "D - {q}"
  have vector: "spec (st (begun low R P D') ?B) (if k = ''i'' then mark_vector_index_recovery_status X rel ''unavailable'' t else creturn ())
      (\<lambda>_. st (begun low R P D') ?B) (\<lambda>_ _. True)" for D' t
    by (rule spec_if, rule spec_post [OF st_vector], simp add: vector_build_statuses_def, assumption, simp, rule spec_return, assumption)
  have mark: "spec (st (begun low R P D) ?B) (mark_relation_unavailable X rel t) (\<lambda>_. st (begun low R P ?D') ?B) (\<lambda>_ _. True)" for t
    by (rule spec_post [OF st_mark]) (auto simp: q)
  have reconcile: "spec (st (begun low R P D') ?B) (if k = ''i'' then reconcile_vector_index_runtime_status X rel else creturn ())
      (\<lambda>_. st (begun low R P D') ?B) (\<lambda>_ _. True)" for D'
    by (rule spec_if, rule spec_post [OF st_reconcile], assumption, simp, rule spec_return, assumption)
  show ?thesis
    unfolding validate_physical_relation_def q split_conv
    unfolding q [symmetric]
    by (rule spec_on_error [OF st_validate], rule spec_bind [OF mark vector], rule reconcile, simp)
qed

lemma st_relations:
  fixes X :: "'p external"
  shows "spec (st (begun low R P D) (\<lambda>p. x_phys X p = P)) (cforeach (validate_physical_relation X) qs)
     (\<lambda>_. st (begun low R P (D - set qs)) (\<lambda>p. x_phys X p = P)) (\<lambda>_ _. True)"
proof (induction qs arbitrary: D)
  case (Cons q qs)
  have e: "D - set (q # qs) = D - {q} - set qs" by auto
  show ?case unfolding cforeach.simps e by (rule spec_bind [OF st_relation Cons.IH])
qed (simp add: spec_return)

definition sound_start :: "(string \<Rightarrow> string) \<Rightarrow> catalog \<Rightarrow> bool" where
  "sound_start low c \<longleftrightarrow> integral low c \<and> pending_entries c = [] \<and> version_ok c"

lemma begun_start:
  assumes "sound_start low c"
  shows "begun low (rel_ids c) p (set (active_relations [''r'', ''v'', ''i''] c)) c"
proof -
  have found: "\<exists>q. named c r = Some q \<and> q \<in> set (active_relations [''r'', ''v'', ''i''] c)"
    if r: "r \<in> set (relations c)" "rel_status r = ''active''" "rel_kind r = ''r''" for r
  proof -
    have "rel_namespace r \<in> sch_oid ` set (schemas c)" using assms r(1) by (simp add: sound_start_def integral_iff)
    then have "schema_of_relation c r \<noteq> None" by (auto simp: schema_of_relation_def find_None_iff)
    then obtain q where "named c r = Some q" by (auto simp: named_def)
    moreover have "q \<in> set (active_relations [''r'', ''v'', ''i''] c)"
      unfolding active_relations_def using r calculation by (force simp: List.map_filter_def named_def)
    ultimately show ?thesis by blast
  qed
  have "tables_described p (set (active_relations [''r'', ''v'', ''i''] c)) c"
    unfolding tables_described_def using found by blast
  then show ?thesis using assms by (simp add: begun_def sound_start_def)
qed

lemma st_physical_relations:
  fixes X :: "'p external"
  shows "spec (st (sound_start low) (\<lambda>p. x_phys X p = P)) (validate_physical_relations X)
     (\<lambda>_. st (\<lambda>c. \<exists>R. begun low R P {} c) (\<lambda>p. x_phys X p = P)) (\<lambda>_ _. True)"
proof (rule spec_known [where f = "\<lambda>s. rel_ids (cat s)"])
  fix R
  let ?B = "\<lambda>p. x_phys X p = P"
  let ?C = "\<lambda>c. sound_start low c \<and> rel_ids c = R"
  have "spec (st ?C ?B) (cquery X w (active_relations [''r'', ''v'', ''i'']))
      (\<lambda>v. st (begun low R P (set v)) ?B) (\<lambda>_ _. True)" for w
    by (rule spec_post [OF st_query]) (auto elim!: st_more intro: begun_start)
  moreover have "spec (st (begun low R P (set v)) ?B) (cforeach (validate_physical_relation X) v)
      (\<lambda>_. st (\<lambda>c. \<exists>R. begun low R P {} c) ?B) (\<lambda>_ _. True)" for v
    by (rule spec_post [OF st_relations]) (auto elim!: st_more)
  ultimately have "spec (st ?C ?B) (validate_physical_relations X) (\<lambda>_. st (\<lambda>c. \<exists>R. begun low R P {} c) ?B) (\<lambda>_ _. True)"
    unfolding validate_physical_relations_def by (rule spec_bind)
  then show "spec (\<lambda>s. st (sound_start low) ?B s \<and> rel_ids (cat s) = R) (validate_physical_relations X)
     (\<lambda>_. st (\<lambda>c. \<exists>R. begun low R P {} c) ?B) (\<lambda>_ _. True)"
    by (rule spec_pre) (simp add: st_def)
qed

section \<open>The validation of the partitioned tables\<close>

abbreviation steady_start :: "(string \<Rightarrow> string) \<Rightarrow> int set \<Rightarrow> physical \<Rightarrow> 'p conn \<Rightarrow> bool" where
  "steady_start low R P \<equiv> st (begun low R P {}) (\<lambda>_. True)"

lemma st_children:
  "spec (steady_start low R P) (active_partition_children X i)
     (\<lambda>chs s. steady_start low R P s \<and> (\<forall>ch\<in>set chs. ap_child_oid ch \<in> R)) (\<lambda>_. steady_start low R P)"
  unfolding active_partition_children_def
proof (rule spec_post [OF st_query])
  fix chs s
  let ?rows = "\<lambda>c. by_partition_order (joined_partitions c (\<lambda>p. par_parent p = i \<and> par_status p = ''active''))"
  assume a: "st (\<lambda>c. begun low R P {} c \<and> map active_child (?rows c) = chs) (\<lambda>_. True) s"
  then have b: "begun low R P {} (cat s)" and c: "chs = map active_child (?rows (cat s))" by (auto simp: st_def)
  have "ap_child_oid ch \<in> R" if "ch \<in> set chs" for ch
  proof -
    from that obtain p r n where "(p, r, n) \<in> set (joined_partitions (cat s) (\<lambda>p. par_parent p = i \<and> par_status p = ''active''))"
      and ch: "ch = active_child (p, r, n)" by (auto simp: c by_partition_order_def)
    then have r: "r \<in> set (relations (cat s))" "rel_oid r = par_child p" by (auto dest: joined_partitionD)
    then have "rel_oid r \<in> rel_ids (cat s)" unfolding rel_ids_def by (intro imageI)
    then show ?thesis using b r(2) by (simp add: ch active_child_def begun_def)
  qed
  then show "steady_start low R P s \<and> (\<forall>ch\<in>set chs. ap_child_oid ch \<in> R)" using a by (auto simp: st_def)
qed simp

lemma st_child: "inv_cmd (steady_start low R P) (validate_partition_child X i ch)"
proof -
  have fail: "inv_cmd (steady_start low R P) (cbind (mark_partition_failed X w i j t) (\<lambda>_. cthrow e))" for w j t and e :: err
    by (rule spec_bind [OF st_mark_partition], rule spec_throw)
  show ?thesis
    unfolding validate_partition_child_def Let_def
    by (rule spec_if, rule fail, rule spec_on_error [OF st_physical_keeps(1) [OF typeable_begun]],
        rule spec_bind [OF st_mark_same], rule fail, rule spec_return, assumption, assumption)
qed

lemma st_entrypoint: "inv_cmd (steady_start low R P) (rebuild_partition_entrypoint X i sql)"
    "inv_cmd (steady_start low R P) (validate_entrypoint X i s r sql)"
proof -
  show rebuild: "inv_cmd (steady_start low R P) (rebuild_partition_entrypoint X i sql)" for sql
    unfolding rebuild_partition_entrypoint_def
    by (rule spec_bind [OF st_ddl], rule st_exec) (auto intro: begun_free)
  show "inv_cmd (steady_start low R P) (validate_entrypoint X i s r sql)"
    unfolding validate_entrypoint_def
    by (rule spec_bind [OF st_read], intro ro, rule spec_if, rule rebuild,
        rule spec_on_error [OF st_physical_keeps(2) [OF typeable_begun]], rule rebuild, rule spec_return, assumption, assumption)
qed

lemma st_sync:
  assumes "i \<in> R" "\<forall>ch\<in>set chs. ap_child_oid ch \<in> R"
  shows "inv_cmd (steady_start low R P) (sync_partition_dependencies X i chs)"
proof -
  have del: "inv_cmd (steady_start low R P) (cexec X w (\<lambda>c. Some (c\<lparr>depends := filter Q (depends c)\<rparr>)))" for w Q
    by (rule st_exec) (auto intro!: begun_depends)
  have ins: "inv_cmd (steady_start low R P) (write_dependency X w (OBJECT_RELATION_KIND, i, 0, OBJECT_RELATION_KIND, ap_child_oid ch, 0) t)"
    if "ch \<in> set chs" for ch w t
    unfolding write_dependency_def
    by (rule st_exec) (use that assms in \<open>auto intro!: begun_depends simp: dependency_row_def dest!: dependency_keys.ins_appends\<close>)
  show ?thesis
    unfolding sync_partition_dependencies_def by (rule spec_bind [OF del], rule spec_foreach, rule ins)
qed

lemma st_partitioned:
  fixes X :: "'p external"
  assumes "case q of (i, _, _, _) \<Rightarrow> i \<in> R"
  shows "spec (steady_start low R P) (validate_partitioned X q) (\<lambda>_. steady_start low R P) (\<lambda>_ _. True)"
proof -
  obtain i s r k where q: "q = (i, s, r, k)" by (cases q)
  have i: "i \<in> R" using assms by (simp add: q)
  have "inv_cmd (steady_start low R P) (validate_partitioned_relation X i s r)"
    unfolding validate_partitioned_relation_def
    by (rule spec_bind [OF st_children], rule spec_pure, rule spec_bind [OF spec_foreach], rule st_child,
        rule spec_bind [OF st_read], intro ro, rule spec_bind [OF st_entrypoint(2)],
        rule spec_bind [OF st_physical_keeps(2) [OF typeable_begun]], rule st_sync [OF i])
  then show ?thesis
    unfolding validate_partitioned_def q split_conv
    by (rule spec_on_error, intro spec_post [OF st_mark_same]) (auto intro: spec_return)
qed

lemma st_partitioned_relations:
  fixes X :: "'p external"
  shows "spec (steady_start low R P) (validate_partitioned_relations X) (\<lambda>_. steady_start low R P) (\<lambda>_ _. True)"
proof -
  have "spec (steady_start low R P) (cquery X w (active_relations [''p'']))
     (\<lambda>qs s. steady_start low R P s \<and> (\<forall>q\<in>set qs. case q of (i, _, _, _) \<Rightarrow> i \<in> R)) (\<lambda>_ _. True)" for w
    by (rule spec_post [OF st_query]) (auto simp: st_def begun_def rel_ids_def active_relations_def List.map_filter_def)
  moreover have "spec (steady_start low R P) (cforeach (validate_partitioned X) qs) (\<lambda>_. steady_start low R P) (\<lambda>_ _. True)"
    if "\<forall>q\<in>set qs. case q of (i, _, _, _) \<Rightarrow> i \<in> R" for qs
    by (rule spec_foreach, rule st_partitioned) (use that in blast)
  ultimately show ?thesis
    unfolding validate_partitioned_relations_def by (intro spec_bind) (auto intro: spec_pure)
qed

section \<open>The start\<close>

lemma spec_any: "spec P m Q E \<Longrightarrow> spec P m Q (\<lambda>_ _. True)"
  by (erule spec_post) simp_all

text \<open>A computation that only reads, from what it answers.\<close>

lemma st_reads:
  assumes ro: "read_only m" and b: "\<And>c. body_spec (\<lambda>d. d = c) m (\<lambda>v _. R v c)"
  shows "spec (st C B) m (\<lambda>v. st (\<lambda>c. C c \<and> R v c) B) (\<lambda>_ _. True)"
proof (rule specI)
  fix s assume a: "st C B s"
  obtain r s' where m: "m s = (r, s')" by force
  have "cat s' = cat s" "phys s' = phys s" using read_onlyD [OF ro m] by simp_all
  moreover have "\<forall>v. r = Inr v \<longrightarrow> R v (cat s)" using body_specD [OF b refl m] by simp
  ultimately show "case m s of (Inl e, s') \<Rightarrow> True | (Inr v, s') \<Rightarrow> st (\<lambda>c. C c \<and> R v c) B s'"
    using a m by (cases r) (auto simp: st_def)
qed

lemma st_version:
  "spec (st C B) (validate_catalog_version X) (\<lambda>_. st (\<lambda>c. C c \<and> version_ok c) B) (\<lambda>_ _. True)"
  unfolding validate_catalog_version_def
  by (rule spec_bind [OF st_query_row [THEN spec_any]], rule spec_if, rule spec_throw, simp,
      rule spec_bind [OF st_query_row [THEN spec_any]], rule spec_if, rule spec_throw, simp,
      rule spec_bind [OF st_query_row [THEN spec_any]], rule spec_if, rule spec_throw, simp, rule spec_return)
    (auto simp: version_ok_def elim!: st_more)

lemma version_ok_update [simp]: "version_ok (update_version (\<lambda>r. r\<lparr>ver_checksum := x\<rparr>) c) = version_ok c"
proof -
  have "version_row (update_version (\<lambda>r. r\<lparr>ver_checksum := x\<rparr>) c) = map_option (\<lambda>r. r\<lparr>ver_checksum := x\<rparr>) (version_row c)"
    by (rule version_row_update) simp
  then show ?thesis by (cases "version_row c") (simp_all add: version_ok_def)
qed

lemma checksum_ro [ro]: "read_only (calculate_catalog_checksum X)"
  unfolding calculate_catalog_checksum_def by (rule ro_bind, rule ro_fold, case_tac x, simp, intro ro, rule ro_return)

lemma st_refresh:
  assumes "\<And>c x. C c \<Longrightarrow> C (update_version (\<lambda>r. r\<lparr>ver_checksum := x\<rparr>) c)" and "\<And>c. C c \<Longrightarrow> version_ok c"
  shows "spec (st C B) (refresh_catalog_checksum X) (\<lambda>_. st (\<lambda>c. C c \<and> sealed (x_fmt X) c) B) (\<lambda>_ _. True)"
proof -
  have calc: "spec (st C B) (calculate_catalog_checksum X) (\<lambda>v. st (\<lambda>c. C c \<and> v = checksum (x_fmt X) c) B) (\<lambda>_ _. True)"
    by (rule st_reads, intro ro, rule body_post [OF sp_checksum]) simp
  show ?thesis
    unfolding refresh_catalog_checksum_def
  proof (rule spec_bind [OF calc], rule st_exec [THEN spec_any])
  fix sum c d assume c: "C c \<and> sum = checksum (x_fmt X) c" and d: "Some (update_version (\<lambda>r. r\<lparr>ver_checksum := sum\<rparr>) c) = Some d"
  then have s: "d = seal (x_fmt X) c" by (simp add: seal_def)
  have "version_row c \<noteq> None" using assms(2) c by (auto simp: version_ok_def)
  moreover have "C d" using c d assms(1) by auto
    ultimately show "C d \<and> sealed (x_fmt X) d" by (simp add: s sealed_seal)
  qed
qed

lemma pending_failed [simp]: "pending_entries (fail_pending summary c) = []"
  by (auto simp: pending_entries_def fail_pending_def filter_empty_conv set_update_where)

lemma version_ok_failed [simp]: "version_ok (fail_pending summary c) = version_ok c"
  by (simp add: version_ok_def fail_pending_def version_row_def)

lemma pending_update [simp]: "pending_entries (update_version f c) = pending_entries c"
  by (simp add: pending_entries_def update_version_def)

lemma st_journal:
  "spec (st version_ok B) (validate_catalog_journal_state X)
     (\<lambda>_. st (\<lambda>c. version_ok c \<and> pending_entries c = []) B) (\<lambda>_ _. True)"
proof -
  let ?C = "\<lambda>c. version_ok c \<and> pending_entries c = []"
  have fail: "spec (st version_ok B) (cexec X w (\<lambda>c. Some (fail_pending summary c))) (\<lambda>_. st ?C B) (\<lambda>_ _. True)" for w summary
    by (rule st_exec [THEN spec_any]) auto
  have refresh: "spec (st ?C B) (refresh_catalog_checksum X) (\<lambda>_. st ?C B) (\<lambda>_ _. True)"
    by (rule spec_post [OF st_refresh]) (auto elim: st_more)
  have read: "spec (st version_ok B) (cquery X w f) (\<lambda>_. st version_ok B) (\<lambda>_ _. True)" for w and f :: "catalog \<Rightarrow> string list"
    by (rule st_read [OF ro_query, THEN spec_any])
  have tail: "spec (st (\<lambda>c. version_ok c \<and> length (pending_entries c) = count) B) (if count = 0 then creturn () else
       cbind (cquery X w f) (\<lambda>summaries. cbind (cexec X w' (\<lambda>c. Some (fail_pending (join sep summaries) c))) (\<lambda>_.
       refresh_catalog_checksum X))) (\<lambda>_. st ?C B) (\<lambda>_ _. True)" for count w f w' sep
    by (rule spec_if, rule spec_return, simp add: st_def, rule spec_pre [OF spec_bind [OF read spec_bind [OF fail refresh]]])
      (simp add: st_def)
  show ?thesis
    unfolding validate_catalog_journal_state_def by (rule spec_bind [OF st_query [THEN spec_any] tail])
qed

lemma validate_integrity_ro: "read_only (validate_catalog_integrity X)" "read_only (validate_catalog_checksum X)"
  unfolding validate_catalog_integrity_def ensure_catalog_count_zero_def validate_catalog_checksum_def
  by (intro ro | simp)+

lemma integrity_body: "body_spec (\<lambda>d. d = c) (validate_catalog_integrity X) (\<lambda>_ _. integral (x_lower X) c)"
  unfolding validate_catalog_integrity_def by (rule body_post [OF sp_ensure_all]) (simp add: integral_def)

lemma st_integrity:
  "spec (st (\<lambda>c. version_ok c \<and> pending_entries c = []) B) (validate_catalog_integrity X) (\<lambda>_. st (sound_start (x_lower X)) B) (\<lambda>_ _. True)"
  by (rule spec_post [OF st_reads [where R = "\<lambda>_. integral (x_lower X)", OF validate_integrity_ro(1) integrity_body]])
    (auto simp: sound_start_def elim!: st_more)

text \<open>What a start leaves: the catalog is sound and sealed, and the active tables are those of the engine.\<close>

definition started :: "'p external \<Rightarrow> physical \<Rightarrow> catalog \<Rightarrow> bool" where
  "started X P c \<longleftrightarrow> sound_start (x_lower X) c \<and> sealed (x_fmt X) c \<and> tables_described P {} c"

lemma st_rest:
  fixes X :: "'p external"
  shows "spec (\<lambda>s. x_phys X (phys s) = P) (cbind (validate_catalog_version X) (\<lambda>_.
     cbind (validate_catalog_journal_state X) (\<lambda>_.
     cbind (validate_catalog_integrity X) (\<lambda>_.
     cbind (validate_catalog_checksum X) (\<lambda>_.
     cbind (validate_physical_relations X) (\<lambda>_.
     cbind (validate_partitioned_relations X) (\<lambda>_.
     refresh_catalog_checksum X))))))) (\<lambda>_ s. started X P (cat s)) (\<lambda>_ _. True)"
proof -
  let ?B = "\<lambda>p. x_phys X p = P" and ?low = "x_lower X"
  have version: "spec (\<lambda>s. x_phys X (phys s) = P) (validate_catalog_version X) (\<lambda>_. st version_ok ?B) (\<lambda>_ _. True)"
    by (rule spec_conseq [OF st_version [where C = "\<lambda>_. True"]]) (auto simp: st_def)
  have sum: "spec (st (sound_start ?low) ?B) (validate_catalog_checksum X) (\<lambda>_. st (sound_start ?low) ?B) (\<lambda>_ _. True)"
    by (rule st_read [OF validate_integrity_ro(2), THEN spec_any])
  have parts: "spec (st (\<lambda>c. \<exists>R. begun ?low R P {} c) ?B) (validate_partitioned_relations X)
      (\<lambda>_. st (\<lambda>c. \<exists>R. begun ?low R P {} c) (\<lambda>_. True)) (\<lambda>_ _. True)"
  proof (rule spec_known [where f = "\<lambda>s. rel_ids (cat s)"])
    fix R
    show "spec (\<lambda>s. st (\<lambda>c. \<exists>R. begun ?low R P {} c) ?B s \<and> rel_ids (cat s) = R) (validate_partitioned_relations X)
      (\<lambda>_. st (\<lambda>c. \<exists>R. begun ?low R P {} c) (\<lambda>_. True)) (\<lambda>_ _. True)"
      by (rule spec_conseq [OF st_partitioned_relations [where R = R]]) (auto simp: st_def begun_def)
  qed
  have upd: "begun ?low R P {} (update_version (\<lambda>r. r\<lparr>ver_checksum := x\<rparr>) c)" if "begun ?low R P {} c" for R x c
    by (rule begun_same [OF that]) (use begun_integral [OF that] in \<open>simp_all add: update_version_def\<close>, simp_all flip: update_version_def)
  have last: "spec (st (\<lambda>c. \<exists>R. begun ?low R P {} c) (\<lambda>_. True)) (refresh_catalog_checksum X) (\<lambda>_ s. started X P (cat s)) (\<lambda>_ _. True)"
  proof (rule spec_post [OF st_refresh])
    show "\<exists>R. begun ?low R P {} (update_version (\<lambda>r. r\<lparr>ver_checksum := x\<rparr>) c)" if "\<exists>R. begun ?low R P {} c" for x c
      using that upd by blast
  qed (auto simp: st_def started_def begun_def sound_start_def)
  show ?thesis
    by (rule spec_bind [OF version], rule spec_bind [OF st_journal], rule spec_bind [OF st_integrity], rule spec_bind [OF sum],
        rule spec_bind [OF st_physical_relations], rule spec_bind [OF parts], rule last)
qed

lemma st_ensure:
  assumes "(''rsduck_catalog'', ''rs_catalog_version'') \<in> set (ph_tables P)"
  shows "spec (\<lambda>s. x_phys X (phys s) = P) (ensure_catalog X) (\<lambda>_ s. x_phys X (phys s) = P) (\<lambda>_ _. True)"
proof -
  have "spec (\<lambda>s. x_phys X (phys s) = P) (catalog_exists X) (\<lambda>v s. x_phys X (phys s) = P \<and> v) (\<lambda>_ _. True)"
    unfolding catalog_exists_def
    by (rule spec_conseq [OF st_phys [where C = "\<lambda>_. True" and B = "\<lambda>p. x_phys X p = P"]]) (use assms in \<open>auto simp: st_def\<close>)
  then show ?thesis
    unfolding ensure_catalog_def by (rule spec_bind, intro spec_pure spec_if) (simp_all add: spec_return)
qed

section \<open>Properties\<close>

text \<open>C2: A start that reports success, on whatever tables it found, leaves a sound catalog: all integrity checks pass,
  no journal entry is pending, the versions are the supported ones and the status is ready, and the stored checksum is the
  checksum of the tables.\<close>

theorem successful_start_is_sound:
  assumes "validate_after_start X s = (Inr (), t)"
  shows "integral (x_lower X) (cat t) \<and> pending_entries (cat t) = [] \<and> version_ok (cat t) \<and> sealed (x_fmt X) (cat t)"
proof -
  obtain t0 where e: "ensure_catalog X s = (Inr (), t0)"
    using assms unfolding validate_after_start_def cbind_def by (auto split: prod.splits sum.splits)
  have "started X (x_phys X (phys t0)) (cat t)"
    by (rule spec_InrD [OF st_rest, of X t0]) (use assms e in \<open>simp_all add: validate_after_start_def cbind_def\<close>)
  then show ?thesis by (simp add: started_def sound_start_def)
qed

text \<open>C1: A start of a server whose catalog exists, when it reports success, has compared every table with the engine:
  each table that is still active lies in a schema of the catalog, the engine had a table of that name when the start
  began, and the columns of the two agree one by one in name and type. Tables that do not agree are no longer active.\<close>

theorem active_tables_match_the_engine:
  assumes "validate_after_start X s = (Inr (), t)"
    and "(''rsduck_catalog'', ''rs_catalog_version'') \<in> set (ph_tables (x_phys X (phys s)))"
    and "r \<in> set (relations (cat t))" and "rel_status r = ''active''" and "rel_kind r = ''r''"
  shows "\<exists>n. schema_of_relation (cat t) r = Some n
     \<and> (sch_name n, rel_name r) \<in> set (ph_tables (x_phys X (phys s)))
     \<and> list_all2 agree (catalog_columns_in (cat t) (rel_oid r)) (duckdb_columns (x_phys X (phys s)) (sch_name n) (rel_name r))"
proof -
  let ?P = "x_phys X (phys s)"
  have "started X ?P (cat t)"
    by (rule spec_InrD [OF spec_bind [OF st_ensure [OF assms(2)] st_rest], of X s, folded validate_after_start_def])
      (use assms(1) in simp_all)
  then obtain q where "named (cat t) r = Some q" "described ?P (cat t) q"
    using assms(3-5) unfolding started_def tables_described_def by blast
  then show ?thesis by (auto simp: named_def described_def)
qed

section \<open>A start that succeeds\<close>

definition shown :: physical where
  "shown = \<lparr>ph_tables = [(''rsduck_catalog'', ''rs_catalog_version''), (''main'', ''people'')], ph_views = [], ph_indexes = [],
     ph_columns = [(''main'', ''people'', \<lparr>dc_name = ''id'', dc_type = ''INTEGER'', dc_nullable = True, dc_default = None, dc_index = 1\<rparr>)],
     ph_vss = None\<rparr>"

definition showing :: "unit external" where
  "showing = sample\<lparr>x_phys := \<lambda>_. shown\<rparr>"

abbreviation people :: rs_relation where
  "people \<equiv> relation_row 10000 0 2200 ''people'' ''r'' 1 10"

definition people_catalog :: catalog where
  "people_catalog = main_catalog\<lparr>types := bootstrap_types, relations := [people],
     cols := [column_row 10000 \<lparr>cc_name = ''id'', cc_type_id = TYPE_INT4, cc_duckdb_type = ''INTEGER'', cc_attnum = 1,
       cc_not_null = False, cc_default = None\<rparr>]\<rparr>"

definition people_world :: "unit conn" where
  "people_world = sample_conn (seal sample_fmt people_catalog)"

lemma runs_phys:
  assumes "reliable X" "x_phys X = (\<lambda>_. P)"
  shows "runs (cphys X w f) c (f P) c"
  using assms by (auto simp: runs_def reliable_def cphys_def stmt_def)

lemma runs_on_error: "runs m c () d \<Longrightarrow> runs n d () e \<Longrightarrow> runs (on_error m h n) c () e"
  unfolding on_error_def
  by (rule runs_bind [of "ctry m" c "Inr ()" d]) (fastforce simp: runs_def ctry_def, simp)

lemma runs_return_eq: "v = w \<Longrightarrow> runs (creturn v) c w c"
  by (simp add: runs_return)

lemma people_tables:
  "relations (seal F people_catalog) = [people]" "schemas (seal F people_catalog) = schemas main_catalog"
  "types (seal F people_catalog) = bootstrap_types" "cols (seal F people_catalog) = cols people_catalog"
  "defaults (seal F people_catalog) = []" "journal (seal F people_catalog) = []"
  by (simp_all add: seal_def people_catalog_def main_catalog_def small_catalog_def empty_catalog_def update_version_def)

lemma people_columns: "catalog_columns_in (seal F people_catalog) 10000 =
    [\<lparr>cc_name = ''id'', cc_type_id = TYPE_INT4, cc_duckdb_type = ''INTEGER'', cc_attnum = 1, cc_not_null = False, cc_default = None\<rparr>]"
  unfolding catalog_columns_in_def typed_column_def column_default_in_def people_tables by code_simp

lemma people_relations: "active_relations [''r'', ''v'', ''i''] (seal F people_catalog) = [(10000, ''main'', ''people'', ''r'')]"
  "active_relations [''p''] (seal F people_catalog) = []"
  unfolding active_relations_def schema_of_relation_def people_tables by code_simp+

lemma people_rest:
  "vectors (seal F people_catalog) = []" "depends (seal F people_catalog) = []" "pending_entries (seal F people_catalog) = []"
  by (simp_all add: seal_def people_catalog_def main_catalog_def small_catalog_def empty_catalog_def update_version_def pending_entries_def)

lemma people_integral: "integral to_lower (seal F people_catalog)"
proof -
  have "2200 \<in> sch_oid ` set (schemas main_catalog)" "TYPE_INT4 \<in> ty_oid ` set bootstrap_types" by code_simp+
  then show ?thesis
    unfolding integral_iff active_names_def people_tables people_rest
    by (simp add: relation_row_def people_catalog_def column_row_def)
qed

lemma people_version: "\<exists>v. version_row (seal F people_catalog) = Some v \<and> ver_schema_version v = CATALOG_VERSION
   \<and> ver_snapshot_format v = SNAPSHOT_FORMAT_VERSION \<and> ver_status v = ''ready'' \<and> ver_checksum v = checksum F (seal F people_catalog)"
proof -
  have v: "version_row people_catalog = Some \<lparr>ver_id = 1, ver_schema_version = 2, ver_snapshot_format = 3, ver_epoch = 0,
      ver_checksum = [], ver_status = ''ready''\<rparr>"
    by (simp add: version_row_def people_catalog_def main_catalog_def small_catalog_def)
  then have "sealed F (seal F people_catalog)" by (intro sealed_seal) simp
  moreover have "version_row (seal F people_catalog) = map_option (\<lambda>r. r\<lparr>ver_checksum := checksum F people_catalog\<rparr>) (version_row people_catalog)"
    unfolding seal_def by (rule version_row_update) simp
  ultimately show ?thesis using v by (simp add: sealed_def CATALOG_VERSION_def SNAPSHOT_FORMAT_VERSION_def)
qed

lemma reliable_showing: "reliable showing"
  unfolding showing_def reliable_def sample_ext_def by simp

lemma runs_people: "runs (validate_physical_relation showing (10000, ''main'', ''people'', ''r'')) (seal sample_fmt people_catalog) () (seal sample_fmt people_catalog)"
proof -
  let ?c = "seal sample_fmt people_catalog"
  note R = reliable_showing
  have P: "x_phys showing = (\<lambda>_. shown)" by (simp add: showing_def)
  have d: "duckdb_columns shown ''main'' ''people'' = [\<lparr>dc_name = ''id'', dc_type = ''INTEGER'', dc_nullable = True, dc_default = None, dc_index = 1\<rparr>]"
    by code_simp
  have t: "scalar_type_id_for_duckdb_type ''INTEGER'' = Some TYPE_INT4" by code_simp
  have load: "runs (load_duckdb_columns showing ''main'' ''people'') ?c
      [\<lparr>cc_name = ''id'', cc_type_id = TYPE_INT4, cc_duckdb_type = ''INTEGER'', cc_attnum = 1, cc_not_null = False, cc_default = None\<rparr>] ?c"
    unfolding load_duckdb_columns_def
    by (rule runs_bind [OF runs_phys [OF R P]], simp only: d,
        simp add: load_column_def ensure_type_id_for_duckdb_type_def t cbind_def creturn_def runs_def)
  have match: "runs (validate_catalog_columns_match_duckdb showing 10000 ''main'' ''people'') ?c () ?c"
    unfolding validate_catalog_columns_match_duckdb_def catalog_columns_def
    by (rule runs_bind [OF runs_query [OF R]], unfold people_columns, rule runs_bind [OF load]) (simp add: runs_return eq_ignore_case_def)
  have n: "length (filter (\<lambda>t. t = (''main'', ''people'')) (ph_tables shown)) = 1" by code_simp
  have "runs (validate_table_physical showing 10000 ''main'' ''people'') ?c () ?c"
    unfolding validate_table_physical_def
    by (rule runs_bind [OF runs_phys [OF R P]], unfold n, simp add: match)
  then show ?thesis
    unfolding validate_physical_relation_def validate_physical_def
    by (simp, intro runs_on_error) (assumption | rule runs_return)+
qed

lemma people_start: "runs (validate_after_start showing) (seal sample_fmt people_catalog) () (seal sample_fmt (seal sample_fmt people_catalog))"
proof -
  let ?c = "seal sample_fmt people_catalog"
  note R = reliable_showing
  have P: "x_phys showing = (\<lambda>_. shown)" and F: "x_fmt showing = sample_fmt" and L: "x_lower showing = to_lower"
    by (simp_all add: showing_def sample_ext_def)
  obtain v where v: "version_row ?c = Some v" "ver_schema_version v = CATALOG_VERSION"
    "ver_snapshot_format v = SNAPSHOT_FORMAT_VERSION" "ver_status v = ''ready''" "ver_checksum v = checksum sample_fmt ?c"
    using people_version by blast
  have "(''rsduck_catalog'', ''rs_catalog_version'') \<in> set (ph_tables shown)" by code_simp
  then have ensure: "runs (ensure_catalog showing) ?c () ?c"
    unfolding ensure_catalog_def catalog_exists_def
    by (intro runs_bind [OF runs_phys [OF R P]]) (simp add: runs_return)
  have version: "runs (validate_catalog_version showing) ?c () ?c"
    unfolding validate_catalog_version_def
    by (rule runs_bind, rule runs_query_row [OF R], simp add: v, simp add: v,
        rule runs_bind, rule runs_query_row [OF R], simp add: v, simp add: v,
        rule runs_bind, rule runs_query_row [OF R], simp add: v, simp add: v runs_return)
  have journal: "runs (validate_catalog_journal_state showing) ?c () ?c"
    unfolding validate_catalog_journal_state_def
    by (rule runs_bind [OF runs_query [OF R]]) (simp add: people_rest runs_return)
  have integrity: "runs (validate_catalog_integrity showing) ?c () ?c"
    unfolding validate_catalog_integrity_def
    by (rule validate_runs [OF R]) (use people_integral in \<open>simp add: L integral_def\<close>)
  have sum: "runs (validate_catalog_checksum showing) ?c () ?c"
    unfolding validate_catalog_checksum_def
    by (rule runs_bind, rule runs_query_row [OF R], simp add: v, rule runs_bind [OF runs_checksum [OF R]]) (simp add: F v runs_return)
  have physical: "runs (validate_physical_relations showing) ?c () ?c"
    unfolding validate_physical_relations_def
    by (rule runs_bind [OF runs_query [OF R]], unfold people_relations cforeach.simps, rule runs_bind [OF runs_people], rule runs_return)
  have parts: "runs (validate_partitioned_relations showing) ?c () ?c"
    unfolding validate_partitioned_relations_def
    by (rule runs_bind [OF runs_query [OF R]], unfold people_relations cforeach.simps, rule runs_return)
  have refresh: "runs (refresh_catalog_checksum showing) ?c () (seal sample_fmt ?c)"
    unfolding refresh_catalog_checksum_def
    by (rule runs_bind [OF runs_checksum [OF R]], rule runs_exec [OF R]) (simp add: F seal_def)
  show ?thesis
    unfolding validate_after_start_def
    by (rule runs_bind [OF ensure], rule runs_bind [OF version], rule runs_bind [OF journal], rule runs_bind [OF integrity],
        rule runs_bind [OF sum], rule runs_bind [OF physical], rule runs_bind [OF parts], rule refresh)
qed

lemma people_started:
  "\<exists>t. validate_after_start showing people_world = (Inr (), t) \<and> relations (cat t) = [people]"
proof -
  have "cat people_world = seal sample_fmt people_catalog" by (simp add: people_world_def sample_conn_def)
  from people_start [unfolded runs_def, rule_format, OF this]
  obtain t where "validate_after_start showing people_world = (Inr (), t)" "cat t = seal sample_fmt (seal sample_fmt people_catalog)"
    by blast
  then show ?thesis by (auto simp: people_tables seal_def update_version_def people_catalog_def)
qed

theorem successful_start_is_sound_witness:
  "\<exists>t. validate_after_start showing people_world = (Inr (), t)
    \<and> integral to_lower (cat t) \<and> pending_entries (cat t) = [] \<and> version_ok (cat t) \<and> sealed sample_fmt (cat t)"
proof -
  obtain t where t: "validate_after_start showing people_world = (Inr (), t)" using people_started by blast
  from successful_start_is_sound [OF t] show ?thesis using t by (simp add: showing_def sample_ext_def)
qed

theorem active_tables_match_the_engine_witness:
  "\<exists>t n. validate_after_start showing people_world = (Inr (), t) \<and> schema_of_relation (cat t) people = Some n
     \<and> (sch_name n, ''people'') \<in> set (ph_tables shown)
     \<and> list_all2 agree (catalog_columns_in (cat t) 10000) (duckdb_columns shown (sch_name n) ''people'')"
proof -
  obtain t where t: "validate_after_start showing people_world = (Inr (), t)" "relations (cat t) = [people]" using people_started by blast
  have P: "x_phys showing = (\<lambda>_. shown)" by (simp add: showing_def)
  have "(''rsduck_catalog'', ''rs_catalog_version'') \<in> set (ph_tables shown)" by code_simp
  with active_tables_match_the_engine [OF t(1), of people] show ?thesis using t by (simp add: P relation_row_def)
qed

end
