(* ===== verification/Db_Handle.thy ===== *)
theory Db_Handle
  imports Sql_Value Sql_Route
begin

text \<open>
  The front of the database, \<^verbatim>\<open>DbHandle\<close> of \<^verbatim>\<open>src/db/engine.rs\<close> with the errors of
  \<^verbatim>\<open>src/db/error.rs\<close>: a statement is trimmed, its parameters are bound, it is routed, and the
  bound text goes to the read pool or to the writer. What the pool and the writer do is the record
  \<open>engine\<close>, a change of the engine's state \<open>'d\<close>. Main result: no parameter value changes what
  the engine is asked to do.
\<close>

section \<open>Errors\<close>

datatype db_error_kind = KInvalidInput | KQueueFull | KWorkerStopped | KExecution | KSnapshot

text \<open>The constructors of \<^verbatim>\<open>DbError\<close>, with what its message is made of.\<close>

datatype db_error =
    EmptySql | BindFailed param_err | RouteFailed err
  | QueueFull string | WorkerStopped string | ExecutionFailed string | SnapshotFailed string

fun error_kind :: "db_error \<Rightarrow> db_error_kind" where
  "error_kind EmptySql = KInvalidInput"
| "error_kind (BindFailed e) = KInvalidInput"
| "error_kind (RouteFailed e) = KInvalidInput"
| "error_kind (QueueFull queue_name) = KQueueFull"
| "error_kind (WorkerStopped queue_name) = KWorkerStopped"
| "error_kind (ExecutionFailed message) = KExecution"
| "error_kind (SnapshotFailed message) = KSnapshot"

text \<open>\<^verbatim>\<open>Display\<close>; the texts of binding and parse errors are those of other parts.\<close>

fun error_text :: "(param_err \<Rightarrow> string) \<Rightarrow> (err \<Rightarrow> string) \<Rightarrow> db_error \<Rightarrow> string" where
  "error_text bind_text parse_text EmptySql = ''empty sql''"
| "error_text bind_text parse_text (BindFailed e) = bind_text e"
| "error_text bind_text parse_text (RouteFailed e) = parse_text e"
| "error_text bind_text parse_text (QueueFull queue_name) = queue_name @ '' queue is full''"
| "error_text bind_text parse_text (WorkerStopped queue_name) = queue_name @ '' worker stopped''"
| "error_text bind_text parse_text (ExecutionFailed message) = message"
| "error_text bind_text parse_text (SnapshotFailed message) = message"

section \<open>Requests\<close>

record 'd engine =
  query_typed :: "'d \<Rightarrow> string \<Rightarrow> string \<Rightarrow> sql_route \<Rightarrow> string \<Rightarrow> (db_error + sql_typed_result) \<times> 'd"
  execute_typed :: "'d \<Rightarrow> string \<Rightarrow> string \<Rightarrow> sql_route \<Rightarrow> string \<Rightarrow> (db_error + sql_typed_result) \<times> 'd"
  describe :: "'d \<Rightarrow> string \<Rightarrow> string \<Rightarrow> sql_route \<Rightarrow> (db_error + sql_column list) \<times> 'd"

text \<open>What a handle is opened with: the engine, the parser and the rendering of numbers.\<close>

record 'd handle =
  h_engine :: "'d engine"
  h_parser :: sqlparser
  h_fmt :: float_fmt

text \<open>The bound statement and its route; both requests start with it.\<close>

definition bound_statement :: "'d handle \<Rightarrow> string \<Rightarrow> sql_param list \<Rightarrow> db_error + string \<times> sql_route_decision" where
  "bound_statement H sql params =
     (let sql_trimmed = trim sql in
      if sql_trimmed = [] then Inl EmptySql
      else case bind_sql_params (h_fmt H) sql_trimmed params of
        Inl e \<Rightarrow> Inl (BindFailed e)
      | Inr sql_bound \<Rightarrow> (case route_sql (h_parser H) sql_bound of
            Inl e \<Rightarrow> Inl (RouteFailed e)
          | Inr decision \<Rightarrow> Inr (sql_bound, decision)))"

definition execute_typed_sql_with_params_as ::
    "'d handle \<Rightarrow> 'd \<Rightarrow> string \<Rightarrow> string \<Rightarrow> sql_param list \<Rightarrow> (db_error + sql_typed_result) \<times> 'd" where
  "execute_typed_sql_with_params_as H d username sql params =
     (case bound_statement H sql params of
        Inl e \<Rightarrow> (Inl e, d)
      | Inr (sql_bound, decision) \<Rightarrow> (case rd_route decision of
            Read \<Rightarrow> query_typed (h_engine H) d username sql_bound (rd_route decision) (rd_command decision)
          | Write \<Rightarrow> execute_typed (h_engine H) d username sql_bound (rd_route decision) (rd_command decision)))"

definition execute_typed_sql_as ::
    "'d handle \<Rightarrow> 'd \<Rightarrow> string \<Rightarrow> string \<Rightarrow> (db_error + sql_typed_result) \<times> 'd" where
  "execute_typed_sql_as H d username sql = execute_typed_sql_with_params_as H d username sql []"

definition describe_sql_with_params_as ::
    "'d handle \<Rightarrow> 'd \<Rightarrow> string \<Rightarrow> string \<Rightarrow> sql_param list \<Rightarrow> (db_error + sql_column list) \<times> 'd" where
  "describe_sql_with_params_as H d username sql params =
     (case bound_statement H sql params of
        Inl e \<Rightarrow> (Inl e, d)
      | Inr (sql_bound, decision) \<Rightarrow> describe (h_engine H) d username sql_bound (rd_route decision))"

section \<open>The operations of one user\<close>

text \<open>The states a user's requests can lead the engine to.\<close>

inductive engine_reaches :: "'d engine \<Rightarrow> string \<Rightarrow> 'd \<Rightarrow> 'd \<Rightarrow> bool" for E user d0 where
  reach_start: "engine_reaches E user d0 d0"
| reach_query: "engine_reaches E user d0 d \<Longrightarrow> engine_reaches E user d0 (snd (query_typed E d user sql route command))"
| reach_execute: "engine_reaches E user d0 d \<Longrightarrow> engine_reaches E user d0 (snd (execute_typed E d user sql route command))"
| reach_describe: "engine_reaches E user d0 d \<Longrightarrow> engine_reaches E user d0 (snd (describe E d user sql route))"

text \<open>What every request of one user keeps, and with it every sequence of them.\<close>

locale user_requests =
  fixes E :: "'d engine" and user :: string and keeps :: "'d \<Rightarrow> bool"
  assumes query_keeps: "keeps d \<Longrightarrow> keeps (snd (query_typed E d user sql route command))"
    and execute_keeps: "keeps d \<Longrightarrow> keeps (snd (execute_typed E d user sql route command))"
    and describe_keeps: "keeps d \<Longrightarrow> keeps (snd (describe E d user sql route))"
begin

lemma reaches_keep: "engine_reaches E user d d' \<Longrightarrow> keeps d \<Longrightarrow> keeps d'"
  by (induction rule: engine_reaches.induct) (auto intro: query_keeps execute_keeps describe_keeps)

lemma request_keeps:
  "h_engine H = E \<Longrightarrow> keeps d \<Longrightarrow> keeps (snd (execute_typed_sql_with_params_as H d user sql params))"
  by (auto simp: execute_typed_sql_with_params_as_def query_keeps execute_keeps split: sum.split sql_route.split)

lemma described_keeps:
  "h_engine H = E \<Longrightarrow> keeps d \<Longrightarrow> keeps (snd (describe_sql_with_params_as H d user sql params))"
  by (auto simp: describe_sql_with_params_as_def describe_keeps split: sum.split)

end

interpretation reached: user_requests E user "engine_reaches E user d0" for E user d0
  by unfold_locales (auto intro: engine_reaches.intros)

section \<open>Properties\<close>

text \<open>A statement with parameters is refused before it reaches the engine, or the engine gets one
  statement whose text outside literals is that of the statement with the placeholders, whatever the
  parameters are; it goes to the read pool only where its route is Read.\<close>

theorem requests_carry_the_statement:
  assumes "list_all quoted_param params" and "separated Normal (trim sql)"
  shows "case bound_statement H sql params of
      Inl e \<Rightarrow> execute_typed_sql_with_params_as H d user sql params = (Inl e, d)
    | Inr (bound, decision) \<Rightarrow> code_of False Normal bound = code_of True Normal (trim sql)
        \<and> route_sql (h_parser H) bound = Inr decision
        \<and> execute_typed_sql_with_params_as H d user sql params
          = (if rd_route decision = Read then query_typed (h_engine H) d user bound Read (rd_command decision)
             else execute_typed (h_engine H) d user bound Write (rd_command decision))"
proof (cases "bound_statement H sql params")
  case (Inr b)
  then obtain bound decision where b: "b = (bound, decision)"
    and bind: "bind_sql_params (h_fmt H) (trim sql) params = Inr bound"
    and route: "route_sql (h_parser H) bound = Inr decision"
    by (auto simp: bound_statement_def Let_def split: if_splits sum.splits)
  have "code_of False Normal bound = code_of True Normal (trim sql)"
    using scan_code_preserved [OF _ assms] bind
    by (auto simp: bind_sql_params_def scan_sql_params_def result_simps split: if_splits)
  with Inr b route show ?thesis
    by (auto simp: execute_typed_sql_with_params_as_def split: sql_route.split)
qed (simp add: execute_typed_sql_with_params_as_def)

theorem requests_carry_the_statement_witness:
  "let H = \<lparr>h_engine = \<lparr>query_typed = (\<lambda>d user sql route command. (Inl (QueueFull ''read''), d + length sql)),
              execute_typed = (\<lambda>d user sql route command. (Inl (QueueFull ''write''), d)),
              describe = (\<lambda>d user sql route. (Inr [], d))\<rparr>,
            h_parser = one_statement (Query \<lparr>q_fetch = False, q_limit_clause = None\<rparr>), h_fmt = no_floats\<rparr>
   in case bound_statement H '' SELECT $1 '' [PText ''x'']  of
      Inl e \<Rightarrow> execute_typed_sql_with_params_as H 0 ''bob'' '' SELECT $1 '' [PText ''x''] = (Inl e, 0)
    | Inr (bound, decision) \<Rightarrow> code_of False Normal bound = code_of True Normal (trim '' SELECT $1 '')
        \<and> route_sql (h_parser H) bound = Inr decision
        \<and> execute_typed_sql_with_params_as H 0 ''bob'' '' SELECT $1 '' [PText ''x'']
          = (if rd_route decision = Read then query_typed (h_engine H) 0 ''bob'' bound Read (rd_command decision)
             else execute_typed (h_engine H) 0 ''bob'' bound Write (rd_command decision))"
  unfolding Let_def by (rule requests_carry_the_statement) code_simp+

end
