(* ===== verification/Mysql_Result.thy ===== *)
theory Mysql_Result
  imports Mysql_Session
begin

text \<open>
  Results on the wire: the row and column encoders of \<^verbatim>\<open>src/server/mysql/command.rs\<close>. A text
  row is a sequence of length-encoded strings with a marker for NULL, a binary row a null bitmap and
  the values that are not NULL in the encoding of their types. Main results: both encodings are read
  back value by value, the binary one by the server's own decoder of execute packets, so what a
  statement returns and what a client binds mean the same bytes; a whole answer is read back
  packet by packet.
\<close>

section \<open>Encoders\<close>

definition resultset_header :: "nat \<Rightarrow> u8 list" where
  "resultset_header column_count = put_lenenc_int (of_nat column_count)"

fun decimals_for_type :: "sql_type \<Rightarrow> u8" where
  "decimals_for_type data_type =
     (if data_type \<in> {TFloat4, TFloat8, TNumeric} then 31
      else if data_type \<in> {TTimestamp, TTimestampTz, TTime} then 6 else 0)"

definition mysql_column_definition :: "string \<Rightarrow> sql_column \<Rightarrow> u8 list" where
  "mysql_column_definition database column =
     (let (column_type, charset, flags) = mysql_type_for_sql_type (col_type column) in
      put_lenenc_str ''def'' @ put_lenenc_str database @ put_lenenc_str [] @ put_lenenc_str []
      @ put_lenenc_str (col_name column) @ put_lenenc_str (col_name column) @ [0x0C]
      @ put_u16_le charset @ put_u32_le (1024 * 1024) @ [column_type] @ put_u16_le flags
      @ [decimals_for_type (col_type column)] @ [0, 0])"

definition param_column_definition :: "nat \<Rightarrow> u8 list" where
  "param_column_definition idx =
     mysql_column_definition [] \<lparr>col_name = ''?'' @ show_nat (idx + 1), col_type = TText\<rparr>"

definition text_cell :: "float_fmt \<Rightarrow> sql_value \<Rightarrow> u8 list" where
  "text_cell F v = (if v = VNull then [0xFB]
     else put_lenenc_str (case text_value F v of Some t \<Rightarrow> t | None \<Rightarrow> []))"

definition text_row :: "float_fmt \<Rightarrow> sql_value list \<Rightarrow> u8 list" where
  "text_row F row = concat (map (text_cell F) row)"

definition put_binary_date :: "naive_date \<Rightarrow> u8 list" where
  "put_binary_date d =
     [4] @ put_u16_le (word_of_int (d_year d)) @ [of_nat (d_month d), of_nat (d_day d)]"

definition put_binary_datetime :: "naive_date \<Rightarrow> naive_time \<Rightarrow> u8 list" where
  "put_binary_datetime d t =
     (let micros = t_nanos t div 1000 in
      [if micros = 0 then 7 else 11]
      @ put_u16_le (word_of_int (d_year d)) @ [of_nat (d_month d), of_nat (d_day d)]
      @ [of_nat (t_hour t), of_nat (t_minute t), of_nat (t_second t)]
      @ (if micros \<noteq> 0 then put_u32_le (of_nat micros) else []))"

definition put_binary_time :: "naive_time \<Rightarrow> u8 list" where
  "put_binary_time t =
     (let micros = t_nanos t div 1000 in
      [if micros = 0 then 8 else 12] @ [0] @ put_u32_le 0
      @ [of_nat (t_hour t), of_nat (t_minute t), of_nat (t_second t)]
      @ (if micros \<noteq> 0 then put_u32_le (of_nat micros) else []))"

fun put_binary_value :: "float_fmt \<Rightarrow> sql_value \<Rightarrow> u8 list" where
  "put_binary_value F VNull = []"
| "put_binary_value F (VBool v) = [of_bool v]"
| "put_binary_value F (VInt16 v) = put_u16_le v"
| "put_binary_value F (VInt32 v) = put_u32_le v"
| "put_binary_value F (VInt64 v) = put_u64_le v"
| "put_binary_value F (VFloat32 v) = put_u32_le v"
| "put_binary_value F (VFloat64 v) = put_u64_le v"
| "put_binary_value F (VDate d) = put_binary_date d"
| "put_binary_value F (VTime t) = put_binary_time t"
| "put_binary_value F (VTimestamp d t) = put_binary_datetime d t"
| "put_binary_value F (VTimestampTz d t) = put_binary_datetime d t"
| "put_binary_value F (VBytes v) = put_lenenc_bytes v"
| "put_binary_value F (VDecimal v) = put_lenenc_str v"
| "put_binary_value F (VNumericText v) = put_lenenc_str v"
| "put_binary_value F (VText v) = put_lenenc_str v"
| "put_binary_value F (VUuid v) = put_lenenc_str v"
| "put_binary_value F (VJson v) = put_lenenc_str v"
| "put_binary_value F (VInterval months days ns) =
     put_lenenc_str (case text_value F (VInterval months days ns) of Some t \<Rightarrow> t | None \<Rightarrow> [])"

text \<open>
  \<^verbatim>\<open>binary_row\<close>: the values are appended behind the bitmap, so the loop is split into the bits
  it sets and the bytes it appends.
\<close>

fun set_null_bits :: "nat \<Rightarrow> sql_value list \<Rightarrow> u8 list \<Rightarrow> u8 list" where
  "set_null_bits idx [] bitmap = bitmap"
| "set_null_bits idx (v # vs) bitmap =
     set_null_bits (Suc idx) vs
       (if v = VNull
        then (let bit = idx + 2 in
              bitmap[bit div 8 := or (bitmap ! (bit div 8)) (push_bit (bit mod 8) 1)])
        else bitmap)"

definition binary_row :: "float_fmt \<Rightarrow> sql_value list \<Rightarrow> u8 list" where
  "binary_row F row =
     [0] @ set_null_bits 0 row (replicate ((length row + 7 + 2) div 8) 0)
     @ concat (map (put_binary_value F) row)"

definition result_packets :: "float_fmt \<Rightarrow> bool \<Rightarrow> string + sql_typed_result \<Rightarrow> u8 list list" where
  "result_packets F binary result = (case result of
     Inr (TypedQuery columns rows) \<Rightarrow>
       [resultset_header (length columns)] @ map (mysql_column_definition ''memory'') columns @ [eof_packet]
       @ map (\<lambda>row. if binary then binary_row F row else text_row F row) rows @ [eof_packet]
   | Inr (TypedExecute command affected_rows) \<Rightarrow> [ok_packet_with_rows affected_rows]
   | Inl e \<Rightarrow> [err_packet 1105 ''HY000'' e])"

text \<open>The writes of a handler: each packet takes up the sequence number the last one left.\<close>

fun write_all :: "u8 \<Rightarrow> u8 list list \<Rightarrow> u8 list \<times> u8" where
  "write_all sq [] = ([], sq)"
| "write_all sq (p # ps) =
     (let (out, sq1) = write_packet sq p; (outs, sq2) = write_all sq1 ps in (out @ outs, sq2))"

definition send_result :: "float_fmt \<Rightarrow> u8 \<Rightarrow> string + sql_typed_result \<Rightarrow> bool \<Rightarrow> u8 list \<times> u8" where
  "send_result F sq result binary = write_all sq (result_packets F binary result)"

section \<open>What the other side reads\<close>

text \<open>The type a value is announced with, the parameter it is read back as, and the values the encoding covers.\<close>

fun wire_type :: "sql_value \<Rightarrow> u8" where
  "wire_type (VBool v) = MYSQL_TYPE_TINY"
| "wire_type (VInt16 v) = MYSQL_TYPE_SHORT"
| "wire_type (VInt32 v) = MYSQL_TYPE_LONG"
| "wire_type (VInt64 v) = MYSQL_TYPE_LONGLONG"
| "wire_type (VFloat32 v) = MYSQL_TYPE_FLOAT"
| "wire_type (VFloat64 v) = MYSQL_TYPE_DOUBLE"
| "wire_type (VDate d) = MYSQL_TYPE_DATE"
| "wire_type (VTime t) = MYSQL_TYPE_TIME"
| "wire_type (VTimestamp d t) = MYSQL_TYPE_DATETIME"
| "wire_type (VTimestampTz d t) = MYSQL_TYPE_TIMESTAMP"
| "wire_type (VBytes v) = MYSQL_TYPE_BLOB"
| "wire_type (VDecimal v) = MYSQL_TYPE_NEWDECIMAL"
| "wire_type (VNumericText v) = MYSQL_TYPE_NEWDECIMAL"
| "wire_type (VJson v) = MYSQL_TYPE_JSON"
| "wire_type _ = MYSQL_TYPE_VAR_STRING"

definition clock_text :: "naive_time \<Rightarrow> string" where
  "clock_text t =
     (if t_nanos t div 1000 = 0
      then pad0 2 (t_hour t) @ '':'' @ pad0 2 (t_minute t) @ '':'' @ pad0 2 (t_second t)
      else format_time t)"

fun wire_param :: "float_fmt \<Rightarrow> sql_value \<Rightarrow> sql_param" where
  "wire_param F VNull = PNull"
| "wire_param F (VBool v) = PInteger (of_bool v)"
| "wire_param F (VInt16 v) = PInteger (sint v)"
| "wire_param F (VInt32 v) = PInteger (sint v)"
| "wire_param F (VInt64 v) = PInteger (sint v)"
| "wire_param F (VFloat32 v) = PFloat (f32_to_f64 v)"
| "wire_param F (VFloat64 v) = PFloat v"
| "wire_param F (VDate d) = PText (format_date d)"
| "wire_param F (VTime t) = PText (clock_text t)"
| "wire_param F (VTimestamp d t) = PText (format_date d @ '' '' @ clock_text t)"
| "wire_param F (VTimestampTz d t) = PText (format_date d @ '' '' @ clock_text t)"
| "wire_param F (VBytes v) = PBytes v"
| "wire_param F v = PText (the (text_value F v))"

definition plain_date :: "naive_date \<Rightarrow> bool" where
  "plain_date d \<longleftrightarrow> 0 \<le> d_year d \<and> d_year d \<le> 9999 \<and> d_month d \<le> 12 \<and> d_day d \<le> 31"

definition plain_time :: "naive_time \<Rightarrow> bool" where
  "plain_time t \<longleftrightarrow> t_hour t < 24 \<and> t_minute t < 60 \<and> t_second t < 60 \<and> t_nanos t < 1000000000"

definition sendable_text :: "string \<Rightarrow> bool" where
  "sendable_text s \<longleftrightarrow> utf8_valid (bytes_of s) \<and> length s < 2 ^ 64"

fun sendable :: "float_fmt \<Rightarrow> sql_value \<Rightarrow> bool" where
  "sendable F (VDate d) = plain_date d"
| "sendable F (VTime t) = plain_time t"
| "sendable F (VTimestamp d t) = (plain_date d \<and> plain_time t)"
| "sendable F (VTimestampTz d t) = (plain_date d \<and> plain_time t)"
| "sendable F (VBytes v) = (length v < 2 ^ 64)"
| "sendable F v = (case wire_param F v of PText s \<Rightarrow> sendable_text s | _ \<Rightarrow> True)"

text \<open>The decoders of a client: a binary row with the types of its columns, and the cells of a text row.\<close>

definition read_binary_row :: "u8 list \<Rightarrow> sql_param list decoder" where
  "read_binary_row types = dbind get_u8 (\<lambda>_. dbind (take_bytes ((length types + 7 + 2) div 8)) (\<lambda>bitmap.
     read_values bitmap 2 types))"

definition read_text_cell :: "string option decoder" where
  "read_text_cell input idx =
     (if idx < length input \<and> input ! idx = 0xFB then Inr (None, idx + 1)
      else rbind (get_lenenc_bytes input idx) (\<lambda>(bs, i). Inr (Some (string_of bs), i)))"

fun read_text_row :: "nat \<Rightarrow> string option list decoder" where
  "read_text_row 0 = dreturn []"
| "read_text_row (Suc n) = dbind read_text_cell (\<lambda>c. dbind (read_text_row n) (\<lambda>cs. dreturn (c # cs)))"

fun read_payloads :: "nat \<Rightarrow> u8 list \<Rightarrow> wire_err + u8 list list \<times> u8 list" where
  "read_payloads 0 stream = Inr ([], stream)"
| "read_payloads (Suc n) stream = rbind (read_packet stream) (\<lambda>(p, rest).
     rbind (read_payloads n rest) (\<lambda>(ps, rest'). Inr (pk_payload p # ps, rest')))"

section \<open>Values\<close>

lemma reads_byte: "reads (f b) cs v \<Longrightarrow> reads (dbind get_u8 f) (b # cs) v"
  using reads_dbind [OF reads_u8] by fastforce

lemma reads_last: "reads d bs w \<Longrightarrow> reads (f w) [] v \<Longrightarrow> reads (dbind d f) bs v"
  using reads_dbind by fastforce

lemma reads_text:
  assumes "sendable_text s"
  shows "reads (dbind get_lenenc_bytes (\<lambda>v. if utf8_valid v then dreturn (PText (string_of v)) else dthrow InvalidUtf8))
    (put_lenenc_str s) (PText s)"
proof -
  from assms have "reads get_lenenc_bytes (put_lenenc_str s) (bytes_of s)"
    using reads_lenenc_bytes [of "bytes_of s"] by (simp add: sendable_text_def put_lenenc_str_def bytes_of_def)
  then show ?thesis
    by (rule reads_last) (use assms in \<open>simp add: sendable_text_def reads_dreturn\<close>)
qed

lemma unat_small: "n < 256 \<Longrightarrow> unat (of_nat n :: u8) = n"
  by (simp add: unat_of_nat)

lemma unat_year: "0 \<le> y \<Longrightarrow> y \<le> 9999 \<Longrightarrow> unat (word_of_int y :: 16 word) = nat y"
  by (simp add: unsigned_of_int take_bit_eq_mod nat_mod_distrib)

lemma date_text_plain:
  "plain_date d \<Longrightarrow> date_text (word_of_int (d_year d)) (of_nat (d_month d)) (of_nat (d_day d)) = format_date d"
  by (simp add: plain_date_def date_text_def format_date_def show_u8_2_def unat_small unat_year)

lemma clock_fields:
  "plain_time t \<Longrightarrow> unat (of_nat (t_hour t) :: u8) = t_hour t \<and> unat (of_nat (t_minute t) :: u8) = t_minute t
    \<and> unat (of_nat (t_second t) :: u8) = t_second t"
  by (simp add: plain_time_def unat_small)

lemma micros_field:
  "plain_time t \<Longrightarrow> unat (of_nat (t_nanos t div 1000) :: 32 word) = t_nanos t div 1000"
  using less_mult_imp_div_less [of "t_nanos t" 1000000 1000] by (simp add: plain_time_def unat_of_nat)

lemma format_time_plain:
  "plain_time t \<Longrightarrow> format_time t =
     pad0 2 (t_hour t) @ '':'' @ pad0 2 (t_minute t) @ '':'' @ pad0 2 (t_second t) @ ''.'' @ pad0 6 (t_nanos t div 1000)"
  by (simp add: plain_time_def format_time_def)

lemma reads_dreturn_eq: "x = v \<Longrightarrow> reads (dreturn x) [] v"
  by (simp add: reads_dreturn)

lemma reads_date: "plain_date d \<Longrightarrow> reads parse_binary_datetime (put_binary_date d) (format_date d)"
  unfolding parse_binary_datetime_def put_binary_date_def append_Cons append_Nil
  by (rule reads_byte, simp, rule reads_dbind [OF reads_u16], (rule reads_byte)+, rule reads_dreturn_eq)
    (simp add: date_text_plain)

lemma reads_datetime:
  assumes "plain_date d" and "plain_time t"
  shows "reads parse_binary_datetime (put_binary_datetime d t) (format_date d @ '' '' @ clock_text t)"
proof (cases "t_nanos t div 1000 = 0")
  case True
  then have bytes: "put_binary_datetime d t = 7 # put_u16_le (word_of_int (d_year d))
      @ [of_nat (d_month d), of_nat (d_day d), of_nat (t_hour t), of_nat (t_minute t), of_nat (t_second t)]"
    by (simp add: put_binary_datetime_def)
  show ?thesis
    unfolding parse_binary_datetime_def bytes
    by (rule reads_byte, simp add: Let_def, rule reads_dbind [OF reads_u16], (rule reads_byte)+,
        rule reads_dreturn_eq)
      (simp add: True clock_text_def clock_fields assms date_text_plain show_u8_2_def)
next
  case False
  then have bytes: "put_binary_datetime d t = 11 # put_u16_le (word_of_int (d_year d))
      @ of_nat (d_month d) # of_nat (d_day d) # of_nat (t_hour t) # of_nat (t_minute t) # of_nat (t_second t)
      # put_u32_le (of_nat (t_nanos t div 1000))"
    by (simp add: put_binary_datetime_def)
  show ?thesis
    unfolding parse_binary_datetime_def bytes
    by (rule reads_byte, simp add: Let_def, rule reads_dbind [OF reads_u16], (rule reads_byte)+,
        rule reads_last [OF reads_u32], rule reads_dreturn_eq)
      (simp add: False clock_text_def format_time_plain clock_fields micros_field assms date_text_plain show_u8_2_def)
qed

lemma reads_time:
  assumes "plain_time t"
  shows "reads parse_binary_time (put_binary_time t) (clock_text t)"
proof -
  have hours: "unat ((ucast (of_nat (t_hour t) :: u8) :: 32 word) + 0 * 24) = t_hour t"
    using clock_fields [OF assms] assms by (simp add: unat_ucast_mod plain_time_def)
  show ?thesis
  proof (cases "t_nanos t div 1000 = 0")
    case True
    then have bytes: "put_binary_time t = 8 # 0 # put_u32_le 0 @ [of_nat (t_hour t), of_nat (t_minute t), of_nat (t_second t)]"
      by (simp add: put_binary_time_def)
    show ?thesis
      unfolding parse_binary_time_def bytes
      by (rule reads_byte, simp add: Let_def, rule reads_byte, rule reads_dbind [OF reads_u32], (rule reads_byte)+, rule reads_dreturn_eq)
        (use hours in \<open>simp add: True clock_text_def clock_fields assms show_u8_2_def\<close>)
  next
    case False
    then have bytes: "put_binary_time t = 12 # 0 # put_u32_le 0 @ of_nat (t_hour t) # of_nat (t_minute t) # of_nat (t_second t)
        # put_u32_le (of_nat (t_nanos t div 1000))"
      by (simp add: put_binary_time_def)
    show ?thesis
      unfolding parse_binary_time_def bytes
      by (rule reads_byte, simp add: Let_def, rule reads_byte, rule reads_dbind [OF reads_u32], (rule reads_byte)+,
          rule reads_last [OF reads_u32], rule reads_dreturn_eq)
        (use hours in \<open>simp add: False clock_text_def format_time_plain clock_fields micros_field assms show_u8_2_def\<close>)
  qed
qed

lemmas reads_value =
  reads_dbind_dreturn [OF reads_u8] reads_dbind_dreturn [OF reads_u16] reads_dbind_dreturn [OF reads_u32]
  reads_dbind_dreturn [OF reads_u64] reads_dbind_dreturn [OF reads_lenenc_bytes]
  reads_dbind_dreturn [OF reads_date] reads_dbind_dreturn [OF reads_time]

lemma reads_binary_value:
  assumes "sendable F v" and "v \<noteq> VNull"
  shows "reads (parse_binary_param (wire_type v)) (put_binary_value F v) (wire_param F v)"
proof (cases v)
  case (VBool b)
  have "reads (dbind get_u8 (\<lambda>v. dreturn (PInteger (sint v)))) [of_bool b] (PInteger (sint (of_bool b :: u8)))"
    by (rule reads_value)
  with VBool show ?thesis by (cases b) (simp_all add: parse_binary_param_def)
next
  case (VTimestamp d t)
  with assms reads_dbind_dreturn [OF reads_datetime, of d t PText] show ?thesis
    by (simp add: parse_binary_param_def mysql_type_defs)
next
  case (VTimestampTz d t)
  with assms reads_dbind_dreturn [OF reads_datetime, of d t PText] show ?thesis
    by (simp add: parse_binary_param_def mysql_type_defs)
qed (use assms reads_value reads_text in \<open>simp_all add: parse_binary_param_def mysql_type_defs put_lenenc_str_def\<close>)

section \<open>The null bitmap\<close>

lemma null_bit_iff: "null_bit bs i \<longleftrightarrow> bit (bs ! (i div 8)) (i mod 8)"
  by (simp add: null_bit_def bit_iff_and_push_bit_not_eq_0)

lemma length_set_null_bits [simp]: "length (set_null_bits idx row bs) = length bs"
  by (induction idx row bs rule: set_null_bits.induct) (simp_all add: Let_def)

lemma null_bit_set:
  assumes "i div 8 < length bs"
  shows "null_bit (bs[i div 8 := or (bs ! (i div 8)) (push_bit (i mod 8) 1)]) j \<longleftrightarrow> j = i \<or> null_bit bs j"
proof (cases "j div 8 = i div 8")
  case True
  then have "j = i \<longleftrightarrow> j mod 8 = i mod 8" by (metis div_mult_mod_eq)
  with True assms show ?thesis
    by (auto simp: null_bit_iff bit_simps)
next
  case False
  then show ?thesis by (auto simp: null_bit_iff)
qed

lemma null_bit_set_null_bits:
  "(idx + length row + 1) div 8 < length bs \<Longrightarrow>
   null_bit (set_null_bits idx row bs) j \<longleftrightarrow> null_bit bs j \<or> (\<exists>k < length row. j = idx + k + 2 \<and> row ! k = VNull)"
proof (induction idx row bs rule: set_null_bits.induct)
  case (2 idx v vs bs)
  have "(idx + 2) div 8 < length bs" using 2(2) by (auto intro: le_less_trans [OF div_le_mono])
  then have head: "null_bit (if v = VNull then (let bit = idx + 2 in
        bs[bit div 8 := or (bs ! (bit div 8)) (push_bit (bit mod 8) 1)]) else bs) j
      \<longleftrightarrow> null_bit bs j \<or> j = idx + 2 \<and> v = VNull"
    using null_bit_set [of "idx + 2" bs j] by (auto simp: Let_def simp del: push_bit_of_1)
  have "(\<exists>k < length (v # vs). j = idx + k + 2 \<and> (v # vs) ! k = VNull)
      \<longleftrightarrow> j = idx + 2 \<and> v = VNull \<or> (\<exists>k < length vs. j = Suc idx + k + 2 \<and> vs ! k = VNull)"
    by (auto simp: Ex_less_Suc2)
  with 2 head show ?case by (simp add: Let_def)
qed simp

lemma null_bit_zeros: "i div 8 < n \<Longrightarrow> \<not> null_bit (replicate n 0) i"
  by (simp add: null_bit_iff)

text \<open>In the bitmap of a row, bit \<open>k + 2\<close> is set exactly where the value \<open>k\<close> is NULL.\<close>

lemma row_bitmap:
  assumes "k < length row"
  shows "null_bit (set_null_bits 0 row (replicate ((length row + 7 + 2) div 8) 0)) (2 + k) \<longleftrightarrow> row ! k = VNull"
proof -
  have "(2 + k) div 8 < (length row + 7 + 2) div 8" "(0 + length row + 1) div 8 < (length row + 7 + 2) div 8"
    using assms by linarith+
  with assms show ?thesis by (auto simp: null_bit_set_null_bits null_bit_zeros)
qed

lemma reads_values:
  assumes "\<And>k. k < length row \<Longrightarrow> null_bit bitmap (b + k) \<longleftrightarrow> row ! k = VNull"
    and "list_all (sendable F) row"
  shows "reads (read_values bitmap b (map wire_type row)) (concat (map (put_binary_value F) row)) (map (wire_param F) row)"
  using assms
proof (induction row arbitrary: b)
  case Nil
  then show ?case by (simp add: reads_dreturn)
next
  case (Cons v row)
  from Cons.prems(1) [of 0] have v: "null_bit bitmap b \<longleftrightarrow> v = VNull" by simp
  have "reads (if null_bit bitmap b then dreturn PNull else parse_binary_param (wire_type v)) (put_binary_value F v) (wire_param F v)"
    using Cons.prems(2) v by (simp add: reads_dreturn reads_binary_value)
  moreover have "reads (read_values bitmap (Suc b) (map wire_type row)) (concat (map (put_binary_value F) row)) (map (wire_param F) row)"
    using Cons.prems(1) [of "Suc k" for k] Cons.prems(2) by (intro Cons.IH) auto
  ultimately show ?case by (simp add: reads_dbind reads_dbind_dreturn)
qed

lemma reads_binary_row:
  assumes "list_all (sendable F) row"
  shows "reads (read_binary_row (map wire_type row)) (binary_row F row) (map (wire_param F) row)"
  unfolding read_binary_row_def binary_row_def append_Cons append_Nil
  by (rule reads_byte, rule reads_dbind, rule reads_take, simp, rule reads_values [OF _ assms])
    (use row_bitmap in \<open>simp add: ac_simps\<close>)

section \<open>Text rows and whole answers\<close>

lemma hd_put_lenenc_int: "\<exists>b bs. put_lenenc_int n = b # bs \<and> b \<noteq> 0xFB"
proof -
  have "(ucast n :: u8) \<noteq> 0xFB" if "n < 251"
  proof
    assume "(ucast n :: u8) = 0xFB"
    then have "unat (ucast n :: u8) = 251" by simp
    with that show False by (simp add: unat_ucast_mod word_less_nat_alt)
  qed
  then show ?thesis by (auto simp: put_lenenc_int_def)
qed

lemma reads_text_cell:
  assumes "\<And>t. text_value F v = Some t \<Longrightarrow> length t < 2 ^ 64"
  shows "reads read_text_cell (text_cell F v) (text_value F v)"
proof (cases "text_value F v")
  case None
  then show ?thesis by (simp add: text_value_None_iff text_cell_def reads_def read_text_cell_def)
next
  case (Some t)
  then have v: "v \<noteq> VNull" by auto
  from assms [OF Some] have "reads get_lenenc_bytes (put_lenenc_str t) (bytes_of t)"
    using reads_lenenc_bytes [of "bytes_of t"] by (simp add: put_lenenc_str_def bytes_of_def)
  from reads_bind_return [OF this, of "\<lambda>bs. Some (string_of bs)"]
  have "reads (\<lambda>input idx. rbind (get_lenenc_bytes input idx) (\<lambda>(bs, i). Inr (Some (string_of bs), i)))
      (put_lenenc_str t) (Some t)" by simp
  moreover obtain b bs where "put_lenenc_str t = b # bs" "b \<noteq> 0xFB"
    using hd_put_lenenc_int [of "of_nat (length (bytes_of t))"]
    by (auto simp: put_lenenc_str_def put_lenenc_bytes_def)
  ultimately show ?thesis using v Some
    by (simp add: text_cell_def reads_def read_text_cell_def nth_append)
qed

lemma reads_text_row:
  "(\<And>v t. v \<in> set row \<Longrightarrow> text_value F v = Some t \<Longrightarrow> length t < 2 ^ 64) \<Longrightarrow>
   reads (read_text_row (length row)) (text_row F row) (map (text_value F) row)"
proof (induction row)
  case (Cons v row)
  have "reads read_text_cell (text_cell F v) (text_value F v)"
    by (rule reads_text_cell) (rule Cons.prems, simp_all)
  moreover have "reads (read_text_row (length row)) (text_row F row) (map (text_value F) row)"
    by (rule Cons.IH) (rule Cons.prems, simp_all)
  ultimately show ?case by (simp add: text_row_def reads_dbind reads_dbind_dreturn)
qed (simp add: text_row_def reads_dreturn)

lemma read_payloads_written:
  "read_payloads (length ps) (fst (write_all sq ps) @ rest) = Inr (ps, rest)"
proof (induction ps arbitrary: sq)
  case (Cons p ps)
  obtain out sq1 where p: "write_packet sq p = (out, sq1)" by fastforce
  then have "read_packet (out @ fst (write_all sq1 ps) @ rest)
      = Inr (\<lparr>pk_sequence = sq + of_nat (length p div MAX_PACKET_LEN), pk_payload = p\<rparr>, fst (write_all sq1 ps) @ rest)"
    using read_loop_written [of "[]" sq p] by (simp add: read_packet_def)
  with Cons.IH [of sq1] p show ?case by (simp add: split_def Let_def)
qed simp

section \<open>Properties\<close>

text \<open>A binary row is read back by the server's own decoder of execute packets: every value
  comes back as the parameter a client would bind for it, NULL exactly where the row has NULL, and
  the decoder stops at the end of the row. (Required: years of four digits, times of a day, and texts
  shorter than 2^64.)\<close>

theorem binary_row_read_back:
  assumes "list_all (sendable F) row"
  shows "read_binary_row (map wire_type row) (pre @ binary_row F row @ rest) (length pre)
         = Inr (map (wire_param F) row, length pre + length (binary_row F row))"
  by (rule readsD [OF reads_binary_row [OF assms]])

theorem binary_row_read_back_witness:
  "read_binary_row (map wire_type [VNull, VInt32 (-2), VText ''ab'', VDate \<lparr>d_year = 2024, d_month = 2, d_day = 29\<rparr>])
     ([9] @ binary_row no_floats [VNull, VInt32 (-2), VText ''ab'', VDate \<lparr>d_year = 2024, d_month = 2, d_day = 29\<rparr>] @ [7])
     (length [9 :: u8])
   = Inr (map (wire_param no_floats) [VNull, VInt32 (-2), VText ''ab'', VDate \<lparr>d_year = 2024, d_month = 2, d_day = 29\<rparr>],
          length [9 :: u8] + length (binary_row no_floats
            [VNull, VInt32 (-2), VText ''ab'', VDate \<lparr>d_year = 2024, d_month = 2, d_day = 29\<rparr>]))"
  by (rule binary_row_read_back) code_simp

text \<open>A text row is read back as the texts of its values, with NULL exactly where the row has it.\<close>

theorem text_row_read_back:
  assumes "\<And>v t. v \<in> set row \<Longrightarrow> text_value F v = Some t \<Longrightarrow> length t < 2 ^ 64"
  shows "read_text_row (length row) (pre @ text_row F row @ rest) (length pre)
         = Inr (map (text_value F) row, length pre + length (text_row F row))"
  by (rule readsD [OF reads_text_row [OF assms]])

text \<open>An answer is read back packet by packet: header, one definition per column, end marker,
  one packet per row and the final end marker, or the single packet of a write or an error.\<close>

theorem answers_are_read_back:
  "read_payloads (length (result_packets F binary result)) (fst (send_result F sq result binary) @ rest)
   = Inr (result_packets F binary result, rest)"
  by (simp add: send_result_def read_payloads_written)

end
