(* ===== verification/Mysql_Rewrite.thy ===== *)
theory Mysql_Rewrite
  imports Mysql_Scan Mysql_Stmt Mysql_Session
begin

text \<open>
  What the MySQL front end does to a statement before the engine sees it, and what it answers by
  itself: the rewriters, the LIKE matcher and the system variables of
  \<^verbatim>\<open>src/server/mysql/command.rs\<close>. Scanners work on byte positions as the code does; a
  character is copied whole there and byte by byte here, which is the same because no byte of a longer
  character is a quote. A slice that cuts a character is the error \<open>EPanic\<close>.
  Main results: the LIKE matcher decides the pattern semantics, quoted names are rewritten
  without touching anything else, and the limit clause keeps its two numbers.
\<close>

section \<open>LIKE patterns\<close>

definition eq_char :: "char \<Rightarrow> char \<Rightarrow> bool" where
  "eq_char a b \<longleftrightarrow> lower_char a = lower_char b"

function like_inner :: "string \<Rightarrow> string \<Rightarrow> bool" where
  "like_inner [] v = (v = [])"
| "like_inner (c # p) v =
     (if c = CHR ''%'' then like_inner p v \<or> (if v = [] then False else like_inner (c # p) (tl v))
      else if c = CHR ''_'' then v \<noteq> [] \<and> like_inner p (tl v)
      else if c = CHR 0x5C \<and> p \<noteq> [] then v \<noteq> [] \<and> eq_char (hd p) (hd v) \<and> like_inner (tl p) (tl v)
      else v \<noteq> [] \<and> eq_char c (hd v) \<and> like_inner p (tl v))"
  by pat_completeness auto
termination by (relation "measure (\<lambda>(p, v). length p + length v)") (auto simp: diff_less)

declare like_inner.simps(2) [simp del]

definition mysql_like_matches :: "string \<Rightarrow> string \<Rightarrow> bool" where
  "mysql_like_matches pattern_text value_text = like_inner pattern_text value_text"

definition MYSQL_SYSTEM_VARIABLES :: "(string \<times> string) list" where
  "MYSQL_SYSTEM_VARIABLES =
    [(''character_set_client'', ''utf8mb4''),
     (''character_set_connection'', ''utf8mb4''),
     (''character_set_database'', ''utf8mb4''),
     (''character_set_results'', ''utf8mb4''),
     (''character_set_server'', ''utf8mb4''),
     (''collation_connection'', ''utf8mb4_general_ci''),
     (''collation_database'', ''utf8mb4_general_ci''),
     (''collation_server'', ''utf8mb4_general_ci''),
     (''lower_case_file_system'', ''ON''),
     (''lower_case_table_names'', ''1''),
     (''max_allowed_packet'', ''16777216''),
     (''sql_mode'', ''''),
     (''system_time_zone'', ''UTC''),
     (''time_zone'', ''SYSTEM''),
     (''transaction_isolation'', ''READ-COMMITTED''),
     (''version'', ''8.0.34-rsduck''),
     (''version_comment'', ''rsduck MySQL protocol'')]"

definition text_column :: "string \<Rightarrow> sql_column" where
  "text_column name = \<lparr>col_name = name, col_type = TText\<rparr>"

definition system_variables_result :: "string option \<Rightarrow> sql_typed_result" where
  "system_variables_result pat =
     TypedQuery [text_column ''Variable_name'', text_column ''Value'']
       (map (\<lambda>(name, val). [VText name, VText val])
         (filter (\<lambda>(name, _). case pat of None \<Rightarrow> True | Some p \<Rightarrow> mysql_like_matches p name)
           MYSQL_SYSTEM_VARIABLES))"

definition single_text_row :: "string \<Rightarrow> string \<Rightarrow> sql_typed_result" where
  "single_text_row column val = TypedQuery [text_column column] [[VText val]]"

definition mysql_engines_result :: sql_typed_result where
  "mysql_engines_result = TypedQuery
     (map text_column [''ENGINE'', ''SUPPORT'', ''COMMENT'', ''TRANSACTIONS'', ''XA'', ''SAVEPOINTS''])
     [map VText [''InnoDB'', ''DEFAULT'', ''rsduck MySQL protocol compatibility engine'', ''YES'', ''NO'', ''YES'']]"

definition show_variables_like_pattern :: "string \<Rightarrow> string option" where
  "show_variables_like_pattern sql =
     (let trimmed = statement_text sql; prefix = ''show variables like'' in
      if \<not> starts_with prefix (to_lower trimmed) then None
      else parse_single_quoted_literal (trim (drop (length prefix) trimmed)))"

definition is_mysql_session_statement :: "string \<Rightarrow> bool" where
  "is_mysql_session_statement sql =
     (let normalized = to_lower (statement_text sql) in
      starts_with ''set '' normalized \<or> normalized = ''begin'' \<or> normalized = ''commit''
      \<or> normalized = ''rollback'')"

definition mysql_compat_result :: "string \<Rightarrow> mysql_session \<Rightarrow> sql_typed_result option" where
  "mysql_compat_result sql session =
     (let normalized = to_lower (statement_text sql) in
      if references_information_schema_engines sql \<or> normalized = ''show engines'' then Some mysql_engines_result
      else case show_variables_like_pattern sql of
        Some pat \<Rightarrow> Some (system_variables_result (Some pat))
      | None \<Rightarrow>
          if normalized = ''show variables'' then Some (system_variables_result None)
          else if normalized = ''select database()'' then Some (single_text_row ''DATABASE()'' (s_database session))
          else if normalized = ''select @@version_comment''
            then Some (single_text_row ''@@version_comment'' ''rsduck MySQL protocol'')
          else if normalized = ''select version()'' then Some (single_text_row ''version()'' ''8.0.34-rsduck'')
          else None)"

definition current_mysql_schema :: "mysql_session \<Rightarrow> string" where
  "current_mysql_schema session =
     (if s_database session = [] \<or> eq_ignore_case (s_database session) ''memory'' then ''main''
      else s_database session)"

section \<open>Quoted identifiers\<close>

text \<open>A backtick name, copied with its doubled backticks undone; \<open>None\<close> when it is not closed.\<close>

fun backtick_name :: "string \<Rightarrow> (string \<times> string) option" where
  "backtick_name [] = None"
| "backtick_name (c # s) =
     (if c = bquote
      then (if next_is bquote s then map_option (\<lambda>(v, r). (bquote # v, r)) (backtick_name (tl s)) else Some ([], s))
      else map_option (\<lambda>(v, r). (c # v, r)) (backtick_name s))"

text \<open>A literal copied up to its closing quote or to the end of the text.\<close>

fun copy_literal :: "char \<Rightarrow> string \<Rightarrow> string \<times> string" where
  "copy_literal quote [] = ([], [])"
| "copy_literal quote (c # s) =
     (if c = quote
      then (if next_is quote s then (case copy_literal quote (tl s) of (v, r) \<Rightarrow> (c # hd s # v, r)) else ([c], s))
      else (case copy_literal quote s of (v, r) \<Rightarrow> (c # v, r)))"

lemma backtick_name_shorter: "backtick_name s = Some (v, r) \<Longrightarrow> length r < length s"
  by (induction s arbitrary: v r rule: backtick_name.induct) (auto split: if_splits)

lemma copy_literal_shorter: "copy_literal quote s = (v, r) \<Longrightarrow> length r \<le> length s"
  by (induction quote s arbitrary: v r rule: copy_literal.induct) (fastforce split: if_splits prod.splits)+

function quoted_from :: "string \<Rightarrow> string option" where
  "quoted_from [] = Some []"
| "quoted_from (c # s) =
     (if c = bquote then (case backtick_name s of
          None \<Rightarrow> None
        | Some (v, r) \<Rightarrow> map_option (\<lambda>out. [dquote] @ v @ [dquote] @ out) (quoted_from r))
      else if c = squote \<or> c = dquote then (case copy_literal c s of
          (v, r) \<Rightarrow> map_option (\<lambda>out. c # v @ out) (quoted_from r))
      else map_option (\<lambda>out. c # out) (quoted_from s))"
  by pat_completeness auto
termination
  by (relation "measure length") (auto dest: backtick_name_shorter copy_literal_shorter [OF sym] simp: less_Suc_eq_le)

declare quoted_from.simps(2) [simp del]

definition rewrite_mysql_quoted_identifiers :: "string \<Rightarrow> string" where
  "rewrite_mysql_quoted_identifiers sql = (case quoted_from sql of None \<Rightarrow> sql | Some out \<Rightarrow> out)"

section \<open>LIMIT offset, count\<close>

definition is_at :: "string \<Rightarrow> nat \<Rightarrow> char \<Rightarrow> bool" where
  "is_at sql i c \<longleftrightarrow> i < length sql \<and> sql ! i = c"

text \<open>\<^verbatim>\<open>skip_sql_quoted\<close> from behind the opening quote.\<close>

function quoted_end :: "string \<Rightarrow> char \<Rightarrow> bool \<Rightarrow> nat \<Rightarrow> nat" where
  "quoted_end sql quote backslash_escape idx =
     (if length sql \<le> idx then length sql
      else if backslash_escape \<and> sql ! idx = CHR 0x5C
        then quoted_end sql quote backslash_escape (min (idx + 2) (length sql))
      else if sql ! idx = quote
        then (if is_at sql (idx + 1) quote then quoted_end sql quote backslash_escape (idx + 2) else idx + 1)
      else quoted_end sql quote backslash_escape (idx + 1))"
  by pat_completeness auto
termination by (relation "measure (\<lambda>(sql, quote, esc, idx). length sql - idx)") auto

declare quoted_end.simps [simp del]

definition skip_sql_quoted :: "string \<Rightarrow> nat \<Rightarrow> char \<Rightarrow> bool \<Rightarrow> nat" where
  "skip_sql_quoted sql start quote backslash_escape = quoted_end sql quote backslash_escape (start + 1)"

fun find_text :: "string \<Rightarrow> string \<Rightarrow> nat option" where
  "find_text needle [] = (if needle = [] then Some 0 else None)"
| "find_text needle (c # s) =
     (if starts_with needle (c # s) then Some 0 else map_option Suc (find_text needle s))"

definition skip_line_comment :: "string \<Rightarrow> nat \<Rightarrow> nat" where
  "skip_line_comment sql start =
     (case find_char (CHR 0x0A) (drop start sql) of None \<Rightarrow> length sql | Some pos \<Rightarrow> start + pos + 1)"

definition skip_block_comment :: "string \<Rightarrow> nat \<Rightarrow> nat" where
  "skip_block_comment sql start =
     (case find_text ''*/'' (drop start sql) of None \<Rightarrow> length sql | Some pos \<Rightarrow> start + pos + 2)"

text \<open>
  The three scanners share their first arms: the end of the literal, quoted name or comment that
  starts at a position.
\<close>

definition comment_starts :: "string \<Rightarrow> nat \<Rightarrow> bool" where
  "comment_starts sql idx \<longleftrightarrow> is_at sql idx (CHR ''-'') \<and> is_at sql (idx + 1) (CHR ''-'')
     \<or> is_at sql idx (CHR ''#'') \<or> is_at sql idx (CHR ''/'') \<and> is_at sql (idx + 1) (CHR ''*'')"

definition opaque_end :: "string \<Rightarrow> nat \<Rightarrow> nat option" where
  "opaque_end sql idx =
     (if is_at sql idx squote then Some (skip_sql_quoted sql idx squote True)
      else if is_at sql idx dquote then Some (skip_sql_quoted sql idx dquote False)
      else if is_at sql idx bquote then Some (skip_sql_quoted sql idx bquote False)
      else if is_at sql idx (CHR ''-'') \<and> is_at sql (idx + 1) (CHR ''-'') then Some (skip_line_comment sql (idx + 2))
      else if is_at sql idx (CHR ''#'') then Some (skip_line_comment sql (idx + 1))
      else if is_at sql idx (CHR ''/'') \<and> is_at sql (idx + 1) (CHR ''*'') then Some (skip_block_comment sql (idx + 2))
      else None)"

lemma quoted_end_gt: "idx < length sql \<Longrightarrow> idx < quoted_end sql q e idx"
proof (induction sql q e idx rule: quoted_end.induct)
  case (1 sql q e idx)
  have step: "idx < quoted_end sql q e j" if "idx < j" and "j < length sql \<Longrightarrow> j < quoted_end sql q e j" for j
    using that 1(4) by (cases "j < length sql") (auto simp: quoted_end.simps [of sql q e j])
  show ?case
    using 1 step [of "idx + 1"] step [of "idx + 2"] step [of "min (idx + 2) (length sql)"]
    by (subst quoted_end.simps) auto
qed

lemma opaque_end_gt: "opaque_end sql idx = Some j \<Longrightarrow> idx < j"
proof -
  have "idx < length sql \<Longrightarrow> idx < quoted_end sql q e (Suc idx)" for q e
    using quoted_end_gt [of "Suc idx" sql q e]
    by (cases "Suc idx < length sql") (auto simp: quoted_end.simps [of sql q e "Suc idx"])
  then show "opaque_end sql idx = Some j \<Longrightarrow> idx < j"
    by (auto simp: opaque_end_def is_at_def skip_sql_quoted_def skip_line_comment_def skip_block_comment_def
        split: if_splits option.splits)
qed

function limit_comma :: "string \<Rightarrow> nat \<Rightarrow> nat \<Rightarrow> nat option" where
  "limit_comma sql depth idx =
     (if length sql \<le> idx then None
      else case opaque_end sql idx of
        Some j \<Rightarrow> limit_comma sql depth j
      | None \<Rightarrow>
          if sql ! idx = CHR ''('' then limit_comma sql (depth + 1) (idx + 1)
          else if sql ! idx = CHR '')'' then limit_comma sql (depth - 1) (idx + 1)
          else if sql ! idx = CHR '','' \<and> depth = 0 then Some idx
          else if sql ! idx = CHR '';'' \<and> depth = 0 then None
          else limit_comma sql depth (idx + 1))"
  by pat_completeness auto
termination by (relation "measure (\<lambda>(sql, depth, idx). length sql - idx)") (auto dest: opaque_end_gt)

declare limit_comma.simps [simp del]

definition find_limit_comma :: "string \<Rightarrow> nat \<Rightarrow> nat option" where
  "find_limit_comma sql start = limit_comma sql 0 start"

text \<open>\<^verbatim>\<open>any\<close> stops at the first keyword that matches or panics.\<close>

fun any_keyword :: "string \<Rightarrow> nat \<Rightarrow> string list \<Rightarrow> err + bool" where
  "any_keyword sql idx [] = Inr False"
| "any_keyword sql idx (k # ks) = (case consume_keyword sql idx k of
     Inl e \<Rightarrow> Inl e | Inr (Some _) \<Rightarrow> Inr True | Inr None \<Rightarrow> any_keyword sql idx ks)"

definition is_limit_tail_keyword :: "string \<Rightarrow> nat \<Rightarrow> err + bool" where
  "is_limit_tail_keyword sql idx = any_keyword sql idx
     [''for'', ''lock'', ''procedure'', ''into'', ''union'', ''except'', ''intersect'']"

function limit_count_end :: "string \<Rightarrow> nat \<Rightarrow> nat \<Rightarrow> err + nat" where
  "limit_count_end sql depth idx =
     (if length sql \<le> idx then Inr idx
      else if depth = 0 \<and> comment_starts sql idx then Inr idx
      else case opaque_end sql idx of
        Some j \<Rightarrow> limit_count_end sql depth j
      | None \<Rightarrow>
          if sql ! idx = CHR ''('' then limit_count_end sql (depth + 1) (idx + 1)
          else if sql ! idx = CHR '')'' then limit_count_end sql (depth - 1) (idx + 1)
          else if sql ! idx = CHR '';'' \<and> depth = 0 then Inr idx
          else if depth = 0 \<and> is_ascii_ws (sql ! idx) then
            (case is_limit_tail_keyword sql (skip_mysql_space sql idx) of
               Inl e \<Rightarrow> Inl e
             | Inr True \<Rightarrow> Inr idx
             | Inr False \<Rightarrow> limit_count_end sql depth (skip_mysql_space sql idx))
          else limit_count_end sql depth (idx + 1))"
  by pat_completeness auto
termination
  by (relation "measure (\<lambda>(sql, depth, idx). length sql - idx)")
    (auto dest: opaque_end_gt simp: skip_mysql_space_def Cons_nth_drop_Suc [symmetric])

declare limit_count_end.simps [simp del]

definition find_limit_count_end :: "string \<Rightarrow> nat \<Rightarrow> err + nat" where
  "find_limit_count_end sql start = limit_count_end sql 0 start"

definition trim_ascii_space_end :: "string \<Rightarrow> nat \<Rightarrow> nat \<Rightarrow> nat" where
  "trim_ascii_space_end sql start fin =
     fin - length (takeWhile is_ascii_ws (rev (drop start (take fin sql))))"

definition parse_mysql_limit_comma_terms :: "string \<Rightarrow> nat \<Rightarrow> err + (nat \<times> nat \<times> nat \<times> nat) option" where
  "parse_mysql_limit_comma_terms sql start =
     (let offset_start = skip_mysql_space sql start in
      case find_limit_comma sql offset_start of
        None \<Rightarrow> Inr None
      | Some comma_idx \<Rightarrow>
          (let offset_end = trim_ascii_space_end sql offset_start comma_idx;
               count_start = skip_mysql_space sql (comma_idx + 1)
           in case find_limit_count_end sql count_start of
                Inl e \<Rightarrow> Inl e
              | Inr raw_end \<Rightarrow>
                  (let count_end = trim_ascii_space_end sql count_start raw_end in
                   if offset_end \<le> offset_start \<or> count_end \<le> count_start then Inr None
                   else Inr (Some (offset_start, offset_end, count_start, count_end)))))"

definition slice :: "string \<Rightarrow> nat \<Rightarrow> nat \<Rightarrow> string" where
  "slice sql a b = drop a (take b sql)"

lemma skip_mysql_space_ge: "i \<le> skip_mysql_space sql i"
  by (simp add: skip_mysql_space_def)

lemma limit_comma_ge: "limit_comma sql depth idx = Some j \<Longrightarrow> idx \<le> j"
proof (induction sql depth idx rule: limit_comma.induct)
  case (1 sql depth idx)
  show ?case
  proof (cases "opaque_end sql idx")
    case None
    with 1 show ?thesis
      by (subst (asm) (5) limit_comma.simps) (auto split: if_splits dest: Suc_leD)
  next
    case (Some k)
    with 1 opaque_end_gt [OF Some] show ?thesis
      by (subst (asm) (5) limit_comma.simps) (auto split: if_splits)
  qed
qed

lemma limit_terms_advance:
  assumes "parse_mysql_limit_comma_terms sql i = Inr (Some (os, oe, cs, ce))"
  shows "i < ce"
proof -
  from assms obtain comma where "find_limit_comma sql (skip_mysql_space sql i) = Some comma"
    and "cs = skip_mysql_space sql (comma + 1)" and "cs < ce"
    by (auto simp: parse_mysql_limit_comma_terms_def Let_def split: option.splits sum.splits if_splits)
  with limit_comma_ge [of sql 0 "skip_mysql_space sql i" comma] skip_mysql_space_ge [of i sql]
    skip_mysql_space_ge [of "comma + 1" sql]
  show ?thesis by (simp add: find_limit_comma_def)
qed

text \<open>The loop: position, end of the text copied so far, output, and whether anything was replaced.\<close>

function limit_loop :: "string \<Rightarrow> nat \<Rightarrow> nat \<Rightarrow> string \<Rightarrow> bool \<Rightarrow> err + string option" where
  "limit_loop sql idx last_end out replaced =
     (if length sql \<le> idx then Inr (if replaced then Some (out @ drop last_end sql) else None)
      else case opaque_end sql idx of
        Some j \<Rightarrow> limit_loop sql j last_end out replaced
      | None \<Rightarrow>
          if \<not> char_boundary sql idx then limit_loop sql (idx + 1) last_end out replaced
          else case consume_keyword sql idx ''limit'' of
            Inl e \<Rightarrow> Inl e
          | Inr None \<Rightarrow> limit_loop sql (idx + 1) last_end out replaced
          | Inr (Some _) \<Rightarrow>
              (case parse_mysql_limit_comma_terms sql (skip_mysql_space sql (idx + 5)) of
                 Inl e \<Rightarrow> Inl e
               | Inr None \<Rightarrow> limit_loop sql (idx + 1) last_end out replaced
               | Inr (Some (offset_start, offset_end, count_start, count_end)) \<Rightarrow>
                   limit_loop sql count_end count_end
                     (out @ slice sql last_end idx @ ''LIMIT '' @ trim (slice sql count_start count_end)
                      @ '' OFFSET '' @ trim (slice sql offset_start offset_end)) True))"
  by pat_completeness auto
termination
proof (relation "measure (\<lambda>(sql, idx, last_end, output, replaced). length sql - idx)", goal_cases)
  case (5 sql idx last_end out replaced x2 a b x y xa ya xb yb)
  then show ?case
    using limit_terms_advance [of sql "skip_mysql_space sql (idx + 5)"] skip_mysql_space_ge [of "idx + 5" sql] by fastforce
qed (auto dest: opaque_end_gt)

declare limit_loop.simps [simp del]

definition rewrite_mysql_limit_offset_comma :: "string \<Rightarrow> err + string option" where
  "rewrite_mysql_limit_offset_comma sql = limit_loop sql 0 0 [] False"

section \<open>The statement the engine sees\<close>

text \<open>\<open>rewrite_sql\<close> stands for the metadata projections of \<^verbatim>\<open>mysql_compat.rs\<close>: statement, schema and user.\<close>

definition mysql_execution_sql ::
    "(string \<Rightarrow> string \<Rightarrow> string \<Rightarrow> err + string option) \<Rightarrow> string \<Rightarrow> mysql_session \<Rightarrow> err + string" where
  "mysql_execution_sql rewrite_sql sql session =
     rbind (rewrite_sql sql (current_mysql_schema session) (s_username session)) (\<lambda>projected.
     rbind (case projected of Some s \<Rightarrow> Inr (Some s) | None \<Rightarrow> rewrite_mysql_limit_offset_comma sql) (\<lambda>r.
       Inr (rewrite_mysql_quoted_identifiers (case r of Some s \<Rightarrow> s | None \<Rightarrow> sql))))"

definition cast_type_after_placeholder :: "string \<Rightarrow> nat \<Rightarrow> string option" where
  "cast_type_after_placeholder sql param_number =
     (let low = to_lower sql; needle = ''$'' @ show_nat param_number in
      case find_text needle low of
        None \<Rightarrow> None
      | Some pos \<Rightarrow>
          (let idx = skip_mysql_space low (pos + length needle) in
           if \<not> starts_with ''::'' (drop idx low) then None
           else (let start = skip_mysql_space low (idx + 2);
                     len = length (takeWhile (\<lambda>c. is_alnum c \<or> c = CHR ''_'') (drop start low))
                 in if len = 0 then None else Some (take len (drop start sql)))))"

definition dummy_param :: "string \<Rightarrow> sql_param" where
  "dummy_param type_name =
     (if type_name \<in> {''bool'', ''boolean''} then PBool False
      else if type_name \<in> {''tinyint'', ''smallint'', ''int2'', ''int4'', ''int8'', ''integer'', ''int'', ''bigint''}
        then PInteger 0
      else if type_name \<in> {''float'', ''real'', ''double'', ''float4'', ''float8'', ''numeric'', ''decimal''}
        then PFloat 0
      else if type_name \<in> {''blob'', ''bytea''} then PBytes []
      else if type_name = ''date'' then PText ''1970-01-01''
      else if type_name = ''time'' then PText ''00:00:00''
      else if type_name \<in> {''timestamp'', ''datetime'', ''timestamptz''} then PText ''1970-01-01 00:00:00''
      else if type_name = ''uuid'' then PText ''00000000-0000-0000-0000-000000000000''
      else PText [])"

definition dummy_params_for_describe :: "string \<Rightarrow> nat \<Rightarrow> sql_param list" where
  "dummy_params_for_describe sql param_count =
     map (\<lambda>idx. dummy_param (case cast_type_after_placeholder sql idx of Some t \<Rightarrow> t | None \<Rightarrow> []))
       [1..<Suc param_count]"

section \<open>What a pattern means\<close>

inductive likes :: "string \<Rightarrow> string \<Rightarrow> bool" where
  likes_Nil: "likes [] []"
| likes_any: "likes p v \<Longrightarrow> likes (CHR ''%'' # p) (u @ v)"
| likes_one: "likes p v \<Longrightarrow> likes (CHR ''_'' # p) (c # v)"
| likes_escaped: "eq_char a c \<Longrightarrow> likes p v \<Longrightarrow> likes (CHR 0x5C # a # p) (c # v)"
| likes_same: "a \<noteq> CHR ''%'' \<Longrightarrow> a \<noteq> CHR ''_'' \<Longrightarrow> a = CHR 0x5C \<longrightarrow> p = [] \<Longrightarrow> eq_char a c \<Longrightarrow> likes p v
    \<Longrightarrow> likes (a # p) (c # v)"

lemma like_any: "like_inner p v \<Longrightarrow> like_inner (CHR ''%'' # p) (u @ v)"
  by (induction u) (simp_all add: like_inner.simps(2))

lemma like_any_split: "like_inner (CHR ''%'' # p) v \<Longrightarrow> \<exists>u w. v = u @ w \<and> like_inner p w"
proof (induction v)
  case (Cons c v)
  then consider "like_inner p (c # v)" | "like_inner (CHR ''%'' # p) v"
    by (auto simp: like_inner.simps(2) [of _ p "c # v"])
  then show ?case
  proof cases
    case 2
    with Cons.IH obtain u w where "v = u @ w" "like_inner p w" by blast
    then show ?thesis by (metis append_Cons)
  qed (metis append_Nil)
qed (simp add: like_inner.simps(2))

lemma likes_sound: "likes p v \<Longrightarrow> like_inner p v"
proof (induction rule: likes.induct)
  case (likes_any p v u)
  then show ?case by (rule_tac like_any)
qed (auto simp: like_inner.simps(2))

lemma likes_complete: "like_inner p v \<Longrightarrow> likes p v"
proof (induction p arbitrary: v rule: length_induct)
  case (1 p)
  show ?case
  proof (cases p)
    case Nil
    with 1 show ?thesis by (simp add: likes_Nil)
  next
    case (Cons c q)
    show ?thesis
    proof (cases "c = CHR ''%''")
      case True
      with 1(2) Cons obtain u w where "v = u @ w" "like_inner q w" using like_any_split by blast
      with 1(1) Cons True show ?thesis by (auto intro: likes_any)
    next
      case False
      with 1(2) Cons obtain d w where v: "v = d # w"
        by (cases v) (auto simp: like_inner.simps(2) split: if_splits)
      show ?thesis
        using 1 False unfolding Cons v
        by (cases q) (auto simp: like_inner.simps(2) [of c] split: if_splits intro: likes.intros)
    qed
  qed
qed

text \<open>The matcher decides the meaning of LIKE patterns: a percent sign stands for any text, an
  underscore for one character, a backslash makes the next character literal, and letters match in
  either case.\<close>

theorem like_matcher_decides_patterns:
  "mysql_like_matches pattern_text value_text \<longleftrightarrow> likes pattern_text value_text"
  using likes_sound likes_complete by (auto simp: mysql_like_matches_def)

section \<open>Quoted names\<close>

text \<open>A statement in pieces: a name in backticks, a literal with its quote character, and a
  character outside both.\<close>

datatype sql_piece = Name string | Literal char string | Code char

definition quoted_piece :: "char \<Rightarrow> string \<Rightarrow> string" where
  "quoted_piece q v = [q] @ replace_char q [q, q] v @ [q]"

fun mysql_piece :: "sql_piece \<Rightarrow> string" where
  "mysql_piece (Name v) = quoted_piece bquote v"
| "mysql_piece (Literal q v) = quoted_piece q v"
| "mysql_piece (Code c) = [c]"

fun engine_piece :: "sql_piece \<Rightarrow> string" where
  "engine_piece (Name v) = [dquote] @ v @ [dquote]"
| "engine_piece p = mysql_piece p"

fun piece_ok :: "sql_piece \<Rightarrow> bool" where
  "piece_ok (Name v) = True"
| "piece_ok (Literal q v) = (q = squote \<or> q = dquote)"
| "piece_ok (Code c) = (c \<noteq> squote \<and> c \<noteq> dquote \<and> c \<noteq> bquote)"

fun is_code :: "sql_piece \<Rightarrow> bool" where
  "is_code (Code c) = True"
| "is_code _ = False"

text \<open>Two pieces with the same quote do not touch: together they would be one.\<close>

fun pieces_apart :: "sql_piece list \<Rightarrow> bool" where
  "pieces_apart [] = True"
| "pieces_apart [p] = True"
| "pieces_apart (p # q # ps) = ((is_code p \<or> hd (mysql_piece p) \<noteq> hd (mysql_piece q)) \<and> pieces_apart (q # ps))"

lemma mysql_piece_Cons: "mysql_piece p \<noteq> []"
  by (cases p) (simp_all add: quoted_piece_def)

lemma backtick_name_quoted:
  "\<not> next_is bquote rest \<Longrightarrow> backtick_name (replace_char bquote [bquote, bquote] v @ bquote # rest) = Some (v, rest)"
  by (induction v) auto

lemma copy_literal_quoted:
  "\<not> next_is q rest \<Longrightarrow> copy_literal q (replace_char q [q, q] v @ q # rest) = (replace_char q [q, q] v @ [q], rest)"
  by (induction v) auto

lemma quoted_from_pieces:
  "list_all piece_ok ps \<Longrightarrow> pieces_apart ps \<Longrightarrow>
   quoted_from (concat (map mysql_piece ps)) = Some (concat (map engine_piece ps))"
proof (induction ps rule: pieces_apart.induct)
  case (3 p q ps)
  let ?rest = "concat (map mysql_piece (q # ps))"
  from 3 have IH: "quoted_from ?rest = Some (concat (map engine_piece (q # ps)))" by simp
  have hd: "?rest \<noteq> []" "hd ?rest = hd (mysql_piece q)" using mysql_piece_Cons [of q] by simp_all
  show ?case
  proof (cases p)
    case (Name v)
    with 3 hd have "\<not> next_is bquote ?rest" by (auto simp: quoted_piece_def)
    from backtick_name_quoted [OF this, of v] show ?thesis
      using IH Name by (simp add: quoted_piece_def quoted_from.simps(2))
  next
    case (Literal r v)
    with 3 hd have "\<not> next_is r ?rest" and "r = squote \<or> r = dquote" by (auto simp: quoted_piece_def)
    with copy_literal_quoted [OF this(1), of v] show ?thesis
      using IH Literal by (auto simp: quoted_piece_def quoted_from.simps(2))
  next
    case (Code c)
    with 3 IH show ?thesis by (simp add: quoted_from.simps(2))
  qed
next
  case (2 p)
  show ?case
  proof (cases p)
    case (Name v)
    then show ?thesis using backtick_name_quoted [of "[]" v] by (simp add: quoted_piece_def quoted_from.simps(2))
  next
    case (Literal r v)
    then show ?thesis using 2 copy_literal_quoted [of "[]" r v]
      by (auto simp: quoted_piece_def quoted_from.simps(2))
  next
    case (Code c)
    with 2 show ?thesis by (simp add: quoted_from.simps(2))
  qed
qed simp

text \<open>Names in backticks become names in double quotes, and literals and all other text stay as
  they are, wherever quotes of one kind stand inside the other.\<close>

theorem quoted_names_are_rewritten:
  assumes "list_all piece_ok ps" and "pieces_apart ps"
  shows "rewrite_mysql_quoted_identifiers (concat (map mysql_piece ps)) = concat (map engine_piece ps)"
  using quoted_from_pieces [OF assms] by (simp add: rewrite_mysql_quoted_identifiers_def)

theorem quoted_names_are_rewritten_witness:
  "rewrite_mysql_quoted_identifiers (concat (map mysql_piece
     [Code (CHR ''a''), Code (CHR ''=''), Literal squote ''x`y'', Code (CHR '',''), Name ''b`c'', Code (CHR '';'')]))
   = concat (map engine_piece
     [Code (CHR ''a''), Code (CHR ''=''), Literal squote ''x`y'', Code (CHR '',''), Name ''b`c'', Code (CHR '';'')])"
  by (rule quoted_names_are_rewritten) code_simp+

text \<open>A double quote inside a backtick name is not doubled: the name ends there for the engine.\<close>

theorem name_with_double_quote_is_cut:
  assumes "dquote \<in> set v"
  shows "rewrite_mysql_quoted_identifiers (mysql_quote v) \<noteq> sql_ident v"
proof -
  have "rewrite_mysql_quoted_identifiers (mysql_quote v) = [dquote] @ v @ [dquote]"
    using quoted_from_pieces [of "[Name v]"]
    by (simp add: rewrite_mysql_quoted_identifiers_def mysql_quote_def quoted_piece_def)
  moreover have "length v < length (replace_char dquote [dquote, dquote] v)"
    using assms
  proof (induction v)
    case (Cons c v)
    have "length v \<le> length (replace_char dquote [dquote, dquote] v)" for v
      by (induction v) auto
    with Cons show ?case by (auto simp: le_imp_less_Suc)
  qed simp
  ultimately show ?thesis by (auto simp: sql_ident_def)
qed

theorem name_with_double_quote_is_cut_witness:
  "rewrite_mysql_quoted_identifiers (mysql_quote ([CHR ''a'', dquote, CHR ''b'']))
   \<noteq> sql_ident [CHR ''a'', dquote, CHR ''b'']"
  by (rule name_with_double_quote_is_cut) simp

section \<open>The limit clause\<close>

definition calm :: "char \<Rightarrow> bool" where
  "calm c \<longleftrightarrow> byte c < 128 \<and> c \<notin> {squote, dquote, bquote, CHR ''-'', CHR ''#'', CHR ''/''}"

lemma opaque_end_calm: "calm (sql ! i) \<Longrightarrow> opaque_end sql i = None"
  by (auto simp: opaque_end_def is_at_def calm_def)

lemma calm_digit: "is_digit c \<Longrightarrow> calm c \<and> \<not> is_ascii_ws c \<and> c \<notin> {CHR ''('', CHR '')'', CHR '','', CHR '';''}"
  by (auto simp: calm_def is_digit_def is_ascii_ws_def)

lemma limit_loop_walk:
  "i \<le> n \<Longrightarrow> n \<le> length sql \<Longrightarrow> (\<And>j. i \<le> j \<Longrightarrow> j < n \<Longrightarrow> calm (sql ! j) \<and> consume_keyword sql j ''limit'' = Inr None) \<Longrightarrow>
   limit_loop sql i e out r = limit_loop sql n e out r"
proof (induction rule: inc_induct)
  case (step i)
  then have c: "calm (sql ! i)" "consume_keyword sql i ''limit'' = Inr None" by auto
  with step have "char_boundary sql i" by (intro boundary_plain) (auto simp: calm_def)
  with c step have "limit_loop sql i e out r = limit_loop sql (Suc i) e out r"
    by (subst limit_loop.simps) (simp add: opaque_end_calm)
  also have "\<dots> = limit_loop sql n e out r" using step by simp
  finally show ?case .
qed simp

lemma no_limit_inside:
  assumes "\<not> contains ''limit'' (to_lower a)" and "j + 5 \<le> length a"
  shows "\<not> eq_ignore_case (take 5 (drop j (a @ t))) ''limit''"
proof
  assume eq: "eq_ignore_case (take 5 (drop j (a @ t))) ''limit''"
  with assms(2) have "take 5 (drop j (to_lower a)) = ''limit''"
    by (simp add: eq_ignore_case_def to_lower_def take_map drop_map lower_char_def is_upper_def)
  then have "to_lower a = take j (to_lower a) @ ''limit'' @ drop 5 (drop j (to_lower a))"
    by (metis append_take_drop_id)
  with assms(1) show False unfolding contains_iff by blast
qed

lemma no_limit_across:
  assumes "j < length a" and "length a < j + 5" and "last a = CHR '' ''"
  shows "\<not> eq_ignore_case (take 5 (drop j (a @ t))) ''limit''"
proof
  assume eq: "eq_ignore_case (take 5 (drop j (a @ t))) ''limit''"
  have "CHR '' '' \<in> set (drop j a)"
    using assms(1,3) by (metis drop_eq_Nil last_drop last_in_set linorder_not_less)
  then have "CHR '' '' \<in> set (take 5 (drop j (a @ t)))" using assms(1,2) by simp
  then have "lower_char (CHR '' '') \<in> set (to_lower (take 5 (drop j (a @ t))))"
    unfolding to_lower_def set_map by (rule imageI)
  with eq show False by (simp add: eq_ignore_case_def to_lower_def lower_char_def is_upper_def)
qed

lemma limit_comma_walk:
  "i \<le> n \<Longrightarrow> n \<le> length sql \<Longrightarrow> (\<And>j. i \<le> j \<Longrightarrow> j < n \<Longrightarrow> is_digit (sql ! j)) \<Longrightarrow>
   limit_comma sql d i = limit_comma sql d n"
proof (induction rule: inc_induct)
  case (step i)
  then have "limit_comma sql d i = limit_comma sql d (Suc i)"
    using calm_digit [of "sql ! i"] by (subst limit_comma.simps) (simp add: opaque_end_calm)
  with step show ?case by simp
qed simp

lemma limit_count_end_walk:
  "i \<le> n \<Longrightarrow> n \<le> length sql \<Longrightarrow> (\<And>j. i \<le> j \<Longrightarrow> j < n \<Longrightarrow> is_digit (sql ! j)) \<Longrightarrow>
   limit_count_end sql d i = limit_count_end sql d n"
proof (induction rule: inc_induct)
  case (step i)
  then have "limit_count_end sql d i = limit_count_end sql d (Suc i)"
    using calm_digit [of "sql ! i"]
    by (subst limit_count_end.simps) (auto simp add: opaque_end_calm comment_starts_def is_at_def calm_def)
  with step show ?case by simp
qed simp

lemma trim_space_end_digit:
  "start < fin \<Longrightarrow> fin \<le> length sql \<Longrightarrow> is_digit (sql ! (fin - 1)) \<Longrightarrow> trim_ascii_space_end sql start fin = fin"
proof -
  assume "start < fin" "fin \<le> length sql" "is_digit (sql ! (fin - 1))"
  then have "drop start (take fin sql) \<noteq> []" "\<not> is_ascii_ws (last (drop start (take fin sql)))"
    using calm_digit by (auto simp: last_drop last_conv_nth)
  then show ?thesis
    by (cases "drop start (take fin sql)" rule: rev_cases) (auto simp: trim_ascii_space_end_def)
qed

text \<open>A text without quotes, comments or the word limit that ends in a blank.\<close>

definition before_limit :: "string \<Rightarrow> bool" where
  "before_limit a \<longleftrightarrow> list_all calm a \<and> \<not> contains ''limit'' (to_lower a) \<and> a \<noteq> [] \<and> last a = CHR '' ''"

lemma limit_terms_digits:
  fixes o1 c1 pre :: string
  defines "sql \<equiv> pre @ o1 @ '','' @ '' '' @ c1"
  assumes "list_all is_digit o1" "list_all is_digit c1" "o1 \<noteq> []" "c1 \<noteq> []"
  shows "parse_mysql_limit_comma_terms sql (length pre)
    = Inr (Some (length pre, length pre + length o1, length pre + length o1 + 2, length sql))"
proof -
  let ?p = "length pre" and ?o = "length pre + length o1"
  have o1: "is_digit (sql ! j)" if "?p \<le> j" "j < ?o" for j
    using assms(2) that by (auto simp: sql_def nth_append list_all_length)
  have c1: "is_digit (sql ! j)" if "?o + 2 \<le> j" "j < length sql" for j
    using assms(3) that by (auto simp: sql_def nth_append nth_Cons' list_all_length)
  have at: "sql ! ?o = CHR '',''" "sql ! Suc ?o = CHR '' ''" by (simp_all add: sql_def nth_append)
  have len: "?o + 2 < length sql" using assms(5) by (simp add: sql_def)
  have space: "skip_mysql_space sql ?p = ?p"
    using assms(2,4) calm_digit by (cases o1) (auto simp: skip_mysql_space_def sql_def)
  have "limit_comma sql 0 ?p = limit_comma sql 0 ?o"
    using o1 len by (intro limit_comma_walk) auto
  also have "\<dots> = Some ?o"
    using len by (subst limit_comma.simps) (simp add: at opaque_end_calm calm_def)
  finally have comma: "find_limit_comma sql ?p = Some ?o" by (simp add: find_limit_comma_def)
  have blank: "is_ascii_ws (CHR '' '')" by (simp add: is_ascii_ws_def)
  have count: "skip_mysql_space sql (?o + 1) = ?o + 2"
    using assms(3,5) calm_digit blank by (cases c1) (auto simp: skip_mysql_space_def sql_def)
  have "limit_count_end sql 0 (?o + 2) = limit_count_end sql 0 (length sql)"
    using c1 len by (intro limit_count_end_walk) auto
  also have "\<dots> = Inr (length sql)" by (subst limit_count_end.simps) simp
  finally have "find_limit_count_end sql (?o + 2) = Inr (length sql)" by (simp add: find_limit_count_end_def)
  moreover have "trim_ascii_space_end sql ?p ?o = ?o"
  proof (rule trim_space_end_digit)
    have "0 < length o1" using assms(4) by simp
    then have "?p \<le> ?o - 1" "?o - 1 < ?o" by linarith+
    then show "is_digit (sql ! (?o - 1))" by (rule o1)
    show "?p < ?o" using assms(4) by simp
  qed (use len in simp)
  moreover have "trim_ascii_space_end sql (?o + 2) (length sql) = length sql"
    using c1 [of "length sql - 1"] len by (intro trim_space_end_digit) auto
  ultimately show ?thesis
    using comma count space assms(4) len by (simp add: parse_mysql_limit_comma_terms_def Let_def)
qed

lemma trim_digits: "list_all is_digit s \<Longrightarrow> trim s = s"
proof (cases "s = []")
  case False
  assume "list_all is_digit s"
  with False have "plain (hd s)" "plain (last s)" by (auto intro!: plain_digit simp: list_all_iff)
  with False show ?thesis by (rule trim_plain)
qed (simp add: trim_def)

lemma ascii_digits: "list_all is_digit s \<Longrightarrow> ascii s"
  unfolding ascii_def by (erule list.pred_mono_strong) (use calm_digit in \<open>auto simp: calm_def\<close>)

lemma ascii_calm: "list_all calm s \<Longrightarrow> ascii s"
  unfolding ascii_def by (erule list.pred_mono_strong) (simp add: calm_def)

text \<open>A limit clause with an offset and a count becomes the clause the engine knows, with the two
  numbers in their new places and the statement before it unchanged.\<close>

theorem limit_clause_is_rewritten:
  assumes "before_limit a" and "eq_ignore_case w ''limit''" and "ascii w"
    and "list_all is_digit o1" "list_all is_digit c1" "o1 \<noteq> []" "c1 \<noteq> []"
  shows "rewrite_mysql_limit_offset_comma (a @ w @ '' '' @ o1 @ '', '' @ c1)
         = Inr (Some (a @ ''LIMIT '' @ c1 @ '' OFFSET '' @ o1))"
proof -
  define sql where "sql = a @ w @ '' '' @ o1 @ '','' @ '' '' @ c1"
  let ?t = "w @ '' '' @ o1 @ '','' @ '' '' @ c1" and ?p = "a @ w @ '' ''"
  from assms(2) have "length (to_lower w) = length (to_lower ''limit'')" by (simp only: eq_ignore_case_def)
  then have w: "length w = 5" by simp
  have "ascii o1" "ascii c1" "ascii a"
    using assms(1,4,5) by (simp_all add: ascii_digits ascii_calm before_limit_def)
  then have ascii: "ascii sql" using assms(3) by (simp add: sql_def)
  have none: "calm (sql ! j) \<and> consume_keyword sql j ''limit'' = Inr None" if "j < length a" for j
  proof -
    from that assms(1) have "calm (sql ! j)" by (simp add: sql_def nth_append before_limit_def list_all_length)
    moreover have "\<not> eq_ignore_case (take 5 (drop j (a @ ?t))) ''limit''"
    proof (cases "j + 5 \<le> length a")
      case True
      with assms(1) show ?thesis by (intro no_limit_inside) (simp add: before_limit_def)
    next
      case False
      with that assms(1) show ?thesis by (intro no_limit_across) (simp_all add: before_limit_def)
    qed
    then have "\<not> eq_ignore_case (take (length ''limit'') (drop j sql)) ''limit''"
      by (simp add: sql_def eval_nat_numeral)
    then have "consume_keyword sql j ''limit'' = Inr None"
      using that by (intro consume_keyword_not [OF ascii]) (simp_all add: sql_def)
    ultimately show ?thesis by simp
  qed
  have "\<not> is_mysql_ident_byte (CHR '' '')" by (simp add: is_mysql_ident_byte_def is_alnum_def is_alpha_def is_upper_def is_lower_def is_digit_def)
  moreover have "byte (hd w) < 128" "w \<noteq> []" using assms(3) w by (cases w; auto)+
  ultimately have found: "consume_keyword sql (length a) ''limit'' = Inr (Some (length (a @ w)))"
    using consume_keyword_found [of w "''limit''" a "'' '' @ o1 @ '','' @ '' '' @ c1"] assms(1,2) w
    by (auto simp: sql_def before_limit_def)
  have "sql ! length a = hd w" using w by (cases w) (simp_all add: sql_def nth_append)
  moreover have "lower_char (hd w) = CHR ''l''" using assms(2) w by (cases w) (auto simp: eq_ignore_case_def to_lower_def lower_char_def is_upper_def)
  ultimately have calm_w: "calm (sql ! length a)" using \<open>byte (hd w) < 128\<close>
    by (auto simp: calm_def lower_char_def is_upper_def)
  have digit: "o1 = hd o1 # tl o1" "is_digit (hd o1)" using assms(4,6) by (cases o1; simp)+
  have space: "skip_mysql_space sql (length a + 5) = length ?p"
    using w digit(2) calm_digit by (subst sql_def, subst digit(1)) (simp add: skip_mysql_space_def is_ascii_ws_def)
  have "parse_mysql_limit_comma_terms sql (length ?p)
      = Inr (Some (length ?p, length ?p + length o1, length ?p + length o1 + 2, length sql))"
    using limit_terms_digits [of o1 c1 ?p] assms by (simp add: sql_def)
  moreover have "limit_loop sql 0 0 [] False = limit_loop sql (length a) 0 [] False"
    using none by (intro limit_loop_walk) (auto simp: sql_def)
  moreover have "char_boundary sql (length a)"
    using calm_w w by (intro boundary_plain) (auto simp: calm_def sql_def)
  moreover have "slice sql 0 (length a) = a" "slice sql (length ?p) (length ?p + length o1) = o1"
    "slice sql (length ?p + length o1 + 2) (length sql) = c1"
    by (simp_all add: slice_def sql_def numeral_3_eq_3)
  moreover have "length a < length sql" using w by (simp add: sql_def)
  ultimately have "limit_loop sql 0 0 [] False
      = limit_loop sql (length sql) (length sql) (a @ ''LIMIT '' @ c1 @ '' OFFSET '' @ o1) True"
    using space found calm_w trim_digits assms(4,5)
    by (simp add: limit_loop.simps [of sql "length a"] opaque_end_calm del: append_assoc)
  also have "\<dots> = Inr (Some (a @ ''LIMIT '' @ c1 @ '' OFFSET '' @ o1))"
    by (subst limit_loop.simps) simp
  finally show ?thesis by (simp add: rewrite_mysql_limit_offset_comma_def sql_def)
qed

theorem limit_clause_is_rewritten_witness:
  "rewrite_mysql_limit_offset_comma (''select a from t '' @ ''Limit'' @ '' '' @ ''20'' @ '', '' @ ''5'')
   = Inr (Some (''select a from t '' @ ''LIMIT '' @ ''5'' @ '' OFFSET '' @ ''20''))"
  by (rule limit_clause_is_rewritten) code_simp+

text \<open>A statement whose first character beyond ASCII stands outside literals and comments, behind
  at least four other bytes, panics: the keyword test cuts a slice in the middle of that
  character.\<close>

theorem non_ascii_text_panics:
  assumes "list_all calm a" "4 \<le> length a" "\<not> contains ''limit'' (to_lower a)"
    and "192 \<le> byte l" "128 \<le> byte c" "byte c < 192"
  shows "rewrite_mysql_limit_offset_comma (a @ l # c # rest) = Inl EPanic"
proof -
  let ?sql = "a @ l # c # rest"
  define n where "n = length a - 4"
  have calm: "calm (?sql ! j)" if "j < length a" for j
    using assms(1) that by (simp add: nth_append list_all_length)
  have bound: "char_boundary ?sql j" if "j \<le> length a" for j
    using that calm [of j] assms(4) by (cases "j = length a") (auto simp: char_boundary_def calm_def nth_append)
  have five: "length ''limit'' = 5" by simp
  have "consume_keyword ?sql j ''limit'' = Inr None" if "j < n" for j
  proof -
    from that assms(2) have le: "j + 5 \<le> length a" by (simp add: n_def)
    from no_limit_inside [OF assms(3) le, of "l # c # rest"] le bound [of j] bound [of "j + 5"] show ?thesis
      unfolding consume_keyword_def Let_def five by simp
  qed
  with calm have "limit_loop ?sql 0 0 [] False = limit_loop ?sql n 0 [] False"
    by (intro limit_loop_walk) (auto simp: n_def)
  moreover have "\<not> char_boundary ?sql (n + 5)" "n + 5 < length ?sql"
    using assms(2,5,6) by (simp_all add: char_boundary_def n_def nth_append)
  then have "consume_keyword ?sql n ''limit'' = Inl EPanic"
    unfolding consume_keyword_def Let_def five by simp
  moreover have "n < length a" using assms(2) by (simp add: n_def)
  ultimately show ?thesis
    using calm [of n] bound [of n]
    by (simp add: rewrite_mysql_limit_offset_comma_def limit_loop.simps [of ?sql n] opaque_end_calm)
qed

theorem non_ascii_text_panics_witness:
  "rewrite_mysql_limit_offset_comma (''SELECT 1 AS '' @ CHR 0xC3 # CHR 0xA9 # '' FROM t'') = Inl EPanic"
  by (rule non_ascii_text_panics) code_simp+

text \<open>The type written behind a placeholder is looked up as it is written, so a cast in capital
  letters is described with an empty text.\<close>

theorem capital_casts_are_described_as_text:
  "dummy_params_for_describe ''select $1::INT, $2::int'' 2 = [PText [], PInteger 0]"
  by code_simp

end
