(* ===== verification/Mysql_Command.thy ===== *)
theory Mysql_Command
  imports Db_Handle Mysql_Result Mysql_Rewrite
begin

text \<open>
  The command phase of a MySQL connection: \<^verbatim>\<open>command_loop\<close> and its handlers of
  \<^verbatim>\<open>src/server/mysql/command.rs\<close> and the connection as a whole of
  \<^verbatim>\<open>src/server/mysql/listener.rs\<close>. A connection reads the bytes a client sent and gives
  the bytes it wrote, how it ended and the state of the engine; every packet shortens the input,
  so the loop ends with it. Main results: whatever bytes are sent, the engine only sees requests
  of the authenticated user; a session's statements stay usable; who fails to prepare loses the
  connection.
\<close>

section \<open>The environment of a connection\<close>

text \<open>
  \<open>env_rewrite\<close> is \<^verbatim>\<open>mysql_compat::rewrite_sql\<close>, whose projections are generated SQL;
  \<open>env_text\<close> the message of an error.
\<close>

record 'd environment =
  env_handle :: "'d handle"
  env_rewrite :: "string \<Rightarrow> string \<Rightarrow> string \<Rightarrow> err + string option"
  env_text :: "db_error \<Rightarrow> string"

datatype conn_err =
    WireError wire_err | InvalidDatabaseName | InvalidSqlText | UnknownStatement "32 word"
  | PrepareFailed db_error | ConnPanic | HandshakeFailed wire_err | AuthenticationFailed wire_auth_err

text \<open>A panic of the connection's task ends it; a parse error that is one is told apart.\<close>

definition panics :: "db_error \<Rightarrow> bool" where
  "panics e \<longleftrightarrow> e = RouteFailed EPanic"

definition COM_QUIT :: u8 where "COM_QUIT = 0x01"
definition COM_INIT_DB :: u8 where "COM_INIT_DB = 0x02"
definition COM_QUERY :: u8 where "COM_QUERY = 0x03"
definition COM_PING :: u8 where "COM_PING = 0x0E"
definition COM_STMT_PREPARE :: u8 where "COM_STMT_PREPARE = 0x16"
definition COM_STMT_EXECUTE :: u8 where "COM_STMT_EXECUTE = 0x17"
definition COM_STMT_SEND_LONG_DATA :: u8 where "COM_STMT_SEND_LONG_DATA = 0x18"
definition COM_STMT_CLOSE :: u8 where "COM_STMT_CLOSE = 0x19"
definition COM_STMT_RESET :: u8 where "COM_STMT_RESET = 0x1A"

lemmas command_codes = COM_QUIT_def COM_INIT_DB_def COM_QUERY_def COM_PING_def COM_STMT_PREPARE_def
  COM_STMT_EXECUTE_def COM_STMT_SEND_LONG_DATA_def COM_STMT_CLOSE_def COM_STMT_RESET_def

section \<open>Handlers\<close>

text \<open>What a handler leaves: the session or the error that ends the connection, the bytes written,
  and the engine.\<close>

type_synonym 'd handled = "(conn_err + mysql_session) \<times> u8 list \<times> 'd"

definition answer_with :: "'d environment \<Rightarrow> mysql_session \<Rightarrow> bool \<Rightarrow> (db_error + sql_typed_result) \<times> 'd \<Rightarrow> 'd handled" where
  "answer_with V session binary r =
     (case r of
        (Inl e, d) \<Rightarrow>
          if panics e then (Inl ConnPanic, [], d)
          else (Inr session, fst (send_result (h_fmt (env_handle V)) 1 (Inl (env_text V e)) binary), d)
      | (Inr result, d) \<Rightarrow> (Inr session, fst (send_result (h_fmt (env_handle V)) 1 (Inr result) binary), d))"

definition handle_query :: "'d environment \<Rightarrow> 'd \<Rightarrow> mysql_session \<Rightarrow> u8 list \<Rightarrow> 'd handled" where
  "handle_query V d session payload =
     (if \<not> utf8_valid payload then (Inl InvalidSqlText, [], d)
      else let sql = trim (string_of payload) in
        if is_mysql_session_statement sql then (Inr session, fst (write_packet 1 ok_packet), d)
        else case mysql_compat_result sql session of
          Some result \<Rightarrow> answer_with V session False (Inr result, d)
        | None \<Rightarrow> (case mysql_execution_sql (env_rewrite V) sql session of
              Inl e \<Rightarrow> (Inl ConnPanic, [], d)
            | Inr execution_sql \<Rightarrow>
                answer_with V session False (execute_typed_sql_as (env_handle V) d (s_username session) execution_sql)))"

definition prepare_response :: "mysql_session \<Rightarrow> 32 word \<Rightarrow> nat \<Rightarrow> sql_column list \<Rightarrow> u8 list list" where
  "prepare_response session statement_id param_count columns =
     [[0] @ put_u32_le statement_id @ put_u16_le (of_nat (length columns)) @ put_u16_le (of_nat param_count)
       @ [0] @ put_u16_le 0]
     @ map param_column_definition [0..<param_count]
     @ (if 0 < param_count then [eof_packet] else [])
     @ map (mysql_column_definition (s_database session)) columns
     @ (if columns \<noteq> [] then [eof_packet] else [])"

definition handle_stmt_prepare :: "'d environment \<Rightarrow> 'd \<Rightarrow> mysql_session \<Rightarrow> u8 list \<Rightarrow> 'd handled" where
  "handle_stmt_prepare V d session payload =
     (if \<not> utf8_valid payload then (Inl InvalidSqlText, [], d)
      else let original_sql = trim (string_of payload);
               (marked_sql, param_count) = rewrite_mysql_placeholders original_sql
           in case mysql_execution_sql (env_rewrite V) marked_sql session of
        Inl e \<Rightarrow> (Inl ConnPanic, [], d)
      | Inr bound_sql \<Rightarrow>
          (case describe_sql_with_params_as (env_handle V) d (s_username session) bound_sql
                  (dummy_params_for_describe bound_sql param_count) of
             (Inl e, d1) \<Rightarrow> (Inl (if panics e then ConnPanic else PrepareFailed e), [], d1)
           | (Inr columns, d1) \<Rightarrow>
               (let (statement_id, session1) = next_statement_id session;
                    stmt = \<lparr>ps_bound_sql = bound_sql, ps_param_count = param_count, ps_param_types = [],
                            ps_columns = columns\<rparr>;
                    session2 = session1\<lparr>s_statements := (s_statements session1)(statement_id \<mapsto> stmt)\<rparr>
                in (Inr session2,
                    fst (write_all 1 (prepare_response session2 statement_id param_count columns)), d1))))"

definition execute_header :: "32 word decoder" where
  "execute_header = dbind get_u32_le (\<lambda>statement_id. dbind get_u8 (\<lambda>flags. dbind get_u32_le (\<lambda>iteration_count.
     dreturn statement_id)))"

definition handle_stmt_execute :: "'d environment \<Rightarrow> 'd \<Rightarrow> mysql_session \<Rightarrow> u8 list \<Rightarrow> 'd handled" where
  "handle_stmt_execute V d session payload =
     (case execute_header payload 0 of
        Inl e \<Rightarrow> (Inl (WireError e), [], d)
      | Inr (statement_id, idx) \<Rightarrow>
          (case s_statements session statement_id of
             None \<Rightarrow> (Inl (UnknownStatement statement_id), [], d)
           | Some stmt \<Rightarrow>
               (case parse_execute_params (ps_param_count stmt) (ps_param_types stmt) payload idx of
                  Inl e \<Rightarrow> (Inl (WireError e), [], d)
                | Inr ((params, param_types), _) \<Rightarrow>
                    answer_with V
                      (session\<lparr>s_statements := (s_statements session)(statement_id \<mapsto> stmt\<lparr>ps_param_types := param_types\<rparr>)\<rparr>)
                      True
                      (execute_typed_sql_with_params_as (env_handle V) d (s_username session) (ps_bound_sql stmt) params))))"

definition handle_stmt_close :: "'d \<Rightarrow> mysql_session \<Rightarrow> u8 list \<Rightarrow> 'd handled" where
  "handle_stmt_close d session payload =
     (case get_u32_le payload 0 of
        Inl e \<Rightarrow> (Inl (WireError e), [], d)
      | Inr (statement_id, _) \<Rightarrow> (Inr (session\<lparr>s_statements := (s_statements session)(statement_id := None)\<rparr>), [], d))"

definition handle_stmt_reset :: "'d \<Rightarrow> mysql_session \<Rightarrow> u8 list \<Rightarrow> 'd handled" where
  "handle_stmt_reset d session payload =
     (case get_u32_le payload 0 of
        Inl e \<Rightarrow> (Inl (WireError e), [], d)
      | Inr (statement_id, _) \<Rightarrow>
          (Inr (case s_statements session statement_id of
                  None \<Rightarrow> session
                | Some stmt \<Rightarrow> session\<lparr>s_statements :=
                    (s_statements session)(statement_id \<mapsto> stmt\<lparr>ps_param_types := []\<rparr>)\<rparr>),
           fst (write_packet 1 ok_packet), d))"

text \<open>One command that is not COM_QUIT.\<close>

definition handle_command :: "'d environment \<Rightarrow> 'd \<Rightarrow> mysql_session \<Rightarrow> u8 \<Rightarrow> u8 list \<Rightarrow> 'd handled" where
  "handle_command V d session command payload =
     (if command = COM_PING then (Inr session, fst (write_packet 1 ok_packet), d)
      else if command = COM_INIT_DB then
        (if utf8_valid payload
         then (Inr (session\<lparr>s_database := string_of payload\<rparr>), fst (write_packet 1 ok_packet), d)
         else (Inl InvalidDatabaseName, [], d))
      else if command = COM_QUERY then handle_query V d session payload
      else if command = COM_STMT_PREPARE then handle_stmt_prepare V d session payload
      else if command = COM_STMT_EXECUTE then handle_stmt_execute V d session payload
      else if command = COM_STMT_CLOSE then handle_stmt_close d session payload
      else if command = COM_STMT_RESET then handle_stmt_reset d session payload
      else if command = COM_STMT_SEND_LONG_DATA then
        (Inr session, fst (write_packet 1 (err_packet 1235 ''0A000'' ''COM_STMT_SEND_LONG_DATA is not supported'')), d)
      else (Inr session,
        fst (write_packet 1 (err_packet 1047 ''08S01'' (''unsupported MySQL command: '' @ show_nat (unat command)))), d))"

section \<open>The loop\<close>

lemma read_loop_shorter: "read_loop acc stream = Inr (p, rest) \<Longrightarrow> length rest < length stream"
proof (induction acc stream rule: read_loop.induct)
  case (1 acc stream)
  then show ?case
    by (subst (asm) (2) read_loop.simps) (fastforce split: sum.splits if_splits dest: read_chunk_shorter)
qed

function command_loop :: "'d environment \<Rightarrow> 'd \<Rightarrow> mysql_session \<Rightarrow> u8 list \<Rightarrow> (conn_err + unit) \<times> u8 list \<times> 'd" where
  "command_loop V d session stream =
     (case read_packet stream of
        Inl e \<Rightarrow> (Inl (WireError e), [], d)
      | Inr (packet, rest) \<Rightarrow>
          (case pk_payload packet of
             [] \<Rightarrow> command_loop V d session rest
           | command # payload \<Rightarrow>
               if command = COM_QUIT then (Inr (), [], d)
               else (case handle_command V d session command payload of
                   (Inl e, out, d1) \<Rightarrow> (Inl e, out, d1)
                 | (Inr session1, out, d1) \<Rightarrow>
                     (case command_loop V d1 session1 rest of (r, more_out, d2) \<Rightarrow> (r, out @ more_out, d2)))))"
  by pat_completeness auto
termination
  by (relation "measure (\<lambda>(V, d, session, stream). length stream)")
    (auto simp: read_packet_def dest: read_loop_shorter)

declare command_loop.simps [simp del]

text \<open>
  The whole connection. Authentication only reads the database, so it is a function of its
  state; the nonce is fresh for the connection.
\<close>

definition handle_mysql_socket ::
    "'d environment \<Rightarrow> ('d \<Rightarrow> auth_request \<Rightarrow> 'e + auth_principal) \<Rightarrow> 32 word \<Rightarrow> u8 list \<Rightarrow> 'd \<Rightarrow> u8 list
     \<Rightarrow> (conn_err + unit) \<times> u8 list \<times> 'd" where
  "handle_mysql_socket V authenticate connection_id nonce d stream =
     (let (hello, sq) = write_packet 0 (build_initial_handshake connection_id nonce) in
      case read_packet stream of
        Inl e \<Rightarrow> (Inl (WireError e), hello, d)
      | Inr (response_packet, rest) \<Rightarrow>
          (case parse_handshake_response (pk_payload response_packet) of
             Inl e \<Rightarrow> (Inl (HandshakeFailed e), hello, d)
           | Inr response \<Rightarrow>
               (case authenticate_mysql_client (authenticate d) (pk_sequence response_packet + 1) nonce response of
                  (Inl e, written) \<Rightarrow> (Inl (AuthenticationFailed e), hello @ written, d)
                | (Inr username, written) \<Rightarrow>
                    (case command_loop V d
                            (new_session username (hr_database response) (hr_capabilities response) (hr_attrs response)) rest of
                       (r, out, d1) \<Rightarrow> (r, hello @ written @ out, d1)))))"

section \<open>What a command keeps\<close>

definition answered :: "u8 list \<Rightarrow> bool" where
  "answered out \<longleftrightarrow> (\<exists>ps. ps \<noteq> [] \<and> out = fst (write_all 1 ps))"

lemma answered_all: "ps \<noteq> [] \<Longrightarrow> answered (fst (write_all 1 ps))"
  by (auto simp: answered_def)

lemma answered_one: "answered (fst (write_packet 1 p))"
  using answered_all [of "[p]"] by (simp add: split_def Let_def)

lemma answer_with_parts:
  assumes "answer_with V session binary r = (r', out, d')"
  shows "d' = snd r \<and> (r' = Inl ConnPanic \<or> r' = Inr session \<and> answered out)"
proof -
  have some: "result_packets F binary x \<noteq> []" for F x
    by (simp add: result_packets_def split: sum.split sql_typed_result.split)
  from assms some show ?thesis
    by (cases r; cases "fst r") (auto simp: answer_with_def send_result_def answered_def split: if_splits)
qed

lemma compat_answer_with:
  "answer_with V session binary (Inr result, d) = (Inr session, fst (send_result (h_fmt (env_handle V)) 1 (Inr result) binary), d)"
  by (simp add: answer_with_def)

lemma command_user:
  "handle_command V d session command payload = (Inr session', out, d') \<Longrightarrow> s_username session' = s_username session"
  by (auto simp: handle_command_def handle_query_def handle_stmt_prepare_def handle_stmt_execute_def next_statement_id_def
      handle_stmt_close_def handle_stmt_reset_def Let_def split_def split: if_splits sum.splits option.splits prod.splits
      dest!: answer_with_parts)

context user_requests begin

lemma command_keeps:
  assumes "h_engine (env_handle V) = E" and "s_username session = user" and "keeps d"
    and "handle_command V d session command payload = (r, out, d')"
  shows "keeps d'"
proof -
  have keep: "keeps (snd (execute_typed_sql_with_params_as (env_handle V) d user sql params))"
      "keeps (snd (describe_sql_with_params_as (env_handle V) d user sql params))" for sql params
    using assms(1,3) by (auto intro: request_keeps described_keeps)
  have answer: "answer_with V s b x = (r, out, d') \<Longrightarrow> keeps (snd x) \<Longrightarrow> keeps d'" for s b x
    by (drule answer_with_parts) simp
  show ?thesis
    using assms(2-4) keep answer
    by (auto simp: handle_command_def handle_query_def handle_stmt_prepare_def handle_stmt_execute_def
        handle_stmt_close_def handle_stmt_reset_def execute_typed_sql_as_def Let_def split_def
        split: if_splits sum.splits option.splits prod.splits)
qed

lemma loop_keeps:
  "h_engine (env_handle V) = E \<Longrightarrow> s_username session = user \<Longrightarrow> keeps d \<Longrightarrow>
   command_loop V d session stream = (r, out, d') \<Longrightarrow> keeps d'"
proof (induction V d session stream arbitrary: r out d' rule: command_loop.induct)
  case (1 V d session stream)
  show ?case
  proof (cases "read_packet stream")
    case (Inl e)
    with 1 show ?thesis by (simp add: command_loop.simps [of V d session stream])
  next
    case (Inr pr)
    then obtain packet rest where read: "read_packet stream = Inr (packet, rest)" by (cases pr) auto
    show ?thesis
    proof (cases "pk_payload packet")
      case Nil
      with 1 read show ?thesis by (simp add: command_loop.simps [of V d session stream])
    next
      case (Cons command payload)
      obtain h hout d1 where h: "handle_command V d session command payload = (h, hout, d1)" by (metis prod_cases3)
      have k: "keeps d1" by (rule command_keeps [OF 1(3,4,5) h])
      show ?thesis
      proof (cases h)
        case (Inl e)
        with 1(5,6) read Cons h k show ?thesis
          by (auto simp: command_loop.simps [of V d session stream] split: if_splits)
      next
        case (Inr session1)
        obtain r2 out2 d2 where l: "command_loop V d1 session1 rest = (r2, out2, d2)" by (metis prod_cases3)
        have "s_username session1 = user" using command_user [of V d session command payload session1 hout d1] h Inr 1(4) by simp
        then have "keeps d2" if "command \<noteq> COM_QUIT"
          using 1(2) [OF read refl Cons that h [symmetric] Inr refl 1(3) _ k l] by simp
        with 1(5,6) read Cons h k Inr l show ?thesis
          by (auto simp: command_loop.simps [of V d session stream] split: if_splits)
      qed
    qed
  qed
qed

end

section \<open>Sessions\<close>

definition session_ok :: "mysql_session \<Rightarrow> bool" where
  "session_ok session \<longleftrightarrow> valid_session session
     \<and> (\<forall>i stmt. s_statements session i = Some stmt
          \<longrightarrow> ps_param_types stmt = [] \<or> length (ps_param_types stmt) = ps_param_count stmt)"

lemma execute_types_length:
  "parse_execute_params n tys input idx = Inr ((ps, tys'), i) \<Longrightarrow> length tys' = n"
  by (auto simp: parse_execute_params_def dest!: dbind_InrD dest: read_types_length split: if_splits)

lemma session_ok_update:
  "session_ok session \<Longrightarrow> i \<noteq> 0 \<Longrightarrow> ps_param_types stmt = [] \<or> length (ps_param_types stmt) = ps_param_count stmt \<Longrightarrow>
   session_ok (session\<lparr>s_statements := (s_statements session)(i \<mapsto> stmt)\<rparr>)"
  by (simp add: session_ok_def valid_session_def)

lemma session_ok_stored: "session_ok session \<Longrightarrow> s_statements session i = Some stmt \<Longrightarrow> i \<noteq> 0"
  by (auto simp: session_ok_def valid_session_def)

lemma session_ok_next:
  "session_ok session \<Longrightarrow> next_statement_id session = (i, session') \<Longrightarrow> session_ok session' \<and> i \<noteq> 0"
  using next_statement_id_valid [of session i session']
  by (simp add: session_ok_def next_statement_id_def) (elim conjE, hypsubst, simp)

lemma session_ok_simple:
  "session_ok session \<Longrightarrow> session_ok (session\<lparr>s_database := db\<rparr>)"
  "session_ok session \<Longrightarrow> session_ok (session\<lparr>s_statements := (s_statements session)(i := None)\<rparr>)"
  by (simp_all add: session_ok_def valid_session_def)

lemma prepare_session:
  assumes "session_ok session" and "handle_stmt_prepare V d session payload = (Inr session', out, d')"
  shows "session_ok session'"
  using assms(2) session_ok_next [OF assms(1)]
  by (auto simp: handle_stmt_prepare_def Let_def intro!: session_ok_update split: if_splits prod.splits sum.splits)

lemma execute_session:
  assumes "session_ok session" and "handle_stmt_execute V d session payload = (Inr session', out, d')"
  shows "session_ok session'"
proof -
  from assms(2) obtain i stmt tys ps idx j where i: "s_statements session i = Some stmt"
    and p: "parse_execute_params (ps_param_count stmt) (ps_param_types stmt) payload idx = Inr ((ps, tys), j)"
    and s: "session' = session\<lparr>s_statements := (s_statements session)(i \<mapsto> stmt\<lparr>ps_param_types := tys\<rparr>)\<rparr>"
    by (auto simp: handle_stmt_execute_def dest!: answer_with_parts split: sum.splits prod.splits option.splits)
  have "length tys = ps_param_count stmt" by (rule execute_types_length [OF p])
  then show ?thesis unfolding s
    by (intro session_ok_update assms(1) session_ok_stored [OF assms(1) i]) simp
qed

lemma reset_session:
  assumes "session_ok session" and "handle_stmt_reset d session payload = (Inr session', out, d')"
  shows "session_ok session'"
proof -
  from assms(2) obtain i where "session' = (case s_statements session i of None \<Rightarrow> session
      | Some stmt \<Rightarrow> session\<lparr>s_statements := (s_statements session)(i \<mapsto> stmt\<lparr>ps_param_types := []\<rparr>)\<rparr>)"
    by (auto simp: handle_stmt_reset_def split: sum.splits)
  then show ?thesis
    using assms(1) session_ok_stored [OF assms(1)] by (auto intro!: session_ok_update split: option.split)
qed

lemma query_session: "handle_query V d session payload = (Inr session', out, d') \<Longrightarrow> session' = session \<and> answered out"
  by (auto simp: handle_query_def Let_def answered_one split: if_splits sum.splits option.splits dest!: answer_with_parts)

lemma command_session:
  "session_ok session \<Longrightarrow> handle_command V d session command payload = (Inr session', out, d') \<Longrightarrow> session_ok session'"
  by (auto simp: handle_command_def handle_stmt_close_def session_ok_simple
      dest: prepare_session execute_session reset_session query_session
      split: if_splits sum.splits)

lemma prepare_answered:
  "handle_stmt_prepare V d session payload = (Inr session', out, d') \<Longrightarrow> answered out"
  by (auto simp: handle_stmt_prepare_def Let_def prepare_response_def intro!: answered_all
      split: if_splits sum.splits prod.splits simp del: write_all.simps)

lemma execute_answered:
  "handle_stmt_execute V d session payload = (Inr session', out, d') \<Longrightarrow> answered out"
  by (auto simp: handle_stmt_execute_def split: sum.splits prod.splits option.splits dest!: answer_with_parts)

lemma reset_answered:
  "handle_stmt_reset d session payload = (Inr session', out, d') \<Longrightarrow> answered out"
  by (auto simp: handle_stmt_reset_def answered_one split: sum.splits)

lemma not_answered: "\<not> answered []"
proof -
  have "fst (write_packet 1 p) \<noteq> []" for p
    by (subst write_packet.simps) (simp add: Let_def split_def packet_header_def)
  then have "fst (write_all 1 (p # ps)) \<noteq> []" for p ps by (simp add: split_def Let_def)
  then show ?thesis unfolding answered_def by (metis neq_Nil_conv)
qed

section \<open>Properties\<close>

text \<open>Every command that leaves the connection open is answered with at least one whole packet,
  numbered from one, except the closing of a statement, which is not answered at all; and the
  session stays well formed: no statement under identifier 0, and the remembered parameter types of
  a statement are none or one per placeholder.\<close>

theorem commands_are_answered:
  assumes "handle_command V d session command payload = (Inr session', out, d')" and "session_ok session"
  shows "session_ok session' \<and> s_username session' = s_username session
    \<and> (if command = COM_STMT_CLOSE then out = [] else answered out)"
proof -
  have "if command = COM_STMT_CLOSE then out = [] else answered out"
    using assms(1) query_session [THEN conjunct2] prepare_answered execute_answered reset_answered
    by (auto simp: handle_command_def handle_stmt_close_def answered_one command_codes split: if_splits sum.splits)
  with command_session [OF assms(2,1)] command_user [OF assms(1)] show ?thesis by blast
qed

text \<open>Whatever bytes a client sends, a connection leaves the engine as it was or has authenticated
  a user through the caching_sha2 exchange, and then the engine has only seen requests of that
  user.\<close>

theorem only_the_authenticated_user_acts:
  "case handle_mysql_socket V authenticate connection_id nonce d stream of (r, out, d') \<Rightarrow>
     d' = d \<or> (\<exists>name response p.
       authenticate d \<lparr>rq_protocol = MySqlWire, rq_username = name,
           rq_credential = MySqlCachingSha2Password nonce response\<rparr> = Inr p
       \<and> engine_reaches (h_engine (env_handle V)) (ap_username p) d d')"
proof -
  have reach: "engine_reaches (h_engine (env_handle V)) user d (snd (snd (command_loop V d session rest)))"
    if user: "s_username session = user" for session user rest
  proof -
    obtain r out d' where l: "command_loop V d session rest = (r, out, d')" by (metis prod_cases3)
    from reached.loop_keeps [OF refl user reach_start l] l show ?thesis by simp
  qed
  have auth: "\<exists>p. authenticate d \<lparr>rq_protocol = MySqlWire, rq_username = hr_username response,
           rq_credential = MySqlCachingSha2Password nonce (hr_auth_response response)\<rparr> = Inr p \<and> user = ap_username p"
    if "authenticate_mysql_client (authenticate d) sq nonce response = (Inr user, written)" for sq response user written
    using that by (auto simp: authenticate_mysql_client_def Let_def split: if_splits sum.splits prod.splits)
  obtain hello sq where w: "write_packet 0 (build_initial_handshake connection_id nonce) = (hello, sq)" by fastforce
  note unfolded = handle_mysql_socket_def w Let_def
  show ?thesis
  proof (cases "read_packet stream")
    case (Inl e)
    then show ?thesis by (simp add: unfolded)
  next
    case (Inr pr)
    then obtain packet rest where read: "read_packet stream = Inr (packet, rest)" by (cases pr) auto
    show ?thesis
    proof (cases "parse_handshake_response (pk_payload packet)")
      case (Inl e)
      with read show ?thesis by (simp add: unfolded)
    next
      case (Inr response)
      obtain a written where a: "authenticate_mysql_client (authenticate d) (pk_sequence packet + 1) nonce response = (a, written)"
        by fastforce
      show ?thesis
      proof (cases a)
        case (Inl e)
        with read Inr a show ?thesis by (simp add: unfolded)
      next
        case user: (Inr user)
        let ?session = "new_session user (hr_database response) (hr_capabilities response) (hr_attrs response)"
        have "s_username ?session = user" by (simp add: new_session_def)
        from reach [OF this, of rest] auth [OF a [unfolded user]] read Inr a user show ?thesis
          by (auto simp add: unfolded split: prod.split)
      qed
    qed
  qed
qed

text \<open>A statement that cannot be prepared costs the client its connection: nothing is written and
  what it sent afterwards is never read.\<close>

theorem failed_prepare_ends_the_connection:
  assumes "utf8_valid payload"
    and "rewrite_mysql_placeholders (trim (string_of payload)) = (marked, n)"
    and "mysql_execution_sql (env_rewrite V) marked session = Inr bound"
    and "describe_sql_with_params_as (env_handle V) d (s_username session) bound (dummy_params_for_describe bound n) = (Inl e, d1)"
    and "\<not> panics e"
  shows "command_loop V d session (fst (write_packet 0 (COM_STMT_PREPARE # payload)) @ rest) = (Inl (PrepareFailed e), [], d1)"
proof -
  have read: "read_packet (fst (write_packet 0 (COM_STMT_PREPARE # payload)) @ rest)
      = Inr (\<lparr>pk_sequence = of_nat (length (COM_STMT_PREPARE # payload) div MAX_PACKET_LEN),
              pk_payload = COM_STMT_PREPARE # payload\<rparr>, rest)"
    using read_loop_written [of "[]" 0 "COM_STMT_PREPARE # payload" rest] by (simp add: read_packet_def)
  have "handle_stmt_prepare V d session payload = (Inl (PrepareFailed e), [], d1)"
    using assms by (simp add: handle_stmt_prepare_def Let_def)
  then have "handle_command V d session COM_STMT_PREPARE payload = (Inl (PrepareFailed e), [], d1)"
    by (simp add: handle_command_def command_codes)
  moreover have "COM_STMT_PREPARE \<noteq> COM_QUIT" by (simp add: command_codes)
  ultimately show ?thesis
    by (simp add: command_loop.simps [of _ _ _ "fst (write_packet 0 (COM_STMT_PREPARE # payload)) @ rest"] read)
qed

section \<open>Witnesses\<close>

text \<open>An engine that counts its requests and refuses to describe, for the witnesses.\<close>

definition counting_environment :: "nat environment" where
  "counting_environment =
     \<lparr>env_handle = \<lparr>h_engine = \<lparr>query_typed = (\<lambda>d user sql route command. (Inr (TypedQuery [] []), Suc d)),
                      execute_typed = (\<lambda>d user sql route command. (Inr (TypedExecute command 1), Suc d)),
                      describe = (\<lambda>d user sql route. (Inl (ExecutionFailed ''no such table''), Suc d))\<rparr>,
        h_parser = one_statement (Query \<lparr>q_fetch = False, q_limit_clause = None\<rparr>), h_fmt = no_floats\<rparr>,
      env_rewrite = (\<lambda>sql schema user. Inr None), env_text = (\<lambda>e. ''failed'')\<rparr>"

theorem commands_are_answered_witness:
  "let s = new_session ''bob'' None 0 []; out = fst (write_packet 1 ok_packet)
   in session_ok s \<and> s_username s = s_username s \<and> (if COM_QUERY = COM_STMT_CLOSE then out = [] else answered out)"
proof -
  let ?s = "new_session ''bob'' None 0 []"
  have "utf8_valid (bytes_of ''Commit;'')" "is_mysql_session_statement (trim ''Commit;'')" "COM_QUERY \<noteq> COM_PING" "COM_QUERY \<noteq> COM_INIT_DB"
    by code_simp+
  then have "handle_command counting_environment 7 ?s COM_QUERY (bytes_of ''Commit;'')
      = (Inr ?s, fst (write_packet 1 ok_packet), 7)"
    by (simp add: handle_command_def handle_query_def)
  moreover have "session_ok ?s"
    using valid_new_session by (simp add: session_ok_def) (simp add: new_session_def)
  ultimately show ?thesis unfolding Let_def by (rule commands_are_answered)
qed

theorem failed_prepare_ends_the_connection_witness:
  "command_loop counting_environment 7 (new_session ''bob'' None 0 [])
     (fst (write_packet 0 (COM_STMT_PREPARE # bytes_of ''SELECT ?'')) @ [1, 2, 3])
   = (Inl (PrepareFailed (ExecutionFailed ''no such table'')), [], 8)"
  by (rule failed_prepare_ends_the_connection [where marked = "''SELECT $1''" and n = 1 and bound = "''SELECT $1''"]) code_simp+

text \<open>A query with a letter beyond ASCII outside its literals ends the connection.\<close>

theorem non_ascii_query_ends_the_connection:
  "handle_query counting_environment 7 (new_session ''bob'' None 0 []) (bytes_of (''SELECT 1 AS '' @ [CHR 0xC3, CHR 0xA9]))
   = (Inl ConnPanic, [], 7)"
  by code_simp

end
