(* ===== verification/Engine_Value.thy ===== *)
theory Engine_Value
  imports Mysql_Result
begin

text \<open>
  From the engine's cells to result values: the second half of \<^verbatim>\<open>src/db/execute.rs\<close>. The cells are the
  variants of DuckDB's \<^verbatim>\<open>ValueRef\<close>, the columns its logical types; the calendar, decimals, UUIDs
  and JSON belong to other crates and are the record \<open>conversions\<close>. Main result: a cell goes over the
  wire in the encoding its column announces, except where the calendar does not reach it.
\<close>

section \<open>Columns\<close>

datatype logical_type =
    LBoolean | LTinyint | LSmallint | LInteger | LBigint | LUTinyint | LUSmallint | LUInteger | LUBigint
  | LHugeint | LUHugeint | LDecimal | LBignum | LFloat | LDouble
  | LTimestamp | LTimestampS | LTimestampMs | LTimestampNs | LTimestampTZ | LDate | LTime | LTimeNs | LTimeTZ
  | LUuid | LBlob | LVarchar | LStringLiteral | LIntegerLiteral | LEnum | LInterval | LBit
  | LAny | LSqlNull | LInvalid | LUnsupported | LList | LStruct | LMap | LUnion | LArray | LVariant

definition sql_type_for_duckdb_type :: "logical_type \<Rightarrow> sql_type" where
  "sql_type_for_duckdb_type type_id =
     (if type_id = LBoolean then TBool
      else if type_id \<in> {LTinyint, LSmallint, LUTinyint} then TInt2
      else if type_id \<in> {LInteger, LUSmallint} then TInt4
      else if type_id \<in> {LBigint, LUInteger, LIntegerLiteral} then TInt8
      else if type_id \<in> {LHugeint, LUHugeint, LUBigint, LDecimal, LBignum} then TNumeric
      else if type_id = LFloat then TFloat4
      else if type_id = LDouble then TFloat8
      else if type_id \<in> {LTimestamp, LTimestampS, LTimestampMs, LTimestampNs} then TTimestamp
      else if type_id = LTimestampTZ then TTimestampTz
      else if type_id = LDate then TDate
      else if type_id \<in> {LTime, LTimeNs} then TTime
      else if type_id = LUuid then TUuid
      else if type_id = LBlob then TBytea
      else if type_id \<in> {LVarchar, LStringLiteral, LEnum, LInterval, LBit, LTimeTZ, LAny, LSqlNull, LInvalid, LUnsupported}
        then TText
      else if type_id \<in> {LList, LStruct, LMap, LUnion, LArray, LVariant} then TJson
      else TText)"

text \<open>The columns of a statement: each with its name, when the engine gives one, and its type.\<close>

definition statement_columns :: "(string option \<times> logical_type option) list \<Rightarrow> sql_column list" where
  "statement_columns stmt_columns =
     map (\<lambda>(idx, name, type_id).
         \<lparr>col_name = (case name of Some n \<Rightarrow> n | None \<Rightarrow> ''column_'' @ show_nat idx),
          col_type = sql_type_for_duckdb_type (case type_id of Some t \<Rightarrow> t | None \<Rightarrow> LUnsupported)\<rparr>)
       (enumerate 0 stmt_columns)"

section \<open>Cells\<close>

datatype time_unit = Seconds | Milliseconds | Microseconds | Nanoseconds

text \<open>Owned values and the JSON made from them.\<close>

datatype duck_value =
    DNull | DBoolean bool | DTinyInt "8 word" | DSmallInt "16 word" | DInt "32 word" | DBigInt "64 word" | DHugeInt int
  | DUTinyInt "8 word" | DUSmallInt "16 word" | DUInt "32 word" | DUBigInt "64 word" | DFloat "32 word" | DDouble "64 word"
  | DDecimal string | DTimestamp time_unit int | DText string | DBlob "u8 list" | DDate32 int | DTime64 time_unit int
  | DInterval "32 word" "32 word" "64 word" | DList "duck_value list" | DArray "duck_value list" | DEnum string
  | DStruct "(string \<times> duck_value) list" | DMap "(duck_value \<times> duck_value) list" | DUnion duck_value

datatype json =
    JNull | JBool bool | JInt int | JFloat "64 word" | JString string | JArray "json list" | JObject "(string \<times> json) list"

datatype cell =
    RNull | RBoolean bool | RTinyInt "8 word" | RSmallInt "16 word" | RInt "32 word" | RBigInt "64 word"
  | RHugeInt int | RUTinyInt "8 word" | RUSmallInt "16 word" | RUInt "32 word" | RUBigInt "64 word"
  | RFloat "32 word" | RDouble "64 word" | RDecimal string | RTimestamp time_unit int | RText "u8 list"
  | RBlob "u8 list" | RDate32 int | RTime64 time_unit int | RInterval "32 word" "32 word" "64 word"
  | REnum "string option" duck_value | RComposite duck_value

record conversions =
  to_micros :: "time_unit \<Rightarrow> int \<Rightarrow> int"
  from_timestamp :: "int \<Rightarrow> nat \<Rightarrow> (naive_date \<times> naive_time) option"
  date_after_epoch :: "int \<Rightarrow> naive_date option"
  from_midnight :: "nat \<Rightarrow> nat \<Rightarrow> naive_time option"
  decimal_from_i128 :: "int \<Rightarrow> string option"
  parse_uuid :: "string \<Rightarrow> string option"
  utf8_lossy :: "u8 list \<Rightarrow> string"
  json_text :: "json \<Rightarrow> string"
  float_text :: "64 word \<Rightarrow> string"
  unit_text :: "time_unit \<Rightarrow> string"

definition timestamp_to_utc :: "conversions \<Rightarrow> time_unit \<Rightarrow> int \<Rightarrow> (naive_date \<times> naive_time) option" where
  "timestamp_to_utc C unt val =
     (let micros = to_micros C unt val
      in from_timestamp C (micros div 1000000) (nat (micros mod 1000000) * 1000))"

definition format_timestamp :: "conversions \<Rightarrow> time_unit \<Rightarrow> int \<Rightarrow> string" where
  "format_timestamp C unt val = (case timestamp_to_utc C unt val of
     Some (d, t) \<Rightarrow> format_date d @ '' '' @ format_time t
   | None \<Rightarrow> show_int val @ '' '' @ unit_text C unt)"

definition timestamp_value :: "conversions \<Rightarrow> time_unit \<Rightarrow> int \<Rightarrow> sql_type \<Rightarrow> sql_value" where
  "timestamp_value C unt val data_type = (case timestamp_to_utc C unt val of
     None \<Rightarrow> VText (format_timestamp C unt val)
   | Some (d, t) \<Rightarrow> if data_type = TTimestampTz then VTimestampTz d t else VTimestamp d t)"

definition date32_to_date :: "conversions \<Rightarrow> int \<Rightarrow> naive_date option" where
  "date32_to_date C days = date_after_epoch C days"

definition time64_to_time :: "conversions \<Rightarrow> time_unit \<Rightarrow> int \<Rightarrow> naive_time option" where
  "time64_to_time C unt val =
     (let micros = to_micros C unt val mod 86400000000
      in from_midnight C (nat (micros div 1000000)) (nat (micros mod 1000000) * 1000))"

definition format_time64 :: "conversions \<Rightarrow> time_unit \<Rightarrow> int \<Rightarrow> string" where
  "format_time64 C unt val = (case time64_to_time C unt val of
     Some t \<Rightarrow> format_time t | None \<Rightarrow> show_int val @ '' '' @ unit_text C unt)"

definition format_date32 :: "conversions \<Rightarrow> int \<Rightarrow> string" where
  "format_date32 C days = (case date32_to_date C days of Some d \<Rightarrow> format_date d | None \<Rightarrow> show_int days)"

definition float_json :: "conversions \<Rightarrow> 64 word \<Rightarrow> json" where
  "float_json C v = (if f64_is_finite v then JFloat v else JString (float_text C v))"

fun duckdb_value_to_json :: "conversions \<Rightarrow> duck_value \<Rightarrow> json" where
  "duckdb_value_to_json C DNull = JNull"
| "duckdb_value_to_json C (DBoolean v) = JBool v"
| "duckdb_value_to_json C (DTinyInt v) = JInt (sint v)"
| "duckdb_value_to_json C (DSmallInt v) = JInt (sint v)"
| "duckdb_value_to_json C (DInt v) = JInt (sint v)"
| "duckdb_value_to_json C (DBigInt v) = JInt (sint v)"
| "duckdb_value_to_json C (DHugeInt v) = JString (show_int v)"
| "duckdb_value_to_json C (DUTinyInt v) = JInt (uint v)"
| "duckdb_value_to_json C (DUSmallInt v) = JInt (uint v)"
| "duckdb_value_to_json C (DUInt v) = JInt (uint v)"
| "duckdb_value_to_json C (DUBigInt v) = JInt (uint v)"
| "duckdb_value_to_json C (DFloat v) = float_json C (f32_to_f64 v)"
| "duckdb_value_to_json C (DDouble v) = float_json C v"
| "duckdb_value_to_json C (DDecimal v) = JString v"
| "duckdb_value_to_json C (DTimestamp unt v) = JString (format_timestamp C unt v)"
| "duckdb_value_to_json C (DText v) = JString v"
| "duckdb_value_to_json C (DBlob v) = JString ([CHR 0x5C, CHR ''x''] @ hex_encode v)"
| "duckdb_value_to_json C (DDate32 v) = JString (format_date32 C v)"
| "duckdb_value_to_json C (DTime64 unt v) = JString (format_time64 C unt v)"
| "duckdb_value_to_json C (DInterval months days nanos) =
     JObject [(''months'', JInt (sint months)), (''days'', JInt (sint days)), (''nanos'', JInt (sint nanos))]"
| "duckdb_value_to_json C (DList vs) = JArray (map (duckdb_value_to_json C) vs)"
| "duckdb_value_to_json C (DArray vs) = JArray (map (duckdb_value_to_json C) vs)"
| "duckdb_value_to_json C (DEnum v) = JString v"
| "duckdb_value_to_json C (DStruct members) = JObject (map (\<lambda>(name, v). (name, duckdb_value_to_json C v)) members)"
| "duckdb_value_to_json C (DMap entries) =
     JArray (map (\<lambda>(k, v). JObject [(''key'', duckdb_value_to_json C k), (''value'', duckdb_value_to_json C v)]) entries)"
| "duckdb_value_to_json C (DUnion v) = duckdb_value_to_json C v"

fun value_ref_to_sql_value :: "conversions \<Rightarrow> cell \<Rightarrow> sql_type \<Rightarrow> sql_value" where
  "value_ref_to_sql_value C RNull ty = VNull"
| "value_ref_to_sql_value C (RBoolean v) ty = VBool v"
| "value_ref_to_sql_value C (RTinyInt v) ty = VInt16 (scast v)"
| "value_ref_to_sql_value C (RSmallInt v) ty = VInt16 v"
| "value_ref_to_sql_value C (RInt v) ty = VInt32 v"
| "value_ref_to_sql_value C (RBigInt v) ty = VInt64 v"
| "value_ref_to_sql_value C (RHugeInt v) ty =
     (case decimal_from_i128 C v of Some d \<Rightarrow> VDecimal d | None \<Rightarrow> VNumericText (show_int v))"
| "value_ref_to_sql_value C (RUTinyInt v) ty = VInt16 (ucast v)"
| "value_ref_to_sql_value C (RUSmallInt v) ty = VInt32 (ucast v)"
| "value_ref_to_sql_value C (RUInt v) ty = VInt64 (ucast v)"
| "value_ref_to_sql_value C (RUBigInt v) ty = VDecimal (show_nat (unat v))"
| "value_ref_to_sql_value C (RFloat v) ty = VFloat32 v"
| "value_ref_to_sql_value C (RDouble v) ty = VFloat64 v"
| "value_ref_to_sql_value C (RDecimal v) ty = VDecimal v"
| "value_ref_to_sql_value C (RTimestamp unt v) ty = timestamp_value C unt v ty"
| "value_ref_to_sql_value C (RText v) ty =
     (let s = utf8_lossy C v in
      if ty = TUuid then (case parse_uuid C s of Some u \<Rightarrow> VUuid u | None \<Rightarrow> VText s) else VText s)"
| "value_ref_to_sql_value C (RBlob v) ty = VBytes v"
| "value_ref_to_sql_value C (RDate32 v) ty =
     (case date32_to_date C v of Some d \<Rightarrow> VDate d | None \<Rightarrow> VText (show_int v))"
| "value_ref_to_sql_value C (RTime64 unt v) ty =
     (case time64_to_time C unt v of Some t \<Rightarrow> VTime t | None \<Rightarrow> VText (format_time64 C unt v))"
| "value_ref_to_sql_value C (RInterval months days nanos) ty = VInterval months days nanos"
| "value_ref_to_sql_value C (REnum name j) ty =
     (case name of Some n \<Rightarrow> VText n | None \<Rightarrow> VJson (json_text C (duckdb_value_to_json C j)))"
| "value_ref_to_sql_value C (RComposite j) ty = VJson (json_text C (duckdb_value_to_json C j))"

text \<open>A cell that cannot be read is NULL.\<close>

definition cell_to_sql_value :: "conversions \<Rightarrow> cell option \<Rightarrow> sql_type \<Rightarrow> sql_value" where
  "cell_to_sql_value C c ty = (case c of Some v \<Rightarrow> value_ref_to_sql_value C v ty | None \<Rightarrow> VNull)"

text \<open>\<^verbatim>\<open>query_typed_sql_blocking\<close>: the rows one by one, up to the limit.\<close>

datatype query_err = RowLimitExceeded nat

fun collect_rows :: "conversions \<Rightarrow> sql_column list \<Rightarrow> nat \<Rightarrow> sql_value list list \<Rightarrow> cell option list list
    \<Rightarrow> query_err + sql_value list list" where
  "collect_rows C cols max_result_rows done_rows [] = Inr done_rows"
| "collect_rows C cols max_result_rows done_rows (row # rows) =
     (if max_result_rows \<le> length done_rows then Inl (RowLimitExceeded max_result_rows)
      else collect_rows C cols max_result_rows
        (done_rows @ [map (\<lambda>(c, col). cell_to_sql_value C c (col_type col)) (zip row cols)]) rows)"

definition query_typed_rows ::
    "conversions \<Rightarrow> nat \<Rightarrow> (string option \<times> logical_type option) list \<Rightarrow> cell option list list \<Rightarrow> query_err + sql_typed_result" where
  "query_typed_rows C max_result_rows stmt_columns rows =
     (let cols = statement_columns stmt_columns in
      case collect_rows C cols max_result_rows [] rows of
        Inl e \<Rightarrow> Inl e | Inr found \<Rightarrow> Inr (TypedQuery cols found))"

section \<open>Cells and the columns they stand in\<close>

text \<open>The variants the driver gives for a column of a type.\<close>

fun fits :: "cell \<Rightarrow> logical_type \<Rightarrow> bool" where
  "fits RNull ty = True"
| "fits (RBoolean _) ty = (ty = LBoolean)"
| "fits (RTinyInt _) ty = (ty = LTinyint)"
| "fits (RSmallInt _) ty = (ty = LSmallint)"
| "fits (RInt _) ty = (ty = LInteger)"
| "fits (RBigInt _) ty = (ty = LBigint \<or> ty = LIntegerLiteral)"
| "fits (RHugeInt _) ty = (ty = LHugeint)"
| "fits (RUTinyInt _) ty = (ty = LUTinyint)"
| "fits (RUSmallInt _) ty = (ty = LUSmallint)"
| "fits (RUInt _) ty = (ty = LUInteger)"
| "fits (RUBigInt _) ty = (ty = LUBigint)"
| "fits (RFloat _) ty = (ty = LFloat)"
| "fits (RDouble _) ty = (ty = LDouble)"
| "fits (RDecimal _) ty = (ty = LDecimal)"
| "fits (RTimestamp _ _) ty = (ty \<in> {LTimestamp, LTimestampS, LTimestampMs, LTimestampNs, LTimestampTZ})"
| "fits (RText _) ty = (ty \<in> {LVarchar, LStringLiteral, LUuid})"
| "fits (RBlob _) ty = (ty = LBlob)"
| "fits (RDate32 _) ty = (ty = LDate)"
| "fits (RTime64 _ _) ty = (ty = LTime \<or> ty = LTimeNs)"
| "fits (RInterval _ _ _) ty = (ty = LInterval)"
| "fits (REnum _ _) ty = (ty = LEnum)"
| "fits (RComposite _) ty = (ty \<in> {LList, LStruct, LMap, LUnion, LArray})"

text \<open>The calendar reaches the cell.\<close>

fun in_calendar :: "conversions \<Rightarrow> cell \<Rightarrow> bool" where
  "in_calendar C (RTimestamp unt v) = (timestamp_to_utc C unt v \<noteq> None)"
| "in_calendar C (RDate32 v) = (date32_to_date C v \<noteq> None)"
| "in_calendar C (RTime64 unt v) = (time64_to_time C unt v \<noteq> None)"
| "in_calendar C _ = True"

definition announced :: "logical_type \<Rightarrow> u8" where
  "announced ty = fst (mysql_type_for_sql_type (sql_type_for_duckdb_type ty))"

lemma shared_encodings:
  "parse_binary_param MYSQL_TYPE_NEWDECIMAL = parse_binary_param MYSQL_TYPE_VAR_STRING"
  "parse_binary_param MYSQL_TYPE_JSON = parse_binary_param MYSQL_TYPE_VAR_STRING"
  "parse_binary_param MYSQL_TYPE_DATETIME = parse_binary_param MYSQL_TYPE_DATE"
  "parse_binary_param MYSQL_TYPE_TIMESTAMP = parse_binary_param MYSQL_TYPE_DATE"
  by (simp_all add: parse_binary_param_def mysql_type_defs)

lemma announced_encoding:
  assumes "fits c ty" and "in_calendar C c" and "c \<noteq> RNull"
  shows "parse_binary_param (announced ty)
    = parse_binary_param (wire_type (value_ref_to_sql_value C c (sql_type_for_duckdb_type ty)))"
  using assms
  by (cases c) (auto simp: announced_def sql_type_for_duckdb_type_def timestamp_value_def Let_def shared_encodings
      split: option.split)

lemma cell_null: "value_ref_to_sql_value C c ty = VNull \<longleftrightarrow> c = RNull"
  by (cases c) (auto simp: timestamp_value_def Let_def split: option.split)

text \<open>Types matter only where the bitmap shows a value.\<close>

lemma read_values_types:
  "length as = length bs \<Longrightarrow>
   (\<And>k. k < length as \<Longrightarrow> null_bit bitmap (i + k) \<or> parse_binary_param (as ! k) = parse_binary_param (bs ! k)) \<Longrightarrow>
   read_values bitmap i as = read_values bitmap i bs"
proof (induction as bs arbitrary: i rule: list_induct2)
  case (Cons a as b bs)
  from Cons.prems [of 0] have "null_bit bitmap i \<or> parse_binary_param a = parse_binary_param b" by simp
  moreover have "read_values bitmap (Suc i) as = read_values bitmap (Suc i) bs"
    using Cons.prems [of "Suc k" for k] by (intro Cons.IH) auto
  ultimately show ?case by auto
qed simp

text \<open>The values of a row whose cells stand under these types.\<close>

definition row_values :: "conversions \<Rightarrow> cell list \<Rightarrow> logical_type list \<Rightarrow> sql_value list" where
  "row_values C cells types = map2 (\<lambda>c ty. value_ref_to_sql_value C c (sql_type_for_duckdb_type ty)) cells types"

lemma announced_row:
  assumes "list_all2 fits cells types" and "list_all (in_calendar C) cells"
    and "list_all (sendable F) (row_values C cells types)"
  shows "reads (read_binary_row (map announced types)) (binary_row F (row_values C cells types))
    (map (wire_param F) (row_values C cells types))"
proof -
  let ?row = "row_values C cells types" and ?bitmap = "\<lambda>n. set_null_bits 0 (row_values C cells types) (replicate n 0)"
  have len: "length cells = length types" "length ?row = length types"
    using assms(1) by (auto simp: row_values_def list_all2_lengthD)
  have same: "read_values (?bitmap ((length ?row + 7 + 2) div 8)) 2 (map announced types)
      = read_values (?bitmap ((length ?row + 7 + 2) div 8)) 2 (map wire_type ?row)"
  proof (rule read_values_types)
    fix k assume "k < length (map announced types)"
    then have k: "k < length ?row" using len by simp
    then have nth: "?row ! k = value_ref_to_sql_value C (cells ! k) (sql_type_for_duckdb_type (types ! k))"
      using len by (simp add: row_values_def)
    have "fits (cells ! k) (types ! k)" "in_calendar C (cells ! k)"
      using assms(1,2) k len by (auto simp: list_all2_conv_all_nth list_all_length)
    then show "null_bit (?bitmap ((length ?row + 7 + 2) div 8)) (2 + k)
        \<or> parse_binary_param (map announced types ! k) = parse_binary_param (map wire_type ?row ! k)"
      using row_bitmap [OF k] announced_encoding [of "cells ! k" "types ! k" C] cell_null k len nth by auto
  qed (simp add: len)
  have "reads (read_values (?bitmap ((length ?row + 7 + 2) div 8)) 2 (map wire_type ?row))
      (concat (map (put_binary_value F) ?row)) (map (wire_param F) ?row)"
    by (rule reads_values [OF row_bitmap assms(3)])
  then have "reads (read_values (?bitmap ((length ?row + 7 + 2) div 8)) 2 (map announced types))
      (concat (map (put_binary_value F) ?row)) (map (wire_param F) ?row)"
    by (simp only: same)
  then show ?thesis
    unfolding read_binary_row_def binary_row_def append_Cons append_Nil
    by (intro reads_byte reads_dbind [OF reads_take]) (simp_all add: len)
qed

section \<open>Properties\<close>

text \<open>A client that decodes a binary row by the types its columns announce gets every value as it was
  sent: whatever mixture of columns a statement has, the encoding of each cell is that of its column.
  (Required: the driver gives each column the variant of its type, and dates and times are ones the
  calendar has.)\<close>

theorem rows_decode_by_their_columns:
  assumes "list_all2 fits cells types" and "list_all (in_calendar C) cells"
    and "list_all (sendable F) (row_values C cells types)"
  shows "read_binary_row (map announced types) (pre @ binary_row F (row_values C cells types) @ rest) (length pre)
    = Inr (map (wire_param F) (row_values C cells types), length pre + length (binary_row F (row_values C cells types)))"
  by (rule readsD [OF announced_row [OF assms]])

text \<open>A date the calendar does not reach is sent as a text under a column announced as a date, and read
  as something else.\<close>

theorem far_dates_break_the_row:
  assumes "date_after_epoch C days = None"
  shows "announced LDate = MYSQL_TYPE_DATE
    \<and> wire_type (value_ref_to_sql_value C (RDate32 days) (sql_type_for_duckdb_type LDate)) = MYSQL_TYPE_VAR_STRING"
  using assms by (simp add: announced_def sql_type_for_duckdb_type_def date32_to_date_def)

text \<open>No infinite or undefined number is written into JSON.\<close>

fun json_numbers_finite :: "json \<Rightarrow> bool" where
  "json_numbers_finite (JFloat v) = f64_is_finite v"
| "json_numbers_finite (JArray vs) = list_all json_numbers_finite vs"
| "json_numbers_finite (JObject ms) = list_all (\<lambda>(k, v). json_numbers_finite v) ms"
| "json_numbers_finite _ = True"

theorem json_has_finite_numbers: "json_numbers_finite (duckdb_value_to_json C v)"
  by (induction C v rule: duckdb_value_to_json.induct) (auto simp: float_json_def list_all_iff)

text \<open>A query returns at most the configured number of rows, all of them or an error.\<close>

lemma collect_rows_all:
  "collect_rows C cols n acc rows = Inr found \<Longrightarrow> length acc \<le> n \<Longrightarrow>
   length found = length acc + length rows \<and> length found \<le> n"
  by (induction C cols n acc rows rule: collect_rows.induct) (auto split: if_splits)

theorem queries_are_bounded:
  "case query_typed_rows C n stmt_columns rows of
     Inr (TypedQuery cols found) \<Rightarrow> length found = length rows \<and> length rows \<le> n
       \<and> length cols = length stmt_columns
   | Inr (TypedExecute command affected_rows) \<Rightarrow> False
   | Inl e \<Rightarrow> n < length rows"
proof -
  have err: "collect_rows C cols n acc rows = Inl e \<Longrightarrow> length acc \<le> n \<Longrightarrow> n < length acc + length rows" for cols acc e
    by (induction C cols n acc rows rule: collect_rows.induct) (auto split: if_splits)
  show ?thesis
    using collect_rows_all [of C "statement_columns stmt_columns" n "[]" rows] err [of "statement_columns stmt_columns" "[]"]
    by (auto simp: query_typed_rows_def Let_def statement_columns_def split: sum.split)
qed

section \<open>Witnesses\<close>

text \<open>A calendar of one day, for the witnesses.\<close>

definition one_day :: conversions where
  "one_day = \<lparr>to_micros = (\<lambda>unt val. val), from_timestamp = (\<lambda>s n. None),
     date_after_epoch = (\<lambda>days. if days = 0 then Some \<lparr>d_year = 1970, d_month = 1, d_day = 1\<rparr> else None),
     from_midnight = (\<lambda>s n. None), decimal_from_i128 = (\<lambda>v. None), parse_uuid = (\<lambda>s. None), utf8_lossy = string_of,
     json_text = (\<lambda>j. ''{}''), float_text = (\<lambda>v. ''NaN''), unit_text = (\<lambda>u. ''us'')\<rparr>"

theorem rows_decode_by_their_columns_witness:
  "let cells = [RNull, RInt (-5), RDate32 0, RUTinyInt 200, RHugeInt 7, RComposite (DList [])];
       types = [LVarchar, LInteger, LDate, LUTinyint, LHugeint, LList]
   in read_binary_row (map announced types) ([9] @ binary_row no_floats (row_values one_day cells types) @ [1]) (length [9 :: u8])
      = Inr (map (wire_param no_floats) (row_values one_day cells types),
             length [9 :: u8] + length (binary_row no_floats (row_values one_day cells types)))"
  unfolding Let_def by (rule rows_decode_by_their_columns) code_simp+

theorem far_dates_break_the_row_witness:
  "announced LDate = MYSQL_TYPE_DATE
    \<and> wire_type (value_ref_to_sql_value one_day (RDate32 110000000) (sql_type_for_duckdb_type LDate)) = MYSQL_TYPE_VAR_STRING"
  by (rule far_dates_break_the_row) code_simp

end
