(* ===== verification/Spec2Isabelle.thy ===== *)
theory Spec2Isabelle
  imports Params Mysql_Codec Mysql_Stmt Sql_Value Password Mysql_Session Sql_Scan Mysql_Scan Sql_Route
    Accounts Executor Recovery_Ops Mysql_Command Engine_Value
begin

text \<open>
  RSDuck is a server that keeps an in-process DuckDB engine behind a catalog of its own: users, roles and
  privileges, schemas, tables, views, indexes, managed range partitions, comments and a journal live in the tables
  of the schema \<^verbatim>\<open>rsduck_catalog\<close>, and every statement of a client passes a guard, an authorisation and a router
  before it reaches the engine. Clients speak the MySQL protocol. This development models that core, function by
  function; the names are those of the code under \<^verbatim>\<open>src/src\<close>.

  Foundations.
  \<^item> \<open>Prelude\<close> holds the error monad, the state monad with errors and the generic lemmas; \<open>Rust_Str\<close> the string
    functions of the standard library the code calls, on ASCII-valued bytes; \<open>Errors\<close> one constructor per error of
    the code; \<open>Sql_Ast\<close> the statements the code takes apart. The SQL parser is an argument, and so are the hash
    functions, the rendering of floating-point numbers and the calendar, collected in the record \<open>external\<close>
    of \<open>Db\<close> with the engine itself.

  Requests.
  \<^item> \<open>Mysql_Codec\<close> (\<^verbatim>\<open>server/mysql/codec.rs\<close>): packets and length-encoded items over byte lists;
    \<open>Mysql_Session\<close> (\<^verbatim>\<open>handshake.rs\<close>, \<^verbatim>\<open>auth.rs\<close>, \<^verbatim>\<open>session.rs\<close>, \<^verbatim>\<open>types.rs\<close>): the handshake; \<open>Mysql_Stmt\<close>
    (\<^verbatim>\<open>stmt.rs\<close>): prepared statements; \<open>Mysql_Scan\<close> (\<^verbatim>\<open>mysql_compat.rs\<close>): the SHOW dialect; \<open>Password\<close>
    (\<^verbatim>\<open>auth.rs\<close>): the caching_sha2 exchange. Shown: round trips of packets and client responses, the exchange accepts
    who knows the password, nothing is accepted without it, parameters follow the null bitmap.
  \<^item> \<open>Params\<close> (\<^verbatim>\<open>db/params.rs\<close>) and \<open>Sql_Value\<close> (\<^verbatim>\<open>db/model.rs\<close>): binding of parameters; no value can leave its
    literal. \<open>Sql_Scan\<close> (\<^verbatim>\<open>catalog/mutation/parser.rs\<close>) and \<open>Sql_Route\<close> (\<^verbatim>\<open>sql_route.rs\<close>): the scanners of the
    statements DuckDB does not know, and the choice between the read pool and the writer.
  \<^item> \<open>Guard_Text\<close> and \<open>Authorize\<close> (\<^verbatim>\<open>catalog/guard.rs\<close>, \<^verbatim>\<open>catalog/auth\<close>): reserved schemas, login and privileges. Shown:
    what an authorised statement of each kind has been checked for, and that the guard sees every qualified name of a
    private schema.

  The catalog.
  \<^item> \<open>Catalog_Store\<close> (\<^verbatim>\<open>catalog/storage.rs\<close>): a record with one list of rows per table, \<open>Catalog_Inv\<close> its
    well-formedness (the keys of the DDL). \<open>Db\<close> (\<^verbatim>\<open>journal.rs\<close>, \<^verbatim>\<open>oid.rs\<close>): a connection is the catalog, the
    physical side, the saved state of an open transaction and the statements the engine will still refuse; a query,
    statement or DDL can fail, and \<open>run_catalog_tx\<close> commits or restores. \<open>Checksum\<close>: the hash over all
    tables. \<open>Bootstrap\<close>: the first rows. \<open>Lookup\<close>: the lookups. \<open>Atomic\<close>, \<open>Progress\<close>, \<open>Rows\<close>: what every
    transaction gives, how to show that one succeeds, and the rows of a principal.
  \<^item> \<open>Accounts\<close>, \<open>Grants\<close>, \<open>Schemas\<close>, \<open>Type_Mapping\<close>: users and roles, GRANT and REVOKE, schemas and comments, type
    rows. Shown: a created user can log in, builtin roles and the administrator survive, GRANT and REVOKE refine union
    and difference of the access matrix.
  \<^item> \<open>Relations\<close>, \<open>Relation_Rows\<close>, \<open>Relation_Ddl\<close>, \<open>Relation_Steps\<close>, \<open>Relation_Ops\<close>, \<open>Relation_Drop\<close>,
    \<open>Partition_Index\<close> (\<^verbatim>\<open>catalog/mutation\<close>): CREATE and DROP of tables, views and indexes. Each operation fails without
    effect or does to the catalog exactly what its statement says. \<open>Integrity\<close> (\<^verbatim>\<open>recovery.rs\<close>): the checks of the next
    start as the code states them, and the proof that they pass exactly on the integral catalogs, which DROP keeps.
  \<^item> \<open>Calendar\<close>, \<open>Partition_Value\<close>, \<open>Partitions\<close>, \<open>Partition_Ddl\<close>, \<open>Partition_Ops\<close> (\<^verbatim>\<open>catalog/partition\<close>): managed
    range partitions: names and bounds, routing of rows, the entry-point view, retention, maintenance, repair.

  Interfaces are locales interpreted on the model: the laws of the calendar, of a keyed table, of an operation that
  works in one transaction, of a relation operation, of an operation on managed tables.

  Bounds. Machine integers of the wire are words; identifiers and counters of SQL (64-bit columns the engine checks)
  are unbounded integers. Loops over lists are folds and end; the scanners recurse on the rest of the text, so no
  fuel is needed. A panic of the code is the error \<open>EPanic\<close>.

  Not modelled: times of creation and update, log lines, the messages of the engine, files and sockets (snapshots,
  import, the web server, the tray application), threads and queues of the engine, and the ALTER statements.
\<close>

end
